(* ===== verification/Prelude.thy ===== *)
theory Prelude
  imports Main "HOL-Library.AList" "HOL-Library.Multiset" "HOL-Library.Char_ord" "HOL-Library.List_Lexorder"
begin

text \<open>
  What every component shares: the error monad over sums (\<open>Inl\<close> is a raised exception), Python
  dictionaries as association lists in insertion order, the few string operations the program
  uses, and the theorem collections the component proofs rest on.

  Strings are lists of characters; a character stands for a code point below 256.
\<close>

named_theorems errE \<open>rewrite rules of the error monad\<close>
named_theorems dictE \<open>facts about dictionaries\<close>

section \<open>Results that may be an exception\<close>

definition bindE :: "'e + 'a \<Rightarrow> ('a \<Rightarrow> 'e + 'b) \<Rightarrow> 'e + 'b" where
  "bindE m f = (case m of Inl e \<Rightarrow> Inl e | Inr x \<Rightarrow> f x)"

definition ensure :: "bool \<Rightarrow> 'e \<Rightarrow> 'e + unit" where
  "ensure b e = (if b then Inr () else Inl e)"

definition mapErr :: "('e \<Rightarrow> 'f) \<Rightarrow> 'e + 'a \<Rightarrow> 'f + 'a" where
  "mapErr h m = (case m of Inl e \<Rightarrow> Inl (h e) | Inr x \<Rightarrow> Inr x)"

text \<open>A \<open>for\<close> loop whose body may raise and changes nothing else.\<close>

fun iterE :: "('a \<Rightarrow> 'e + unit) \<Rightarrow> 'a list \<Rightarrow> 'e + unit" where
  "iterE f [] = Inr ()"
| "iterE f (x # xs) = bindE (f x) (\<lambda>_. iterE f xs)"

text \<open>A \<open>for\<close> loop whose body may raise and carries a local state.\<close>

fun foldE :: "('a \<Rightarrow> 's \<Rightarrow> 'e + 's) \<Rightarrow> 'a list \<Rightarrow> 's \<Rightarrow> 'e + 's" where
  "foldE f [] s = Inr s"
| "foldE f (x # xs) s = bindE (f x s) (\<lambda>s'. foldE f xs s')"

text \<open>Building a list from calls that may raise.\<close>

fun mapE :: "('a \<Rightarrow> 'e + 'b) \<Rightarrow> 'a list \<Rightarrow> 'e + 'b list" where
  "mapE f [] = Inr []"
| "mapE f (x # xs) = bindE (f x) (\<lambda>y. bindE (mapE f xs) (\<lambda>ys. Inr (y # ys)))"

definition isOk :: "'e + 'a \<Rightarrow> bool" where
  "isOk m = (case m of Inl _ \<Rightarrow> False | Inr _ \<Rightarrow> True)"

lemma bindE_Inr [simp]: "bindE (Inr x) f = f x"
  by (simp add: bindE_def)

lemma bindE_Inl [simp]: "bindE (Inl e) f = Inl e"
  by (simp add: bindE_def)

lemma bindE_eq_Inr [errE]: "bindE m f = Inr y \<longleftrightarrow> (\<exists>x. m = Inr x \<and> f x = Inr y)"
  by (cases m) simp_all

lemma bindE_eq_Inl [errE]:
  "bindE m f = Inl e \<longleftrightarrow> m = Inl e \<or> (\<exists>x. m = Inr x \<and> f x = Inl e)"
  by (cases m) simp_all

lemma bindE_assoc: "bindE (bindE m f) g = bindE m (\<lambda>x. bindE (f x) g)"
  by (cases m) simp_all

lemma ensure_True [simp]: "ensure True e = Inr ()"
  by (simp add: ensure_def)

lemma ensure_False [simp]: "ensure False e = Inl e"
  by (simp add: ensure_def)

lemma ensure_eq_Inr [errE]: "ensure b e = Inr u \<longleftrightarrow> b"
  by (simp add: ensure_def)

lemma ensure_eq_Inl [errE]: "ensure b e = Inl e' \<longleftrightarrow> \<not> b \<and> e' = e"
  by (auto simp: ensure_def)

lemma mapErr_Inr [simp]: "mapErr h (Inr x) = Inr x"
  by (simp add: mapErr_def)

lemma mapErr_Inl [simp]: "mapErr h (Inl e) = Inl (h e)"
  by (simp add: mapErr_def)

lemma mapErr_eq_Inr [errE]: "mapErr h m = Inr x \<longleftrightarrow> m = Inr x"
  by (cases m) simp_all

lemma mapErr_eq_Inl [errE]: "mapErr h m = Inl f \<longleftrightarrow> (\<exists>e. m = Inl e \<and> f = h e)"
  by (cases m) auto

lemma iterE_eq_Inr [errE]: "iterE f xs = Inr u \<longleftrightarrow> (\<forall>x\<in>set xs. f x = Inr ())"
  by (induction xs) (auto simp: bindE_eq_Inr)

lemma iterE_eq_Inl: "iterE f xs = Inl e \<Longrightarrow> \<exists>x\<in>set xs. f x = Inl e"
  by (induction xs) (auto simp: bindE_eq_Inl)

lemma iterE_append: "iterE f (xs @ ys) = bindE (iterE f xs) (\<lambda>_. iterE f ys)"
  by (induction xs) (simp_all add: bindE_assoc)

lemma iterE_cong [fundef_cong]:
  "xs = ys \<Longrightarrow> (\<And>x. x \<in> set ys \<Longrightarrow> f x = g x) \<Longrightarrow> iterE f xs = iterE g ys"
  by (induction xs arbitrary: ys) auto

lemma mapE_eq_Inr: "mapE f xs = Inr ys \<longleftrightarrow> list_all2 (\<lambda>x y. f x = Inr y) xs ys"
  by (induction xs arbitrary: ys) (auto simp: bindE_eq_Inr list_all2_Cons1)

lemma mapE_eq_Inl: "mapE f xs = Inl e \<Longrightarrow> \<exists>x\<in>set xs. f x = Inl e"
  by (induction xs) (auto simp: bindE_eq_Inl)

lemma isOk_Inr [simp]: "isOk (Inr x)"
  by (simp add: isOk_def)

lemma isOk_Inl [simp]: "\<not> isOk (Inl e)"
  by (simp add: isOk_def)

lemma isOk_iff: "isOk m \<longleftrightarrow> (\<exists>x. m = Inr x)"
  by (cases m) simp_all

section \<open>Operations on a state that may raise\<close>

text \<open>
  An operation takes the state and returns the next one with a result; a raised exception keeps
  the changes made before it, as Python does.
\<close>

type_synonym ('s, 'e, 'a) op = "'s \<Rightarrow> 's \<times> ('e + 'a)"

definition bindS :: "('s, 'e, 'a) op \<Rightarrow> ('a \<Rightarrow> ('s, 'e, 'b) op) \<Rightarrow> ('s, 'e, 'b) op" where
  "bindS m f s = (case m s of (s', Inl e) \<Rightarrow> (s', Inl e) | (s', Inr x) \<Rightarrow> f x s')"

text \<open>An expression that reads the state and may raise.\<close>

definition readS :: "('s \<Rightarrow> 'e + 'a) \<Rightarrow> ('s, 'e, 'a) op" where
  "readS f s = (s, f s)"

abbreviation liftS :: "'e + 'a \<Rightarrow> ('s, 'e, 'a) op" where
  "liftS m \<equiv> readS (\<lambda>_. m)"

abbreviation returnS :: "'a \<Rightarrow> ('s, 'e, 'a) op" where
  "returnS x \<equiv> readS (\<lambda>_. Inr x)"

abbreviation raiseS :: "'e \<Rightarrow> ('s, 'e, 'a) op" where
  "raiseS e \<equiv> readS (\<lambda>_. Inl e)"

definition putS :: "('s \<Rightarrow> 's) \<Rightarrow> ('s, 'e, unit) op" where
  "putS f s = (f s, Inr ())"

lemma bindS_readS [simp]:
  "bindS (readS g) f s = (case g s of Inl e \<Rightarrow> (s, Inl e) | Inr x \<Rightarrow> f x s)"
  by (cases "g s") (simp_all add: bindS_def readS_def)

lemma bindS_readE:
  assumes "bindS (readS g) f s = (t, r)"
  obtains (raised) e where "g s = Inl e" "t = s" "r = Inl e"
  | (returned) x where "g s = Inr x" "f x s = (t, r)"
  using assms by (cases "g s") auto

lemma bindS_putS [simp]: "bindS (putS g) f s = f () (g s)"
  by (simp add: bindS_def putS_def)

lemma readS_apply [simp]: "readS g s = (s, g s)"
  by (simp add: readS_def)

lemma putS_apply [simp]: "putS g s = (g s, Inr ())"
  by (simp add: putS_def)

lemma bindS_Inr:
  "bindS m f s = (t, Inr y) \<longleftrightarrow> (\<exists>u x. m s = (u, Inr x) \<and> f x u = (t, Inr y))"
  by (auto simp: bindS_def split: prod.splits sum.splits)

lemma bindS_Inl:
  "bindS m f s = (t, Inl e) \<longleftrightarrow>
     m s = (t, Inl e) \<or> (\<exists>u x. m s = (u, Inr x) \<and> f x u = (t, Inl e))"
  by (auto simp: bindS_def split: prod.splits sum.splits)

section \<open>Dictionaries\<close>

text \<open>
  A Python dictionary keeps its keys in insertion order: storing an existing key overwrites its
  value in place, a new key goes to the end. That is \<open>AList.update\<close> on an association list;
  lookup is \<open>map_of\<close>.
\<close>

type_synonym ('k, 'v) dict = "('k \<times> 'v) list"

abbreviation keys :: "('k, 'v) dict \<Rightarrow> 'k list" where
  "keys d \<equiv> map fst d"

abbreviation wf_dict :: "('k, 'v) dict \<Rightarrow> bool" where
  "wf_dict d \<equiv> distinct (map fst d)"

definition dict_update :: "('k, 'v) dict \<Rightarrow> ('k, 'v) dict \<Rightarrow> ('k, 'v) dict" where
  "dict_update d e = fold (\<lambda>(k, v). AList.update k v) e d"

definition has_key :: "('k, 'v) dict \<Rightarrow> 'k \<Rightarrow> bool" where
  "has_key d k \<longleftrightarrow> k \<in> set (keys d)"

definition dict_of_keys :: "('k \<Rightarrow> 'v) \<Rightarrow> 'k list \<Rightarrow> ('k, 'v) dict" where
  "dict_of_keys f ks = fold (\<lambda>k. AList.update k (f k)) ks []"

lemma has_key_map_of [dictE]: "has_key d k \<longleftrightarrow> map_of d k \<noteq> None"
  by (auto simp: has_key_def map_of_eq_None_iff)

lemma map_of_fold_update [dictE]:
  "wf_dict e \<Longrightarrow> map_of (fold (\<lambda>(k, v). AList.update k v) e d) k =
     (case map_of e k of None \<Rightarrow> map_of d k | Some v \<Rightarrow> Some v)"
proof (induction e arbitrary: d)
  case Nil
  then show ?case by simp
next
  case (Cons p e)
  then have "map_of e (fst p) = None"
    by (simp add: map_of_eq_None_iff)
  with Cons show ?case
    by (cases p) (auto simp: update_conv' split: option.splits)
qed

lemma map_of_dict_update [dictE]:
  "wf_dict e \<Longrightarrow> map_of (dict_update d e) k =
     (case map_of e k of None \<Rightarrow> map_of d k | Some v \<Rightarrow> Some v)"
  by (simp add: dict_update_def map_of_fold_update)

lemma keys_fold_update [dictE]:
  "set (keys (fold (\<lambda>(k, v). AList.update k v) e d)) = set (keys d) \<union> set (keys e)"
  by (induction e arbitrary: d) (auto simp: dom_update split: prod.splits)

lemma keys_dict_update [dictE]: "set (keys (dict_update d e)) = set (keys d) \<union> set (keys e)"
  by (simp only: dict_update_def keys_fold_update)

lemma wf_dict_update [dictE]: "wf_dict d \<Longrightarrow> wf_dict (dict_update d e)"
  unfolding dict_update_def
  by (induction e arbitrary: d) (auto simp: distinct_update split: prod.splits)

lemma dict_update_Nil [simp]: "dict_update d [] = d"
  by (simp add: dict_update_def)

lemma keys_dict_of_keys_aux:
  "set (keys (fold (\<lambda>k. AList.update k (f k)) ks d)) = set (keys d) \<union> set ks"
  by (induction ks arbitrary: d) (auto simp: dom_update)

lemma keys_dict_of_keys [dictE]: "set (keys (dict_of_keys f ks)) = set ks"
  by (simp add: dict_of_keys_def keys_dict_of_keys_aux del: set_map)

lemma map_of_dict_of_keys_aux:
  "map_of (fold (\<lambda>k. AList.update k (f k)) ks d) k =
     (if k \<in> set ks then Some (f k) else map_of d k)"
  by (induction ks arbitrary: d) (auto simp: update_conv')

lemma map_of_dict_of_keys [dictE]:
  "map_of (dict_of_keys f ks) k = (if k \<in> set ks then Some (f k) else None)"
  by (simp add: dict_of_keys_def map_of_dict_of_keys_aux)

lemma wf_dict_of_keys_aux: "wf_dict d \<Longrightarrow> wf_dict (fold (\<lambda>k. AList.update k (f k)) ks d)"
  by (induction ks arbitrary: d) (auto simp: distinct_update)

lemma wf_dict_of_keys [dictE]: "wf_dict (dict_of_keys f ks)"
  by (simp add: dict_of_keys_def wf_dict_of_keys_aux)

section \<open>Strings\<close>

text \<open>The code points below 256 that Python's \<open>str.strip\<close> removes.\<close>

definition py_space :: "char \<Rightarrow> bool" where
  "py_space c \<longleftrightarrow> of_char c \<in> set [9, 10, 11, 12, 13, 28, 29, 30, 31, 32, 133, 160 :: nat]"

definition lstrip :: "string \<Rightarrow> string" where
  "lstrip s = dropWhile py_space s"

definition strip :: "string \<Rightarrow> string" where
  "strip s = rev (dropWhile py_space (rev (lstrip s)))"

abbreviation newline :: char where
  "newline \<equiv> CHR 0x0A"

text \<open>
  A regular expression that ends in \<open>$\<close> accepts one newline after the text it describes, as
  \<open>re.match\<close> does.
\<close>

definition dollar_match :: "(string \<Rightarrow> bool) \<Rightarrow> string \<Rightarrow> bool" where
  "dollar_match p s \<longleftrightarrow> p s \<or> (s \<noteq> [] \<and> last s = newline \<and> p (butlast s))"

definition char_in :: "char \<Rightarrow> char \<Rightarrow> char \<Rightarrow> bool" where
  "char_in lo hi c \<longleftrightarrow> (of_char lo :: nat) \<le> of_char c \<and> (of_char c :: nat) \<le> of_char hi"

definition is_hex_lower :: "char \<Rightarrow> bool" where
  "is_hex_lower c \<longleftrightarrow> char_in CHR ''0'' CHR ''9'' c \<or> char_in CHR ''a'' CHR ''f'' c"

definition is_hex :: "char \<Rightarrow> bool" where
  "is_hex c \<longleftrightarrow> is_hex_lower c \<or> char_in CHR ''A'' CHR ''F'' c"

definition is_slug_head :: "char \<Rightarrow> bool" where
  "is_slug_head c \<longleftrightarrow> char_in CHR ''a'' CHR ''z'' c \<or> char_in CHR ''0'' CHR ''9'' c"

text \<open>\<open>^[a-z0-9][a-z0-9-]*$\<close>\<close>

definition slug_body :: "string \<Rightarrow> bool" where
  "slug_body s = (case s of [] \<Rightarrow> False
     | c # cs \<Rightarrow> is_slug_head c \<and> list_all (\<lambda>d. is_slug_head d \<or> d = CHR ''-'') cs)"

definition is_slug :: "string \<Rightarrow> bool" where
  "is_slug s = dollar_match slug_body s"

text \<open>\<open>^[0-9a-f]{64}$\<close>\<close>

definition is_digest :: "string \<Rightarrow> bool" where
  "is_digest s = dollar_match (\<lambda>t. length t = 64 \<and> list_all is_hex_lower t) s"

lemma strip_idem_head: "strip s \<noteq> [] \<Longrightarrow> \<not> py_space (last (strip s))"
  unfolding strip_def by (metis hd_dropWhile last_rev rev_is_Nil_conv)

lemma strip_eq_NilD: "strip s = [] \<Longrightarrow> list_all py_space s"
  unfolding strip_def lstrip_def
  by (metis dropWhile_eq_Nil_conv hd_dropWhile hd_in_set list_all_iff rev_is_Nil_conv set_rev)

lemma strip_Nil [simp]: "strip [] = []"
  by (simp add: strip_def lstrip_def)

text \<open>The text before and after the first occurrence of a separator.\<close>

fun split_at :: "string \<Rightarrow> string \<Rightarrow> (string \<times> string) option" where
  "split_at sep [] = (if sep = [] then Some ([], []) else None)"
| "split_at sep (c # cs) =
     (if take (length sep) (c # cs) = sep then Some ([], drop (length sep) (c # cs))
      else map_option (\<lambda>(a, b). (c # a, b)) (split_at sep cs))"

text \<open>The length of the UTF-8 encoding.\<close>

definition utf8_len :: "string \<Rightarrow> nat" where
  "utf8_len s = sum_list (map (\<lambda>c. if (of_char c :: nat) < 128 then 1 else 2) s)"

lemma split_at_join: "split_at sep s = Some (a, b) \<Longrightarrow> s = a @ sep @ b"
proof (induction s arbitrary: a)
  case Nil
  then show ?case by (auto split: if_splits)
next
  case (Cons c cs)
  show ?case
  proof (cases "take (length sep) (c # cs) = sep")
    case True
    with Cons.prems have "a = []" "b = drop (length sep) (c # cs)" by simp_all
    then show ?thesis using True by (metis append_Nil append_take_drop_id)
  next
    case False
    with Cons.prems obtain a' where "split_at sep cs = Some (a', b)" "a = c # a'"
      by auto
    with Cons.IH show ?thesis by simp
  qed
qed

lemma strip_all_space: "list_all py_space s \<Longrightarrow> strip s = []"
  by (auto simp: strip_def lstrip_def list_all_iff dropWhile_eq_Nil_conv dest: set_dropWhileD)

lemma lstrip_append_space: "list_all py_space a \<Longrightarrow> lstrip (a @ s) = lstrip s"
  by (simp add: lstrip_def list_all_iff dropWhile_append2)

lemma strip_append_space: "list_all py_space a \<Longrightarrow> list_all py_space b \<Longrightarrow> strip (a @ s @ b) = strip s"
proof (cases "list_all py_space s")
  case True
  assume "list_all py_space a" "list_all py_space b"
  with True show ?thesis by (simp add: strip_all_space)
next
  case False
  assume ab: "list_all py_space a" "list_all py_space b"
  have "lstrip (a @ s @ b) = lstrip s @ b"
    using False ab(1) by (auto simp: lstrip_append_space lstrip_def list_all_iff dropWhile_append1)
  then show ?thesis
    using ab(2) dropWhile_append2 [of "rev b" py_space "rev (lstrip s)"]
    by (simp add: strip_def list_all_iff)
qed

section \<open>Lists\<close>

text \<open>Python's \<open>list.insert\<close> at an index within the list.\<close>

definition list_insert :: "nat \<Rightarrow> 'a \<Rightarrow> 'a list \<Rightarrow> 'a list" where
  "list_insert i x xs = take i xs @ x # drop i xs"

lemma set_list_insert [simp]: "set (list_insert i x xs) = insert x (set xs)"
  unfolding list_insert_def
  by (metis append_take_drop_id list.simps(15) set_append Un_insert_right)

lemma distinct_list_insert:
  "distinct (map f (list_insert i x xs)) \<longleftrightarrow> f x \<notin> f ` set xs \<and> distinct (map f xs)"
proof -
  have "mset (map f (list_insert i x xs)) = mset (f x # map f xs)"
    unfolding list_insert_def
    by (metis (no_types) append_take_drop_id list.simps(9) map_append mset.simps(2) mset_append
        union_mset_add_mset_right)
  then have "distinct (map f (list_insert i x xs)) \<longleftrightarrow> distinct (f x # map f xs)"
    by (rule mset_eq_imp_distinct_iff)
  then show ?thesis by simp
qed

lemma set_map_subset: "set (map f xs) \<subseteq> A \<longleftrightarrow> (\<forall>x\<in>set xs. f x \<in> A)"
  by auto

lemma map_of_map_find: "map_of (map (\<lambda>x. (f x, g x)) xs) k = map_option g (find (\<lambda>x. f x = k) xs)"
  by (induction xs) simp_all

lemma find_append: "find P (xs @ ys) = (case find P xs of None \<Rightarrow> find P ys | Some x \<Rightarrow> Some x)"
  by (induction xs) simp_all

lemma find_Some_conv: "find P xs = Some x \<Longrightarrow> x \<in> set xs \<and> P x"
  by (auto simp: find_Some_iff)

lemma find_None_conv: "find P xs = None \<longleftrightarrow> (\<forall>x\<in>set xs. \<not> P x)"
  by (auto simp: find_None_iff)

end
