(* ===== verification/WorkflowModels.thy ===== *)
theory WorkflowModels
  imports Prelude Complex_Main
begin

text \<open>
  The workflow contract of \<^verbatim>\<open>flowgency/workflows/models.py\<close>: field values, definitions of
  fields, states and transitions, and the validators that run whenever one is built. A pydantic
  model is a record; its \<open>after\<close> validators are the \<open>validate_...\<close> functions, which return the
  first \<open>ValueError\<close> they would raise. Message texts are not modelled.
\<close>

section \<open>Errors\<close>

datatype model_error =
    BadArtifactUrl
  | BadArtifactId
  | FormatWithoutArtifact
  | BadColor
  | MissingComparison
  | UnexpectedComparison
  | TooManyCriteria
  | DuplicateCriterion
  | DuplicateInput
  | DuplicateOutput
  | PreconditionNotInput string
  | BlankReasoning
  | TooManyStates
  | TooManyFields
  | TooManyTransitions
  | DuplicateStateIds
  | DuplicateFieldIds
  | DuplicateTransitionIds
  | UndeclaredInitialState
  | UndeclaredFromState string
  | UndeclaredToState string
  | UndeclaredInputField string
  | UndeclaredOutputField string
  | UndeclaredPreconditionField string
  | PreconditionValueType string

text \<open>
  \<open>ContractError code field\<close> is the class of that name, \<open>KeyError\<close> Python's, and \<open>ValueError\<close> the
  failure of a validator.
\<close>

datatype workflow_error =
    ContractError (ce_code: string) (ce_field: "string option")
  | KeyError string
  | ValueError model_error

section \<open>Field values\<close>

datatype field_kind = KText | KNumber | KBoolean | KArtifact

datatype artifact_kind = ArtifactId | ArtifactUrl

record artifact_ref =
  ar_kind :: artifact_kind
  ar_value :: string

text \<open>A Python float: a rational (both zeros are equal), an infinity, or not a number.\<close>

datatype py_float = Finite rat | PosInf | NegInf | NaN

definition is_finite :: "py_float \<Rightarrow> bool" where
  "is_finite x = (case x of Finite _ \<Rightarrow> True | _ \<Rightarrow> False)"

definition float_eq :: "py_float \<Rightarrow> py_float \<Rightarrow> bool" where
  "float_eq x y \<longleftrightarrow> x \<noteq> NaN \<and> x = y"

datatype field_value =
    VBool bool
  | VInt int
  | VFloat py_float
  | VStr string
  | VArtifact artifact_ref
  | VNone

datatype py_type = TBool | TInt | TFloat | TStr | TArtifact | TNone

fun type_of :: "field_value \<Rightarrow> py_type" where
  "type_of (VBool _) = TBool"
| "type_of (VInt _) = TInt"
| "type_of (VFloat _) = TFloat"
| "type_of (VStr _) = TStr"
| "type_of (VArtifact _) = TArtifact"
| "type_of VNone = TNone"

text \<open>\<open>type(a) is type(b) and a == b\<close>\<close>

fun same_value :: "field_value \<Rightarrow> field_value \<Rightarrow> bool" where
  "same_value (VFloat x) (VFloat y) = float_eq x y"
| "same_value a b = (a = b)"

fun kind_matches_value :: "field_kind \<Rightarrow> field_value \<Rightarrow> bool" where
  "kind_matches_value KText v = (type_of v = TStr)"
| "kind_matches_value KBoolean v = (type_of v = TBool)"
| "kind_matches_value KNumber v = (type_of v \<in> {TInt, TFloat})"
| "kind_matches_value KArtifact v = (type_of v = TArtifact)"

text \<open>
  \<open>urlparse\<close> is an argument: the scheme and the network location it reads off a string, or
  \<open>None\<close> where it raises \<open>ValueError\<close>. A reference is validated when it is built.
\<close>

definition validate_artifact_ref ::
  "(string \<Rightarrow> (string \<times> string) option) \<Rightarrow> artifact_ref \<Rightarrow> model_error + unit" where
  "validate_artifact_ref urlparse r = (case ar_kind r of
      ArtifactUrl \<Rightarrow> (case urlparse (ar_value r) of
          None \<Rightarrow> Inl BadArtifactUrl
        | Some (scheme, netloc) \<Rightarrow>
            if scheme \<noteq> ''https'' then Inl BadArtifactUrl
            else if netloc = [] then Inl BadArtifactUrl
            else if CHR ''@'' \<in> set netloc then Inl BadArtifactUrl
            else Inr ())
    | ArtifactId \<Rightarrow>
        if CHR ''/'' \<in> set (ar_value r) \<or> CHR 0x5C \<in> set (ar_value r) then Inl BadArtifactId
        else Inr ())"

section \<open>Definitions\<close>

datatype artifact_format = GitChange

record field_definition =
  fd_id :: string
  fd_label :: string
  fd_type :: field_kind
  fd_artifact_format :: "artifact_format option"

record field_use =
  fu_field_id :: string
  fu_required :: bool

record state_definition =
  sd_id :: string
  sd_name :: string
  sd_color :: string

datatype operator = Equals | NotEquals | IsPresent

record precondition =
  pc_field_id :: string
  pc_operator :: operator
  pc_value :: field_value

record agent_criterion =
  ac_id :: string
  ac_description :: string

record transition_definition =
  td_id :: string
  td_name :: string
  td_from_state :: string
  td_to_state :: string
  td_inputs :: "field_use list"
  td_outputs :: "field_use list"
  td_preconditions :: "precondition list"
  td_criteria :: "agent_criterion list"

record criterion_assessment =
  ca_criterion_id :: string
  ca_satisfied :: bool
  ca_reasoning :: string
  ca_supporting_fields :: "string list"

record workflow_definition =
  wd_id :: string
  wd_name :: string
  wd_description :: string
  wd_initial_state :: string
  wd_states :: "state_definition list"
  wd_fields :: "field_definition list"
  wd_transitions :: "transition_definition list"

definition MAX_STATES :: nat where "MAX_STATES = 256"
definition MAX_FIELDS :: nat where "MAX_FIELDS = 1024"
definition MAX_TRANSITIONS :: nat where "MAX_TRANSITIONS = 2048"
definition MAX_CRITERIA_PER_TRANSITION :: nat where "MAX_CRITERIA_PER_TRANSITION = 128"
definition MAX_BLUEPRINT_SOURCE_BYTES :: nat where "MAX_BLUEPRINT_SOURCE_BYTES = 1024 * 1024"

text \<open>\<open>^#[0-9a-fA-F]{6}$\<close>\<close>

definition is_hex_color :: "string \<Rightarrow> bool" where
  "is_hex_color s = dollar_match (\<lambda>t. case t of
      [] \<Rightarrow> False
    | c # cs \<Rightarrow> c = CHR ''#'' \<and> length cs = 6 \<and> list_all is_hex cs) s"

section \<open>Validators\<close>

definition validate_field_definition :: "field_definition \<Rightarrow> model_error + unit" where
  "validate_field_definition f =
     (if fd_artifact_format f \<noteq> None \<and> fd_type f \<noteq> KArtifact then Inl FormatWithoutArtifact
      else Inr ())"

definition validate_state_definition :: "state_definition \<Rightarrow> model_error + unit" where
  "validate_state_definition s = ensure (is_hex_color (sd_color s)) BadColor"

definition validate_precondition :: "precondition \<Rightarrow> model_error + unit" where
  "validate_precondition p =
     (if pc_operator p \<in> {Equals, NotEquals} \<and> pc_value p = VNone then Inl MissingComparison
      else if pc_operator p = IsPresent \<and> pc_value p \<noteq> VNone then Inl UnexpectedComparison
      else Inr ())"

definition validate_assessment :: "criterion_assessment \<Rightarrow> model_error + unit" where
  "validate_assessment a = ensure (strip (ca_reasoning a) \<noteq> []) BlankReasoning"

definition validate_transition_definition :: "transition_definition \<Rightarrow> model_error + unit" where
  "validate_transition_definition t =
     (if length (td_criteria t) > MAX_CRITERIA_PER_TRANSITION then Inl TooManyCriteria
      else if \<not> distinct (map ac_id (td_criteria t)) then Inl DuplicateCriterion
      else if \<not> distinct (map fu_field_id (td_inputs t)) then Inl DuplicateInput
      else if \<not> distinct (map fu_field_id (td_outputs t)) then Inl DuplicateOutput
      else iterE (\<lambda>p. ensure (pc_field_id p \<in> set (map fu_field_id (td_inputs t)))
                        (PreconditionNotInput (pc_field_id p)))
             (td_preconditions t))"

definition check_source_size :: "nat \<Rightarrow> workflow_error + unit" where
  "check_source_size len =
     (if len > MAX_BLUEPRINT_SOURCE_BYTES then Inl (ContractError ''source-too-large'' None)
      else Inr ())"

text \<open>The body of the loop over the transitions of a definition.\<close>

definition validate_transition_in ::
  "string list \<Rightarrow> field_definition list \<Rightarrow> transition_definition \<Rightarrow> model_error + unit" where
  "validate_transition_in state_ids fdefs t =
     (let field_ids = map fd_id fdefs in
      if td_from_state t \<notin> set state_ids then Inl (UndeclaredFromState (td_id t))
      else if td_to_state t \<notin> set state_ids then Inl (UndeclaredToState (td_id t))
      else bindE (iterE (\<lambda>u. ensure (fu_field_id u \<in> set field_ids)
                               (UndeclaredInputField (fu_field_id u))) (td_inputs t)) (\<lambda>_.
           bindE (iterE (\<lambda>u. ensure (fu_field_id u \<in> set field_ids)
                               (UndeclaredOutputField (fu_field_id u))) (td_outputs t)) (\<lambda>_.
           iterE (\<lambda>p. if pc_field_id p \<notin> set field_ids
                      then Inl (UndeclaredPreconditionField (pc_field_id p))
                      else if pc_operator p \<in> {Equals, NotEquals}
                      then (case find (\<lambda>f. fd_id f = pc_field_id p) fdefs of
                              None \<Rightarrow> Inl (UndeclaredPreconditionField (pc_field_id p))
                            | Some f \<Rightarrow> ensure (kind_matches_value (fd_type f) (pc_value p))
                                          (PreconditionValueType (pc_field_id p)))
                      else Inr ())
             (td_preconditions t))))"

definition validate_definition :: "workflow_definition \<Rightarrow> model_error + unit" where
  "validate_definition d =
     (let state_ids = map sd_id (wd_states d); field_ids = map fd_id (wd_fields d);
          transition_ids = map td_id (wd_transitions d) in
      if length (wd_states d) > MAX_STATES then Inl TooManyStates
      else if length (wd_fields d) > MAX_FIELDS then Inl TooManyFields
      else if length (wd_transitions d) > MAX_TRANSITIONS then Inl TooManyTransitions
      else if \<not> distinct state_ids then Inl DuplicateStateIds
      else if \<not> distinct field_ids then Inl DuplicateFieldIds
      else if \<not> distinct transition_ids then Inl DuplicateTransitionIds
      else if wd_initial_state d \<notin> set state_ids then Inl UndeclaredInitialState
      else iterE (validate_transition_in state_ids (wd_fields d)) (wd_transitions d))"

text \<open>
  Building a definition from data validates its parts first (pydantic runs the validators of the
  nested models), then the definition itself.
\<close>

definition model_validate :: "workflow_definition \<Rightarrow> workflow_error + workflow_definition" where
  "model_validate d = mapErr ValueError (
     bindE (iterE validate_state_definition (wd_states d)) (\<lambda>_.
     bindE (iterE validate_field_definition (wd_fields d)) (\<lambda>_.
     bindE (iterE (\<lambda>t. bindE (iterE validate_precondition (td_preconditions t))
                         (\<lambda>_. validate_transition_definition t)) (wd_transitions d)) (\<lambda>_.
     bindE (validate_definition d) (\<lambda>_. Inr d)))))"

section \<open>Lookups\<close>

definition wd_state :: "workflow_definition \<Rightarrow> string \<Rightarrow> workflow_error + state_definition" where
  "wd_state d i = (case find (\<lambda>s. sd_id s = i) (wd_states d) of
      Some s \<Rightarrow> Inr s | None \<Rightarrow> Inl (ContractError ''unknown-reference'' None))"

definition wd_field :: "workflow_definition \<Rightarrow> string \<Rightarrow> workflow_error + field_definition" where
  "wd_field d i = (case find (\<lambda>f. fd_id f = i) (wd_fields d) of
      Some f \<Rightarrow> Inr f | None \<Rightarrow> Inl (ContractError ''unknown-reference'' None))"

definition wd_transition :: "workflow_definition \<Rightarrow> string \<Rightarrow> workflow_error + transition_definition" where
  "wd_transition d i = (case find (\<lambda>t. td_id t = i) (wd_transitions d) of
      Some t \<Rightarrow> Inr t | None \<Rightarrow> Inl (ContractError ''unknown-reference'' None))"


section \<open>What a validated definition promises\<close>

definition field_kind_of :: "workflow_definition \<Rightarrow> string \<Rightarrow> field_kind option" where
  "field_kind_of d k = map_option fd_type (find (\<lambda>f. fd_id f = k) (wd_fields d))"

definition wf_precondition :: "workflow_definition \<Rightarrow> precondition \<Rightarrow> bool" where
  "wf_precondition d p \<longleftrightarrow>
     (if pc_operator p = IsPresent then pc_value p = VNone
      else \<exists>k. field_kind_of d (pc_field_id p) = Some k \<and> kind_matches_value k (pc_value p))"

definition wf_transition :: "workflow_definition \<Rightarrow> transition_definition \<Rightarrow> bool" where
  "wf_transition d t \<longleftrightarrow>
     td_from_state t \<in> set (map sd_id (wd_states d)) \<and>
     td_to_state t \<in> set (map sd_id (wd_states d)) \<and>
     set (map fu_field_id (td_inputs t @ td_outputs t)) \<subseteq> set (map fd_id (wd_fields d)) \<and>
     distinct (map fu_field_id (td_inputs t)) \<and>
     distinct (map fu_field_id (td_outputs t)) \<and>
     set (map pc_field_id (td_preconditions t)) \<subseteq> set (map fu_field_id (td_inputs t)) \<and>
     (\<forall>p\<in>set (td_preconditions t). wf_precondition d p) \<and>
     distinct (map ac_id (td_criteria t)) \<and>
     length (td_criteria t) \<le> MAX_CRITERIA_PER_TRANSITION"

definition wf_definition :: "workflow_definition \<Rightarrow> bool" where
  "wf_definition d \<longleftrightarrow>
     length (wd_states d) \<le> MAX_STATES \<and> length (wd_fields d) \<le> MAX_FIELDS \<and>
     length (wd_transitions d) \<le> MAX_TRANSITIONS \<and>
     distinct (map sd_id (wd_states d)) \<and> distinct (map fd_id (wd_fields d)) \<and>
     distinct (map td_id (wd_transitions d)) \<and>
     wd_initial_state d \<in> set (map sd_id (wd_states d)) \<and>
     (\<forall>s\<in>set (wd_states d). is_hex_color (sd_color s)) \<and>
     (\<forall>f\<in>set (wd_fields d). fd_artifact_format f = None \<or> fd_type f = KArtifact) \<and>
     (\<forall>t\<in>set (wd_transitions d). wf_transition d t)"

lemma kind_matches_VNone [simp]: "\<not> kind_matches_value k VNone"
  by (cases k) simp_all

lemma field_kind_of_None: "field_kind_of d k = None \<longleftrightarrow> k \<notin> set (map fd_id (wd_fields d))"
  by (auto simp: field_kind_of_def find_None_conv)

lemma validate_precondition_ok:
  "validate_precondition p = Inr () \<longleftrightarrow>
     (if pc_operator p = IsPresent then pc_value p = VNone else pc_value p \<noteq> VNone)"
  by (cases "pc_operator p") (auto simp: validate_precondition_def)

lemma validate_transition_definition_ok:
  "validate_transition_definition t = Inr () \<longleftrightarrow>
     length (td_criteria t) \<le> MAX_CRITERIA_PER_TRANSITION \<and>
     distinct (map ac_id (td_criteria t)) \<and>
     distinct (map fu_field_id (td_inputs t)) \<and>
     distinct (map fu_field_id (td_outputs t)) \<and>
     set (map pc_field_id (td_preconditions t)) \<subseteq> set (map fu_field_id (td_inputs t))"
  by (auto simp: validate_transition_definition_def errE)

lemma validate_transition_in_ok:
  "validate_transition_in (map sd_id (wd_states d)) (wd_fields d) t = Inr () \<longleftrightarrow>
     td_from_state t \<in> set (map sd_id (wd_states d)) \<and>
     td_to_state t \<in> set (map sd_id (wd_states d)) \<and>
     set (map fu_field_id (td_inputs t @ td_outputs t)) \<subseteq> set (map fd_id (wd_fields d)) \<and>
     set (map pc_field_id (td_preconditions t)) \<subseteq> set (map fd_id (wd_fields d)) \<and>
     (\<forall>p\<in>set (td_preconditions t). pc_operator p \<noteq> IsPresent \<longrightarrow>
        (\<exists>k. field_kind_of d (pc_field_id p) = Some k \<and> kind_matches_value k (pc_value p)))"
proof -
  have op: "(pc_operator p \<in> {Equals, NotEquals}) = (pc_operator p \<noteq> IsPresent)" for p
    by (cases "pc_operator p") simp_all
  have body: "((if pc_field_id p \<notin> set (map fd_id (wd_fields d))
        then Inl (UndeclaredPreconditionField (pc_field_id p))
        else if pc_operator p \<in> {Equals, NotEquals}
        then (case find (\<lambda>f. fd_id f = pc_field_id p) (wd_fields d) of
                None \<Rightarrow> Inl (UndeclaredPreconditionField (pc_field_id p))
              | Some f \<Rightarrow> ensure (kind_matches_value (fd_type f) (pc_value p))
                            (PreconditionValueType (pc_field_id p)))
        else Inr ()) = Inr ()) \<longleftrightarrow>
      pc_field_id p \<in> set (map fd_id (wd_fields d)) \<and>
      (pc_operator p \<noteq> IsPresent \<longrightarrow>
        (\<exists>k. field_kind_of d (pc_field_id p) = Some k \<and> kind_matches_value k (pc_value p)))" for p
    unfolding op by (auto simp: field_kind_of_def errE split: option.splits)
  show ?thesis
    unfolding validate_transition_in_def Let_def map_append set_append Un_subset_iff set_map_subset
    by (auto simp: bindE_eq_Inr iterE_eq_Inr ensure_eq_Inr body simp del: set_map)
qed

lemma validate_definition_ok:
  "validate_definition d = Inr () \<longleftrightarrow>
     length (wd_states d) \<le> MAX_STATES \<and> length (wd_fields d) \<le> MAX_FIELDS \<and>
     length (wd_transitions d) \<le> MAX_TRANSITIONS \<and>
     distinct (map sd_id (wd_states d)) \<and> distinct (map fd_id (wd_fields d)) \<and>
     distinct (map td_id (wd_transitions d)) \<and>
     wd_initial_state d \<in> set (map sd_id (wd_states d)) \<and>
     (\<forall>t\<in>set (wd_transitions d).
        validate_transition_in (map sd_id (wd_states d)) (wd_fields d) t = Inr ())"
  by (auto simp: validate_definition_def Let_def iterE_eq_Inr)

lemma wf_transition_ok:
  "(\<forall>p\<in>set (td_preconditions t). validate_precondition p = Inr ()) \<and>
   validate_transition_definition t = Inr () \<and>
   validate_transition_in (map sd_id (wd_states d)) (wd_fields d) t = Inr () \<longleftrightarrow>
   wf_transition d t"
  unfolding wf_transition_def validate_transition_definition_ok validate_transition_in_ok
    validate_precondition_ok wf_precondition_def
  by (auto simp del: set_map split: if_splits)

lemma model_validate_eq:
  "model_validate d = Inr d' \<longleftrightarrow> d' = d \<and>
     (\<forall>s\<in>set (wd_states d). validate_state_definition s = Inr ()) \<and>
     (\<forall>f\<in>set (wd_fields d). validate_field_definition f = Inr ()) \<and>
     (\<forall>t\<in>set (wd_transitions d). \<forall>p\<in>set (td_preconditions t). validate_precondition p = Inr ()) \<and>
     (\<forall>t\<in>set (wd_transitions d). validate_transition_definition t = Inr ()) \<and>
     validate_definition d = Inr ()"
  by (auto simp: model_validate_def errE)

lemma model_validate_wf: "model_validate d = Inr d' \<longleftrightarrow> d' = d \<and> wf_definition d"
proof -
  have "(\<forall>f\<in>set (wd_fields d). validate_field_definition f = Inr ()) \<longleftrightarrow>
      (\<forall>f\<in>set (wd_fields d). fd_artifact_format f = None \<or> fd_type f = KArtifact)"
    by (auto simp: validate_field_definition_def split: if_splits)
  moreover have "(\<forall>s\<in>set (wd_states d). validate_state_definition s = Inr ()) \<longleftrightarrow>
      (\<forall>s\<in>set (wd_states d). is_hex_color (sd_color s))"
    by (auto simp: validate_state_definition_def errE)
  ultimately show ?thesis
    unfolding model_validate_eq wf_definition_def validate_definition_ok
      wf_transition_ok [symmetric]
    by blast
qed

lemma wd_transition_Inr:
  "wd_transition d i = Inr t \<Longrightarrow> t \<in> set (wd_transitions d) \<and> td_id t = i"
  by (auto simp: wd_transition_def dest: find_Some_conv split: option.splits)

lemma wd_state_Inr: "wd_state d i = Inr s \<Longrightarrow> s \<in> set (wd_states d) \<and> sd_id s = i"
  by (auto simp: wd_state_def dest: find_Some_conv split: option.splits)

lemma wd_field_Inr: "wd_field d i = Inr f \<Longrightarrow> f \<in> set (wd_fields d) \<and> fd_id f = i"
  by (auto simp: wd_field_def dest: find_Some_conv split: option.splits)

lemma wd_state_declared: "isOk (wd_state d i) \<longleftrightarrow> i \<in> set (map sd_id (wd_states d))"
  by (auto simp: wd_state_def find_None_conv isOk_def split: option.splits dest: find_Some_conv)

lemma wd_field_declared: "isOk (wd_field d i) \<longleftrightarrow> i \<in> set (map fd_id (wd_fields d))"
  by (auto simp: wd_field_def find_None_conv isOk_def split: option.splits dest: find_Some_conv)

lemma wd_transition_declared:
  "isOk (wd_transition d i) \<longleftrightarrow> i \<in> set (map td_id (wd_transitions d))"
  by (auto simp: wd_transition_def find_None_conv isOk_def split: option.splits dest: find_Some_conv)

lemma wd_transition_unique:
  "distinct (map td_id (wd_transitions d)) \<Longrightarrow> t \<in> set (wd_transitions d) \<Longrightarrow>
   wd_transition d (td_id t) = Inr t"
  unfolding wd_transition_def
  by (auto simp: find_None_conv dest!: find_Some_conv split: option.splits)
     (auto simp: distinct_map inj_on_def)

end
