(* ===== verification/WorkflowEditing.thy ===== *)
theory WorkflowEditing
  imports WorkflowModels
begin

text \<open>
  The editing commands of \<^verbatim>\<open>flowgency/workflows/editing.py\<close>. Each takes a definition and returns a
  re-validated one, or raises. The random part of a new id (\<open>uuid4().hex\<close>) is an argument.
\<close>

record definition_edit =
  de_definition :: workflow_definition
  de_created_id :: "string option"

definition new_id :: "string \<Rightarrow> string \<Rightarrow> string" where
  "new_id prefix hex = prefix @ ''-'' @ hex"

definition require_label :: "string \<Rightarrow> workflow_error + string" where
  "require_label l = (if strip l = [] then Inl (ContractError ''blank-label'' None) else Inr l)"

definition edited :: "workflow_definition \<Rightarrow> string option \<Rightarrow> workflow_error + definition_edit" where
  "edited d created =
     bindE (model_validate d) (\<lambda>d'. Inr \<lparr>de_definition = d', de_created_id = created\<rparr>)"

definition new_definition :: "string \<Rightarrow> string \<Rightarrow> string \<Rightarrow> workflow_error + definition_edit" where
  "new_definition wf_hex st_hex name =
     (let workflow_id = new_id ''wf'' wf_hex; state_id = new_id ''st'' st_hex in
      bindE (require_label name) (\<lambda>label.
      edited \<lparr>wd_id = workflow_id, wd_name = label, wd_description = [],
              wd_initial_state = state_id,
              wd_states = [\<lparr>sd_id = state_id, sd_name = ''Start'', sd_color = ''#3b82f6''\<rparr>],
              wd_fields = [], wd_transitions = []\<rparr> (Some workflow_id)))"

definition add_state ::
  "string \<Rightarrow> workflow_definition \<Rightarrow> string \<Rightarrow> string \<Rightarrow> workflow_error + definition_edit" where
  "add_state hex d name color =
     (let state_id = new_id ''st'' hex in
      bindE (require_label name) (\<lambda>label.
      let s = \<lparr>sd_id = state_id, sd_name = label, sd_color = color\<rparr> in
      bindE (mapErr ValueError (validate_state_definition s)) (\<lambda>_.
      edited (d\<lparr>wd_states := wd_states d @ [s]\<rparr>) (Some state_id))))"

definition rename_state ::
  "workflow_definition \<Rightarrow> string \<Rightarrow> string \<Rightarrow> workflow_error + definition_edit" where
  "rename_state d state_id name =
     bindE (wd_state d state_id) (\<lambda>_.
     bindE (require_label name) (\<lambda>label.
     edited (d\<lparr>wd_states := map (\<lambda>s. if sd_id s = state_id then s\<lparr>sd_name := label\<rparr> else s)
                            (wd_states d)\<rparr>) None))"

definition move_state ::
  "workflow_definition \<Rightarrow> string \<Rightarrow> int \<Rightarrow> workflow_error + definition_edit" where
  "move_state d state_id index =
     bindE (wd_state d state_id) (\<lambda>moved.
     let remaining = filter (\<lambda>s. sd_id s \<noteq> state_id) (wd_states d) in
     if index < 0 \<or> index > int (length remaining) then Inl (ContractError ''invalid-index'' None)
     else edited (d\<lparr>wd_states := list_insert (nat index) moved remaining\<rparr>) None)"

definition add_transition ::
  "string \<Rightarrow> workflow_definition \<Rightarrow> string \<Rightarrow> string \<Rightarrow> string \<Rightarrow> workflow_error + definition_edit"
where
  "add_transition hex d name from_state to_state =
     bindE (wd_state d from_state) (\<lambda>_.
     bindE (wd_state d to_state) (\<lambda>_.
     let transition_id = new_id ''tr'' hex in
     bindE (require_label name) (\<lambda>label.
     edited (d\<lparr>wd_transitions := wd_transitions d @
       [\<lparr>td_id = transition_id, td_name = label, td_from_state = from_state,
         td_to_state = to_state, td_inputs = [], td_outputs = [], td_preconditions = [],
         td_criteria = []\<rparr>]\<rparr>) (Some transition_id))))"

definition add_field ::
  "string \<Rightarrow> workflow_definition \<Rightarrow> string \<Rightarrow> field_kind \<Rightarrow> artifact_format option \<Rightarrow>
   workflow_error + definition_edit" where
  "add_field hex d label kind fmt =
     (let field_id = new_id ''fl'' hex in
      bindE (require_label label) (\<lambda>l.
      let f = \<lparr>fd_id = field_id, fd_label = l, fd_type = kind, fd_artifact_format = fmt\<rparr> in
      bindE (mapErr ValueError (validate_field_definition f)) (\<lambda>_.
      edited (d\<lparr>wd_fields := wd_fields d @ [f]\<rparr>) (Some field_id))))"

definition use_field ::
  "workflow_definition \<Rightarrow> string \<Rightarrow> string \<Rightarrow> string \<Rightarrow> bool \<Rightarrow> workflow_error + definition_edit" where
  "use_field d transition_id direction field_id required =
     (if direction \<notin> {''input'', ''output''} then Inl (ContractError ''invalid-direction'' None)
      else bindE (wd_transition d transition_id) (\<lambda>t.
        bindE (wd_field d field_id) (\<lambda>_.
        let use = \<lparr>fu_field_id = field_id, fu_required = required\<rparr>;
            existing = (if direction = ''input'' then td_inputs t else td_outputs t) in
        if field_id \<in> set (map fu_field_id existing) then Inl (ContractError ''duplicate-use'' None)
        else let t' = (if direction = ''input'' then t\<lparr>td_inputs := existing @ [use]\<rparr>
                       else t\<lparr>td_outputs := existing @ [use]\<rparr>) in
          edited (d\<lparr>wd_transitions := map (\<lambda>x. if td_id x = transition_id then t' else x)
                                         (wd_transitions d)\<rparr>) None)))"

definition rename_field ::
  "workflow_definition \<Rightarrow> string \<Rightarrow> string \<Rightarrow> workflow_error + definition_edit" where
  "rename_field d field_id label =
     bindE (wd_field d field_id) (\<lambda>_.
     bindE (require_label label) (\<lambda>l.
     edited (d\<lparr>wd_fields := map (\<lambda>f. if fd_id f = field_id then f\<lparr>fd_label := l\<rparr> else f)
                            (wd_fields d)\<rparr>) None))"

section \<open>Edits as steps\<close>

text \<open>One successful command of an editing session.\<close>

inductive edit_step :: "workflow_definition \<Rightarrow> workflow_definition \<Rightarrow> bool" where
  add_state: "add_state hex d name color = Inr e \<Longrightarrow> edit_step d (de_definition e)"
| rename_state: "rename_state d i name = Inr e \<Longrightarrow> edit_step d (de_definition e)"
| move_state: "move_state d i n = Inr e \<Longrightarrow> edit_step d (de_definition e)"
| add_transition: "add_transition hex d name a b = Inr e \<Longrightarrow> edit_step d (de_definition e)"
| add_field: "add_field hex d label kind fmt = Inr e \<Longrightarrow> edit_step d (de_definition e)"
| use_field: "use_field d t dir i req = Inr e \<Longrightarrow> edit_step d (de_definition e)"
| rename_field: "rename_field d i label = Inr e \<Longrightarrow> edit_step d (de_definition e)"

text \<open>What an edit keeps: the identity, and every state, field (with its type) and transition
  (with its end points) that was declared.\<close>

definition field_signature :: "field_definition \<Rightarrow> string \<times> field_kind \<times> artifact_format option" where
  "field_signature f = (fd_id f, fd_type f, fd_artifact_format f)"

definition transition_signature :: "transition_definition \<Rightarrow> string \<times> string \<times> string" where
  "transition_signature t = (td_id t, td_from_state t, td_to_state t)"

definition extends :: "workflow_definition \<Rightarrow> workflow_definition \<Rightarrow> bool" where
  "extends d d' \<longleftrightarrow>
     wd_id d' = wd_id d \<and> wd_initial_state d' = wd_initial_state d \<and>
     sd_id ` set (wd_states d) \<subseteq> sd_id ` set (wd_states d') \<and>
     field_signature ` set (wd_fields d) \<subseteq> field_signature ` set (wd_fields d') \<and>
     transition_signature ` set (wd_transitions d) \<subseteq> transition_signature ` set (wd_transitions d')"

lemma edited_Inr:
  "edited d c = Inr e \<longleftrightarrow> wf_definition d \<and> e = \<lparr>de_definition = d, de_created_id = c\<rparr>"
  by (auto simp: edited_def bindE_eq_Inr model_validate_wf)

lemmas edit_defs = add_state_def rename_state_def move_state_def add_transition_def
  add_field_def use_field_def rename_field_def new_definition_def

lemma extends_refl [simp]: "extends d d"
  by (simp add: extends_def)

lemma extends_trans: "extends a b \<Longrightarrow> extends b c \<Longrightarrow> extends a c"
  unfolding extends_def by (simp only:) (meson subset_trans)

lemma edit_step_wf: "edit_step d d' \<Longrightarrow> wf_definition d'"
  by (induction rule: edit_step.induct)
     (auto simp: edit_defs edited_Inr bindE_eq_Inr Let_def split: if_splits)

lemma move_state_states:
  assumes "move_state d i n = Inr e"
  shows "\<exists>m. m \<in> set (wd_states d) \<and> sd_id m = i \<and>
     wd_states (de_definition e) = list_insert (nat n) m (filter (\<lambda>s. sd_id s \<noteq> i) (wd_states d)) \<and>
     de_definition e = d\<lparr>wd_states := wd_states (de_definition e)\<rparr> \<and>
     0 \<le> n \<and> nat n \<le> length (filter (\<lambda>s. sd_id s \<noteq> i) (wd_states d))"
  using assms
  by (auto simp: move_state_def bindE_eq_Inr Let_def edited_Inr dest: wd_state_Inr split: if_splits)

lemma use_field_transitions:
  assumes "use_field d t dir i req = Inr e"
  shows "\<exists>x x'. wd_transition d t = Inr x \<and> td_id x' = td_id x \<and>
     td_from_state x' = td_from_state x \<and> td_to_state x' = td_to_state x \<and>
     de_definition e = d\<lparr>wd_transitions :=
        map (\<lambda>y. if td_id y = t then x' else y) (wd_transitions d)\<rparr>"
proof -
  from assms obtain x where x: "wd_transition d t = Inr x"
    by (auto simp: use_field_def bindE_eq_Inr split: if_splits)
  let ?use = "\<lparr>fu_field_id = i, fu_required = req\<rparr>"
  let ?x = "if dir = ''input'' then x\<lparr>td_inputs := td_inputs x @ [?use]\<rparr>
    else x\<lparr>td_outputs := td_outputs x @ [?use]\<rparr>"
  have "td_id ?x = td_id x \<and> td_from_state ?x = td_from_state x \<and> td_to_state ?x = td_to_state x"
    by simp
  moreover have "de_definition e = d\<lparr>wd_transitions :=
      map (\<lambda>y. if td_id y = t then ?x else y) (wd_transitions d)\<rparr>"
    using assms x
    by (auto simp: use_field_def bindE_eq_Inr Let_def edited_Inr split: if_splits)
  ultimately show ?thesis using x by blast
qed

lemma renamed_state_id [simp]: "sd_id (if P then s\<lparr>sd_name := l\<rparr> else s) = sd_id s"
  by simp

lemma renamed_field_signature [simp]:
  "field_signature (if P then f\<lparr>fd_label := l\<rparr> else f) = field_signature f"
  by (simp add: field_signature_def)

lemma edit_step_extends:
  assumes "edit_step d d'" and "wf_definition d"
  shows "extends d d'"
  using assms
proof (induction rule: edit_step.induct)
  case (move_state d i n e)
  then obtain m where "m \<in> set (wd_states d)" "sd_id m = i"
    and st: "wd_states (de_definition e) = list_insert (nat n) m (filter (\<lambda>s. sd_id s \<noteq> i) (wd_states d))"
    and e: "de_definition e = d\<lparr>wd_states := wd_states (de_definition e)\<rparr>"
    using move_state_states by meson
  then have "sd_id ` set (wd_states d) \<subseteq> sd_id ` set (wd_states (de_definition e))"
    by (auto simp: image_iff)
  then show ?case by (subst e) (simp add: extends_def)
next
  case (use_field d t dir i req e)
  then obtain x x' where x: "wd_transition d t = Inr x" "td_id x' = td_id x"
    "td_from_state x' = td_from_state x" "td_to_state x' = td_to_state x"
    and e: "de_definition e = d\<lparr>wd_transitions :=
        map (\<lambda>y. if td_id y = t then x' else y) (wd_transitions d)\<rparr>"
    using use_field_transitions [OF use_field(1)] by blast
  have "y = x" if "y \<in> set (wd_transitions d)" "td_id y = t" for y
  proof -
    have "wd_transition d (td_id y) = Inr y"
      using use_field(2) that(1) by (simp add: wf_definition_def wd_transition_unique)
    with that x(1) show ?thesis by simp
  qed
  then have "transition_signature (if td_id y = t then x' else y) = transition_signature y"
    if "y \<in> set (wd_transitions d)" for y
    using that x by (auto simp: transition_signature_def)
  then have "(\<lambda>y. transition_signature (if td_id y = t then x' else y)) ` set (wd_transitions d) =
      transition_signature ` set (wd_transitions d)"
    by (rule image_cong [OF refl])
  then have "transition_signature ` set (wd_transitions (de_definition e)) =
      transition_signature ` set (wd_transitions d)"
    unfolding e by (simp add: image_image del: if_image_distrib)
  then show ?case unfolding extends_def e by simp
next
  case (rename_state d i name e)
  then show ?case
    by (auto simp: rename_state_def extends_def bindE_eq_Inr edited_Inr image_image
        simp del: if_image_distrib)
next
  case (rename_field d i label e)
  then show ?case
    by (auto simp: rename_field_def extends_def bindE_eq_Inr edited_Inr image_image
        simp del: if_image_distrib)
qed (auto simp: add_state_def add_transition_def add_field_def extends_def bindE_eq_Inr Let_def
    edited_Inr)

lemma mset_remove_key:
  "distinct (map f xs) \<Longrightarrow> m \<in> set xs \<Longrightarrow>
   mset xs = add_mset m (mset (filter (\<lambda>s. f s \<noteq> f m) xs))"
proof (induction xs)
  case Nil
  then show ?case by simp
next
  case (Cons x xs)
  show ?case
  proof (cases "x = m")
    case True
    with Cons.prems(1) have "\<forall>s\<in>set xs. f s \<noteq> f m"
      by (metis distinct.simps(2) image_eqI list.map(2) list.set_map)
    then have "filter (\<lambda>s. f s \<noteq> f m) xs = xs"
      by (simp add: filter_id_conv)
    with True show ?thesis by simp
  next
    case False
    with Cons show ?thesis by auto
  qed
qed

lemma wf_definition_states:
  assumes "mset ss = mset (wd_states d)" and "wf_definition d"
  shows "wf_definition (d\<lparr>wd_states := ss\<rparr>)"
proof -
  let ?d = "d\<lparr>wd_states := ss\<rparr>"
  have ids: "mset (map sd_id ss) = mset (map sd_id (wd_states d))"
    using assms(1) by simp
  have "field_kind_of ?d = field_kind_of d" by (rule ext) (simp add: field_kind_of_def)
  then have "wf_transition ?d t = wf_transition d t" for t
    using mset_eq_setD [OF ids] by (simp add: wf_transition_def wf_precondition_def)
  with assms(2) show ?thesis
    using mset_eq_setD [OF ids] mset_eq_setD [OF assms(1)] mset_eq_length [OF assms(1)]
      mset_eq_imp_distinct_iff [OF ids]
    by (simp add: wf_definition_def)
qed

section \<open>Properties\<close>

text \<open>Along any editing session that starts from a valid definition, every intermediate
  definition is valid, keeps its identity and initial state, and still declares every state,
  every field with its type and every transition with its end points that was declared before.\<close>

theorem editing_session:
  assumes "edit_step\<^sup>*\<^sup>* d d'" and "wf_definition d"
  shows "wf_definition d' \<and> extends d d'"
  using assms
proof (induction rule: rtranclp_induct)
  case base
  then show ?case by simp
next
  case (step y z)
  then show ?case using edit_step_wf edit_step_extends extends_trans by blast
qed

text \<open>Moving a state is a permutation: the state lands at the requested index, the other states
  keep their relative order, no state is added or lost, and nothing else of the definition
  changes; an index outside the list is refused.\<close>

theorem move_state_permutes:
  assumes "wf_definition d" and "i \<in> set (map sd_id (wd_states d))"
  shows "(if 0 \<le> n \<and> n < int (length (wd_states d)) then
       \<exists>e. move_state d i n = Inr e \<and> mset (wd_states (de_definition e)) = mset (wd_states d) \<and>
         sd_id (wd_states (de_definition e) ! nat n) = i \<and>
         filter (\<lambda>s. sd_id s \<noteq> i) (wd_states (de_definition e)) =
           filter (\<lambda>s. sd_id s \<noteq> i) (wd_states d) \<and>
         de_definition e = d\<lparr>wd_states := wd_states (de_definition e)\<rparr>
     else move_state d i n = Inl (ContractError ''invalid-index'' None))"
proof -
  obtain m where m: "wd_state d i = Inr m" "m \<in> set (wd_states d)" "sd_id m = i"
    using assms(2) by (metis isOk_iff wd_state_Inr wd_state_declared)
  let ?rest = "filter (\<lambda>s. sd_id s \<noteq> i) (wd_states d)"
  let ?new = "list_insert (nat n) m ?rest"
  have ms: "mset (wd_states d) = add_mset m (mset ?rest)"
    using mset_remove_key [of sd_id "wd_states d" m] assms(1) m by (simp add: wf_definition_def)
  then have len: "length (wd_states d) = Suc (length ?rest)"
    by (metis size_add_mset size_mset)
  have new: "mset ?new = mset (wd_states d)"
    unfolding ms list_insert_def
    by (metis append_take_drop_id mset.simps(2) mset_append union_mset_add_mset_right)
  have nth: "?new ! nat n = m" if "n < int (length (wd_states d))"
    using that len by (simp add: list_insert_def nth_append)
  have "filter (\<lambda>s. sd_id s \<noteq> i) ?new =
      filter (\<lambda>s. sd_id s \<noteq> i) (take (nat n) ?rest @ drop (nat n) ?rest)"
    using m(3) unfolding list_insert_def filter_append by simp
  then have keep: "filter (\<lambda>s. sd_id s \<noteq> i) ?new = ?rest"
    unfolding append_take_drop_id by simp
  show ?thesis
    using m(1,3) len nth keep new wf_definition_states [OF new assms(1)]
    by (auto simp: move_state_def Let_def edited_Inr)
qed

section \<open>A session on a small definition\<close>

definition demo_start :: workflow_definition where
  "demo_start = \<lparr>wd_id = ''wf-1'', wd_name = ''Demo'', wd_description = [],
     wd_initial_state = ''st-2'',
     wd_states = [\<lparr>sd_id = ''st-2'', sd_name = ''Start'', sd_color = ''#3b82f6''\<rparr>],
     wd_fields = [], wd_transitions = []\<rparr>"

definition demo_two :: workflow_definition where
  "demo_two = demo_start\<lparr>wd_states := wd_states demo_start @
     [\<lparr>sd_id = ''st-3'', sd_name = ''Done'', sd_color = ''#000000''\<rparr>]\<rparr>"

lemma demo_created:
  "new_definition ''1'' ''2'' ''Demo'' =
     Inr \<lparr>de_definition = demo_start, de_created_id = Some ''wf-1''\<rparr>"
  by code_simp

lemma demo_start_wf: "wf_definition demo_start"
  using demo_created by (auto simp: new_definition_def Let_def bindE_eq_Inr edited_Inr)

lemma demo_added:
  "add_state ''3'' demo_start ''Done'' ''#000000'' =
     Inr \<lparr>de_definition = demo_two, de_created_id = Some ''st-3''\<rparr>"
  by code_simp

lemma demo_step: "edit_step demo_start demo_two"
  using edit_step.add_state [OF demo_added] by simp

theorem editing_session_witness:
  "edit_step\<^sup>*\<^sup>* demo_start demo_two \<and> wf_definition demo_start \<and>
   wf_definition demo_two \<and> extends demo_start demo_two"
proof -
  have "edit_step\<^sup>*\<^sup>* demo_start demo_two" using demo_step by (rule r_into_rtranclp)
  then show ?thesis using editing_session demo_start_wf by blast
qed

theorem move_state_permutes_witness:
  "\<exists>e. move_state demo_two ''st-3'' 0 = Inr e \<and> sd_id (wd_states (de_definition e) ! 0) = ''st-3''"
proof -
  have "wf_definition demo_two" using demo_step by (rule edit_step_wf)
  moreover have "''st-3'' \<in> set (map sd_id (wd_states demo_two))" by code_simp
  ultimately have "if 0 \<le> (0::int) \<and> 0 < int (length (wd_states demo_two))
    then \<exists>e. move_state demo_two ''st-3'' 0 = Inr e \<and>
      sd_id (wd_states (de_definition e) ! nat 0) = ''st-3'' else True"
    using move_state_permutes [of demo_two "''st-3''" 0] by (auto split: if_splits)
  moreover have "length (wd_states demo_two) = 2" by code_simp
  ultimately show ?thesis by simp
qed

end
