(* ===== verification/Json.thy ===== *)
theory Json
  imports WorkflowModels
begin

text \<open>
  JSON-like data: what an audit event carries (\<open>TicketEvent.data\<close>), with Python's equality on it
  (numbers compare by value across \<open>bool\<close>, \<open>int\<close> and \<open>float\<close>, dictionaries without regard to the
  order of their keys), and the dumps of the workflow models.
\<close>

datatype json =
    JNull
  | JBool bool
  | JInt int
  | JFloat py_float
  | JStr string
  | JList "json list"
  | JObj "(string \<times> json) list"

fun json_number :: "json \<Rightarrow> py_float option" where
  "json_number (JBool b) = Some (Finite (if b then 1 else 0))"
| "json_number (JInt i) = Some (Finite (of_int i))"
| "json_number (JFloat x) = Some x"
| "json_number _ = None"

fun json_eq :: "json \<Rightarrow> json \<Rightarrow> bool"
  and json_list_eq :: "json list \<Rightarrow> json list \<Rightarrow> bool"
  and json_items_eq :: "(string \<times> json) list \<Rightarrow> (string \<times> json) list \<Rightarrow> bool" where
  "json_eq (JList xs) b = (case b of JList ys \<Rightarrow> json_list_eq xs ys | _ \<Rightarrow> False)"
| "json_eq (JObj xs) b = (case b of
      JObj ys \<Rightarrow> length xs = length ys \<and> json_items_eq xs ys | _ \<Rightarrow> False)"
| "json_eq JNull b = (b = JNull)"
| "json_eq (JStr s) b = (b = JStr s)"
| "json_eq a b = (case (json_number a, json_number b) of
      (Some x, Some y) \<Rightarrow> float_eq x y | _ \<Rightarrow> False)"
| "json_list_eq [] ys = (ys = [])"
| "json_list_eq (x # xs) ys = (case ys of [] \<Rightarrow> False
      | y # zs \<Rightarrow> json_eq x y \<and> json_list_eq xs zs)"
| "json_items_eq [] ys = True"
| "json_items_eq ((k, x) # xs) ys =
     ((case map_of ys k of None \<Rightarrow> False | Some y \<Rightarrow> json_eq x y) \<and> json_items_eq xs ys)"

text \<open>Data without a float that is not a number, whose dictionaries have distinct keys.\<close>

fun wf_json :: "json \<Rightarrow> bool" where
  "wf_json (JFloat x) = (x \<noteq> NaN)"
| "wf_json (JList xs) = list_all wf_json xs"
| "wf_json (JObj xs) = (wf_dict xs \<and> list_all (\<lambda>(k, x). wf_json x) xs)"
| "wf_json _ = True"

lemma json_items_eq_iff:
  "json_items_eq xs ys \<longleftrightarrow>
     (\<forall>(k, x)\<in>set xs. case map_of ys k of None \<Rightarrow> False | Some y \<Rightarrow> json_eq x y)"
  by (induction xs) auto

lemma json_list_eq_iff: "json_list_eq xs ys \<longleftrightarrow> list_all2 json_eq xs ys"
  by (induction xs arbitrary: ys) (auto split: list.splits simp: list_all2_Cons1)

lemma json_eq_refl: "wf_json j \<Longrightarrow> json_eq j j"
proof (induction j rule: wf_json.induct)
  case (2 xs)
  then have "\<forall>x\<in>set xs. json_eq x x"
    by (simp add: list_all_iff)
  then show ?case
    by (simp add: json_list_eq_iff list_all2_same)
next
  case (3 xs)
  then have "\<forall>(k, x)\<in>set xs. json_eq x x"
    by (fastforce simp: list_all_iff)
  moreover from 3 have "wf_dict xs" by simp
  ultimately show ?case
    by (fastforce simp: json_items_eq_iff map_of_eq_Some_iff)
qed (simp_all add: float_eq_def)

section \<open>Dumps of the workflow models\<close>

fun value_json :: "field_value \<Rightarrow> json" where
  "value_json (VBool b) = JBool b"
| "value_json (VInt i) = JInt i"
| "value_json (VFloat x) = JFloat x"
| "value_json (VStr s) = JStr s"
| "value_json (VArtifact r) = JObj
     [(''kind'', JStr (case ar_kind r of ArtifactId \<Rightarrow> ''id'' | ArtifactUrl \<Rightarrow> ''url'')),
      (''value'', JStr (ar_value r))]"
| "value_json VNone = JNull"

definition values_json :: "(string, field_value) dict \<Rightarrow> json" where
  "values_json d = JObj (map (\<lambda>(k, v). (k, value_json v)) d)"

definition use_json :: "field_use \<Rightarrow> json" where
  "use_json u = JObj [(''field_id'', JStr (fu_field_id u)), (''required'', JBool (fu_required u))]"

definition precondition_json :: "precondition \<Rightarrow> json" where
  "precondition_json p = JObj
     [(''field_id'', JStr (pc_field_id p)),
      (''operator'', JStr (case pc_operator p of Equals \<Rightarrow> ''equals''
         | NotEquals \<Rightarrow> ''not_equals'' | IsPresent \<Rightarrow> ''is_present'')),
      (''value'', value_json (pc_value p))]"

definition criterion_json :: "agent_criterion \<Rightarrow> json" where
  "criterion_json c = JObj [(''id'', JStr (ac_id c)), (''description'', JStr (ac_description c))]"

definition kind_name :: "field_kind \<Rightarrow> string" where
  "kind_name k = (case k of KText \<Rightarrow> ''text'' | KNumber \<Rightarrow> ''number''
     | KBoolean \<Rightarrow> ''boolean'' | KArtifact \<Rightarrow> ''artifact'')"

text \<open>\<open>FieldDefinition._serialize_field\<close>: an absent artifact format is left out.\<close>

definition field_json :: "field_definition \<Rightarrow> json" where
  "field_json f = JObj
     ([(''id'', JStr (fd_id f)), (''label'', JStr (fd_label f)),
       (''type'', JStr (kind_name (fd_type f)))] @
      (case fd_artifact_format f of None \<Rightarrow> []
       | Some GitChange \<Rightarrow> [(''artifact_format'', JStr ''git-change'')]))"

definition assessment_json :: "criterion_assessment \<Rightarrow> json" where
  "assessment_json a = JObj
     [(''criterion_id'', JStr (ca_criterion_id a)),
      (''satisfied'', JBool (ca_satisfied a)),
      (''reasoning'', JStr (ca_reasoning a)),
      (''supporting_fields'', JList (map JStr (ca_supporting_fields a)))]"

end
