(* ===== verification/WorkflowRules.thy ===== *)
theory WorkflowRules
  imports Json
begin

text \<open>
  The transition engine of \<^verbatim>\<open>flowgency/workflows/rules.py\<close>: \<open>evaluate_transition\<close> with its loops
  over inputs, outputs, preconditions and assessments, each a function of its own, in the order of
  the code. The first exception raised is the result.

  The declarative counterpart is \<open>gates_pass\<close>; the main result is that the code accepts a
  transition exactly where the gates pass, and that on a validated definition no lookup fails.
\<close>

section \<open>The engine\<close>

abbreviation "fieldErr c f \<equiv> ContractError c (Some f)"
abbreviation "plainErr c \<equiv> ContractError c None"

definition validate_field_value ::
  "field_kind \<Rightarrow> field_value \<Rightarrow> bool \<Rightarrow> workflow_error + field_value" where
  "validate_field_value kind v required =
     (if v = VNone then
        (if required then Inl (plainErr ''required-value'') else Inr VNone)
      else case (kind, v) of
        (KText, VStr s) \<Rightarrow>
          (if required \<and> strip s = [] then Inl (plainErr ''required-value'') else Inr v)
      | (KBoolean, VBool b) \<Rightarrow> Inr v
      | (KNumber, VInt i) \<Rightarrow> Inr v
      | (KNumber, VFloat x) \<Rightarrow>
          (if \<not> is_finite x then Inl (plainErr ''invalid-number'') else Inr v)
      | (KArtifact, VArtifact r) \<Rightarrow> Inr v
      | _ \<Rightarrow> Inl (plainErr ''invalid-type''))"

text \<open>\<open>d.get(k)\<close>\<close>

definition value_at :: "(string, field_value) dict \<Rightarrow> string \<Rightarrow> field_value" where
  "value_at d k = (case map_of d k of None \<Rightarrow> VNone | Some v \<Rightarrow> v)"

text \<open>\<open>{f.id: f.type for f in definition.fields}\<close>\<close>

definition field_kinds :: "workflow_definition \<Rightarrow> (string, field_kind) dict" where
  "field_kinds d = dict_update [] (map (\<lambda>f. (fd_id f, fd_type f)) (wd_fields d))"

definition kind_at :: "workflow_definition \<Rightarrow> string \<Rightarrow> workflow_error + field_kind" where
  "kind_at d k = (case map_of (field_kinds d) k of None \<Rightarrow> Inl (KeyError k) | Some x \<Rightarrow> Inr x)"

text \<open>\<open>raise ContractError(err.code, err.message, field_id=use.field_id) from err\<close>\<close>

definition at_field :: "string \<Rightarrow> workflow_error \<Rightarrow> workflow_error" where
  "at_field k e = (case e of ContractError c _ \<Rightarrow> fieldErr c k | _ \<Rightarrow> e)"

definition check_use ::
  "workflow_definition \<Rightarrow> (string, field_value) dict \<Rightarrow> field_use \<Rightarrow> workflow_error + unit" where
  "check_use d vals u =
     (let raw = value_at vals (fu_field_id u) in
      bindE (kind_at d (fu_field_id u)) (\<lambda>kind.
      bindE (mapErr (at_field (fu_field_id u))
               (validate_field_value kind raw (fu_required u))) (\<lambda>_. Inr ())))"

definition check_inputs ::
  "workflow_definition \<Rightarrow> transition_definition \<Rightarrow> (string, field_value) dict \<Rightarrow> workflow_error + unit"
where
  "check_inputs d t effective = iterE (check_use d effective) (td_inputs t)"

definition check_outputs ::
  "workflow_definition \<Rightarrow> transition_definition \<Rightarrow> (string, field_value) dict \<Rightarrow> workflow_error + unit"
where
  "check_outputs d t outputs =
     bindE (iterE (\<lambda>k. ensure (k \<in> set (map fu_field_id (td_outputs t)))
                         (plainErr ''undeclared-output'')) (keys outputs)) (\<lambda>_.
     iterE (check_use d outputs) (td_outputs t))"

definition check_precondition ::
  "workflow_definition \<Rightarrow> transition_definition \<Rightarrow> (string, field_value) dict \<Rightarrow> precondition
     \<Rightarrow> workflow_error + unit" where
  "check_precondition d t effective p =
     (let k = pc_field_id p; val = value_at effective k in
      bindE (if k \<notin> set (map fu_field_id (td_inputs t)) \<and> val \<noteq> VNone
             then bindE (kind_at d k) (\<lambda>kind.
                    ensure (kind_matches_value kind val) (fieldErr ''invalid-type'' k))
             else Inr ()) (\<lambda>_.
      case pc_operator p of
        Equals \<Rightarrow>
          (if \<not> same_value val (pc_value p) then Inl (fieldErr ''precondition-failed'' k)
           else Inr ())
      | NotEquals \<Rightarrow>
          (if val = VNone then Inl (fieldErr ''precondition-failed'' k)
           else if same_value val (pc_value p) then Inl (fieldErr ''precondition-failed'' k)
           else Inr ())
      | IsPresent \<Rightarrow>
          (if val = VNone then Inl (fieldErr ''precondition-failed'' k) else Inr ())))"

text \<open>One turn of the loop over the assessments; the state is \<open>assessed_ids\<close>.\<close>

definition check_assessment ::
  "string list \<Rightarrow> string list \<Rightarrow> criterion_assessment \<Rightarrow> string list \<Rightarrow> workflow_error + string list"
where
  "check_assessment criterion_ids context_keys a assessed =
     (let c = ca_criterion_id a in
      if c \<notin> set criterion_ids then Inl (plainErr ''unknown-criterion'')
      else if c \<in> set assessed then Inl (plainErr ''duplicate-assessment'')
      else if \<not> ca_satisfied a then Inl (plainErr ''criterion-not-satisfied'')
      else bindE (iterE (\<lambda>sf. ensure (sf \<in> set context_keys)
                              (plainErr ''invalid-supporting-field''))
                    (ca_supporting_fields a)) (\<lambda>_. Inr (c # assessed)))"

definition check_assessments ::
  "transition_definition \<Rightarrow> string list \<Rightarrow> criterion_assessment list \<Rightarrow> workflow_error + unit"
where
  "check_assessments t context_keys assessments =
     (let criterion_ids = map ac_id (td_criteria t) in
      bindE (foldE (check_assessment criterion_ids context_keys) assessments []) (\<lambda>assessed.
      ensure (set criterion_ids \<subseteq> set assessed) (plainErr ''missing-assessment'')))"

record transition_snapshot =
  ts_id :: string
  ts_name :: string
  ts_from_state :: string
  ts_to_state :: string
  ts_inputs :: "field_use list"
  ts_outputs :: "field_use list"
  ts_preconditions :: "precondition list"
  ts_criteria :: "agent_criterion list"
  ts_field_defs :: "(string, field_definition) dict"

record evaluated_transition =
  ev_destination_state_id :: string
  ev_effective_inputs :: "(string, field_value) dict"
  ev_effective_outputs :: "(string, field_value) dict"
  ev_assessments :: "criterion_assessment list"
  ev_transition_snapshot :: transition_snapshot

definition referenced_field_ids :: "transition_definition \<Rightarrow> string list" where
  "referenced_field_ids t = sort (remdups
     (map fu_field_id (td_inputs t) @ map fu_field_id (td_outputs t) @
      map pc_field_id (td_preconditions t)))"

text \<open>\<open>{fid: definition.field(fid) for fid in sorted(referenced_field_ids)}\<close>\<close>

definition snapshot_field_defs ::
  "workflow_definition \<Rightarrow> string list \<Rightarrow> workflow_error + (string, field_definition) dict" where
  "snapshot_field_defs d ids =
     foldE (\<lambda>k acc. bindE (wd_field d k) (\<lambda>f. Inr (acc @ [(k, f)]))) ids []"

definition transition_snapshot_of ::
  "transition_definition \<Rightarrow> (string, field_definition) dict \<Rightarrow> transition_snapshot" where
  "transition_snapshot_of t defs =
     \<lparr>ts_id = td_id t, ts_name = td_name t, ts_from_state = td_from_state t,
      ts_to_state = td_to_state t, ts_inputs = td_inputs t, ts_outputs = td_outputs t,
      ts_preconditions = td_preconditions t, ts_criteria = td_criteria t,
      ts_field_defs = defs\<rparr>"

text \<open>\<open>{use.field_id: effective[use.field_id] for use in inputs if use.field_id in effective}\<close>\<close>

definition effective_inputs_of ::
  "transition_definition \<Rightarrow> (string, field_value) dict \<Rightarrow> (string, field_value) dict" where
  "effective_inputs_of t effective =
     dict_of_keys (value_at effective)
       (filter (has_key effective) (map fu_field_id (td_inputs t)))"

definition evaluate_transition ::
  "workflow_definition \<Rightarrow> string \<Rightarrow> string \<Rightarrow> (string, field_value) dict \<Rightarrow>
   (string, field_value) dict \<Rightarrow> (string, field_value) dict \<Rightarrow> criterion_assessment list \<Rightarrow>
   workflow_error + evaluated_transition" where
  "evaluate_transition d transition_id state_id current_values supplied_inputs outputs assessments =
     bindE (wd_transition d transition_id) (\<lambda>t.
     if td_from_state t \<noteq> state_id then Inl (plainErr ''wrong-source-state'')
     else let effective = dict_update current_values supplied_inputs in
       bindE (check_inputs d t effective) (\<lambda>_.
       bindE (check_outputs d t outputs) (\<lambda>_.
       bindE (iterE (check_precondition d t effective) (td_preconditions t)) (\<lambda>_.
       bindE (check_assessments t (keys effective @ keys outputs) assessments) (\<lambda>_.
       bindE (snapshot_field_defs d (referenced_field_ids t)) (\<lambda>defs.
       Inr \<lparr>ev_destination_state_id = td_to_state t,
            ev_effective_inputs = effective_inputs_of t effective,
            ev_effective_outputs = outputs,
            ev_assessments = assessments,
            ev_transition_snapshot = transition_snapshot_of t defs\<rparr>))))))"

section \<open>JSON\<close>

definition snapshot_json :: "transition_snapshot \<Rightarrow> json" where
  "snapshot_json s = JObj
     [(''id'', JStr (ts_id s)), (''name'', JStr (ts_name s)),
      (''from_state'', JStr (ts_from_state s)), (''to_state'', JStr (ts_to_state s)),
      (''inputs'', JList (map use_json (ts_inputs s))),
      (''outputs'', JList (map use_json (ts_outputs s))),
      (''preconditions'', JList (map precondition_json (ts_preconditions s))),
      (''criteria'', JList (map criterion_json (ts_criteria s))),
      (''field_defs'', JObj (map (\<lambda>(k, f). (k, field_json f)) (ts_field_defs s)))]"

definition evaluated_json :: "evaluated_transition \<Rightarrow> (string, json) dict" where
  "evaluated_json e =
     [(''destination_state_id'', JStr (ev_destination_state_id e)),
      (''effective_inputs'', values_json (ev_effective_inputs e)),
      (''effective_outputs'', values_json (ev_effective_outputs e)),
      (''transition_snapshot'', snapshot_json (ev_transition_snapshot e)),
      (''assessments'', JList (map assessment_json (ev_assessments e)))]"


section \<open>The gates, declaratively\<close>

definition value_fits :: "field_kind \<Rightarrow> field_value \<Rightarrow> bool \<Rightarrow> bool" where
  "value_fits k v required \<longleftrightarrow>
     (if v = VNone then \<not> required
      else kind_matches_value k v \<and>
           (\<forall>s. v = VStr s \<longrightarrow> required \<longrightarrow> strip s \<noteq> []) \<and>
           (\<forall>x. v = VFloat x \<longrightarrow> is_finite x))"

definition use_fits ::
  "workflow_definition \<Rightarrow> (string, field_value) dict \<Rightarrow> field_use \<Rightarrow> bool" where
  "use_fits d vals u \<longleftrightarrow> (\<exists>k. field_kind_of d (fu_field_id u) = Some k \<and>
     value_fits k (value_at vals (fu_field_id u)) (fu_required u))"

definition precondition_holds :: "(string, field_value) dict \<Rightarrow> precondition \<Rightarrow> bool" where
  "precondition_holds vals p \<longleftrightarrow> (let v = value_at vals (pc_field_id p) in
     case pc_operator p of
       Equals \<Rightarrow> same_value v (pc_value p)
     | NotEquals \<Rightarrow> v \<noteq> VNone \<and> \<not> same_value v (pc_value p)
     | IsPresent \<Rightarrow> v \<noteq> VNone)"

definition criteria_met ::
  "transition_definition \<Rightarrow> string list \<Rightarrow> criterion_assessment list \<Rightarrow> bool" where
  "criteria_met t context_keys assessments \<longleftrightarrow>
     distinct (map ca_criterion_id assessments) \<and>
     set (map ca_criterion_id assessments) = set (map ac_id (td_criteria t)) \<and>
     (\<forall>a\<in>set assessments. ca_satisfied a \<and> set (ca_supporting_fields a) \<subseteq> set context_keys)"

definition gates_pass ::
  "workflow_definition \<Rightarrow> transition_definition \<Rightarrow> string \<Rightarrow> (string, field_value) dict \<Rightarrow>
   (string, field_value) dict \<Rightarrow> criterion_assessment list \<Rightarrow> bool" where
  "gates_pass d t state_id effective outputs assessments \<longleftrightarrow>
     td_from_state t = state_id \<and>
     (\<forall>u\<in>set (td_inputs t). use_fits d effective u) \<and>
     set (keys outputs) \<subseteq> set (map fu_field_id (td_outputs t)) \<and>
     (\<forall>u\<in>set (td_outputs t). use_fits d outputs u) \<and>
     (\<forall>p\<in>set (td_preconditions t). precondition_holds effective p) \<and>
     criteria_met t (keys effective @ keys outputs) assessments"

definition accepted ::
  "workflow_definition \<Rightarrow> transition_definition \<Rightarrow> (string, field_value) dict \<Rightarrow>
   (string, field_value) dict \<Rightarrow> criterion_assessment list \<Rightarrow> evaluated_transition" where
  "accepted d t effective outputs assessments =
     \<lparr>ev_destination_state_id = td_to_state t,
      ev_effective_inputs = effective_inputs_of t effective,
      ev_effective_outputs = outputs,
      ev_assessments = assessments,
      ev_transition_snapshot = transition_snapshot_of t
        (map (\<lambda>k. (k, the (find (\<lambda>f. fd_id f = k) (wd_fields d)))) (referenced_field_ids t))\<rparr>"

section \<open>Each loop against its gate\<close>

lemma validate_field_value_ok:
  "validate_field_value k v r = Inr w \<longleftrightarrow> w = v \<and> value_fits k v r"
  unfolding validate_field_value_def value_fits_def
  by (cases k; cases v) (auto split: if_splits)

lemma validate_field_value_err:
  "validate_field_value k v r = Inl e \<Longrightarrow> \<exists>c. e = plainErr c \<and> c \<noteq> ''unknown-reference''"
  unfolding validate_field_value_def
  by (cases k; cases v) (auto split: if_splits)

lemma field_kinds_map_of:
  assumes "distinct (map fd_id (wd_fields d))"
  shows "map_of (field_kinds d) k = field_kind_of d k"
proof -
  have "wf_dict (map (\<lambda>f. (fd_id f, fd_type f)) (wd_fields d))"
    using assms by (simp add: comp_def)
  then have "map_of (field_kinds d) k = map_of (map (\<lambda>f. (fd_id f, fd_type f)) (wd_fields d)) k"
    by (simp add: field_kinds_def map_of_dict_update split: option.splits)
  also have "\<dots> = field_kind_of d k"
    by (simp add: field_kind_of_def map_of_map_find)
  finally show ?thesis .
qed

lemma kind_at_eq:
  assumes "distinct (map fd_id (wd_fields d))"
  shows "kind_at d k = (case field_kind_of d k of None \<Rightarrow> Inl (KeyError k) | Some x \<Rightarrow> Inr x)"
  by (simp add: kind_at_def field_kinds_map_of [OF assms])

lemma check_use_ok:
  assumes "distinct (map fd_id (wd_fields d))"
  shows "check_use d vals u = Inr () \<longleftrightarrow> use_fits d vals u"
  unfolding check_use_def Let_def kind_at_eq [OF assms] use_fits_def
  by (auto simp: errE validate_field_value_ok split: option.splits)

lemma check_use_err:
  assumes "distinct (map fd_id (wd_fields d))" "fu_field_id u \<in> set (map fd_id (wd_fields d))"
    and "check_use d vals u = Inl e"
  shows "\<exists>c. e = fieldErr c (fu_field_id u) \<and> c \<noteq> ''unknown-reference''"
proof -
  from assms(2) obtain k where "field_kind_of d (fu_field_id u) = Some k"
    by (metis field_kind_of_None option.exhaust)
  with assms(3) show ?thesis
    unfolding check_use_def Let_def kind_at_eq [OF assms(1)]
    by (auto simp: errE at_field_def dest: validate_field_value_err)
qed

lemma check_precondition_ok:
  assumes "pc_field_id p \<in> set (map fu_field_id (td_inputs t))"
  shows "check_precondition d t effective p = Inr () \<longleftrightarrow> precondition_holds effective p"
  using assms unfolding check_precondition_def precondition_holds_def Let_def
  by (auto split: operator.splits simp del: set_map)

lemma check_precondition_err:
  assumes "pc_field_id p \<in> set (map fu_field_id (td_inputs t))"
    and "check_precondition d t effective p = Inl e"
  shows "e = fieldErr ''precondition-failed'' (pc_field_id p)"
  using assms unfolding check_precondition_def Let_def
  by (auto split: operator.splits if_splits simp del: set_map)

lemma foldE_check_assessment:
  "foldE (check_assessment ids ctx) as acc = Inr acc' \<longleftrightarrow>
     acc' = rev (map ca_criterion_id as) @ acc \<and>
     distinct (map ca_criterion_id as) \<and> set (map ca_criterion_id as) \<inter> set acc = {} \<and>
     set (map ca_criterion_id as) \<subseteq> set ids \<and>
     (\<forall>a\<in>set as. ca_satisfied a \<and> set (ca_supporting_fields a) \<subseteq> set ctx)"
proof (induction as arbitrary: acc)
  case Nil
  then show ?case by auto
next
  case (Cons a as)
  have step: "check_assessment ids ctx a acc = Inr acc1 \<longleftrightarrow>
      acc1 = ca_criterion_id a # acc \<and> ca_criterion_id a \<in> set ids \<and>
      ca_criterion_id a \<notin> set acc \<and> ca_satisfied a \<and>
      set (ca_supporting_fields a) \<subseteq> set ctx" for acc1
    unfolding check_assessment_def Let_def by (auto simp: errE)
  show ?case
    by (auto simp: bindE_eq_Inr step Cons.IH)
qed

lemma check_assessments_ok:
  "check_assessments t ctx as = Inr () \<longleftrightarrow> criteria_met t ctx as"
  unfolding check_assessments_def Let_def criteria_met_def
  by (auto simp: bindE_eq_Inr foldE_check_assessment ensure_eq_Inr)

lemma foldE_err: "foldE f xs s = Inl e \<Longrightarrow> \<exists>x\<in>set xs. \<exists>s'. f x s' = Inl e"
  by (induction xs arbitrary: s) (auto simp: bindE_eq_Inl)

lemma check_assessments_err:
  "check_assessments t ctx as = Inl e \<Longrightarrow> \<exists>c. e = plainErr c \<and> c \<noteq> ''unknown-reference''"
  unfolding check_assessments_def Let_def bindE_eq_Inl ensure_eq_Inl
  by (auto dest!: foldE_err iterE_eq_Inl
      simp: check_assessment_def Let_def bindE_eq_Inl ensure_eq_Inl split: if_splits)

lemma snapshot_field_defs_aux:
  assumes "\<And>k. k \<in> set ids \<Longrightarrow> isOk (wd_field d k)"
  shows "foldE (\<lambda>k acc. bindE (wd_field d k) (\<lambda>f. Inr (acc @ [(k, f)]))) ids acc =
     Inr (acc @ map (\<lambda>k. (k, the (find (\<lambda>f. fd_id f = k) (wd_fields d)))) ids)"
  using assms
proof (induction ids arbitrary: acc)
  case Nil
  then show ?case by simp
next
  case (Cons k ids)
  then obtain f where "find (\<lambda>f. fd_id f = k) (wd_fields d) = Some f" "wd_field d k = Inr f"
    by (force simp: isOk_iff wd_field_def split: option.splits)
  with Cons show ?case by simp
qed

lemma referenced_declared:
  assumes "wf_transition d t" "k \<in> set (referenced_field_ids t)"
  shows "isOk (wd_field d k)"
  using assms unfolding wd_field_declared wf_transition_def referenced_field_ids_def
  by (auto simp del: set_map)

lemma snapshot_field_defs_wf:
  assumes "wf_transition d t"
  shows "snapshot_field_defs d (referenced_field_ids t) = Inr (map (\<lambda>k. (k, the (find (\<lambda>f. fd_id f = k) (wd_fields d)))) (referenced_field_ids t))"
  unfolding snapshot_field_defs_def
  using snapshot_field_defs_aux [where acc = "[]"] referenced_declared [OF assms] by simp

lemma use_fits_kind:
  assumes "use_fits d vals u"
  shows "\<exists>kind. field_kind_of d (fu_field_id u) = Some kind \<and>
     (value_at vals (fu_field_id u) \<noteq> VNone \<longrightarrow>
      kind_matches_value kind (value_at vals (fu_field_id u)))"
proof -
  from assms obtain k where k: "field_kind_of d (fu_field_id u) = Some k"
    "value_fits k (value_at vals (fu_field_id u)) (fu_required u)"
    unfolding use_fits_def by blast
  then show ?thesis unfolding value_fits_def by (cases "value_at vals (fu_field_id u) = VNone") simp_all
qed

lemmas gate_lemmas = check_use_ok check_precondition_ok check_assessments_ok

lemma wf_definition_transition:
  "wf_definition d \<Longrightarrow> t \<in> set (wd_transitions d) \<Longrightarrow> wf_transition d t"
  by (simp add: wf_definition_def)

lemma wf_definition_distinct:
  "wf_definition d \<Longrightarrow> distinct (map fd_id (wd_fields d))"
  "wf_definition d \<Longrightarrow> distinct (map td_id (wd_transitions d))"
  "wf_definition d \<Longrightarrow> distinct (map sd_id (wd_states d))"
  by (simp_all add: wf_definition_def)

lemma evaluate_found:
  assumes wf: "wf_definition d" and t: "t \<in> set (wd_transitions d)"
    and eff: "effective = dict_update current supplied"
  shows "evaluate_transition d (td_id t) state_id current supplied outputs assessments = Inr e \<longleftrightarrow>
     gates_pass d t state_id effective outputs assessments \<and>
     e = accepted d t effective outputs assessments"
proof -
  note dist = wf_definition_distinct [OF wf]
  have wt: "wf_transition d t" using wf t by (rule wf_definition_transition)
  then have pre: "pc_field_id p \<in> set (map fu_field_id (td_inputs t))"
    if "p \<in> set (td_preconditions t)" for p
    using that unfolding wf_transition_def set_map_subset by blast
  have "wd_transition d (td_id t) = Inr t"
    using dist(2) t by (rule wd_transition_unique)
  then show ?thesis
    unfolding evaluate_transition_def gates_pass_def accepted_def eff Let_def
      check_inputs_def check_outputs_def
    by (auto simp: bindE_eq_Inr iterE_eq_Inr ensure_eq_Inr gate_lemmas dist pre
        snapshot_field_defs_wf [OF wt] simp del: set_map)
qed

lemma evaluate_accepts:
  assumes "wf_definition d"
    and "evaluate_transition d transition_id state_id current supplied outputs assessments = Inr e"
  shows "\<exists>t\<in>set (wd_transitions d). td_id t = transition_id \<and>
    gates_pass d t state_id (dict_update current supplied) outputs assessments \<and>
    e = accepted d t (dict_update current supplied) outputs assessments"
proof -
  from assms(2) obtain t where t: "wd_transition d transition_id = Inr t"
    unfolding evaluate_transition_def bindE_eq_Inr by blast
  then have "t \<in> set (wd_transitions d)" "td_id t = transition_id"
    by (auto dest: wd_transition_Inr)
  with assms evaluate_found [OF assms(1)] show ?thesis by blast
qed

section \<open>Properties of the engine\<close>

text \<open>C1: On a validated definition, the transition engine accepts a request exactly where the
  declarative gates pass (source state, declared and well-typed inputs and outputs, every
  precondition, every criterion assessed once and satisfied with known supporting fields), and
  then its result is the recorded destination, effective inputs, outputs and snapshot.\<close>

theorem evaluate_transition_iff:
  assumes "wf_definition d"
  shows "evaluate_transition d transition_id state_id current supplied outputs assessments = Inr e \<longleftrightarrow>
     (\<exists>t\<in>set (wd_transitions d). td_id t = transition_id \<and>
        gates_pass d t state_id (dict_update current supplied) outputs assessments \<and>
        e = accepted d t (dict_update current supplied) outputs assessments)"
    (is "?run = _ \<longleftrightarrow> ?gates")
proof
  assume "?run = Inr e"
  then show ?gates by (rule evaluate_accepts [OF assms])
next
  assume ?gates
  then show "?run = Inr e" using evaluate_found [OF assms] by blast
qed


text \<open>On a validated definition the engine never fails a lookup: no \<open>KeyError\<close> escapes it, no
  validator error, and the only unknown reference is the transition the caller named.\<close>

theorem evaluate_transition_safe:
  assumes "wf_definition d"
    and "evaluate_transition d transition_id state_id current supplied outputs assessments = Inl e"
  shows "\<exists>c f. e = ContractError c f \<and>
     (c = ''unknown-reference'' \<longleftrightarrow> transition_id \<notin> set (map td_id (wd_transitions d)))"
proof (cases "wd_transition d transition_id")
  case (Inl e')
  then have "transition_id \<notin> set (map td_id (wd_transitions d))"
    by (metis isOk_Inl wd_transition_declared)
  moreover from Inl assms(2) have "e = plainErr ''unknown-reference''"
    by (auto simp: evaluate_transition_def wd_transition_def split: option.splits)
  ultimately show ?thesis by simp
next
  case (Inr t)
  then have t: "t \<in> set (wd_transitions d)" "td_id t = transition_id"
    by (auto dest: wd_transition_Inr)
  note dist = wf_definition_distinct [OF assms(1)]
  have wt: "wf_transition d t" using assms(1) t(1) by (rule wf_definition_transition)
  then have decl: "\<forall>u\<in>set (td_inputs t @ td_outputs t). fu_field_id u \<in> set (map fd_id (wd_fields d))"
    and pre: "\<forall>p\<in>set (td_preconditions t). pc_field_id p \<in> set (map fu_field_id (td_inputs t))"
    unfolding wf_transition_def set_map_subset by blast+
  let ?eff = "dict_update current supplied"
  have uses: "\<exists>c f. e = ContractError c f \<and> c \<noteq> ''unknown-reference''"
    if "iterE (check_use d vals) us = Inl e" "set us \<subseteq> set (td_inputs t @ td_outputs t)" for vals us
    using iterE_eq_Inl [OF that(1)] check_use_err [OF dist(1)] decl that(2) by blast
  from Inr assms(2) consider
      "e = plainErr ''wrong-source-state''"
    | "check_inputs d t ?eff = Inl e"
    | "check_outputs d t outputs = Inl e"
    | "iterE (check_precondition d t ?eff) (td_preconditions t) = Inl e"
    | "check_assessments t (keys ?eff @ keys outputs) assessments = Inl e"
    by (auto simp: evaluate_transition_def Let_def bindE_eq_Inl snapshot_field_defs_wf [OF wt]
        split: if_splits)
  then have "\<exists>c f. e = ContractError c f \<and> c \<noteq> ''unknown-reference''"
  proof cases
    case 2
    then show ?thesis unfolding check_inputs_def by (rule uses) simp
  next
    case 3
    then show ?thesis unfolding check_outputs_def bindE_eq_Inl
      using uses by (fastforce simp: ensure_eq_Inl dest: iterE_eq_Inl)
  next
    case 4
    then obtain p where p: "p \<in> set (td_preconditions t)" "check_precondition d t ?eff p = Inl e"
      by (blast dest: iterE_eq_Inl)
    then have "e = fieldErr ''precondition-failed'' (pc_field_id p)"
      using pre by (blast intro: check_precondition_err)
    then show ?thesis by simp
  qed (auto dest: check_assessments_err)
  moreover have "transition_id \<in> set (map td_id (wd_transitions d))" using t by auto
  ultimately show ?thesis by auto
qed

text \<open>C40: An accepted transition keeps the ticket inside the contract: its destination is a declared
  state, its effective inputs and outputs are declared fields, and every value it writes that is
  not an explicit null has exactly the type of its field.\<close>

theorem evaluate_transition_typed:
  assumes "wf_definition d"
    and "evaluate_transition d transition_id state_id current supplied outputs assessments = Inr e"
  shows "ev_destination_state_id e \<in> set (map sd_id (wd_states d)) \<and>
     (\<forall>(k, v)\<in>set (ev_effective_outputs e). \<exists>kind. field_kind_of d k = Some kind) \<and>
     (\<forall>k v. map_of (ev_effective_outputs e) k = Some v \<longrightarrow> v \<noteq> VNone \<longrightarrow>
        (\<exists>kind. field_kind_of d k = Some kind \<and> kind_matches_value kind v)) \<and>
     (\<forall>k v. map_of (ev_effective_inputs e) k = Some v \<longrightarrow> v \<noteq> VNone \<longrightarrow>
        (\<exists>kind. field_kind_of d k = Some kind \<and> kind_matches_value kind v))"
proof -
  obtain t where t: "t \<in> set (wd_transitions d)"
    and g: "gates_pass d t state_id (dict_update current supplied) outputs assessments"
    and e: "e = accepted d t (dict_update current supplied) outputs assessments"
    using evaluate_accepts [OF assms] by blast
  let ?eff = "dict_update current supplied"
  have wt: "wf_transition d t" using assms(1) t by (rule wf_definition_transition)
  have out: "\<exists>kind. field_kind_of d k = Some kind \<and>
      (value_at outputs k \<noteq> VNone \<longrightarrow> kind_matches_value kind (value_at outputs k))"
    if k: "k \<in> set (keys outputs)" for k
  proof -
    from k g obtain u where "u \<in> set (td_outputs t)" "fu_field_id u = k"
      unfolding gates_pass_def by auto
    with g show ?thesis unfolding gates_pass_def by (blast dest: use_fits_kind)
  qed
  have inp: "\<exists>kind. field_kind_of d k = Some kind \<and>
      (value_at ?eff k \<noteq> VNone \<longrightarrow> kind_matches_value kind (value_at ?eff k))"
    if k: "k \<in> set (map fu_field_id (td_inputs t))" for k
  proof -
    from k obtain u where "u \<in> set (td_inputs t)" "fu_field_id u = k" by auto
    with g show ?thesis unfolding gates_pass_def by (blast dest: use_fits_kind)
  qed
  have "td_to_state t \<in> set (map sd_id (wd_states d))" using wt by (simp add: wf_transition_def)
  moreover have "\<exists>kind. field_kind_of d k = Some kind" if "(k, v) \<in> set outputs" for k v
    using out [of k] that by force
  moreover have "\<exists>kind. field_kind_of d k = Some kind \<and> kind_matches_value kind v"
    if "map_of outputs k = Some v" "v \<noteq> VNone" for k v
    using out [of k] that by (force simp: value_at_def dest: map_of_SomeD)
  moreover have "\<exists>kind. field_kind_of d k = Some kind \<and> kind_matches_value kind v"
    if "map_of (effective_inputs_of t ?eff) k = Some v" "v \<noteq> VNone" for k v
    using inp [of k] that
    by (auto simp: effective_inputs_of_def map_of_dict_of_keys split: if_splits)
  ultimately show ?thesis unfolding e accepted_def by auto
qed

section \<open>A small workflow\<close>

definition demo_transition :: transition_definition where
  "demo_transition =
     \<lparr>td_id = ''finish'', td_name = ''Finish'', td_from_state = ''open'', td_to_state = ''done'',
      td_inputs = [\<lparr>fu_field_id = ''cost'', fu_required = True\<rparr>],
      td_outputs = [\<lparr>fu_field_id = ''note'', fu_required = True\<rparr>],
      td_preconditions = [\<lparr>pc_field_id = ''cost'', pc_operator = NotEquals, pc_value = VInt 0\<rparr>],
      td_criteria = [\<lparr>ac_id = ''c1'', ac_description = ''Reviewed''\<rparr>]\<rparr>"

definition demo_workflow :: workflow_definition where
  "demo_workflow =
     \<lparr>wd_id = ''wf'', wd_name = ''Demo'', wd_description = [], wd_initial_state = ''open'',
      wd_states = [\<lparr>sd_id = ''open'', sd_name = ''Open'', sd_color = ''#3b82f6''\<rparr>,
                   \<lparr>sd_id = ''done'', sd_name = ''Done'', sd_color = ''#00FF00''\<rparr>],
      wd_fields = [\<lparr>fd_id = ''cost'', fd_label = ''Cost'', fd_type = KNumber, fd_artifact_format = None\<rparr>,
                   \<lparr>fd_id = ''note'', fd_label = ''Note'', fd_type = KText, fd_artifact_format = None\<rparr>],
      wd_transitions = [demo_transition]\<rparr>"

definition demo_assessment :: criterion_assessment where
  "demo_assessment = \<lparr>ca_criterion_id = ''c1'', ca_satisfied = True, ca_reasoning = ''ok'',
     ca_supporting_fields = [''note'']\<rparr>"

definition demo_evaluated :: evaluated_transition where
  "demo_evaluated = accepted demo_workflow demo_transition [(''cost'', VInt 3)]
     [(''note'', VStr ''paid'')] [demo_assessment]"

lemma demo_valid: "model_validate demo_workflow = Inr demo_workflow"
  by code_simp

lemma demo_wf: "wf_definition demo_workflow"
  using demo_valid by (simp add: model_validate_wf)

lemma demo_run:
  "evaluate_transition demo_workflow ''finish'' ''open'' [(''cost'', VInt 3)] []
     [(''note'', VStr ''paid'')] [demo_assessment] = Inr demo_evaluated"
  by code_simp

theorem evaluate_transition_iff_witness:
  "wf_definition demo_workflow \<and>
   gates_pass demo_workflow demo_transition ''open'' (dict_update [(''cost'', VInt 3)] [])
     [(''note'', VStr ''paid'')] [demo_assessment]"
  using evaluate_transition_iff [OF demo_wf, THEN iffD1, OF demo_run] demo_wf
  by (simp add: demo_workflow_def demo_transition_def)

theorem evaluate_transition_safe_witness:
  "wf_definition demo_workflow \<and>
   (\<exists>c f e. evaluate_transition demo_workflow ''gone'' ''open'' [] [] [] [] = Inl e \<and>
      e = ContractError c f \<and> c = ''unknown-reference'')"
proof -
  have run: "evaluate_transition demo_workflow ''gone'' ''open'' [] [] [] [] =
      Inl (plainErr ''unknown-reference'')" by code_simp
  show ?thesis using demo_wf run evaluate_transition_safe [OF demo_wf run] by blast
qed

theorem evaluate_transition_typed_witness:
  "wf_definition demo_workflow \<and>
   ev_destination_state_id demo_evaluated \<in> set (map sd_id (wd_states demo_workflow))"
  using demo_wf evaluate_transition_typed [OF demo_wf demo_run] by blast

end
