(* ===== verification/TicketModels.thy ===== *)
theory TicketModels
  imports WorkflowRules
begin

text \<open>
  The ticket domain of \<^verbatim>\<open>flowgency/tickets/models.py\<close> and \<^verbatim>\<open>errors.py\<close>: references, events,
  receipts, the durable record, and how an operation is sealed into it. A receipt keeps the
  original result without the receipt ledger: it holds a \<open>ticket_body\<close>, and a \<open>ticket_record\<close> is
  a body extended by the ledger.

  Times are microseconds since the epoch. The ids that \<open>uuid4\<close> draws for events without one are
  an argument.
\<close>

section \<open>Errors\<close>

datatype error_class =
    TicketNotFound | StorageUnavailable | TicketCorrupt | TicketTooLarge | TicketConflict
  | OperationConflict | TicketForbidden | TicketEvidenceInvalid | WorkflowUnavailable

fun http_status :: "error_class \<Rightarrow> nat" where
  "http_status TicketNotFound = 404"
| "http_status StorageUnavailable = 503"
| "http_status TicketCorrupt = 500"
| "http_status TicketTooLarge = 413"
| "http_status TicketConflict = 409"
| "http_status OperationConflict = 409"
| "http_status TicketForbidden = 403"
| "http_status TicketEvidenceInvalid = 422"
| "http_status WorkflowUnavailable = 503"

text \<open>
  \<open>Raise c code\<close> is a \<open>TicketStorageError\<close>; \<open>Contract\<close> an exception of the workflow engine;
  \<open>ConfigConflict\<close> the configuration store's; \<open>PyError\<close> a built-in exception of Python.
\<close>

datatype ticket_error =
    Raise error_class string
  | Contract workflow_error
  | ConfigConflict
  | PyError string

abbreviation "staleTicket \<equiv> Raise TicketConflict ''stale-ticket''"

section \<open>Records\<close>

type_synonym time = int

record ticket_ref =
  rf_binding_id :: string
  rf_team_id :: string
  rf_workflow_id :: string
  rf_ticket_id :: string

record ticket_event =
  te_id :: string
  te_kind :: string
  te_actor :: string
  te_summary :: string
  te_data :: "(string, json) dict"
  te_at :: "time option"

record active_run =
  run_job_id :: string
  run_session_id :: string
  run_started_at :: time

record run_reservation =
  rv_job_id :: string
  rv_request_id :: string
  rv_assignee :: string
  rv_assignment_event_id :: string

datatype actor_kind = UserKind | AgentKind

record field_provenance =
  pv_actor_kind :: actor_kind
  pv_actor_name :: string
  pv_job_id :: "string option"
  pv_event_id :: string
  pv_recorded_at :: time

record agent_context =
  cx_job_id :: string
  cx_team_id :: string
  cx_agent_name :: string
  cx_session_id :: string

record user_context =
  uc_team_id :: string
  uc_actor_name :: string

datatype ticket_actor = Agent agent_context | User user_context

record ticket_version =
  tv_ref :: ticket_ref
  tv_revision :: int
  tv_workflow_digest :: string
  tv_context_digest :: string

record ticket_patch =
  tp_title :: "string option"
  tp_description :: "string option"
  tp_field_values :: "(string, field_value) dict option"

definition validate_patch :: "ticket_patch \<Rightarrow> ticket_error + unit" where
  "validate_patch p =
     (if tp_title p = None \<and> tp_description p = None \<and> tp_field_values p = None
      then Inl (PyError ''ValueError'') else Inr ())"

record transition_request =
  tq_transition_id :: string
  tq_inputs :: "(string, field_value) dict"
  tq_outputs :: "(string, field_value) dict"
  tq_assessments :: "criterion_assessment list"

record ticket_report =
  tr_message :: string
  tr_assessments :: "criterion_assessment list"

definition validate_report :: "ticket_report \<Rightarrow> ticket_error + unit" where
  "validate_report r = ensure (strip (tr_message r) \<noteq> []) (PyError ''ValueError'')"

record ticket_operation =
  op_id :: string
  op_request_digest :: string

record ticket_body =
  tk_id :: string
  tk_number :: int
  tk_title :: string
  tk_description :: string
  tk_state_id :: string
  tk_assignee :: "string option"
  tk_pending_run :: "run_reservation option"
  tk_active_run :: "active_run option"
  tk_field_values :: "(string, field_value) dict"
  tk_field_provenance :: "(string, field_provenance) dict"
  tk_revision :: int
  tk_events :: "ticket_event list"
  tk_created_at :: time
  tk_updated_at :: time
  tk_ref :: "ticket_ref option"

record ticket_receipt =
  rc_operation_id :: string
  rc_request_digest :: string
  rc_at :: time
  rc_event_id :: string
  rc_snapshot :: ticket_body

record ticket_record = ticket_body +
  tk_receipts :: "ticket_receipt list"

record mutation_result =
  mr_ticket :: ticket_record
  mr_replayed :: bool
  mr_event_id :: string

text \<open>\<open>TicketRecord.model_validate(snapshot)\<close>: the record of a snapshot has no receipts.\<close>

definition record_of :: "ticket_body \<Rightarrow> ticket_record" where
  "record_of b = ticket_body.extend b (ticket_record.fields [])"

definition body_of :: "ticket_record \<Rightarrow> ticket_body" where
  "body_of r = ticket_body.truncate r"

section \<open>Receipts\<close>

definition find_receipt :: "ticket_record \<Rightarrow> string \<Rightarrow> ticket_receipt option" where
  "find_receipt r i = find (\<lambda>x. rc_operation_id x = i) (tk_receipts r)"

definition require_digest :: "ticket_receipt \<Rightarrow> string \<Rightarrow> ticket_error + unit" where
  "require_digest x dg =
     (if rc_request_digest x \<noteq> dg then Inl (Raise OperationConflict ''operation-digest-mismatch'')
      else Inr ())"

definition receipt_result :: "ticket_receipt \<Rightarrow> bool \<Rightarrow> mutation_result" where
  "receipt_result x replayed =
     \<lparr>mr_ticket = record_of (rc_snapshot x), mr_replayed = replayed, mr_event_id = rc_event_id x\<rparr>"

definition with_ref :: "ticket_record \<Rightarrow> ticket_ref \<Rightarrow> ticket_error + ticket_record" where
  "with_ref r ref =
     (if rf_ticket_id ref \<noteq> tk_id r then Inl (PyError ''ValueError'')
      else Inr (r\<lparr>tk_ref := Some ref\<rparr>))"

section \<open>Events\<close>

definition event_eq :: "ticket_event \<Rightarrow> ticket_event \<Rightarrow> bool" where
  "event_eq a b \<longleftrightarrow> te_id a = te_id b \<and> te_kind a = te_kind b \<and> te_actor a = te_actor b \<and>
     te_summary a = te_summary b \<and> json_eq (JObj (te_data a)) (JObj (te_data b)) \<and>
     te_at a = te_at b"

text \<open>Fill in a missing id and time; the \<open>n\<close>-th draw of \<open>uuid4\<close> is \<open>uuid n\<close>.\<close>

fun finalize_new :: "time \<Rightarrow> (nat \<Rightarrow> string) \<Rightarrow> nat \<Rightarrow> ticket_event list \<Rightarrow> ticket_event list" where
  "finalize_new now uuid n [] = []"
| "finalize_new now uuid n (e # es) =
     (let e' = e\<lparr>te_id := (if te_id e = [] then uuid n else te_id e),
                te_at := (case te_at e of None \<Rightarrow> Some now | Some t \<Rightarrow> Some t)\<rparr>
      in e' # finalize_new now uuid (if te_id e = [] then Suc n else n) es)"

definition finalize_events ::
  "(nat \<Rightarrow> string) \<Rightarrow> ticket_event list \<Rightarrow> ticket_event list \<Rightarrow> time \<Rightarrow>
   ticket_error + ticket_event list \<times> string" where
  "finalize_events uuid current candidate now =
     (if \<not> list_all2 event_eq (take (length current) candidate) current
      then Inl (Raise TicketConflict ''event-history-changed'')
      else let finalized = current @ finalize_new now uuid 0 (drop (length current) candidate)
           in Inr (finalized, if finalized = [] then [] else te_id (last finalized)))"

section \<open>Sealing an operation\<close>

definition seal_operation ::
  "ticket_record \<Rightarrow> ticket_operation \<Rightarrow> time \<Rightarrow> string \<Rightarrow> ticket_record \<times> mutation_result" where
  "seal_operation r op now event_id =
     (let snapshot = body_of r;
          receipt = \<lparr>rc_operation_id = op_id op, rc_request_digest = op_request_digest op,
                     rc_at = now, rc_event_id = event_id, rc_snapshot = snapshot\<rparr>
      in (r\<lparr>tk_receipts := tk_receipts r @ [receipt]\<rparr>,
          \<lparr>mr_ticket = record_of snapshot, mr_replayed = False, mr_event_id = event_id\<rparr>))"

definition commit_creation ::
  "(nat \<Rightarrow> string) \<Rightarrow> ticket_record \<Rightarrow> ticket_operation \<Rightarrow> time \<Rightarrow>
   ticket_error + ticket_record \<times> mutation_result" where
  "commit_creation uuid r op now =
     bindE (finalize_events uuid [] (tk_events r) now) (\<lambda>(events, event_id).
     Inr (seal_operation (r\<lparr>tk_events := events\<rparr>) op now event_id))"

definition commit_operation ::
  "(nat \<Rightarrow> string) \<Rightarrow> ticket_record \<Rightarrow> ticket_record \<Rightarrow> ticket_operation \<Rightarrow> time \<Rightarrow>
   ticket_error + ticket_record \<times> mutation_result" where
  "commit_operation uuid candidate current op now =
     bindE (finalize_events uuid (tk_events current) (tk_events candidate) now)
       (\<lambda>(events, event_id).
     Inr (seal_operation (candidate\<lparr>tk_revision := tk_revision current + 1,
            tk_updated_at := now, tk_events := events\<rparr>) op now event_id))"

section \<open>Facts about sealing\<close>

named_theorems sealE \<open>what sealing an operation does\<close>

lemma body_of_receipts [simp]: "body_of (r\<lparr>tk_receipts := rs\<rparr>) = body_of r"
  by (cases r) (simp add: body_of_def ticket_body.defs)

lemma record_of_fields [simp]:
  "tk_receipts (record_of b) = []" "body_of (record_of b) = b"
  "tk_id (record_of b) = tk_id b" "tk_number (record_of b) = tk_number b"
  "tk_revision (record_of b) = tk_revision b" "tk_events (record_of b) = tk_events b"
  "tk_state_id (record_of b) = tk_state_id b" "tk_ref (record_of b) = tk_ref b"
  "tk_assignee (record_of b) = tk_assignee b" "tk_active_run (record_of b) = tk_active_run b"
  "tk_pending_run (record_of b) = tk_pending_run b"
  "tk_field_values (record_of b) = tk_field_values b"
  "tk_field_provenance (record_of b) = tk_field_provenance b"
  "tk_title (record_of b) = tk_title b" "tk_description (record_of b) = tk_description b"
  "tk_created_at (record_of b) = tk_created_at b" "tk_updated_at (record_of b) = tk_updated_at b"
  by (cases b; simp add: record_of_def body_of_def ticket_body.defs ticket_record.defs)+

lemma body_of_fields [simp]:
  "tk_id (body_of r) = tk_id r" "tk_number (body_of r) = tk_number r"
  "tk_revision (body_of r) = tk_revision r" "tk_events (body_of r) = tk_events r"
  "tk_state_id (body_of r) = tk_state_id r" "tk_ref (body_of r) = tk_ref r"
  "tk_assignee (body_of r) = tk_assignee r" "tk_active_run (body_of r) = tk_active_run r"
  "tk_pending_run (body_of r) = tk_pending_run r"
  "tk_field_values (body_of r) = tk_field_values r"
  "tk_field_provenance (body_of r) = tk_field_provenance r"
  "tk_title (body_of r) = tk_title r" "tk_description (body_of r) = tk_description r"
  "tk_created_at (body_of r) = tk_created_at r" "tk_updated_at (body_of r) = tk_updated_at r"
  by (cases r; simp add: body_of_def ticket_body.defs)+

lemma length_finalize_new [simp]: "length (finalize_new now uuid n es) = length es"
  by (induction now uuid n es rule: finalize_new.induct) (simp_all add: Let_def)

lemma finalize_new_kinds: "map te_kind (finalize_new now uuid n es) = map te_kind es"
  by (induction now uuid n es rule: finalize_new.induct) (simp_all add: Let_def)

lemma finalize_new_named:
  "(\<forall>e\<in>set es. te_id e \<noteq> [] \<and> te_at e \<noteq> None) \<Longrightarrow> finalize_new now uuid n es = es"
  by (induction now uuid n es rule: finalize_new.induct) (auto simp: Let_def)

lemma finalize_new_at:
  "e \<in> set (finalize_new now uuid n es) \<Longrightarrow> te_at e \<noteq> None"
  by (induction now uuid n es rule: finalize_new.induct) (auto simp: Let_def split: option.splits)

lemma finalize_events_Inr:
  "finalize_events uuid cur cand now = Inr (evs, i) \<longleftrightarrow>
     list_all2 event_eq (take (length cur) cand) cur \<and>
     evs = cur @ finalize_new now uuid 0 (drop (length cur) cand) \<and>
     i = (if evs = [] then [] else te_id (last evs))"
  by (auto simp: finalize_events_def Let_def)

lemma event_eq_refl: "wf_json (JObj (te_data e)) \<Longrightarrow> event_eq e e"
  unfolding event_eq_def by (blast intro: json_eq_refl)

lemma events_eq_refl:
  "(\<And>e. e \<in> set es \<Longrightarrow> wf_json (JObj (te_data e))) \<Longrightarrow> list_all2 event_eq es es"
  by (simp add: list_all2_same event_eq_refl del: wf_json.simps)

lemma seal_fields [simp]:
  "tk_receipts (fst (seal_operation r op now i)) = tk_receipts r @
     [\<lparr>rc_operation_id = op_id op, rc_request_digest = op_request_digest op, rc_at = now,
       rc_event_id = i, rc_snapshot = body_of r\<rparr>]"
  "body_of (fst (seal_operation r op now i)) = body_of r"
  "mr_ticket (snd (seal_operation r op now i)) = record_of (body_of r)"
  "mr_replayed (snd (seal_operation r op now i)) = False"
  "mr_event_id (snd (seal_operation r op now i)) = i"
  by (simp_all add: seal_operation_def Let_def)

lemma find_receipt_seal:
  assumes "find_receipt r (op_id op) = None"
  shows "\<exists>x. find_receipt (fst (seal_operation r op now i)) (op_id op) = Some x \<and>
     rc_request_digest x = op_request_digest op \<and>
     receipt_result x False = snd (seal_operation r op now i)"
  using assms
  by (simp add: find_receipt_def seal_operation_def Let_def receipt_result_def find_append)

lemma find_receipt_None:
  "find_receipt r i = None \<longleftrightarrow> i \<notin> set (map rc_operation_id (tk_receipts r))"
  by (auto simp: find_receipt_def find_None_conv)

end
