(* ===== verification/WorkflowLibrary.thy ===== *)
theory WorkflowLibrary
  imports TicketModels
begin

text \<open>
  The blueprint library, \<^verbatim>\<open>flowgency/workflows/library.py\<close>: every read validates the current bytes
  of \<^verbatim>\<open><root>/<id>/workflow.yaml\<close>, and a publication proves they have not changed.

  The state is what lies below the library root. The YAML library and SHA-256 are arguments; the
  bytes of a source are a list of characters.
\<close>

section \<open>State\<close>

text \<open>A blueprint directory: without a source, not accessible, with a source that cannot be read, or
  with its bytes.\<close>

datatype source_file = NoSource | HiddenSource | DeniedSource | SourceBytes string

record library =
  lb_readable :: bool
  lb_links :: "string list list"
  lb_readonly :: "string list"
  lb_sources :: "(string, source_file) dict"

text \<open>What loading a source gives: a YAML error, something that is not a mapping, or a mapping and
  the definition its keys and types make, when they do (its validators are run by the model).\<close>

datatype source_load = SourceError | SourceOther | SourceMapping "workflow_definition option"

record library_tools =
  lt_load :: "string \<Rightarrow> source_load"
  lt_dump :: "workflow_definition \<Rightarrow> string"
  lt_sha :: "string \<Rightarrow> string"

record workflow_snapshot =
  ws_definition :: workflow_definition
  ws_digest :: string

abbreviation contractE :: "string \<Rightarrow> ticket_error" where
  "contractE code \<equiv> Contract (ContractError code None)"

definition SOURCE_NAME :: string where "SOURCE_NAME = ''workflow.yaml''"

definition source_at :: "library \<Rightarrow> string \<Rightarrow> source_file" where
  "source_at lb i = (case map_of (lb_sources lb) i of None \<Rightarrow> NoSource | Some f \<Rightarrow> f)"

section \<open>Reads\<close>

definition blueprint_dir :: "string \<Rightarrow> ticket_error + unit" where
  "blueprint_dir i = ensure (is_slug i) (contractE ''unsafe-blueprint'')"

definition guard_no_reparse :: "library \<Rightarrow> string \<Rightarrow> ticket_error + unit" where
  "guard_no_reparse lb i =
     bindE (ensure ([i] \<notin> set (lb_links lb) \<and> [i, SOURCE_NAME] \<notin> set (lb_links lb))
       (contractE ''unsafe-blueprint'')) (\<lambda>_. blueprint_dir i)"

definition checkSourceSize :: "string \<Rightarrow> ticket_error + unit" where
  "checkSourceSize source = mapErr Contract (check_source_size (length source))"

definition read_source :: "library \<Rightarrow> string \<Rightarrow> ticket_error + string" where
  "read_source lb i =
     bindE (guard_no_reparse lb i) (\<lambda>_.
     case source_at lb i of
       NoSource \<Rightarrow> Inl (contractE ''missing-blueprint'')
     | HiddenSource \<Rightarrow> Inl (PyError ''OSError'')
     | DeniedSource \<Rightarrow> Inl (PyError ''OSError'')
     | SourceBytes source \<Rightarrow> bindE (checkSourceSize source) (\<lambda>_. Inr source))"

definition validate_source ::
  "library_tools \<Rightarrow> string \<Rightarrow> ticket_error + workflow_snapshot" where
  "validate_source lt source = (case lt_load lt source of
      SourceError \<Rightarrow> Inl (PyError ''YAMLError'')
    | SourceOther \<Rightarrow> Inl (contractE ''corrupt-blueprint'')
    | SourceMapping None \<Rightarrow> Inl (PyError ''ValidationError'')
    | SourceMapping (Some d) \<Rightarrow>
        bindE (mapErr Contract (model_validate d)) (\<lambda>d.
        Inr \<lparr>ws_definition = d, ws_digest = lt_sha lt source\<rparr>))"

definition inspect_blueprint ::
  "library_tools \<Rightarrow> library \<Rightarrow> string \<Rightarrow> ticket_error + workflow_snapshot" where
  "inspect_blueprint lt lb i = bindE (read_source lb i) (validate_source lt)"

text \<open>
  The listing isolates the errors of each blueprint: \<open>None\<close> stands for an inspection with an issue
  instead of a snapshot.
\<close>

definition list_blueprints ::
  "library_tools \<Rightarrow> library \<Rightarrow> ticket_error + (string \<times> workflow_snapshot option) list" where
  "list_blueprints lt lb =
     (if \<not> lb_readable lb then Inl (contractE ''unreadable-library'')
      else Inr (List.map_filter (\<lambda>i.
        if \<not> is_slug i then None
        else case source_at lb i of
          HiddenSource \<Rightarrow> Some (i, None)
        | NoSource \<Rightarrow> None
        | _ \<Rightarrow> (case inspect_blueprint lt lb i of Inl _ \<Rightarrow> Some (i, None) | Inr s \<Rightarrow> Some (i, Some s)))
        (sort (keys (lb_sources lb)))))"

section \<open>Writes\<close>

definition store_source :: "string \<Rightarrow> string \<Rightarrow> (library, ticket_error, unit) op" where
  "store_source i payload =
     bindS (readS (\<lambda>lb. ensure (i \<notin> set (lb_readonly lb)) (PyError ''OSError''))) (\<lambda>_.
     putS (\<lambda>lb. lb\<lparr>lb_sources := AList.update i (SourceBytes payload) (lb_sources lb)\<rparr>))"

definition write_candidate ::
  "library_tools \<Rightarrow> string \<Rightarrow> string \<Rightarrow> workflow_definition \<Rightarrow>
   (library, ticket_error, workflow_snapshot) op" where
  "write_candidate lt i expected_digest definition =
     bindS (liftS (mapErr Contract (model_validate definition))) (\<lambda>candidate.
     bindS (liftS (blueprint_dir i)) (\<lambda>_.
     bindS (liftS (ensure (wd_id candidate = i) (contractE ''identity-mismatch''))) (\<lambda>_.
     let payload = lt_dump lt candidate in
     bindS (liftS (checkSourceSize payload)) (\<lambda>_.
     bindS (readS (\<lambda>lb. read_source lb i)) (\<lambda>source.
     if lt_sha lt source \<noteq> expected_digest then raiseS ConfigConflict
     else bindS (store_source i payload) (\<lambda>_.
       returnS \<lparr>ws_definition = candidate, ws_digest = lt_sha lt payload\<rparr>))))))"

definition create_candidate ::
  "library_tools \<Rightarrow> string \<Rightarrow> workflow_definition \<Rightarrow> (library, ticket_error, workflow_snapshot) op"
where
  "create_candidate lt i definition =
     bindS (liftS (mapErr Contract (model_validate definition))) (\<lambda>candidate.
     bindS (liftS (ensure (wd_id candidate = i) (contractE ''identity-mismatch''))) (\<lambda>_.
     bindS (liftS (blueprint_dir i)) (\<lambda>_.
     bindS (readS (\<lambda>lb. case source_at lb i of NoSource \<Rightarrow> Inr ()
                         | HiddenSource \<Rightarrow> Inl (PyError ''OSError'') | _ \<Rightarrow> Inl ConfigConflict)) (\<lambda>_.
     bindS (readS (\<lambda>lb. guard_no_reparse lb i)) (\<lambda>_.
     let payload = lt_dump lt candidate in
     bindS (liftS (checkSourceSize payload)) (\<lambda>_.
     bindS (store_source i payload) (\<lambda>_.
     returnS \<lparr>ws_definition = candidate, ws_digest = lt_sha lt payload\<rparr>)))))))"

section \<open>Publication\<close>

lemma validate_source_Inr: "validate_source lt source = Inr s \<longleftrightarrow>
    (\<exists>d. lt_load lt source = SourceMapping (Some d) \<and> wf_definition d \<and>
       s = \<lparr>ws_definition = d, ws_digest = lt_sha lt source\<rparr>)"
proof (cases "lt_load lt source")
  case (SourceMapping x)
  then show ?thesis
    by (cases x) (auto simp: validate_source_def bindE_eq_Inr mapErr_eq_Inr model_validate_wf)
qed (simp_all add: validate_source_def)

lemma inspect_valid:
  "inspect_blueprint lt lb i = Inr s \<Longrightarrow> wf_definition (ws_definition s)"
  by (auto simp: inspect_blueprint_def errE validate_source_Inr)

lemma store_source_Inr:
  "store_source i payload lb = (lb', Inr u) \<longleftrightarrow> i \<notin> set (lb_readonly lb) \<and>
     lb' = lb\<lparr>lb_sources := AList.update i (SourceBytes payload) (lb_sources lb)\<rparr>"
  by (auto simp: store_source_def ensure_def)

lemma bind_store_source: "i \<notin> set (lb_readonly lb) \<Longrightarrow> bindS (store_source i payload) f lb =
    f () (lb\<lparr>lb_sources := AList.update i (SourceBytes payload) (lb_sources lb)\<rparr>)"
  by (simp add: store_source_def bindS_def [of "bindS g h" for g h])

lemma store_source_Inl: "store_source i payload lb = (lb', Inl e) \<Longrightarrow> lb' = lb"
  by (auto simp: store_source_def ensure_def split: if_splits)

lemma read_source_guard: "read_source lb i = Inr s \<Longrightarrow>
    guard_no_reparse lb i = Inr () \<and> source_at lb i = SourceBytes s"
  by (auto simp: read_source_def errE split: source_file.splits)

lemma source_at_update [simp]:
  "source_at (lb\<lparr>lb_sources := AList.update i f s\<rparr>) j =
     (if j = i then f else source_at (lb\<lparr>lb_sources := s\<rparr>) j)"
  by (simp add: source_at_def update_conv')

lemma guard_no_reparse_sources [simp]:
  "guard_no_reparse (lb\<lparr>lb_sources := s\<rparr>) i = guard_no_reparse lb i"
  by (simp add: guard_no_reparse_def)

lemma inspect_other:
  "j \<noteq> i \<Longrightarrow> inspect_blueprint lt (lb\<lparr>lb_sources := AList.update i f (lb_sources lb)\<rparr>) j =
     inspect_blueprint lt lb j"
  by (simp add: inspect_blueprint_def read_source_def)

text \<open>The YAML library loads what it dumped.\<close>

definition dump_faithful :: "library_tools \<Rightarrow> workflow_definition \<Rightarrow> bool" where
  "dump_faithful lt d \<longleftrightarrow> lt_load lt (lt_dump lt d) = SourceMapping (Some d)"

lemma inspect_written:
  assumes "dump_faithful lt d" "wf_definition d" "checkSourceSize (lt_dump lt d) = Inr ()"
    and "guard_no_reparse lb i = Inr ()"
  shows "inspect_blueprint lt (lb\<lparr>lb_sources := AList.update i (SourceBytes (lt_dump lt d)) (lb_sources lb)\<rparr>) i
     = Inr \<lparr>ws_definition = d, ws_digest = lt_sha lt (lt_dump lt d)\<rparr>"
proof -
  have "model_validate d = Inr d" using assms(2) by (simp add: model_validate_wf)
  with assms show ?thesis
    by (simp add: inspect_blueprint_def read_source_def validate_source_def dump_faithful_def)
qed

lemma write_candidate_Inr:
  assumes "write_candidate lt i dig d lb = (lb', Inr s)"
  obtains source where "wf_definition d" "wd_id d = i" "checkSourceSize (lt_dump lt d) = Inr ()"
    "read_source lb i = Inr source" "lt_sha lt source = dig"
    "s = \<lparr>ws_definition = d, ws_digest = lt_sha lt (lt_dump lt d)\<rparr>"
    "lb' = lb\<lparr>lb_sources := AList.update i (SourceBytes (lt_dump lt d)) (lb_sources lb)\<rparr>"
  using assms unfolding write_candidate_def
  by (auto simp: bindS_Inr Let_def errE model_validate_wf store_source_Inr simp del: bindS_readS
      split: if_splits)

lemma write_candidate_Inl:
  assumes "write_candidate lt i dig d lb = (lb', Inl e)"
  shows "lb' = lb"
  using assms unfolding write_candidate_def Let_def
  by (elim bindS_readE) (auto simp: bindS_Inl dest: store_source_Inl split: if_splits)

text \<open>C9: Publishing a blueprint is a compare-and-swap of valid definitions: it succeeds only when the
  current source has the expected digest and the candidate is valid and keeps the blueprint's id;
  then the blueprint reads back as exactly the candidate, under the digest returned, and every
  other blueprint reads as before; when it fails, the library is unchanged.\<close>

theorem publication_guarded:
  assumes "write_candidate lt i dig d lb = (lb', out)" and "dump_faithful lt d"
  shows "(\<forall>e. out = Inl e \<longrightarrow> lb' = lb) \<and>
    (\<forall>s. out = Inr s \<longrightarrow>
       (\<exists>source. read_source lb i = Inr source \<and> lt_sha lt source = dig) \<and>
       wf_definition d \<and> wd_id d = i \<and>
       s = \<lparr>ws_definition = d, ws_digest = lt_sha lt (lt_dump lt d)\<rparr> \<and>
       inspect_blueprint lt lb' i = Inr s \<and>
       (\<forall>j. j \<noteq> i \<longrightarrow> inspect_blueprint lt lb' j = inspect_blueprint lt lb j))"
proof (cases out)
  case (Inl e)
  with assms(1) write_candidate_Inl show ?thesis by auto
next
  case (Inr s)
  with assms(1) have "write_candidate lt i dig d lb = (lb', Inr s)" by simp
  then show ?thesis
    by (rule write_candidate_Inr)
      (use assms(2) in \<open>auto simp: Inr inspect_other inspect_written dest: read_source_guard\<close>)
qed

lemma keys_map_filter:
  assumes "\<And>i p. f i = Some p \<Longrightarrow> fst p = i"
  shows "keys (List.map_filter f ks) = filter (\<lambda>i. f i \<noteq> None) ks"
    and "(i, r) \<in> set (List.map_filter f ks) \<longleftrightarrow> i \<in> set ks \<and> f i = Some (i, r)"
proof -
  show "keys (List.map_filter f ks) = filter (\<lambda>i. f i \<noteq> None) ks"
    by (induction ks) (auto simp: List.map_filter_simps dest: assms split: option.splits)
  have "set (List.map_filter f ks) = {p. \<exists>j\<in>set ks. f j = Some p}"
    by (induction ks) (auto simp: List.map_filter_simps split: option.splits)
  then show "(i, r) \<in> set (List.map_filter f ks) \<longleftrightarrow> i \<in> set ks \<and> f i = Some (i, r)"
    using assms by fastforce
qed

text \<open>The entry of one directory.\<close>

definition listed :: "library_tools \<Rightarrow> library \<Rightarrow> string \<Rightarrow> (string \<times> workflow_snapshot option) option" where
  "listed lt lb i = (if is_slug i \<and> source_at lb i \<noteq> NoSource
     then Some (i, if source_at lb i = HiddenSource then None
            else case inspect_blueprint lt lb i of Inl _ \<Rightarrow> None | Inr s \<Rightarrow> Some s)
     else None)"

lemma list_blueprints_listed: "list_blueprints lt lb =
    (if lb_readable lb then Inr (List.map_filter (listed lt lb) (sort (keys (lb_sources lb))))
     else Inl (contractE ''unreadable-library''))"
proof -
  have "(if \<not> is_slug i then None
        else case source_at lb i of
          HiddenSource \<Rightarrow> Some (i, None)
        | NoSource \<Rightarrow> None
        | _ \<Rightarrow> (case inspect_blueprint lt lb i of Inl _ \<Rightarrow> Some (i, None) | Inr s \<Rightarrow> Some (i, Some s)))
      = listed lt lb i" for i
    by (auto simp: listed_def split: source_file.split sum.split)
  then show ?thesis by (simp add: list_blueprints_def)
qed

text \<open>The listing shows every slug directory with a source exactly once, in order, and the entry
  of a blueprint is what inspecting it gives: an invalid neighbour changes nothing.\<close>

theorem listing_isolated:
  assumes "wf_dict (lb_sources lb)" and "list_blueprints lt lb = Inr entries"
  shows "sorted (map fst entries) \<and> distinct (map fst entries) \<and>
    (\<forall>i r. (i, r) \<in> set entries \<longleftrightarrow> is_slug i \<and> source_at lb i \<noteq> NoSource \<and>
       r = (if source_at lb i = HiddenSource then None
            else case inspect_blueprint lt lb i of Inl _ \<Rightarrow> None | Inr s \<Rightarrow> Some s))"
proof -
  let ?ks = "sort (keys (lb_sources lb))"
  have e: "entries = List.map_filter (listed lt lb) ?ks"
    using assms(2) by (auto simp: list_blueprints_listed split: if_splits)
  have fst: "fst p = i" if "listed lt lb i = Some p" for i p
    using that by (auto simp: listed_def split: if_splits)
  have k: "keys entries = filter (\<lambda>i. listed lt lb i \<noteq> None) ?ks"
    unfolding e by (rule keys_map_filter(1)) (rule fst)
  have known: "source_at lb i \<noteq> NoSource \<Longrightarrow> i \<in> set ?ks" for i
    by (auto simp: source_at_def split: option.splits dest: map_of_SomeD intro: rev_image_eqI)
  have "(i, r) \<in> set entries \<longleftrightarrow> is_slug i \<and> source_at lb i \<noteq> NoSource \<and>
       r = (if source_at lb i = HiddenSource then None
            else case inspect_blueprint lt lb i of Inl _ \<Rightarrow> None | Inr s \<Rightarrow> Some s)" for i r
    using known [of i] keys_map_filter(2) [of "listed lt lb" i r ?ks, OF fst]
    unfolding e by (auto simp: listed_def)
  moreover have "sorted (map fst entries)" "distinct (map fst entries)"
    using assms(1) sorted_filter [of id ?ks] unfolding k by simp_all
  ultimately show ?thesis by blast
qed

section \<open>A concrete library\<close>

definition demo_tools :: library_tools where
  "demo_tools = \<lparr>lt_load = \<lambda>s. if s \<in> {''old'', ''new''} then SourceMapping (Some demo_workflow) else SourceError,
     lt_dump = \<lambda>_. ''new'', lt_sha = \<lambda>s. s\<rparr>"

definition demo_library :: library where
  "demo_library = \<lparr>lb_readable = True, lb_links = [], lb_readonly = [],
     lb_sources = [(wd_id demo_workflow, SourceBytes ''old''), (''broken'', SourceBytes ''?'')]\<rparr>"

definition demo_published :: library where
  "demo_published = \<lparr>lb_readable = True, lb_links = [], lb_readonly = [],
     lb_sources = [(wd_id demo_workflow, SourceBytes ''new''), (''broken'', SourceBytes ''?'')]\<rparr>"

lemma checkSourceSize_short: "length s \<le> 1000 \<Longrightarrow> checkSourceSize s = Inr ()"
  by (simp add: checkSourceSize_def check_source_size_def MAX_BLUEPRINT_SOURCE_BYTES_def)

lemma demo_publish: "write_candidate demo_tools (wd_id demo_workflow) ''old'' demo_workflow demo_library
    = (demo_published, Inr \<lparr>ws_definition = demo_workflow, ws_digest = ''new''\<rparr>)"
proof -
  have "blueprint_dir (wd_id demo_workflow) = Inr ()" by code_simp
  then show ?thesis
    by (simp add: write_candidate_def demo_valid read_source_def guard_no_reparse_def demo_library_def
        source_at_def demo_tools_def checkSourceSize_short bind_store_source demo_published_def Let_def)
qed

theorem publication_guarded_witness:
  "inspect_blueprint demo_tools demo_published (wd_id demo_workflow) =
     Inr \<lparr>ws_definition = demo_workflow, ws_digest = ''new''\<rparr>"
proof -
  have "dump_faithful demo_tools demo_workflow"
    by (simp add: dump_faithful_def demo_tools_def)
  from publication_guarded [OF demo_publish this] show ?thesis by blast
qed

theorem listing_isolated_witness:
  "\<exists>entries. list_blueprints demo_tools demo_published = Inr entries \<and>
     (''broken'', None) \<in> set entries \<and>
     (wd_id demo_workflow, Some \<lparr>ws_definition = demo_workflow, ws_digest = ''new''\<rparr>) \<in> set entries"
proof -
  obtain entries where e: "list_blueprints demo_tools demo_published = Inr entries"
    by (simp add: list_blueprints_def demo_published_def)
  have wf: "wf_dict (lb_sources demo_published)" by code_simp
  have "is_slug ''broken''" "is_slug (wd_id demo_workflow)" by code_simp+
  moreover have "inspect_blueprint demo_tools demo_published ''broken'' = Inl (PyError ''YAMLError'')"
    using \<open>is_slug ''broken''\<close>
    by (simp add: inspect_blueprint_def read_source_def guard_no_reparse_def demo_published_def
        source_at_def checkSourceSize_short validate_source_def demo_tools_def blueprint_dir_def
        demo_workflow_def)
  moreover have "inspect_blueprint demo_tools demo_published (wd_id demo_workflow) =
     Inr \<lparr>ws_definition = demo_workflow, ws_digest = ''new''\<rparr>"
    using \<open>is_slug (wd_id demo_workflow)\<close>
    by (simp add: inspect_blueprint_def read_source_def guard_no_reparse_def demo_published_def
        source_at_def checkSourceSize_short validate_source_def demo_tools_def blueprint_dir_def demo_valid)
  moreover have "source_at demo_published ''broken'' = SourceBytes ''?''"
    "source_at demo_published (wd_id demo_workflow) = SourceBytes ''new''"
    by code_simp+
  ultimately show ?thesis
    using listing_isolated [OF wf e] e by simp
qed

end
