(* ===== verification/Artifacts.thy ===== *)
theory Artifacts
  imports TicketModels
begin

text \<open>
  Retained artifacts, \<^verbatim>\<open>flowgency/tickets/artifacts.py\<close>: the sanitized file name, the media type,
  the size limits, and the content digest that names the artifact. The digest (SHA-256 of the
  canonical JSON envelope) is the argument \<open>sha\<close>; the envelope is its three fields, and
  \<open>None\<close> stands for bytes that are not an envelope (JSON, keys, types or base64).
\<close>

record retained_artifact =
  at_filename :: string
  at_media_type :: string
  at_content :: string
  at_digest :: string

record artifact_envelope =
  en_filename :: string
  en_media_type :: string
  en_content :: string

definition MAX_RETAINED_ARTIFACT_BYTES :: nat where
  "MAX_RETAINED_ARTIFACT_BYTES = 1024 * 1024"

definition MAX_RETAINED_ARTIFACT_ENVELOPE_BYTES :: nat where
  "MAX_RETAINED_ARTIFACT_ENVELOPE_BYTES = ((MAX_RETAINED_ARTIFACT_BYTES + 2) div 3) * 4 + 1024"

definition is_control :: "char \<Rightarrow> bool" where
  "is_control c \<longleftrightarrow> (of_char c :: nat) < 32 \<or> (of_char c :: nat) = 127"

definition path_separator :: "char \<Rightarrow> bool" where
  "path_separator c \<longleftrightarrow> c = CHR ''/'' \<or> c = CHR 0x5C"

text \<open>The part of a path after its last separator.\<close>

definition basename :: "string \<Rightarrow> string" where
  "basename s = rev (takeWhile (\<lambda>c. \<not> path_separator c) (rev s))"

definition sanitize_artifact_filename :: "string \<Rightarrow> ticket_error + string" where
  "sanitize_artifact_filename filename =
     (let collapsed = strip (basename filename);
          cleaned = filter (\<lambda>c. \<not> is_control c) collapsed in
      if cleaned \<in> {[], ''.'', ''..''} then Inl (PyError ''ValueError'')
      else Inr (take 255 cleaned))"

definition media_char :: "char \<Rightarrow> bool" where
  "media_char c \<longleftrightarrow> char_in CHR ''A'' CHR ''Z'' c \<or> char_in CHR ''a'' CHR ''z'' c \<or>
     char_in CHR ''0'' CHR ''9'' c \<or> c \<in> set ''!#$&^_.+-''"

text \<open>\<open>^[A-Za-z0-9!#$&^_.+-]+/[A-Za-z0-9!#$&^_.+-]+$\<close>\<close>

definition is_media_type :: "string \<Rightarrow> bool" where
  "is_media_type s = dollar_match (\<lambda>t. case split_at ''/'' t of
      None \<Rightarrow> False
    | Some (a, b) \<Rightarrow> a \<noteq> [] \<and> b \<noteq> [] \<and> list_all media_char a \<and> list_all media_char b) s"

definition validate_artifact ::
  "(string \<Rightarrow> string \<Rightarrow> string \<Rightarrow> string) \<Rightarrow> retained_artifact \<Rightarrow> ticket_error + retained_artifact"
where
  "validate_artifact sha a =
     bindE (sanitize_artifact_filename (at_filename a)) (\<lambda>safe.
     if at_filename a \<noteq> safe then Inl (PyError ''ValueError'')
     else if \<not> is_media_type (at_media_type a) then Inl (PyError ''ValueError'')
     else if length (at_content a) > MAX_RETAINED_ARTIFACT_BYTES then Inl (PyError ''ValueError'')
     else if at_digest a \<noteq> sha (at_filename a) (at_media_type a) (at_content a)
     then Inl (PyError ''ValueError'')
     else Inr a)"

definition create_artifact ::
  "(string \<Rightarrow> string \<Rightarrow> string \<Rightarrow> string) \<Rightarrow> string \<Rightarrow> string \<Rightarrow> string \<Rightarrow>
   ticket_error + retained_artifact" where
  "create_artifact sha filename media_type content =
     bindE (sanitize_artifact_filename filename) (\<lambda>safe.
     validate_artifact sha \<lparr>at_filename = safe, at_media_type = media_type, at_content = content,
       at_digest = sha safe media_type content\<rparr>)"

definition artifact_ref_of :: "retained_artifact \<Rightarrow> artifact_ref" where
  "artifact_ref_of a = \<lparr>ar_kind = ArtifactId, ar_value = at_digest a\<rparr>"

definition to_storage :: "retained_artifact \<Rightarrow> artifact_envelope" where
  "to_storage a = \<lparr>en_filename = at_filename a, en_media_type = at_media_type a,
     en_content = at_content a\<rparr>"

text \<open>
  What reading stored bytes can raise, told apart as \<open>read_artifact\<close> does by the message: the size
  limit, or anything else.
\<close>

datatype storage_failure = TooLargeBytes | CorruptBytes

definition from_storage ::
  "(string \<Rightarrow> string \<Rightarrow> string \<Rightarrow> string) \<Rightarrow> nat \<Rightarrow> artifact_envelope option \<Rightarrow>
   storage_failure + retained_artifact" where
  "from_storage sha n env =
     (if n > MAX_RETAINED_ARTIFACT_ENVELOPE_BYTES then Inl TooLargeBytes
      else case env of None \<Rightarrow> Inl CorruptBytes
      | Some e \<Rightarrow> (case sanitize_artifact_filename (en_filename e) of
          Inl _ \<Rightarrow> Inl CorruptBytes
        | Inr safe \<Rightarrow>
            if en_filename e \<noteq> safe then Inl CorruptBytes
            else if \<not> is_media_type (en_media_type e) then Inl CorruptBytes
            else if length (en_content e) > MAX_RETAINED_ARTIFACT_BYTES then Inl TooLargeBytes
            else Inr \<lparr>at_filename = en_filename e, at_media_type = en_media_type e,
                      at_content = en_content e,
                      at_digest = sha (en_filename e) (en_media_type e) (en_content e)\<rparr>))"

text \<open>\<open>iter_internal_artifact_refs\<close>: the references by id among the values of the given maps.\<close>

definition iter_internal_artifact_refs ::
  "(string, field_value) dict list \<Rightarrow> artifact_ref list" where
  "iter_internal_artifact_refs maps =
     List.map_filter (\<lambda>(k, v). case v of
         VArtifact r \<Rightarrow> (if ar_kind r = ArtifactId then Some r else None) | _ \<Rightarrow> None)
       (concat maps)"

lemma validate_artifact_Inr:
  "validate_artifact sha a = Inr b \<longleftrightarrow> b = a \<and>
     sanitize_artifact_filename (at_filename a) = Inr (at_filename a) \<and>
     is_media_type (at_media_type a) \<and> length (at_content a) \<le> MAX_RETAINED_ARTIFACT_BYTES \<and>
     at_digest a = sha (at_filename a) (at_media_type a) (at_content a)"
  by (auto simp: validate_artifact_def bindE_eq_Inr)

text \<open>A valid artifact survives its stored form.\<close>

lemma storage_roundtrip:
  assumes "validate_artifact sha a = Inr a" and "n \<le> MAX_RETAINED_ARTIFACT_ENVELOPE_BYTES"
  shows "from_storage sha n (Some (to_storage a)) = Inr a"
  using assms by (auto simp: from_storage_def validate_artifact_Inr to_storage_def)

lemma from_storage_valid:
  assumes "from_storage sha n env = Inr a"
  shows "validate_artifact sha a = Inr a"
  using assms
  by (auto simp: from_storage_def validate_artifact_Inr split: if_splits option.splits sum.splits)

text \<open>A sanitized name is one path component: no separator and no control character.\<close>

lemma sanitized_component:
  assumes "sanitize_artifact_filename f = Inr g"
  shows "g \<noteq> [] \<and> g \<noteq> ''.'' \<and> g \<noteq> ''..'' \<and> length g \<le> 255 \<and>
     (\<forall>c\<in>set g. \<not> path_separator c \<and> \<not> is_control c)"
proof -
  let ?cleaned = "filter (\<lambda>c. \<not> is_control c) (strip (basename f))"
  from assms have g: "g = take 255 ?cleaned" and ne: "?cleaned \<notin> {[], ''.'', ''..''}"
    by (auto simp: sanitize_artifact_filename_def Let_def split: if_splits)
  have base: "\<not> path_separator c" if "c \<in> set (basename f)" for c
    using that by (auto simp: basename_def dest: set_takeWhileD)
  have "set (strip (basename f)) \<subseteq> set (basename f)"
    by (auto simp: strip_def lstrip_def dest!: set_dropWhileD)
  then have chars: "\<forall>c\<in>set g. \<not> path_separator c \<and> \<not> is_control c"
    unfolding g using base by (auto dest!: in_set_takeD)
  have short: "?cleaned = g" if "length g < 255"
    using that unfolding g by (simp add: min_def split: if_splits)
  have "g \<notin> {[], ''.'', ''..''}"
  proof
    assume dots: "g \<in> {[], ''.'', ''..''}"
    then have "length g < 255" by auto
    with dots ne short show False by metis
  qed
  moreover have "length g \<le> 255" unfolding g by simp
  ultimately show ?thesis using chars by simp
qed

text \<open>
  Sanitizing is not idempotent: it strips spaces before it removes control characters, so a name
  that starts with a control character and a space keeps the space, and \<open>create\<close>, which sanitizes
  once and validates by sanitizing again, refuses it.
\<close>

lemma sanitize_not_idempotent:
  "sanitize_artifact_filename [CHR 0x01, CHR '' '', CHR ''a''] = Inr '' a'' \<and>
   sanitize_artifact_filename '' a'' = Inr ''a'' \<and>
   create_artifact sha [CHR 0x01, CHR '' '', CHR ''a''] ''text/plain'' [] = Inl (PyError ''ValueError'')"
proof -
  have a: "sanitize_artifact_filename [CHR 0x01, CHR '' '', CHR ''a''] = Inr '' a''" by code_simp
  have b: "sanitize_artifact_filename '' a'' = Inr ''a''" by code_simp
  show ?thesis using a b by (simp add: create_artifact_def validate_artifact_def)
qed

end
