(* ===== verification/LocalStorage.thy ===== *)
theory LocalStorage
  imports Artifacts
begin

text \<open>
  The file storage of tickets, \<^verbatim>\<open>flowgency/tickets/storages/local.py\<close>, with the front matter parser of
  \<^verbatim>\<open>flowgency/records/frontmatter.py\<close> it reads documents with.

  The state is what lies below the storage root: the ticket documents, the numbering file of each
  board, the retained artifacts, which paths are links and which cannot be written. The provider's
  configuration holds what is not in the repository or depends on the host: the binding digest,
  the YAML library, the digest of artifacts, the ids \<open>uuid4\<close> draws. Each operation runs under the
  file lock of its ticket or board, so operations are atomic steps on the state.
\<close>

section \<open>State\<close>

datatype root_state = RootMissing | RootUnreadable | RootDir

text \<open>A document: none, not readable (permission, or another I/O error), bytes that are not UTF-8, or
  a text.\<close>

datatype doc_file = NoFile | DeniedFile | BrokenFile | BinaryFile nat | TextFile string

text \<open>A stored artifact: \<open>ArtifactBytes n e\<close> is \<open>n\<close> bytes that decode to the envelope \<open>e\<close>.\<close>

datatype artifact_file =
    NoArtifact | DeniedArtifact | BrokenArtifact | ArtifactBytes nat "artifact_envelope option"

record storage =
  fs_root :: root_state
  fs_links :: "string list list"
  fs_readonly :: "string list list"
  fs_docs :: "(string \<times> string \<times> string, doc_file) dict"
  fs_sequence :: "(string \<times> string, int option) dict"
  fs_artifacts :: "(string \<times> string \<times> string, artifact_file) dict"

text \<open>
  What \<open>yaml.safe_load\<close> makes of a text: an error, an empty document, something that is not a
  mapping, or a mapping, with whether its schema version is 1 and the record its other keys
  validate to.
\<close>

datatype yaml_load =
    YamlError | YamlFalsy | YamlOther | YamlMapping bool "ticket_record option"

record provider =
  pr_binding_id :: "string \<Rightarrow> string \<Rightarrow> string"
  pr_dump :: "ticket_record \<Rightarrow> string"
  pr_load :: "string \<Rightarrow> yaml_load"
  pr_sha :: "string \<Rightarrow> string \<Rightarrow> string \<Rightarrow> string"
  pr_envelope_len :: "artifact_envelope \<Rightarrow> nat"
  pr_uuid :: "nat \<Rightarrow> string"

definition MAX_TICKET_BYTES :: nat where "MAX_TICKET_BYTES = 512 * 1024"

section \<open>Path safety\<close>

abbreviation "unsafePath \<equiv> Raise TicketForbidden ''unsafe-path''"

definition walk_no_reparse :: "storage \<Rightarrow> string list \<Rightarrow> ticket_error + unit" where
  "walk_no_reparse st segments =
     ensure (list_all (\<lambda>n. take (Suc n) segments \<notin> set (fs_links st)) [0..<length segments])
       unsafePath"

definition require_safe_ref ::
  "storage \<Rightarrow> string \<Rightarrow> string \<Rightarrow> string \<Rightarrow> ticket_error + unit" where
  "require_safe_ref st team board ticket =
     bindE (iterE (\<lambda>part. ensure (is_slug part) unsafePath) [team, board, ticket]) (\<lambda>_.
     walk_no_reparse st [team, board, ''tickets'', ticket @ ''.md''])"

definition require_safe_metadata ::
  "storage \<Rightarrow> string \<Rightarrow> string \<Rightarrow> string \<Rightarrow> ticket_error + unit" where
  "require_safe_metadata st team board name = walk_no_reparse st [team, board, ''tickets'', name]"

definition require_safe_artifact_id :: "string \<Rightarrow> ticket_error + unit" where
  "require_safe_artifact_id i = ensure (is_digest i) unsafePath"

definition require_safe_artifact_metadata ::
  "storage \<Rightarrow> string \<Rightarrow> string \<Rightarrow> string \<Rightarrow> ticket_error + unit" where
  "require_safe_artifact_metadata st team board name =
     walk_no_reparse st [team, board, ''artifacts'', name]"

definition verify_binding :: "provider \<Rightarrow> ticket_ref \<Rightarrow> ticket_error + unit" where
  "verify_binding p ref =
     ensure (rf_binding_id ref = pr_binding_id p (rf_team_id ref) (rf_workflow_id ref))
       (Raise TicketForbidden ''binding-mismatch'')"

definition ref_for :: "provider \<Rightarrow> string \<Rightarrow> string \<Rightarrow> string \<Rightarrow> ticket_ref" where
  "ref_for p team board ticket =
     \<lparr>rf_binding_id = pr_binding_id p team board, rf_team_id = team, rf_workflow_id = board,
      rf_ticket_id = ticket\<rparr>"

definition require_root :: "storage \<Rightarrow> ticket_error + unit" where
  "require_root st = (case fs_root st of
      RootMissing \<Rightarrow> Inl (Raise StorageUnavailable ''missing-root'')
    | RootUnreadable \<Rightarrow> Inl (Raise StorageUnavailable ''unreadable-root'')
    | RootDir \<Rightarrow> Inr ())"

text \<open>The checks every access to a ticket starts with.\<close>

definition guard_ref :: "provider \<Rightarrow> storage \<Rightarrow> ticket_ref \<Rightarrow> ticket_error + unit" where
  "guard_ref p st ref =
     bindE (require_safe_ref st (rf_team_id ref) (rf_workflow_id ref) (rf_ticket_id ref)) (\<lambda>_.
     bindE (verify_binding p ref) (\<lambda>_. require_root st))"

definition doc_key :: "ticket_ref \<Rightarrow> string \<times> string \<times> string" where
  "doc_key ref = (rf_team_id ref, rf_workflow_id ref, rf_ticket_id ref)"

definition board_key :: "ticket_ref \<Rightarrow> string \<times> string" where
  "board_key ref = (rf_team_id ref, rf_workflow_id ref)"

definition doc_at :: "storage \<Rightarrow> ticket_ref \<Rightarrow> doc_file" where
  "doc_at st ref = (case map_of (fs_docs st) (doc_key ref) of None \<Rightarrow> NoFile | Some f \<Rightarrow> f)"

definition ticket_path :: "ticket_ref \<Rightarrow> string list" where
  "ticket_path ref = [rf_team_id ref, rf_workflow_id ref, ''tickets'', rf_ticket_id ref @ ''.md'']"

section \<open>Documents\<close>

definition marker :: string where "marker = ''---''"

text \<open>\<open>meta, body\<close>; the first component is what the YAML library returns, \<open>YamlFalsy\<close> for \<open>{}\<close>.\<close>

definition parse_frontmatter :: "(string \<Rightarrow> yaml_load) \<Rightarrow> string \<Rightarrow> yaml_load \<times> string" where
  "parse_frontmatter load text =
     (if take 3 text = marker then
        (case split_at marker (drop 3 text) of
           None \<Rightarrow> (YamlFalsy, text)
         | Some (front, rest) \<Rightarrow>
             (case load front of YamlError \<Rightarrow> (YamlFalsy, text) | m \<Rightarrow> (m, strip rest)))
      else (YamlFalsy, text))"

text \<open>Reading a file in text mode turns \<open>\r\n\<close> and \<open>\r\<close> into \<open>\n\<close>.\<close>

fun universal_newlines :: "string \<Rightarrow> string" where
  "universal_newlines [] = []"
| "universal_newlines (c # cs) =
     (if c = CHR 0x0D then
        (case cs of
           [] \<Rightarrow> [newline]
         | d # ds \<Rightarrow> if d = newline then newline # universal_newlines ds
                     else newline # universal_newlines cs)
      else c # universal_newlines cs)"

definition envelope :: "ticket_record \<Rightarrow> ticket_record" where
  "envelope r = r\<lparr>tk_description := []\<rparr>"

definition serialize :: "provider \<Rightarrow> ticket_record \<Rightarrow> string" where
  "serialize p r = marker @ [newline] @ pr_dump p (envelope r) @ [newline] @ marker @
     [newline, newline] @ tk_description r @ [newline]"

definition deserialize :: "provider \<Rightarrow> string \<Rightarrow> ticket_ref \<Rightarrow> ticket_error + ticket_record" where
  "deserialize p text ref =
     (let (meta, body) = parse_frontmatter (pr_load p) text in
      case meta of
        YamlMapping True (Some r) \<Rightarrow> Inr (r\<lparr>tk_description := body, tk_ref := Some ref\<rparr>)
      | YamlOther \<Rightarrow> Inl (PyError ''AttributeError'')
      | _ \<Rightarrow> Inl (Raise TicketCorrupt ''corrupt-record''))"

definition read :: "provider \<Rightarrow> storage \<Rightarrow> ticket_ref \<Rightarrow> ticket_error + ticket_record" where
  "read p st ref =
     bindE (guard_ref p st ref) (\<lambda>_.
     case doc_at st ref of
       NoFile \<Rightarrow> Inl (Raise TicketNotFound ''ticket-not-found'')
     | DeniedFile \<Rightarrow> Inl (Raise StorageUnavailable ''unreadable-ticket'')
     | BrokenFile \<Rightarrow> Inl (Raise StorageUnavailable ''unreadable-ticket'')
     | BinaryFile n \<Rightarrow>
         if n > MAX_TICKET_BYTES then Inl (Raise TicketCorrupt ''oversized-record'')
         else Inl (Raise TicketCorrupt ''corrupt-record'')
     | TextFile s \<Rightarrow>
         if utf8_len s > MAX_TICKET_BYTES then Inl (Raise TicketCorrupt ''oversized-record'')
         else deserialize p (universal_newlines s) ref)"

definition write_record :: "provider \<Rightarrow> ticket_record \<Rightarrow> ticket_ref \<Rightarrow> (storage, ticket_error, unit) op"
where
  "write_record p r ref =
     (let text = serialize p r in
      if utf8_len text > MAX_TICKET_BYTES then raiseS (Raise TicketTooLarge ''ticket-too-large'')
      else bindS (readS (\<lambda>st. ensure (ticket_path ref \<notin> set (fs_readonly st))
                                (Raise StorageUnavailable ''write-failed''))) (\<lambda>_.
           putS (\<lambda>st. st\<lparr>fs_docs := AList.update (doc_key ref) (TextFile text) (fs_docs st)\<rparr>)))"

definition require_same_identity :: "ticket_record \<Rightarrow> ticket_record \<Rightarrow> ticket_error + unit" where
  "require_same_identity current candidate =
     (if tk_id candidate \<noteq> tk_id current
        \<or> tk_number candidate \<noteq> tk_number current
        \<or> tk_created_at candidate \<noteq> tk_created_at current
        \<or> tk_ref candidate \<noteq> tk_ref current
        \<or> tk_revision candidate \<noteq> tk_revision current
        \<or> tk_receipts candidate \<noteq> tk_receipts current
      then Inl (Raise TicketConflict ''identity-changed'') else Inr ())"

section \<open>Reads\<close>

text \<open>The ticket ids of a board, in the order of their file names.\<close>

definition board_tickets :: "storage \<Rightarrow> string \<Rightarrow> string \<Rightarrow> string list" where
  "board_tickets st team board =
     sort_key (\<lambda>i. i @ ''.md'')
       (map (\<lambda>((t, w, i), f). i)
          (filter (\<lambda>((t, w, i), f). t = team \<and> w = board \<and> f \<noteq> NoFile) (fs_docs st)))"

definition list_tickets ::
  "provider \<Rightarrow> storage \<Rightarrow> string \<Rightarrow> string \<Rightarrow> ticket_error + ticket_record list" where
  "list_tickets p st team board =
     bindE (require_safe_ref st team board ''placeholder'') (\<lambda>_.
     bindE (require_root st) (\<lambda>_.
     bindE (mapE (\<lambda>i. read p st (ref_for p team board i)) (board_tickets st team board)) (\<lambda>rs.
     Inr (sort_key tk_number rs))))"

text \<open>A receipt already in the ledger answers the operation, or refuses it.\<close>

definition replay ::
  "ticket_record \<Rightarrow> ticket_operation \<Rightarrow> ticket_error + mutation_result option" where
  "replay r op = (case find_receipt r (op_id op) of
      None \<Rightarrow> Inr None
    | Some x \<Rightarrow> bindE (require_digest x (op_request_digest op)) (\<lambda>_.
        Inr (Some (receipt_result x True))))"

definition receipt ::
  "provider \<Rightarrow> storage \<Rightarrow> ticket_ref \<Rightarrow> ticket_operation \<Rightarrow> ticket_error + mutation_result option"
where
  "receipt p st ref op = bindE (read p st ref) (\<lambda>r. replay r op)"

datatype health_status = HealthOk | HealthMissing | HealthUnreadable

definition check :: "storage \<Rightarrow> health_status" where
  "check st = (case fs_root st of RootMissing \<Rightarrow> HealthMissing
     | RootUnreadable \<Rightarrow> HealthUnreadable | RootDir \<Rightarrow> HealthOk)"

section \<open>Writes\<close>

definition next_number :: "ticket_ref \<Rightarrow> (storage, ticket_error, int) op" where
  "next_number ref =
     bindS (readS (\<lambda>st. require_safe_metadata st (rf_team_id ref) (rf_workflow_id ref)
                          ''.sequence'')) (\<lambda>_.
     bindS (readS (\<lambda>st. case map_of (fs_sequence st) (board_key ref) of
         Some (Some n) \<Rightarrow> Inr n
       | _ \<Rightarrow> if board_tickets st (rf_team_id ref) (rf_workflow_id ref) \<noteq> []
              then Inl (Raise TicketCorrupt ''corrupt-sequence'') else Inr 0)) (\<lambda>last.
     bindS (readS (\<lambda>st. ensure ([rf_team_id ref, rf_workflow_id ref, ''tickets'', ''.sequence'']
                                  \<notin> set (fs_readonly st)) (PyError ''OSError''))) (\<lambda>_.
     bindS (putS (\<lambda>st. st\<lparr>fs_sequence :=
                AList.update (board_key ref) (Some (last + 1)) (fs_sequence st)\<rparr>)) (\<lambda>_.
     returnS (last + 1)))))"

definition create ::
  "provider \<Rightarrow> time \<Rightarrow> ticket_record \<Rightarrow> ticket_operation \<Rightarrow> (storage, ticket_error, mutation_result) op"
where
  "create p now r op = (case tk_ref r of
      None \<Rightarrow> raiseS (Raise TicketConflict ''unbound-record'')
    | Some ref \<Rightarrow>
      bindS (readS (\<lambda>st. guard_ref p st ref)) (\<lambda>_.
      bindS (readS (\<lambda>st. require_safe_metadata st (rf_team_id ref) (rf_workflow_id ref)
                           ''.namespace.lock'')) (\<lambda>_.
      bindS (readS (\<lambda>st. Inr (doc_at st ref))) (\<lambda>doc.
      if doc \<noteq> NoFile then
        bindS (readS (\<lambda>st. bindE (read p st ref) (\<lambda>current. replay current op))) (\<lambda>previous.
        case previous of
          Some result \<Rightarrow> returnS result
        | None \<Rightarrow> raiseS (Raise TicketConflict ''duplicate-ticket''))
      else
        bindS (next_number ref) (\<lambda>n.
        let opened = r\<lparr>tk_number := n, tk_revision := 1, tk_created_at := now,
                       tk_updated_at := now\<rparr> in
        bindS (liftS (commit_creation (pr_uuid p) opened op now)) (\<lambda>(sealed, result).
        bindS (write_record p sealed ref) (\<lambda>_. returnS result)))))))"

text \<open>
  \<open>mutate\<close> may itself act on the storage (a capture stores its artifact under the ticket's lock)
  and may raise.
\<close>

definition apply_op ::
  "provider \<Rightarrow> time \<Rightarrow> ticket_ref \<Rightarrow> int \<Rightarrow> ticket_operation \<Rightarrow>
   (ticket_record \<Rightarrow> (storage, ticket_error, ticket_record) op) \<Rightarrow>
   (storage, ticket_error, mutation_result) op" where
  "apply_op p now ref expected op mutate =
     bindS (readS (\<lambda>st. guard_ref p st ref)) (\<lambda>_.
     bindS (readS (\<lambda>st. ensure (doc_at st ref \<noteq> NoFile)
                          (Raise TicketNotFound ''ticket-not-found''))) (\<lambda>_.
     bindS (readS (\<lambda>st. require_safe_metadata st (rf_team_id ref) (rf_workflow_id ref)
                          (rf_ticket_id ref @ ''.lock''))) (\<lambda>_.
     bindS (readS (\<lambda>st. read p st ref)) (\<lambda>current.
     bindS (liftS (replay current op)) (\<lambda>previous.
     case previous of
       Some result \<Rightarrow> returnS result
     | None \<Rightarrow>
         if tk_revision current \<noteq> expected then raiseS staleTicket
         else
           bindS (mutate current) (\<lambda>candidate.
           bindS (liftS (require_same_identity current candidate)) (\<lambda>_.
           bindS (liftS (commit_operation (pr_uuid p) candidate current op now))
             (\<lambda>(updated, result).
           bindS (write_record p updated ref) (\<lambda>_. returnS result)))))))))"

section \<open>Artifacts\<close>

definition artifact_at :: "storage \<Rightarrow> ticket_ref \<Rightarrow> string \<Rightarrow> artifact_file" where
  "artifact_at st ref i =
     (case map_of (fs_artifacts st) (rf_team_id ref, rf_workflow_id ref, i) of
        None \<Rightarrow> NoArtifact | Some f \<Rightarrow> f)"

definition read_artifact ::
  "provider \<Rightarrow> storage \<Rightarrow> ticket_ref \<Rightarrow> string \<Rightarrow> ticket_error + retained_artifact" where
  "read_artifact p st ref i =
     bindE (guard_ref p st ref) (\<lambda>_.
     bindE (require_safe_artifact_id i) (\<lambda>_.
     bindE (require_safe_artifact_metadata st (rf_team_id ref) (rf_workflow_id ref)
              (i @ ''.json'')) (\<lambda>_.
     case artifact_at st ref i of
       NoArtifact \<Rightarrow> Inl (Raise TicketNotFound ''artifact-not-found'')
     | DeniedArtifact \<Rightarrow> Inl (Raise StorageUnavailable ''unreadable-artifact'')
     | BrokenArtifact \<Rightarrow> Inl (Raise StorageUnavailable ''unreadable-artifact'')
     | ArtifactBytes n env \<Rightarrow>
         (case from_storage (pr_sha p) n env of
            Inl TooLargeBytes \<Rightarrow> Inl (Raise TicketTooLarge ''artifact-too-large'')
          | Inl CorruptBytes \<Rightarrow> Inl (Raise TicketCorrupt ''corrupt-artifact'')
          | Inr a \<Rightarrow> if at_digest a \<noteq> i
                     then Inl (Raise TicketConflict ''artifact-digest-mismatch'')
                     else Inr a))))"

text \<open>
  A validator of the whole artifact reports its failure without a location, so
  \<open>_artifact_size_exceeded\<close>, which asks for the location \<open>("content",)\<close>, answers no: every invalid
  artifact is \<open>invalid-artifact\<close>.
\<close>

definition validated_artifact ::
  "provider \<Rightarrow> retained_artifact \<Rightarrow> ticket_error + retained_artifact" where
  "validated_artifact p a = (case validate_artifact (pr_sha p) a of
      Inl _ \<Rightarrow> Inl (Raise TicketConflict ''invalid-artifact'')
    | Inr b \<Rightarrow>
        if pr_envelope_len p (to_storage b) > MAX_RETAINED_ARTIFACT_ENVELOPE_BYTES
        then Inl (Raise TicketTooLarge ''artifact-too-large'') else Inr b)"

definition put_artifact ::
  "provider \<Rightarrow> ticket_ref \<Rightarrow> retained_artifact \<Rightarrow> (storage, ticket_error, artifact_ref) op" where
  "put_artifact p ref artifact =
     bindS (readS (\<lambda>st. guard_ref p st ref)) (\<lambda>_.
     bindS (liftS (validated_artifact p artifact)) (\<lambda>a.
     bindS (liftS (require_safe_artifact_id (at_digest a))) (\<lambda>_.
     bindS (readS (\<lambda>st. require_safe_artifact_metadata st (rf_team_id ref) (rf_workflow_id ref)
                          (at_digest a @ ''.lock''))) (\<lambda>_.
     bindS (readS (\<lambda>st. require_safe_artifact_metadata st (rf_team_id ref) (rf_workflow_id ref)
                          (at_digest a @ ''.json''))) (\<lambda>_.
     bindS (readS (\<lambda>st. Inr (artifact_at st ref (at_digest a)))) (\<lambda>file.
     if file \<noteq> NoArtifact then
       bindS (readS (\<lambda>st. read_artifact p st ref (at_digest a))) (\<lambda>existing.
       if existing \<noteq> a then raiseS (Raise TicketConflict ''artifact-digest-mismatch'')
       else returnS (artifact_ref_of a))
     else
       bindS (readS (\<lambda>st. ensure ([rf_team_id ref, rf_workflow_id ref, ''artifacts'',
                                      at_digest a @ ''.json''] \<notin> set (fs_readonly st))
                            (Raise StorageUnavailable ''write-failed''))) (\<lambda>_.
       bindS (putS (\<lambda>st. st\<lparr>fs_artifacts :=
           AList.update (rf_team_id ref, rf_workflow_id ref, at_digest a)
             (ArtifactBytes (pr_envelope_len p (to_storage a)) (Some (to_storage a)))
             (fs_artifacts st)\<rparr>)) (\<lambda>_.
       returnS (artifact_ref_of a)))))))))"


section \<open>Documents read back\<close>

text \<open>
  What a faithful YAML library does with the front matter of a record: it loads what it dumped,
  and the dump is free of carriage returns. Whether the dump holds \<open>---\<close> depends on the record.
\<close>

definition codec_ok :: "provider \<Rightarrow> ticket_record \<Rightarrow> bool" where
  "codec_ok p r \<longleftrightarrow>
     pr_load p ([newline] @ pr_dump p (envelope r) @ [newline]) = YamlMapping True (Some (envelope r)) \<and>
     CHR 0x0D \<notin> set (pr_dump p (envelope r))"

definition marker_free :: "provider \<Rightarrow> ticket_record \<Rightarrow> bool" where
  "marker_free p r \<longleftrightarrow> split_at marker (pr_dump p (envelope r)) = None"

definition stored_description :: "string \<Rightarrow> string" where
  "stored_description d = strip (universal_newlines d)"

lemma universal_newlines_append:
  "CHR 0x0D \<notin> set a \<Longrightarrow> universal_newlines (a @ b) = a @ universal_newlines b"
  by (induction a) auto

lemma universal_newlines_last:
  "universal_newlines (d @ [newline]) = universal_newlines d \<or>
   universal_newlines (d @ [newline]) = universal_newlines d @ [newline]"
proof (induction d rule: universal_newlines.induct)
  case 1
  then show ?case by simp
next
  case (2 c cs)
  show ?case
  proof (cases "c = CHR 0x0D")
    case False
    with 2 show ?thesis by auto
  next
    case cr: True
    show ?thesis
    proof (cases cs)
      case Nil
      with cr show ?thesis by simp
    next
      case (Cons d ds)
      show ?thesis
      proof (cases "d = newline")
        case True
        with cr Cons 2(1) show ?thesis by auto
      next
        case False
        have "universal_newlines (c # cs) = newline # universal_newlines cs"
          "universal_newlines ((c # cs) @ [newline]) = newline # universal_newlines (cs @ [newline])"
          using cr Cons False by simp_all
        with 2(2) cr Cons False show ?thesis by (auto simp del: universal_newlines.simps)
      qed
    qed
  qed
qed

lemma py_space_newline [simp]: "py_space newline"
  by (simp add: py_space_def)

lemma strip_snoc_newline: "strip (s @ [newline]) = strip s"
  using strip_append_space [of "[]" "[newline]" s] by simp

lemma stored_description_line: "strip (universal_newlines (d @ [newline])) = stored_description d"
  using universal_newlines_last [of d] strip_snoc_newline
  by (auto simp: stored_description_def)

lemma take_marker: "take 3 s = marker \<longleftrightarrow> (\<exists>t. s = marker @ t)"
  by (metis append_eq_conv_conj append_take_drop_id length_Cons list.size(3) marker_def
      numeral_3_eq_3)

lemma split_at_marker:
  "split_at marker (c # cs) = (if take 3 (c # cs) = marker then Some ([], drop 3 (c # cs))
     else map_option (\<lambda>(a, b). (c # a, b)) (split_at marker cs))"
proof -
  have "length marker = 3" by (simp add: marker_def)
  then show ?thesis by simp
qed

declare split_at.simps(2) [simp del]

text \<open>The first marker is found where a marker-free text that does not end in a dash is followed by one.\<close>

lemma split_at_first:
  assumes "split_at marker a = None" "a \<noteq> [] \<Longrightarrow> last a \<noteq> CHR ''-''"
  shows "split_at marker (a @ marker @ b) = Some (a, b)"
  using assms
proof (induction a)
  case Nil
  then show ?case by (simp add: marker_def split_at.simps)
next
  case (Cons c a)
  have no: "take 3 (c # a) \<noteq> marker" and rest: "split_at marker a = None"
    using Cons.prems(1) by (auto simp: split_at_marker split: if_splits)
  have "take 3 ((c # a) @ marker @ b) \<noteq> marker"
    using no Cons.prems(2)
    by (cases a rule: remdups_adj.cases; auto simp: marker_def numeral_3_eq_3 numeral_2_eq_2)
  moreover have "split_at marker (a @ marker @ b) = Some (a, b)"
    using Cons.IH [OF rest] Cons.prems(2) by (cases "a = []") auto
  ultimately show ?case by (simp add: split_at_marker)
qed

lemma split_at_snoc_newline:
  "split_at marker a = None \<Longrightarrow> split_at marker (a @ [newline]) = None"
proof (induction a)
  case Nil
  then show ?case by (simp add: marker_def split_at.simps)
next
  case (Cons c a)
  then have "split_at marker a = None" "take 3 (c # a) \<noteq> marker"
    by (auto simp: split_at_marker split: if_splits)
  moreover from this(2) have "take 3 ((c # a) @ [newline]) \<noteq> marker"
    by (cases a rule: remdups_adj.cases; auto simp: marker_def numeral_3_eq_3 numeral_2_eq_2)
  ultimately show ?case using Cons.IH by (simp add: split_at_marker)
qed

lemma split_at_Cons_newline:
  "split_at marker a = None \<Longrightarrow> split_at marker (newline # a) = None"
  by (simp add: split_at_marker) (simp add: marker_def numeral_3_eq_3)

lemma serialized_lines:
  assumes "CHR 0x0D \<notin> set (pr_dump p (envelope r))"
  shows "universal_newlines (serialize p r) =
    marker @ ([newline] @ pr_dump p (envelope r) @ [newline]) @ marker @
      [newline, newline] @ universal_newlines (tk_description r @ [newline])"
proof -
  have "universal_newlines ((marker @ [newline] @ pr_dump p (envelope r) @ [newline] @ marker @
      [newline, newline]) @ (tk_description r @ [newline])) =
    (marker @ [newline] @ pr_dump p (envelope r) @ [newline] @ marker @ [newline, newline]) @
      universal_newlines (tk_description r @ [newline])"
    using assms by (intro universal_newlines_append) (auto simp: marker_def)
  then show ?thesis by (simp add: serialize_def)
qed

lemma parse_at_marker:
  assumes "split_at marker front = None" "front \<noteq> [] \<Longrightarrow> last front \<noteq> CHR ''-''"
    and "load front \<noteq> YamlError"
  shows "parse_frontmatter load (marker @ front @ marker @ rest) = (load front, strip rest)"
proof -
  have "take 3 (marker @ front @ marker @ rest) = marker"
    "drop 3 (marker @ front @ marker @ rest) = front @ marker @ rest"
    by (simp_all add: marker_def)
  with assms show ?thesis
    by (simp add: parse_frontmatter_def split_at_first split: yaml_load.split)
qed

lemma parse_serialized:
  assumes free: "marker_free p r" and cr: "CHR 0x0D \<notin> set (pr_dump p (envelope r))"
    and ok: "load ([newline] @ pr_dump p (envelope r) @ [newline]) \<noteq> YamlError"
  shows "parse_frontmatter load (universal_newlines (serialize p r)) =
     (load ([newline] @ pr_dump p (envelope r) @ [newline]), stored_description (tk_description r))"
proof -
  let ?front = "[newline] @ pr_dump p (envelope r) @ [newline]"
  let ?tail = "universal_newlines (tk_description r @ [newline])"
  have "split_at marker ?front = None"
    using free by (simp add: marker_free_def split_at_snoc_newline split_at_Cons_newline)
  then have "parse_frontmatter load (marker @ ?front @ marker @ ([newline, newline] @ ?tail)) =
      (load ?front, strip ([newline, newline] @ ?tail))"
    using ok by (intro parse_at_marker) simp_all
  moreover have "strip ([newline, newline] @ ?tail) = stored_description (tk_description r)"
    using strip_append_space [of "[newline, newline]" "[]" ?tail] by (simp add: stored_description_line)
  ultimately show ?thesis
    by (simp add: serialized_lines [OF cr])
qed

lemma envelope_restored: "(envelope r)\<lparr>tk_description := d, tk_ref := tk_ref r\<rparr> =
    r\<lparr>tk_description := d\<rparr>"
  by (simp add: envelope_def)


text \<open>A front matter whose YAML holds \<open>---\<close> (a title with three dashes, or a receipt's snapshot of
  a description with a horizontal rule) is cut there: only the text before the marker is loaded.
  When that text is no complete record, the ticket was written without an error and reads as
  corrupt.\<close>

theorem marker_truncates:
  assumes "CHR 0x0D \<notin> set (pr_dump p (envelope r))"
    and "pr_dump p (envelope r) = a @ marker @ b" and "split_at marker a = None"
    and "a = [] \<or> last a \<noteq> CHR ''-''"
    and "pr_load p (newline # a) \<in> {YamlFalsy, YamlMapping True None}"
  shows "deserialize p (universal_newlines (serialize p r)) ref =
    Inl (Raise TicketCorrupt ''corrupt-record'')"
proof -
  have cut: "split_at marker (newline # a) = None"
    by (rule split_at_Cons_newline) fact
  have doc: "universal_newlines (serialize p r) = marker @ (newline # a) @ marker @
      b @ [newline] @ marker @ [newline, newline] @ universal_newlines (tk_description r @ [newline])"
    using serialized_lines [OF assms(1)] assms(2) by simp
  have "parse_frontmatter (pr_load p) (universal_newlines (serialize p r)) =
      (pr_load p (newline # a), strip (b @ [newline] @ marker @ [newline, newline] @
         universal_newlines (tk_description r @ [newline])))"
    using cut assms(4,5) unfolding doc by (intro parse_at_marker) auto
  then show ?thesis using assms(5) by (auto simp: deserialize_def)
qed

section \<open>Laws of the storage operations\<close>

text \<open>What a sealed update keeps of the current record and what it adds to it.\<close>

definition sealed_update ::
  "(nat \<Rightarrow> string) \<Rightarrow> time \<Rightarrow> ticket_record \<Rightarrow> ticket_record \<Rightarrow> ticket_operation \<Rightarrow>
   ticket_record \<Rightarrow> mutation_result \<Rightarrow> bool" where
  "sealed_update uuid now current candidate op updated result \<longleftrightarrow>
     require_same_identity current candidate = Inr () \<and>
     commit_operation uuid candidate current op now = Inr (updated, result)"

lemma same_identity_iff: "require_same_identity current candidate = Inr () \<longleftrightarrow>
    tk_id candidate = tk_id current \<and> tk_number candidate = tk_number current \<and>
    tk_created_at candidate = tk_created_at current \<and> tk_ref candidate = tk_ref current \<and>
    tk_revision candidate = tk_revision current \<and> tk_receipts candidate = tk_receipts current"
  by (simp add: require_same_identity_def)

lemma sealed_updateD:
  assumes "sealed_update uuid now cur cand op upd res"
  obtains x evs where
    "tk_revision upd = tk_revision cur + 1" "tk_id upd = tk_id cur" "tk_number upd = tk_number cur"
    "tk_created_at upd = tk_created_at cur" "tk_ref upd = tk_ref cur" "tk_updated_at upd = now"
    "tk_receipts upd = tk_receipts cur @ [x]" "rc_operation_id x = op_id op"
    "rc_request_digest x = op_request_digest op" "rc_snapshot x = body_of upd"
    "receipt_result x False = res" "mr_ticket res = record_of (body_of upd)"
    "mr_replayed res = False" "tk_events upd = tk_events cur @ evs"
    "evs = finalize_new now uuid 0 (drop (length (tk_events cur)) (tk_events cand))"
    "tk_state_id upd = tk_state_id cand" "tk_assignee upd = tk_assignee cand"
    "tk_active_run upd = tk_active_run cand" "tk_pending_run upd = tk_pending_run cand"
    "tk_field_values upd = tk_field_values cand" "tk_title upd = tk_title cand"
    "tk_field_provenance upd = tk_field_provenance cand" "tk_description upd = tk_description cand"
  using assms
  by (auto simp: sealed_update_def same_identity_iff commit_operation_def errE finalize_events_Inr
      seal_operation_def Let_def receipt_result_def)

lemma write_record_Inr:
  "write_record p r ref st = (t, Inr u) \<longleftrightarrow>
     utf8_len (serialize p r) \<le> MAX_TICKET_BYTES \<and> ticket_path ref \<notin> set (fs_readonly st) \<and>
     t = st\<lparr>fs_docs := AList.update (doc_key ref) (TextFile (serialize p r)) (fs_docs st)\<rparr>"
  by (auto simp: write_record_def Let_def ensure_def split: if_splits)

lemma write_record_Inl: "write_record p r ref st = (t, Inl e) \<Longrightarrow> t = st"
  by (auto simp: write_record_def Let_def ensure_def split: if_splits)

lemma replay_iff: "replay r op = Inr v \<longleftrightarrow>
   (case find_receipt r (op_id op) of
      None \<Rightarrow> v = None
    | Some x \<Rightarrow> rc_request_digest x = op_request_digest op \<and> v = Some (receipt_result x True))"
  by (auto simp: replay_def require_digest_def split: option.splits)

text \<open>An application that returned a result: a replay of its receipt, or a sealed update.\<close>

lemma apply_op_Inr:
  assumes "apply_op p now ref n op mutate st = (t, Inr res)"
  obtains (replayed) cur x where "read p st ref = Inr cur" "find_receipt cur (op_id op) = Some x"
      "rc_request_digest x = op_request_digest op" "t = st" "res = receipt_result x True"
  | (accepted) cur u cand upd where "read p st ref = Inr cur" "find_receipt cur (op_id op) = None"
      "tk_revision cur = n" "mutate cur st = (u, Inr cand)"
      "sealed_update (pr_uuid p) now cur cand op upd res"
      "write_record p upd ref u = (t, Inr ())"
  using assms unfolding apply_op_def
  by (auto simp: bindS_Inr replay_iff sealed_update_def simp del: bindS_readS
      split: option.splits if_splits)

lemma apply_op_Inl:
  assumes "apply_op p now ref n op mutate st = (t, Inl e)"
  obtains (untouched) "t = st"
  | (mutated) cur where "read p st ref = Inr cur" "find_receipt cur (op_id op) = None"
      "tk_revision cur = n" "t = fst (mutate cur st)"
proof (rule ccontr)
  assume no: "\<not> thesis"
  have t: "t \<noteq> st" using no untouched by blast
  from assms t obtain cur where cur: "read p st ref = Inr cur"
    unfolding apply_op_def by (elim bindS_readE) auto
  from assms t cur have none: "find_receipt cur (op_id op) = None"
    unfolding apply_op_def
    by (elim bindS_readE) (auto simp: replay_iff split: option.splits)
  from assms t cur none have n: "tk_revision cur = n"
    unfolding apply_op_def
    by (elim bindS_readE) (auto simp: replay_def split: if_splits)
  from assms t cur none n obtain u m where m: "mutate cur st = (u, m)" "m = Inl e \<longrightarrow> u = t"
    "\<And>cand. m = Inr cand \<Longrightarrow> bindS (liftS (require_same_identity cur cand)) (\<lambda>_.
       bindS (liftS (commit_operation (pr_uuid p) cand cur op now)) (\<lambda>(updated, result).
       bindS (write_record p updated ref) (\<lambda>_. returnS result))) u = (t, Inl e)"
    "\<And>e'. m = Inl e' \<Longrightarrow> u = t"
    unfolding apply_op_def
    by (elim bindS_readE) (auto simp: replay_def bindS_def [of "mutate cur"] split: prod.splits sum.splits)
  have "t = u"
  proof (cases m)
    case (Inr cand)
    from m(3) [OF Inr] show ?thesis
      by (elim bindS_readE) (auto simp: bindS_Inl dest: write_record_Inl split: prod.splits)
  qed (use m in auto)
  with m(1) no mutated [OF cur none n] show False by simp
qed

lemma guard_ref_docs [simp]: "guard_ref p (st\<lparr>fs_docs := d\<rparr>) ref = guard_ref p st ref"
  by (simp add: guard_ref_def require_safe_ref_def walk_no_reparse_def require_root_def)

lemma read_other_doc:
  "doc_key ref \<noteq> doc_key other \<Longrightarrow>
   read p (st\<lparr>fs_docs := AList.update (doc_key ref) f (fs_docs st)\<rparr>) other = read p st other"
  by (simp add: read_def doc_at_def update_conv')

lemma read_guard: "read p st ref = Inr r \<Longrightarrow> guard_ref p st ref = Inr ()"
  by (auto simp: read_def errE)

lemma read_ref: "read p st ref = Inr r \<Longrightarrow> tk_ref r = Some ref"
  by (auto simp: read_def deserialize_def errE Let_def
      split: doc_file.splits if_splits prod.splits yaml_load.splits bool.splits option.splits)

lemma utf8_len_append [simp]: "utf8_len (a @ b) = utf8_len a + utf8_len b"
  by (simp add: utf8_len_def)

lemma read_document:
  assumes "doc_at st ref = TextFile (serialize p r)" "codec_ok p r" "marker_free p r"
    and "tk_ref r = Some ref" "utf8_len (serialize p r) \<le> MAX_TICKET_BYTES"
    and "guard_ref p st ref = Inr ()"
  shows "read p st ref = Inr (r\<lparr>tk_description := stored_description (tk_description r)\<rparr>)"
  using assms parse_serialized [of p r "pr_load p"] envelope_restored [of r]
  by (simp add: read_def codec_ok_def deserialize_def)

lemma read_written:
  assumes "codec_ok p r" "marker_free p r" "tk_ref r = Some ref"
    and "utf8_len (serialize p r) \<le> MAX_TICKET_BYTES" "guard_ref p st ref = Inr ()"
  shows "read p (st\<lparr>fs_docs := AList.update (doc_key ref) (TextFile (serialize p r)) (fs_docs st)\<rparr>)
      ref = Inr (r\<lparr>tk_description := stored_description (tk_description r)\<rparr>)"
  using assms by (intro read_document) (simp_all add: doc_at_def update_conv')

section \<open>The interface the ticket service works with\<close>

text \<open>
  What a client may rely on when it applies an operation to a ticket: a returned result is either
  the replay of a receipt or a sealed update computed by the client's mutation from the current
  record at the expected revision, and a raised exception leaves behind at most what the mutation
  itself did. A read record carries the reference it was read with.
\<close>

locale ticket_store =
  fixes load :: "'s \<Rightarrow> ticket_ref \<Rightarrow> ticket_error + ticket_record"
    and apply_to :: "time \<Rightarrow> ticket_ref \<Rightarrow> int \<Rightarrow> ticket_operation \<Rightarrow>
      (ticket_record \<Rightarrow> ('s, ticket_error, ticket_record) op) \<Rightarrow> ('s, ticket_error, mutation_result) op"
    and ids :: "nat \<Rightarrow> string"
  assumes returned: "apply_to now ref n op mutate st = (t, Inr res) \<Longrightarrow>
      (\<exists>cur x. load st ref = Inr cur \<and> find_receipt cur (op_id op) = Some x \<and>
         rc_request_digest x = op_request_digest op \<and> t = st \<and> res = receipt_result x True) \<or>
      (\<exists>cur u cand upd. load st ref = Inr cur \<and> find_receipt cur (op_id op) = None \<and>
         tk_revision cur = n \<and> mutate cur st = (u, Inr cand) \<and>
         sealed_update ids now cur cand op upd res)"
    and raised: "apply_to now ref n op mutate st = (t, Inl e) \<Longrightarrow>
      t = st \<or> (\<exists>cur. load st ref = Inr cur \<and> find_receipt cur (op_id op) = None \<and>
         tk_revision cur = n \<and> t = fst (mutate cur st))"
    and scoped: "load st ref = Inr r \<Longrightarrow> tk_ref r = Some ref"
begin

lemma fresh:
  assumes "apply_to now ref n op mutate st = (t, Inr res)" and "\<not> mr_replayed res"
  obtains cur u cand upd where "load st ref = Inr cur" "find_receipt cur (op_id op) = None"
    "tk_revision cur = n" "mutate cur st = (u, Inr cand)" "sealed_update ids now cur cand op upd res"
  using returned [OF assms(1)] assms(2) by (auto simp: receipt_result_def)

lemma replayed:
  assumes "apply_to now ref n op mutate st = (t, Inr res)" and "mr_replayed res"
  obtains cur x where "load st ref = Inr cur" "find_receipt cur (op_id op) = Some x"
    "rc_request_digest x = op_request_digest op" "t = st" "res = receipt_result x True"
  using returned [OF assms(1)] assms(2) by (auto elim: sealed_updateD)

lemma raise_unchanged:
  assumes "apply_to now ref n op mutate st = (t, Inl e)" and "\<And>r. fst (mutate r st) = st"
  shows "t = st"
  using raised [OF assms(1)] assms(2) by auto

lemma expected_revision:
  assumes "apply_to now ref n op mutate st = (t, Inr res)" and "\<not> mr_replayed res"
  shows "tk_revision (mr_ticket res) = n + 1"
  by (rule fresh [OF assms]) (auto elim: sealed_updateD)

lemma history_kept:
  assumes "apply_to now ref n op mutate st = (t, Inr res)" and "\<not> mr_replayed res"
    and "load st ref = Inr cur"
  shows "\<exists>evs. tk_events (mr_ticket res) = tk_events cur @ evs"
  by (rule fresh [OF assms(1,2)]) (use assms(3) in \<open>auto elim: sealed_updateD\<close>)

end

text \<open>The local storage provides the interface.\<close>

interpretation local: ticket_store "read p" "apply_op p" "pr_uuid p" for p
proof unfold_locales
  fix now ref n op mutate st t res
  assume "apply_op p now ref n op mutate st = (t, Inr res)"
  then show "(\<exists>cur x. read p st ref = Inr cur \<and> find_receipt cur (op_id op) = Some x \<and>
         rc_request_digest x = op_request_digest op \<and> t = st \<and> res = receipt_result x True) \<or>
      (\<exists>cur u cand upd. read p st ref = Inr cur \<and> find_receipt cur (op_id op) = None \<and>
         tk_revision cur = n \<and> mutate cur st = (u, Inr cand) \<and>
         sealed_update (pr_uuid p) now cur cand op upd res)"
    by (rule apply_op_Inr) blast+
next
  fix now ref n op mutate st t e
  assume "apply_op p now ref n op mutate st = (t, Inl e)"
  then show "t = st \<or> (\<exists>cur. read p st ref = Inr cur \<and> find_receipt cur (op_id op) = None \<and>
         tk_revision cur = n \<and> t = fst (mutate cur st))"
    by (rule apply_op_Inl) blast+
qed (rule read_ref)

section \<open>Applying an operation\<close>

lemma apply_op_known:
  assumes "read p st ref = Inr cur" "find_receipt cur (op_id op) = Some x"
    and "require_safe_metadata st (rf_team_id ref) (rf_workflow_id ref)
           (rf_ticket_id ref @ ''.lock'') = Inr ()"
  shows "apply_op p now ref n op mutate st = (st,
     if rc_request_digest x = op_request_digest op then Inr (receipt_result x True)
     else Inl (Raise OperationConflict ''operation-digest-mismatch''))"
proof -
  have "doc_at st ref \<noteq> NoFile" using assms(1) by (auto simp: read_def errE)
  with assms read_guard [OF assms(1)] show ?thesis
    by (simp add: apply_op_def replay_def require_digest_def)
qed



lemma apply_op_sequence:
  assumes "apply_op p now ref n op (\<lambda>r. liftS (f r)) st = (t, out)"
  shows "fs_sequence t = fs_sequence st"
  using assms by (cases out) (auto elim!: apply_op_Inl apply_op_Inr simp: write_record_Inr)

text \<open>An operation whose mutation only computes touches its own ticket: when it raises, the
  storage is as before; when it returns, every other ticket reads as before and the numbering and
  the artifacts are untouched.\<close>

theorem apply_isolated:
  assumes "apply_op p now ref n op (\<lambda>r. liftS (f r)) st = (t, out)"
  shows "(isOk out \<or> t = st) \<and> fs_sequence t = fs_sequence st \<and> fs_artifacts t = fs_artifacts st \<and>
    (\<forall>other. doc_key other \<noteq> doc_key ref \<longrightarrow> read p t other = read p st other)"
proof (cases out)
  case (Inl e)
  with assms have "t = st" by (auto elim: apply_op_Inl)
  then show ?thesis by simp
next
  case (Inr res)
  with assms have "apply_op p now ref n op (\<lambda>r. liftS (f r)) st = (t, Inr res)" by simp
  then show ?thesis
    by (rule apply_op_Inr) (auto simp: Inr write_record_Inr read_other_doc)
qed

section \<open>Creating tickets\<close>

definition last_number :: "storage \<Rightarrow> string \<times> string \<Rightarrow> int" where
  "last_number st k = (case map_of (fs_sequence st) k of Some (Some n) \<Rightarrow> n | _ \<Rightarrow> 0)"

lemma next_number_Inr:
  assumes "next_number ref st = (t, Inr n)"
  shows "n = last_number st (board_key ref) + 1 \<and>
    t = st\<lparr>fs_sequence := AList.update (board_key ref) (Some n) (fs_sequence st)\<rparr>"
  using assms unfolding next_number_def
  by (elim bindS_readE) (auto simp: last_number_def split: option.splits if_splits)

lemma next_number_Inl: "next_number ref st = (t, Inl e) \<Longrightarrow> t = st"
  unfolding next_number_def by (elim bindS_readE) auto

text \<open>What a creation that is not a replay does.\<close>

lemma create_Inr:
  assumes "create p now r op st = (t, Inr res)" and "\<not> mr_replayed res"
  obtains ref n upd where "tk_ref r = Some ref" "doc_at st ref = NoFile"
    "n = last_number st (board_key ref) + 1" "tk_number upd = n" "tk_revision upd = 1"
    "tk_created_at upd = now" "tk_receipts upd \<noteq> []" "mr_ticket res = record_of (body_of upd)"
    "tk_state_id upd = tk_state_id r \<and> tk_assignee upd = tk_assignee r \<and>
     tk_active_run upd = tk_active_run r \<and> tk_field_values upd = tk_field_values r \<and>
     tk_field_provenance upd = tk_field_provenance r"
    "t = st\<lparr>fs_sequence := AList.update (board_key ref) (Some n) (fs_sequence st),
            fs_docs := AList.update (doc_key ref) (TextFile (serialize p upd)) (fs_docs st)\<rparr>"
proof (cases "tk_ref r")
  case None
  with assms show ?thesis by (simp add: create_def)
next
  case (Some ref)
  from assms Some have none: "doc_at st ref = NoFile"
    unfolding create_def
    by (auto simp: errE replay_iff receipt_result_def bindS_Inr simp del: bindS_readS
        split: option.splits if_splits)
  from assms Some none obtain u n where num: "next_number ref st = (u, Inr n)"
    and rest: "bindS (liftS (commit_creation (pr_uuid p) (r\<lparr>tk_number := n, tk_revision := 1,
        tk_created_at := now, tk_updated_at := now\<rparr>) op now)) (\<lambda>(sealed, result).
        bindS (write_record p sealed ref) (\<lambda>_. returnS result)) u = (t, Inr res)"
    unfolding create_def by (auto simp: bindS_Inr Let_def simp del: bindS_readS)
  from rest obtain upd where upd: "commit_creation (pr_uuid p) (r\<lparr>tk_number := n, tk_revision := 1,
        tk_created_at := now, tk_updated_at := now\<rparr>) op now = Inr (upd, res)"
    and w: "write_record p upd ref u = (t, Inr ())"
    by (auto simp: bindS_Inr simp del: bindS_readS)
  from upd have "tk_number upd = n" "tk_revision upd = 1" "tk_created_at upd = now"
    "tk_receipts upd \<noteq> []" "mr_ticket res = record_of (body_of upd)"
    "tk_state_id upd = tk_state_id r \<and> tk_assignee upd = tk_assignee r \<and>
     tk_active_run upd = tk_active_run r \<and> tk_field_values upd = tk_field_values r \<and>
     tk_field_provenance upd = tk_field_provenance r"
    by (auto simp: commit_creation_def errE seal_operation_def Let_def)
  with that [OF Some none] next_number_Inr [OF num] w show ?thesis
    by (auto simp: write_record_Inr)
qed

text \<open>Everything a process does to the storage, with the number it issued on a board.\<close>

inductive storage_step ::
  "provider \<Rightarrow> storage \<Rightarrow> ((string \<times> string) \<times> int) option \<Rightarrow> storage \<Rightarrow> bool" for p where
  created: "create p now r op st = (t, Inr res) \<Longrightarrow> \<not> mr_replayed res \<Longrightarrow> tk_ref r = Some ref \<Longrightarrow>
     storage_step p st (Some (board_key ref, tk_number (mr_ticket res))) t"
| create_other: "create p now r op st = (t, out) \<Longrightarrow>
     (\<forall>res. out = Inr res \<longrightarrow> mr_replayed res) \<Longrightarrow> storage_step p st None t"
| applied: "apply_op p now ref n op (\<lambda>r. liftS (f r)) st = (t, out) \<Longrightarrow> storage_step p st None t"
| put: "put_artifact p ref a st = (t, out) \<Longrightarrow> storage_step p st None t"

inductive storage_run ::
  "provider \<Rightarrow> storage \<Rightarrow> ((string \<times> string) \<times> int) option list \<Rightarrow> storage \<Rightarrow> bool" for p where
  start: "storage_run p st [] st"
| step: "storage_run p st tr t \<Longrightarrow> storage_step p t e u \<Longrightarrow> storage_run p st (tr @ [e]) u"

inductive_cases storage_stepE: "storage_step p st e t"

definition numbers_of :: "string \<times> string \<Rightarrow> ((string \<times> string) \<times> int) option list \<Rightarrow> int list" where
  "numbers_of k tr = map snd (filter (\<lambda>(b, n). b = k) (List.map_filter id tr))"

lemma numbers_of_simps [simp]:
  "numbers_of k [] = []"
  "numbers_of k (tr @ [None]) = numbers_of k tr"
  "numbers_of k (tr @ [Some (b, n)]) = numbers_of k tr @ (if b = k then [n] else [])"
  by (simp_all add: numbers_of_def List.map_filter_def)

lemma last_number_update:
  "last_number (st\<lparr>fs_sequence := AList.update b (Some n) s, fs_docs := d\<rparr>) k =
     (if k = b then n else last_number (st\<lparr>fs_sequence := s\<rparr>) k)"
  "last_number (st\<lparr>fs_sequence := AList.update b (Some n) s\<rparr>) k =
     (if k = b then n else last_number (st\<lparr>fs_sequence := s\<rparr>) k)"
  by (simp_all add: last_number_def update_conv')

lemma create_numbers:
  assumes "create p now r op st = (t, out)"
  shows "last_number st k \<le> last_number t k"
proof (cases "tk_ref r")
  case None
  with assms show ?thesis by (simp add: create_def)
next
  case (Some ref)
  have tail: "last_number u k = last_number u' k"
    if "(case m of Inl e \<Rightarrow> (u, Inl e) | Inr x \<Rightarrow> (case x of (sealed, result) \<Rightarrow>
        bindS (write_record p sealed ref) (\<lambda>_. returnS result)) u) = (u', out)" for m u u'
    using that by (cases out; cases m)
      (auto simp: bindS_Inr bindS_Inl write_record_Inr last_number_def dest: write_record_Inl
        split: prod.splits)
  show ?thesis
  proof (cases "doc_at st ref = NoFile")
    case False
    with assms Some have "t = st"
      by (simp add: create_def del: bindS_readS) (elim bindS_readE; auto split: option.splits sum.splits)
    then show ?thesis by simp
  next
    case True
    obtain u m where num: "next_number ref st = (u, m)" by fastforce
    show ?thesis
    proof (cases m)
      case (Inl e)
      with num have "u = st" by (simp add: next_number_Inl)
      with assms Some True num Inl have "t = st"
        by (simp add: create_def del: bindS_readS) (elim bindS_readE; auto simp: bindS_def [of "next_number ref"])
      then show ?thesis by simp
    next
      case (Inr n)
      have "last_number st k \<le> last_number u k"
        using next_number_Inr [of ref st u n] num Inr
        by (auto simp: last_number_def update_conv')
      moreover from assms Some True num Inr have "t = st \<or> last_number u k = last_number t k"
        by (simp add: create_def del: bindS_readS)
          (elim bindS_readE; auto simp: bindS_def [of "next_number ref"] Let_def dest!: tail)
      ultimately show ?thesis by auto
    qed
  qed
qed

text \<open>A write of an artifact changes nothing, or adds a file where there was none.\<close>

lemma put_artifact_cases:
  assumes "put_artifact p ref a st = (t, out)"
  obtains (same) "t = st" "\<And>r. out = Inr r \<Longrightarrow> read_artifact p st ref (at_digest a) = Inr a"
  | (added) "artifact_at st ref (at_digest a) = NoArtifact" "out = Inr (artifact_ref_of a)"
      "t = st\<lparr>fs_artifacts := AList.update (rf_team_id ref, rf_workflow_id ref, at_digest a)
             (ArtifactBytes (pr_envelope_len p (to_storage a)) (Some (to_storage a)))
             (fs_artifacts st)\<rparr>"
proof -
  have id: "b = a" if "validated_artifact p a = Inr b" for b
    using that by (auto simp: validated_artifact_def validate_artifact_Inr split: sum.splits if_splits)
  show ?thesis
  proof (cases "artifact_at st ref (at_digest a) = NoArtifact")
    case True
    with assms id same added show ?thesis
      unfolding put_artifact_def by (elim bindS_readE) (auto simp: ensure_def split: if_splits)
  next
    case False
    with assms id same show ?thesis
      unfolding put_artifact_def by (elim bindS_readE) (auto split: if_splits sum.splits)
  qed
qed

lemma put_artifact_keeps:
  assumes "put_artifact p ref a st = (t, out)"
  shows "fs_sequence t = fs_sequence st \<and> fs_docs t = fs_docs st"
  using assms by (rule put_artifact_cases) auto

lemma storage_step_numbers:
  assumes "storage_step p st e t"
  shows "last_number st k \<le> last_number t k \<and>
    (\<forall>n. e = Some (k, n) \<longrightarrow> last_number st k < n \<and> last_number t k = n)"
  using assms
proof (cases rule: storage_step.cases)
  case (created now r op res ref)
  from created(2,3) have "last_number t (board_key ref) = tk_number (mr_ticket res) \<and>
      last_number st (board_key ref) < tk_number (mr_ticket res)"
    by (rule create_Inr) (use created(4) in \<open>auto simp: last_number_update\<close>)
  with created create_numbers [OF created(2)] show ?thesis by auto
next
  case create_other
  then show ?thesis using create_numbers by auto
next
  case applied
  then show ?thesis using apply_op_sequence by (metis last_number_def option.distinct(1) order_refl)
next
  case put
  then show ?thesis using put_artifact_keeps by (metis last_number_def option.distinct(1) order_refl)
qed

lemma numbers_bounded:
  assumes "storage_run p st tr t"
  shows "sorted_wrt (<) (numbers_of k tr) \<and> (\<forall>n\<in>set (numbers_of k tr). n \<le> last_number t k)"
  using assms
proof (induction rule: storage_run.induct)
  case (start st)
  then show ?case by simp
next
  case (step st tr t e u)
  note now = storage_step_numbers [OF step.hyps(2), of k]
  show ?case
  proof (cases e)
    case None
    with step.IH now show ?thesis by force
  next
    case (Some bn)
    with step.IH now show ?thesis
      by (cases bn; cases "fst bn = k") (force simp: sorted_wrt_append)+
  qed
qed

text \<open>C14: Over any sequence of creations, applications and artifact writes, in any order and
  whatever fails in between, the numbers issued on one board strictly increase.\<close>

theorem numbers_increase:
  assumes "storage_run p st tr t"
  shows "sorted_wrt (<) (numbers_of k tr)"
  using numbers_bounded [OF assms] by blast

section \<open>Artifacts are stored once, under their content\<close>

lemma put_artifact_accepted:
  assumes "put_artifact p ref a st = (t, Inr r)"
  shows "r = artifact_ref_of a \<and> validated_artifact p a = Inr a \<and> guard_ref p st ref = Inr () \<and>
    is_digest (at_digest a) \<and> require_safe_artifact_metadata st (rf_team_id ref)
       (rf_workflow_id ref) (at_digest a @ ''.json'') = Inr ()"
proof -
  have "b = a" if "validated_artifact p a = Inr b" for b
    using that by (auto simp: validated_artifact_def validate_artifact_Inr split: sum.splits if_splits)
  with assms show ?thesis
    unfolding put_artifact_def
    by (elim bindS_readE)
      (auto simp: require_safe_artifact_id_def errE split: if_splits sum.splits)
qed

lemma guards_artifacts [simp]:
  "guard_ref p (st\<lparr>fs_artifacts := d\<rparr>) ref = guard_ref p st ref"
  "require_safe_artifact_metadata (st\<lparr>fs_artifacts := d\<rparr>) x y z =
     require_safe_artifact_metadata st x y z"
  by (simp_all add: guard_ref_def require_safe_ref_def walk_no_reparse_def require_root_def
      require_safe_artifact_metadata_def)

lemma put_artifact_read:
  assumes "put_artifact p ref a st = (t, Inr r)"
  shows "read_artifact p t ref (at_digest a) = Inr a"
  using assms
proof (cases rule: put_artifact_cases)
  case same
  then show ?thesis by simp
next
  case added
  note acc = put_artifact_accepted [OF assms]
  then have "validate_artifact (pr_sha p) a = Inr a"
    "pr_envelope_len p (to_storage a) \<le> MAX_RETAINED_ARTIFACT_ENVELOPE_BYTES"
    by (auto simp: validated_artifact_def split: sum.splits if_splits)
  with added acc show ?thesis
    by (simp add: read_artifact_def artifact_at_def update_conv' require_safe_artifact_id_def
        storage_roundtrip)
qed

lemma put_artifact_persists:
  assumes "put_artifact p ref' b st = (t, out)" and "read_artifact p st ref i = Inr a"
  shows "read_artifact p t ref i = Inr a"
  using assms(1)
proof (cases rule: put_artifact_cases)
  case added
  from assms(2) have "artifact_at st ref i \<noteq> NoArtifact"
    by (auto simp: read_artifact_def errE)
  with added have "artifact_at t ref i = artifact_at st ref i"
    by (auto simp: artifact_at_def update_conv')
  with assms(2) added show ?thesis by (simp add: read_artifact_def)
qed (use assms in simp)

text \<open>A retained artifact that was accepted is read back unchanged under the digest its reference
  names, and a later write, of any artifact on any board, cannot change it.\<close>

theorem artifact_stored:
  assumes "put_artifact p ref a st = (t, Inr r)"
    and "put_artifact p ref' b t = (u, out)"
  shows "ar_value r = at_digest a \<and> read_artifact p t ref (ar_value r) = Inr a \<and>
    read_artifact p u ref (ar_value r) = Inr a"
  using put_artifact_accepted [OF assms(1)] put_artifact_read [OF assms(1)]
    put_artifact_persists [OF assms(2)]
  by (simp add: artifact_ref_of_def)


text \<open>An application and a creation on the branch that writes, run forward.\<close>

lemma apply_new:
  assumes "read p st ref = Inr cur" "find_receipt cur (op_id op) = None" "tk_revision cur = n"
    and "require_safe_metadata st (rf_team_id ref) (rf_workflow_id ref)
           (rf_ticket_id ref @ ''.lock'') = Inr ()"
    and "mutate cur st = (u, Inr cand)" "require_same_identity cur cand = Inr ()"
    and "commit_operation (pr_uuid p) cand cur op now = Inr (upd, res)"
    and "utf8_len (serialize p upd) \<le> MAX_TICKET_BYTES" "ticket_path ref \<notin> set (fs_readonly u)"
  shows "apply_op p now ref n op mutate st =
    (u\<lparr>fs_docs := AList.update (doc_key ref) (TextFile (serialize p upd)) (fs_docs u)\<rparr>, Inr res)"
proof -
  have "doc_at st ref \<noteq> NoFile" using assms(1) by (auto simp: read_def errE)
  with assms read_guard [OF assms(1)] show ?thesis
    by (simp add: apply_op_def replay_def write_record_def Let_def bindS_def [of "mutate cur"]
        bindS_def [of "bindS f g" for f g])
qed

lemma create_new:
  assumes "tk_ref r = Some ref" "guard_ref p st ref = Inr ()"
    and "require_safe_metadata st (rf_team_id ref) (rf_workflow_id ref) ''.namespace.lock'' = Inr ()"
    and "doc_at st ref = NoFile" "next_number ref st = (u, Inr n)"
    and "commit_creation (pr_uuid p) (r\<lparr>tk_number := n, tk_revision := 1, tk_created_at := now,
           tk_updated_at := now\<rparr>) op now = Inr (sealed, res)"
    and "utf8_len (serialize p sealed) \<le> MAX_TICKET_BYTES" "ticket_path ref \<notin> set (fs_readonly u)"
  shows "create p now r op st =
    (u\<lparr>fs_docs := AList.update (doc_key ref) (TextFile (serialize p sealed)) (fs_docs u)\<rparr>, Inr res)"
  using assms
  by (simp add: create_def bindS_def [of "next_number ref"] write_record_def Let_def
      bindS_def [of "bindS f g" for f g])

section \<open>A concrete storage\<close>

text \<open>One ticket on one board, a YAML library that knows the documents at hand, and an operation
  that changes the title.\<close>

definition demo_ref :: ticket_ref where
  "demo_ref = \<lparr>rf_binding_id = ''b'', rf_team_id = ''t'', rf_workflow_id = ''w'', rf_ticket_id = ''a-1''\<rparr>"

definition demo_ticket :: ticket_record where
  "demo_ticket = \<lparr>tk_id = ''a-1'', tk_number = 1, tk_title = ''Old'', tk_description = ''text'',
     tk_state_id = ''open'', tk_assignee = None, tk_pending_run = None, tk_active_run = None,
     tk_field_values = [], tk_field_provenance = [], tk_revision = 1, tk_events = [],
     tk_created_at = 1, tk_updated_at = 1, tk_ref = Some demo_ref, tk_receipts = []\<rparr>"

definition demo_op :: ticket_operation where
  "demo_op = \<lparr>op_id = ''op-1'', op_request_digest = ''d1''\<rparr>"

definition demo_retitle :: "ticket_record \<Rightarrow> ticket_error + ticket_record" where
  "demo_retitle r = Inr (r\<lparr>tk_title := ''New''\<rparr>)"

definition demo_seal :: "ticket_record \<times> mutation_result" where
  "demo_seal = seal_operation (demo_ticket\<lparr>tk_title := ''New'', tk_revision := 2,
     tk_updated_at := 5\<rparr>) demo_op 5 []"

definition demo_provider :: provider where
  "demo_provider = \<lparr>pr_binding_id = \<lambda>_ _. ''b'',
     pr_dump = \<lambda>r. if tk_revision r = 1 then ''one'' else ''two'',
     pr_load = \<lambda>s. if s = [newline] @ ''one'' @ [newline] then YamlMapping True (Some (envelope demo_ticket))
       else if s = [newline] @ ''two'' @ [newline] then YamlMapping True (Some (envelope (fst demo_seal)))
       else YamlError,
     pr_sha = \<lambda>_ _ _. replicate 64 CHR ''0'', pr_envelope_len = \<lambda>_. 100, pr_uuid = \<lambda>_. ''u''\<rparr>"

definition demo_storage :: storage where
  "demo_storage = \<lparr>fs_root = RootDir, fs_links = [], fs_readonly = [],
     fs_docs = [(doc_key demo_ref, TextFile (serialize demo_provider demo_ticket))],
     fs_sequence = [((''t'', ''w''), Some 1)], fs_artifacts = []\<rparr>"

definition demo_applied :: "storage \<times> (ticket_error + mutation_result)" where
  "demo_applied = apply_op demo_provider 5 demo_ref 1 demo_op (\<lambda>r. liftS (demo_retitle r)) demo_storage"

lemma demo_codec: "codec_ok demo_provider demo_ticket" "marker_free demo_provider demo_ticket"
  "codec_ok demo_provider (fst demo_seal)" "marker_free demo_provider (fst demo_seal)"
  by code_simp+

lemma demo_lengths:
  "utf8_len (serialize demo_provider demo_ticket) \<le> MAX_TICKET_BYTES"
  "utf8_len (serialize demo_provider (fst demo_seal)) \<le> MAX_TICKET_BYTES"
proof -
  have "utf8_len (serialize demo_provider demo_ticket) = 18"
    "utf8_len (serialize demo_provider (fst demo_seal)) = 18" by code_simp+
  then show "utf8_len (serialize demo_provider demo_ticket) \<le> MAX_TICKET_BYTES"
    "utf8_len (serialize demo_provider (fst demo_seal)) \<le> MAX_TICKET_BYTES"
    by (simp_all add: MAX_TICKET_BYTES_def)
qed

lemma demo_guards:
  "doc_at demo_storage demo_ref = TextFile (serialize demo_provider demo_ticket)"
  "guard_ref demo_provider demo_storage demo_ref = Inr ()"
  "require_safe_metadata demo_storage (rf_team_id demo_ref) (rf_workflow_id demo_ref)
     (rf_ticket_id demo_ref @ ''.lock'') = Inr ()"
  by code_simp+

lemma demo_current: "read demo_provider demo_storage demo_ref = Inr demo_ticket"
proof -
  have "stored_description (tk_description demo_ticket) = tk_description demo_ticket"
    "tk_ref demo_ticket = Some demo_ref" by code_simp+
  then show ?thesis
    using read_document [OF demo_guards(1) demo_codec(1,2) _ demo_lengths(1) demo_guards(2)] by simp
qed

lemma demo_commit:
  "find_receipt demo_ticket (op_id demo_op) = None"
  "demo_retitle demo_ticket = Inr (demo_ticket\<lparr>tk_title := ''New''\<rparr>)"
  "commit_operation (pr_uuid demo_provider) (demo_ticket\<lparr>tk_title := ''New''\<rparr>) demo_ticket demo_op 5
     = Inr (fst demo_seal, snd demo_seal)"
  "require_same_identity demo_ticket (demo_ticket\<lparr>tk_title := ''New''\<rparr>) = Inr ()"
  "tk_revision demo_ticket = 1" "ticket_path demo_ref \<notin> set (fs_readonly demo_storage)"
  by code_simp+

lemma demo_applied_run:
  "apply_op demo_provider 5 demo_ref 1 demo_op (\<lambda>r. liftS (demo_retitle r)) demo_storage =
     (fst demo_applied, Inr (snd demo_seal))"
proof -
  have "(\<lambda>r. liftS (demo_retitle r)) demo_ticket demo_storage =
      (demo_storage, Inr (demo_ticket\<lparr>tk_title := ''New''\<rparr>))"
    by (simp add: demo_commit(2))
  then show ?thesis
    unfolding demo_applied_def
    by (simp add: apply_new [OF demo_current demo_commit(1,5) demo_guards(3) _ demo_commit(4,3)
          demo_lengths(2) demo_commit(6)])
qed



theorem apply_isolated_witness:
  "fs_sequence (fst demo_applied) = fs_sequence demo_storage"
  using apply_isolated [OF demo_applied_run] by blast


definition demo_cut :: provider where
  "demo_cut = demo_provider\<lparr>pr_dump := \<lambda>_. ''title: a---b'',
     pr_load := \<lambda>s. if s = newline # ''title: a'' then YamlMapping True None else YamlError\<rparr>"

theorem marker_truncates_witness:
  "deserialize demo_cut (universal_newlines (serialize demo_cut demo_ticket)) demo_ref =
     Inl (Raise TicketCorrupt ''corrupt-record'')"
proof (rule marker_truncates)
  show "CHR 0x0D \<notin> set (pr_dump demo_cut (envelope demo_ticket))"
    "pr_dump demo_cut (envelope demo_ticket) = ''title: a'' @ marker @ ''b''"
    "split_at marker ''title: a'' = None" by code_simp+
  show "''title: a'' = [] \<or> last ''title: a'' \<noteq> CHR ''-''" by simp
  show "pr_load demo_cut (newline # ''title: a'') \<in> {YamlFalsy, YamlMapping True None}"
    by (simp add: demo_cut_def)
qed

definition demo_new :: "string \<Rightarrow> ticket_record" where
  "demo_new i = demo_ticket\<lparr>tk_id := i, tk_ref := Some (demo_ref\<lparr>rf_ticket_id := i\<rparr>)\<rparr>"

definition demo_opened :: "string \<Rightarrow> int \<Rightarrow> ticket_record \<times> mutation_result" where
  "demo_opened i n = seal_operation (demo_new i\<lparr>tk_number := n, tk_created_at := 5,
     tk_updated_at := 5\<rparr>) demo_op 5 []"

definition demo_after :: "storage \<Rightarrow> string \<Rightarrow> int \<Rightarrow> storage" where
  "demo_after st i n = st\<lparr>fs_sequence := AList.update (''t'', ''w'') (Some n) (fs_sequence st),
     fs_docs := AList.update (''t'', ''w'', i)
       (TextFile (serialize demo_provider (fst (demo_opened i n)))) (fs_docs st)\<rparr>"

lemma demo_lengths_new:
  "utf8_len (serialize demo_provider (fst (demo_opened ''a-2'' 2))) \<le> MAX_TICKET_BYTES"
  "utf8_len (serialize demo_provider (fst (demo_opened ''a-3'' 3))) \<le> MAX_TICKET_BYTES"
proof -
  have "utf8_len (serialize demo_provider (fst (demo_opened ''a-2'' 2))) = 18"
    "utf8_len (serialize demo_provider (fst (demo_opened ''a-3'' 3))) = 18" by code_simp+
  then show "utf8_len (serialize demo_provider (fst (demo_opened ''a-2'' 2))) \<le> MAX_TICKET_BYTES"
    "utf8_len (serialize demo_provider (fst (demo_opened ''a-3'' 3))) \<le> MAX_TICKET_BYTES"
    by (simp_all add: MAX_TICKET_BYTES_def)
qed

definition demo_id :: "string \<Rightarrow> ticket_ref" where
  "demo_id i = demo_ref\<lparr>rf_ticket_id := i\<rparr>"

abbreviation "demo_numbered st n \<equiv> st\<lparr>fs_sequence := AList.update (''t'', ''w'') (Some n) (fs_sequence st)\<rparr>"

definition demo_storage_2 :: storage where
  "demo_storage_2 = demo_after demo_storage ''a-2'' 2"

lemma demo_create_2: "create demo_provider 5 (demo_new ''a-2'') demo_op demo_storage =
    (demo_storage_2, Inr (snd (demo_opened ''a-2'' 2)))"
proof -
  have a: "tk_ref (demo_new ''a-2'') = Some (demo_id ''a-2'')" by code_simp
  have b: "guard_ref demo_provider demo_storage (demo_id ''a-2'') = Inr ()"
    "require_safe_metadata demo_storage (rf_team_id (demo_id ''a-2'')) (rf_workflow_id (demo_id ''a-2''))
       ''.namespace.lock'' = Inr ()"
    "doc_at demo_storage (demo_id ''a-2'') = NoFile" by code_simp+
  have c: "next_number (demo_id ''a-2'') demo_storage = (demo_numbered demo_storage 2, Inr 2)"
    by code_simp
  have d: "commit_creation (pr_uuid demo_provider) (demo_new ''a-2''\<lparr>tk_number := 2, tk_revision := 1,
      tk_created_at := 5, tk_updated_at := 5\<rparr>) demo_op 5 =
      Inr (fst (demo_opened ''a-2'' 2), snd (demo_opened ''a-2'' 2))" by code_simp
  have e: "ticket_path (demo_id ''a-2'') \<notin> set (fs_readonly (demo_numbered demo_storage 2))"
    by code_simp
  show ?thesis
    by (simp add: create_new [OF a b c d demo_lengths_new(1) e] demo_storage_2_def demo_after_def
        doc_key_def demo_id_def demo_ref_def)
qed

lemma demo_create_3: "create demo_provider 5 (demo_new ''a-3'') demo_op demo_storage_2 =
    (demo_after demo_storage_2 ''a-3'' 3, Inr (snd (demo_opened ''a-3'' 3)))"
proof -
  have a: "tk_ref (demo_new ''a-3'') = Some (demo_id ''a-3'')" by code_simp
  have b: "guard_ref demo_provider demo_storage_2 (demo_id ''a-3'') = Inr ()"
    "require_safe_metadata demo_storage_2 (rf_team_id (demo_id ''a-3'')) (rf_workflow_id (demo_id ''a-3''))
       ''.namespace.lock'' = Inr ()"
    "doc_at demo_storage_2 (demo_id ''a-3'') = NoFile" by code_simp+
  have c: "next_number (demo_id ''a-3'') demo_storage_2 = (demo_numbered demo_storage_2 3, Inr 3)"
    by code_simp
  have d: "commit_creation (pr_uuid demo_provider) (demo_new ''a-3''\<lparr>tk_number := 3, tk_revision := 1,
      tk_created_at := 5, tk_updated_at := 5\<rparr>) demo_op 5 =
      Inr (fst (demo_opened ''a-3'' 3), snd (demo_opened ''a-3'' 3))" by code_simp
  have e: "ticket_path (demo_id ''a-3'') \<notin> set (fs_readonly (demo_numbered demo_storage_2 3))"
    by code_simp
  show ?thesis
    by (simp add: create_new [OF a b c d demo_lengths_new(2) e] demo_after_def
        doc_key_def demo_id_def demo_ref_def)
qed

lemma demo_created_run: "storage_run demo_provider demo_storage
    [Some ((''t'', ''w''), 2), None, Some ((''t'', ''w''), 3)] (demo_after demo_storage_2 ''a-3'' 3)"
proof -
  have "storage_step demo_provider demo_storage
      (Some (board_key (demo_id ''a-2''), tk_number (mr_ticket (snd (demo_opened ''a-2'' 2))))) demo_storage_2"
    by (rule storage_step.created [OF demo_create_2]) code_simp+
  then have two: "storage_step demo_provider demo_storage (Some ((''t'', ''w''), 2)) demo_storage_2"
    by (simp add: board_key_def demo_id_def demo_ref_def demo_opened_def)
  have "create demo_provider 5 (demo_new ''a-2''\<lparr>tk_ref := None\<rparr>) demo_op demo_storage_2 =
      (demo_storage_2, Inl (Raise TicketConflict ''unbound-record''))"
    by (simp add: create_def)
  then have none: "storage_step demo_provider demo_storage_2 None demo_storage_2"
    by (rule storage_step.create_other) simp
  have "storage_step demo_provider demo_storage_2
      (Some (board_key (demo_id ''a-3''), tk_number (mr_ticket (snd (demo_opened ''a-3'' 3)))))
      (demo_after demo_storage_2 ''a-3'' 3)"
    by (rule storage_step.created [OF demo_create_3]) code_simp+
  then have "storage_step demo_provider demo_storage_2 (Some ((''t'', ''w''), 3))
      (demo_after demo_storage_2 ''a-3'' 3)"
    by (simp add: board_key_def demo_id_def demo_ref_def demo_opened_def)
  from storage_run.step [OF storage_run.step [OF storage_run.step [OF storage_run.start two] none] this]
  show ?thesis by simp
qed

theorem numbers_increase_witness:
  "sorted_wrt (<) (numbers_of (''t'', ''w'') [Some ((''t'', ''w''), 2), None, Some ((''t'', ''w''), 3 :: int)])"
  by (rule numbers_increase [OF demo_created_run])

definition demo_artifact :: retained_artifact where
  "demo_artifact = \<lparr>at_filename = ''a.txt'', at_media_type = ''text/plain'', at_content = ''hi'',
     at_digest = replicate 64 CHR ''0''\<rparr>"

definition demo_put :: "storage \<Rightarrow> storage" where
  "demo_put st = st\<lparr>fs_artifacts := AList.update (''t'', ''w'', at_digest demo_artifact)
      (ArtifactBytes 100 (Some (to_storage demo_artifact))) (fs_artifacts st)\<rparr>"

lemma demo_validated: "validated_artifact demo_provider demo_artifact = Inr demo_artifact"
proof -
  have "sanitize_artifact_filename ''a.txt'' = Inr ''a.txt''" "is_media_type ''text/plain''"
    by code_simp+
  then show ?thesis
    by (simp add: validated_artifact_def validate_artifact_def demo_artifact_def demo_provider_def
        MAX_RETAINED_ARTIFACT_BYTES_def MAX_RETAINED_ARTIFACT_ENVELOPE_BYTES_def)
qed

lemma demo_put_run:
  "put_artifact demo_provider demo_ref demo_artifact demo_storage =
    (demo_put demo_storage, Inr (artifact_ref_of demo_artifact))"
proof -
  have "require_safe_artifact_id (at_digest demo_artifact) = Inr ()"
    "require_safe_artifact_metadata demo_storage (rf_team_id demo_ref) (rf_workflow_id demo_ref)
       (at_digest demo_artifact @ ''.lock'') = Inr ()"
    "require_safe_artifact_metadata demo_storage (rf_team_id demo_ref) (rf_workflow_id demo_ref)
       (at_digest demo_artifact @ ''.json'') = Inr ()"
    "artifact_at demo_storage demo_ref (at_digest demo_artifact) = NoArtifact"
    by code_simp+
  moreover have "fs_readonly demo_storage = []" "rf_team_id demo_ref = ''t''"
    "rf_workflow_id demo_ref = ''w''" "pr_envelope_len demo_provider (to_storage demo_artifact) = 100"
    by (simp_all add: demo_storage_def demo_ref_def demo_provider_def)
  ultimately show ?thesis
    by (simp add: put_artifact_def demo_guards demo_validated demo_put_def)
qed

theorem artifact_stored_witness:
  "read_artifact demo_provider (demo_put demo_storage) demo_ref (at_digest demo_artifact) =
     Inr demo_artifact"
proof -
  obtain u out where "put_artifact demo_provider demo_ref demo_artifact (demo_put demo_storage) = (u, out)"
    by fastforce
  from artifact_stored [OF demo_put_run this] show ?thesis
    by (simp add: artifact_ref_of_def)
qed

end
