(* ===== verification/GitEvidence.thy ===== *)
theory GitEvidence
  imports Artifacts
begin

text \<open>
  Git evidence. From \<^verbatim>\<open>flowgency/git_evidence/models.py\<close>: refs, the publication policy and object
  ids. From \<^verbatim>\<open>flowgency/git_evidence/publication.py\<close>: the proof that a captured commit is published.
  From \<^verbatim>\<open>flowgency/tickets/git_evidence.py\<close>: the retained manifest, the receipt of a capture in the
  ticket's history, and the check that a value is evidence this ticket captured itself.

  SHA-256 digests, the JSON library and the Git executable are arguments.
\<close>

section \<open>Strings\<close>

definition contains :: "string \<Rightarrow> string \<Rightarrow> bool" where
  "contains sub s \<longleftrightarrow> split_at sub s \<noteq> None"

definition starts_with :: "string \<Rightarrow> string \<Rightarrow> bool" where
  "starts_with p s \<longleftrightarrow> take (length p) s = p"

definition ends_with :: "string \<Rightarrow> string \<Rightarrow> bool" where
  "ends_with p s \<longleftrightarrow> starts_with (rev p) (rev s)"

text \<open>\<open>s.split(c)\<close> for one character.\<close>

fun split_on :: "char \<Rightarrow> string \<Rightarrow> string list" where
  "split_on c [] = [[]]"
| "split_on c (d # s) = (if d = c then [] # split_on c s
     else case split_on c s of [] \<Rightarrow> [[d]] | w # ws \<Rightarrow> (d # w) # ws)"

lemma split_on_not_Nil [simp]: "split_on c s \<noteq> []"
  by (cases s) (auto split: list.splits)

lemma split_on_free: "w \<in> set (split_on c s) \<Longrightarrow> c \<notin> set w"
proof (induction s arbitrary: w)
  case (Cons d s)
  then show ?case by (auto split: if_splits list.splits)
qed simp

lemma split_on_set: "w \<in> set (split_on c s) \<Longrightarrow> set w \<subseteq> set s"
proof (induction s arbitrary: w)
  case (Cons d s)
  then show ?case by (force split: if_splits list.splits)
qed simp

section \<open>Refs and the publication policy\<close>

abbreviation "valueError \<equiv> PyError ''ValueError''"

definition ref_control :: "char \<Rightarrow> bool" where
  "ref_control c \<longleftrightarrow> (of_char c :: nat) < 32 \<or> (of_char c :: nat) = 127"

definition validate_component :: "string \<Rightarrow> ticket_error + unit" where
  "validate_component w =
     (if w = [] then Inl valueError
      else if w = ''*'' then Inr ()
      else if ends_with ''.lock'' w then Inl valueError
      else if starts_with ''.'' w \<or> ends_with ''.'' w then Inl valueError
      else Inr ())"

definition validate_ref :: "string \<Rightarrow> ticket_error + unit" where
  "validate_ref r =
     bindE (ensure (r \<noteq> []) valueError) (\<lambda>_.
     bindE (ensure (\<not> list_ex ref_control r) valueError) (\<lambda>_.
     bindE (ensure (CHR 0x5C \<notin> set r) valueError) (\<lambda>_.
     bindE (ensure (\<not> contains ''..'' r) valueError) (\<lambda>_.
     bindE (ensure (\<not> contains [CHR 0x40, CHR 0x7B] r) valueError) (\<lambda>_.
     bindE (ensure (CHR '':'' \<notin> set r) valueError) (\<lambda>_.
     bindE (ensure (\<not> (starts_with ''/'' r \<or> ends_with ''/'' r)) valueError) (\<lambda>_.
     bindE (ensure (\<not> (CHR ''*'' \<in> set r \<and> \<not> ends_with ''/*'' r)) valueError) (\<lambda>_.
     bindE (ensure (count_list r CHR ''*'' \<le> 1) valueError) (\<lambda>_.
     bindE (iterE validate_component (split_on CHR ''/'' r)) (\<lambda>_.
     if starts_with ''refs/heads/'' r then
       ensure (drop (length ''refs/heads/'') r \<noteq> []) valueError
     else if starts_with ''refs/tags/'' r then
       ensure (drop (length ''refs/tags/'') r \<noteq> []) valueError
     else Inl valueError))))))))))"

record git_policy =
  gp_allowed_refs :: "string list"

definition validate_policy :: "git_policy \<Rightarrow> ticket_error + git_policy" where
  "validate_policy p =
     bindE (ensure (distinct (gp_allowed_refs p)) valueError) (\<lambda>_.
     bindE (iterE validate_ref (gp_allowed_refs p)) (\<lambda>_. Inr p))"

definition validate_exact_ref :: "string \<Rightarrow> ticket_error + string" where
  "validate_exact_ref r =
     bindE (validate_ref r) (\<lambda>_. if CHR ''*'' \<in> set r then Inl valueError else Inr r)"

definition ref_matches_allowlist :: "string \<Rightarrow> string list \<Rightarrow> bool" where
  "ref_matches_allowlist r allowed = list_ex (\<lambda>pattern.
     if ends_with ''/*'' pattern then
       (let prefix = butlast pattern in starts_with prefix r \<and> length r > length prefix)
     else r = pattern) allowed"

datatype object_format = SHA1 | SHA256

fun object_id_length :: "object_format \<Rightarrow> nat" where
  "object_id_length SHA1 = 40"
| "object_id_length SHA256 = 64"

text \<open>A failed capture is a \<open>GitEvidenceError\<close>, known by its code.\<close>

type_synonym git_error = string

definition validate_object_id :: "object_format \<Rightarrow> string \<Rightarrow> git_error + string" where
  "validate_object_id fmt v =
     (if length v \<noteq> object_id_length fmt then Inl ''git-evidence-invalid-commit''
      else if \<not> list_all is_hex_lower v then Inl ''git-evidence-invalid-commit''
      else Inr v)"

section \<open>Publication\<close>

record publication_receipt =
  pb_policy_digest :: string
  pb_publication_ref :: "string option"
  pb_ref_object_id :: "string option"
  pb_observed_commit :: string
  pb_verified_at :: time

text \<open>
  The repository as a capture reads it: its object format, what reading a ref returns (it may
  raise), and the exit code and the standard output of a Git command.
\<close>

record git_repository =
  rp_format :: object_format
  rp_read_ref :: "string \<Rightarrow> git_error + string option"
  rp_run :: "string list \<Rightarrow> int \<times> string"

definition validated_ref :: "string \<Rightarrow> git_error + string" where
  "validated_ref r = (case validate_exact_ref r of
      Inl _ \<Rightarrow> Inl ''git-evidence-publication-ref-denied''
    | Inr _ \<Rightarrow> if list_ex (\<lambda>c. c \<in> set ''*?[]'') r then Inl ''git-evidence-publication-ref-denied''
               else Inr r)"

text \<open>The object a ref names, and the commit it peels to.\<close>

definition resolve_publication_ref ::
  "git_repository \<Rightarrow> string \<Rightarrow> git_error + string \<times> string" where
  "resolve_publication_ref repo name =
     bindE (validated_ref name) (\<lambda>r.
     bindE (rp_read_ref repo r) (\<lambda>raw.
     case raw of None \<Rightarrow> Inl ''git-evidence-not-published''
     | Some raw \<Rightarrow>
       bindE (validate_object_id (rp_format repo) raw) (\<lambda>i.
       let (code, data) = rp_run repo [''cat-file'', ''-t'', i] in
       if code \<noteq> 0 then Inl ''git-evidence-verification-incomplete''
       else if strip data = ''commit'' then Inr (i, i)
       else if strip data \<noteq> ''tag'' then Inl ''git-evidence-invalid-commit''
       else
         let (code, data) = rp_run repo [''rev-parse'', ''--verify'', ''--quiet'', i @ ''^{commit}''] in
         if code \<noteq> 0 then Inl ''git-evidence-verification-incomplete''
         else bindE (validate_object_id (rp_format repo) (strip data)) (\<lambda>c. Inr (i, c)))))"

definition require_ancestor :: "git_repository \<Rightarrow> string \<Rightarrow> string \<Rightarrow> git_error + unit" where
  "require_ancestor repo end_commit observed =
     (let (code, _) = rp_run repo [''cat-file'', ''-e'', observed @ ''^{commit}''] in
      if code \<noteq> 0 then Inl ''git-evidence-verification-incomplete''
      else let (code, _) = rp_run repo [''merge-base'', ''--is-ancestor'', end_commit, observed] in
        if code = 0 then Inr ()
        else if code = 1 then Inl ''git-evidence-not-published''
        else Inl ''git-evidence-verification-incomplete'')"

definition selected_ref :: "git_policy \<Rightarrow> string option \<Rightarrow> git_error + string option" where
  "selected_ref policy publication_ref = (case publication_ref of
      None \<Rightarrow> if gp_allowed_refs policy \<noteq> [] then Inl ''git-evidence-publication-ref-required''
              else Inr None
    | Some r \<Rightarrow> bindE (validated_ref r) (\<lambda>r.
        if gp_allowed_refs policy \<noteq> [] \<and> \<not> ref_matches_allowlist r (gp_allowed_refs policy)
        then Inl ''git-evidence-publication-ref-denied'' else Inr (Some r)))"

definition verify_publication ::
  "(git_policy \<Rightarrow> string) \<Rightarrow> git_repository \<Rightarrow> string \<Rightarrow> git_policy option \<Rightarrow> string option \<Rightarrow>
   time \<Rightarrow> git_error + publication_receipt" where
  "verify_publication policy_digest repo captured_end policy publication_ref now =
     (case policy of None \<Rightarrow> Inl ''git-evidence-publication-policy-missing''
      | Some pol \<Rightarrow>
        bindE (validate_object_id (rp_format repo) captured_end) (\<lambda>end_commit.
        bindE (selected_ref pol publication_ref) (\<lambda>selected.
        bindE (case selected of
            None \<Rightarrow> Inr (end_commit, None)
          | Some r \<Rightarrow>
            bindE (resolve_publication_ref repo r) (\<lambda>(object_id, commit_id).
            bindE (validate_object_id (rp_format repo) commit_id) (\<lambda>observed.
            bindE (validate_object_id (rp_format repo) object_id) (\<lambda>ref_object_id.
            bindE (if observed \<noteq> end_commit then require_ancestor repo end_commit observed
                   else Inr ()) (\<lambda>_.
            Inr (observed, Some ref_object_id)))))) (\<lambda>(observed, ref_object_id).
        Inr \<lparr>pb_policy_digest = policy_digest pol, pb_publication_ref = selected,
             pb_ref_object_id = ref_object_id, pb_observed_commit = observed,
             pb_verified_at = now\<rparr>))))"

section \<open>The manifest a capture retains\<close>

definition MAX_COMMITS :: nat where "MAX_COMMITS = 512"
definition MAX_FILES :: nat where "MAX_FILES = 1024"
definition MAX_PATCH_BYTES :: nat where "MAX_PATCH_BYTES = 640 * 1024"

definition GIT_EVIDENCE_EVENT_KIND :: string where
  "GIT_EVIDENCE_EVENT_KIND = ''git-evidence-captured''"

definition GIT_EVIDENCE_MEDIA_TYPE :: string where
  "GIT_EVIDENCE_MEDIA_TYPE = ''application/vnd.flowgency.git-change+json''"

text \<open>The message of every code is fixed, so an error is its class and its code.\<close>

abbreviation evidence_error :: "error_class \<Rightarrow> string \<Rightarrow> ticket_error" where
  "evidence_error c code \<equiv> Raise c code"

abbreviation "untrusted \<equiv> evidence_error TicketEvidenceInvalid ''git-evidence-untrusted''"

text \<open>\<open>^[0-9a-f]{40}$|^[0-9a-f]{64}$\<close> and \<open>^[0-7]{6}$\<close>\<close>

definition is_object_id :: "string \<Rightarrow> bool" where
  "is_object_id s \<longleftrightarrow>
     dollar_match (\<lambda>t. length t = 40 \<and> list_all is_hex_lower t) s \<or>
     dollar_match (\<lambda>t. length t = 64 \<and> list_all is_hex_lower t) s"

definition is_mode :: "string \<Rightarrow> bool" where
  "is_mode s = dollar_match (\<lambda>t. length t = 6 \<and> list_all (char_in CHR ''0'' CHR ''7'') t) s"

definition requireDigest :: "string \<Rightarrow> ticket_error + unit" where
  "requireDigest s = ensure (is_digest s) valueError"

definition require_object_id :: "string \<Rightarrow> ticket_error + unit" where
  "require_object_id s = ensure (is_object_id s) valueError"

record capture_request =
  cq_transition_id :: string
  cq_field_id :: string
  cq_base_commit :: string
  cq_end_commit :: string
  cq_publication_ref :: "string option"

definition validate_capture_request :: "capture_request \<Rightarrow> ticket_error + capture_request" where
  "validate_capture_request q =
     bindE (ensure (cq_transition_id q \<noteq> [] \<and> cq_field_id q \<noteq> []) valueError) (\<lambda>_.
     bindE (require_object_id (cq_base_commit q)) (\<lambda>_.
     bindE (require_object_id (cq_end_commit q)) (\<lambda>_.
     bindE (ensure (length (cq_base_commit q) = length (cq_end_commit q)) valueError) (\<lambda>_.
     bindE (case cq_publication_ref q of None \<Rightarrow> Inr ()
            | Some r \<Rightarrow> bindE (validate_exact_ref r) (\<lambda>_. Inr ())) (\<lambda>_. Inr q)))))"

datatype change_status = Added | Modified | Deleted | Renamed | TypeChanged

record file_entry =
  ge_path :: string
  ge_old_path :: "string option"
  ge_status :: change_status
  ge_lines_added :: int
  ge_lines_removed :: int
  ge_binary :: bool
  ge_submodule :: bool
  ge_old_mode :: string
  ge_new_mode :: string
  ge_old_object_id :: string
  ge_new_object_id :: string

definition validate_entry :: "file_entry \<Rightarrow> ticket_error + unit" where
  "validate_entry e =
     bindE (ensure (ge_path e \<noteq> []) valueError) (\<lambda>_.
     bindE (ensure (0 \<le> ge_lines_added e \<and> 0 \<le> ge_lines_removed e) valueError) (\<lambda>_.
     bindE (iterE (\<lambda>m. ensure (is_mode m) valueError) [ge_old_mode e, ge_new_mode e]) (\<lambda>_.
     bindE (require_object_id (ge_old_object_id e)) (\<lambda>_.
     require_object_id (ge_new_object_id e)))))"

text \<open>Whether a recorded time has a time zone, with the time.\<close>

record git_manifest =
  gm_repository_id :: string
  gm_workspace_identity :: string
  gm_base_commit :: string
  gm_end_commit :: string
  gm_commit_ids :: "string list"
  gm_files :: "file_entry list"
  gm_patch_b64 :: string
  gm_patch_sha256 :: string
  gm_team_id :: string
  gm_workflow_id :: string
  gm_ticket_id :: string
  gm_binding_id :: string
  gm_agent_name :: string
  gm_job_id :: string
  gm_captured_at :: "bool \<times> time"
  gm_policy_digest :: string
  gm_policy_snapshot :: git_policy
  gm_publication :: publication_receipt
  gm_publication_aware :: bool

text \<open>Strict base64: groups of four characters of the alphabet, padding only at the end.\<close>

definition b64_value :: "char \<Rightarrow> nat option" where
  "b64_value c =
     (if char_in CHR ''A'' CHR ''Z'' c then Some (of_char c - 65)
      else if char_in CHR ''a'' CHR ''z'' c then Some (of_char c - 71)
      else if char_in CHR ''0'' CHR ''9'' c then Some (of_char c + 4)
      else if c = CHR ''+'' then Some 62
      else if c = CHR ''/'' then Some 63 else None)"

fun b64_decode :: "string \<Rightarrow> string option" where
  "b64_decode [] = Some []"
| "b64_decode (a # b # c # d # rest) =
     (case (b64_value a, b64_value b, b64_value c, b64_value d) of
        (Some w, Some x, Some y, Some z) \<Rightarrow>
          map_option (\<lambda>out. char_of (w * 4 + x div 16) # char_of (x mod 16 * 16 + y div 4) #
            char_of (y mod 4 * 64 + z) # out) (b64_decode rest)
      | (Some w, Some x, Some y, None) \<Rightarrow>
          if d = CHR ''='' \<and> rest = []
          then Some [char_of (w * 4 + x div 16), char_of (x mod 16 * 16 + y div 4)] else None
      | (Some w, Some x, None, None) \<Rightarrow>
          if c = CHR ''='' \<and> d = CHR ''='' \<and> rest = [] then Some [char_of (w * 4 + x div 16)] else None
      | _ \<Rightarrow> None)"
| "b64_decode _ = None"

text \<open>The digests of the standard library and the JSON library.\<close>

record digests =
  dg_policy :: "git_policy \<Rightarrow> string"
  dg_workspace :: "string \<Rightarrow> string"
  dg_bytes :: "string \<Rightarrow> string"
  dg_parse_manifest :: "string \<Rightarrow> git_manifest option"

definition validate_manifest :: "digests \<Rightarrow> git_manifest \<Rightarrow> ticket_error + git_manifest" where
  "validate_manifest dg m =
     bindE (validate_policy (gm_policy_snapshot m)) (\<lambda>_.
     bindE (iterE validate_entry (gm_files m)) (\<lambda>_.
     bindE (iterE requireDigest [gm_repository_id m, gm_workspace_identity m, gm_patch_sha256 m,
              gm_policy_digest m, gm_binding_id m]) (\<lambda>_.
     bindE (iterE require_object_id [gm_base_commit m, gm_end_commit m]) (\<lambda>_.
     bindE (ensure (length (gm_base_commit m) = length (gm_end_commit m)) valueError) (\<lambda>_.
     bindE (ensure (length (gm_commit_ids m) \<le> MAX_COMMITS) valueError) (\<lambda>_.
     bindE (ensure (distinct (gm_commit_ids m)) valueError) (\<lambda>_.
     bindE (iterE (\<lambda>c. bindE (require_object_id c) (\<lambda>_.
              ensure (length c = length (gm_end_commit m)) valueError)) (gm_commit_ids m)) (\<lambda>_.
     bindE (ensure (length (gm_files m) \<le> MAX_FILES) valueError) (\<lambda>_.
     bindE (ensure (gm_team_id m \<noteq> [] \<and> gm_workflow_id m \<noteq> [] \<and> gm_ticket_id m \<noteq> []) valueError) (\<lambda>_.
     bindE (ensure (gm_agent_name m \<noteq> [] \<and> gm_job_id m \<noteq> []) valueError) (\<lambda>_.
     bindE (ensure (fst (gm_captured_at m)) valueError) (\<lambda>_.
     bindE (ensure (gm_publication_aware m) valueError) (\<lambda>_.
     bindE (ensure (gm_policy_digest m = dg_policy dg (gm_policy_snapshot m)) valueError) (\<lambda>_.
     bindE (ensure (pb_policy_digest (gm_publication m) = gm_policy_digest m) valueError) (\<lambda>_.
     bindE (require_object_id (pb_observed_commit (gm_publication m))) (\<lambda>_.
     bindE (case pb_ref_object_id (gm_publication m) of None \<Rightarrow> Inr ()
            | Some i \<Rightarrow> require_object_id i) (\<lambda>_.
     bindE (case pb_publication_ref (gm_publication m) of None \<Rightarrow> Inr ()
            | Some r \<Rightarrow> bindE (validate_exact_ref r) (\<lambda>_. Inr ())) (\<lambda>_.
     case b64_decode (gm_patch_b64 m) of None \<Rightarrow> Inl valueError
     | Some patch \<Rightarrow>
         if length patch > MAX_PATCH_BYTES then Inl valueError
         else if dg_bytes dg patch \<noteq> gm_patch_sha256 m then Inl valueError
         else Inr m))))))))))))))))))"

section \<open>The receipt of a capture\<close>

record capture_receipt =
  gr_artifact_id :: string
  gr_repository_id :: string
  gr_workspace_identity :: string
  gr_policy_digest :: string
  gr_workflow_digest :: string
  gr_context_digest :: string
  gr_transition_id :: string
  gr_field_id :: string
  gr_agent_name :: string
  gr_job_id :: string

definition validate_receipt :: "capture_receipt \<Rightarrow> ticket_error + capture_receipt" where
  "validate_receipt r =
     bindE (iterE requireDigest [gr_artifact_id r, gr_repository_id r, gr_workspace_identity r,
              gr_policy_digest r, gr_workflow_digest r, gr_context_digest r]) (\<lambda>_.
     bindE (ensure (gr_transition_id r \<noteq> [] \<and> gr_field_id r \<noteq> []) valueError) (\<lambda>_.
     bindE (ensure (gr_agent_name r \<noteq> [] \<and> gr_job_id r \<noteq> []) valueError) (\<lambda>_. Inr r)))"

definition receipt_json :: "capture_receipt \<Rightarrow> json" where
  "receipt_json r = JObj
     [(''artifact_id'', JStr (gr_artifact_id r)), (''repository_id'', JStr (gr_repository_id r)),
      (''workspace_identity'', JStr (gr_workspace_identity r)),
      (''policy_digest'', JStr (gr_policy_digest r)),
      (''workflow_digest'', JStr (gr_workflow_digest r)),
      (''context_digest'', JStr (gr_context_digest r)),
      (''transition_id'', JStr (gr_transition_id r)), (''field_id'', JStr (gr_field_id r)),
      (''agent_name'', JStr (gr_agent_name r)), (''job_id'', JStr (gr_job_id r))]"

definition receipt_keys :: "string list" where
  "receipt_keys = [''artifact_id'', ''repository_id'', ''workspace_identity'', ''policy_digest'',
     ''workflow_digest'', ''context_digest'', ''transition_id'', ''field_id'', ''agent_name'', ''job_id'']"

definition string_at :: "(string \<times> json) list \<Rightarrow> string \<Rightarrow> ticket_error + string" where
  "string_at d k = (case map_of d k of Some (JStr s) \<Rightarrow> Inr s | _ \<Rightarrow> Inl valueError)"

text \<open>\<open>GitCaptureReceipt.model_validate(payload)\<close>: exactly these keys, all strict strings.\<close>

definition receipt_of_json :: "json \<Rightarrow> ticket_error + capture_receipt" where
  "receipt_of_json j = (case j of
      JObj d \<Rightarrow>
        bindE (ensure (set (keys d) \<subseteq> set receipt_keys) valueError) (\<lambda>_.
        bindE (string_at d ''artifact_id'') (\<lambda>a. bindE (string_at d ''repository_id'') (\<lambda>b.
        bindE (string_at d ''workspace_identity'') (\<lambda>c. bindE (string_at d ''policy_digest'') (\<lambda>e.
        bindE (string_at d ''workflow_digest'') (\<lambda>f. bindE (string_at d ''context_digest'') (\<lambda>g.
        bindE (string_at d ''transition_id'') (\<lambda>h. bindE (string_at d ''field_id'') (\<lambda>i.
        bindE (string_at d ''agent_name'') (\<lambda>k. bindE (string_at d ''job_id'') (\<lambda>l.
        validate_receipt \<lparr>gr_artifact_id = a, gr_repository_id = b, gr_workspace_identity = c,
          gr_policy_digest = e, gr_workflow_digest = f, gr_context_digest = g,
          gr_transition_id = h, gr_field_id = i, gr_agent_name = k, gr_job_id = l\<rparr>)))))))))))
    | _ \<Rightarrow> Inl valueError)"

section \<open>Trust\<close>

definition parse_manifest :: "digests \<Rightarrow> retained_artifact \<Rightarrow> ticket_error + git_manifest" where
  "parse_manifest dg a =
     (if at_media_type a \<noteq> GIT_EVIDENCE_MEDIA_TYPE then Inl untrusted
      else case dg_parse_manifest dg (at_content a) of
        None \<Rightarrow> Inl (evidence_error TicketEvidenceInvalid ''git-evidence-manifest-invalid'')
      | Some m \<Rightarrow> mapErr (\<lambda>_. evidence_error TicketEvidenceInvalid ''git-evidence-manifest-invalid'')
                   (validate_manifest dg m))"

text \<open>The payload of a capture event that names the artifact.\<close>

definition capture_payload :: "string \<Rightarrow> ticket_event \<Rightarrow> json option" where
  "capture_payload artifact_id e =
     (if te_kind e \<noteq> GIT_EVIDENCE_EVENT_KIND then None
      else case map_of (te_data e) ''capture'' of
        Some (JObj d) \<Rightarrow>
          if map_of d ''artifact_id'' = Some (JStr artifact_id) then Some (JObj d) else None
      | _ \<Rightarrow> None)"

definition capture_receipts ::
  "ticket_record \<Rightarrow> string \<Rightarrow> ticket_error + capture_receipt list" where
  "capture_receipts r artifact_id =
     mapE (\<lambda>j. mapErr (\<lambda>_. untrusted) (receipt_of_json j))
       (List.map_filter (capture_payload artifact_id) (tk_events r))"

definition captured_artifact_ids :: "ticket_record \<Rightarrow> string list" where
  "captured_artifact_ids r = remdups (List.map_filter (\<lambda>e.
     if te_kind e \<noteq> GIT_EVIDENCE_EVENT_KIND then None
     else case map_of (te_data e) ''capture'' of
       Some (JObj d) \<Rightarrow> (case map_of d ''artifact_id'' of
           Some (JStr i) \<Rightarrow> if i \<noteq> [] then Some i else None | _ \<Rightarrow> None)
     | _ \<Rightarrow> None) (tk_events r))"

definition receipt_matches :: "git_manifest \<Rightarrow> capture_receipt \<Rightarrow> bool" where
  "receipt_matches m r \<longleftrightarrow> gr_repository_id r = gm_repository_id m \<and>
     gr_workspace_identity r = gm_workspace_identity m \<and> gr_policy_digest r = gm_policy_digest m \<and>
     gr_agent_name r = gm_agent_name m \<and> gr_job_id r = gm_job_id m"

definition validate_git_artifact ::
  "digests \<Rightarrow> ticket_record \<Rightarrow> retained_artifact \<Rightarrow> string option \<Rightarrow> git_policy option \<Rightarrow>
   ticket_error + git_manifest" where
  "validate_git_artifact dg r a workspace policy =
     bindE (parse_manifest dg a) (\<lambda>m.
     bindE (capture_receipts r (at_digest a)) (\<lambda>receipts.
     if receipts = [] then Inl untrusted
     else if (case tk_ref r of None \<Rightarrow> False | Some ref \<Rightarrow>
         gm_team_id m \<noteq> rf_team_id ref \<or> gm_workflow_id m \<noteq> rf_workflow_id ref \<or>
         gm_binding_id m \<noteq> rf_binding_id ref \<or> gm_ticket_id m \<noteq> rf_ticket_id ref)
     then Inl (evidence_error TicketForbidden ''git-evidence-cross-ticket'')
     else if gm_ticket_id m \<noteq> tk_id r
     then Inl (evidence_error TicketForbidden ''git-evidence-cross-ticket'')
     else if \<not> list_ex (receipt_matches m) receipts then Inl untrusted
     else if (case workspace of None \<Rightarrow> False
         | Some w \<Rightarrow> gm_workspace_identity m \<noteq> dg_workspace dg w)
     then Inl (evidence_error TicketConflict ''git-evidence-workspace-changed'')
     else if (case policy of None \<Rightarrow> False | Some p \<Rightarrow> gm_policy_digest m \<noteq> dg_policy dg p)
     then Inl (evidence_error TicketConflict ''git-evidence-policy-changed'')
     else Inr m))"

section \<open>What a valid ref and a proven publication are\<close>

lemma starts_with_iff: "starts_with p s \<longleftrightarrow> (\<exists>t. s = p @ t)"
  by (metis append_eq_conv_conj append_take_drop_id starts_with_def)

lemma ends_with_iff: "ends_with p s \<longleftrightarrow> (\<exists>t. s = t @ p)"
  unfolding ends_with_def starts_with_iff by (metis rev_append rev_rev_ident)

lemma validate_ref_shape:
  assumes "validate_ref r = Inr u"
  shows "(\<exists>n. n \<noteq> [] \<and> (r = ''refs/heads/'' @ n \<or> r = ''refs/tags/'' @ n)) \<and>
    \<not> contains ''..'' r \<and> \<not> list_ex ref_control r \<and>
    (\<forall>w\<in>set (split_on CHR ''/'' r). w \<noteq> [] \<and> \<not> starts_with ''.'' w \<and> \<not> ends_with ''.lock'' w)"
proof -
  have comp: "w \<noteq> [] \<and> \<not> starts_with ''.'' w \<and> \<not> ends_with ''.lock'' w"
    if "validate_component w = Inr ()" for w
    using that by (auto simp: validate_component_def starts_with_iff ends_with_iff split: if_splits)
  from assms have "(\<exists>n. n \<noteq> [] \<and> (r = ''refs/heads/'' @ n \<or> r = ''refs/tags/'' @ n))"
    unfolding validate_ref_def
    by (auto simp: errE starts_with_iff split: if_splits)
  moreover from assms have "iterE validate_component (split_on CHR ''/'' r) = Inr ()"
    "\<not> contains ''..'' r" "\<not> list_ex ref_control r"
    unfolding validate_ref_def by (auto simp: bindE_eq_Inr ensure_eq_Inr)
  ultimately show ?thesis using comp by (auto simp: iterE_eq_Inr)
qed

lemma validate_exact_ref_Inr:
  "validate_exact_ref r = Inr x \<longleftrightarrow> x = r \<and> validate_ref r = Inr () \<and> CHR ''*'' \<notin> set r"
  by (auto simp: validate_exact_ref_def bindE_eq_Inr)

lemma validated_ref_Inr:
  "validated_ref r = Inr x \<Longrightarrow> x = r \<and> validate_exact_ref r = Inr r"
  by (auto simp: validated_ref_def validate_exact_ref_Inr split: sum.splits if_splits)

lemma ref_matches_allowlist_iff:
  "ref_matches_allowlist r allowed \<longleftrightarrow> (\<exists>pat\<in>set allowed.
     (\<exists>base rest. pat = base @ ''/*'' \<and> r = base @ ''/'' @ rest \<and> rest \<noteq> []) \<or>
     (\<not> ends_with ''/*'' pat \<and> r = pat))"
proof -
  have *: "(starts_with (butlast pat) r \<and> length r > length (butlast pat)) \<longleftrightarrow>
      (\<exists>base rest. pat = base @ ''/*'' \<and> r = base @ ''/'' @ rest \<and> rest \<noteq> [])"
    if "ends_with ''/*'' pat" for pat
    using that by (auto simp: ends_with_iff starts_with_iff butlast_append)
  have "ends_with ''/*'' (base @ ''/*'')" for base
    by (auto simp: ends_with_iff)
  then show ?thesis
    unfolding ref_matches_allowlist_def list_ex_iff Let_def using * by auto
qed

text \<open>A capture may name a publication ref only when the ref is exact and well formed, below
  \<open>refs/heads/\<close> or \<open>refs/tags/\<close> with no way out of it, and the policy's list, when there is one,
  names it or a prefix strictly above it; without a ref the policy must have no list.\<close>

theorem selected_ref_allowed:
  assumes "selected_ref pol q = Inr sel"
  shows "sel = q \<and> (q = None \<longrightarrow> gp_allowed_refs pol = []) \<and>
    (\<forall>r. q = Some r \<longrightarrow>
      (\<exists>n. n \<noteq> [] \<and> (r = ''refs/heads/'' @ n \<or> r = ''refs/tags/'' @ n)) \<and>
      \<not> contains ''..'' r \<and> CHR ''*'' \<notin> set r \<and>
      (gp_allowed_refs pol = [] \<or> r \<in> set (gp_allowed_refs pol) \<or>
       (\<exists>base rest. base @ ''/*'' \<in> set (gp_allowed_refs pol) \<and> r = base @ ''/'' @ rest \<and> rest \<noteq> [])))"
proof (cases q)
  case None
  with assms show ?thesis by (auto simp: selected_ref_def split: if_splits)
next
  case (Some r)
  with assms have v: "validated_ref r = Inr r" and sel: "sel = Some r"
    and allow: "gp_allowed_refs pol = [] \<or> ref_matches_allowlist r (gp_allowed_refs pol)"
    by (auto simp: selected_ref_def errE dest: validated_ref_Inr split: if_splits)
  from v have "validate_ref r = Inr ()" "CHR ''*'' \<notin> set r"
    using validated_ref_Inr validate_exact_ref_Inr by blast+
  with Some sel allow validate_ref_shape [of r "()"] show ?thesis
    by (simp add: ref_matches_allowlist_iff) blast
qed


section \<open>Only what the ticket captured is trusted\<close>

lemma receipt_json_roundtrip: "receipt_of_json (receipt_json r) = validate_receipt r"
  by (cases r) (simp add: receipt_of_json_def receipt_json_def receipt_keys_def string_at_def)

text \<open>What it takes to be evidence of a ticket.\<close>

definition captured_by :: "ticket_record \<Rightarrow> string \<Rightarrow> git_manifest \<Rightarrow> bool" where
  "captured_by r artifact_id m \<longleftrightarrow>
     (\<exists>e j x. e \<in> set (tk_events r) \<and> te_kind e = GIT_EVIDENCE_EVENT_KIND \<and>
        capture_payload artifact_id e = Some j \<and> receipt_of_json j = Inr x \<and> receipt_matches m x) \<and>
     (\<forall>e\<in>set (tk_events r). \<forall>j. capture_payload artifact_id e = Some j \<longrightarrow> isOk (receipt_of_json j))"

definition scoped_to :: "ticket_record \<Rightarrow> git_manifest \<Rightarrow> bool" where
  "scoped_to r m \<longleftrightarrow> gm_ticket_id m = tk_id r \<and>
     (\<forall>ref. tk_ref r = Some ref \<longrightarrow> gm_team_id m = rf_team_id ref \<and>
        gm_workflow_id m = rf_workflow_id ref \<and> gm_binding_id m = rf_binding_id ref \<and>
        gm_ticket_id m = rf_ticket_id ref)"

lemma list_all2_left: "list_all2 P xs ys \<Longrightarrow> \<forall>x\<in>set xs. \<exists>y\<in>set ys. P x y"
  by (induction rule: list_all2_induct) auto

lemma list_all2_right: "list_all2 P xs ys \<Longrightarrow> \<forall>y\<in>set ys. \<exists>x\<in>set xs. P x y"
  by (induction rule: list_all2_induct) auto

lemma capture_receipts_Inr:
  "capture_receipts r i = Inr xs \<longleftrightarrow>
     list_all2 (\<lambda>j x. receipt_of_json j = Inr x) (List.map_filter (capture_payload i) (tk_events r)) xs"
  by (simp add: capture_receipts_def mapE_eq_Inr mapErr_eq_Inr)

lemma captured_by_iff:
  assumes "capture_receipts r i = Inr xs"
  shows "captured_by r i m \<longleftrightarrow> list_ex (receipt_matches m) xs"
proof -
  let ?js = "List.map_filter (capture_payload i) (tk_events r)"
  have js: "j \<in> set ?js \<longleftrightarrow> (\<exists>e\<in>set (tk_events r). capture_payload i e = Some j)" for j
    by (force simp: List.map_filter_def image_iff)
  have kind: "te_kind e = GIT_EVIDENCE_EVENT_KIND" if "capture_payload i e = Some j" for e j
    using that by (auto simp: capture_payload_def split: if_splits)
  have l: "list_all2 (\<lambda>j x. receipt_of_json j = Inr x) ?js xs"
    using assms by (simp add: capture_receipts_Inr)
  have ok: "\<forall>j\<in>set ?js. \<exists>x\<in>set xs. receipt_of_json j = Inr x"
    using list_all2_left [OF l] by blast
  have origin: "\<forall>x\<in>set xs. \<exists>j\<in>set ?js. receipt_of_json j = Inr x"
    using list_all2_right [OF l] by blast
  show ?thesis
  proof
    assume "captured_by r i m"
    then obtain e j x where "e \<in> set (tk_events r)" "capture_payload i e = Some j"
      "receipt_of_json j = Inr x" "receipt_matches m x" by (auto simp: captured_by_def)
    with ok js show "list_ex (receipt_matches m) xs" by (metis list_ex_iff sum.inject(2))
  next
    assume "list_ex (receipt_matches m) xs"
    then obtain x where "x \<in> set xs" "receipt_matches m x" by (auto simp: list_ex_iff)
    with origin ok js kind show "captured_by r i m"
      unfolding captured_by_def by (metis isOk_Inr)
  qed
qed

lemma validated_captured:
  assumes "validate_git_artifact dg r a w p = Inr m"
  shows "parse_manifest dg a = Inr m \<and> captured_by r (at_digest a) m \<and> scoped_to r m"
proof -
  from assms obtain xs where parse: "parse_manifest dg a = Inr m"
    and xs: "capture_receipts r (at_digest a) = Inr xs" "list_ex (receipt_matches m) xs"
    and scope: "\<not> (case tk_ref r of None \<Rightarrow> False | Some ref \<Rightarrow>
         gm_team_id m \<noteq> rf_team_id ref \<or> gm_workflow_id m \<noteq> rf_workflow_id ref \<or>
         gm_binding_id m \<noteq> rf_binding_id ref \<or> gm_ticket_id m \<noteq> rf_ticket_id ref)"
      "gm_ticket_id m = tk_id r"
    unfolding validate_git_artifact_def by (auto simp: bindE_eq_Inr split: if_splits)
  from scope have "scoped_to r m" by (auto simp: scoped_to_def)
  with parse xs captured_by_iff [OF xs(1)] show ?thesis by simp
qed

text \<open>C15: An artifact is accepted as Git evidence of a ticket exactly when its manifest is valid, an
  event of the ticket's own history records the capture of exactly this artifact with the same
  identity, no such event is malformed, the manifest is scoped to this ticket, and the workspace
  and the policy are today's. Its media type, shape or field name is never enough.\<close>

theorem validate_git_artifact_iff:
  "validate_git_artifact dg r a (Some w) (Some p) = Inr m \<longleftrightarrow>
     parse_manifest dg a = Inr m \<and> captured_by r (at_digest a) m \<and> scoped_to r m \<and>
     gm_workspace_identity m = dg_workspace dg w \<and> gm_policy_digest m = dg_policy dg p"
proof (cases "capture_receipts r (at_digest a)")
  case (Inl e)
  then obtain j where "j \<in> set (List.map_filter (capture_payload (at_digest a)) (tk_events r))"
    "\<not> isOk (receipt_of_json j)"
    unfolding capture_receipts_def by (metis (no_types, lifting) isOk_Inl mapE_eq_Inl mapErr_eq_Inl)
  then have "\<not> captured_by r (at_digest a) m"
    by (auto simp: captured_by_def List.map_filter_def)
  with Inl show ?thesis by (auto simp: validate_git_artifact_def errE)
next
  case (Inr xs)
  have scope: "(case tk_ref r of None \<Rightarrow> False | Some ref \<Rightarrow>
         gm_team_id m \<noteq> rf_team_id ref \<or> gm_workflow_id m \<noteq> rf_workflow_id ref \<or>
         gm_binding_id m \<noteq> rf_binding_id ref \<or> gm_ticket_id m \<noteq> rf_ticket_id ref) \<or>
      gm_ticket_id m \<noteq> tk_id r \<longleftrightarrow> \<not> scoped_to r m"
    by (auto simp: scoped_to_def split: option.splits)
  show ?thesis
    using captured_by_iff [OF Inr, of m] Inr scope
    by (auto simp: validate_git_artifact_def bindE_eq_Inr split: if_splits)
qed

section \<open>A concrete repository\<close>

definition demo_policy :: git_policy where
  "demo_policy = \<lparr>gp_allowed_refs = [''refs/heads/release/*'']\<rparr>"

definition demo_release :: string where "demo_release = ''refs/heads/release/1''"

text \<open>Commit \<open>aaa...\<close> is an ancestor of \<open>bbb...\<close>, which the release branch holds.\<close>

definition demo_commit_a :: string where "demo_commit_a = replicate 40 CHR ''a''"
definition demo_commit_b :: string where "demo_commit_b = replicate 40 CHR ''b''"

definition demo_repository :: git_repository where
  "demo_repository = \<lparr>rp_format = SHA1,
     rp_read_ref = \<lambda>r. Inr (if r = demo_release then Some demo_commit_b else None),
     rp_run = \<lambda>args. if args = [''cat-file'', ''-t'', demo_commit_b] then (0, ''commit'' @ [newline])
       else (0, [])\<rparr>"

definition demo_publication :: publication_receipt where
  "demo_publication = \<lparr>pb_policy_digest = ''p'', pb_publication_ref = Some demo_release,
     pb_ref_object_id = Some demo_commit_b, pb_observed_commit = demo_commit_b, pb_verified_at = 7\<rparr>"

lemma demo_publication_run:
  "verify_publication (\<lambda>_. ''p'') demo_repository demo_commit_a (Some demo_policy)
     (Some demo_release) 7 = Inr demo_publication"
  by code_simp

theorem selected_ref_allowed_witness:
  "\<exists>base rest. base @ ''/*'' \<in> set (gp_allowed_refs demo_policy) \<and>
     demo_release = base @ ''/'' @ rest \<and> rest \<noteq> []"
proof -
  have "selected_ref demo_policy (Some demo_release) = Inr (Some demo_release)" by code_simp
  from selected_ref_allowed [OF this] show ?thesis
    by (simp add: demo_policy_def demo_release_def)
qed


end
