(* ===== verification/WorkflowConfig.thy ===== *)
theory WorkflowConfig
  imports WorkflowEditing WorkflowLibrary LocalStorage GitEvidence
begin

text \<open>
  Workflow instances in the configuration, \<^verbatim>\<open>flowgency/workflows/configuration.py\<close>, and the locks an
  operation runs under, \<^verbatim>\<open>flowgency/workflows/locking.py\<close> and \<open>revision_bound_team_operation\<close> of
  \<^verbatim>\<open>flowgency/jobs/store.py\<close>.

  The configuration file is seen through snapshots; an operation that loads it more than once
  takes one snapshot per load, since another process may have written it in between.
\<close>

section \<open>The configuration an operation reads\<close>

record workflow_instance =
  wi_name :: string
  wi_blueprint :: string
  wi_integration :: string
  wi_config :: "(string, json) dict"
  wi_generation :: int

record team_config =
  tc_path :: string
  tc_workspace_path :: string
  tc_agents :: "string list"
  tc_workflows :: "(string, workflow_instance) dict"
  tc_git :: "git_policy option"

record config_snapshot =
  cs_revision :: string
  cs_library :: "string option"
  cs_teams :: "(string, team_config) dict"

text \<open>The payload of a context digest; the last part is there when the team has a Git policy.\<close>

record context_payload =
  cp_binding_id :: string
  cp_blueprint_id :: string
  cp_library :: "string option"
  cp_generation :: int
  cp_git :: "(string \<times> string) option"

text \<open>Path normalization of the host, Python's \<open>str\<close> on a value, and the SHA-256 digests.\<close>

record identities =
  id_canon :: "string \<Rightarrow> string"
  id_norm :: "string \<Rightarrow> string"
  id_text :: "json \<Rightarrow> string"
  id_binding :: "string \<Rightarrow> (string, json) dict \<Rightarrow> string \<Rightarrow> string \<Rightarrow> string"
  id_context :: "context_payload \<Rightarrow> string"
  id_policy :: "git_policy \<Rightarrow> string"

abbreviation "keyError \<equiv> PyError ''KeyError''"
abbreviation "typeError \<equiv> PyError ''TypeError''"

definition dict_at :: "('k, 'v) dict \<Rightarrow> 'k \<Rightarrow> ticket_error + 'v" where
  "dict_at d k = (case map_of d k of None \<Rightarrow> Inl keyError | Some v \<Rightarrow> Inr v)"

section \<open>Bindings\<close>

definition canonical_config ::
  "identities \<Rightarrow> string \<Rightarrow> (string, json) dict \<Rightarrow> ticket_error + (string, json) dict" where
  "canonical_config ids integration config =
     (if integration = ''local'' then
        (case map_of config ''root'' of
           None \<Rightarrow> Inl valueError
         | Some JNull \<Rightarrow> Inl valueError
         | Some (JStr s) \<Rightarrow> Inr (AList.update ''root'' (JStr (id_canon ids s)) config)
         | Some _ \<Rightarrow> Inl typeError)
      else Inr config)"

record storage_binding =
  sb_integration :: string
  sb_config :: "(string, json) dict"
  sb_team_id :: string
  sb_workflow_id :: string
  sb_binding_id :: string

text \<open>A binding canonicalizes its configuration, and its id canonicalizes it again.\<close>

definition new_storage_binding ::
  "identities \<Rightarrow> string \<Rightarrow> (string, json) dict \<Rightarrow> string \<Rightarrow> string \<Rightarrow> ticket_error + storage_binding"
where
  "new_storage_binding ids integration config team workflow =
     bindE (canonical_config ids integration config) (\<lambda>c.
     bindE (canonical_config ids integration c) (\<lambda>c'.
     Inr \<lparr>sb_integration = integration, sb_config = c, sb_team_id = team, sb_workflow_id = workflow,
          sb_binding_id = id_binding ids integration c' team workflow\<rparr>))"

record workflow_binding =
  wb_team_id :: string
  wb_workflow_id :: string
  wb_blueprint_id :: string
  wb_storage :: storage_binding
  wb_context_digest :: string

definition context_digest ::
  "identities \<Rightarrow> storage_binding \<Rightarrow> string \<Rightarrow> string option \<Rightarrow> int \<Rightarrow> string \<Rightarrow> git_policy option \<Rightarrow> string"
where
  "context_digest ids storage blueprint_id library generation workspace git =
     id_context ids
       \<lparr>cp_binding_id = sb_binding_id storage, cp_blueprint_id = blueprint_id,
        cp_library = map_option (id_canon ids) library, cp_generation = generation,
        cp_git = map_option (\<lambda>p. (id_canon ids workspace, id_policy ids p)) git\<rparr>"

definition resolve_workflow_binding ::
  "identities \<Rightarrow> config_snapshot \<Rightarrow> string \<Rightarrow> string \<Rightarrow> ticket_error + workflow_binding" where
  "resolve_workflow_binding ids snapshot team_id workflow_id =
     bindE (dict_at (cs_teams snapshot) team_id) (\<lambda>team.
     bindE (dict_at (tc_workflows team) workflow_id) (\<lambda>workflow.
     bindE (new_storage_binding ids (wi_integration workflow) (wi_config workflow) team_id workflow_id)
       (\<lambda>storage.
     Inr \<lparr>wb_team_id = team_id, wb_workflow_id = workflow_id, wb_blueprint_id = wi_blueprint workflow,
          wb_storage = storage,
          wb_context_digest = context_digest ids storage (wi_blueprint workflow) (cs_library snapshot)
            (wi_generation workflow) (tc_workspace_path team) (tc_git team)\<rparr>)))"

section \<open>Patching an instance in the raw configuration\<close>

record instance_patch =
  ip_name :: string
  ip_blueprint :: string
  ip_integration :: string
  ip_config :: "(string, json) dict"

fun digits_value :: "int \<Rightarrow> bool \<Rightarrow> string \<Rightarrow> int option" where
  "digits_value acc ready [] = (if ready then Some acc else None)"
| "digits_value acc ready (c # cs) =
     (if char_in CHR ''0'' CHR ''9'' c then digits_value (acc * 10 + (of_char c - 48)) True cs
      else if c = CHR ''_'' \<and> ready then digits_value acc False cs
      else None)"

definition parse_int :: "string \<Rightarrow> int option" where
  "parse_int s = (case strip s of
      c # cs \<Rightarrow> if c = CHR ''-'' then map_option uminus (digits_value 0 False cs)
                else if c = CHR ''+'' then digits_value 0 False cs
                else digits_value 0 False (c # cs)
    | [] \<Rightarrow> None)"

text \<open>Python's \<open>int()\<close> on a loaded value.\<close>

fun py_int :: "json \<Rightarrow> ticket_error + int" where
  "py_int (JInt i) = Inr i"
| "py_int (JBool b) = Inr (if b then 1 else 0)"
| "py_int (JFloat (Finite q)) = Inr (if q < 0 then - floor (- q) else floor q)"
| "py_int (JFloat NaN) = Inl valueError"
| "py_int (JFloat _) = Inl (PyError ''OverflowError'')"
| "py_int (JStr s) = (case parse_int s of None \<Rightarrow> Inl valueError | Some i \<Rightarrow> Inr i)"
| "py_int _ = Inl typeError"

definition normalized_provider_config :: "identities \<Rightarrow> json \<Rightarrow> json \<Rightarrow> json" where
  "normalized_provider_config ids integration config = (case config of
      JObj d \<Rightarrow>
        if json_eq integration (JStr ''local'') \<and> map_of d ''root'' \<notin> {None, Some JNull}
        then JObj (AList.update ''root'' (JStr (id_norm ids (id_text ids (the (map_of d ''root''))))) d)
        else JObj d
    | j \<Rightarrow> j)"

text \<open>\<open>d.get(key, default)\<close>\<close>

definition get_or :: "json \<Rightarrow> (string, json) dict \<Rightarrow> string \<Rightarrow> json" where
  "get_or dflt d k = (case map_of d k of None \<Rightarrow> dflt | Some v \<Rightarrow> v)"

definition current_selection :: "identities \<Rightarrow> (string, json) dict \<Rightarrow> json \<times> json \<times> json" where
  "current_selection ids w = (get_or JNull w ''blueprint'', get_or JNull w ''integration'',
     normalized_provider_config ids (get_or JNull w ''integration'')
       (get_or (JObj []) w ''integration_config''))"

definition next_selection :: "identities \<Rightarrow> instance_patch \<Rightarrow> json \<times> json \<times> json" where
  "next_selection ids p = (JStr (ip_blueprint p), JStr (ip_integration p),
     normalized_provider_config ids (JStr (ip_integration p)) (JObj (ip_config p)))"

definition selection_eq :: "json \<times> json \<times> json \<Rightarrow> json \<times> json \<times> json \<Rightarrow> bool" where
  "selection_eq x y \<longleftrightarrow> json_eq (fst x) (fst y) \<and> json_eq (fst (snd x)) (fst (snd y)) \<and>
     json_eq (snd (snd x)) (snd (snd y))"

text \<open>The updated entry of the addressed instance.\<close>

definition patched_instance ::
  "identities \<Rightarrow> bool \<Rightarrow> instance_patch \<Rightarrow> (string, json) dict \<Rightarrow> ticket_error + (string, json) dict"
where
  "patched_instance ids creating p current =
     bindE (py_int (get_or (JInt 0) current ''context_generation'')) (\<lambda>g.
     let generation = (if \<not> creating \<and> \<not> selection_eq (current_selection ids current) (next_selection ids p)
                       then g + 1 else g) in
     Inr (dict_update current
       [(''name'', JStr (ip_name p)), (''blueprint'', JStr (ip_blueprint p)),
        (''integration'', JStr (ip_integration p)), (''integration_config'', JObj (ip_config p)),
        (''context_generation'', JInt generation)]))"

definition mapping :: "json \<Rightarrow> ticket_error + (string, json) dict" where
  "mapping j = (case j of JObj d \<Rightarrow> Inr d | _ \<Rightarrow> Inl typeError)"

text \<open>Any other value has no method \<open>get\<close>.\<close>

definition with_items :: "json \<Rightarrow> ticket_error + (string, json) dict" where
  "with_items j = (case j of JObj d \<Rightarrow> Inr d | _ \<Rightarrow> Inl (PyError ''AttributeError''))"

definition apply_instance_patch ::
  "identities \<Rightarrow> string \<Rightarrow> string \<Rightarrow> instance_patch \<Rightarrow> bool \<Rightarrow> (string, json) dict \<Rightarrow>
   ticket_error + (string, json) dict" where
  "apply_instance_patch ids team_id workflow_id p creating raw =
     bindE (mapping (get_or JNull raw ''teams'')) (\<lambda>teams.
     bindE (dict_at teams team_id) (\<lambda>t.
     bindE (mapping t) (\<lambda>team.
     bindE (mapping (get_or (JObj []) team ''workflows'')) (\<lambda>workflows.
     bindE (ensure (\<not> (creating \<and> has_key workflows workflow_id)) valueError) (\<lambda>_.
     bindE (ensure (creating \<or> has_key workflows workflow_id) keyError) (\<lambda>_.
     bindE (with_items (get_or (JObj []) workflows workflow_id)) (\<lambda>current.
     bindE (patched_instance ids creating p current) (\<lambda>entry.
     Inr (AList.update ''teams'' (JObj (AList.update team_id
            (JObj (AList.update ''workflows''
               (JObj (AList.update workflow_id (JObj entry) workflows)) team)) teams)) raw)))))))))"

section \<open>Locks\<close>

record lock_area =
  la_exists :: bool
  la_root_linked :: bool
  la_dir_linked :: bool
  la_linked_leaves :: "string list"

definition lock_leaf :: "string \<Rightarrow> string" where
  "lock_leaf i = i @ ''.lock''"

text \<open>The blueprints whose locks are taken, in the order they are taken.\<close>

definition blueprint_lock_paths ::
  "lock_area \<Rightarrow> string option \<Rightarrow> string list \<Rightarrow> ticket_error + string list" where
  "blueprint_lock_paths area library blueprint_ids =
     (if library = None \<or> blueprint_ids = [] then Inr []
      else bindE (ensure (la_exists area) (contractE ''missing-library'')) (\<lambda>_.
      bindE (ensure (\<not> la_root_linked area) (contractE ''unsafe-library'')) (\<lambda>_.
      bindE (ensure (\<not> la_dir_linked area) (contractE ''unsafe-library'')) (\<lambda>_.
      bindE (iterE (\<lambda>i. bindE (ensure (is_slug i) (contractE ''unsafe-blueprint'')) (\<lambda>_.
               ensure (i \<notin> set (la_linked_leaves area)) (contractE ''unsafe-blueprint'')))
             blueprint_ids) (\<lambda>_.
      Inr (sort (remdups (map lock_leaf blueprint_ids))))))))"

definition team_path_identity ::
  "config_snapshot \<Rightarrow> string list \<Rightarrow> ticket_error + (string \<times> string) list" where
  "team_path_identity snapshot ids =
     mapE (\<lambda>i. case map_of (cs_teams snapshot) i of None \<Rightarrow> Inl valueError
               | Some t \<Rightarrow> Inr (i, tc_path t)) ids"

definition revision_bound_team_operation ::
  "config_snapshot \<Rightarrow> config_snapshot \<Rightarrow> string list \<Rightarrow> string option \<Rightarrow> ticket_error + config_snapshot"
where
  "revision_bound_team_operation initial locked team_ids expected =
     (let relevant = sort (remdups team_ids) in
      bindE (team_path_identity initial relevant) (\<lambda>before.
      if cs_revision locked \<noteq> cs_revision initial then Inl ConfigConflict
      else bindE (team_path_identity locked relevant) (\<lambda>after.
      if after \<noteq> before then Inl ConfigConflict
      else if (case expected of None \<Rightarrow> False | Some e \<Rightarrow> cs_revision locked \<noteq> e)
      then Inl ConfigConflict else Inr locked)))"

definition workflow_operation ::
  "lock_area \<Rightarrow> config_snapshot \<Rightarrow> config_snapshot \<Rightarrow> string list \<Rightarrow> string list \<Rightarrow> string option \<Rightarrow>
   ticket_error + config_snapshot" where
  "workflow_operation area initial locked team_ids blueprint_ids expected =
     bindE (revision_bound_team_operation initial locked team_ids expected) (\<lambda>snapshot.
     bindE (blueprint_lock_paths area (cs_library snapshot) blueprint_ids) (\<lambda>_. Inr snapshot))"

section \<open>Publishing a blueprint\<close>

text \<open>The tickets a definition cannot interpret, one issue per reason.\<close>

definition record_issues :: "workflow_definition \<Rightarrow> ticket_record \<Rightarrow> (string \<times> string option) list" where
  "record_issues d r =
     (if tk_state_id r \<notin> set (map sd_id (wd_states d)) then [(tk_id r, None)] else []) @
     List.map_filter (\<lambda>(f, v). case map_of (field_kinds d) f of
         None \<Rightarrow> None
       | Some k \<Rightarrow> if v = VNone then None
                   else if \<not> kind_matches_value k v then Some (tk_id r, Some f) else None)
       (tk_field_values r)"

definition require_compatible ::
  "workflow_definition \<Rightarrow> ticket_record list \<Rightarrow> ticket_error + unit" where
  "require_compatible d records =
     ensure (concat (map (record_issues d) records) = []) (PyError ''ValidationFailed'')"

definition teams_using :: "config_snapshot \<Rightarrow> string \<Rightarrow> string list" where
  "teams_using snapshot i = sort (remdups (map fst
     (filter (\<lambda>(t, team). list_ex (\<lambda>(w, inst). wi_blueprint inst = i) (tc_workflows team))
       (cs_teams snapshot))))"

definition bindings_using ::
  "identities \<Rightarrow> config_snapshot \<Rightarrow> string \<Rightarrow> ticket_error + workflow_binding list" where
  "bindings_using ids snapshot i =
     mapE (\<lambda>(t, w). resolve_workflow_binding ids snapshot t w)
       (concat (map (\<lambda>(t, team). map (\<lambda>(w, inst). (t, w))
          (filter (\<lambda>(w, inst). wi_blueprint inst = i) (tc_workflows team))) (cs_teams snapshot)))"

text \<open>The storage a binding names, as its provider and what lies below its root.\<close>

type_synonym stores = "storage_binding \<Rightarrow> provider \<times> storage"

definition list_binding :: "stores \<Rightarrow> workflow_binding \<Rightarrow> ticket_error + ticket_record list" where
  "list_binding stores b =
     (let (p, st) = stores (wb_storage b) in list_tickets p st (wb_team_id b) (wb_workflow_id b))"

definition check_binding ::
  "stores \<Rightarrow> workflow_definition \<Rightarrow> workflow_binding \<Rightarrow> ticket_error + unit" where
  "check_binding stores d b =
     bindE (mapErr (\<lambda>e. case e of Raise StorageUnavailable c \<Rightarrow> PyError ''ValidationFailed'' | e \<Rightarrow> e)
       (list_binding stores b)) (require_compatible d)"

text \<open>
  The four loads of the configuration: to choose the teams, before and after taking their locks,
  and just before the write.
\<close>

definition save_blueprint ::
  "identities \<Rightarrow> library_tools \<Rightarrow> stores \<Rightarrow> lock_area \<Rightarrow>
   config_snapshot \<Rightarrow> config_snapshot \<Rightarrow> config_snapshot \<Rightarrow> config_snapshot \<Rightarrow>
   string \<Rightarrow> string \<Rightarrow> string \<Rightarrow> workflow_definition \<Rightarrow> (library, ticket_error, workflow_snapshot) op"
where
  "save_blueprint ids lt stores area chosen initial locked current expected_revision i
     expected_digest definition =
     bindS (liftS (workflow_operation area initial locked (teams_using chosen i) [i]
                     (Some expected_revision))) (\<lambda>snapshot.
     bindS (liftS (ensure (cs_library snapshot \<noteq> None) ConfigConflict)) (\<lambda>_.
     bindS (readS (\<lambda>lb. inspect_blueprint lt lb i)) (\<lambda>source.
     bindS (liftS (ensure (ws_digest source = expected_digest) ConfigConflict)) (\<lambda>_.
     bindS (liftS (mapErr Contract (model_validate definition))) (\<lambda>candidate.
     bindS (liftS (bindings_using ids snapshot i)) (\<lambda>bindings.
     bindS (liftS (iterE (check_binding stores candidate) bindings)) (\<lambda>_.
     bindS (liftS (ensure (cs_revision current = cs_revision snapshot) ConfigConflict)) (\<lambda>_.
     write_candidate lt i expected_digest candidate))))))))"

definition create_blueprint ::
  "library_tools \<Rightarrow> lock_area \<Rightarrow> config_snapshot \<Rightarrow> config_snapshot \<Rightarrow> config_snapshot \<Rightarrow>
   string \<Rightarrow> string \<Rightarrow> workflow_definition \<Rightarrow> (library, ticket_error, workflow_snapshot) op" where
  "create_blueprint lt area initial locked current expected_revision i definition =
     bindS (liftS (workflow_operation area initial locked [] [i] (Some expected_revision))) (\<lambda>snapshot.
     bindS (liftS (ensure (cs_library snapshot \<noteq> None) ConfigConflict)) (\<lambda>_.
     bindS (liftS (ensure (cs_revision current = cs_revision snapshot) ConfigConflict)) (\<lambda>_.
     create_candidate lt i definition)))"

section \<open>Patching touches one instance\<close>

lemma dict_at_Inr [errE]: "dict_at d k = Inr v \<longleftrightarrow> map_of d k = Some v"
  by (auto simp: dict_at_def split: option.splits)

lemma mapping_Inr [errE]: "mapping j = Inr d \<longleftrightarrow> j = JObj d"
  by (auto simp: mapping_def split: json.splits)

lemma with_items_Inr [errE]: "with_items j = Inr d \<longleftrightarrow> j = JObj d"
  by (auto simp: with_items_def split: json.splits)

lemma wf_dict_literal:
  "wf_dict [(''name'', a), (''blueprint'', b), (''integration'', c), (''integration_config'', d),
     (''context_generation'', e)]"
  by simp

lemma patched_instance_Inr:
  assumes "patched_instance ids creating p current = Inr entry"
  obtains g where "py_int (get_or (JInt 0) current ''context_generation'') = Inr g"
    "map_of entry ''name'' = Some (JStr (ip_name p))"
    "map_of entry ''blueprint'' = Some (JStr (ip_blueprint p))"
    "map_of entry ''integration'' = Some (JStr (ip_integration p))"
    "map_of entry ''integration_config'' = Some (JObj (ip_config p))"
    "map_of entry ''context_generation'' = Some (JInt (if creating \<or>
        selection_eq (current_selection ids current) (next_selection ids p) then g else g + 1))"
    "\<And>k. k \<notin> {''name'', ''blueprint'', ''integration'', ''integration_config'',
        ''context_generation''} \<Longrightarrow> map_of entry k = map_of current k"
  using assms
  by (auto simp: patched_instance_def Let_def bindE_eq_Inr map_of_dict_update [OF wf_dict_literal])

text \<open>Saving a workflow instance changes that instance only. Every other key of the
  configuration, of the teams, of the team, of its workflows and of the instance itself keeps its
  value; a new instance may not exist yet and an update needs one; and the context generation,
  which fences stale versions, advances by one exactly when an update changes the blueprint, the
  integration or its normalized settings: a rename keeps it.\<close>

theorem instance_patch_frame:
  assumes "apply_instance_patch ids team_id workflow_id p creating raw = Inr raw'"
  shows "\<exists>teams team workflows entry teams' team' workflows' g.
    map_of raw ''teams'' = Some (JObj teams) \<and> map_of teams team_id = Some (JObj team) \<and>
    get_or (JObj []) team ''workflows'' = JObj workflows \<and>
    (creating \<longleftrightarrow> map_of workflows workflow_id = None) \<and>
    (\<forall>k. map_of raw' k = (if k = ''teams'' then Some (JObj teams') else map_of raw k)) \<and>
    (\<forall>t. map_of teams' t = (if t = team_id then Some (JObj team') else map_of teams t)) \<and>
    (\<forall>k. map_of team' k = (if k = ''workflows'' then Some (JObj workflows') else map_of team k)) \<and>
    (\<forall>w. map_of workflows' w = (if w = workflow_id then Some (JObj entry) else map_of workflows w)) \<and>
    map_of entry ''name'' = Some (JStr (ip_name p)) \<and>
    (\<forall>current. map_of workflows workflow_id = Some (JObj current) \<longrightarrow>
       py_int (get_or (JInt 0) current ''context_generation'') = Inr g \<and>
       map_of entry ''context_generation'' = Some (JInt (if
         selection_eq (current_selection ids current) (next_selection ids p) then g else g + 1)) \<and>
       (\<forall>k. k \<notin> {''name'', ''blueprint'', ''integration'', ''integration_config'',
          ''context_generation''} \<longrightarrow> map_of entry k = map_of current k))"
proof -
  obtain teams team workflows current entry where
    teams: "get_or JNull raw ''teams'' = JObj teams"
    and raw: "map_of teams team_id = Some (JObj team)"
      "get_or (JObj []) team ''workflows'' = JObj workflows"
    and key: "\<not> (creating \<and> has_key workflows workflow_id)" "creating \<or> has_key workflows workflow_id"
    and cur: "get_or (JObj []) workflows workflow_id = JObj current"
    and entry: "patched_instance ids creating p current = Inr entry"
    and out: "raw' = AList.update ''teams'' (JObj (AList.update team_id
            (JObj (AList.update ''workflows''
               (JObj (AList.update workflow_id (JObj entry) workflows)) team)) teams)) raw"
    using assms
    unfolding apply_instance_patch_def bindE_eq_Inr mapping_Inr with_items_Inr dict_at_Inr ensure_eq_Inr
    by clarify (rule that; (assumption | simp))
  let ?workflows' = "AList.update workflow_id (JObj entry) workflows"
  let ?team' = "AList.update ''workflows'' (JObj ?workflows') team"
  let ?teams' = "AList.update team_id (JObj ?team') teams"
  have root: "map_of raw ''teams'' = Some (JObj teams)"
    using teams by (auto simp: get_or_def split: option.splits)
  have new: "creating \<longleftrightarrow> map_of workflows workflow_id = None"
    using key by (auto simp: has_key_map_of)
  have lookups: "\<forall>k. map_of raw' k = (if k = ''teams'' then Some (JObj ?teams') else map_of raw k)"
    "\<forall>t. map_of ?teams' t = (if t = team_id then Some (JObj ?team') else map_of teams t)"
    "\<forall>k. map_of ?team' k = (if k = ''workflows'' then Some (JObj ?workflows') else map_of team k)"
    "\<forall>w. map_of ?workflows' w = (if w = workflow_id then Some (JObj entry) else map_of workflows w)"
    by (simp_all add: out update_conv')
  obtain g where g: "py_int (get_or (JInt 0) current ''context_generation'') = Inr g"
    "map_of entry ''name'' = Some (JStr (ip_name p))"
    "map_of entry ''context_generation'' = Some (JInt (if creating \<or>
        selection_eq (current_selection ids current) (next_selection ids p) then g else g + 1))"
    "\<And>k. k \<notin> {''name'', ''blueprint'', ''integration'', ''integration_config'',
        ''context_generation''} \<Longrightarrow> map_of entry k = map_of current k"
    using entry by (rule patched_instance_Inr) blast
  have same: "current = c \<and> \<not> creating" if "map_of workflows workflow_id = Some (JObj c)" for c
    using that cur new by (simp add: get_or_def)
  have updated: "\<forall>current. map_of workflows workflow_id = Some (JObj current) \<longrightarrow>
       py_int (get_or (JInt 0) current ''context_generation'') = Inr g \<and>
       map_of entry ''context_generation'' = Some (JInt (if
         selection_eq (current_selection ids current) (next_selection ids p) then g else g + 1)) \<and>
       (\<forall>k. k \<notin> {''name'', ''blueprint'', ''integration'', ''integration_config'',
          ''context_generation''} \<longrightarrow> map_of entry k = map_of current k)"
  proof (intro allI impI)
    fix c
    assume "map_of workflows workflow_id = Some (JObj c)"
    with same [of c] have "c = current" "\<not> creating" by simp_all
    with g show "py_int (get_or (JInt 0) c ''context_generation'') = Inr g \<and>
       map_of entry ''context_generation'' = Some (JInt (if
         selection_eq (current_selection ids c) (next_selection ids p) then g else g + 1)) \<and>
       (\<forall>k. k \<notin> {''name'', ''blueprint'', ''integration'', ''integration_config'',
          ''context_generation''} \<longrightarrow> map_of entry k = map_of c k)" by simp
  qed
  show ?thesis
    using root raw new lookups g(2) updated by (intro exI conjI) assumption+
qed

section \<open>Locks are taken in one order\<close>

lemma blueprint_lock_paths_Inr:
  assumes "blueprint_lock_paths area library is = Inr xs"
  shows "sorted xs \<and> distinct xs \<and> (library \<noteq> None \<longrightarrow> set xs = lock_leaf ` set is) \<and>
    (library \<noteq> None \<longrightarrow> (\<forall>i\<in>set is. is_slug i))"
  using assms by (auto simp: blueprint_lock_paths_def errE split: if_splits)

text \<open>A process of an operation that takes \<open>locks\<close> in order has taken the first \<open>n\<close> and waits for
  the next.\<close>

definition waits_for :: "string list \<times> nat \<Rightarrow> string list \<times> nat \<Rightarrow> bool" where
  "waits_for a b \<longleftrightarrow> snd a < length (fst a) \<and> fst a ! snd a \<in> set (take (snd b) (fst b))"

text \<open>C36: Operations on any blueprints never deadlock on their locks: in no set of operations that
  each took some of their locks does every one wait for a lock another one holds.\<close>

theorem blueprint_locks_deadlock_free:
  assumes "finite ops" and "ops \<noteq> {}"
    and "\<forall>a\<in>ops. \<exists>area library is. blueprint_lock_paths area library is = Inr (fst a)"
  shows "\<exists>a\<in>ops. \<forall>b\<in>ops. \<not> waits_for a b"
proof (rule ccontr)
  assume "\<not> ?thesis"
  then have wait: "\<forall>a\<in>ops. \<exists>b\<in>ops. waits_for a b" by blast
  let ?next = "\<lambda>a. fst a ! snd a"
  have "finite (?next ` ops)" "?next ` ops \<noteq> {}" using assms by auto
  then have "Max (?next ` ops) \<in> ?next ` ops" "\<forall>b\<in>ops. ?next b \<le> Max (?next ` ops)" by simp_all
  then obtain a where a: "a \<in> ops" "\<forall>b\<in>ops. ?next b \<le> ?next a" by auto
  from wait a obtain b where b: "b \<in> ops" "waits_for a b" by blast
  from wait b obtain c where "waits_for b c" by blast
  then have len: "snd b < length (fst b)" by (simp add: waits_for_def)
  from assms(3) b(1) blueprint_lock_paths_Inr have "sorted_wrt (<) (fst b)"
    by (metis strict_sorted_iff)
  with len have "\<forall>x\<in>set (take (snd b) (fst b)). x < ?next b"
    by (auto simp: in_set_conv_nth sorted_wrt_iff_nth_less)
  with b(2) have "?next a < ?next b" by (simp add: waits_for_def)
  with a(2) b(1) show False by force
qed

section \<open>A published blueprint interprets every stored ticket\<close>

definition interpretable :: "workflow_definition \<Rightarrow> ticket_record \<Rightarrow> bool" where
  "interpretable d r \<longleftrightarrow> tk_state_id r \<in> set (map sd_id (wd_states d)) \<and>
     (\<forall>(f, v)\<in>set (tk_field_values r). v \<noteq> VNone \<longrightarrow>
        (\<forall>k. map_of (field_kinds d) f = Some k \<longrightarrow> kind_matches_value k v))"

lemma map_filter_Nil: "List.map_filter f xs = [] \<longleftrightarrow> (\<forall>x\<in>set xs. f x = None)"
  by (auto simp: List.map_filter_def filter_empty_conv)

lemma record_issues_Nil: "record_issues d r = [] \<longleftrightarrow> interpretable d r"
  by (auto simp: record_issues_def interpretable_def map_filter_Nil split: option.splits if_splits)

lemma require_compatible_iff:
  "require_compatible d rs = Inr u \<longleftrightarrow> (\<forall>r\<in>set rs. interpretable d r)"
  by (auto simp: require_compatible_def ensure_eq_Inr record_issues_Nil)

lemma field_kind_of_mem:
  assumes "distinct (map fd_id (wd_fields d))"
  shows "field_kind_of d f = Some k \<longleftrightarrow> (\<exists>x\<in>set (wd_fields d). fd_id x = f \<and> fd_type x = k)"
proof -
  let ?m = "map (\<lambda>x. (fd_id x, fd_type x)) (wd_fields d)"
  have "distinct (keys ?m)" using assms by (simp add: comp_def)
  then have "map_of ?m f = Some k \<longleftrightarrow> (f, k) \<in> set ?m" by (rule map_of_eq_Some_iff)
  moreover have "field_kind_of d f = map_of ?m f" by (simp add: field_kind_of_def map_of_map_find)
  ultimately show ?thesis by auto
qed

text \<open>An edit of the blueprint editor never strands a ticket: when every stored ticket can be
  interpreted under the blueprint, it can be interpreted under the edited one, provided the ids
  of new fields are fresh for the tickets' values.\<close>

theorem edits_stay_compatible:
  assumes "edit_step d d'" and "wf_definition d" and "require_compatible d rs = Inr ()"
    and "\<forall>r\<in>set rs. \<forall>f\<in>set (keys (tk_field_values r)). field_kind_of d f = None \<longrightarrow> field_kind_of d' f = None"
  shows "require_compatible d' rs = Inr ()"
proof -
  have ext: "extends d d'" and inst': "wf_definition d'"
    using assms(1,2) edit_step_extends edit_step_wf by blast+
  have dist: "distinct (map fd_id (wd_fields d))" "distinct (map fd_id (wd_fields d'))"
    using assms(2) inst' by (auto simp: wf_definition_def)
  have kinds: "field_kind_of d' f = Some k" if "field_kind_of d f = Some k" for f k
  proof -
    from that obtain x where x: "x \<in> set (wd_fields d)" "fd_id x = f" "fd_type x = k"
      unfolding field_kind_of_mem [OF dist(1)] by blast
    with ext have "field_signature x \<in> field_signature ` set (wd_fields d')"
      unfolding extends_def by blast
    then obtain y where "y \<in> set (wd_fields d')" "field_signature y = field_signature x" by auto
    with x show ?thesis
      unfolding field_kind_of_mem [OF dist(2)] by (auto simp: field_signature_def)
  qed
  have "interpretable d' r" if "r \<in> set rs" "interpretable d r" for r
  proof -
    have "tk_state_id r \<in> set (map sd_id (wd_states d'))"
      using that(2) ext by (auto simp: interpretable_def extends_def)
    moreover have "kind_matches_value k v"
      if v: "(f, v) \<in> set (tk_field_values r)" "v \<noteq> VNone" "map_of (field_kinds d') f = Some k" for f v k
    proof -
      from v(1) have "f \<in> set (keys (tk_field_values r))" by force
      with v(3) assms(4) \<open>r \<in> set rs\<close> obtain k' where "field_kind_of d f = Some k'"
        unfolding field_kinds_map_of [OF dist(2)] by fastforce
      moreover from this kinds v(3) have "k' = k"
        unfolding field_kinds_map_of [OF dist(2)] by fastforce
      ultimately show ?thesis
        using \<open>interpretable d r\<close> v(1,2) unfolding interpretable_def field_kinds_map_of [OF dist(1)] by blast
    qed
    ultimately show ?thesis by (auto simp: interpretable_def)
  qed
  with assms(3) show ?thesis by (simp add: require_compatible_iff)
qed

lemma bindings_using_mem:
  assumes "bindings_using ids snapshot i = Inr bs"
    and "(t, team) \<in> set (cs_teams snapshot)" "(w, inst) \<in> set (tc_workflows team)" "wi_blueprint inst = i"
  shows "\<exists>b\<in>set bs. resolve_workflow_binding ids snapshot t w = Inr b"
proof -
  let ?xs = "concat (map (\<lambda>(t, team). map (\<lambda>(w, inst). (t, w))
          (filter (\<lambda>(w, inst). wi_blueprint inst = i) (tc_workflows team))) (cs_teams snapshot))"
  have "list_all2 (\<lambda>(t, w) b. resolve_workflow_binding ids snapshot t w = Inr b) ?xs bs"
    using assms(1) by (simp add: bindings_using_def mapE_eq_Inr case_prod_unfold)
  from list_all2_left [OF this] have "\<forall>p\<in>set ?xs. \<exists>b\<in>set bs.
      resolve_workflow_binding ids snapshot (fst p) (snd p) = Inr b"
    by (auto simp: case_prod_unfold)
  moreover have "(t, w) \<in> set ?xs" using assms(2-4) by force
  ultimately show ?thesis by fastforce
qed

lemma resolve_scope:
  "resolve_workflow_binding ids snapshot t w = Inr b \<Longrightarrow> wb_team_id b = t \<and> wb_workflow_id b = w"
  by (auto simp: resolve_workflow_binding_def errE)

lemma workflow_operation_Inr:
  "workflow_operation area initial locked ts bs expected = Inr s \<Longrightarrow>
     s = locked \<and> (\<forall>e. expected = Some e \<longrightarrow> cs_revision locked = e)"
  by (auto simp: workflow_operation_def revision_bound_team_operation_def Let_def errE
      split: if_splits option.splits)

text \<open>C8: A blueprint is published only when the expected configuration and source are current and
  every ticket on every board that uses the blueprint can be read and is interpretable under the
  new definition: its state is declared and each value of a declared field has the declared type.
  When the operation is refused, the library is unchanged.\<close>

theorem save_blueprint_sound:
  assumes "save_blueprint ids lt stores area chosen initial locked current expected i dig d lb = (lb', out)"
  shows "(\<forall>e. out = Inl e \<longrightarrow> lb' = lb) \<and>
    (\<forall>s. out = Inr s \<longrightarrow> ws_definition s = d \<and> wf_definition d \<and> wd_id d = i \<and>
       cs_revision locked = expected \<and> cs_revision current = expected \<and>
       (\<exists>source. inspect_blueprint lt lb i = Inr source \<and> ws_digest source = dig) \<and>
       (\<forall>t team w inst. (t, team) \<in> set (cs_teams locked) \<and> (w, inst) \<in> set (tc_workflows team) \<and>
          wi_blueprint inst = i \<longrightarrow>
          (\<exists>b rs. resolve_workflow_binding ids locked t w = Inr b \<and> list_binding stores b = Inr rs \<and>
             (\<forall>r\<in>set rs. interpretable d r))))"
proof (cases out)
  case (Inl e)
  with assms have "save_blueprint ids lt stores area chosen initial locked current expected i dig d lb
      = (lb', Inl e)" by simp
  then have "lb' = lb" unfolding save_blueprint_def
    by (elim bindS_readE) (auto dest: write_candidate_Inl)
  with Inl show ?thesis by simp
next
  case (Inr s)
  with assms have run: "save_blueprint ids lt stores area chosen initial locked current expected i dig d lb
      = (lb', Inr s)" by simp
  from run obtain bs source where
    op: "workflow_operation area initial locked (teams_using chosen i) [i] (Some expected) = Inr locked"
    and src: "inspect_blueprint lt lb i = Inr source" "ws_digest source = dig"
    and bs: "bindings_using ids locked i = Inr bs" "\<forall>b\<in>set bs. check_binding stores d b = Inr ()"
    and rev: "cs_revision current = cs_revision locked"
    and w: "write_candidate lt i dig d lb = (lb', Inr s)"
    unfolding save_blueprint_def
    by (elim bindS_readE)
      (auto simp: errE model_validate_wf dest!: workflow_operation_Inr)
  have boards: "\<exists>b rs. resolve_workflow_binding ids locked t w = Inr b \<and> list_binding stores b = Inr rs \<and>
             (\<forall>r\<in>set rs. interpretable d r)"
    if "(t, team) \<in> set (cs_teams locked)" "(w, inst) \<in> set (tc_workflows team)" "wi_blueprint inst = i"
    for t team w inst
  proof -
    from bindings_using_mem [OF bs(1) that] obtain b where
      b: "b \<in> set bs" "resolve_workflow_binding ids locked t w = Inr b" by blast
    with bs(2) have "check_binding stores d b = Inr ()" by blast
    then obtain rs where "list_binding stores b = Inr rs" "require_compatible d rs = Inr ()"
      by (auto simp: check_binding_def errE)
    with b(2) show ?thesis by (auto simp: require_compatible_iff)
  qed
  from w have "ws_definition s = d \<and> wf_definition d \<and> wd_id d = i"
    by (rule write_candidate_Inr) simp
  with Inr op src rev boards workflow_operation_Inr [OF op] show ?thesis by blast
qed

section \<open>A concrete configuration\<close>

definition demo_ids :: identities where
  "demo_ids = \<lparr>id_canon = \<lambda>s. s, id_norm = \<lambda>s. s, id_text = \<lambda>j. case j of JStr s \<Rightarrow> s | _ \<Rightarrow> [],
     id_binding = \<lambda>_ _ _ _. ''b'', id_context = \<lambda>c. cp_blueprint_id c, id_policy = \<lambda>_. ''p''\<rparr>"

definition demo_instance :: workflow_instance where
  "demo_instance = \<lparr>wi_name = ''Work'', wi_blueprint = wd_id demo_workflow, wi_integration = ''local'',
     wi_config = [(''root'', JStr ''tickets'')], wi_generation = 0\<rparr>"

definition demo_team :: team_config where
  "demo_team = \<lparr>tc_path = ''team'', tc_workspace_path = ''ws'', tc_agents = [''ann'', ''bob''],
     tc_workflows = [(''w'', demo_instance)], tc_git = None\<rparr>"

definition demo_config :: config_snapshot where
  "demo_config = \<lparr>cs_revision = ''r1'', cs_library = Some ''lib'', cs_teams = [(''t'', demo_team)]\<rparr>"

definition demo_raw :: "(string, json) dict" where
  "demo_raw = [(''schema_version'', JInt 1), (''teams'', JObj [(''t'', JObj [(''workflows'',
     JObj [(''w'', JObj [(''blueprint'', JStr ''old''), (''color'', JStr ''red''),
       (''context_generation'', JInt 4)])])])])]"

definition demo_patch :: instance_patch where
  "demo_patch = \<lparr>ip_name = ''Work'', ip_blueprint = ''new'', ip_integration = ''local'',
     ip_config = [(''root'', JStr ''tickets'')]\<rparr>"

theorem instance_patch_frame_witness:
  "\<exists>raw'. apply_instance_patch demo_ids ''t'' ''w'' demo_patch False demo_raw = Inr raw' \<and>
     map_of raw' ''schema_version'' = map_of demo_raw ''schema_version''"
proof -
  have "isOk (apply_instance_patch demo_ids ''t'' ''w'' demo_patch False demo_raw)" by code_simp
  then obtain raw' where r: "apply_instance_patch demo_ids ''t'' ''w'' demo_patch False demo_raw = Inr raw'"
    by (auto simp: isOk_iff)
  from instance_patch_frame [OF r] have "map_of raw' ''schema_version'' = map_of demo_raw ''schema_version''"
    by fastforce
  with r show ?thesis by blast
qed

definition demo_area :: lock_area where
  "demo_area = \<lparr>la_exists = True, la_root_linked = False, la_dir_linked = False, la_linked_leaves = []\<rparr>"

theorem blueprint_locks_deadlock_free_witness:
  "\<exists>a\<in>{([''a.lock'', ''b.lock''], 1), ([''b.lock''], 0)}.
     \<forall>b\<in>{([''a.lock'', ''b.lock''], 1), ([''b.lock''], 0)}. \<not> waits_for a b"
proof (rule blueprint_locks_deadlock_free)
  have "blueprint_lock_paths demo_area (Some ''lib'') [''b'', ''a''] = Inr [''a.lock'', ''b.lock'']"
    "blueprint_lock_paths demo_area (Some ''lib'') [''b''] = Inr [''b.lock'']" by code_simp+
  then show "\<forall>a\<in>{([''a.lock'', ''b.lock''], 1), ([''b.lock''], 0)}.
      \<exists>area library is. blueprint_lock_paths area library is = Inr (fst a)" by fastforce
qed simp_all

lemma demo_listed: "list_tickets demo_provider demo_storage ''t'' ''w'' = Inr [demo_ticket]"
proof -
  have "board_tickets demo_storage ''t'' ''w'' = [''a-1'']" "ref_for demo_provider ''t'' ''w'' ''a-1'' = demo_ref"
    "require_safe_ref demo_storage ''t'' ''w'' ''placeholder'' = Inr ()" "require_root demo_storage = Inr ()"
    by code_simp+
  then show ?thesis by (simp add: list_tickets_def demo_current)
qed

lemma demo_saved: "save_blueprint demo_ids demo_tools (\<lambda>_. (demo_provider, demo_storage)) demo_area
    demo_config demo_config demo_config demo_config ''r1'' (wd_id demo_workflow) ''old'' demo_workflow
    demo_library = (demo_published, Inr \<lparr>ws_definition = demo_workflow, ws_digest = ''new''\<rparr>)"
proof -
  have op: "workflow_operation demo_area demo_config demo_config
      (teams_using demo_config (wd_id demo_workflow)) [wd_id demo_workflow] (Some ''r1'') = Inr demo_config"
    by code_simp
  have "blueprint_dir (wd_id demo_workflow) = Inr ()" by code_simp
  then have src: "inspect_blueprint demo_tools demo_library (wd_id demo_workflow) =
      Inr \<lparr>ws_definition = demo_workflow, ws_digest = ''old''\<rparr>"
    by (simp add: inspect_blueprint_def read_source_def guard_no_reparse_def demo_library_def
        source_at_def demo_tools_def checkSourceSize_short validate_source_def demo_valid)
  obtain b where b: "bindings_using demo_ids demo_config (wd_id demo_workflow) = Inr [b]"
    "wb_team_id b = ''t''" "wb_workflow_id b = ''w''"
    by (simp add: bindings_using_def demo_config_def demo_team_def demo_instance_def
        resolve_workflow_binding_def dict_at_def new_storage_binding_def canonical_config_def)
  have "require_compatible demo_workflow [demo_ticket] = Inr ()" by code_simp
  then have "iterE (check_binding (\<lambda>_. (demo_provider, demo_storage)) demo_workflow) [b] = Inr ()"
    by (simp add: check_binding_def list_binding_def b demo_listed)
  with op src b show ?thesis
    by (simp add: save_blueprint_def demo_valid demo_publish) (simp add: demo_config_def demo_publish)
qed

theorem save_blueprint_sound_witness:
  "ws_digest \<lparr>ws_definition = demo_workflow, ws_digest = ''new''\<rparr> = ''new'' \<and> wf_definition demo_workflow \<and>
   (\<exists>b rs. resolve_workflow_binding demo_ids demo_config ''t'' ''w'' = Inr b \<and>
      list_binding (\<lambda>_. (demo_provider, demo_storage)) b = Inr rs \<and> (\<forall>r\<in>set rs. interpretable demo_workflow r))"
proof -
  have "(''t'', demo_team) \<in> set (cs_teams demo_config)" "(''w'', demo_instance) \<in> set (tc_workflows demo_team)"
    "wi_blueprint demo_instance = wd_id demo_workflow"
    by (simp_all add: demo_config_def demo_team_def demo_instance_def)
  with save_blueprint_sound [OF demo_saved] show ?thesis by fastforce
qed

theorem edits_stay_compatible_witness: "require_compatible demo_two [demo_ticket\<lparr>tk_state_id := ''st-2''\<rparr>] = Inr ()"
proof (rule edits_stay_compatible [OF demo_step demo_start_wf])
  show "require_compatible demo_start [demo_ticket\<lparr>tk_state_id := ''st-2''\<rparr>] = Inr ()" by code_simp
qed (simp add: demo_ticket_def)

end
