(* ===== verification/TicketService.thy ===== *)
theory TicketService
  imports WorkflowConfig
begin

text \<open>
  The ticket service, \<^verbatim>\<open>flowgency/tickets/service.py\<close> and \<^verbatim>\<open>flowgency/tickets/transitions.py\<close>: every
  command of users and agents on tickets. A mutation checks the actor, resolves the board under
  the locks, fences the caller's version, and then computes the candidate record inside the
  storage's \<open>apply\<close>, which re-checks the contract.

  The state is the storage the board is bound to. What a call sees of the rest of the world is a
  \<open>moment\<close>: the configuration at each of its loads, the library, the clock and the drawn id.
\<close>

section \<open>What a call sees\<close>

record service =
  sv_ids :: identities
  sv_tools :: library_tools
  sv_digests :: digests
  sv_provider :: "storage_binding \<Rightarrow> provider"
  sv_valid_agent :: "agent_context \<Rightarrow> bool"
  sv_isoformat :: "time \<Rightarrow> string"
  sv_uuid5 :: "string \<Rightarrow> json \<Rightarrow> string"

text \<open>
  \<open>mo_initial\<close> is loaded to choose the blueprint lock, \<open>mo_before\<close> and \<open>mo_locked\<close> before and under
  the team's lock, \<open>mo_current\<close> under the ticket's lock; the two libraries are the files below each
  library root at the time of \<open>mo_locked\<close> and of \<open>mo_current\<close>.
\<close>

record moment =
  mo_initial :: config_snapshot
  mo_before :: config_snapshot
  mo_locked :: config_snapshot
  mo_current :: config_snapshot
  mo_area :: lock_area
  mo_libraries :: "string \<Rightarrow> library"
  mo_libraries_now :: "string \<Rightarrow> library"
  mo_now :: time
  mo_stored_at :: time
  mo_event_id :: string

fun actor_team :: "ticket_actor \<Rightarrow> string" where
  "actor_team (Agent c) = cx_team_id c"
| "actor_team (User c) = uc_team_id c"

fun actor_name :: "ticket_actor \<Rightarrow> string" where
  "actor_name (Agent c) = cx_agent_name c"
| "actor_name (User c) = uc_actor_name c"

section \<open>Guards\<close>

definition require_active_owner :: "ticket_record \<Rightarrow> agent_context \<Rightarrow> ticket_error + unit" where
  "require_active_owner r actor =
     (if tk_assignee r \<noteq> Some (cx_agent_name actor)
      then Inl (Raise TicketForbidden ''assigned-elsewhere'')
      else case tk_active_run r of
        None \<Rightarrow> Inl (Raise TicketForbidden ''not-working'')
      | Some run \<Rightarrow>
          if (run_job_id run, run_session_id run) \<noteq> (cx_job_id actor, cx_session_id actor)
          then Inl (Raise TicketForbidden ''not-working'') else Inr ())"

definition latest_assignment_event_id :: "ticket_record \<Rightarrow> string" where
  "latest_assignment_event_id r =
     (case find (\<lambda>e. te_kind e = ''assigned'') (rev (tk_events r)) of
        None \<Rightarrow> [] | Some e \<Rightarrow> te_id e)"

definition validate_actor :: "service \<Rightarrow> ticket_actor \<Rightarrow> ticket_error + unit" where
  "validate_actor sv actor = (case actor of
      Agent c \<Rightarrow> ensure (sv_valid_agent sv c) (Raise TicketForbidden ''invalid-agent-context'')
    | User c \<Rightarrow> Inr ())"

definition require_team_access :: "ticket_actor \<Rightarrow> string \<Rightarrow> ticket_error + unit" where
  "require_team_access actor team_id =
     ensure (actor_team actor = team_id) (Raise TicketForbidden ''wrong-team'')"

definition require_configured_agent :: "config_snapshot \<Rightarrow> ticket_actor \<Rightarrow> ticket_error + unit" where
  "require_configured_agent snapshot actor = (case actor of
      User c \<Rightarrow> Inr ()
    | Agent c \<Rightarrow> bindE (dict_at (cs_teams snapshot) (cx_team_id c)) (\<lambda>team.
        ensure (cx_agent_name c \<in> set (tc_agents team)) (Raise TicketForbidden ''unknown-agent'')))"

definition resolve_binding ::
  "service \<Rightarrow> config_snapshot \<Rightarrow> string \<Rightarrow> string \<Rightarrow> ticket_error + workflow_binding" where
  "resolve_binding sv snapshot team_id workflow_id =
     mapErr (\<lambda>e. if e = keyError then Raise WorkflowUnavailable ''unknown-workflow'' else e)
       (resolve_workflow_binding (sv_ids sv) snapshot team_id workflow_id)"

definition resolve_definition ::
  "service \<Rightarrow> (string \<Rightarrow> library) \<Rightarrow> workflow_binding \<Rightarrow> config_snapshot \<Rightarrow>
   ticket_error + workflow_snapshot" where
  "resolve_definition sv libraries binding snapshot = (case cs_library snapshot of
      None \<Rightarrow> Inl (Raise WorkflowUnavailable ''unavailable-workflow'')
    | Some folder \<Rightarrow> mapErr (\<lambda>_. Raise WorkflowUnavailable ''unavailable-workflow'')
        (inspect_blueprint (sv_tools sv) (libraries folder) (wb_blueprint_id binding)))"

definition bindings_match :: "workflow_binding \<Rightarrow> workflow_binding \<Rightarrow> bool" where
  "bindings_match expected current \<longleftrightarrow>
     sb_binding_id (wb_storage current) = sb_binding_id (wb_storage expected) \<and>
     wb_context_digest current = wb_context_digest expected \<and>
     wb_blueprint_id current = wb_blueprint_id expected"

definition require_current_contract ::
  "service \<Rightarrow> moment \<Rightarrow> workflow_binding \<Rightarrow> string \<Rightarrow> string option \<Rightarrow> ticket_error + unit" where
  "require_current_contract sv mo binding expected_revision expected_digest =
     (let current = mo_current mo in
      bindE (resolve_binding sv current (wb_team_id binding) (wb_workflow_id binding)) (\<lambda>now.
      if cs_revision current \<noteq> expected_revision \<and> \<not> bindings_match binding now then Inl staleTicket
      else if wb_blueprint_id now \<noteq> wb_blueprint_id binding then Inl staleTicket
      else case expected_digest of None \<Rightarrow> Inr ()
      | Some digest \<Rightarrow>
          bindE (resolve_definition sv (mo_libraries_now mo) now current) (\<lambda>s.
          if wd_id (ws_definition s) \<noteq> wb_blueprint_id binding then Inl staleTicket
          else if ws_digest s \<noteq> digest then Inl staleTicket
          else Inr ())))"

definition require_current_version :: "workflow_binding \<Rightarrow> ticket_version \<Rightarrow> ticket_error + unit" where
  "require_current_version binding v =
     bindE (ensure (sb_binding_id (wb_storage binding) = rf_binding_id (tv_ref v)) staleTicket) (\<lambda>_.
     ensure (wb_context_digest binding = tv_context_digest v) staleTicket)"

definition is_git_field :: "workflow_definition \<Rightarrow> string \<Rightarrow> bool" where
  "is_git_field d f = (case wd_field d f of Inl _ \<Rightarrow> False
     | Inr x \<Rightarrow> fd_artifact_format x = Some GitChange)"

definition validate_field_values ::
  "workflow_definition \<Rightarrow> (string, field_value) dict \<Rightarrow> ticket_error + unit" where
  "validate_field_values d values = iterE (\<lambda>(f, v). case map_of (field_kinds d) f of
      None \<Rightarrow> Inl (Raise TicketConflict ''unknown-field'')
    | Some k \<Rightarrow> if v \<noteq> VNone \<and> \<not> kind_matches_value k v
               then Inl (Raise TicketConflict ''invalid-field-value'') else Inr ()) values"

text \<open>Every value of a Git field must be evidence this ticket captured.\<close>

definition require_trusted_git_value ::
  "service \<Rightarrow> provider \<Rightarrow> storage \<Rightarrow> ticket_record \<Rightarrow> workflow_definition \<Rightarrow> team_config \<Rightarrow>
   string \<times> field_value \<Rightarrow> ticket_error + unit" where
  "require_trusted_git_value sv p st r d team = (\<lambda>(f, v).
     if v = VNone \<or> \<not> is_git_field d f then Inr ()
     else case v of
       VArtifact a \<Rightarrow>
         if ar_kind a \<noteq> ArtifactId then Inl untrusted
         else (case tk_ref r of None \<Rightarrow> Inl (Raise TicketConflict ''unbound-record'')
           | Some ref \<Rightarrow>
             (case tc_git team of
                None \<Rightarrow> Inl (evidence_error TicketConflict ''git-evidence-publication-policy-missing'')
              | Some policy \<Rightarrow>
                  bindE (read_artifact p st ref (ar_value a)) (\<lambda>artifact.
                  bindE (validate_git_artifact (sv_digests sv) r artifact
                           (Some (tc_workspace_path team)) (Some policy)) (\<lambda>_. Inr ()))))
     | _ \<Rightarrow> Inl untrusted)"

definition require_trusted_git_values ::
  "service \<Rightarrow> provider \<Rightarrow> storage \<Rightarrow> ticket_record \<Rightarrow> workflow_definition \<Rightarrow>
   (string, field_value) dict \<Rightarrow> config_snapshot \<Rightarrow> workflow_binding \<Rightarrow> ticket_error + unit" where
  "require_trusted_git_values sv p st r d values snapshot binding =
     bindE (dict_at (cs_teams snapshot) (wb_team_id binding)) (\<lambda>team.
     iterE (require_trusted_git_value sv p st r d team) values)"

section \<open>Events and provenance\<close>

definition service_event ::
  "string \<Rightarrow> ticket_actor \<Rightarrow> string \<Rightarrow> string \<Rightarrow> time \<Rightarrow> ticket_event" where
  "service_event kind actor summary event_id now =
     \<lparr>te_id = event_id, te_kind = kind, te_actor = actor_name actor, te_summary = summary,
      te_data = (case actor of Agent c \<Rightarrow> [(''job_id'', JStr (cx_job_id c))] | User _ \<Rightarrow> []),
      te_at = Some now\<rparr>"

definition stamp_field_provenance ::
  "ticket_actor \<Rightarrow> (string, field_value) dict \<Rightarrow> string \<Rightarrow> time \<Rightarrow> (string, field_provenance) dict" where
  "stamp_field_provenance actor values event_id now = dict_of_keys (\<lambda>_.
     (case actor of
        User c \<Rightarrow> \<lparr>pv_actor_kind = UserKind, pv_actor_name = uc_actor_name c, pv_job_id = None,
                  pv_event_id = event_id, pv_recorded_at = now\<rparr>
      | Agent c \<Rightarrow> \<lparr>pv_actor_kind = AgentKind, pv_actor_name = cx_agent_name c,
                   pv_job_id = Some (cx_job_id c), pv_event_id = event_id, pv_recorded_at = now\<rparr>))
     (keys values)"

definition add_event :: "ticket_event \<Rightarrow> ticket_record \<Rightarrow> ticket_record" where
  "add_event e r = r\<lparr>tk_events := tk_events r @ [e]\<rparr>"

definition transition_event ::
  "ticket_record \<Rightarrow> evaluated_transition \<Rightarrow> agent_context \<Rightarrow> ticket_event" where
  "transition_event r e actor =
     (let name = ts_name (ev_transition_snapshot e) in
      \<lparr>te_id = [], te_kind = ''transitioned'', te_actor = cx_agent_name actor,
       te_summary = ''Transition '' @ name @ '' accepted'',
       te_data = dict_update (evaluated_json e)
         [(''transition_id'', JStr (ts_id (ev_transition_snapshot e))),
          (''transition_name'', JStr name),
          (''source_state_id'', JStr (tk_state_id r)),
          (''destination_state_id'', JStr (ev_destination_state_id e)),
          (''job_id'', JStr (cx_job_id actor)),
          (''session_id'', JStr (cx_session_id actor))],
       te_at = None\<rparr>)"

definition report_event :: "ticket_report \<Rightarrow> agent_context \<Rightarrow> ticket_event" where
  "report_event report actor =
     \<lparr>te_id = [], te_kind = ''reported'', te_actor = cx_agent_name actor,
      te_summary = tr_message report,
      te_data =
        [(''message'', JStr (tr_message report)),
         (''assessments'', JList (map (\<lambda>a. JObj
            [(''criterion_id'', JStr (ca_criterion_id a)), (''satisfied'', JBool (ca_satisfied a)),
             (''reasoning'', JStr (ca_reasoning a)),
             (''supporting_fields'', JList (map JStr (ca_supporting_fields a)))])
            (tr_assessments report))),
         (''job_id'', JStr (cx_job_id actor)), (''session_id'', JStr (cx_session_id actor))],
      te_at = None\<rparr>"

section \<open>Mutations of the record\<close>

definition assign_record ::
  "config_snapshot \<Rightarrow> ticket_record \<Rightarrow> string option \<Rightarrow> ticket_event \<Rightarrow> ticket_error + ticket_record"
where
  "assign_record snapshot r assignee e =
     (if tk_active_run r \<noteq> None then Inl (Raise TicketConflict ''already-working'')
      else bindE (case assignee of
          None \<Rightarrow> Inr ()
        | Some name \<Rightarrow> (case tk_ref r of None \<Rightarrow> Inl (PyError ''AttributeError'')
            | Some ref \<Rightarrow> bindE (dict_at (cs_teams snapshot) (rf_team_id ref)) (\<lambda>team.
                ensure (name \<in> set (tc_agents team)) (Raise TicketForbidden ''unknown-agent'')))) (\<lambda>_.
      Inr (add_event e (r\<lparr>tk_assignee := assignee\<rparr>))))"

definition start_work_record ::
  "ticket_record \<Rightarrow> agent_context \<Rightarrow> time \<Rightarrow> ticket_event \<Rightarrow> ticket_error + ticket_record" where
  "start_work_record r actor now e =
     (if tk_assignee r \<notin> {None, Some (cx_agent_name actor)}
      then Inl (Raise TicketForbidden ''assigned-elsewhere'')
      else bindE (case tk_pending_run r of
          None \<Rightarrow> Inr ()
        | Some pending \<Rightarrow> ensure (\<not> (rv_job_id pending \<noteq> cx_job_id actor
              \<or> rv_assignee pending \<noteq> cx_agent_name actor
              \<or> rv_assignment_event_id pending \<noteq> latest_assignment_event_id r))
            (Raise TicketConflict ''already-queued'')) (\<lambda>_.
      bindE (case tk_active_run r of
          None \<Rightarrow> Inr ()
        | Some run \<Rightarrow> ensure ((run_job_id run, run_session_id run) = (cx_job_id actor, cx_session_id actor))
            (Raise TicketConflict ''already-working'')) (\<lambda>_.
      Inr (add_event e (r\<lparr>tk_assignee := Some (cx_agent_name actor), tk_pending_run := None,
        tk_active_run := Some \<lparr>run_job_id = cx_job_id actor, run_session_id = cx_session_id actor,
          run_started_at = now\<rparr>\<rparr>)))))"

definition end_work_record ::
  "ticket_record \<Rightarrow> agent_context \<Rightarrow> ticket_event \<Rightarrow> ticket_error + ticket_record" where
  "end_work_record r actor e =
     bindE (require_active_owner r actor) (\<lambda>_. Inr (add_event e (r\<lparr>tk_active_run := None\<rparr>)))"

definition sign_off_record ::
  "ticket_record \<Rightarrow> agent_context \<Rightarrow> ticket_event \<Rightarrow> ticket_error + ticket_record" where
  "sign_off_record r actor e =
     bindE (require_active_owner r actor) (\<lambda>_.
     Inr (add_event e (r\<lparr>tk_assignee := None, tk_active_run := None\<rparr>)))"

definition require_agent_ownership :: "ticket_record \<Rightarrow> ticket_actor \<Rightarrow> ticket_error + unit" where
  "require_agent_ownership r actor = (case actor of
      User _ \<Rightarrow> Inr () | Agent c \<Rightarrow> require_active_owner r c)"

definition update_record ::
  "service \<Rightarrow> provider \<Rightarrow> storage \<Rightarrow> ticket_record \<Rightarrow> workflow_definition \<Rightarrow> ticket_actor \<Rightarrow>
   ticket_patch \<Rightarrow> time \<Rightarrow> string \<Rightarrow> ticket_event \<Rightarrow> config_snapshot \<Rightarrow> workflow_binding \<Rightarrow>
   ticket_error + ticket_record" where
  "update_record sv p st r d actor patch now event_id e snapshot binding =
     bindE (require_agent_ownership r actor) (\<lambda>_.
     bindE (case tp_field_values patch of
         None \<Rightarrow> Inr (tk_field_values r, tk_field_provenance r)
       | Some values \<Rightarrow>
           bindE (validate_field_values d values) (\<lambda>_.
           bindE (require_trusted_git_values sv p st r d values snapshot binding) (\<lambda>_.
           Inr (dict_update (tk_field_values r) values,
                dict_update (tk_field_provenance r)
                  (stamp_field_provenance actor values event_id now))))) (\<lambda>(values, provenance).
     Inr (add_event e (r\<lparr>
       tk_title := (case tp_title patch of None \<Rightarrow> tk_title r | Some t \<Rightarrow> t),
       tk_description := (case tp_description patch of None \<Rightarrow> tk_description r | Some t \<Rightarrow> t),
       tk_field_values := values, tk_field_provenance := provenance\<rparr>))))"

text \<open>The events with what the service adds to them.\<close>

definition accepted_event ::
  "service \<Rightarrow> ticket_record \<Rightarrow> workflow_definition \<Rightarrow> evaluated_transition \<Rightarrow> agent_context \<Rightarrow>
   state_definition \<Rightarrow> state_definition \<Rightarrow> time \<Rightarrow> string \<Rightarrow> ticket_operation \<Rightarrow> ticket_version \<Rightarrow>
   workflow_binding \<Rightarrow> ticket_event" where
  "accepted_event sv r d ev actor source destination now event_id op version binding =
     (let base = transition_event r ev actor in
      base\<lparr>te_id := event_id, te_at := Some now, te_data := dict_update (te_data base)
        [(''source_state_name'', JStr (sd_name source)),
         (''destination_state_name'', JStr (sd_name destination)),
         (''blueprint_id'', JStr (wd_id d)), (''blueprint_name'', JStr (wd_name d)),
         (''workflow_digest'', JStr (tv_workflow_digest version)),
         (''context_digest'', JStr (tv_context_digest version)),
         (''binding_id'', JStr (sb_binding_id (wb_storage binding))),
         (''operation_id'', JStr (op_id op)),
         (''recorded_at'', JStr (sv_isoformat sv now))]\<rparr>)"

definition reported_event ::
  "service \<Rightarrow> ticket_record \<Rightarrow> state_definition \<Rightarrow> agent_context \<Rightarrow> ticket_report \<Rightarrow> time \<Rightarrow> string \<Rightarrow>
   ticket_operation \<Rightarrow> ticket_version \<Rightarrow> ticket_event" where
  "reported_event sv r state actor report now event_id op version =
     (let base = report_event report actor in
      base\<lparr>te_id := event_id, te_at := Some now, te_data := dict_update (te_data base)
        [(''state_id'', JStr (tk_state_id r)), (''state_name'', JStr (sd_name state)),
         (''workflow_digest'', JStr (tv_workflow_digest version)),
         (''context_digest'', JStr (tv_context_digest version)),
         (''binding_id'', JStr (rf_binding_id (tv_ref version))),
         (''operation_id'', JStr (op_id op)),
         (''recorded_at'', JStr (sv_isoformat sv now))]\<rparr>)"

lemma event_fields [simp]:
  "te_kind (accepted_event sv r d ev c s1 s2 now i op v b) = ''transitioned''"
  "te_actor (accepted_event sv r d ev c s1 s2 now i op v b) = cx_agent_name c"
  "te_id (accepted_event sv r d ev c s1 s2 now i op v b) = i"
  "te_kind (reported_event sv r s1 c rep now i op v) = ''reported''"
  "te_actor (reported_event sv r s1 c rep now i op v) = cx_agent_name c"
  by (simp_all add: accepted_event_def reported_event_def transition_event_def report_event_def Let_def)

definition transition_record ::
  "service \<Rightarrow> provider \<Rightarrow> storage \<Rightarrow> ticket_record \<Rightarrow> workflow_definition \<Rightarrow> agent_context \<Rightarrow>
   transition_request \<Rightarrow> time \<Rightarrow> string \<Rightarrow> ticket_operation \<Rightarrow> ticket_version \<Rightarrow> workflow_binding \<Rightarrow>
   config_snapshot \<Rightarrow> ticket_error + ticket_record" where
  "transition_record sv p st r d actor request now event_id op version binding snapshot =
     bindE (require_active_owner r actor) (\<lambda>_.
     bindE (mapErr Contract (evaluate_transition d (tq_transition_id request) (tk_state_id r)
              (tk_field_values r) (tq_inputs request) (tq_outputs request) (tq_assessments request))) (\<lambda>ev.
     case tk_ref r of None \<Rightarrow> Inl (Raise TicketConflict ''unbound-record'')
     | Some ref \<Rightarrow>
     bindE (require_trusted_git_values sv p st r d
              (dict_update (ev_effective_inputs ev) (ev_effective_outputs ev)) snapshot binding) (\<lambda>_.
     bindE (iterE (\<lambda>a. bindE (read_artifact p st ref (ar_value a)) (\<lambda>_. Inr ()))
              (iter_internal_artifact_refs [ev_effective_inputs ev, ev_effective_outputs ev])) (\<lambda>_.
     bindE (mapErr Contract (wd_state d (tk_state_id r))) (\<lambda>source.
     bindE (mapErr Contract (wd_state d (ev_destination_state_id ev))) (\<lambda>destination.
     Inr (add_event (accepted_event sv r d ev actor source destination now event_id op version binding) (r\<lparr>
       tk_state_id := ev_destination_state_id ev,
       tk_field_values := dict_update (tk_field_values r) (ev_effective_outputs ev),
       tk_field_provenance := dict_update (tk_field_provenance r)
         (stamp_field_provenance (Agent actor) (ev_effective_outputs ev) event_id now)\<rparr>))))))))"

definition report_record ::
  "service \<Rightarrow> ticket_record \<Rightarrow> workflow_definition \<Rightarrow> agent_context \<Rightarrow> ticket_report \<Rightarrow> time \<Rightarrow>
   string \<Rightarrow> ticket_operation \<Rightarrow> ticket_version \<Rightarrow> ticket_error + ticket_record" where
  "report_record sv r d actor report now event_id op version =
     bindE (require_active_owner r actor) (\<lambda>_.
     bindE (mapErr Contract (wd_state d (tk_state_id r))) (\<lambda>state.
     Inr (add_event (reported_event sv r state actor report now event_id op version) r)))"

section \<open>Commands\<close>

text \<open>A mutation reads the storage and computes the candidate record, or raises.\<close>

type_synonym mutation =
  "storage \<Rightarrow> ticket_record \<Rightarrow> workflow_definition \<Rightarrow> time \<Rightarrow> string \<Rightarrow> config_snapshot \<Rightarrow>
   workflow_binding \<Rightarrow> ticket_error + ticket_record"

definition mutate_current_record ::
  "service \<Rightarrow> moment \<Rightarrow> mutation \<Rightarrow> ticket_record \<Rightarrow> workflow_definition \<Rightarrow> config_snapshot \<Rightarrow>
   workflow_binding \<Rightarrow> string \<Rightarrow> (storage, ticket_error, ticket_record) op" where
  "mutate_current_record sv mo mutation r d snapshot binding digest =
     bindS (liftS (require_current_contract sv mo binding (cs_revision snapshot) (Some digest))) (\<lambda>_.
     readS (\<lambda>st. mutation st r d (mo_now mo) (mo_event_id mo) snapshot binding))"

text \<open>
  What every mutation checks before it reaches the ticket: the binding and the definition it will
  work with, under the locks.
\<close>

definition enter ::
  "service \<Rightarrow> moment \<Rightarrow> ticket_actor \<Rightarrow> ticket_version \<Rightarrow>
   ticket_error + config_snapshot \<times> workflow_binding \<times> workflow_snapshot" where
  "enter sv mo actor version =
     (let ref = tv_ref version in
      bindE (validate_actor sv actor) (\<lambda>_.
      bindE (require_team_access actor (rf_team_id ref)) (\<lambda>_.
      bindE (resolve_binding sv (mo_initial mo) (rf_team_id ref) (rf_workflow_id ref)) (\<lambda>initial.
      bindE (workflow_operation (mo_area mo) (mo_before mo) (mo_locked mo) [rf_team_id ref]
               [wb_blueprint_id initial] None) (\<lambda>snapshot.
      bindE (resolve_workflow_binding (sv_ids sv) snapshot (rf_team_id ref) (rf_workflow_id ref)) (\<lambda>binding.
      if wb_blueprint_id binding \<noteq> wb_blueprint_id initial then Inl staleTicket
      else
        bindE (require_configured_agent snapshot actor) (\<lambda>_.
        bindE (require_current_version binding version) (\<lambda>_.
        bindE (resolve_definition sv (mo_libraries mo) binding snapshot) (\<lambda>s.
        if ws_digest s \<noteq> tv_workflow_digest version then Inl staleTicket
        else Inr (snapshot, binding, s))))))))))"

definition mutate ::
  "service \<Rightarrow> moment \<Rightarrow> ticket_actor \<Rightarrow> ticket_version \<Rightarrow> ticket_operation \<Rightarrow> mutation \<Rightarrow>
   (storage, ticket_error, mutation_result) op" where
  "mutate sv mo actor version op mutation =
     bindS (liftS (enter sv mo actor version)) (\<lambda>(snapshot, binding, s).
     apply_op (sv_provider sv (wb_storage binding)) (mo_stored_at mo) (tv_ref version)
       (tv_revision version) op
       (\<lambda>r. mutate_current_record sv mo mutation r (ws_definition s) snapshot binding (ws_digest s)))"

definition assign ::
  "service \<Rightarrow> moment \<Rightarrow> ticket_actor \<Rightarrow> ticket_version \<Rightarrow> string option \<Rightarrow> ticket_operation \<Rightarrow>
   (storage, ticket_error, mutation_result) op" where
  "assign sv mo actor version assignee op = (case actor of
      Agent _ \<Rightarrow> raiseS (Raise TicketForbidden ''forbidden'')
    | User _ \<Rightarrow> mutate sv mo actor version op (\<lambda>st r d now event_id snapshot binding.
        assign_record snapshot r assignee
          (service_event ''assigned'' actor ''Ticket assignment changed'' event_id now)))"

text \<open>The commands only an agent may give.\<close>

definition agent_only ::
  "ticket_actor \<Rightarrow> (agent_context \<Rightarrow> (storage, ticket_error, 'a) op) \<Rightarrow> (storage, ticket_error, 'a) op"
where
  "agent_only actor f = (case actor of
      User _ \<Rightarrow> raiseS (Raise TicketForbidden ''forbidden'') | Agent c \<Rightarrow> f c)"

definition start_work ::
  "service \<Rightarrow> moment \<Rightarrow> ticket_actor \<Rightarrow> ticket_version \<Rightarrow> ticket_operation \<Rightarrow>
   (storage, ticket_error, mutation_result) op" where
  "start_work sv mo actor version op = agent_only actor (\<lambda>c.
     mutate sv mo actor version op (\<lambda>st r d now event_id snapshot binding.
       start_work_record r c now
         (service_event ''started-work'' actor ''Agent started work'' event_id now)))"

definition end_work ::
  "service \<Rightarrow> moment \<Rightarrow> ticket_actor \<Rightarrow> ticket_version \<Rightarrow> ticket_operation \<Rightarrow>
   (storage, ticket_error, mutation_result) op" where
  "end_work sv mo actor version op = agent_only actor (\<lambda>c.
     mutate sv mo actor version op (\<lambda>st r d now event_id snapshot binding.
       end_work_record r c
         (service_event ''ended-work'' actor ''Agent ended active work'' event_id now)))"

definition sign_off ::
  "service \<Rightarrow> moment \<Rightarrow> ticket_actor \<Rightarrow> ticket_version \<Rightarrow> ticket_operation \<Rightarrow>
   (storage, ticket_error, mutation_result) op" where
  "sign_off sv mo actor version op = agent_only actor (\<lambda>c.
     mutate sv mo actor version op (\<lambda>st r d now event_id snapshot binding.
       sign_off_record r c
         (service_event ''signed-off'' actor ''Agent signed off the ticket'' event_id now)))"

definition update_ticket ::
  "service \<Rightarrow> moment \<Rightarrow> ticket_actor \<Rightarrow> ticket_version \<Rightarrow> ticket_patch \<Rightarrow> ticket_operation \<Rightarrow>
   (storage, ticket_error, mutation_result) op" where
  "update_ticket sv mo actor version patch op =
     mutate sv mo actor version op (\<lambda>st r d now event_id snapshot binding.
       update_record sv (sv_provider sv (wb_storage binding)) st r d actor patch now event_id
         (service_event ''updated'' actor ''Ticket content updated'' event_id now) snapshot binding)"

definition transition ::
  "service \<Rightarrow> moment \<Rightarrow> ticket_actor \<Rightarrow> ticket_version \<Rightarrow> transition_request \<Rightarrow> ticket_operation \<Rightarrow>
   (storage, ticket_error, mutation_result) op" where
  "transition sv mo actor version request op = agent_only actor (\<lambda>c.
     mutate sv mo actor version op (\<lambda>st r d now event_id snapshot binding.
       transition_record sv (sv_provider sv (wb_storage binding)) st r d c request now event_id op
         version binding snapshot))"

definition report ::
  "service \<Rightarrow> moment \<Rightarrow> ticket_actor \<Rightarrow> ticket_version \<Rightarrow> ticket_report \<Rightarrow> ticket_operation \<Rightarrow>
   (storage, ticket_error, mutation_result) op" where
  "report sv mo actor version rep op = agent_only actor (\<lambda>c.
     mutate sv mo actor version op (\<lambda>st r d now event_id snapshot binding.
       report_record sv r d c rep now event_id op version))"

definition publish_artifact ::
  "service \<Rightarrow> moment \<Rightarrow> ticket_actor \<Rightarrow> ticket_version \<Rightarrow> string \<Rightarrow> string \<Rightarrow> string \<Rightarrow>
   (storage, ticket_error, artifact_ref) op" where
  "publish_artifact sv mo actor version filename media_type content =
     bindS (liftS (enter sv mo actor version)) (\<lambda>(snapshot, binding, s).
     let p = sv_provider sv (wb_storage binding) in
     bindS (readS (\<lambda>st. read p st (tv_ref version))) (\<lambda>r.
     bindS (liftS (ensure (tk_revision r = tv_revision version) staleTicket)) (\<lambda>_.
     bindS (liftS (require_agent_ownership r actor)) (\<lambda>_.
     bindS (liftS (create_artifact (pr_sha p) filename media_type content)) (\<lambda>artifact.
     bindS (liftS (require_current_contract sv mo binding (cs_revision snapshot) (Some (ws_digest s)))) (\<lambda>_.
     put_artifact p (tv_ref version) artifact))))))"

section \<open>Creation\<close>

definition creation_actor_identity :: "ticket_actor \<Rightarrow> json" where
  "creation_actor_identity actor = (case actor of
      User c \<Rightarrow> JObj [(''actor_kind'', JStr ''user''), (''actor_name'', JStr (uc_actor_name c)),
                     (''team_id'', JStr (uc_team_id c))]
    | Agent c \<Rightarrow> JObj [(''actor_kind'', JStr ''agent''), (''agent_name'', JStr (cx_agent_name c)),
                      (''job_id'', JStr (cx_job_id c)), (''session_id'', JStr (cx_session_id c)),
                      (''team_id'', JStr (cx_team_id c))])"

definition creation_ticket_id ::
  "service \<Rightarrow> storage_binding \<Rightarrow> ticket_actor \<Rightarrow> ticket_operation \<Rightarrow> string" where
  "creation_ticket_id sv binding actor op =
     ''ticket-'' @ sv_uuid5 sv (sb_binding_id binding)
       (JObj [(''actor'', creation_actor_identity actor), (''operation_id'', JStr (op_id op))])"

definition new_ticket ::
  "string \<Rightarrow> string \<Rightarrow> string \<Rightarrow> workflow_definition \<Rightarrow> (string, field_value) dict \<Rightarrow> ticket_actor \<Rightarrow>
   string \<Rightarrow> time \<Rightarrow> ticket_ref \<Rightarrow> ticket_record" where
  "new_ticket ticket_id title description d values actor event_id now ref =
     \<lparr>tk_id = ticket_id, tk_number = 0, tk_title = title, tk_description = description,
      tk_state_id = wd_initial_state d, tk_assignee = None, tk_pending_run = None,
      tk_active_run = None, tk_field_values = values,
      tk_field_provenance = stamp_field_provenance actor values event_id now,
      tk_revision = 1,
      tk_events = [service_event ''opened'' actor ''Ticket created'' event_id now],
      tk_created_at = now, tk_updated_at = now, tk_ref = Some ref, tk_receipts = []\<rparr>"

text \<open>The binding and the definition a ticket is created under.\<close>

definition enter_creation ::
  "service \<Rightarrow> moment \<Rightarrow> ticket_actor \<Rightarrow> string \<Rightarrow>
   ticket_error + config_snapshot \<times> workflow_binding \<times> workflow_snapshot" where
  "enter_creation sv mo actor workflow_id =
     bindE (validate_actor sv actor) (\<lambda>_.
     bindE (resolve_binding sv (mo_initial mo) (actor_team actor) workflow_id) (\<lambda>initial.
     bindE (workflow_operation (mo_area mo) (mo_before mo) (mo_locked mo) [actor_team actor]
              [wb_blueprint_id initial] None) (\<lambda>snapshot.
     bindE (resolve_workflow_binding (sv_ids sv) snapshot (actor_team actor) workflow_id) (\<lambda>binding.
     if wb_blueprint_id binding \<noteq> wb_blueprint_id initial then Inl staleTicket
     else
       bindE (require_configured_agent snapshot actor) (\<lambda>_.
       bindE (resolve_definition sv (mo_libraries mo) binding snapshot) (\<lambda>s.
       Inr (snapshot, binding, s)))))))"

definition create_ticket ::
  "service \<Rightarrow> moment \<Rightarrow> ticket_actor \<Rightarrow> string \<Rightarrow> string \<Rightarrow> string \<Rightarrow>
   (string, field_value) dict option \<Rightarrow> ticket_operation \<Rightarrow>
   (storage, ticket_error, mutation_result) op" where
  "create_ticket sv mo actor workflow_id title description supplied op =
     bindS (liftS (enter_creation sv mo actor workflow_id)) (\<lambda>(snapshot, binding, s).
     let d = ws_definition s; values = (case supplied of None \<Rightarrow> [] | Some v \<Rightarrow> v) in
     bindS (liftS (validate_field_values d values)) (\<lambda>_.
     bindS (liftS (ensure (\<not> list_ex (\<lambda>(f, v). v \<noteq> VNone \<and> is_git_field d f) values) untrusted)) (\<lambda>_.
     let storage = wb_storage binding;
         ticket_id = creation_ticket_id sv storage actor op;
         ref = \<lparr>rf_binding_id = sb_binding_id storage, rf_team_id = sb_team_id storage,
                rf_workflow_id = sb_workflow_id storage, rf_ticket_id = ticket_id\<rparr>;
         r = new_ticket ticket_id title description d values actor (mo_event_id mo) (mo_now mo) ref in
     bindS (liftS (require_current_contract sv mo binding (cs_revision snapshot) (Some (ws_digest s)))) (\<lambda>_.
     create (sv_provider sv storage) (mo_stored_at mo) r op))))"

section \<open>Cleaning up after a job\<close>

record stop_evidence =
  se_job_id :: string
  se_generation :: string
  se_confirmed :: bool

definition may_clear_active_work :: "ticket_record \<Rightarrow> stop_evidence \<Rightarrow> bool" where
  "may_clear_active_work r evidence \<longleftrightarrow> se_confirmed evidence \<and>
     (case tk_active_run r of None \<Rightarrow> False
      | Some run \<Rightarrow> run_job_id run = se_job_id evidence \<and> run_session_id run = se_generation evidence)"

definition cleanup_event :: ticket_event where
  "cleanup_event = \<lparr>te_id = [], te_kind = ''ticket-run-cleanup'', te_actor = ''system'',
     te_summary = ''Ticket run cleanup confirmed'', te_data = [], te_at = None\<rparr>"

text \<open>\<open>digest\<close> is the \<open>uuid5\<close> of the request.\<close>

definition cleanup_job_target ::
  "provider \<Rightarrow> time \<Rightarrow> string \<Rightarrow> ticket_ref \<Rightarrow> string \<Rightarrow> string \<Rightarrow> string option \<Rightarrow> stop_evidence \<Rightarrow>
   (storage, ticket_error, ticket_record) op" where
  "cleanup_job_target p now digest ref job_id assignment_event_id expected_generation stopped =
     bindS (readS (\<lambda>st. read p st ref)) (\<lambda>current.
     let clear_pending = (se_confirmed stopped \<and> se_job_id stopped = job_id \<and>
           (case tk_pending_run current of None \<Rightarrow> False
            | Some pending \<Rightarrow> rv_job_id pending = job_id \<and>
                rv_assignment_event_id pending = assignment_event_id));
         clear_active = (expected_generation = Some (se_generation stopped) \<and>
           may_clear_active_work current stopped) in
     if \<not> clear_pending \<and> \<not> clear_active then returnS current
     else
       bindS (apply_op p now ref (tk_revision current)
           \<lparr>op_id = ''cleanup-'' @ job_id @ ''-'' @ se_generation stopped, op_request_digest = digest\<rparr>
           (\<lambda>r. liftS (Inr (add_event cleanup_event (r\<lparr>
             tk_pending_run := (if clear_pending then None else tk_pending_run r),
             tk_active_run := (if clear_active then None else tk_active_run r)\<rparr>))))) (\<lambda>result.
       returnS (mr_ticket result)))"

section \<open>Reads\<close>

record ticket_view =
  vw_record :: ticket_record
  vw_version :: "ticket_version option"
  vw_definition :: "workflow_definition option"
  vw_unavailable :: bool

definition view_of ::
  "service \<Rightarrow> moment \<Rightarrow> workflow_binding \<Rightarrow> config_snapshot \<Rightarrow> ticket_ref \<Rightarrow> ticket_record \<Rightarrow> ticket_view"
where
  "view_of sv mo binding snapshot ref r =
     (case resolve_definition sv (mo_libraries mo) binding snapshot of
        Inl _ \<Rightarrow> \<lparr>vw_record = r, vw_version = None, vw_definition = None, vw_unavailable = True\<rparr>
      | Inr s \<Rightarrow> \<lparr>vw_record = r,
          vw_version = Some \<lparr>tv_ref = ref, tv_revision = tk_revision r,
            tv_workflow_digest = ws_digest s, tv_context_digest = wb_context_digest binding\<rparr>,
          vw_definition = Some (ws_definition s), vw_unavailable = False\<rparr>)"

definition inspect_ticket ::
  "service \<Rightarrow> moment \<Rightarrow> ticket_actor \<Rightarrow> ticket_ref \<Rightarrow> storage \<Rightarrow> ticket_error + ticket_view" where
  "inspect_ticket sv mo actor ref st =
     (let snapshot = mo_initial mo in
      bindE (validate_actor sv actor) (\<lambda>_.
      bindE (require_team_access actor (rf_team_id ref)) (\<lambda>_.
      bindE (require_configured_agent snapshot actor) (\<lambda>_.
      bindE (resolve_binding sv snapshot (rf_team_id ref) (rf_workflow_id ref)) (\<lambda>binding.
      if sb_binding_id (wb_storage binding) \<noteq> rf_binding_id ref then Inl staleTicket
      else bindE (read (sv_provider sv (wb_storage binding)) st ref) (\<lambda>r.
        Inr (view_of sv mo binding snapshot ref r)))))))"

definition list_workflows :: "service \<Rightarrow> moment \<Rightarrow> ticket_actor \<Rightarrow> ticket_error + workflow_binding list"
where
  "list_workflows sv mo actor =
     (let snapshot = mo_initial mo in
      bindE (validate_actor sv actor) (\<lambda>_.
      bindE (require_configured_agent snapshot actor) (\<lambda>_.
      bindE (dict_at (cs_teams snapshot) (actor_team actor)) (\<lambda>team.
      mapE (resolve_workflow_binding (sv_ids sv) snapshot (actor_team actor))
        (sort (keys (tc_workflows team)))))))"

text \<open>\<open>lower\<close> is Python's \<open>str.lower\<close>, on the modelled characters.\<close>

definition lower_char :: "char \<Rightarrow> char" where
  "lower_char c = (let n = of_char c :: nat in
     if 65 \<le> n \<and> n \<le> 90 \<or> 192 \<le> n \<and> n \<le> 222 \<and> n \<noteq> 215 then char_of (n + 32) else c)"

definition list_service_tickets ::
  "service \<Rightarrow> moment \<Rightarrow> ticket_actor \<Rightarrow> string \<Rightarrow> string option \<Rightarrow> string option \<Rightarrow> string \<Rightarrow> storage \<Rightarrow>
   ticket_error + ticket_view list" where
  "list_service_tickets sv mo actor workflow_id assignee state_id query st =
     (let snapshot = mo_initial mo; needle = map lower_char (strip query) in
      bindE (validate_actor sv actor) (\<lambda>_.
      bindE (require_configured_agent snapshot actor) (\<lambda>_.
      bindE (resolve_binding sv snapshot (actor_team actor) workflow_id) (\<lambda>binding.
      bindE (list_tickets (sv_provider sv (wb_storage binding)) st (actor_team actor) workflow_id) (\<lambda>rs.
      Inr (map (\<lambda>r. view_of sv mo binding snapshot (the (tk_ref r)) r)
        (filter (\<lambda>r. (assignee = None \<or> tk_assignee r = assignee) \<and>
           (state_id = None \<or> Some (tk_state_id r) = state_id) \<and>
           (needle = [] \<or> contains needle (map lower_char (tk_title r)) \<or>
            contains needle (map lower_char (tk_description r)))) rs)))))))"

section \<open>Entering a mutation\<close>

lemma staleTicket_Inr: "ensure b staleTicket = Inr u \<longleftrightarrow> b"
  by (simp add: ensure_eq_Inr)

text \<open>What is established before the ticket is touched.\<close>

definition fenced ::
  "service \<Rightarrow> moment \<Rightarrow> ticket_actor \<Rightarrow> ticket_version \<Rightarrow> workflow_binding \<Rightarrow> workflow_snapshot \<Rightarrow> bool"
where
  "fenced sv mo actor version binding s \<longleftrightarrow>
     actor_team actor = rf_team_id (tv_ref version) \<and>
     validate_actor sv actor = Inr () \<and> require_configured_agent (mo_locked mo) actor = Inr () \<and>
     resolve_workflow_binding (sv_ids sv) (mo_locked mo) (rf_team_id (tv_ref version))
       (rf_workflow_id (tv_ref version)) = Inr binding \<and>
     sb_binding_id (wb_storage binding) = rf_binding_id (tv_ref version) \<and>
     wb_context_digest binding = tv_context_digest version \<and>
     resolve_definition sv (mo_libraries mo) binding (mo_locked mo) = Inr s \<and>
     ws_digest s = tv_workflow_digest version \<and> wf_definition (ws_definition s)"

lemma resolve_definition_wf:
  "resolve_definition sv libs b snapshot = Inr s \<Longrightarrow> wf_definition (ws_definition s)"
  by (auto simp: resolve_definition_def errE split: option.splits dest: inspect_valid)

lemma resolve_definition_error:
  "resolve_definition sv libs b snapshot = Inl e \<Longrightarrow> e = Raise WorkflowUnavailable ''unavailable-workflow''"
  by (auto simp: resolve_definition_def errE split: option.splits)

lemma enter_Inr:
  assumes "enter sv mo actor version = Inr (snapshot, binding, s)"
  shows "snapshot = mo_locked mo \<and> fenced sv mo actor version binding s"
  using assms unfolding enter_def fenced_def require_team_access_def require_current_version_def
  by (auto simp: Let_def errE dest: workflow_operation_Inr resolve_definition_wf split: if_splits)

lemma contract_unchanged:
  assumes "require_current_contract sv mo binding revision (Some digest) = Inr u"
  shows "\<exists>now s. resolve_binding sv (mo_current mo) (wb_team_id binding) (wb_workflow_id binding) = Inr now \<and>
    (cs_revision (mo_current mo) = revision \<or> bindings_match binding now) \<and>
    wb_blueprint_id now = wb_blueprint_id binding \<and>
    resolve_definition sv (mo_libraries_now mo) now (mo_current mo) = Inr s \<and>
    wd_id (ws_definition s) = wb_blueprint_id binding \<and> ws_digest s = digest"
  using assms unfolding require_current_contract_def
  by (auto simp: Let_def bindE_eq_Inr split: if_splits)

lemma mutate_current_record_pure [simp]:
  "fst (mutate_current_record sv mo m r d snapshot binding digest st) = st"
  by (simp add: mutate_current_record_def split: sum.split)

lemma mutate_current_record_Inr:
  "mutate_current_record sv mo m r d snapshot binding digest st = (u, Inr cand) \<longleftrightarrow> u = st \<and>
     require_current_contract sv mo binding (cs_revision snapshot) (Some digest) = Inr () \<and>
     m st r d (mo_now mo) (mo_event_id mo) snapshot binding = Inr cand"
  by (auto simp: mutate_current_record_def split: sum.splits)

text \<open>A mutation that raises has changed nothing.\<close>

lemma mutate_raises:
  assumes "mutate sv mo actor version op m st = (t, Inl e)"
  shows "t = st"
  using assms unfolding mutate_def
  by (elim bindS_readE) (auto split: prod.splits intro: local.raise_unchanged)

text \<open>A mutation that returned without being a replay.\<close>

lemma mutate_fresh:
  assumes "mutate sv mo actor version op m st = (t, Inr res)" and "\<not> mr_replayed res"
  obtains binding s cur cand upd where
    "fenced sv mo actor version binding s"
    "read (sv_provider sv (wb_storage binding)) st (tv_ref version) = Inr cur"
    "find_receipt cur (op_id op) = None" "tk_revision cur = tv_revision version"
    "require_current_contract sv mo binding (cs_revision (mo_locked mo)) (Some (ws_digest s)) = Inr ()"
    "m st cur (ws_definition s) (mo_now mo) (mo_event_id mo) (mo_locked mo) binding = Inr cand"
    "sealed_update (pr_uuid (sv_provider sv (wb_storage binding))) (mo_stored_at mo) cur cand op upd res"
proof -
  from assms(1) obtain snapshot binding s where enter: "enter sv mo actor version = Inr (snapshot, binding, s)"
    and run: "apply_op (sv_provider sv (wb_storage binding)) (mo_stored_at mo) (tv_ref version)
       (tv_revision version) op
       (\<lambda>r. mutate_current_record sv mo m r (ws_definition s) snapshot binding (ws_digest s)) st = (t, Inr res)"
    unfolding mutate_def by (elim bindS_readE) auto
  have "snapshot = mo_locked mo" and fence: "fenced sv mo actor version binding s"
    using enter_Inr [OF enter] by auto
  with run assms(2) show ?thesis
    by - (rule local.fresh [OF run assms(2)], rule that [OF fence], auto simp: mutate_current_record_Inr)
qed

lemma agent_only_run:
  assumes "agent_only actor f st = (t, r)"
  obtains (user) "t = st" "r = Inl (Raise TicketForbidden ''forbidden'')"
  | (agent) c where "actor = Agent c" "f c st = (t, r)"
  using assms by (cases actor) (auto simp: agent_only_def)

lemma sealed_result:
  assumes "sealed_update uuid now cur cand op upd res"
  shows "tk_state_id (mr_ticket res) = tk_state_id cand"
    "tk_assignee (mr_ticket res) = tk_assignee cand"
    "tk_active_run (mr_ticket res) = tk_active_run cand"
    "tk_pending_run (mr_ticket res) = tk_pending_run cand"
    "tk_field_values (mr_ticket res) = tk_field_values cand"
    "tk_field_provenance (mr_ticket res) = tk_field_provenance cand"
    "tk_title (mr_ticket res) = tk_title cand"
    "tk_description (mr_ticket res) = tk_description cand"
    "tk_id (mr_ticket res) = tk_id cur" "tk_number (mr_ticket res) = tk_number cur"
    "tk_ref (mr_ticket res) = tk_ref cur"
    "tk_revision (mr_ticket res) = tk_revision cur + 1"
    "tk_events (mr_ticket res) = tk_events cur @
       finalize_new now uuid 0 (drop (length (tk_events cur)) (tk_events cand))"
  using assms by (auto elim!: sealed_updateD)

lemma require_active_owner_iff:
  "require_active_owner r c = Inr u \<longleftrightarrow> tk_assignee r = Some (cx_agent_name c) \<and>
     (\<exists>run. tk_active_run r = Some run \<and> run_job_id run = cx_job_id c \<and>
        run_session_id run = cx_session_id c)"
  by (auto simp: require_active_owner_def split: option.splits)

lemma add_event_fields [simp]:
  "tk_events (add_event e r) = tk_events r @ [e]" "tk_state_id (add_event e r) = tk_state_id r"
  "tk_assignee (add_event e r) = tk_assignee r" "tk_active_run (add_event e r) = tk_active_run r"
  "tk_pending_run (add_event e r) = tk_pending_run r"
  "tk_field_values (add_event e r) = tk_field_values r"
  "tk_field_provenance (add_event e r) = tk_field_provenance r"
  "tk_title (add_event e r) = tk_title r" "tk_description (add_event e r) = tk_description r"
  "tk_id (add_event e r) = tk_id r" "tk_ref (add_event e r) = tk_ref r"
  "tk_receipts (add_event e r) = tk_receipts r" "tk_revision (add_event e r) = tk_revision r"
  by (simp_all add: add_event_def)

section \<open>One step of a ticket\<close>

text \<open>What the commands do to a record, as one relation; each command's accepted result is one step.\<close>

inductive ticket_step :: "ticket_record \<Rightarrow> ticket_record \<Rightarrow> bool" where
  assigned: "assign_record snapshot r a e = Inr r' \<Longrightarrow> ticket_step r r'"
| started: "start_work_record r c now e = Inr r' \<Longrightarrow> ticket_step r r'"
| ended: "end_work_record r c e = Inr r' \<Longrightarrow> ticket_step r r'"
| signed_off: "sign_off_record r c e = Inr r' \<Longrightarrow> ticket_step r r'"
| updated: "update_record sv p st r d actor patch now event_id e snapshot binding = Inr r' \<Longrightarrow>
    ticket_step r r'"
| transitioned: "transition_record sv p st r d c request now event_id op version binding snapshot = Inr r' \<Longrightarrow>
    ticket_step r r'"
| reported: "report_record sv r d c rep now event_id op version = Inr r' \<Longrightarrow> ticket_step r r'"

lemma assign_record_Inr:
  assumes "assign_record snapshot r a e = Inr r'"
  shows "tk_active_run r = None \<and> r' = add_event e (r\<lparr>tk_assignee := a\<rparr>) \<and>
    (\<forall>name. a = Some name \<longrightarrow> (\<exists>ref team. tk_ref r = Some ref \<and>
       map_of (cs_teams snapshot) (rf_team_id ref) = Some team \<and> name \<in> set (tc_agents team)))"
  using assms by (auto simp: assign_record_def errE split: if_splits option.splits)

lemma start_work_record_Inr:
  assumes "start_work_record r c now e = Inr r'"
  shows "(tk_assignee r = None \<or> tk_assignee r = Some (cx_agent_name c)) \<and>
    (\<forall>run. tk_active_run r = Some run \<longrightarrow> run_job_id run = cx_job_id c \<and> run_session_id run = cx_session_id c) \<and>
    (\<forall>q. tk_pending_run r = Some q \<longrightarrow> rv_job_id q = cx_job_id c \<and> rv_assignee q = cx_agent_name c \<and>
       rv_assignment_event_id q = latest_assignment_event_id r) \<and>
    r' = add_event e (r\<lparr>tk_assignee := Some (cx_agent_name c), tk_pending_run := None,
        tk_active_run := Some \<lparr>run_job_id = cx_job_id c, run_session_id = cx_session_id c,
          run_started_at = now\<rparr>\<rparr>)"
  using assms by (auto simp: start_work_record_def errE split: if_splits option.splits)

lemma update_record_Inr:
  assumes "update_record sv p st r d actor patch now event_id e snapshot binding = Inr r'"
  obtains fields provenance where "require_agent_ownership r actor = Inr ()"
    "tp_field_values patch = None \<Longrightarrow> fields = tk_field_values r \<and> provenance = tk_field_provenance r"
    "\<And>vs. tp_field_values patch = Some vs \<Longrightarrow> validate_field_values d vs = Inr () \<and>
       require_trusted_git_values sv p st r d vs snapshot binding = Inr () \<and>
       fields = dict_update (tk_field_values r) vs \<and>
       provenance = dict_update (tk_field_provenance r) (stamp_field_provenance actor vs event_id now)"
    "r' = add_event e (r\<lparr>
       tk_title := (case tp_title patch of None \<Rightarrow> tk_title r | Some t \<Rightarrow> t),
       tk_description := (case tp_description patch of None \<Rightarrow> tk_description r | Some t \<Rightarrow> t),
       tk_field_values := fields, tk_field_provenance := provenance\<rparr>)"
proof (cases "tp_field_values patch")
  case None
  with assms that [of "tk_field_values r" "tk_field_provenance r"] show ?thesis
    by (simp add: update_record_def bindE_eq_Inr)
next
  case (Some vs)
  from assms Some have own: "require_agent_ownership r actor = Inr ()"
    and ok: "validate_field_values d vs = Inr ()"
      "require_trusted_git_values sv p st r d vs snapshot binding = Inr ()"
    and r': "add_event e (r\<lparr>
       tk_title := (case tp_title patch of None \<Rightarrow> tk_title r | Some t \<Rightarrow> t),
       tk_description := (case tp_description patch of None \<Rightarrow> tk_description r | Some t \<Rightarrow> t),
       tk_field_values := dict_update (tk_field_values r) vs,
       tk_field_provenance := dict_update (tk_field_provenance r)
         (stamp_field_provenance actor vs event_id now)\<rparr>) = r'"
    by (auto simp: update_record_def bindE_eq_Inr)
  show ?thesis
    by (rule that [OF own _ _ r' [symmetric]]) (use Some ok in simp_all)
qed

lemma transition_record_Inr:
  assumes "transition_record sv p st r d c request now event_id op version binding snapshot = Inr r'"
  obtains ev s1 s2 where "require_active_owner r c = Inr ()"
    "evaluate_transition d (tq_transition_id request) (tk_state_id r) (tk_field_values r)
       (tq_inputs request) (tq_outputs request) (tq_assessments request) = Inr ev"
    "require_trusted_git_values sv p st r d
       (dict_update (ev_effective_inputs ev) (ev_effective_outputs ev)) snapshot binding = Inr ()"
    "wd_state d (tk_state_id r) = Inr s1" "wd_state d (ev_destination_state_id ev) = Inr s2"
    "r' = add_event (accepted_event sv r d ev c s1 s2 now event_id op version binding)
      (r\<lparr>tk_state_id := ev_destination_state_id ev,
       tk_field_values := dict_update (tk_field_values r) (ev_effective_outputs ev),
       tk_field_provenance := dict_update (tk_field_provenance r)
         (stamp_field_provenance (Agent c) (ev_effective_outputs ev) event_id now)\<rparr>)"
proof (cases "tk_ref r")
  case None
  with assms show ?thesis by (auto simp: transition_record_def bindE_eq_Inr)
next
  case (Some ref)
  with assms show ?thesis
    unfolding transition_record_def bindE_eq_Inr mapErr_eq_Inr
    by (clarsimp simp: bindE_eq_Inr mapErr_eq_Inr) (rule that; assumption)
qed

lemma report_record_Inr:
  assumes "report_record sv r d c rep now event_id op version = Inr r'"
  obtains s1 where "require_active_owner r c = Inr ()" "wd_state d (tk_state_id r) = Inr s1"
    "r' = add_event (reported_event sv r s1 c rep now event_id op version) r"
  using assms unfolding report_record_def
  by (auto simp: bindE_eq_Inr mapErr_eq_Inr)

lemmas record_commands = assign_record_Inr start_work_record_Inr

lemma end_work_record_Inr:
  "end_work_record r c e = Inr r' \<longleftrightarrow> require_active_owner r c = Inr () \<and>
     r' = add_event e (r\<lparr>tk_active_run := None\<rparr>)"
  by (auto simp: end_work_record_def bindE_eq_Inr)

lemma sign_off_record_Inr:
  "sign_off_record r c e = Inr r' \<longleftrightarrow> require_active_owner r c = Inr () \<and>
     r' = add_event e (r\<lparr>tk_assignee := None, tk_active_run := None\<rparr>)"
  by (auto simp: sign_off_record_def bindE_eq_Inr)

text \<open>C6: However commands interleave, a ticket with an active run is assigned: from a ticket where this
  holds, every sequence of accepted commands keeps it, appends one event per command and keeps
  the identity of the ticket and all its earlier events.\<close>

theorem active_run_is_assigned:
  assumes "ticket_step\<^sup>*\<^sup>* r r'" and "tk_active_run r \<noteq> None \<longrightarrow> tk_assignee r \<noteq> None"
  shows "(tk_active_run r' \<noteq> None \<longrightarrow> tk_assignee r' \<noteq> None) \<and> tk_id r' = tk_id r \<and>
    tk_ref r' = tk_ref r \<and> tk_receipts r' = tk_receipts r \<and>
    (\<exists>evs. tk_events r' = tk_events r @ evs)"
proof -
  have one: "(tk_active_run b \<noteq> None \<longrightarrow> tk_assignee b \<noteq> None) \<and> tk_id b = tk_id a \<and>
      tk_ref b = tk_ref a \<and> tk_receipts b = tk_receipts a \<and> (\<exists>e. tk_events b = tk_events a @ [e])"
    if "ticket_step a b" "tk_active_run a \<noteq> None \<longrightarrow> tk_assignee a \<noteq> None" for a b
    using that
  proof (induction rule: ticket_step.induct)
    case (updated sv p st r d actor patch now event_id e snapshot binding r')
    from updated(1) show ?case by (rule update_record_Inr) (use updated(2) in simp)
  next
    case (transitioned sv p st r d c request now event_id op version binding snapshot r')
    from transitioned(1) show ?case by (rule transition_record_Inr) (use transitioned(2) in simp)
  next
    case (reported sv r d c rep now event_id op version r')
    from reported(1) show ?case by (rule report_record_Inr) (use reported(2) in simp)
  next
    case (assigned snapshot r a e r')
    then show ?case using assign_record_Inr [OF assigned(1)] by simp
  next
    case (started r c now e r')
    then show ?case using start_work_record_Inr [OF started(1)] by simp
  qed (simp_all add: end_work_record_Inr sign_off_record_Inr)
  from assms show ?thesis
  proof (induction rule: rtranclp_induct)
    case base
    then show ?case by simp
  next
    case (step y z)
    with one [OF step.hyps(2)] show ?case using assms(2) by auto
  qed
qed

section \<open>What each command guarantees\<close>

lemma stamp_lookup:
  "map_of (stamp_field_provenance actor vs event_id now) f =
     (if f \<in> set (keys vs) then Some (case actor of
        User c \<Rightarrow> \<lparr>pv_actor_kind = UserKind, pv_actor_name = uc_actor_name c, pv_job_id = None,
                  pv_event_id = event_id, pv_recorded_at = now\<rparr>
      | Agent c \<Rightarrow> \<lparr>pv_actor_kind = AgentKind, pv_actor_name = cx_agent_name c,
                   pv_job_id = Some (cx_job_id c), pv_event_id = event_id, pv_recorded_at = now\<rparr>)
      else None)"
  by (simp add: stamp_field_provenance_def map_of_dict_of_keys)

lemma wf_stamp: "wf_dict (stamp_field_provenance actor vs event_id now)"
  by (simp add: stamp_field_provenance_def wf_dict_of_keys)

lemma agent_only_Inr:
  assumes "agent_only actor f st = (t, Inr res)"
  obtains c where "actor = Agent c" "f c st = (t, Inr res)"
  using assms by (cases actor) (auto simp: agent_only_def)

text \<open>C3: Every mutation is fenced by the version its caller saw. When a mutation takes effect, the
  actor belongs to the ticket's team and is authorized, and the storage binding, the context
  digest, the workflow digest and the revision are all those of the version; at the moment of the
  write the board still resolves to the same blueprint, whose source still has that digest.\<close>

theorem mutation_fenced:
  assumes "mutate sv mo actor version op m st = (t, Inr res)" and "\<not> mr_replayed res"
  shows "\<exists>binding s cur now s'. fenced sv mo actor version binding s \<and>
    read (sv_provider sv (wb_storage binding)) st (tv_ref version) = Inr cur \<and>
    tk_revision cur = tv_revision version \<and> tk_revision (mr_ticket res) = tv_revision version + 1 \<and>
    resolve_binding sv (mo_current mo) (rf_team_id (tv_ref version)) (rf_workflow_id (tv_ref version)) = Inr now \<and>
    wb_blueprint_id now = wb_blueprint_id binding \<and>
    (cs_revision (mo_current mo) = cs_revision (mo_locked mo) \<or> bindings_match binding now) \<and>
    resolve_definition sv (mo_libraries_now mo) now (mo_current mo) = Inr s' \<and>
    ws_digest s' = tv_workflow_digest version"
proof -
  from assms show ?thesis
  proof (rule mutate_fresh)
    fix binding s cur cand upd
    assume fence: "fenced sv mo actor version binding s"
      and cur: "read (sv_provider sv (wb_storage binding)) st (tv_ref version) = Inr cur"
        "tk_revision cur = tv_revision version"
      and contract: "require_current_contract sv mo binding (cs_revision (mo_locked mo)) (Some (ws_digest s)) = Inr ()"
      and seal: "sealed_update (pr_uuid (sv_provider sv (wb_storage binding))) (mo_stored_at mo) cur cand op upd res"
    have scope: "wb_team_id binding = rf_team_id (tv_ref version)"
      "wb_workflow_id binding = rf_workflow_id (tv_ref version)" "ws_digest s = tv_workflow_digest version"
      using fence by (auto simp: fenced_def dest: resolve_scope)
    from contract_unchanged [OF contract] obtain now s' where
      "resolve_binding sv (mo_current mo) (wb_team_id binding) (wb_workflow_id binding) = Inr now"
      "cs_revision (mo_current mo) = cs_revision (mo_locked mo) \<or> bindings_match binding now"
      "wb_blueprint_id now = wb_blueprint_id binding"
      "resolve_definition sv (mo_libraries_now mo) now (mo_current mo) = Inr s'"
      "ws_digest s' = ws_digest s" by blast
    with fence cur scope sealed_result(12) [OF seal] show ?thesis
      by (intro exI [of _ binding] exI [of _ s] exI [of _ cur] exI [of _ now] exI [of _ s']) simp
  qed
qed


text \<open>C5: Work on a ticket is exclusive. Starting work takes effect only for an agent of the team
  whose ticket is unassigned or its own, when no other run is active and a reservation, if any,
  is for its own job under the latest assignment; afterwards the ticket is assigned to the agent,
  its run is the active one and the reservation is gone.\<close>

theorem start_work_effect:
  assumes "start_work sv mo actor version op st = (t, Inr res)" and "\<not> mr_replayed res"
  shows "\<exists>c binding s cur. actor = Agent c \<and> fenced sv mo actor version binding s \<and>
    read (sv_provider sv (wb_storage binding)) st (tv_ref version) = Inr cur \<and>
    tk_assignee cur \<in> {None, Some (cx_agent_name c)} \<and>
    (\<forall>run. tk_active_run cur = Some run \<longrightarrow>
       run_job_id run = cx_job_id c \<and> run_session_id run = cx_session_id c) \<and>
    (\<forall>q. tk_pending_run cur = Some q \<longrightarrow> rv_job_id q = cx_job_id c \<and> rv_assignee q = cx_agent_name c \<and>
       rv_assignment_event_id q = latest_assignment_event_id cur) \<and>
    require_active_owner (mr_ticket res) c = Inr () \<and> tk_pending_run (mr_ticket res) = None \<and>
    tk_state_id (mr_ticket res) = tk_state_id cur \<and>
    tk_field_values (mr_ticket res) = tk_field_values cur"
proof -
  from assms(1) obtain c where c: "actor = Agent c" and run: "mutate sv mo actor version op
      (\<lambda>st r d now event_id snapshot binding. start_work_record r c now
         (service_event ''started-work'' actor ''Agent started work'' event_id now)) st = (t, Inr res)"
    unfolding start_work_def by (rule agent_only_Inr) blast
  show ?thesis
    using run assms(2)
  proof (rule mutate_fresh)
    fix binding s cur cand upd
    assume fence: "fenced sv mo actor version binding s"
      and cur: "read (sv_provider sv (wb_storage binding)) st (tv_ref version) = Inr cur"
      and tr: "start_work_record cur c (mo_now mo) (service_event ''started-work'' actor
        ''Agent started work'' (mo_event_id mo) (mo_now mo)) = Inr cand"
      and seal: "sealed_update (pr_uuid (sv_provider sv (wb_storage binding))) (mo_stored_at mo) cur cand op upd res"
    from c fence cur start_work_record_Inr [OF tr] sealed_result [OF seal] show ?thesis
      by (intro exI [of _ c] exI [of _ binding] exI [of _ s] exI [of _ cur])
        (auto simp: require_active_owner_iff)
  qed
qed

text \<open>Only a user assigns a ticket, only while no run is active on it, and only to an agent
  configured in the ticket's team; the assignment changes nothing else but the history.\<close>

theorem assign_effect:
  assumes "assign sv mo actor version a op st = (t, Inr res)" and "\<not> mr_replayed res"
  shows "\<exists>u binding s cur. actor = User u \<and> fenced sv mo actor version binding s \<and>
    read (sv_provider sv (wb_storage binding)) st (tv_ref version) = Inr cur \<and>
    tk_active_run cur = None \<and> tk_active_run (mr_ticket res) = None \<and> tk_assignee (mr_ticket res) = a \<and>
    (\<forall>name. a = Some name \<longrightarrow> (\<exists>team. map_of (cs_teams (mo_locked mo)) (rf_team_id (tv_ref version)) = Some team \<and>
       name \<in> set (tc_agents team))) \<and>
    tk_state_id (mr_ticket res) = tk_state_id cur \<and> tk_field_values (mr_ticket res) = tk_field_values cur \<and>
    tk_pending_run (mr_ticket res) = tk_pending_run cur"
proof -
  from assms(1) obtain u where u: "actor = User u" and run: "mutate sv mo actor version op
      (\<lambda>st r d now event_id snapshot binding. assign_record snapshot r a
          (service_event ''assigned'' actor ''Ticket assignment changed'' event_id now)) st = (t, Inr res)"
    by (cases actor) (auto simp: assign_def)
  show ?thesis
    using run assms(2)
  proof (rule mutate_fresh)
    fix binding s cur cand upd
    assume fence: "fenced sv mo actor version binding s"
      and cur: "read (sv_provider sv (wb_storage binding)) st (tv_ref version) = Inr cur"
      and tr: "assign_record (mo_locked mo) cur a (service_event ''assigned'' actor
        ''Ticket assignment changed'' (mo_event_id mo) (mo_now mo)) = Inr cand"
      and seal: "sealed_update (pr_uuid (sv_provider sv (wb_storage binding))) (mo_stored_at mo) cur cand op upd res"
    from u fence cur assign_record_Inr [OF tr] sealed_result [OF seal] local.scoped [OF cur] show ?thesis
      by (intro exI [of _ u] exI [of _ binding] exI [of _ s] exI [of _ cur]) auto
  qed
qed

text \<open>Ending work and signing off take effect only for the active owner; ending releases the run
  and keeps the assignment, signing off releases both, and neither touches the state or the fields.\<close>

theorem release_effect:
  assumes "(if off then sign_off sv mo actor version op st else end_work sv mo actor version op st) = (t, Inr res)"
    and "\<not> mr_replayed res"
  shows "\<exists>c binding s cur. actor = Agent c \<and> fenced sv mo actor version binding s \<and>
    read (sv_provider sv (wb_storage binding)) st (tv_ref version) = Inr cur \<and>
    require_active_owner cur c = Inr () \<and> tk_active_run (mr_ticket res) = None \<and>
    tk_assignee (mr_ticket res) = (if off then None else Some (cx_agent_name c)) \<and>
    tk_state_id (mr_ticket res) = tk_state_id cur \<and> tk_field_values (mr_ticket res) = tk_field_values cur"
proof -
  let ?release = "\<lambda>c r e. if off then sign_off_record r c e else end_work_record r c e"
  from assms(1) obtain c kind summary where c: "actor = Agent c" and run: "mutate sv mo actor version op
      (\<lambda>st r d now event_id snapshot binding. ?release c r
         (service_event kind actor summary event_id now)) st = (t, Inr res)"
    by (cases off) (auto simp: sign_off_def end_work_def elim!: agent_only_Inr)
  show ?thesis
    using run assms(2)
  proof (rule mutate_fresh)
    fix binding s cur cand upd
    assume fence: "fenced sv mo actor version binding s"
      and cur: "read (sv_provider sv (wb_storage binding)) st (tv_ref version) = Inr cur"
      and tr: "?release c cur (service_event kind actor summary (mo_event_id mo) (mo_now mo)) = Inr cand"
      and seal: "sealed_update (pr_uuid (sv_provider sv (wb_storage binding))) (mo_stored_at mo) cur cand op upd res"
    from c fence cur tr sealed_result [OF seal] show ?thesis
      by (intro exI [of _ c] exI [of _ binding] exI [of _ s] exI [of _ cur])
        (auto simp: sign_off_record_Inr end_work_record_Inr require_active_owner_iff split: if_splits)
  qed
qed


text \<open>What a value of a Git field is once it was accepted: an artifact this ticket captured.\<close>

definition captured_value ::
  "service \<Rightarrow> provider \<Rightarrow> storage \<Rightarrow> ticket_record \<Rightarrow> field_value \<Rightarrow> bool" where
  "captured_value sv p st r v \<longleftrightarrow> (\<exists>a ref artifact m. v = VArtifact a \<and> ar_kind a = ArtifactId \<and>
     tk_ref r = Some ref \<and> read_artifact p st ref (ar_value a) = Inr artifact \<and>
     at_digest artifact = ar_value a \<and>
     parse_manifest (sv_digests sv) artifact = Inr m \<and> captured_by r (ar_value a) m \<and> scoped_to r m)"

lemma read_artifact_digest: "read_artifact p st ref i = Inr a \<Longrightarrow> at_digest a = i"
  by (auto simp: read_artifact_def errE split: artifact_file.splits sum.splits storage_failure.splits if_splits)

lemma trusted_values:
  assumes "require_trusted_git_values sv p st r d vs snapshot binding = Inr ()"
    and "(f, v) \<in> set vs" "v \<noteq> VNone" "is_git_field d f"
  shows "captured_value sv p st r v"
proof -
  from assms obtain team where "require_trusted_git_value sv p st r d team (f, v) = Inr ()"
    unfolding require_trusted_git_values_def by (auto simp: bindE_eq_Inr iterE_eq_Inr)
  with assms(3,4) obtain a ref policy artifact m where "v = VArtifact a" "ar_kind a = ArtifactId"
    "tk_ref r = Some ref" and art: "read_artifact p st ref (ar_value a) = Inr artifact"
    and m: "validate_git_artifact (sv_digests sv) r artifact (Some (tc_workspace_path team)) (Some policy) = Inr m"
    by (auto simp: require_trusted_git_value_def bindE_eq_Inr split: field_value.splits if_splits option.splits)
  with read_artifact_digest [OF art] validated_captured [OF m] show ?thesis
    by (auto simp: captured_value_def)
qed

lemma validate_field_values_iff:
  "validate_field_values d vs = Inr u \<longleftrightarrow> (\<forall>(f, v)\<in>set vs. \<exists>k. map_of (field_kinds d) f = Some k \<and>
     (v = VNone \<or> kind_matches_value k v))"
  by (auto simp: validate_field_values_def iterE_eq_Inr split: option.splits if_splits)


text \<open>C35: A created ticket opens in the initial state of the blueprint its board is bound to, with the
  next number of the board, at revision one, unassigned and without a run; its values are
  declared and typed, hold no Git evidence, and are stamped with their author.\<close>

theorem create_effect:
  assumes "create_ticket sv mo actor w title description (Some vs) op st = (t, Inr res)"
    and "\<not> mr_replayed res"
  shows "\<exists>binding s. resolve_workflow_binding (sv_ids sv) (mo_locked mo) (actor_team actor) w = Inr binding \<and>
    resolve_definition sv (mo_libraries mo) binding (mo_locked mo) = Inr s \<and>
    tk_state_id (mr_ticket res) = wd_initial_state (ws_definition s) \<and>
    tk_state_id (mr_ticket res) \<in> set (map sd_id (wd_states (ws_definition s))) \<and>
    tk_number (mr_ticket res) = last_number st (sb_team_id (wb_storage binding), sb_workflow_id (wb_storage binding)) + 1 \<and>
    tk_revision (mr_ticket res) = 1 \<and> tk_assignee (mr_ticket res) = None \<and>
    tk_active_run (mr_ticket res) = None \<and> tk_field_values (mr_ticket res) = vs \<and>
    (\<forall>(f, v)\<in>set vs. \<exists>k. field_kind_of (ws_definition s) f = Some k \<and>
       (v = VNone \<or> kind_matches_value k v \<and> \<not> is_git_field (ws_definition s) f)) \<and>
    (\<forall>f\<in>set (keys vs). \<exists>pv. map_of (tk_field_provenance (mr_ticket res)) f = Some pv \<and>
       pv_actor_name pv = actor_name actor)"
proof -
  from assms(1) obtain snapshot binding s where entry:
      "enter_creation sv mo actor w = Inr (snapshot, binding, s)"
    unfolding create_ticket_def by (elim bindS_readE) auto
  then have b: "resolve_workflow_binding (sv_ids sv) (mo_locked mo) (actor_team actor) w = Inr binding"
    and s: "resolve_definition sv (mo_libraries mo) binding (mo_locked mo) = Inr s"
    unfolding enter_creation_def by (auto simp: bindE_eq_Inr dest!: workflow_operation_Inr split: if_splits)
  define i where "i = creation_ticket_id sv (wb_storage binding) actor op"
  define ref where "ref = \<lparr>rf_binding_id = sb_binding_id (wb_storage binding),
    rf_team_id = sb_team_id (wb_storage binding), rf_workflow_id = sb_workflow_id (wb_storage binding),
    rf_ticket_id = i\<rparr>"
  from assms(1) entry have vs: "validate_field_values (ws_definition s) vs = Inr ()"
      "\<not> list_ex (\<lambda>(f, v). v \<noteq> VNone \<and> is_git_field (ws_definition s) f) vs"
    and new: "create (sv_provider sv (wb_storage binding)) (mo_stored_at mo)
        (new_ticket i title description (ws_definition s) vs actor (mo_event_id mo)
           (mo_now mo) ref) op st = (t, Inr res)"
    unfolding create_ticket_def i_def ref_def
    by (auto simp: bindS_Inr ensure_eq_Inr Let_def simp del: bindS_readS)
  let ?r = "new_ticket i title description (ws_definition s) vs actor (mo_event_id mo) (mo_now mo) ref"
  have wf: "wf_definition (ws_definition s)" using s by (rule resolve_definition_wf)
  have kinds: "map_of (field_kinds (ws_definition s)) f = field_kind_of (ws_definition s) f" for f
    using wf by (intro field_kinds_map_of) (simp add: wf_definition_def)
  have typed: "\<forall>(f, v)\<in>set vs. \<exists>k. field_kind_of (ws_definition s) f = Some k \<and>
       (v = VNone \<or> kind_matches_value k v \<and> \<not> is_git_field (ws_definition s) f)"
    using vs by (fastforce simp: validate_field_values_iff kinds list_ex_iff)
  have stamp: "map_of (stamp_field_provenance actor vs i now) f = Some pv \<Longrightarrow>
      pv_actor_name pv = actor_name actor" for f pv i now
    by (cases actor) (auto simp: stamp_lookup split: if_splits)
  have body: "tk_state_id (mr_ticket res) = tk_state_id ?r \<and> tk_assignee (mr_ticket res) = None \<and>
      tk_active_run (mr_ticket res) = None \<and> tk_field_values (mr_ticket res) = vs \<and>
      tk_field_provenance (mr_ticket res) = tk_field_provenance ?r \<and> tk_revision (mr_ticket res) = 1 \<and>
      tk_number (mr_ticket res) = last_number st (board_key ref) + 1"
    using new assms(2) by (rule create_Inr) (simp add: new_ticket_def)
  have "wd_initial_state (ws_definition s) \<in> set (map sd_id (wd_states (ws_definition s)))"
    using wf by (simp add: wf_definition_def)
  then show ?thesis
    using b s typed body stamp [of "mo_event_id mo" "mo_now mo"]
    by (intro exI [of _ binding] exI [of _ s])
      (auto simp: new_ticket_def board_key_def ref_def stamp_lookup)
qed

text \<open>C7: Cleaning up after a job never takes a ticket from a run that may still work on it: the active
  run is cleared only on confirmed evidence of exactly that job and session, and the reservation
  only when it was made for that job under the given assignment. Nothing else of the ticket
  changes, and without such evidence the storage is untouched.\<close>

theorem cleanup_clears_only_stopped:
  assumes "cleanup_job_target p now dig ref j a g stopped st = (t, Inr r')"
    and "read p st ref = Inr cur" and "find_receipt cur (''cleanup-'' @ j @ ''-'' @ se_generation stopped) = None"
  shows "tk_state_id r' = tk_state_id cur \<and> tk_assignee r' = tk_assignee cur \<and>
    tk_field_values r' = tk_field_values cur \<and>
    (tk_active_run r' = tk_active_run cur \<or> tk_active_run r' = None \<and> g = Some (se_generation stopped) \<and>
       se_confirmed stopped \<and> (\<exists>run. tk_active_run cur = Some run \<and>
          run_job_id run = se_job_id stopped \<and> run_session_id run = se_generation stopped)) \<and>
    (tk_pending_run r' = tk_pending_run cur \<or> tk_pending_run r' = None \<and> se_confirmed stopped \<and>
       (\<exists>q. tk_pending_run cur = Some q \<and> rv_job_id q = j \<and> se_job_id stopped = j \<and>
          rv_assignment_event_id q = a)) \<and>
    (\<not> se_confirmed stopped \<longrightarrow> t = st \<and> r' = cur)"
proof -
  let ?pending = "se_confirmed stopped \<and> se_job_id stopped = j \<and>
      (case tk_pending_run cur of None \<Rightarrow> False
       | Some q \<Rightarrow> rv_job_id q = j \<and> rv_assignment_event_id q = a)"
  let ?active = "g = Some (se_generation stopped) \<and> may_clear_active_work cur stopped"
  show ?thesis
  proof (cases "?pending \<or> ?active")
    case False
    then have "t = st" "r' = cur" using assms(1,2) by (auto simp: cleanup_job_target_def Let_def)
    then show ?thesis by simp
  next
    case True
    define op where "op = \<lparr>op_id = ''cleanup-'' @ j @ ''-'' @ se_generation stopped, op_request_digest = dig\<rparr>"
    define f where "f = (\<lambda>r. add_event cleanup_event (r\<lparr>
             tk_pending_run := (if ?pending then None else tk_pending_run r),
             tk_active_run := (if ?active then None else tk_active_run r)\<rparr>))"
    from True assms(1,2) obtain res where
      run: "apply_op p now ref (tk_revision cur) op (\<lambda>r. liftS (Inr (f r))) st = (t, Inr res)"
      and r': "r' = mr_ticket res"
      unfolding cleanup_job_target_def op_def f_def Let_def
      by (auto simp: bindS_Inr split: if_splits)
    have conf: "se_confirmed stopped" using True by (auto simp: may_clear_active_work_def)
    from run show ?thesis
    proof (rule apply_op_Inr)
      fix cur' x
      assume "read p st ref = Inr cur'" "find_receipt cur' (op_id op) = Some x"
      with assms(2,3) show ?thesis by (simp add: op_def)
    next
      fix cur' u cand upd
      assume "read p st ref = Inr cur'" "liftS (Inr (f cur')) st = (u, Inr cand)"
        and seal: "sealed_update (pr_uuid p) now cur' cand op upd res"
      with assms(2) have "cur' = cur" "cand = f cur" by auto
      with sealed_result [OF seal] conf show ?thesis
        unfolding r' f_def by (auto simp: may_clear_active_work_def split: option.splits)
    qed
  qed
qed

end
