(* ===== verification/TicketScenarios.thy ===== *)
theory TicketScenarios
  imports TicketService
begin

text \<open>
  The ticket service run on concrete tickets: a board with one ticket, a team with the agents
  \<open>ann\<close> and \<open>bob\<close>, and every command of \<^verbatim>\<open>TicketService\<close> given once. Each scenario discharges
  the hypotheses of one property of the service.
\<close>

section \<open>A service at work\<close>

definition demo_holding :: "ticket_record \<Rightarrow> provider" where
  "demo_holding r = demo_provider\<lparr>pr_load := \<lambda>s. if s = [newline] @ ''one'' @ [newline]
     then YamlMapping True (Some (envelope r)) else YamlError\<rparr>"

definition demo_service :: "ticket_record \<Rightarrow> service" where
  "demo_service r = \<lparr>sv_ids = demo_ids, sv_tools = demo_tools,
     sv_digests = \<lparr>dg_policy = \<lambda>_. [], dg_workspace = \<lambda>_. [], dg_bytes = \<lambda>_. [], dg_parse_manifest = \<lambda>_. None\<rparr>,
     sv_provider = \<lambda>_. demo_holding r, sv_valid_agent = \<lambda>_. True, sv_isoformat = \<lambda>_. ''now'',
     sv_uuid5 = \<lambda>_ _. ''5''\<rparr>"

definition demo_moment :: moment where
  "demo_moment = \<lparr>mo_initial = demo_config, mo_before = demo_config, mo_locked = demo_config,
     mo_current = demo_config, mo_area = demo_area, mo_libraries = \<lambda>_. demo_published,
     mo_libraries_now = \<lambda>_. demo_published, mo_now = 9, mo_stored_at = 10, mo_event_id = ''e9''\<rparr>"

definition demo_version :: ticket_version where
  "demo_version = \<lparr>tv_ref = demo_ref, tv_revision = 1, tv_workflow_digest = ''new'',
     tv_context_digest = ''wf''\<rparr>"

definition demo_ann :: agent_context where
  "demo_ann = \<lparr>cx_job_id = ''j1'', cx_team_id = ''t'', cx_agent_name = ''ann'', cx_session_id = ''s1''\<rparr>"

definition demo_user :: user_context where
  "demo_user = \<lparr>uc_team_id = ''t'', uc_actor_name = ''pat''\<rparr>"

definition demo_binding :: workflow_binding where
  "demo_binding = \<lparr>wb_team_id = ''t'', wb_workflow_id = ''w'', wb_blueprint_id = ''wf'',
     wb_storage = \<lparr>sb_integration = ''local'', sb_config = [(''root'', JStr ''tickets'')],
       sb_team_id = ''t'', sb_workflow_id = ''w'', sb_binding_id = ''b''\<rparr>,
     wb_context_digest = ''wf''\<rparr>"

definition demo_snapshot :: workflow_snapshot where
  "demo_snapshot = \<lparr>ws_definition = demo_workflow, ws_digest = ''new''\<rparr>"

text \<open>A record the demonstration storage can hold.\<close>

definition held :: "ticket_record \<Rightarrow> bool" where
  "held r \<longleftrightarrow> tk_revision r = 1 \<and> tk_description r = ''text'' \<and> tk_ref r = Some demo_ref \<and>
     tk_receipts r = [] \<and> tk_events r = []"

lemma demo_held:
  assumes "held r"
  shows "read (demo_holding r) demo_storage demo_ref = Inr r"
proof -
  have doc: "serialize (demo_holding r) r = serialize demo_provider demo_ticket"
    using assms by (simp add: serialize_def demo_holding_def demo_provider_def held_def envelope_def
        demo_ticket_def)
  have free: "split_at marker ''one'' = None" by code_simp
  have "codec_ok (demo_holding r) r" "marker_free (demo_holding r) r"
    using assms free by (simp_all add: codec_ok_def marker_free_def demo_holding_def demo_provider_def
        held_def envelope_def)
  moreover have "guard_ref (demo_holding r) demo_storage demo_ref = Inr ()"
    using demo_guards(2) by (simp add: guard_ref_def verify_binding_def demo_holding_def)
  moreover have "stored_description ''text'' = ''text''" by code_simp
  ultimately show ?thesis
    using read_document [of demo_storage demo_ref "demo_holding r" r] demo_guards(1) demo_lengths(1) assms
    by (simp add: doc held_def)
qed

lemma demo_resolved: "resolve_workflow_binding demo_ids demo_config ''t'' ''w'' = Inr demo_binding"
  by code_simp

lemma demo_inspected: "inspect_blueprint demo_tools demo_published ''wf'' = Inr demo_snapshot"
proof -
  have "is_slug ''wf''" "wd_id demo_workflow = ''wf''" by code_simp+
  then show ?thesis
    by (simp add: inspect_blueprint_def read_source_def guard_no_reparse_def demo_published_def
        source_at_def checkSourceSize_short validate_source_def demo_tools_def blueprint_dir_def
        demo_valid demo_snapshot_def)
qed

lemma demo_operation: "workflow_operation demo_area demo_config demo_config [''t''] [''wf''] None = Inr demo_config"
  by code_simp

lemma demo_enter:
  assumes "actor = Agent demo_ann \<or> actor = User demo_user"
  shows "enter (demo_service r) demo_moment actor demo_version = Inr (demo_config, demo_binding, demo_snapshot)"
proof -
  have teams: "require_configured_agent demo_config actor = Inr ()"
    using assms by (auto simp: require_configured_agent_def demo_config_def demo_team_def demo_ann_def
        dict_at_def)
  have "cs_library demo_config = Some ''lib''" "tv_workflow_digest demo_version = ws_digest demo_snapshot"
    "wb_blueprint_id demo_binding = ''wf''" "require_current_version demo_binding demo_version = Inr ()"
    by code_simp+
  with assms teams show ?thesis
    by (auto simp: enter_def demo_version_def demo_ref_def validate_actor_def require_team_access_def
        demo_service_def demo_moment_def demo_ann_def demo_user_def resolve_binding_def demo_resolved
        demo_operation resolve_definition_def demo_inspected Let_def)
qed

lemma demo_contract:
  "require_current_contract (demo_service r) demo_moment demo_binding (cs_revision demo_config)
     (Some (ws_digest demo_snapshot)) = Inr ()"
proof -
  have "cs_library demo_config = Some ''lib''" "wd_id (ws_definition demo_snapshot) = ''wf''"
    by code_simp+
  then show ?thesis
    by (simp add: require_current_contract_def demo_moment_def demo_service_def resolve_binding_def
        demo_binding_def demo_resolved [unfolded demo_binding_def] resolve_definition_def demo_inspected Let_def)
qed

text \<open>A command on a held ticket runs to its end when its record-level effect is accepted.\<close>

definition demo_ends :: "ticket_record \<Rightarrow> ticket_record \<Rightarrow> mutation_result \<Rightarrow> bool" where
  "demo_ends r cand res \<longleftrightarrow> require_same_identity r cand = Inr () \<and> tk_description cand = ''text'' \<and>
     (case commit_operation (\<lambda>_. ''u'') cand r demo_op 10 of Inl _ \<Rightarrow> False | Inr x \<Rightarrow> snd x = res)"

lemma demo_mutates:
  assumes "held r" and actor: "actor = Agent demo_ann \<or> actor = User demo_user"
    and m: "m demo_storage r demo_workflow 9 ''e9'' demo_config demo_binding = Inr cand"
    and "demo_ends r cand res"
  shows "\<exists>t. mutate (demo_service r) demo_moment actor demo_version demo_op m demo_storage = (t, Inr res)"
    and "\<not> mr_replayed res"
proof -
  from assms(4) obtain upd where
    same: "require_same_identity r cand = Inr ()" and text1: "tk_description cand = ''text''"
    and commit: "commit_operation (\<lambda>_. ''u'') cand r demo_op 10 = Inr (upd, res)"
    by (auto simp: demo_ends_def split: sum.splits)
  from commit obtain evs i where sealed: "seal_operation (cand\<lparr>tk_revision := tk_revision r + 1,
      tk_updated_at := 10, tk_events := evs\<rparr>) demo_op 10 i = (upd, res)"
    by (auto simp: commit_operation_def bindE_eq_Inr)
  then have "upd = fst (seal_operation (cand\<lparr>tk_revision := tk_revision r + 1,
      tk_updated_at := 10, tk_events := evs\<rparr>) demo_op 10 i)"
    "res = snd (seal_operation (cand\<lparr>tk_revision := tk_revision r + 1,
      tk_updated_at := 10, tk_events := evs\<rparr>) demo_op 10 i)" by (metis fst_conv, metis snd_conv)
  then have two: "tk_revision upd = 2" "tk_description upd = ''text''" and "\<not> mr_replayed res"
    using assms(1) text1 by (simp_all add: held_def seal_operation_def Let_def)
  then show "\<not> mr_replayed res" by simp
  have "serialize (demo_holding r) upd = serialize demo_provider (fst demo_seal)"
  proof -
    have "tk_revision (fst demo_seal) = 2" "tk_description (fst demo_seal) = ''text''" by code_simp+
    then show ?thesis
      using two by (simp add: serialize_def demo_holding_def demo_provider_def envelope_def)
  qed
  with demo_lengths(2) have short: "utf8_len (serialize (demo_holding r) upd) \<le> MAX_TICKET_BYTES" by simp
  have "(mutate_current_record (demo_service r) demo_moment m r demo_workflow demo_config demo_binding ''new'')
      demo_storage = (demo_storage, Inr cand)"
    using m demo_contract [of r]
    by (simp add: mutate_current_record_def demo_snapshot_def demo_moment_def)
  moreover have "find_receipt r (op_id demo_op) = None" "tk_revision r = 1"
    using assms(1) by (simp_all add: held_def find_receipt_def)
  ultimately have "apply_op (demo_holding r) 10 demo_ref 1 demo_op
      (\<lambda>r'. mutate_current_record (demo_service r) demo_moment m r' demo_workflow demo_config demo_binding ''new'')
      demo_storage = (demo_storage\<lparr>fs_docs := AList.update (doc_key demo_ref)
        (TextFile (serialize (demo_holding r) upd)) (fs_docs demo_storage)\<rparr>, Inr res)"
    using apply_new [OF demo_held [OF assms(1)] _ _ demo_guards(3) _ same _ short] commit demo_commit(6)
    by (simp add: demo_holding_def demo_provider_def)
  then show "\<exists>t. mutate (demo_service r) demo_moment actor demo_version demo_op m demo_storage = (t, Inr res)"
    using demo_enter [OF actor, of r]
    by (simp add: mutate_def demo_service_def demo_moment_def demo_version_def demo_snapshot_def)
qed

section \<open>The scenarios\<close>

text \<open>The ticket while \<open>ann\<close> works on it.\<close>

definition demo_mine :: ticket_record where
  "demo_mine = demo_ticket\<lparr>tk_assignee := Some ''ann'', tk_field_values := [(''cost'', VInt 3)],
     tk_active_run := Some \<lparr>run_job_id = ''j1'', run_session_id = ''s1'', run_started_at = 3\<rparr>\<rparr>"

definition demo_ending :: "ticket_error + ticket_record \<Rightarrow> ticket_record \<Rightarrow> mutation_result" where
  "demo_ending m r = (case m of Inl _ \<Rightarrow> snd demo_seal | Inr cand \<Rightarrow>
     (case commit_operation (\<lambda>_. ''u'') cand r demo_op 10 of Inl _ \<Rightarrow> snd demo_seal | Inr x \<Rightarrow> snd x))"

definition demo_accepts :: "ticket_error + ticket_record \<Rightarrow> ticket_record \<Rightarrow> bool" where
  "demo_accepts m r \<longleftrightarrow> (case m of Inl _ \<Rightarrow> False | Inr cand \<Rightarrow> demo_ends r cand (demo_ending m r))"

lemma demo_runs:
  assumes "held r" "actor = Agent demo_ann \<or> actor = User demo_user"
    and "demo_accepts (m demo_storage r demo_workflow 9 ''e9'' demo_config demo_binding) r"
  obtains t res where
    "mutate (demo_service r) demo_moment actor demo_version demo_op m demo_storage = (t, Inr res)"
    "res = demo_ending (m demo_storage r demo_workflow 9 ''e9'' demo_config demo_binding) r"
    "\<not> mr_replayed res"
proof -
  from assms(3) obtain cand where "m demo_storage r demo_workflow 9 ''e9'' demo_config demo_binding = Inr cand"
    "demo_ends r cand (demo_ending (m demo_storage r demo_workflow 9 ''e9'' demo_config demo_binding) r)"
    by (auto simp: demo_accepts_def split: sum.splits)
  from demo_mutates [where m = m, OF assms(1,2) this] that show thesis by blast
qed

lemma held_demo: "held demo_ticket" "held demo_mine"
  by (simp_all add: held_def demo_ticket_def demo_mine_def)

lemma demo_provided: "sv_provider (demo_service r) b = demo_holding r"
  by (simp add: demo_service_def)

lemma demo_version_ref: "tv_ref demo_version = demo_ref"
  by (simp add: demo_version_def)

text \<open>What the theorems say of the ticket the storage held is said of \<open>r\<close>.\<close>

lemma demo_was:
  assumes "held r" "read (sv_provider (demo_service r) b) demo_storage (tv_ref demo_version) = Inr cur"
  shows "cur = r"
  using assms demo_held by (simp add: demo_provided demo_version_ref)

text \<open>What each command does to the record when the service is at this moment.\<close>

abbreviation demo_start :: mutation where
  "demo_start \<equiv> (\<lambda>st r d now event_id snapshot binding. start_work_record r demo_ann now
     (service_event ''started-work'' (Agent demo_ann) ''Agent started work'' event_id now))"

abbreviation demo_end :: mutation where
  "demo_end \<equiv> (\<lambda>st r d now event_id snapshot binding. end_work_record r demo_ann
     (service_event ''ended-work'' (Agent demo_ann) ''Agent ended active work'' event_id now))"

abbreviation demo_assign :: mutation where
  "demo_assign \<equiv> (\<lambda>st r d now event_id snapshot binding. assign_record snapshot r (Some ''bob'')
     (service_event ''assigned'' (User demo_user) ''Ticket assignment changed'' event_id now))"

definition demo_patch :: ticket_patch where
  "demo_patch = \<lparr>tp_title = None, tp_description = None, tp_field_values = Some [(''cost'', VInt 5)]\<rparr>"

abbreviation demo_update :: "ticket_record \<Rightarrow> mutation" where
  "demo_update r0 \<equiv> (\<lambda>st r d now event_id snapshot binding. update_record (demo_service r0)
     (sv_provider (demo_service r0) (wb_storage binding)) st r d (Agent demo_ann) demo_patch now event_id
     (service_event ''updated'' (Agent demo_ann) ''Ticket content updated'' event_id now) snapshot binding)"

definition demo_request :: transition_request where
  "demo_request = \<lparr>tq_transition_id = ''finish'', tq_inputs = [], tq_outputs = [(''note'', VStr ''paid'')],
     tq_assessments = [demo_assessment]\<rparr>"

abbreviation demo_finish :: "ticket_record \<Rightarrow> mutation" where
  "demo_finish r0 \<equiv> (\<lambda>st r d now event_id snapshot binding. transition_record (demo_service r0)
     (sv_provider (demo_service r0) (wb_storage binding)) st r d demo_ann demo_request now event_id demo_op
     demo_version binding snapshot)"

lemma demo_accepted:
  "demo_accepts (demo_start demo_storage demo_ticket demo_workflow 9 ''e9'' demo_config demo_binding) demo_ticket"
  "demo_accepts (demo_end demo_storage demo_mine demo_workflow 9 ''e9'' demo_config demo_binding) demo_mine"
  "demo_accepts (demo_assign demo_storage demo_ticket demo_workflow 9 ''e9'' demo_config demo_binding) demo_ticket"
  by code_simp+

lemma demo_accepted_update:
  "demo_accepts (demo_update demo_mine demo_storage demo_mine demo_workflow 9 ''e9'' demo_config demo_binding)
     demo_mine"
  by code_simp

lemma demo_accepted_finish:
  "demo_accepts (demo_finish demo_mine demo_storage demo_mine demo_workflow 9 ''e9'' demo_config demo_binding)
     demo_mine"
  by code_simp

theorem start_work_effect_witness:
  "\<exists>t res. start_work (demo_service demo_ticket) demo_moment (Agent demo_ann) demo_version demo_op
     demo_storage = (t, Inr res) \<and> require_active_owner (mr_ticket res) demo_ann = Inr ()"
proof -
  obtain t res where "mutate (demo_service demo_ticket) demo_moment (Agent demo_ann) demo_version demo_op
      (demo_start) demo_storage = (t, Inr res)" "\<not> mr_replayed res"
    by (rule demo_runs [where m = "demo_start", OF held_demo(1) _ demo_accepted(1)]) auto
  then have run: "start_work (demo_service demo_ticket) demo_moment (Agent demo_ann) demo_version demo_op
      demo_storage = (t, Inr res)" "\<not> mr_replayed res" by (simp_all add: start_work_def agent_only_def)
  from start_work_effect [OF this] run show ?thesis by auto
qed

theorem mutation_fenced_witness:
  "\<exists>t res. mutate (demo_service demo_mine) demo_moment (Agent demo_ann) demo_version demo_op demo_end
     demo_storage = (t, Inr res) \<and> tk_revision (mr_ticket res) = 2"
proof -
  obtain t res where "mutate (demo_service demo_mine) demo_moment (Agent demo_ann) demo_version demo_op
      (demo_end) demo_storage = (t, Inr res)" "\<not> mr_replayed res"
    by (rule demo_runs [where m = "demo_end", OF held_demo(2) _ demo_accepted(2)]) auto
  from mutation_fenced [OF this] this(1) show ?thesis
    by (auto simp: demo_version_def)
qed

theorem release_effect_witness:
  "\<exists>t res. end_work (demo_service demo_mine) demo_moment (Agent demo_ann) demo_version demo_op
     demo_storage = (t, Inr res) \<and> tk_assignee (mr_ticket res) = Some ''ann''"
proof -
  obtain t res where "mutate (demo_service demo_mine) demo_moment (Agent demo_ann) demo_version demo_op
      (demo_end) demo_storage = (t, Inr res)" "\<not> mr_replayed res"
    by (rule demo_runs [where m = "demo_end", OF held_demo(2) _ demo_accepted(2)]) auto
  then have run: "end_work (demo_service demo_mine) demo_moment (Agent demo_ann) demo_version demo_op
      demo_storage = (t, Inr res)" "\<not> mr_replayed res" by (simp_all add: end_work_def agent_only_def)
  then have "(if False then sign_off (demo_service demo_mine) demo_moment (Agent demo_ann) demo_version demo_op
      demo_storage else end_work (demo_service demo_mine) demo_moment (Agent demo_ann) demo_version demo_op
      demo_storage) = (t, Inr res)" by simp
  from release_effect [OF this run(2)] run(1) show ?thesis by (auto simp: demo_ann_def)
qed

theorem assign_effect_witness:
  "\<exists>t res. assign (demo_service demo_ticket) demo_moment (User demo_user) demo_version (Some ''bob'') demo_op
     demo_storage = (t, Inr res) \<and> tk_assignee (mr_ticket res) = Some ''bob''"
proof -
  obtain t res where "mutate (demo_service demo_ticket) demo_moment (User demo_user) demo_version demo_op
      (demo_assign) demo_storage = (t, Inr res)" "\<not> mr_replayed res"
    by (rule demo_runs [where m = "demo_assign" and actor = "User demo_user", OF held_demo(1) _ demo_accepted(3)]) auto
  then have run: "assign (demo_service demo_ticket) demo_moment (User demo_user) demo_version (Some ''bob'') demo_op
      demo_storage = (t, Inr res)" "\<not> mr_replayed res" by (simp_all add: assign_def)
  from assign_effect [OF this] run show ?thesis by auto
qed



lemma demo_enter_stale:
  "enter (demo_service r) demo_moment (User demo_user) (demo_version\<lparr>tv_context_digest := ''old''\<rparr>) =
     Inl staleTicket"
proof -
  have "require_current_version demo_binding (demo_version\<lparr>tv_context_digest := ''old''\<rparr>) = Inl staleTicket"
    "wb_blueprint_id demo_binding = ''wf''" by code_simp+
  then show ?thesis
    by (simp add: enter_def demo_version_ref demo_ref_def validate_actor_def require_team_access_def
        demo_service_def demo_moment_def demo_user_def resolve_binding_def demo_resolved demo_operation
        require_configured_agent_def Let_def)
qed


theorem active_run_is_assigned_witness:
  "\<exists>r. ticket_step\<^sup>*\<^sup>* demo_ticket r \<and> tk_active_run r \<noteq> None \<and> tk_assignee r \<noteq> None"
proof -
  obtain r where step: "start_work_record demo_ticket demo_ann 9 (service_event ''started-work''
      (Agent demo_ann) ''Agent started work'' ''e9'' 9) = Inr r"
    using demo_accepted(1) by (auto simp: demo_accepts_def split: sum.splits)
  then have "ticket_step demo_ticket r" by (rule ticket_step.started)
  then have steps: "ticket_step\<^sup>*\<^sup>* demo_ticket r" by simp
  have idle: "tk_active_run demo_ticket \<noteq> None \<longrightarrow> tk_assignee demo_ticket \<noteq> None"
    by (simp add: demo_ticket_def)
  have "tk_active_run r \<noteq> None" using start_work_record_Inr [OF step] by auto
  with active_run_is_assigned [OF steps idle] steps show ?thesis by blast
qed

text \<open>A ticket created on the same board, and the cleanup after the job that worked on one.\<close>

definition demo_opened_ticket :: ticket_record where
  "demo_opened_ticket = new_ticket ''ticket-5'' ''New'' ''text'' demo_workflow [(''cost'', VInt 3)]
     (User demo_user) ''e9'' 9 (demo_id ''ticket-5'')"

definition demo_created :: "ticket_record \<times> mutation_result" where
  "demo_created = seal_operation (demo_opened_ticket\<lparr>tk_number := 2, tk_revision := 1,
     tk_created_at := 10, tk_updated_at := 10\<rparr>) demo_op 10 ''e9''"

lemma demo_create_run:
  obtains t where "create (demo_holding demo_ticket) 10 demo_opened_ticket demo_op demo_storage =
    (t, Inr (snd demo_created))"
proof -
  have a: "tk_ref demo_opened_ticket = Some (demo_id ''ticket-5'')" by code_simp
  have b: "guard_ref (demo_holding demo_ticket) demo_storage (demo_id ''ticket-5'') = Inr ()"
    "require_safe_metadata demo_storage (rf_team_id (demo_id ''ticket-5'')) (rf_workflow_id (demo_id ''ticket-5''))
       ''.namespace.lock'' = Inr ()"
    "doc_at demo_storage (demo_id ''ticket-5'') = NoFile" by code_simp+
  have c: "next_number (demo_id ''ticket-5'') demo_storage = (demo_numbered demo_storage 2, Inr 2)"
    by code_simp
  have d: "commit_creation (pr_uuid (demo_holding demo_ticket)) (demo_opened_ticket\<lparr>tk_number := 2,
      tk_revision := 1, tk_created_at := 10, tk_updated_at := 10\<rparr>) demo_op 10 =
      Inr (fst demo_created, snd demo_created)" by code_simp
  have "utf8_len (serialize (demo_holding demo_ticket) (fst demo_created)) = 18" by code_simp
  then have e: "utf8_len (serialize (demo_holding demo_ticket) (fst demo_created)) \<le> MAX_TICKET_BYTES"
    by (simp add: MAX_TICKET_BYTES_def)
  have f: "ticket_path (demo_id ''ticket-5'') \<notin> set (fs_readonly (demo_numbered demo_storage 2))"
    by code_simp
  from create_new [OF a b c d e f] that show thesis by blast
qed

lemma demo_enter_creation:
  "enter_creation (demo_service r) demo_moment (User demo_user) ''w'' =
     Inr (demo_config, demo_binding, demo_snapshot)"
proof -
  have "cs_library demo_config = Some ''lib''" "wb_blueprint_id demo_binding = ''wf''" by code_simp+
  then show ?thesis
    by (simp add: enter_creation_def validate_actor_def demo_service_def demo_moment_def demo_user_def
        resolve_binding_def demo_resolved demo_operation resolve_definition_def demo_inspected Let_def
        require_configured_agent_def)
qed

lemma demo_ticket_opened:
  obtains t where "create_ticket (demo_service demo_ticket) demo_moment (User demo_user) ''w'' ''New'' ''text''
    (Some [(''cost'', VInt 3)]) demo_op demo_storage = (t, Inr (snd demo_created))"
proof -
  obtain t where t: "create (demo_holding demo_ticket) 10 demo_opened_ticket demo_op demo_storage =
    (t, Inr (snd demo_created))" by (rule demo_create_run)
  have id: "creation_ticket_id (demo_service demo_ticket) (wb_storage demo_binding) (User demo_user) demo_op =
      ''ticket-5''" by (simp add: creation_ticket_id_def demo_service_def)
  have ref: "\<lparr>rf_binding_id = sb_binding_id (wb_storage demo_binding),
      rf_team_id = sb_team_id (wb_storage demo_binding), rf_workflow_id = sb_workflow_id (wb_storage demo_binding),
      rf_ticket_id = ''ticket-5''\<rparr> = demo_id ''ticket-5''" by code_simp
  have typed: "validate_field_values demo_workflow [(''cost'', VInt 3)] = Inr ()"
    "\<not> is_git_field demo_workflow ''cost''" by code_simp+
  have mo: "mo_event_id demo_moment = ''e9''" "mo_now demo_moment = 9" "mo_stored_at demo_moment = 10"
    by (simp_all add: demo_moment_def)
  have d: "ws_definition demo_snapshot = demo_workflow" by (simp add: demo_snapshot_def)
  show thesis
    by (rule that [of t])
      (use typed demo_contract [of demo_ticket] in \<open>simp add: create_ticket_def demo_enter_creation Let_def
        id ref mo d t demo_provided demo_opened_ticket_def [symmetric]\<close>)
qed

theorem create_effect_witness:
  "\<exists>t res. create_ticket (demo_service demo_ticket) demo_moment (User demo_user) ''w'' ''New'' ''text''
     (Some [(''cost'', VInt 3)]) demo_op demo_storage = (t, Inr res) \<and> tk_revision (mr_ticket res) = 1"
proof -
  obtain t where run: "create_ticket (demo_service demo_ticket) demo_moment (User demo_user) ''w'' ''New'' ''text''
    (Some [(''cost'', VInt 3)]) demo_op demo_storage = (t, Inr (snd demo_created))" by (rule demo_ticket_opened)
  have "\<not> mr_replayed (snd demo_created)" by (simp add: demo_created_def)
  from create_effect [OF run this] run show ?thesis by blast
qed

definition demo_stopped :: stop_evidence where
  "demo_stopped = \<lparr>se_job_id = ''j1'', se_generation = ''s1'', se_confirmed = True\<rparr>"

definition demo_cleaned :: "ticket_record \<times> mutation_result" where
  "demo_cleaned = seal_operation (demo_mine\<lparr>tk_active_run := None, tk_revision := 2, tk_updated_at := 10,
     tk_events := [cleanup_event\<lparr>te_id := ''u'', te_at := Some 10\<rparr>]\<rparr>)
     \<lparr>op_id = ''cleanup-j1-s1'', op_request_digest = ''d''\<rparr> 10 ''u''"

lemma demo_cleanup_run:
  obtains t where "cleanup_job_target (demo_holding demo_mine) 10 ''d'' demo_ref ''j1'' ''a1'' (Some ''s1'')
    demo_stopped demo_storage = (t, Inr (mr_ticket (snd demo_cleaned)))"
proof -
  let ?f = "\<lambda>r. add_event cleanup_event (r\<lparr>tk_pending_run := tk_pending_run r, tk_active_run := None\<rparr>)"
  have rd: "read (demo_holding demo_mine) demo_storage demo_ref = Inr demo_mine"
    by (rule demo_held [OF held_demo(2)])
  have none: "find_receipt demo_mine (op_id \<lparr>op_id = ''cleanup-j1-s1'', op_request_digest = ''d''\<rparr>) = None"
    "tk_revision demo_mine = 1" by code_simp+
  have run: "(\<lambda>r. liftS (Inr (?f r))) demo_mine demo_storage = (demo_storage, Inr (?f demo_mine))" by simp
  have same: "require_same_identity demo_mine (?f demo_mine) = Inr ()" by code_simp
  have commit: "commit_operation (pr_uuid (demo_holding demo_mine)) (?f demo_mine) demo_mine
      \<lparr>op_id = ''cleanup-j1-s1'', op_request_digest = ''d''\<rparr> 10 = Inr (fst demo_cleaned, snd demo_cleaned)"
    by code_simp
  have "utf8_len (serialize (demo_holding demo_mine) (fst demo_cleaned)) = 18" by code_simp
  then have short: "utf8_len (serialize (demo_holding demo_mine) (fst demo_cleaned)) \<le> MAX_TICKET_BYTES"
    by (simp add: MAX_TICKET_BYTES_def)
  have clear: "may_clear_active_work demo_mine demo_stopped" "se_generation demo_stopped = ''s1''"
    "tk_pending_run demo_mine = None" by code_simp+
  note applied = apply_new [where mutate = "\<lambda>r. liftS (Inr (?f r))", OF rd none demo_guards(3) run same
      commit short demo_commit(6)]
  show thesis
    by (rule that) (use clear none applied in
      \<open>simp add: cleanup_job_target_def rd Let_def bindS_def [of "apply_op p n r v i m" for p n r v i m]\<close>)
qed

theorem cleanup_clears_only_stopped_witness:
  "tk_assignee (mr_ticket (snd demo_cleaned)) = Some ''ann'' \<and>
   tk_active_run (mr_ticket (snd demo_cleaned)) = None"
proof -
  obtain t where run: "cleanup_job_target (demo_holding demo_mine) 10 ''d'' demo_ref ''j1'' ''a1'' (Some ''s1'')
    demo_stopped demo_storage = (t, Inr (mr_ticket (snd demo_cleaned)))" by (rule demo_cleanup_run)
  have "find_receipt demo_mine (''cleanup-'' @ ''j1'' @ ''-'' @ se_generation demo_stopped) = None"
    "tk_assignee demo_mine = Some ''ann''" by code_simp+
  with cleanup_clears_only_stopped [OF run demo_held [OF held_demo(2)]] show ?thesis
    by (simp add: demo_cleaned_def)
qed

end
