(* ===== verification/JobModels.thy ===== *)
theory JobModels
  imports WorkflowConfig
begin

text \<open>
  Durable jobs, \<^verbatim>\<open>flowgency/jobs/models.py\<close>: the immutable specification of a job, its record, the
  contract of each trigger, and the mapping to and from the data a job file holds. The digest of a
  specification and the canonical form of paths are arguments.

  Fields the program only carries along keep the JSON value they were read with. A field the
  program computes with has its type; reading one of another type raises \<open>TypeError\<close> here, and
  where the field is first used in Python (nothing in the repository writes such a record).
\<close>

section \<open>Python's conversions\<close>

fun falsy :: "json \<Rightarrow> bool" where
  "falsy JNull = True"
| "falsy (JBool b) = (\<not> b)"
| "falsy (JInt i) = (i = 0)"
| "falsy (JFloat x) = (x = Finite 0)"
| "falsy (JStr s) = (s = [])"
| "falsy (JList xs) = (xs = [])"
| "falsy (JObj d) = (d = [])"

text \<open>\<open>dict(x)\<close>, where a sequence must hold pairs, and \<open>tuple(x)\<close>.\<close>

fun py_pair :: "json \<Rightarrow> ticket_error + string \<times> json" where
  "py_pair (JList [JStr k, v]) = Inr (k, v)"
| "py_pair (JList [_, _]) = Inl typeError"
| "py_pair (JList _) = Inl valueError"
| "py_pair (JStr [a, b]) = Inr ([a], JStr [b])"
| "py_pair (JStr _) = Inl valueError"
| "py_pair (JObj [(a, _), (b, _)]) = Inr (a, JStr b)"
| "py_pair (JObj _) = Inl valueError"
| "py_pair _ = Inl typeError"

fun py_dict :: "json \<Rightarrow> ticket_error + (string, json) dict" where
  "py_dict (JObj d) = Inr d"
| "py_dict (JList xs) = bindE (mapE py_pair xs) (\<lambda>ps. Inr (dict_update [] ps))"
| "py_dict (JStr s) = bindE (mapE (\<lambda>c. py_pair (JStr [c])) s) (\<lambda>ps. Inr (dict_update [] ps))"
| "py_dict _ = Inl typeError"

fun py_tuple :: "json \<Rightarrow> ticket_error + json list" where
  "py_tuple (JList xs) = Inr xs"
| "py_tuple (JObj d) = Inr (map JStr (keys d))"
| "py_tuple (JStr s) = Inr (map (\<lambda>c. JStr [c]) s)"
| "py_tuple _ = Inl typeError"

text \<open>\<open>x[k]\<close> on data, and a call \<open>f(**x)\<close> whose keywords are the required and the optional ones.\<close>

definition item :: "json \<Rightarrow> string \<Rightarrow> ticket_error + json" where
  "item j k = (case j of
      JObj d \<Rightarrow> (case map_of d k of None \<Rightarrow> Inl keyError | Some v \<Rightarrow> Inr v)
    | _ \<Rightarrow> Inl typeError)"

definition kwargs :: "string list \<Rightarrow> string list \<Rightarrow> json \<Rightarrow> ticket_error + (string, json) dict" where
  "kwargs required optional j = (case j of
      JObj d \<Rightarrow> if set (keys d) \<subseteq> set (required @ optional) \<and> set required \<subseteq> set (keys d)
                then Inr d else Inl typeError
    | _ \<Rightarrow> Inl typeError)"

fun as_string :: "json \<Rightarrow> ticket_error + string" where
  "as_string (JStr s) = Inr s"
| "as_string _ = Inl typeError"

fun as_int :: "json \<Rightarrow> ticket_error + int" where
  "as_int (JInt i) = Inr i"
| "as_int _ = Inl typeError"

definition optional :: "(json \<Rightarrow> ticket_error + 'a) \<Rightarrow> json \<Rightarrow> ticket_error + 'a option" where
  "optional f j = (if j = JNull then Inr None else bindE (f j) (\<lambda>x. Inr (Some x)))"

definition opt_json :: "('a \<Rightarrow> json) \<Rightarrow> 'a option \<Rightarrow> json" where
  "opt_json f x = (case x of None \<Rightarrow> JNull | Some y \<Rightarrow> f y)"

lemma optional_opt_json [simp]:
  "optional as_string (opt_json JStr x) = Inr x" "optional as_int (opt_json JInt i) = Inr i"
  by (simp_all add: optional_def opt_json_def split: option.split)

section \<open>Specifications and records\<close>

record blueprint_ref =
  bp_key :: json
  bp_source_digest :: json
  bp_integration :: json
  bp_projector_version :: json
  bp_cache_path :: json
  bp_instance_digest :: json

record runtime_policy =
  ry_timeout :: json
  ry_mode :: json
  ry_rules :: "json list"

record memory_binding =
  mb_selector :: json
  mb_canonical_json :: json
  mb_memory_hash :: json
  mb_path :: json

record prompt_snapshot =
  ps_name :: json
  ps_content :: json
  ps_source_digest :: json

record job_target =
  tg_binding :: storage_binding
  tg_ref :: ticket_ref
  tg_assigned_agent :: string
  tg_assignment_event_id :: string
  tg_context_digest :: string

record job_spec =
  sp_schema_version :: int
  sp_job_id :: string
  sp_config_path :: json
  sp_config_revision :: string
  sp_team_key :: string
  sp_workspace_root :: string
  sp_team_root :: string
  sp_agent_name :: string
  sp_trigger :: string
  sp_integration_name :: string
  sp_integration_config :: "(string, json) dict"
  sp_blueprint :: blueprint_ref
  sp_routine_id :: json
  sp_skill :: json
  sp_skill_arguments :: "json list"
  sp_task_input :: string
  sp_runtime_policy :: runtime_policy
  sp_memory :: memory_binding
  sp_trigger_context :: json
  sp_prompt_source :: json
  sp_timeout_override :: json
  sp_created_at :: "string option"
  sp_private_prompts :: "prompt_snapshot list"
  sp_writable_agents :: "json list option"
  sp_ticket_target :: "job_target option"

datatype job_status = Queued | WaitingForMemory | Running | Complete | Failed | Cancelled

record job_record =
  jr_spec :: job_spec
  jr_authority_digest :: string
  jr_status :: job_status
  jr_worker_pid :: "int option"
  jr_started_at :: "string option"
  jr_completed_at :: "string option"
  jr_stdout_path :: json
  jr_stderr_path :: json
  jr_exit_code :: json
  jr_duration_seconds :: json
  jr_changed_files :: json
  jr_execution_summary :: "string option"
  jr_base_sha :: json
  jr_memory_publication :: json
  jr_result_metadata :: json
  jr_session_id :: "string option"
  jr_copilot_home :: json
  jr_due_at :: "string option"
  jr_launched_at :: "string option"

text \<open>What the job files depend on: the YAML library, SHA-256 of the canonical JSON, and the
  identities of the configuration.\<close>

record job_tools =
  jt_dump :: "json \<Rightarrow> string"
  jt_load :: "string \<Rightarrow> json option"
  jt_sha :: "json \<Rightarrow> string"
  jt_ids :: identities

section \<open>Validation\<close>

definition VALID_TRIGGERS :: "string list" where
  "VALID_TRIGGERS = [''scheduled_prompt'', ''manual_prompt'', ''decision'', ''decision_retry'', ''ticket'']"

text \<open>\<open>_DIGEST.fullmatch\<close>: no trailing newline here.\<close>

definition full_digest :: "string \<Rightarrow> bool" where
  "full_digest s \<longleftrightarrow> length s = 64 \<and> list_all is_hex_lower s"

definition validate_target :: "job_target \<Rightarrow> ticket_error + unit" where
  "validate_target t =
     bindE (ensure (rf_binding_id (tg_ref t) = sb_binding_id (tg_binding t)) valueError) (\<lambda>_.
     bindE (ensure (rf_team_id (tg_ref t) = sb_team_id (tg_binding t)) valueError) (\<lambda>_.
     bindE (ensure (rf_workflow_id (tg_ref t) = sb_workflow_id (tg_binding t)) valueError) (\<lambda>_.
     bindE (ensure (strip (tg_assigned_agent t) \<noteq> []) valueError) (\<lambda>_.
     bindE (ensure (strip (tg_assignment_event_id t) \<noteq> []) valueError) (\<lambda>_.
     ensure (full_digest (tg_context_digest t)) valueError)))))"

definition validate_trigger_contract :: "job_spec \<Rightarrow> ticket_error + unit" where
  "validate_trigger_contract s =
     bindE (ensure (sp_skill s = JNull) valueError) (\<lambda>_.
     bindE (ensure (sp_skill_arguments s = []) valueError) (\<lambda>_.
     bindE (ensure (\<not> (sp_schema_version s = 5 \<and> sp_ticket_target s \<noteq> None)) valueError) (\<lambda>_.
     bindE (ensure (\<not> (sp_trigger s \<noteq> ''ticket'' \<and> sp_ticket_target s \<noteq> None)) valueError) (\<lambda>_.
     bindE (if sp_trigger s \<in> {''scheduled_prompt'', ''manual_prompt''} then
              bindE (ensure (sp_prompt_source s \<noteq> JNull) valueError) (\<lambda>_.
              ensure (\<not> (sp_trigger s = ''scheduled_prompt'' \<and> falsy (sp_routine_id s))) valueError)
            else Inr ()) (\<lambda>_.
     bindE (ensure (\<not> (sp_trigger s \<in> {''decision'', ''decision_retry''} \<and> sp_routine_id s \<noteq> JNull)) valueError) (\<lambda>_.
     if sp_trigger s = ''ticket'' then
       bindE (ensure (6 \<le> sp_schema_version s) valueError) (\<lambda>_.
       case sp_ticket_target s of None \<Rightarrow> Inl valueError
       | Some t \<Rightarrow>
         bindE (case sp_prompt_source s of
             JNull \<Rightarrow> Inl valueError
           | JObj d \<Rightarrow> ensure (map_of d ''type'' = Some (JStr ''ticket'')) valueError
           | _ \<Rightarrow> Inl (PyError ''AttributeError'')) (\<lambda>_.
         bindE (ensure (rf_team_id (tg_ref t) = sp_team_key s) valueError) (\<lambda>_.
         ensure (tg_assigned_agent t = sp_agent_name s) valueError)))
     else Inr ()))))))"

text \<open>The checks that fields are strings are the types of the record.\<close>

definition validate_spec :: "job_spec \<Rightarrow> ticket_error + unit" where
  "validate_spec s =
     bindE (ensure (sp_schema_version s \<in> {5, 6}) valueError) (\<lambda>_.
     bindE (ensure (sp_trigger s \<in> set VALID_TRIGGERS) valueError) (\<lambda>_.
     bindE (ensure (strip (sp_job_id s) \<noteq> []) valueError) (\<lambda>_.
     bindE (ensure (strip (sp_team_key s) \<noteq> []) valueError) (\<lambda>_.
     bindE (ensure (strip (sp_agent_name s) \<noteq> []) valueError) (\<lambda>_.
     bindE (ensure (strip (sp_task_input s) \<noteq> []) valueError) (\<lambda>_.
     validate_trigger_contract s))))))"

section \<open>Data and back\<close>

definition binding_json :: "storage_binding \<Rightarrow> json" where
  "binding_json b = JObj [(''integration'', JStr (sb_integration b)), (''config'', JObj (sb_config b)),
     (''team_id'', JStr (sb_team_id b)), (''workflow_id'', JStr (sb_workflow_id b))]"

definition ref_json :: "ticket_ref \<Rightarrow> json" where
  "ref_json r = JObj [(''binding_id'', JStr (rf_binding_id r)), (''team_id'', JStr (rf_team_id r)),
     (''workflow_id'', JStr (rf_workflow_id r)), (''ticket_id'', JStr (rf_ticket_id r))]"

definition target_json :: "job_target \<Rightarrow> json" where
  "target_json t = JObj [(''binding'', binding_json (tg_binding t)), (''ref'', ref_json (tg_ref t)),
     (''assigned_agent'', JStr (tg_assigned_agent t)),
     (''assignment_event_id'', JStr (tg_assignment_event_id t)),
     (''context_digest'', JStr (tg_context_digest t))]"

text \<open>Pydantic reports every mismatch as a \<open>ValueError\<close>; the configuration is canonicalized first.\<close>

definition strict_string :: "(string, json) dict \<Rightarrow> string \<Rightarrow> ticket_error + string" where
  "strict_string d k = (case map_of d k of Some (JStr s) \<Rightarrow> Inr s | _ \<Rightarrow> Inl valueError)"

definition binding_of_json :: "identities \<Rightarrow> json \<Rightarrow> ticket_error + storage_binding" where
  "binding_of_json ids j = (case j of
      JObj d \<Rightarrow>
        (case (map_of d ''integration'', map_of d ''config'') of
           (Some (JStr i), Some c) \<Rightarrow>
             bindE (py_dict c) (\<lambda>config.
             bindE (canonical_config ids i config) (\<lambda>_.
             bindE (ensure (set (keys d) \<subseteq> {''integration'', ''config'', ''team_id'', ''workflow_id''})
                      valueError) (\<lambda>_.
             bindE (strict_string d ''team_id'') (\<lambda>team.
             bindE (strict_string d ''workflow_id'') (\<lambda>workflow.
             new_storage_binding ids i config team workflow)))))
         | (Some _, Some c) \<Rightarrow> bindE (py_dict c) (\<lambda>_. Inl valueError)
         | _ \<Rightarrow> Inl valueError)
    | _ \<Rightarrow> Inl valueError)"

definition ref_of_json :: "json \<Rightarrow> ticket_error + ticket_ref" where
  "ref_of_json j = (case j of
      JObj d \<Rightarrow>
        bindE (ensure (set (keys d) \<subseteq> {''binding_id'', ''team_id'', ''workflow_id'', ''ticket_id''})
                 valueError) (\<lambda>_.
        bindE (strict_string d ''binding_id'') (\<lambda>b.
        bindE (strict_string d ''team_id'') (\<lambda>t.
        bindE (strict_string d ''workflow_id'') (\<lambda>w.
        bindE (strict_string d ''ticket_id'') (\<lambda>i.
        Inr \<lparr>rf_binding_id = b, rf_team_id = t, rf_workflow_id = w, rf_ticket_id = i\<rparr>)))))
    | _ \<Rightarrow> Inl valueError)"

definition target_of_json :: "identities \<Rightarrow> json \<Rightarrow> ticket_error + job_target" where
  "target_of_json ids j =
     bindE (item j ''binding'') (\<lambda>bj. bindE (binding_of_json ids bj) (\<lambda>b.
     bindE (item j ''ref'') (\<lambda>rj. bindE (ref_of_json rj) (\<lambda>r.
     bindE (item j ''assigned_agent'') (\<lambda>aj.
     bindE (item j ''assignment_event_id'') (\<lambda>ej.
     bindE (item j ''context_digest'') (\<lambda>cj.
     bindE (as_string aj) (\<lambda>a. bindE (as_string ej) (\<lambda>e. bindE (as_string cj) (\<lambda>c.
     let t = \<lparr>tg_binding = b, tg_ref = r, tg_assigned_agent = a, tg_assignment_event_id = e,
              tg_context_digest = c\<rparr> in
     bindE (validate_target t) (\<lambda>_. Inr t)))))))))))"

definition blueprint_json :: "blueprint_ref \<Rightarrow> json" where
  "blueprint_json b = JObj [(''key'', bp_key b), (''source_digest'', bp_source_digest b),
     (''integration'', bp_integration b), (''projector_version'', bp_projector_version b),
     (''cache_path'', bp_cache_path b), (''instance_digest'', bp_instance_digest b)]"

definition blueprint_of_json :: "json \<Rightarrow> ticket_error + blueprint_ref" where
  "blueprint_of_json j =
     bindE (kwargs [''key'', ''source_digest'', ''integration'', ''projector_version'', ''cache_path'']
              [''instance_digest''] j) (\<lambda>d.
     Inr \<lparr>bp_key = get_or JNull d ''key'', bp_source_digest = get_or JNull d ''source_digest'',
          bp_integration = get_or JNull d ''integration'',
          bp_projector_version = get_or JNull d ''projector_version'',
          bp_cache_path = get_or JNull d ''cache_path'',
          bp_instance_digest = get_or (JStr []) d ''instance_digest''\<rparr>)"

definition policy_json :: "runtime_policy \<Rightarrow> json" where
  "policy_json p = JObj [(''timeout'', ry_timeout p), (''mode'', ry_mode p), (''rules'', JList (ry_rules p))]"

text \<open>\<open>tuple(x or ())\<close>\<close>

definition tuple_or_empty :: "json \<Rightarrow> ticket_error + json list" where
  "tuple_or_empty j = (if falsy j then Inr [] else py_tuple j)"

definition policy_of_json :: "json \<Rightarrow> ticket_error + runtime_policy" where
  "policy_of_json j =
     bindE (py_dict j) (\<lambda>d.
     bindE (dict_at d ''timeout'') (\<lambda>t.
     bindE (tuple_or_empty (get_or JNull d ''rules'')) (\<lambda>rules.
     Inr \<lparr>ry_timeout = t, ry_mode = get_or (JStr ''unrestricted'') d ''mode'', ry_rules = rules\<rparr>)))"

definition memory_json :: "memory_binding \<Rightarrow> json" where
  "memory_json m = JObj [(''selector'', mb_selector m), (''canonical_json'', mb_canonical_json m),
     (''memory_hash'', mb_memory_hash m), (''path'', mb_path m)]"

definition memory_of_json :: "json \<Rightarrow> ticket_error + memory_binding" where
  "memory_of_json j =
     bindE (kwargs [''selector'', ''canonical_json'', ''memory_hash'', ''path''] [] j) (\<lambda>d.
     Inr \<lparr>mb_selector = get_or JNull d ''selector'', mb_canonical_json = get_or JNull d ''canonical_json'',
          mb_memory_hash = get_or JNull d ''memory_hash'', mb_path = get_or JNull d ''path''\<rparr>)"

definition prompt_json :: "prompt_snapshot \<Rightarrow> json" where
  "prompt_json p = JObj [(''name'', ps_name p), (''content'', ps_content p),
     (''source_digest'', ps_source_digest p)]"

definition prompt_of_json :: "json \<Rightarrow> ticket_error + prompt_snapshot" where
  "prompt_of_json j =
     bindE (kwargs [''name'', ''content'', ''source_digest''] [] j) (\<lambda>d.
     Inr \<lparr>ps_name = get_or JNull d ''name'', ps_content = get_or JNull d ''content'',
          ps_source_digest = get_or JNull d ''source_digest''\<rparr>)"

text \<open>\<open>JobSpec.to_dict\<close> and \<open>JobSpec.from_dict\<close>.\<close>

definition spec_fields :: "job_spec \<Rightarrow> (string, json) dict" where
  "spec_fields s =
     [(''schema_version'', JInt (sp_schema_version s)), (''job_id'', JStr (sp_job_id s)),
      (''config_path'', sp_config_path s), (''config_revision'', JStr (sp_config_revision s)),
      (''team_key'', JStr (sp_team_key s)), (''workspace_root'', JStr (sp_workspace_root s)),
      (''team_root'', JStr (sp_team_root s)), (''agent_name'', JStr (sp_agent_name s)),
      (''trigger'', JStr (sp_trigger s)), (''integration_name'', JStr (sp_integration_name s)),
      (''integration_config'', JObj (sp_integration_config s)),
      (''blueprint'', blueprint_json (sp_blueprint s)), (''routine_id'', sp_routine_id s),
      (''skill'', sp_skill s), (''skill_arguments'', JList (sp_skill_arguments s)),
      (''task_input'', JStr (sp_task_input s)), (''runtime_policy'', policy_json (sp_runtime_policy s)),
      (''memory'', memory_json (sp_memory s)), (''trigger_context'', sp_trigger_context s),
      (''prompt_source'', sp_prompt_source s), (''timeout_override'', sp_timeout_override s),
      (''created_at'', opt_json JStr (sp_created_at s)),
      (''private_prompts'', JList (map prompt_json (sp_private_prompts s)))]"

definition spec_json :: "job_spec \<Rightarrow> json" where
  "spec_json s = JObj (spec_fields s @
     (case sp_writable_agents s of None \<Rightarrow> [] | Some ws \<Rightarrow> [(''writable_agents'', JList ws)]) @
     (if 6 \<le> sp_schema_version s
      then [(''ticket_target'', opt_json target_json (sp_ticket_target s))] else []))"

definition SPEC_FIELDS :: "string list" where
  "SPEC_FIELDS = [''schema_version'', ''job_id'', ''config_path'', ''config_revision'', ''team_key'',
     ''workspace_root'', ''team_root'', ''agent_name'', ''trigger'', ''integration_name'',
     ''integration_config'', ''blueprint'', ''routine_id'', ''skill'', ''skill_arguments'',
     ''task_input'', ''runtime_policy'', ''memory'', ''trigger_context'', ''prompt_source'',
     ''timeout_override'', ''created_at'', ''private_prompts'', ''writable_agents'', ''ticket_target'']"

text \<open>The fields a specification may not leave out, beyond those looked up before.\<close>

definition SPEC_REQUIRED :: "string list" where
  "SPEC_REQUIRED = [''schema_version'', ''job_id'', ''config_path'', ''config_revision'', ''team_key'',
     ''workspace_root'', ''team_root'', ''agent_name'', ''trigger'', ''integration_name'', ''routine_id'',
     ''skill'', ''task_input'', ''trigger_context'', ''prompt_source'', ''timeout_override'', ''created_at'']"

definition spec_of_json :: "identities \<Rightarrow> (string, json) dict \<Rightarrow> ticket_error + job_spec" where
  "spec_of_json ids d =
     (let fld = get_or JNull d in
      bindE (if falsy (fld ''integration_config'') then Inr [] else py_dict (fld ''integration_config'')) (\<lambda>config.
      bindE (dict_at d ''blueprint'') (\<lambda>bj. bindE (blueprint_of_json bj) (\<lambda>blueprint.
      bindE (dict_at d ''runtime_policy'') (\<lambda>pj. bindE (policy_of_json pj) (\<lambda>policy.
      bindE (dict_at d ''memory'') (\<lambda>mj. bindE (memory_of_json mj) (\<lambda>memory.
      bindE (tuple_or_empty (fld ''skill_arguments'')) (\<lambda>arguments.
      bindE (tuple_or_empty (fld ''private_prompts'')) (\<lambda>ps. bindE (mapE prompt_of_json ps) (\<lambda>prompts.
      bindE (optional py_tuple (fld ''writable_agents'')) (\<lambda>agents.
      bindE (optional (target_of_json ids) (fld ''ticket_target'')) (\<lambda>target.
      bindE (ensure (set (keys d) \<subseteq> set SPEC_FIELDS \<and> set SPEC_REQUIRED \<subseteq> set (keys d)) typeError) (\<lambda>_.
      bindE (as_int (fld ''schema_version'')) (\<lambda>version.
      bindE (as_string (fld ''job_id'')) (\<lambda>job_id.
      bindE (as_string (fld ''config_revision'')) (\<lambda>revision.
      bindE (as_string (fld ''team_key'')) (\<lambda>team.
      bindE (as_string (fld ''workspace_root'')) (\<lambda>workspace.
      bindE (as_string (fld ''team_root'')) (\<lambda>team_root.
      bindE (as_string (fld ''agent_name'')) (\<lambda>agent.
      bindE (as_string (fld ''trigger'')) (\<lambda>trigger.
      bindE (as_string (fld ''integration_name'')) (\<lambda>integration.
      bindE (as_string (fld ''task_input'')) (\<lambda>task.
      bindE (optional as_string (fld ''created_at'')) (\<lambda>created.
      let s = \<lparr>sp_schema_version = version, sp_job_id = job_id, sp_config_path = fld ''config_path'',
               sp_config_revision = revision, sp_team_key = team, sp_workspace_root = workspace,
               sp_team_root = team_root, sp_agent_name = agent, sp_trigger = trigger,
               sp_integration_name = integration, sp_integration_config = config,
               sp_blueprint = blueprint, sp_routine_id = fld ''routine_id'', sp_skill = fld ''skill'',
               sp_skill_arguments = arguments, sp_task_input = task, sp_runtime_policy = policy,
               sp_memory = memory, sp_trigger_context = fld ''trigger_context'',
               sp_prompt_source = fld ''prompt_source'', sp_timeout_override = fld ''timeout_override'',
               sp_created_at = created, sp_private_prompts = prompts, sp_writable_agents = agents,
               sp_ticket_target = target\<rparr> in
      bindE (validate_spec s) (\<lambda>_. Inr s))))))))))))))))))))))))))"

fun status_name :: "job_status \<Rightarrow> string" where
  "status_name Queued = ''queued''"
| "status_name WaitingForMemory = ''waiting_for_memory''"
| "status_name Running = ''running''"
| "status_name Complete = ''complete''"
| "status_name Failed = ''failed''"
| "status_name Cancelled = ''cancelled''"

definition VALID_STATUSES :: "job_status list" where
  "VALID_STATUSES = [Queued, WaitingForMemory, Running, Complete, Failed, Cancelled]"

definition status_of :: "string \<Rightarrow> ticket_error + job_status" where
  "status_of n = (case find (\<lambda>s. status_name s = n) VALID_STATUSES of
      None \<Rightarrow> Inl valueError | Some s \<Rightarrow> Inr s)"

definition immutable_digest :: "job_tools \<Rightarrow> job_spec \<Rightarrow> string" where
  "immutable_digest jt s = jt_sha jt (spec_json s)"

definition new_record :: "job_tools \<Rightarrow> job_spec \<Rightarrow> string option \<Rightarrow> ticket_error + job_record" where
  "new_record jt s due_at =
     bindE (validate_spec s) (\<lambda>_.
     Inr \<lparr>jr_spec = s, jr_authority_digest = immutable_digest jt s, jr_status = Queued,
          jr_worker_pid = None, jr_started_at = None, jr_completed_at = None, jr_stdout_path = JNull,
          jr_stderr_path = JNull, jr_exit_code = JNull, jr_duration_seconds = JNull,
          jr_changed_files = JList [], jr_execution_summary = None, jr_base_sha = JNull,
          jr_memory_publication = JNull, jr_result_metadata = JNull, jr_session_id = None,
          jr_copilot_home = JNull, jr_due_at = due_at, jr_launched_at = None\<rparr>)"

definition record_fields :: "job_record \<Rightarrow> (string, json) dict" where
  "record_fields r =
     [(''authority_digest'', JStr (jr_authority_digest r)), (''status'', JStr (status_name (jr_status r))),
      (''worker_pid'', opt_json JInt (jr_worker_pid r)), (''started_at'', opt_json JStr (jr_started_at r)),
      (''completed_at'', opt_json JStr (jr_completed_at r)), (''stdout_path'', jr_stdout_path r),
      (''stderr_path'', jr_stderr_path r), (''exit_code'', jr_exit_code r),
      (''duration_seconds'', jr_duration_seconds r), (''changed_files'', jr_changed_files r),
      (''execution_summary'', opt_json JStr (jr_execution_summary r)), (''base_sha'', jr_base_sha r),
      (''memory_publication'', jr_memory_publication r), (''result_metadata'', jr_result_metadata r),
      (''session_id'', opt_json JStr (jr_session_id r)), (''copilot_home'', jr_copilot_home r),
      (''due_at'', opt_json JStr (jr_due_at r)), (''launched_at'', opt_json JStr (jr_launched_at r))]"

definition record_json :: "job_record \<Rightarrow> json" where
  "record_json r = JObj ((''spec'', spec_json (jr_spec r)) # record_fields r)"

definition RECORD_FIELDS :: "string list" where
  "RECORD_FIELDS = [''authority_digest'', ''status'', ''worker_pid'', ''started_at'', ''completed_at'',
     ''stdout_path'', ''stderr_path'', ''exit_code'', ''duration_seconds'', ''changed_files'',
     ''execution_summary'', ''base_sha'', ''memory_publication'', ''result_metadata'', ''session_id'',
     ''copilot_home'', ''due_at'', ''launched_at'']"

definition record_of_json :: "job_tools \<Rightarrow> json \<Rightarrow> ticket_error + job_record" where
  "record_of_json jt j =
     bindE (py_dict j) (\<lambda>d.
     bindE (dict_at d ''spec'') (\<lambda>sj. bindE (py_dict sj) (\<lambda>sd.
     bindE (spec_of_json (jt_ids jt) sd) (\<lambda>spec.
     let fld = get_or JNull d in
     bindE (ensure (set (keys d) \<subseteq> set (''spec'' # RECORD_FIELDS)) typeError) (\<lambda>_.
     bindE (as_string (get_or (JStr []) d ''authority_digest'')) (\<lambda>digest.
     bindE (ensure (digest = immutable_digest jt spec) valueError) (\<lambda>_.
     bindE (as_string (get_or (JStr ''queued'') d ''status'')) (\<lambda>name. bindE (status_of name) (\<lambda>status.
     bindE (optional as_int (fld ''worker_pid'')) (\<lambda>pid.
     bindE (optional as_string (fld ''started_at'')) (\<lambda>started.
     bindE (optional as_string (fld ''completed_at'')) (\<lambda>completed.
     bindE (optional as_string (fld ''execution_summary'')) (\<lambda>summary.
     bindE (optional as_string (fld ''session_id'')) (\<lambda>session.
     bindE (optional as_string (fld ''due_at'')) (\<lambda>due.
     bindE (optional as_string (fld ''launched_at'')) (\<lambda>launched.
     Inr \<lparr>jr_spec = spec, jr_authority_digest = digest, jr_status = status, jr_worker_pid = pid,
          jr_started_at = started, jr_completed_at = completed, jr_stdout_path = fld ''stdout_path'',
          jr_stderr_path = fld ''stderr_path'', jr_exit_code = fld ''exit_code'',
          jr_duration_seconds = fld ''duration_seconds'',
          jr_changed_files = get_or (JList []) d ''changed_files'', jr_execution_summary = summary,
          jr_base_sha = fld ''base_sha'', jr_memory_publication = fld ''memory_publication'',
          jr_result_metadata = fld ''result_metadata'', jr_session_id = session,
          jr_copilot_home = fld ''copilot_home'', jr_due_at = due, jr_launched_at = launched\<rparr>))))))))))))))))"

section \<open>The round trip\<close>

lemma get_or_Cons [simp]: "get_or x ((k, v) # d) k' = (if k' = k then v else get_or x d k')"
  by (simp add: get_or_def)

lemma dict_at_Cons [simp]: "dict_at ((k, v) # d) k' = (if k' = k then Inr v else dict_at d k')"
  by (simp add: dict_at_def)

text \<open>A target whose binding is canonical, as every binding the program builds is.\<close>

definition canonical_target :: "identities \<Rightarrow> job_target \<Rightarrow> bool" where
  "canonical_target ids t \<longleftrightarrow> (let b = tg_binding t in
     new_storage_binding ids (sb_integration b) (sb_config b) (sb_team_id b) (sb_workflow_id b) = Inr b)"

lemma target_roundtrip:
  assumes "canonical_target ids t" "validate_target t = Inr ()"
  shows "target_of_json ids (target_json t) = Inr t"
proof -
  let ?b = "tg_binding t"
  have new: "new_storage_binding ids (sb_integration ?b) (sb_config ?b) (sb_team_id ?b) (sb_workflow_id ?b) = Inr ?b"
    using assms(1) by (simp add: canonical_target_def Let_def)
  then obtain c where c: "canonical_config ids (sb_integration ?b) (sb_config ?b) = Inr c"
    unfolding new_storage_binding_def by (auto simp: bindE_eq_Inr)
  have "binding_of_json ids (binding_json ?b) = Inr ?b"
    using new c by (simp add: binding_of_json_def binding_json_def strict_string_def)
  moreover have "ref_of_json (ref_json (tg_ref t)) = Inr (tg_ref t)"
    by (simp add: ref_of_json_def ref_json_def strict_string_def)
  ultimately show ?thesis
    using assms(2) by (cases t) (simp add: target_of_json_def target_json_def item_def Let_def)
qed

lemma parts_roundtrip [simp]:
  "blueprint_of_json (blueprint_json b) = Inr b"
  "policy_of_json (policy_json p) = Inr p"
  "memory_of_json (memory_json m) = Inr m"
  "prompt_of_json (prompt_json q) = Inr q"
  by (auto simp: blueprint_of_json_def blueprint_json_def policy_of_json_def policy_json_def
      memory_of_json_def memory_json_def prompt_of_json_def prompt_json_def kwargs_def
      tuple_or_empty_def)

lemma mapE_map: "(\<And>x. x \<in> set xs \<Longrightarrow> f (g x) = Inr (h x)) \<Longrightarrow> mapE f (map g xs) = Inr (map h xs)"
  by (induction xs) simp_all

lemma target_optional:
  assumes "\<And>t. x = Some t \<Longrightarrow> canonical_target ids t \<and> validate_target t = Inr ()"
  shows "optional (target_of_json ids) (opt_json target_json x) = Inr x"
  using assms target_roundtrip
  by (cases x) (auto simp: optional_def opt_json_def target_json_def bindE_eq_Inr)

text \<open>What a specification built by the program satisfies.\<close>

definition sound_spec :: "identities \<Rightarrow> job_spec \<Rightarrow> bool" where
  "sound_spec ids s \<longleftrightarrow> validate_spec s = Inr () \<and>
     (\<forall>t. sp_ticket_target s = Some t \<longrightarrow> canonical_target ids t \<and> validate_target t = Inr ())"

lemma validate_spec_version:
  "validate_spec s = Inr () \<Longrightarrow> sp_schema_version s = 5 \<and> sp_ticket_target s = None \<or> sp_schema_version s = 6"
  by (auto simp: validate_spec_def validate_trigger_contract_def errE)

text \<open>A specification's dump, with the two fields that may be absent in \<open>rest\<close>.\<close>

lemma spec_of_fields:
  assumes valid: "validate_spec s = Inr ()"
    and ks: "set (keys rest) \<subseteq> {''writable_agents'', ''ticket_target''}"
    and agents: "get_or JNull rest ''writable_agents'' = opt_json JList (sp_writable_agents s)"
    and target: "get_or JNull rest ''ticket_target'' = opt_json target_json (sp_ticket_target s)"
      "optional (target_of_json ids) (opt_json target_json (sp_ticket_target s)) = Inr (sp_ticket_target s)"
  shows "spec_of_json ids (spec_fields s @ rest) = Inr s"
proof -
  have tuple: "optional py_tuple (opt_json JList (sp_writable_agents s)) = Inr (sp_writable_agents s)"
    by (auto simp: optional_def opt_json_def split: option.split)
  have prompts: "mapE prompt_of_json (map prompt_json (sp_private_prompts s)) = Inr (sp_private_prompts s)"
    using mapE_map [where f = prompt_of_json and g = prompt_json and h = id] by simp
  have args: "tuple_or_empty (JList xs) = Inr xs" for xs by (simp add: tuple_or_empty_def)
  have config: "(if falsy (get_or JNull (spec_fields s @ rest) ''integration_config'') then Inr []
      else py_dict (get_or JNull (spec_fields s @ rest) ''integration_config'')) = Inr (sp_integration_config s)"
    by (simp add: spec_fields_def)
  have fields: "set (keys (spec_fields s @ rest)) \<subseteq> set SPEC_FIELDS \<and>
      set SPEC_REQUIRED \<subseteq> set (keys (spec_fields s @ rest))"
    using ks by (auto simp: spec_fields_def SPEC_FIELDS_def SPEC_REQUIRED_def)
  show ?thesis
    unfolding spec_of_json_def Let_def config bindE_Inr ensure_def if_P [OF fields]
    using valid agents target tuple prompts
    by (cases s) (simp add: spec_fields_def args)
qed

lemma spec_roundtrip:
  assumes "sound_spec ids s" "spec_json s = JObj d"
  shows "spec_of_json ids d = Inr s"
proof -
  have valid: "validate_spec s = Inr ()" using assms(1) by (simp add: sound_spec_def)
  note version = validate_spec_version [OF valid]
  have target: "optional (target_of_json ids) (opt_json target_json (sp_ticket_target s)) = Inr (sp_ticket_target s)"
    using assms(1) by (intro target_optional) (auto simp: sound_spec_def)
  let ?rest = "(case sp_writable_agents s of None \<Rightarrow> [] | Some ws \<Rightarrow> [(''writable_agents'', JList ws)]) @
     (if 6 \<le> sp_schema_version s then [(''ticket_target'', opt_json target_json (sp_ticket_target s))] else [])"
  have "d = spec_fields s @ ?rest" using assms(2) by (simp add: spec_json_def)
  moreover have "spec_of_json ids (spec_fields s @ ?rest) = Inr s"
    by (rule spec_of_fields [OF valid _ _ _ target])
      (use version in \<open>auto simp: opt_json_def get_or_def split: option.split\<close>)
  ultimately show ?thesis by simp
qed

text \<open>C27: A job record survives its file: reading back the data of a record whose authority digest is
  intact gives the record.\<close>

theorem record_roundtrip:
  assumes "sound_spec (jt_ids jt) (jr_spec r)"
    and "jr_authority_digest r = immutable_digest jt (jr_spec r)"
  shows "record_of_json jt (record_json r) = Inr r"
proof -
  obtain d where d: "spec_json (jr_spec r) = JObj d" by (simp add: spec_json_def)
  have status: "status_of (status_name s) = Inr s" for s
    by (cases s) (simp_all add: status_of_def VALID_STATUSES_def)
  have fields: "set (keys ((''spec'', spec_json (jr_spec r)) # record_fields r)) \<subseteq> set (''spec'' # RECORD_FIELDS)"
    by (simp add: record_fields_def RECORD_FIELDS_def)
  have "py_dict (spec_json (jr_spec r)) = Inr d" by (simp add: d)
  then show ?thesis
    unfolding record_of_json_def record_json_def py_dict.simps bindE_Inr Let_def ensure_def if_P [OF fields]
    using spec_roundtrip [OF assms(1) d] assms(2)
    by (cases r) (simp add: record_fields_def status)
qed

end
