(* ===== verification/JobStore.thy ===== *)
theory JobStore
  imports JobModels "HOL-Library.Product_Lexorder"
begin

text \<open>
  The job files, \<^verbatim>\<open>flowgency/jobs/store.py\<close> and \<^verbatim>\<open>flowgency/jobs/authority.py\<close>: one YAML document
  per job, replaced atomically under the job's lock, with the status transitions the program allows.
  The state holds the documents by team and job id, the ones that cannot be written, and the paths
  that leave the store through a link. A job file that is missing, unreadable or malformed is an
  exception of the read.
\<close>

section \<open>State\<close>

datatype job_file = UnreadableJob | JobText string

type_synonym job_key = "string \<times> string"

record job_area =
  ja_files :: "(job_key, job_file) dict"
  ja_readonly :: "job_key list"
  ja_escapes :: "job_key list"

definition osError :: ticket_error where "osError = PyError ''OSError''"
definition invalidTransition :: ticket_error where "invalidTransition = PyError ''InvalidJobTransition''"
definition authorityError :: ticket_error where "authorityError = PyError ''JobAuthorityError''"

text \<open>The exceptions that make a reader skip a malformed record.\<close>

definition malformed :: "ticket_error \<Rightarrow> bool" where
  "malformed e \<longleftrightarrow> e \<in> {osError, PyError ''FileNotFoundError'', keyError, typeError, valueError,
     PyError ''YAMLError'', authorityError}"

section \<open>Paths\<close>

definition is_team_id :: "string \<Rightarrow> bool" where
  "is_team_id s \<longleftrightarrow> list_all (\<lambda>p. p \<noteq> [] \<and>
     list_all (\<lambda>c. char_in CHR ''a'' CHR ''z'' c \<or> char_in CHR ''0'' CHR ''9'' c) p) (split_on CHR ''-'' s)"

definition job_id_char :: "char \<Rightarrow> bool" where
  "job_id_char c \<longleftrightarrow> char_in CHR ''A'' CHR ''Z'' c \<or> char_in CHR ''a'' CHR ''z'' c \<or> char_in CHR ''0'' CHR ''9'' c"

definition is_job_id :: "string \<Rightarrow> bool" where
  "is_job_id s \<longleftrightarrow> (case s of [] \<Rightarrow> False
     | c # cs \<Rightarrow> job_id_char c \<and> list_all (\<lambda>d. job_id_char d \<or> d \<in> set ''_.-'') cs)"

definition job_path :: "job_area \<Rightarrow> string \<Rightarrow> string \<Rightarrow> ticket_error + job_key" where
  "job_path ja team job =
     bindE (ensure (is_team_id team) valueError) (\<lambda>_.
     bindE (ensure (is_job_id job) valueError) (\<lambda>_.
     bindE (ensure ((team, job) \<notin> set (ja_escapes ja)) valueError) (\<lambda>_. Inr (team, job))))"

text \<open>A reference names a job and the digest it must have. The root is the store's own.\<close>

record job_authority =
  au_root :: string
  au_team_id :: string
  au_job_id :: string
  au_immutable_digest :: string

definition reference ::
  "string \<Rightarrow> job_area \<Rightarrow> string \<Rightarrow> string \<Rightarrow> string \<Rightarrow> ticket_error + job_authority" where
  "reference root_path ja team job digest =
     bindE (job_path ja team job) (\<lambda>_.
     bindE (ensure (full_digest digest) valueError) (\<lambda>_.
     Inr \<lparr>au_root = root_path, au_team_id = team, au_job_id = job, au_immutable_digest = digest\<rparr>))"

lemma reference_names: "reference root_path ja team job d = Inr a \<Longrightarrow> au_team_id a = team \<and> au_job_id a = job"
  by (auto simp: reference_def bindE_eq_Inr)

section \<open>Reading and writing\<close>

definition job_file_at :: "job_area \<Rightarrow> job_key \<Rightarrow> job_file option" where
  "job_file_at ja k = map_of (ja_files ja) k"

definition read_job ::
  "job_tools \<Rightarrow> job_area \<Rightarrow> job_key \<Rightarrow> string option \<Rightarrow> ticket_error + job_record" where
  "read_job jt ja k expected_digest = (case job_file_at ja k of
      None \<Rightarrow> Inl (PyError ''FileNotFoundError'')
    | Some UnreadableJob \<Rightarrow> Inl osError
    | Some (JobText s) \<Rightarrow>
        (case jt_load jt s of
           None \<Rightarrow> Inl (PyError ''YAMLError'')
         | Some j \<Rightarrow>
             bindE (record_of_json jt j) (\<lambda>r.
             bindE (ensure (expected_digest = None \<or> expected_digest = Some (jr_authority_digest r))
                      valueError) (\<lambda>_. Inr r))))"

definition write_job :: "job_tools \<Rightarrow> job_key \<Rightarrow> job_record \<Rightarrow> (job_area, ticket_error, unit) op" where
  "write_job jt k r =
     bindS (liftS (ensure (jr_authority_digest r = immutable_digest jt (jr_spec r)) valueError)) (\<lambda>_.
     bindS (readS (\<lambda>ja. ensure (k \<notin> set (ja_readonly ja)) osError)) (\<lambda>_.
     putS (\<lambda>ja. ja\<lparr>ja_files := AList.update k (JobText (jt_dump jt (record_json r))) (ja_files ja)\<rparr>)))"

definition create_job ::
  "job_tools \<Rightarrow> string \<Rightarrow> job_record \<Rightarrow> (job_area, ticket_error, job_authority) op" where
  "create_job jt root_path r =
     (let k = (sp_team_key (jr_spec r), sp_job_id (jr_spec r)) in
      bindS (readS (\<lambda>ja. reference root_path ja (fst k) (snd k) (jr_authority_digest r))) (\<lambda>a.
      bindS (readS (\<lambda>ja. ensure (job_file_at ja k = None) (PyError ''FileExistsError''))) (\<lambda>_.
      bindS (write_job jt k r) (\<lambda>_. returnS a))))"

text \<open>\<open>JobAuthorityError\<close> is a \<open>ValueError\<close>; a missing file is not turned into one.\<close>

definition read_authority ::
  "job_tools \<Rightarrow> string \<Rightarrow> job_area \<Rightarrow> job_authority \<Rightarrow> ticket_error + job_record" where
  "read_authority jt root_path ja a =
     bindE (reference root_path ja (au_team_id a) (au_job_id a) (au_immutable_digest a)) (\<lambda>e.
     bindE (ensure (au_root a = root_path) authorityError) (\<lambda>_.
     mapErr (\<lambda>x. if x \<in> {typeError, valueError, authorityError} then authorityError else x)
       (read_job jt ja (au_team_id e, au_job_id e) (Some (au_immutable_digest e)))))"

definition write_authority ::
  "job_tools \<Rightarrow> job_authority \<Rightarrow> job_record \<Rightarrow> (job_area, ticket_error, unit) op" where
  "write_authority jt a r =
     bindS (liftS (ensure (sp_team_key (jr_spec r) = au_team_id a \<and> sp_job_id (jr_spec r) = au_job_id a)
              authorityError)) (\<lambda>_.
     bindS (liftS (ensure (jr_authority_digest r = au_immutable_digest a) authorityError)) (\<lambda>_.
     write_job jt (au_team_id a, au_job_id a) r))"

section \<open>Status transitions\<close>

fun VALID_TRANSITIONS :: "job_status \<Rightarrow> job_status list" where
  "VALID_TRANSITIONS Queued = [WaitingForMemory, Running, Failed, Cancelled]"
| "VALID_TRANSITIONS WaitingForMemory = [Running, Failed, Cancelled, Complete]"
| "VALID_TRANSITIONS Running = [Complete, Failed]"
| "VALID_TRANSITIONS Complete = []"
| "VALID_TRANSITIONS Failed = []"
| "VALID_TRANSITIONS Cancelled = []"

text \<open>The read, the checks and the write of one transition are under the job's lock. \<open>changes\<close> is what
  the keyword arguments replace.\<close>

definition update_job ::
  "job_tools \<Rightarrow> job_key \<Rightarrow> (job_record \<Rightarrow> ticket_error + job_record) \<Rightarrow> (job_area, ticket_error, job_record) op"
where
  "update_job jt k f =
     bindS (readS (\<lambda>ja. read_job jt ja k None)) (\<lambda>r.
     bindS (liftS (f r)) (\<lambda>r'.
     bindS (write_job jt k r') (\<lambda>_. returnS r')))"

definition transition_job ::
  "job_tools \<Rightarrow> job_key \<Rightarrow> job_status \<Rightarrow> job_status \<Rightarrow> (job_record \<Rightarrow> job_record) \<Rightarrow>
   (job_area, ticket_error, job_record) op" where
  "transition_job jt k expected status changes = update_job jt k (\<lambda>r.
     bindE (ensure (jr_status r = expected) invalidTransition) (\<lambda>_.
     bindE (ensure (status \<in> set (VALID_TRANSITIONS expected)) invalidTransition) (\<lambda>_.
     Inr (changes (r\<lparr>jr_status := status\<rparr>)))))"

definition cancel_job :: "job_tools \<Rightarrow> job_key \<Rightarrow> (job_area, ticket_error, job_record) op" where
  "cancel_job jt k = update_job jt k (\<lambda>r.
     bindE (ensure (jr_status r \<in> {Queued, WaitingForMemory}) invalidTransition) (\<lambda>_.
     Inr (r\<lparr>jr_status := Cancelled\<rparr>)))"

definition claim_job ::
  "job_tools \<Rightarrow> job_key \<Rightarrow> int option \<Rightarrow> string \<Rightarrow> (job_area, ticket_error, job_record) op" where
  "claim_job jt k pid now = update_job jt k (\<lambda>r.
     bindE (ensure (jr_status r = Queued) invalidTransition) (\<lambda>_.
     Inr (r\<lparr>jr_worker_pid := pid, jr_launched_at := Some now\<rparr>)))"

text \<open>\<open>_merge_result_metadata\<close> of \<^verbatim>\<open>jobs/execution.py\<close>.\<close>

definition merged_metadata :: "json \<Rightarrow> (string, json) dict \<Rightarrow> ticket_error + json" where
  "merged_metadata current update =
     bindE (if falsy current then Inr [] else py_dict current) (\<lambda>old.
     let merged = dict_update old update in Inr (if merged = [] then JNull else JObj merged))"

definition merge_result_metadata ::
  "job_tools \<Rightarrow> job_key \<Rightarrow> (string, json) dict \<Rightarrow> (job_area, ticket_error, job_record) op" where
  "merge_result_metadata jt k update = update_job jt k (\<lambda>r.
     bindE (merged_metadata (jr_result_metadata r) update) (\<lambda>m. Inr (r\<lparr>jr_result_metadata := m\<rparr>)))"

section \<open>Slots of the pool\<close>

text \<open>What a reader of the pool sees of the host: which processes live, the clock, and the ISO format
  of times, read as UTC when they name no zone.\<close>

record pool_env =
  pe_alive :: "int \<Rightarrow> bool option"
  pe_now :: time
  pe_parse :: "string \<Rightarrow> time option"

definition worker_alive :: "pool_env \<Rightarrow> int option \<Rightarrow> bool option" where
  "worker_alive e pid = (case pid of None \<Rightarrow> None
     | Some p \<Rightarrow> if p \<le> 0 then None else pe_alive e p)"

definition LAUNCH_GRACE_SECONDS :: int where "LAUNCH_GRACE_SECONDS = 300"

definition is_launched :: "job_record \<Rightarrow> bool" where
  "is_launched r \<longleftrightarrow> jr_launched_at r \<noteq> None \<or> jr_worker_pid r \<noteq> None"

definition launch_abandoned :: "pool_env \<Rightarrow> job_record \<Rightarrow> bool" where
  "launch_abandoned e r =
     (if jr_worker_pid r \<noteq> None then worker_alive e (jr_worker_pid r) = Some False
      else case jr_launched_at r of
        None \<Rightarrow> False
      | Some s \<Rightarrow> (case pe_parse e s of
          None \<Rightarrow> True
        | Some launched \<Rightarrow> pe_now e - launched > LAUNCH_GRACE_SECONDS * 1000000))"

definition occupies_slot :: "pool_env \<Rightarrow> job_record \<Rightarrow> bool" where
  "occupies_slot e r =
     (if jr_status r \<in> {Running, WaitingForMemory} then True
      else if jr_status r \<noteq> Queued then False
      else is_launched r \<and> \<not> launch_abandoned e r)"

definition is_launchable :: "pool_env \<Rightarrow> job_record \<Rightarrow> bool" where
  "is_launchable e r =
     (if jr_status r \<noteq> Queued then False else \<not> is_launched r \<or> launch_abandoned e r)"

section \<open>Listings\<close>

definition ACTIVE_STATUSES :: "job_status list" where
  "ACTIVE_STATUSES = [Queued, WaitingForMemory, Running]"
definition TERMINAL_STATUSES :: "job_status list" where
  "TERMINAL_STATUSES = [Complete, Failed, Cancelled]"
definition EXECUTED_STATUSES :: "job_status list" where
  "EXECUTED_STATUSES = [Complete, Failed]"

text \<open>The job files of a team, in the order of their names.\<close>

definition job_paths :: "job_area \<Rightarrow> string \<Rightarrow> job_key list" where
  "job_paths ja team = sort_key (\<lambda>k. snd k @ ''.yaml'') (filter (\<lambda>k. fst k = team) (keys (ja_files ja)))"

text \<open>A malformed record is skipped; any other exception ends the iteration.\<close>

fun read_records :: "job_tools \<Rightarrow> job_area \<Rightarrow> job_key list \<Rightarrow> ticket_error + (job_key \<times> job_record) list" where
  "read_records jt ja [] = Inr []"
| "read_records jt ja (k # ks) = (case read_job jt ja k None of
      Inl e \<Rightarrow> if malformed e then read_records jt ja ks else Inl e
    | Inr r \<Rightarrow> bindE (read_records jt ja ks) (\<lambda>rs. Inr ((k, r) # rs)))"

definition iter_job_records ::
  "job_tools \<Rightarrow> job_area \<Rightarrow> job_key list \<Rightarrow> string option \<Rightarrow> ticket_error + job_record list" where
  "iter_job_records jt ja ks agent =
     bindE (read_records jt ja ks) (\<lambda>rs.
     Inr (filter (\<lambda>r. agent = None \<or> agent = Some (sp_agent_name (jr_spec r))) (map snd rs)))"

definition active_jobs ::
  "job_tools \<Rightarrow> job_area \<Rightarrow> job_key list \<Rightarrow> string option \<Rightarrow> ticket_error + job_record list" where
  "active_jobs jt ja ks agent =
     bindE (iter_job_records jt ja ks agent) (\<lambda>rs.
     Inr (filter (\<lambda>r. jr_status r \<in> set ACTIVE_STATUSES) rs))"

text \<open>\<open>a or b or c or ""\<close> on optional strings.\<close>

fun first_text :: "string option list \<Rightarrow> string" where
  "first_text [] = []"
| "first_text (x # xs) = (case x of Some (c # cs) \<Rightarrow> c # cs | _ \<Rightarrow> first_text xs)"

definition terminal_sort_key :: "job_record \<Rightarrow> string \<times> string" where
  "terminal_sort_key r =
     (first_text [jr_completed_at r, jr_started_at r, sp_created_at (jr_spec r)], sp_job_id (jr_spec r))"

text \<open>\<open>max\<close> keeps the first of equal elements.\<close>

definition latest_by_status ::
  "job_tools \<Rightarrow> job_area \<Rightarrow> job_key list \<Rightarrow> string option \<Rightarrow> job_status list \<Rightarrow> ticket_error + job_record option"
where
  "latest_by_status jt ja ks agent statuses =
     bindE (iter_job_records jt ja ks agent) (\<lambda>rs.
     Inr (fold (\<lambda>r best. case best of None \<Rightarrow> Some r
            | Some b \<Rightarrow> if terminal_sort_key b < terminal_sort_key r then Some r else Some b)
          (filter (\<lambda>r. jr_status r \<in> set statuses) rs) None))"

definition latest_terminal_job ::
  "job_tools \<Rightarrow> job_area \<Rightarrow> job_key list \<Rightarrow> string option \<Rightarrow> ticket_error + job_record option" where
  "latest_terminal_job jt ja ks agent = latest_by_status jt ja ks agent TERMINAL_STATUSES"

definition latest_executed_job ::
  "job_tools \<Rightarrow> job_area \<Rightarrow> job_key list \<Rightarrow> string option \<Rightarrow> ticket_error + job_record option" where
  "latest_executed_job jt ja ks agent = latest_by_status jt ja ks agent EXECUTED_STATUSES"

section \<open>What an operation writes\<close>

definition stored :: "job_tools \<Rightarrow> job_key \<Rightarrow> job_record \<Rightarrow> job_area \<Rightarrow> job_area" where
  "stored jt k r ja = ja\<lparr>ja_files := AList.update k (JobText (jt_dump jt (record_json r))) (ja_files ja)\<rparr>"

lemma write_job_Inr:
  "write_job jt k r ja = (t, Inr u) \<longleftrightarrow>
     jr_authority_digest r = immutable_digest jt (jr_spec r) \<and> k \<notin> set (ja_readonly ja) \<and> t = stored jt k r ja"
  by (auto simp: write_job_def stored_def ensure_def)

lemma write_job_Inl: "write_job jt k r ja = (t, Inl e) \<Longrightarrow> t = ja"
  by (auto simp: write_job_def ensure_def split: if_splits)

lemma update_job_cases:
  assumes "update_job jt k f ja = (t, out)"
  obtains (raised) e where "out = Inl e" "t = ja"
  | (wrote) r r' where "read_job jt ja k None = Inr r" "f r = Inr r'" "out = Inr r'"
      "jr_authority_digest r' = immutable_digest jt (jr_spec r')" "t = stored jt k r' ja"
  using assms unfolding update_job_def
proof (cases rule: bindS_readE)
  case (returned r)
  show thesis
  proof (cases "f r")
    case (Inl e)
    then have "out = Inl e" "t = ja" using returned(2) by auto
    then show thesis by (rule raised)
  next
    case fr: (Inr r')
    obtain u w where w: "write_job jt k r' ja = (u, w)" by fastforce
    show thesis
    proof (cases w)
      case (Inl e)
      then have "u = ja" using w write_job_Inl by blast
      then have "out = Inl e" "t = ja" using w Inl fr returned(2) by (auto simp: bindS_def)
      then show thesis by (rule raised)
    next
      case (Inr v)
      with w have new: "jr_authority_digest r' = immutable_digest jt (jr_spec r')" "u = stored jt k r' ja"
        using write_job_Inr [of jt k r' ja u v] by simp_all
      have "out = Inr r'" "t = u" using w Inr fr returned(2) by (auto simp: bindS_def)
      then show thesis using wrote [OF returned(1) fr] new by simp
    qed
  qed
qed (rule raised)

text \<open>What YAML documents: loading a dump gives the data back; and resolving a path twice is
  resolving it once.\<close>

definition faithful_files :: "job_tools \<Rightarrow> bool" where
  "faithful_files jt \<longleftrightarrow> (\<forall>r. jt_load jt (jt_dump jt (record_json r)) = Some (record_json r)) \<and>
     (\<forall>s. id_canon (jt_ids jt) (id_canon (jt_ids jt) s) = id_canon (jt_ids jt) s)"

definition sound_record :: "job_tools \<Rightarrow> job_record \<Rightarrow> bool" where
  "sound_record jt r \<longleftrightarrow> sound_spec (jt_ids jt) (jr_spec r) \<and>
     jr_authority_digest r = immutable_digest jt (jr_spec r)"

lemma canonical_idem:
  assumes "canonical_config ids i c = Inr c'" "\<And>s. id_canon ids (id_canon ids s) = id_canon ids s"
  shows "canonical_config ids i c' = Inr c'"
proof (cases "i = ''local''")
  case True
  with assms(1) obtain s where "map_of c ''root'' = Some (JStr s)"
    and c': "c' = AList.update ''root'' (JStr (id_canon ids s)) c"
    by (auto simp: canonical_config_def split: option.splits json.splits)
  then have "map_of c' ''root'' = Some (JStr (id_canon ids s))" by (simp add: update_conv')
  moreover have "AList.update k v (AList.update k v d) = AList.update k v d" for k :: string and v :: json and d
    by (induction d) auto
  ultimately show ?thesis using True c' assms(2) by (simp add: canonical_config_def)
qed (use assms in \<open>simp add: canonical_config_def\<close>)

lemma new_binding_canonical:
  assumes "new_storage_binding ids i c tm w = Inr b" "\<And>s. id_canon ids (id_canon ids s) = id_canon ids s"
  shows "new_storage_binding ids (sb_integration b) (sb_config b) (sb_team_id b) (sb_workflow_id b) = Inr b"
proof -
  from assms(1) obtain c1 c2 where c: "canonical_config ids i c = Inr c1" "canonical_config ids i c1 = Inr c2"
    and b: "b = \<lparr>sb_integration = i, sb_config = c1, sb_team_id = tm, sb_workflow_id = w,
      sb_binding_id = id_binding ids i c2 tm w\<rparr>"
    unfolding new_storage_binding_def by (auto simp: bindE_eq_Inr)
  from canonical_idem [OF c(1) assms(2)] show ?thesis
    using c b by (simp add: new_storage_binding_def)
qed

lemma target_of_json_sound:
  assumes "target_of_json ids j = Inr t" "\<And>s. id_canon ids (id_canon ids s) = id_canon ids s"
  shows "canonical_target ids t \<and> validate_target t = Inr ()"
proof -
  from assms(1) obtain bj where "binding_of_json ids bj = Inr (tg_binding t)" "validate_target t = Inr ()"
    unfolding target_of_json_def Let_def by (auto simp: bindE_eq_Inr)
  moreover from this(1) obtain i c tm w where "new_storage_binding ids i c tm w = Inr (tg_binding t)"
    unfolding binding_of_json_def by (auto simp: bindE_eq_Inr split: json.splits option.splits)
  ultimately show ?thesis
    using new_binding_canonical [OF _ assms(2)] by (auto simp: canonical_target_def Let_def)
qed

lemma spec_of_json_sound:
  assumes "spec_of_json ids d = Inr s" "\<And>x. id_canon ids (id_canon ids x) = id_canon ids x"
  shows "sound_spec ids s"
proof -
  from assms(1) have "validate_spec s = Inr ()"
    and t: "optional (target_of_json ids) (get_or JNull d ''ticket_target'') = Inr (sp_ticket_target s)"
    unfolding spec_of_json_def Let_def by (auto simp: bindE_eq_Inr split: if_splits)
  moreover from t have "canonical_target ids x \<and> validate_target x = Inr ()" if "sp_ticket_target s = Some x" for x
    using that target_of_json_sound [OF _ assms(2)]
    by (auto simp: optional_def bindE_eq_Inr split: if_splits)
  ultimately show ?thesis by (simp add: sound_spec_def)
qed

lemma read_job_sound:
  assumes "faithful_files jt" "read_job jt ja k x = Inr r"
  shows "sound_record jt r"
proof -
  from assms(2) obtain j where j: "record_of_json jt j = Inr r"
    unfolding read_job_def by (auto simp: bindE_eq_Inr split: option.splits job_file.splits)
  then obtain sd where "spec_of_json (jt_ids jt) sd = Inr (jr_spec r)"
    and "jr_authority_digest r = immutable_digest jt (jr_spec r)"
    unfolding record_of_json_def Let_def by (auto simp: bindE_eq_Inr ensure_eq_Inr)
  with spec_of_json_sound assms(1) show ?thesis
    by (auto simp: sound_record_def faithful_files_def)
qed

lemma read_stored:
  assumes "faithful_files jt" "sound_record jt r"
  shows "read_job jt (stored jt k r ja) k' None = (if k' = k then Inr r else read_job jt ja k' None)"
  using assms record_roundtrip [of jt r]
  by (simp add: read_job_def stored_def job_file_at_def update_conv' sound_record_def faithful_files_def)

section \<open>The life of a job\<close>

text \<open>The keyword arguments of \<open>transition_job\<close> name fields of the run only.\<close>

definition run_fields :: "(job_record \<Rightarrow> job_record) \<Rightarrow> bool" where
  "run_fields f \<longleftrightarrow> (\<forall>r. jr_spec (f r) = jr_spec r \<and> jr_authority_digest (f r) = jr_authority_digest r \<and>
     jr_status (f r) = jr_status r)"

inductive job_step :: "job_tools \<Rightarrow> job_area \<Rightarrow> job_area \<Rightarrow> bool" for jt where
  created: "create_job jt root_path r ja = (t, out) \<Longrightarrow> sound_record jt r \<Longrightarrow> job_step jt ja t"
| transitioned: "transition_job jt k expected status f ja = (t, out) \<Longrightarrow> run_fields f \<Longrightarrow> job_step jt ja t"
| cancelled: "cancel_job jt k ja = (t, out) \<Longrightarrow> job_step jt ja t"
| claimed: "claim_job jt k pid now ja = (t, out) \<Longrightarrow> job_step jt ja t"
| merged: "merge_result_metadata jt k d ja = (t, out) \<Longrightarrow> job_step jt ja t"

inductive_cases job_stepE: "job_step jt ja t"

definition allowed :: "job_status \<Rightarrow> job_status \<Rightarrow> bool" where
  "allowed a b \<longleftrightarrow> b \<in> set (VALID_TRANSITIONS a)"

text \<open>What one operation does to a record: a field of the run changes, and the status stays or makes an
  allowed transition.\<close>

definition advanced :: "job_record \<Rightarrow> job_record \<Rightarrow> bool" where
  "advanced r r' \<longleftrightarrow> jr_spec r' = jr_spec r \<and> jr_authority_digest r' = jr_authority_digest r \<and>
     (jr_status r' = jr_status r \<or> allowed (jr_status r) (jr_status r'))"

definition advances :: "(job_record \<Rightarrow> ticket_error + job_record) \<Rightarrow> bool" where
  "advances f \<longleftrightarrow> (\<forall>r r'. f r = Inr r' \<longrightarrow> advanced r r')"

lemma update_job_read:
  assumes "faithful_files jt" "advances f" "update_job jt k f ja = (t, out)" "read_job jt ja k' None = Inr r"
  shows "\<exists>r'. read_job jt t k' None = Inr r' \<and> advanced r r'"
  using assms(3)
proof (cases rule: update_job_cases)
  case (raised e)
  with assms(4) show ?thesis by (auto simp: advanced_def)
next
  case (wrote r0 r0')
  with assms(2) have adv: "advanced r0 r0'" by (auto simp: advances_def)
  with read_job_sound [OF assms(1) wrote(1)] have "sound_record jt r0'"
    by (simp add: sound_record_def advanced_def)
  with wrote adv assms(1,4) show ?thesis
    by (auto simp: read_stored advanced_def)
qed

lemma operations_advance:
  "run_fields f \<Longrightarrow> advances (\<lambda>r. bindE (ensure (jr_status r = expected) invalidTransition) (\<lambda>_.
     bindE (ensure (status \<in> set (VALID_TRANSITIONS expected)) invalidTransition) (\<lambda>_.
     Inr (f (r\<lparr>jr_status := status\<rparr>)))))"
  "advances (\<lambda>r. bindE (ensure (jr_status r \<in> {Queued, WaitingForMemory}) invalidTransition) (\<lambda>_.
     Inr (r\<lparr>jr_status := Cancelled\<rparr>)))"
  "advances (\<lambda>r. bindE (ensure (jr_status r = Queued) invalidTransition) (\<lambda>_.
     Inr (r\<lparr>jr_worker_pid := pid, jr_launched_at := Some now\<rparr>)))"
  "advances (\<lambda>r. bindE (merged_metadata (jr_result_metadata r) d) (\<lambda>m. Inr (r\<lparr>jr_result_metadata := m\<rparr>)))"
  subgoal by (auto simp: advances_def advanced_def allowed_def run_fields_def bindE_eq_Inr ensure_eq_Inr)
  subgoal by (auto simp: advances_def advanced_def allowed_def bindE_eq_Inr ensure_eq_Inr)
  subgoal by (auto simp: advances_def advanced_def bindE_eq_Inr ensure_eq_Inr)
  subgoal by (auto simp: advances_def advanced_def bindE_eq_Inr)
  done

lemma create_job_read:
  assumes "faithful_files jt" "create_job jt root_path r0 ja = (t, out)" "sound_record jt r0"
    and "read_job jt ja k None = Inr r"
  shows "read_job jt t k None = Inr r"
proof -
  let ?k = "(sp_team_key (jr_spec r0), sp_job_id (jr_spec r0))"
  have "t = ja \<or> job_file_at ja ?k = None \<and> t = stored jt ?k r0 ja"
    using assms(2) write_job_Inl write_job_Inr [of jt ?k r0 ja]
    by (auto simp: create_job_def Let_def bindS_def ensure_def split: sum.splits prod.splits if_splits)
  moreover have "job_file_at ja k \<noteq> None" using assms(4) by (auto simp: read_job_def split: option.splits)
  ultimately show ?thesis using assms by (auto simp: read_stored)
qed

lemma job_step_read:
  assumes "faithful_files jt" "job_step jt ja t" "read_job jt ja k None = Inr r"
  shows "\<exists>r'. read_job jt t k None = Inr r' \<and> advanced r r'"
  using assms(2)
proof cases
  case (created root_path r0 out)
  with create_job_read assms show ?thesis by (auto simp: advanced_def)
next
  case (transitioned k' expected status f out)
  then show ?thesis
    using update_job_read [OF assms(1) operations_advance(1) _ assms(3)] by (simp add: transition_job_def)
next
  case (cancelled k' out)
  then show ?thesis
    using update_job_read [OF assms(1) operations_advance(2) _ assms(3)] by (simp add: cancel_job_def)
next
  case (claimed k' pid now out)
  then show ?thesis
    using update_job_read [OF assms(1) operations_advance(3) _ assms(3)] by (simp add: claim_job_def)
next
  case (merged k' d out)
  then show ?thesis
    using update_job_read [OF assms(1) operations_advance(4) _ assms(3)]
    by (simp add: merge_result_metadata_def)
qed

lemma terminal_stays: "allowed\<^sup>*\<^sup>* a b \<Longrightarrow> a \<in> set TERMINAL_STATUSES \<Longrightarrow> b = a"
  by (induction rule: converse_rtranclp_induct) (auto simp: allowed_def TERMINAL_STATUSES_def)


end
