(* ===== verification/JobReconciliation.thy ===== *)
theory JobReconciliation
  imports JobStore TicketService
begin

text \<open>
  Reconciliation, \<^verbatim>\<open>flowgency/jobs/reconciliation.py\<close>: a sweep over the job records that fails the
  jobs whose worker is confirmed absent and repeats pending ticket cleanups. What it sees of the host,
  of memory recovery and of the ticket access registry is its argument. The reservations of
  ticket runs are settled in \<open>TicketRuns\<close>; the pins of blueprints are not part of the job files, and what it does to them is
  not modelled.
\<close>

section \<open>Cleanup of tickets, as the job record keeps it\<close>

record cleanup_evidence = stop_evidence +
  se_reason :: string

definition cleanup_metadata ::
  "cleanup_evidence \<Rightarrow> ticket_ref list \<Rightarrow> ticket_ref list \<Rightarrow> (string, json) dict option \<Rightarrow> (string, json) dict"
where
  "cleanup_metadata stopped cleared pending error =
     (let status0 = (if cleared \<noteq> [] \<and> pending = [] then ''cleared''
                     else if pending \<noteq> [] \<and> cleared = [] then ''pending''
                     else if cleared \<noteq> [] then ''partial'' else ''idle'');
          status = (if error \<noteq> None \<and> status0 = ''idle'' then ''error'' else status0);
          retry = (if error \<noteq> None \<and> status \<noteq> ''cleared'' then True else pending \<noteq> [])
      in [(''status'', JStr status), (''job_id'', JStr (se_job_id stopped)),
          (''generation'', JStr (se_generation stopped)), (''confirmed'', JBool (se_confirmed stopped)),
          (''reason'', JStr (se_reason stopped)), (''cleared'', JList (map ref_json cleared)),
          (''pending_cleanup'', JList (map ref_json pending)), (''requires_retry'', JBool retry)] @
         (case error of None \<Rightarrow> [] | Some e \<Rightarrow> [(''error'', JObj e)]))"

definition ticket_cleanup_evidence :: "job_record \<Rightarrow> ticket_error + cleanup_evidence option" where
  "ticket_cleanup_evidence r =
     bindE (if falsy (jr_result_metadata r) then Inr []
            else case jr_result_metadata r of JObj d \<Rightarrow> Inr d | _ \<Rightarrow> Inl (PyError ''AttributeError'')) (\<lambda>metadata.
     case map_of metadata ''ticket_cleanup'' of
       Some (JObj c) \<Rightarrow>
         let pending = get_or JNull c ''pending_cleanup'' in
         bindE (if get_or JNull c ''requires_retry'' = JBool True then Inr True
                else case get_or JNull c ''status'' of
                    JStr s \<Rightarrow> Inr (s \<in> {''pending'', ''partial'', ''error''})
                  | JList _ \<Rightarrow> Inl typeError | JObj _ \<Rightarrow> Inl typeError
                  | _ \<Rightarrow> Inr False) (\<lambda>retryable.
         Inr (if get_or JNull c ''confirmed'' \<noteq> JBool True \<or> (falsy pending \<and> \<not> retryable) then None
              else if get_or JNull c ''job_id'' \<noteq> JStr (sp_job_id (jr_spec r)) then None
              else case get_or JNull c ''generation'' of
                  JStr g \<Rightarrow> if g = [] then None
                    else Some \<lparr>se_job_id = sp_job_id (jr_spec r), se_generation = g, se_confirmed = True,
                      se_reason = (case get_or JNull c ''reason'' of
                          JStr x \<Rightarrow> if x = [] then ''confirmed'' else x | _ \<Rightarrow> ''confirmed'')\<rparr>
                | _ \<Rightarrow> None))
     | _ \<Rightarrow> Inr None)"

section \<open>Reconciliation\<close>

text \<open>What the sweep sees: processes and clock, the outcome of memory recovery (\<open>None\<close> when it failed,
  otherwise the blocked jobs), the tickets each dead worker may hold with the generation of its
  session, and the outcome of a repeated cleanup.\<close>

record sweep =
  sw_pool :: pool_env
  sw_stamp :: string
  sw_root :: string
  sw_blocked :: "string list option"
  sw_targets :: "job_key \<Rightarrow> (string \<times> ticket_ref) list"
  sw_cleanup :: "job_key \<Rightarrow> cleanup_evidence \<Rightarrow> ticket_error + ticket_ref list \<times> ticket_ref list"

text \<open>\<open>try: ... except Exception: pass\<close>, and \<open>except InvalidJobTransition\<close>.\<close>

definition tryS :: "('s, ticket_error, 'a) op \<Rightarrow> ('s, ticket_error, unit) op" where
  "tryS m s = (fst (m s), Inr ())"

definition unless_moved :: "('s, ticket_error, 'a) op \<Rightarrow> 'b \<Rightarrow> ('a \<Rightarrow> 'b) \<Rightarrow> ('s, ticket_error, 'b) op" where
  "unless_moved m other f s = (case m s of
      (t, Inr x) \<Rightarrow> (t, Inr (f x))
    | (t, Inl e) \<Rightarrow> if e = invalidTransition then (t, Inr other) else (t, Inl e))"

definition retry_ticket_cleanup ::
  "job_tools \<Rightarrow> sweep \<Rightarrow> string \<Rightarrow> job_record \<Rightarrow> (job_area, ticket_error, unit) op" where
  "retry_ticket_cleanup jt sw team r =
     bindS (liftS (ticket_cleanup_evidence r)) (\<lambda>found. case found of
       None \<Rightarrow> returnS ()
     | Some evidence \<Rightarrow>
         bindS (readS (\<lambda>ja. reference (sw_root sw) ja team (sp_job_id (jr_spec r)) (jr_authority_digest r))) (\<lambda>a.
         let k = (au_team_id a, au_job_id a) in
         bindS (liftS (sw_cleanup sw k evidence)) (\<lambda>(cleared, pending).
         bindS (merge_result_metadata jt k [(''ticket_cleanup'',
            JObj (cleanup_metadata evidence cleared pending None))]) (\<lambda>_. returnS ()))))"

definition record_dead_worker ::
  "job_tools \<Rightarrow> sweep \<Rightarrow> job_key \<Rightarrow> job_record \<Rightarrow> (job_area, ticket_error, unit) op" where
  "record_dead_worker jt sw k r =
     bindS (readS (\<lambda>ja. reference (sw_root sw) ja (fst k) (sp_job_id (jr_spec r)) (jr_authority_digest r))) (\<lambda>a.
     let targets = sw_targets sw (au_team_id a, au_job_id a) in
     if targets = [] then returnS ()
     else
       let generation = (case find (\<lambda>t. fst t \<noteq> []) targets of None \<Rightarrow> [] | Some t \<Rightarrow> fst t);
           evidence = \<lparr>se_job_id = sp_job_id (jr_spec r), se_generation = generation, se_confirmed = False,
                       se_reason = ''worker-missing''\<rparr> in
       bindS (merge_result_metadata jt k [(''ticket_cleanup'',
          JObj (cleanup_metadata evidence [] (map snd targets) None))]) (\<lambda>_. returnS ()))"

text \<open>The decimal numeral of a process id.\<close>

fun nat_text :: "nat \<Rightarrow> string" where
  "nat_text n = (if n < 10 then [char_of (48 + n)] else nat_text (n div 10) @ [char_of (48 + n mod 10)])"

declare nat_text.simps [simp del]

definition pid_text :: "int option \<Rightarrow> string" where
  "pid_text p = (case p of None \<Rightarrow> ''None''
     | Some i \<Rightarrow> if i < 0 then CHR ''-'' # nat_text (nat (- i)) else nat_text (nat i))"

text \<open>One record of the sweep, with how many jobs it failed and left running.\<close>

definition reconcile_one ::
  "job_tools \<Rightarrow> sweep \<Rightarrow> job_status list option \<Rightarrow> string \<Rightarrow> job_key \<Rightarrow> (job_area, ticket_error, nat \<times> nat) op" where
  "reconcile_one jt sw statuses team k ja = (case read_job jt ja k None of
      Inl e \<Rightarrow> if malformed e then (ja, Inr (0, 0)) else (ja, Inl e)
    | Inr r \<Rightarrow>
        if (case statuses of None \<Rightarrow> False | Some ss \<Rightarrow> jr_status r \<notin> set ss) then (ja, Inr (0, 0))
        else if (case sw_blocked sw of None \<Rightarrow> True | Some js \<Rightarrow> sp_job_id (jr_spec r) \<in> set js)
        then (ja, Inr (0, 0))
        else if jr_status r \<in> {Cancelled, Complete, Failed}
        then bindS (tryS (retry_ticket_cleanup jt sw team r)) (\<lambda>_. returnS (0, 0)) ja
        else if jr_status r \<notin> {Running, WaitingForMemory} then (ja, Inr (0, 0))
        else if worker_alive (sw_pool sw) (jr_worker_pid r) \<noteq> Some False then (ja, Inr (0, 1))
        else bindS (record_dead_worker jt sw k r) (\<lambda>_.
          unless_moved (transition_job jt k (jr_status r) Failed
              (\<lambda>x. x\<lparr>jr_completed_at := Some (sw_stamp sw),
                    jr_execution_summary := Some (''Worker process (PID '' @ pid_text (jr_worker_pid r) @
                      '') was not found.'')\<rparr>))
            (0, 0) (\<lambda>_. (1, 0))) ja)"

fun reconcile_keys ::
  "job_tools \<Rightarrow> sweep \<Rightarrow> job_status list option \<Rightarrow> string \<Rightarrow> job_key list \<Rightarrow> (job_area, ticket_error, nat \<times> nat) op"
where
  "reconcile_keys jt sw statuses team [] = returnS (0, 0)"
| "reconcile_keys jt sw statuses team (k # ks) =
     bindS (reconcile_one jt sw statuses team k) (\<lambda>(f, l).
     bindS (reconcile_keys jt sw statuses team ks) (\<lambda>(f', l'). returnS (f + f', l + l')))"

text \<open>The teams in the order of the configuration. A team is listed before any of its records is changed;
  what cannot be read then is not visited.\<close>

fun reconcile_jobs ::
  "job_tools \<Rightarrow> sweep \<Rightarrow> job_status list option \<Rightarrow> string list \<Rightarrow> (job_area, ticket_error, nat \<times> nat) op" where
  "reconcile_jobs jt sw statuses [] = returnS (0, 0)"
| "reconcile_jobs jt sw statuses (team # teams) =
     bindS (readS (\<lambda>ja. bindE (ensure (is_team_id team) valueError) (\<lambda>_.
       read_records jt ja (job_paths ja team)))) (\<lambda>rs.
     bindS (reconcile_keys jt sw statuses team (map fst rs)) (\<lambda>(f, l).
     bindS (reconcile_jobs jt sw statuses teams) (\<lambda>(f', l'). returnS (f + f', l + l'))))"

section \<open>What a call may touch\<close>

text \<open>Keys of jobs stay whole in the proofs below.\<close>

declare split_paired_All [simp del] split_paired_Ex [simp del]

text \<open>The operations above change the file of one job, and its record only as \<open>R\<close> allows.\<close>

definition touches ::
  "job_tools \<Rightarrow> (job_record \<Rightarrow> job_record \<Rightarrow> bool) \<Rightarrow> job_key \<Rightarrow> job_area \<Rightarrow> job_area \<Rightarrow> bool" where
  "touches jt R k s t \<longleftrightarrow>
     (\<forall>k'. k' \<noteq> k \<longrightarrow> job_file_at t k' = job_file_at s k') \<and>
     (\<forall>e. read_job jt s k None = Inl e \<longrightarrow> read_job jt t k None = Inl e) \<and>
     (\<forall>r. read_job jt s k None = Inr r \<longrightarrow> (\<exists>r'. read_job jt t k None = Inr r' \<and> R r r')) \<and>
     keys (ja_files t) = keys (ja_files s) \<and> ja_readonly t = ja_readonly s \<and> ja_escapes t = ja_escapes s"

definition kept :: "job_record \<Rightarrow> job_record \<Rightarrow> bool" where
  "kept r r' \<longleftrightarrow> jr_spec r' = jr_spec r \<and> jr_authority_digest r' = jr_authority_digest r \<and>
     allowed\<^sup>*\<^sup>* (jr_status r) (jr_status r')"

lemma kept_refl [simp]: "kept r r"
  by (simp add: kept_def)

lemma kept_trans [trans]: "kept r r1 \<Longrightarrow> kept r1 r2 \<Longrightarrow> kept r r2"
  by (auto simp: kept_def intro: rtranclp_trans)

lemma advanced_kept: "advanced r r' \<Longrightarrow> kept r r'"
  by (auto simp: advanced_def kept_def)

lemma touches_refl: "(\<And>r. R r r) \<Longrightarrow> touches jt R k s s"
  by (simp add: touches_def)

lemma touches_trans:
  assumes "touches jt R k s t" "touches jt R k t u" "\<And>a b c. R a b \<Longrightarrow> R b c \<Longrightarrow> R a c"
  shows "touches jt R k s u"
proof -
  have "\<exists>c. read_job jt u k None = Inr c \<and> R a c" if "read_job jt s k None = Inr a" for a
    using that assms unfolding touches_def by meson
  with assms(1,2) show ?thesis by (simp add: touches_def)
qed

lemma touches_mono: "touches jt R k s t \<Longrightarrow> (\<And>r r'. R r r' \<Longrightarrow> Q r r') \<Longrightarrow> touches jt Q k s t"
  unfolding touches_def by blast

lemma read_job_cong: "job_file_at t k = job_file_at s k \<Longrightarrow> read_job jt t k x = read_job jt s k x"
  by (simp add: read_job_def)

lemma touches_other:
  assumes "touches jt R k s t" "k' \<noteq> k"
  shows "read_job jt t k' x = read_job jt s k' x"
proof (rule read_job_cong)
  from assms(1) have "\<forall>k'. k' \<noteq> k \<longrightarrow> job_file_at t k' = job_file_at s k'" unfolding touches_def by blast
  with assms(2) show "job_file_at t k' = job_file_at s k'" by blast
qed

lemma touches_back:
  assumes "touches jt R k s t" "read_job jt t k' None = Inr r'"
  shows "\<exists>r. read_job jt s k' None = Inr r \<and> (r' = r \<or> R r r')"
proof (cases "k' = k")
  case True
  with assms show ?thesis
    by (cases "read_job jt s k None") (auto simp: touches_def)
qed (use assms touches_other [OF assms(1)] in simp)

lemma touches_forward:
  assumes "touches jt R k s t" "read_job jt s k' None = Inr r"
  shows "\<exists>r'. read_job jt t k' None = Inr r' \<and> (if k' = k then R r r' else r' = r)"
proof (cases "k' = k")
  case True
  with assms show ?thesis by (auto simp: touches_def)
qed (use assms touches_other [OF assms(1)] in simp)

lemma readable_key: "read_job jt ja k None = Inr r \<Longrightarrow> k \<in> set (keys (ja_files ja))"
  unfolding read_job_def job_file_at_def
  by (metis (no_types, lifting) Inl_Inr_False map_of_eq_None_iff option.simps(4) set_map)

lemma update_keys: "k \<in> set (keys d) \<Longrightarrow> keys (AList.update k v d) = keys d"
  by (induction d) auto

lemma update_job_touches:
  assumes "faithful_files jt" "update_job jt k f s = (t, out)" "\<And>r. R r r"
    and "\<And>r r'. f r = Inr r' \<Longrightarrow> advanced r r' \<and> R r r'"
  shows "touches jt R k s t"
  using assms(2)
proof (cases rule: update_job_cases)
  case (wrote r r')
  from assms(4) [OF wrote(2)] have "advanced r r'" "R r r'" by auto
  with read_job_sound [OF assms(1) wrote(1)] have "sound_record jt r'"
    by (simp add: sound_record_def advanced_def)
  moreover have "k \<in> set (keys (ja_files s))"
    using readable_key [OF wrote(1)] .
  moreover from calculation have "keys (ja_files t) = keys (ja_files s)"
    using wrote(5) update_keys by (simp add: stored_def)
  moreover have "job_file_at t k' = job_file_at s k'" if "k' \<noteq> k" for k'
    using that wrote(5) by (simp add: stored_def job_file_at_def update_conv')
  moreover have "ja_readonly t = ja_readonly s" "ja_escapes t = ja_escapes s"
    using wrote(5) by (simp_all add: stored_def)
  ultimately show ?thesis
    using wrote(1,5) \<open>R r r'\<close> assms(1) unfolding touches_def by (auto simp: read_stored)
qed (simp add: touches_refl assms(3))

lemma transition_job_touches:
  assumes "faithful_files jt" "transition_job jt k a b f s = (t, out)" "run_fields f"
  shows "touches jt kept k s t"
  using assms(1) assms(2)[unfolded transition_job_def] kept_refl
proof (rule update_job_touches)
  fix r r' :: job_record
  assume "bindE (ensure (jr_status r = a) invalidTransition)
     (\<lambda>_. bindE (ensure (b \<in> set (VALID_TRANSITIONS a)) invalidTransition)
       (\<lambda>_. Inr (f (r\<lparr>jr_status := b\<rparr>)))) = Inr r'"
  with operations_advance(1) [OF assms(3)] have "advanced r r'" unfolding advances_def by blast
  then show "advanced r r' \<and> kept r r'" by (simp add: advanced_kept)
qed

lemma claim_job_touches:
  assumes "faithful_files jt" "claim_job jt k pid now s = (t, out)"
  shows "touches jt kept k s t"
  using assms(1) assms(2)[unfolded claim_job_def] kept_refl
proof (rule update_job_touches)
  fix r r' :: job_record
  assume "bindE (ensure (jr_status r = Queued) invalidTransition)
     (\<lambda>_. Inr (r\<lparr>jr_worker_pid := pid, jr_launched_at := Some now\<rparr>)) = Inr r'"
  with operations_advance(3) have "advanced r r'" unfolding advances_def by blast
  then show "advanced r r' \<and> kept r r'" by (simp add: advanced_kept)
qed

section \<open>Slots and names\<close>

text \<open>The taken slots, and the naming \<open>create_job\<close> establishes: a file is named after its record.\<close>

definition takes_slot :: "job_tools \<Rightarrow> pool_env \<Rightarrow> string list \<Rightarrow> job_area \<Rightarrow> job_key \<Rightarrow> bool" where
  "takes_slot jt e teams ja k = (fst k \<in> set teams \<and>
     (case read_job jt ja k None of Inl _ \<Rightarrow> False | Inr r \<Rightarrow> occupies_slot e r))"

definition slots :: "job_tools \<Rightarrow> pool_env \<Rightarrow> string list \<Rightarrow> job_area \<Rightarrow> nat" where
  "slots jt e teams ja = card (set (filter (takes_slot jt e teams ja) (keys (ja_files ja))))"

definition well_named :: "job_tools \<Rightarrow> job_area \<Rightarrow> bool" where
  "well_named jt ja \<longleftrightarrow> wf_dict (ja_files ja) \<and> (\<forall>k\<in>set (keys (ja_files ja)).
     case read_job jt ja k None of Inl _ \<Rightarrow> True
     | Inr r \<Rightarrow> k = (sp_team_key (jr_spec r), sp_job_id (jr_spec r)))"

lemma well_namedD:
  "well_named jt ja \<Longrightarrow> read_job jt ja k None = Inr r \<Longrightarrow> k = (sp_team_key (jr_spec r), sp_job_id (jr_spec r))"
  using readable_key unfolding well_named_def by fastforce

lemma touches_named:
  assumes "touches jt R k s t" "well_named jt s" "\<And>r r'. R r r' \<Longrightarrow> jr_spec r' = jr_spec r"
  shows "well_named jt t"
proof -
  have "k' = (sp_team_key (jr_spec r'), sp_job_id (jr_spec r'))" if r': "read_job jt t k' None = Inr r'" for k' r'
  proof -
    from touches_back [OF assms(1) r'] obtain r where "read_job jt s k' None = Inr r" "jr_spec r' = jr_spec r"
      using assms(3) by metis
    with well_namedD [OF assms(2)] show ?thesis by simp
  qed
  moreover have "keys (ja_files t) = keys (ja_files s)" using assms(1) by (simp add: touches_def)
  ultimately show ?thesis using assms(2) by (auto simp: well_named_def split: sum.split)
qed

lemma slots_touches:
  assumes "touches jt R k s t"
  shows "slots jt e teams t \<le> slots jt e teams s + 1"
    and "(takes_slot jt e teams t k \<Longrightarrow> takes_slot jt e teams s k) \<Longrightarrow> slots jt e teams t \<le> slots jt e teams s"
proof -
  let ?S = "\<lambda>s. set (filter (takes_slot jt e teams s) (keys (ja_files s)))"
  have same: "takes_slot jt e teams t k' = takes_slot jt e teams s k'" if "k' \<noteq> k" for k'
    using touches_other [OF assms that] by (simp add: takes_slot_def)
  have keys: "keys (ja_files t) = keys (ja_files s)" using assms by (simp add: touches_def)
  have "?S t \<subseteq> insert k (?S s)" using same keys by auto
  then have "card (?S t) \<le> card (insert k (?S s))" by (rule card_mono [rotated]) simp
  then show "slots jt e teams t \<le> slots jt e teams s + 1"
    by (simp add: slots_def card_insert_if split: if_splits)
  assume "takes_slot jt e teams t k \<Longrightarrow> takes_slot jt e teams s k"
  then have "takes_slot jt e teams t k' \<Longrightarrow> takes_slot jt e teams s k'" for k'
    using same by (cases "k' = k") auto
  with keys have "?S t \<subseteq> ?S s" by auto
  then show "slots jt e teams t \<le> slots jt e teams s"
    unfolding slots_def by (rule card_mono [rotated]) simp
qed

section \<open>Reconciliation fails dead workers only\<close>

text \<open>The job of a dead worker, as the sweep decides it, and what the sweep may do to a record.\<close>

definition worker_gone :: "sweep \<Rightarrow> job_status list option \<Rightarrow> job_record \<Rightarrow> bool" where
  "worker_gone sw statuses r \<longleftrightarrow> jr_status r \<in> {Running, WaitingForMemory} \<and>
     (case statuses of None \<Rightarrow> True | Some ss \<Rightarrow> jr_status r \<in> set ss) \<and>
     (case sw_blocked sw of None \<Rightarrow> False | Some js \<Rightarrow> sp_job_id (jr_spec r) \<notin> set js) \<and>
     worker_alive (sw_pool sw) (jr_worker_pid r) = Some False"

definition swept :: "sweep \<Rightarrow> job_status list option \<Rightarrow> job_record \<Rightarrow> job_record \<Rightarrow> bool" where
  "swept sw statuses r r' \<longleftrightarrow> jr_spec r' = jr_spec r \<and> jr_worker_pid r' = jr_worker_pid r \<and>
     jr_launched_at r' = jr_launched_at r \<and>
     (jr_status r' = jr_status r \<or> worker_gone sw statuses r \<and> jr_status r' = Failed)"

lemma swept_refl [simp]: "swept sw statuses r r"
  by (simp add: swept_def)

lemma swept_trans: "swept sw statuses r r1 \<Longrightarrow> swept sw statuses r1 r2 \<Longrightarrow> swept sw statuses r r2"
  by (auto simp: swept_def worker_gone_def split: option.splits)

lemma swept_slot: "swept sw statuses r r' \<Longrightarrow> occupies_slot e r' \<Longrightarrow> occupies_slot e r"
  by (auto simp: swept_def worker_gone_def occupies_slot_def is_launched_def launch_abandoned_def split: if_splits)

lemma worker_gone_cong:
  "jr_status r' = jr_status r \<Longrightarrow> jr_spec r' = jr_spec r \<Longrightarrow> jr_worker_pid r' = jr_worker_pid r \<Longrightarrow>
     worker_gone sw statuses r' = worker_gone sw statuses r"
  by (simp add: worker_gone_def split: option.split)

lemma merge_swept:
  assumes "faithful_files jt" "merge_result_metadata jt k d s = (t, out)"
  shows "touches jt (\<lambda>r r'. swept sw statuses r r' \<and> jr_status r' = jr_status r) k s t"
  by (rule update_job_touches [OF assms(1) assms(2)[unfolded merge_result_metadata_def]])
    (auto simp: swept_def advanced_def bindE_eq_Inr)

lemma record_dead_worker_swept:
  assumes "faithful_files jt" "record_dead_worker jt sw k r s = (t, out)"
  shows "touches jt (\<lambda>r r'. swept sw statuses r r' \<and> jr_status r' = jr_status r) k s t"
proof -
  have "t = s \<or> (\<exists>d out'. merge_result_metadata jt k d s = (t, out'))"
    using assms(2) unfolding record_dead_worker_def Let_def
    by (auto simp: bindS_def split: sum.splits if_splits prod.splits)
  then show ?thesis by (elim disjE exE) (simp add: touches_refl, rule merge_swept [OF assms(1)])
qed

lemma retry_swept:
  assumes "faithful_files jt" "retry_ticket_cleanup jt sw (fst k) r s = (t, out)" "snd k = sp_job_id (jr_spec r)"
  shows "touches jt (\<lambda>r r'. swept sw statuses r r' \<and> jr_status r' = jr_status r) k s t"
proof -
  have "t = s \<or> (\<exists>d a out'. reference (sw_root sw) s (fst k) (sp_job_id (jr_spec r)) (jr_authority_digest r) = Inr a \<and>
      merge_result_metadata jt (au_team_id a, au_job_id a) d s = (t, out'))"
    using assms(2) unfolding retry_ticket_cleanup_def Let_def
    by (auto simp: bindS_def split: sum.splits option.splits prod.splits)
  moreover have "(au_team_id a, au_job_id a) = k"
    if "reference (sw_root sw) s (fst k) (sp_job_id (jr_spec r)) (jr_authority_digest r) = Inr a" for a
    using reference_names [OF that] assms(3) by (cases k) simp
  ultimately show ?thesis using merge_swept [OF assms(1)] by (auto intro: touches_refl)
qed

lemma update_job_raises:
  assumes "update_job jt k f s = (t, Inl e)" "read_job jt s k None = Inr r"
  shows "f r = Inl e \<or> e \<in> {valueError, osError}"
proof (cases "f r")
  case (Inr r')
  with assms have "write_job jt k r' s = (t, Inl e)"
    by (auto simp: update_job_def bindS_Inl bindS_Inr)
  then show ?thesis by (auto simp: write_job_def ensure_def split: if_splits)
qed (use assms in \<open>simp add: update_job_def\<close>)

lemma fail_gone:
  assumes "faithful_files jt" "transition_job jt k (jr_status r) Failed f s = (t, out)"
    and "\<And>x. jr_spec (f x) = jr_spec x \<and> jr_authority_digest (f x) = jr_authority_digest x \<and>
      jr_status (f x) = jr_status x \<and> jr_worker_pid (f x) = jr_worker_pid x \<and> jr_launched_at (f x) = jr_launched_at x"
    and "read_job jt s k None = Inr r1" "swept sw statuses r r1" "jr_status r1 = jr_status r" "worker_gone sw statuses r"
  shows "touches jt (swept sw statuses) k s t \<and>
    (\<forall>x r'. out = Inr x \<longrightarrow> read_job jt t k None = Inr r' \<longrightarrow> jr_status r' = Failed) \<and> out \<noteq> Inl invalidTransition"
  using assms(2) unfolding transition_job_def
proof (cases rule: update_job_cases)
  case (raised e)
  have "jr_status r = jr_status r1" "Failed \<in> set (VALID_TRANSITIONS (jr_status r))"
    using assms(6,7) by (auto simp: worker_gone_def)
  with update_job_raises [OF _ assms(4)] assms(2,4) raised(1) have "e \<in> {valueError, osError}"
    unfolding transition_job_def by fastforce
  then have "e \<noteq> invalidTransition" by (auto simp: osError_def invalidTransition_def)
  with raised show ?thesis by (simp add: touches_refl)
next
  case (wrote x x')
  with assms(4) have x: "x = r1" by simp
  with wrote(2) have x': "x' = f (r1\<lparr>jr_status := Failed\<rparr>)" by (auto simp: bindE_eq_Inr)
  then have "sound_record jt x'" using read_job_sound [OF assms(1,4)] assms(3) by (simp add: sound_record_def)
  then have t: "read_job jt t k' None = (if k' = k then Inr x' else read_job jt s k' None)" for k'
    using wrote(5) assms(1) by (simp add: read_stored)
  have "worker_gone sw statuses r1" using assms(5-7) worker_gone_cong [of r1 r] by (simp add: swept_def)
  then have "swept sw statuses r1 x'" "jr_status x' = Failed" using x' assms(3) by (simp_all add: swept_def)
  moreover have "keys (ja_files t) = keys (ja_files s)"
    using wrote(5) update_keys readable_key [OF assms(4)] by (simp add: stored_def)
  moreover have "job_file_at t k' = job_file_at s k'" if "k' \<noteq> k" for k'
    using that wrote(5) by (simp add: stored_def job_file_at_def update_conv')
  ultimately show ?thesis using t assms(4) wrote(3,5) by (simp add: touches_def stored_def)
qed

lemma reconcile_one_swept:
  assumes "faithful_files jt" "well_named jt s" "reconcile_one jt sw statuses (fst k) k s = (t, out)"
  shows "touches jt (swept sw statuses) k s t \<and>
    (\<forall>x r r'. out = Inr x \<longrightarrow> read_job jt s k None = Inr r \<longrightarrow> worker_gone sw statuses r \<longrightarrow>
       read_job jt t k None = Inr r' \<longrightarrow> jr_status r' = Failed)"
proof (cases "read_job jt s k None")
  case (Inl e)
  with assms(3) show ?thesis by (auto simp: reconcile_one_def touches_refl split: if_splits)
next
  case (Inr r)
  show ?thesis
  proof (cases "worker_gone sw statuses r")
    case True
    obtain u res where u: "record_dead_worker jt sw k r s = (u, res)" by fastforce
    note dead = record_dead_worker_swept [OF assms(1) u, of statuses]
    let ?f = "\<lambda>x. x\<lparr>jr_completed_at := Some (sw_stamp sw), jr_execution_summary :=
      Some (''Worker process (PID '' @ pid_text (jr_worker_pid r) @ '') was not found.'')\<rparr>"
    have run: "reconcile_one jt sw statuses (fst k) k s = (case res of Inl e \<Rightarrow> (u, Inl e)
       | Inr _ \<Rightarrow> unless_moved (transition_job jt k (jr_status r) Failed ?f) (0, 0) (\<lambda>_. (1, 0)) u)"
      using True Inr u by (auto simp: reconcile_one_def worker_gone_def bindS_def split: option.splits sum.splits)
    show ?thesis
    proof (cases res)
      case (Inl e)
      with run assms(3) touches_mono [OF dead] show ?thesis by auto
    next
      case ok: (Inr v)
      from dead Inr obtain r1 where r1: "read_job jt u k None = Inr r1" "swept sw statuses r r1" "jr_status r1 = jr_status r"
        by (auto simp: touches_def)
      obtain w res' where tr: "transition_job jt k (jr_status r) Failed ?f u = (w, res')" by fastforce
      from fail_gone [OF assms(1) tr _ r1 True]
      have fin: "touches jt (swept sw statuses) k u w"
        "\<forall>x r'. res' = Inr x \<longrightarrow> read_job jt w k None = Inr r' \<longrightarrow> jr_status r' = Failed" "res' \<noteq> Inl invalidTransition"
        by simp_all
      from run ok tr assms(3) fin(3) have "t = w" "\<forall>x. out = Inr x \<longrightarrow> (\<exists>y. res' = Inr y)"
        by (auto simp: unless_moved_def split: sum.splits if_splits)
      moreover have "touches jt (swept sw statuses) k s w"
        using touches_mono [OF dead] fin(1) by (rule touches_trans) (auto intro: swept_trans)
      ultimately show ?thesis using fin(2) by blast
    qed
  next
    case False
    obtain u res where u: "retry_ticket_cleanup jt sw (fst k) r s = (u, res)" by fastforce
    have "snd k = sp_job_id (jr_spec r)" using well_namedD [OF assms(2) Inr] by (cases k) simp
    note retried = touches_mono [OF retry_swept [OF assms(1) u this]]
    have "t = s \<or> t = u"
      using assms(3) Inr False u
      by (auto simp: reconcile_one_def worker_gone_def bindS_def tryS_def split: option.splits if_splits)
    with retried False Inr show ?thesis by (auto intro: touches_refl)
  qed
qed

text \<open>The sweep as a whole: no file appears or disappears, and each record is swept.\<close>

definition swept_area :: "job_tools \<Rightarrow> sweep \<Rightarrow> job_status list option \<Rightarrow> job_area \<Rightarrow> job_area \<Rightarrow> bool" where
  "swept_area jt sw statuses s t \<longleftrightarrow>
     (\<forall>k e. read_job jt s k None = Inl e \<longrightarrow> read_job jt t k None = Inl e) \<and>
     (\<forall>k r. read_job jt s k None = Inr r \<longrightarrow> (\<exists>r'. read_job jt t k None = Inr r' \<and> swept sw statuses r r')) \<and>
     keys (ja_files t) = keys (ja_files s) \<and> ja_readonly t = ja_readonly s \<and> ja_escapes t = ja_escapes s"

lemma swept_area_refl [simp]: "swept_area jt sw statuses s s"
  by (simp add: swept_area_def)

lemma swept_area_trans [trans]:
  assumes "swept_area jt sw statuses s t" "swept_area jt sw statuses t u"
  shows "swept_area jt sw statuses s u"
proof -
  have "\<exists>r'. read_job jt u k None = Inr r' \<and> swept sw statuses r r'" if "read_job jt s k None = Inr r" for k r
    using that assms unfolding swept_area_def by (meson swept_trans)
  with assms show ?thesis by (simp add: swept_area_def)
qed

lemma touches_swept_area:
  assumes "touches jt (swept sw statuses) k s t"
  shows "swept_area jt sw statuses s t"
proof -
  have "read_job jt t k' None = Inl e" if "read_job jt s k' None = Inl e" for k' e
    using that assms touches_other [OF assms] by (cases "k' = k") (auto simp: touches_def)
  moreover have "\<exists>r'. read_job jt t k' None = Inr r' \<and> swept sw statuses r r'"
    if "read_job jt s k' None = Inr r" for k' r
    using touches_forward [OF assms that] by (auto split: if_splits)
  ultimately show ?thesis using assms by (simp add: swept_area_def touches_def)
qed

lemma swept_area_back:
  assumes "swept_area jt sw statuses s t" "read_job jt t k None = Inr r'"
  obtains r where "read_job jt s k None = Inr r" "swept sw statuses r r'"
  using assms unfolding swept_area_def by (cases "read_job jt s k None") fastforce+

lemma swept_area_named:
  assumes "swept_area jt sw statuses s t" "well_named jt s"
  shows "well_named jt t"
proof -
  have "k = (sp_team_key (jr_spec r'), sp_job_id (jr_spec r'))" if "read_job jt t k None = Inr r'" for k r'
    using swept_area_back [OF assms(1) that] well_namedD [OF assms(2)] by (metis swept_def)
  moreover have "keys (ja_files t) = keys (ja_files s)" using assms(1) by (simp add: swept_area_def)
  ultimately show ?thesis using assms(2) by (auto simp: well_named_def split: sum.split)
qed

lemma swept_area_slots:
  assumes "swept_area jt sw statuses s t"
  shows "slots jt e teams t \<le> slots jt e teams s"
proof -
  have "takes_slot jt e teams s k" if "takes_slot jt e teams t k" for k
    using that assms
    by (auto simp: takes_slot_def split: sum.splits elim!: swept_area_back dest: swept_slot)
  moreover have "keys (ja_files t) = keys (ja_files s)" using assms by (simp add: swept_area_def)
  ultimately show ?thesis unfolding slots_def by (intro card_mono) auto
qed

lemma swept_failed:
  assumes "swept_area jt sw statuses s t" "read_job jt s k None = Inr r" "jr_status r = Failed"
  shows "\<exists>r'. read_job jt t k None = Inr r' \<and> jr_status r' = Failed"
  using assms unfolding swept_area_def swept_def worker_gone_def by fastforce

text \<open>What remains to be failed after a part of the sweep: a job that is still gone was gone before, and a
  job that was gone is still, or has failed.\<close>

lemma swept_gone:
  assumes "swept_area jt sw statuses s t" "read_job jt s k None = Inr r" "worker_gone sw statuses r"
  shows "\<exists>r'. read_job jt t k None = Inr r' \<and> (worker_gone sw statuses r' \<or> jr_status r' = Failed)"
proof -
  from assms(1,2) obtain r' where "read_job jt t k None = Inr r'" "swept sw statuses r r'"
    unfolding swept_area_def by blast
  with assms(3) worker_gone_cong [of r' r] show ?thesis by (auto simp: swept_def)
qed

lemma reconcile_keys_swept:
  "faithful_files jt \<Longrightarrow> well_named jt s \<Longrightarrow> \<forall>k\<in>set ks. fst k = team \<Longrightarrow>
   reconcile_keys jt sw statuses team ks s = (t, out) \<Longrightarrow>
   swept_area jt sw statuses s t \<and>
   (\<forall>x k r. out = Inr x \<longrightarrow> k \<in> set ks \<longrightarrow> read_job jt s k None = Inr r \<longrightarrow> worker_gone sw statuses r \<longrightarrow>
      (\<exists>r'. read_job jt t k None = Inr r' \<and> jr_status r' = Failed))"
proof (induction ks arbitrary: s out)
  case Nil
  then show ?case by simp
next
  case (Cons k ks)
  obtain u res where u: "reconcile_one jt sw statuses team k s = (u, res)" by fastforce
  with reconcile_one_swept [OF Cons.prems(1,2), of sw statuses k u res] Cons.prems(3)
  have "touches jt (swept sw statuses) k s u" and one_failed:
    "\<And>x r r'. res = Inr x \<Longrightarrow> read_job jt s k None = Inr r \<Longrightarrow> worker_gone sw statuses r \<Longrightarrow>
       read_job jt u k None = Inr r' \<Longrightarrow> jr_status r' = Failed"
    by auto
  note one = touches_swept_area [OF this(1)] one_failed
  show ?case
  proof (cases res)
    case (Inl e)
    with Cons.prems(4) u have "out = Inl e" "u = t" by (simp_all add: bindS_def)
    with one(1) show ?thesis by blast
  next
    case (Inr x)
    obtain out' where rest: "reconcile_keys jt sw statuses team ks u = (t, out')"
      and out: "\<And>y. out = Inr y \<Longrightarrow> \<exists>y'. out' = Inr y'"
      using Cons.prems(4) u Inr by (auto simp: bindS_def split: prod.splits sum.splits)
    from Cons.IH [OF Cons.prems(1) swept_area_named [OF one(1) Cons.prems(2)] _ rest] Cons.prems(3)
    have tail: "swept_area jt sw statuses u t"
      "\<And>y k r. out' = Inr y \<Longrightarrow> k \<in> set ks \<Longrightarrow> read_job jt u k None = Inr r \<Longrightarrow> worker_gone sw statuses r \<Longrightarrow>
         \<exists>r'. read_job jt t k None = Inr r' \<and> jr_status r' = Failed" by auto
    have "\<exists>r'. read_job jt t k' None = Inr r' \<and> jr_status r' = Failed"
      if "out = Inr y" "k' \<in> set (k # ks)" "read_job jt s k' None = Inr r" "worker_gone sw statuses r" for y k' r
    proof -
      from swept_gone [OF one(1) that(3,4)] obtain r1
        where r1: "read_job jt u k' None = Inr r1" "worker_gone sw statuses r1 \<or> jr_status r1 = Failed" by blast
      have "k' = k \<Longrightarrow> jr_status r1 = Failed" using one(2) [OF Inr] that r1(1) by blast
      with r1(2) that(2) have "jr_status r1 = Failed \<or> k' \<in> set ks \<and> worker_gone sw statuses r1" by auto
      with r1(1) tail(2) out [OF that(1)] swept_failed [OF tail(1) r1(1)] show ?thesis by blast
    qed
    with one(1) tail(1) show ?thesis using swept_area_trans by blast
  qed
qed

lemma read_records_map:
  "read_records jt ja ks = Inr rs \<Longrightarrow>
     rs = map (\<lambda>k. (k, projr (read_job jt ja k None))) (filter (\<lambda>k. isOk (read_job jt ja k None)) ks)"
  by (induction ks arbitrary: rs) (auto simp: bindE_eq_Inr split: sum.splits if_splits)

lemma read_records_keys:
  "read_records jt ja ks = Inr rs \<Longrightarrow> map fst rs = filter (\<lambda>k. isOk (read_job jt ja k None)) ks"
  by (drule read_records_map) (simp add: o_def)

lemma job_paths_of: "k \<in> set (job_paths ja team) \<longleftrightarrow> k \<in> set (keys (ja_files ja)) \<and> fst k = team"
  by (auto simp: job_paths_def)

lemma reconcile_jobs_swept:
  "faithful_files jt \<Longrightarrow> well_named jt s \<Longrightarrow> reconcile_jobs jt sw statuses teams s = (t, out) \<Longrightarrow>
   swept_area jt sw statuses s t \<and>
   (\<forall>x k r. out = Inr x \<longrightarrow> fst k \<in> set teams \<longrightarrow> read_job jt s k None = Inr r \<longrightarrow> worker_gone sw statuses r \<longrightarrow>
      (\<exists>r'. read_job jt t k None = Inr r' \<and> jr_status r' = Failed))"
proof (induction teams arbitrary: s out)
  case Nil
  then show ?case by simp
next
  case (Cons team teams)
  show ?case
  proof (cases "bindE (ensure (is_team_id team) valueError) (\<lambda>_. read_records jt s (job_paths s team))")
    case (Inl e)
    with Cons.prems(3) show ?thesis by auto
  next
    case (Inr rs)
    then have ks: "map fst rs = filter (\<lambda>k. isOk (read_job jt s k None)) (job_paths s team)"
      using read_records_keys by (auto simp: bindE_eq_Inr)
    obtain u res where u: "reconcile_keys jt sw statuses team (map fst rs) s = (u, res)" by fastforce
    have "\<forall>k\<in>set (map fst rs). fst k = team" unfolding ks by (simp add: job_paths_of)
    note one = reconcile_keys_swept [OF Cons.prems(1,2) this u]
    show ?thesis
    proof (cases res)
      case (Inl e)
      with Cons.prems(3) \<open>bindE _ _ = Inr rs\<close> u have "out = Inl e" "u = t" by (simp_all add: bindS_def)
      with one show ?thesis by blast
    next
      case ok: (Inr x)
      obtain out' where rest: "reconcile_jobs jt sw statuses teams u = (t, out')"
        and out: "\<And>y. out = Inr y \<Longrightarrow> \<exists>y'. out' = Inr y'"
        using Cons.prems(3) \<open>bindE _ _ = Inr rs\<close> u ok by (auto simp: bindS_def split: prod.splits sum.splits)
      from one have su: "swept_area jt sw statuses s u" by blast
      from Cons.IH [OF Cons.prems(1) swept_area_named [OF su Cons.prems(2)] rest]
      have tail: "swept_area jt sw statuses u t"
        "\<And>y k r. out' = Inr y \<Longrightarrow> fst k \<in> set teams \<Longrightarrow> read_job jt u k None = Inr r \<Longrightarrow> worker_gone sw statuses r \<Longrightarrow>
           \<exists>r'. read_job jt t k None = Inr r' \<and> jr_status r' = Failed" by auto
      have "\<exists>r'. read_job jt t k None = Inr r' \<and> jr_status r' = Failed"
        if k: "out = Inr y" "fst k \<in> set (team # teams)" "read_job jt s k None = Inr r" "worker_gone sw statuses r" for y k r
      proof (cases "fst k = team")
        case True
        then have "k \<in> set (map fst rs)"
          using k(3) readable_key [OF k(3)] unfolding ks by (simp add: job_paths_of)
        with one ok k obtain r1 where "read_job jt u k None = Inr r1" "jr_status r1 = Failed" by blast
        then show ?thesis by (rule swept_failed [OF tail(1)])
      next
        case False
        from swept_gone [OF su k(3,4)] obtain r1
          where "read_job jt u k None = Inr r1" "worker_gone sw statuses r1 \<or> jr_status r1 = Failed" by blast
        moreover have "fst k \<in> set teams" using False k(2) by simp
        ultimately show ?thesis using tail(2) out [OF k(1)] swept_failed [OF tail(1)] by blast
      qed
      with su tail(1) show ?thesis using swept_area_trans by blast
    qed
  qed
qed


end
