(* ===== verification/Schedule.thy ===== *)
theory Schedule
  imports JobReconciliation
begin

text \<open>
  Schedules, \<^verbatim>\<open>flowgency/dispatch/schedule.py\<close> and the schedule part of \<^verbatim>\<open>flowgency/health.py\<close>: the
  rules \<open>at\<close> and \<open>every\<close>, the occurrences they have, the bound on catching up, the names of the markers
  and the lateness of a routine. A time is a naive local one, in microseconds from 1970-01-01 00:00. The
  code divides seconds as floats, which agrees with the integers here while a span is below
  \<open>2 ^ 33\<close> seconds, some 270 years.
\<close>

section \<open>Days and their text\<close>

abbreviation SECOND :: int where "SECOND \<equiv> 1000000"
abbreviation MINUTE :: int where "MINUTE \<equiv> 60 * SECOND"
abbreviation DAY :: int where "DAY \<equiv> 86400 * SECOND"

definition day_of :: "time \<Rightarrow> int" where "day_of t = t div DAY"

text \<open>\<open>strftime('%Y-%m-%d')\<close> of a day, counted from 1970-01-01, in the proleptic Gregorian calendar.\<close>

definition civil :: "int \<Rightarrow> int \<times> int \<times> int" where
  "civil day =
     (let z = day + 719468; era = z div 146097; doe = z mod 146097;
          yoe = (doe - doe div 1460 + doe div 36524 - doe div 146096) div 365;
          doy = doe - (365 * yoe + yoe div 4 - yoe div 100);
          mp = (5 * doy + 2) div 153;
          m = (if mp < 10 then mp + 3 else mp - 9)
      in (yoe + era * 400 + (if m \<le> 2 then 1 else 0), m, doy - (153 * mp + 2) div 5 + 1))"

definition padded :: "nat \<Rightarrow> int \<Rightarrow> string" where
  "padded n i = (let s = nat_text (nat i) in replicate (n - length s) CHR ''0'' @ s)"

definition day_text :: "int \<Rightarrow> string" where
  "day_text day = (let (y, m, d) = civil day in padded 4 y @ ''-'' @ padded 2 m @ ''-'' @ padded 2 d)"

section \<open>Rules\<close>

definition overflowError :: ticket_error where "overflowError = PyError ''OverflowError''"

text \<open>The digits of a numeral, read from the left.\<close>

definition numeral_value :: "string \<Rightarrow> int" where
  "numeral_value s = fold (\<lambda>c n. n * 10 + (of_char c - 48)) s 0"

definition is_decimal :: "char \<Rightarrow> bool" where
  "is_decimal c = char_in CHR ''0'' CHR ''9'' c"

definition unit_seconds :: "char \<Rightarrow> int option" where
  "unit_seconds c = (if c = CHR ''m'' then Some 60 else if c = CHR ''h'' then Some 3600
     else if c = CHR ''d'' then Some 86400 else None)"

text \<open>A number too long for \<open>int\<close> and a period beyond what \<open>timedelta\<close> holds are exceptions.\<close>

definition parse_every :: "string option \<Rightarrow> ticket_error + int option" where
  "parse_every v = (case v of None \<Rightarrow> Inr None | Some s \<Rightarrow>
     if s = [] then Inr None
     else (case unit_seconds (last s) of
         None \<Rightarrow> Inr None
       | Some u \<Rightarrow>
           if butlast s = [] \<or> \<not> list_all is_decimal (butlast s) then Inr None
           else bindE (ensure (length (butlast s) \<le> 4300) valueError) (\<lambda>_.
             let seconds = numeral_value (butlast s) * u in
             bindE (ensure (seconds div 86400 \<le> 999999999) overflowError) (\<lambda>_.
             Inr (Some (seconds * SECOND))))))"

datatype catch_up = CatchNone | CatchToday | CatchAlways | CatchDuration int

definition parse_catch_up :: "string option \<Rightarrow> ticket_error + catch_up option" where
  "parse_catch_up v =
     (let stripped = strip (case v of None \<Rightarrow> [] | Some s \<Rightarrow> s);
          rule = (if stripped = [] then ''today'' else stripped)
      in if rule = ''none'' then Inr (Some CatchNone)
         else if rule = ''today'' then Inr (Some CatchToday)
         else if rule = ''always'' then Inr (Some CatchAlways)
         else bindE (parse_every (Some rule)) (\<lambda>p. Inr (map_option CatchDuration p)))"

definition catch_up_allows :: "time \<Rightarrow> time \<Rightarrow> catch_up \<Rightarrow> int \<Rightarrow> bool" where
  "catch_up_allows occurrence now bound grace = (case bound of
      CatchAlways \<Rightarrow> True
    | CatchToday \<Rightarrow> day_of occurrence = day_of now
    | CatchDuration period \<Rightarrow> now - occurrence \<le> period
    | CatchNone \<Rightarrow> now - occurrence < grace)"

text \<open>\<open>strptime(_, '%H:%M')\<close>: one or two digits each.\<close>

definition clock_field :: "int \<Rightarrow> string \<Rightarrow> int option" where
  "clock_field limit s = (if length s \<in> {1, 2} \<and> list_all is_decimal s \<and> numeral_value s \<le> limit
     then Some (numeral_value s) else None)"

definition parse_clock :: "string \<Rightarrow> int option" where
  "parse_clock s = (case split_at '':'' s of
      None \<Rightarrow> None
    | Some (h, m) \<Rightarrow> (case (clock_field 23 h, clock_field 59 m) of
        (Some hour, Some minute) \<Rightarrow> Some ((hour * 60 + minute) * MINUTE)
      | _ \<Rightarrow> None))"

definition last_at_occurrence :: "string \<Rightarrow> time \<Rightarrow> time option" where
  "last_at_occurrence clock now = (case parse_clock (strip clock) of
      None \<Rightarrow> None
    | Some target \<Rightarrow>
        let today = day_of now * DAY + target in Some (if today \<le> now then today else today - DAY))"

definition last_every_occurrence :: "time \<Rightarrow> string \<Rightarrow> time \<Rightarrow> ticket_error + time option" where
  "last_every_occurrence anchor every now =
     bindE (parse_every (Some every)) (\<lambda>p. case p of
       None \<Rightarrow> Inr None
     | Some period \<Rightarrow>
         if period \<le> 0 then Inr None
         else if now - anchor < period then Inr None
         else Inr (Some (anchor + (now - anchor) div period * period)))"

section \<open>Markers\<close>

definition marker_char :: "char \<Rightarrow> bool" where
  "marker_char c \<longleftrightarrow> job_id_char c \<or> c \<in> set ''._-''"

fun unsafe_runs :: "bool \<Rightarrow> string \<Rightarrow> string" where
  "unsafe_runs inside [] = []"
| "unsafe_runs inside (c # cs) =
     (if marker_char c then c # unsafe_runs False cs
      else if inside then unsafe_runs True cs else CHR ''-'' # unsafe_runs True cs)"

definition marker_safe :: "string \<Rightarrow> string" where
  "marker_safe s =
     (let t = dropWhile (\<lambda>c. c \<in> set ''.-'') (unsafe_runs False s);
          u = rev (dropWhile (\<lambda>c. c \<in> set ''.-'') (rev t))
      in if u = [] then ''item'' else u)"

text \<open>A marker is a file below the logs of a team: its directory and its name.\<close>

type_synonym marker = "string \<times> string"

definition every_marker_path :: "string \<Rightarrow> string \<Rightarrow> string \<Rightarrow> marker" where
  "every_marker_path logs agent routine_id = (logs, ''.last-'' @ marker_safe agent @ ''-'' @ marker_safe routine_id)"

definition at_marker_path :: "string \<Rightarrow> string \<Rightarrow> string \<Rightarrow> string \<Rightarrow> marker" where
  "at_marker_path logs agent routine_id day =
     (logs @ ''/'' @ day, ''.event-'' @ marker_safe agent @ ''-'' @ marker_safe routine_id @ ''-'' @ day)"

text \<open>Two routines can share a marker.\<close>

lemma markers_collide: "every_marker_path logs ''a-b'' ''c'' = every_marker_path logs ''a'' ''b-c''"
proof -
  have "marker_safe ''a-b'' @ ''-'' @ marker_safe ''c'' = marker_safe ''a'' @ ''-'' @ marker_safe ''b-c''" by code_simp
  then show ?thesis by (simp add: every_marker_path_def)
qed

section \<open>Lateness\<close>

definition grace_window :: "int \<Rightarrow> int" where
  "grace_window interval = (interval + 2) * MINUTE"

datatype late_state = Overdue | Due

record routine_schedule =
  rs_routine_id :: string
  rs_at :: "string option"
  rs_every :: "string option"
  rs_enabled :: bool
  rs_conditional :: bool

record lateness =
  lt_routine_id :: string
  lt_state :: late_state
  lt_due_at :: time

definition as_lateness :: "string \<Rightarrow> time \<Rightarrow> time \<Rightarrow> int \<Rightarrow> lateness option" where
  "as_lateness routine_id now due_at grace =
     (if now < due_at then None
      else Some \<lparr>lt_routine_id = routine_id, lt_state = (if due_at + grace < now then Overdue else Due),
        lt_due_at = due_at\<rparr>)"

text \<open>Here the clock follows the day in one format, whose space stands for any run of spaces.\<close>

definition at_lateness ::
  "(marker, time) dict \<Rightarrow> routine_schedule \<Rightarrow> string \<Rightarrow> string \<Rightarrow> string \<Rightarrow> time \<Rightarrow> int \<Rightarrow> lateness option" where
  "at_lateness markers s clock logs agent now grace = (case parse_clock (lstrip clock) of
      None \<Rightarrow> None
    | Some target \<Rightarrow>
        let occurrence = day_of now * DAY + target in
        if now < occurrence then None
        else if has_key markers (at_marker_path logs agent (rs_routine_id s) (day_text (day_of now))) then None
        else as_lateness (rs_routine_id s) now occurrence grace)"

definition every_lateness ::
  "(marker, time) dict \<Rightarrow> routine_schedule \<Rightarrow> string \<Rightarrow> string \<Rightarrow> string \<Rightarrow> time \<Rightarrow> int \<Rightarrow>
   ticket_error + lateness option" where
  "every_lateness markers s every logs agent now grace =
     bindE (parse_every (Some every)) (\<lambda>p. case p of
       None \<Rightarrow> Inr None
     | Some period \<Rightarrow> (case map_of markers (every_marker_path logs agent (rs_routine_id s)) of
         None \<Rightarrow> Inr None
       | Some fired_at \<Rightarrow> Inr (as_lateness (rs_routine_id s) now (fired_at + period) grace)))"

fun truthy :: "string option \<Rightarrow> bool" where
  "truthy None = False"
| "truthy (Some s) = (s \<noteq> [])"

definition routine_lateness ::
  "(marker, time) dict \<Rightarrow> routine_schedule \<Rightarrow> string \<Rightarrow> string \<Rightarrow> time \<Rightarrow> int \<Rightarrow> ticket_error + lateness option" where
  "routine_lateness markers s logs agent now grace =
     (if \<not> rs_enabled s \<or> rs_conditional s \<or> rs_routine_id s = [] then Inr None
      else if truthy (rs_at s) then Inr (at_lateness markers s (the (rs_at s)) logs agent now grace)
      else if truthy (rs_every s) then every_lateness markers s (the (rs_every s)) logs agent now grace
      else Inr None)"

definition late_rank :: "lateness \<Rightarrow> int \<times> time" where
  "late_rank l = (if lt_state l = Overdue then 0 else 1, lt_due_at l)"

fun strongest :: "(marker, time) dict \<Rightarrow> string \<Rightarrow> string \<Rightarrow> time \<Rightarrow> int \<Rightarrow> lateness option \<Rightarrow>
    routine_schedule list \<Rightarrow> ticket_error + lateness option" where
  "strongest markers logs agent now grace best [] = Inr best"
| "strongest markers logs agent now grace best (s # ss) =
     bindE (routine_lateness markers s logs agent now grace) (\<lambda>current.
     strongest markers logs agent now grace
       (case (current, best) of
          (None, _) \<Rightarrow> best
        | (Some c, None) \<Rightarrow> Some c
        | (Some c, Some b) \<Rightarrow> if late_rank c < late_rank b then Some c else Some b) ss)"

definition schedule_lateness ::
  "(marker, time) dict \<Rightarrow> routine_schedule list \<Rightarrow> string \<Rightarrow> string \<Rightarrow> time \<Rightarrow> int \<Rightarrow> ticket_error + lateness option" where
  "schedule_lateness markers ss logs agent now grace = strongest markers logs agent now grace None ss"

datatype health_color = Red | Amber | Gray | Green

definition evaluate_agent_health :: "bool \<Rightarrow> bool \<Rightarrow> late_state option \<Rightarrow> health_color" where
  "evaluate_agent_health has_run last_job_failed schedule =
     (if last_job_failed \<or> schedule = Some Overdue then Red
      else if schedule = Some Due then Amber else if \<not> has_run then Gray else Green)"

datatype health_reason = JobFailed | RoutineLate late_state | NeverRun | Healthy

record agent_health =
  ah_color :: health_color
  ah_kind :: health_reason
  ah_routine_id :: "string option"
  ah_due_at :: "time option"
  ah_late :: "int option"

definition describe_agent_health :: "bool \<Rightarrow> bool \<Rightarrow> lateness option \<Rightarrow> time \<Rightarrow> agent_health" where
  "describe_agent_health has_run last_job_failed l now =
     (let color = evaluate_agent_health has_run last_job_failed (map_option lt_state l);
          plain = (\<lambda>kind. \<lparr>ah_color = color, ah_kind = kind, ah_routine_id = None, ah_due_at = None, ah_late = None\<rparr>)
      in if last_job_failed then plain JobFailed
         else case l of
           Some x \<Rightarrow> \<lparr>ah_color = color, ah_kind = RoutineLate (lt_state x), ah_routine_id = Some (lt_routine_id x),
             ah_due_at = Some (lt_due_at x), ah_late = Some (now - lt_due_at x)\<rparr>
         | None \<Rightarrow> if \<not> has_run then plain NeverRun else plain Healthy)"

definition next_occurrence ::
  "(marker, time) dict \<Rightarrow> routine_schedule \<Rightarrow> string \<Rightarrow> string \<Rightarrow> time \<Rightarrow> ticket_error + time option" where
  "next_occurrence markers s logs agent now =
     (if \<not> rs_enabled s \<or> rs_conditional s \<or> rs_routine_id s = [] then Inr None
      else if truthy (rs_at s) then (case parse_clock (lstrip (the (rs_at s))) of
          None \<Rightarrow> Inr None
        | Some target \<Rightarrow>
            let today = day_of now * DAY + target in
            if now < today then Inr (Some today)
            else if has_key markers (at_marker_path logs agent (rs_routine_id s) (day_text (day_of now)))
            then Inr (Some (today + DAY)) else Inr (Some today))
      else if truthy (rs_every s) then
        bindE (parse_every (rs_every s)) (\<lambda>p. case p of
          None \<Rightarrow> Inr None
        | Some period \<Rightarrow> (case map_of markers (every_marker_path logs agent (rs_routine_id s)) of
            None \<Rightarrow> Inr (Some now) | Some fired_at \<Rightarrow> Inr (Some (fired_at + period))))
      else Inr None)"

definition last_fired_at ::
  "(marker, time) dict \<Rightarrow> routine_schedule \<Rightarrow> string \<Rightarrow> string \<Rightarrow> time \<Rightarrow> time option" where
  "last_fired_at markers s logs agent now =
     (if truthy (rs_at s) then map_of markers (at_marker_path logs agent (rs_routine_id s) (day_text (day_of now)))
      else if truthy (rs_every s) then map_of markers (every_marker_path logs agent (rs_routine_id s))
      else None)"

section \<open>Durations in words\<close>

text \<open>\<open>int(delta.total_seconds())\<close> rounds towards zero.\<close>

definition whole_seconds :: "int \<Rightarrow> int" where
  "whole_seconds t = (if 0 \<le> t then t div SECOND else - ((- t) div SECOND))"

definition count_text :: "int \<Rightarrow> string \<Rightarrow> string" where
  "count_text n u = nat_text (nat n) @ u"

definition elapsed_coarse :: "int \<Rightarrow> string" where
  "elapsed_coarse t =
     (let minutes = max (whole_seconds t div 60) 0; hours = minutes div 60
      in if minutes < 60 then count_text minutes ''m''
         else if hours < 24 then count_text hours ''h'' else count_text (hours div 24) ''d'')"

definition compound :: "int \<Rightarrow> string \<Rightarrow> int \<Rightarrow> string \<Rightarrow> string" where
  "compound major major_unit minor minor_unit =
     (if minor = 0 then count_text major major_unit
      else count_text major major_unit @ '' '' @ count_text minor minor_unit)"

definition elapsed_precise :: "int \<Rightarrow> string" where
  "elapsed_precise t =
     (let seconds = max (whole_seconds t) 0
      in if seconds < 60 then count_text seconds ''s''
         else if seconds < 3600 then compound (seconds div 60) ''m'' (seconds mod 60) ''s''
         else if seconds < 86400 then compound (seconds div 3600) ''h'' (seconds mod 3600 div 60) ''m''
         else compound (seconds div 86400) ''d'' (seconds mod 86400 div 3600) ''h'')"

text \<open>\<open>round\<close> takes a half to the even neighbour.\<close>

definition relative_future :: "time option \<Rightarrow> time \<Rightarrow> string" where
  "relative_future t now = (case t of None \<Rightarrow> [] | Some d \<Rightarrow>
     let seconds = whole_seconds (d - now) in
     if seconds \<le> 0 then ''due now''
     else
       let q = seconds div 60; r = seconds mod 60;
           rounded = (if r < 30 \<or> r = 30 \<and> even q then q else q + 1);
           minutes = max 1 rounded; hours = minutes div 60
       in ''due in '' @ (if minutes < 60 then count_text minutes ''m''
            else if hours < 24 then count_text hours ''h'' else count_text (hours div 24) ''d''))"

section \<open>Occurrences lie where they should\<close>

lemma decimal_digit: "is_decimal c \<Longrightarrow> (48 :: int) \<le> of_char c"
proof -
  assume "is_decimal c"
  then have "(48 :: nat) \<le> of_char c" by (simp add: is_decimal_def char_in_def)
  then have "int 48 \<le> int (of_char c)" by (simp only: of_nat_le_iff)
  then show ?thesis by (simp add: of_nat_of_char)
qed

lemma numeral_value_bounds: "list_all is_decimal s \<Longrightarrow> 0 \<le> numeral_value s"
proof -
  have "list_all is_decimal s \<Longrightarrow> 0 \<le> n \<Longrightarrow> 0 \<le> fold (\<lambda>c n. n * 10 + (of_char c - 48)) s n" for n :: int
  proof (induction s arbitrary: n)
    case (Cons c s)
    with decimal_digit [of c] have "0 \<le> n * 10 + (of_char c - 48)" by simp
    with Cons show ?case by simp
  qed simp
  then show "list_all is_decimal s \<Longrightarrow> 0 \<le> numeral_value s" by (simp add: numeral_value_def)
qed

lemma parse_clock_bounds: "parse_clock s = Some target \<Longrightarrow> 0 \<le> target \<and> target < DAY \<and> target mod MINUTE = 0"
  by (auto simp: parse_clock_def clock_field_def dest!: numeral_value_bounds split: option.splits if_splits)

text \<open>A period is a whole number of minutes.\<close>

lemma parse_every_minutes: "parse_every v = Inr (Some period) \<Longrightarrow> 0 \<le> period \<and> (0 < period \<longrightarrow> MINUTE \<le> period)"
  by (auto simp: parse_every_def unit_seconds_def Let_def bindE_eq_Inr dest!: numeral_value_bounds
      split: option.splits if_splits)

lemma last_every_newest:
  assumes "last_every_occurrence anchor every now = Inr (Some o2)"
  shows "\<exists>period k. parse_every (Some every) = Inr (Some period) \<and> 0 < period \<and> 1 \<le> k \<and>
      o2 = anchor + k * period \<and> o2 \<le> now \<and> now < o2 + period"
proof -
  from assms obtain period where p: "parse_every (Some every) = Inr (Some period)" "0 < period" "period \<le> now - anchor"
    and o2: "o2 = anchor + (now - anchor) div period * period"
    by (auto simp: last_every_occurrence_def bindE_eq_Inr split: option.splits if_splits)
  have "period div period \<le> (now - anchor) div period" using p by (intro zdiv_mono1) auto
  then have "1 \<le> (now - anchor) div period" using p(2) by simp
  moreover have "now - anchor = (now - anchor) div period * period + (now - anchor) mod period" by simp
  moreover have "0 \<le> (now - anchor) mod period" "(now - anchor) mod period < period" using p(2) by simp_all
  ultimately have "o2 \<le> now" "now < o2 + period" "1 \<le> (now - anchor) div period" using o2 by linarith+
  with p o2 show ?thesis by blast
qed

text \<open>C33: The occurrence of a schedule at a moment is its newest one that is not in the future. An \<open>at\<close>
  rule has it within the last day, on the clock time it names; an \<open>every\<close> rule has it a whole number
  of periods, at least one, after the last firing, and less than a period ago.\<close>

theorem newest_occurrence:
  shows "(last_at_occurrence clock now = Some o1 \<longrightarrow>
      o1 \<le> now \<and> now < o1 + DAY \<and> parse_clock (strip clock) = Some (o1 mod DAY)) \<and>
    (last_every_occurrence anchor every now = Inr (Some o2) \<longrightarrow>
      (\<exists>period k. parse_every (Some every) = Inr (Some period) \<and> 0 < period \<and> 1 \<le> k \<and> o2 = anchor + k * period \<and>
         o2 \<le> now \<and> now < o2 + period)) \<and>
    (last_every_occurrence anchor every now = Inr None \<longrightarrow>
      (\<forall>period. parse_every (Some every) = Inr (Some period) \<longrightarrow> 0 < period \<longrightarrow> now < anchor + period))"
proof (intro conjI impI)
  assume "last_at_occurrence clock now = Some o1"
  then obtain target where t: "parse_clock (strip clock) = Some target"
    and o1: "o1 = (if day_of now * DAY + target \<le> now then day_of now * DAY + target
      else day_of now * DAY + target - DAY)"
    by (auto simp: last_at_occurrence_def Let_def split: option.splits)
  note b = parse_clock_bounds [OF t]
  have "now = day_of now * DAY + now mod DAY" by (simp add: day_of_def)
  moreover have "0 \<le> now mod DAY" "now mod DAY < DAY" by simp_all
  ultimately show "o1 \<le> now" "now < o1 + DAY" using o1 b by auto
  have "o1 = target + (if day_of now * DAY + target \<le> now then day_of now else day_of now - 1) * DAY"
    using o1 by (simp add: algebra_simps)
  then have "o1 mod DAY = target mod DAY" by (simp only: mod_mult_self1)
  then show "parse_clock (strip clock) = Some (o1 mod DAY)" using t b by simp
next
  assume "last_every_occurrence anchor every now = Inr (Some o2)"
  then show "\<exists>period k. parse_every (Some every) = Inr (Some period) \<and> 0 < period \<and> 1 \<le> k \<and>
      o2 = anchor + k * period \<and> o2 \<le> now \<and> now < o2 + period" by (rule last_every_newest)
next
  assume "last_every_occurrence anchor every now = Inr None"
  then show "\<forall>period. parse_every (Some every) = Inr (Some period) \<longrightarrow> 0 < period \<longrightarrow> now < anchor + period"
    by (auto simp: last_every_occurrence_def split: if_splits)
qed

end
