(* ===== verification/JobQueue.thy ===== *)
theory JobQueue
  imports JobReconciliation
begin

text \<open>
  The queue and its worker pool, \<^verbatim>\<open>flowgency/jobs/queue.py\<close>. A drain holds the queue lock, sweeps the
  records that hold slots, counts the slots that are taken and starts waiting jobs, oldest due first,
  while there is room. What starting a process does is not in the repository: a launch fails, or it
  yields a process id and a worker that may already have moved its own record before the drain
  claims it.
\<close>

section \<open>The queue\<close>

definition SLOT_STATUSES :: "job_status list" where "SLOT_STATUSES = [Running, WaitingForMemory]"

record queue_entry =
  qe_team_id :: string
  qe_record :: job_record
  qe_path :: job_key

record queue_view =
  qv_running :: nat
  qv_waiting :: "queue_entry list"
  qv_pool :: int

fun team_entries :: "job_tools \<Rightarrow> job_area \<Rightarrow> string list \<Rightarrow> ticket_error + queue_entry list" where
  "team_entries jt ja [] = Inr []"
| "team_entries jt ja (team # teams) =
     bindE (ensure (is_team_id team) valueError) (\<lambda>_.
     bindE (read_records jt ja (job_paths ja team)) (\<lambda>rs.
     bindE (team_entries jt ja teams) (\<lambda>es.
     Inr (map (\<lambda>(k, r). \<lparr>qe_team_id = team, qe_record = r, qe_path = k\<rparr>) rs @ es))))"

definition job_entries :: "job_tools \<Rightarrow> job_area \<Rightarrow> string list \<Rightarrow> ticket_error + queue_entry list" where
  "job_entries jt ja teams = team_entries jt ja (sort teams)"

definition order_key :: "queue_entry \<Rightarrow> string \<times> string" where
  "order_key x = (first_text [jr_due_at (qe_record x), sp_created_at (jr_spec (qe_record x))],
     sp_job_id (jr_spec (qe_record x)))"

definition queue_snapshot ::
  "job_tools \<Rightarrow> pool_env \<Rightarrow> string list \<Rightarrow> int \<Rightarrow> job_area \<Rightarrow> ticket_error + queue_view" where
  "queue_snapshot jt e teams pool ja =
     bindE (job_entries jt ja teams) (\<lambda>es.
     Inr \<lparr>qv_running = length (filter (\<lambda>x. occupies_slot e (qe_record x)) es),
          qv_waiting = sort_key order_key (filter (\<lambda>x. is_launchable e (qe_record x)) es),
          qv_pool = pool\<rparr>)"

text \<open>What launching does: it raises, or it gives a process id and a worker, which may have moved its own
  record before it is claimed. The moves are calls of \<open>transition_job\<close>.\<close>

type_synonym worker_move = "job_status \<times> job_status \<times> (job_record \<Rightarrow> job_record)"

datatype launch_outcome = LaunchError string | Launched "int option" "worker_move list"

fun worker_moves :: "job_tools \<Rightarrow> job_key \<Rightarrow> worker_move list \<Rightarrow> job_area \<Rightarrow> job_area" where
  "worker_moves jt k [] ja = ja"
| "worker_moves jt k ((expected, status, f) # ms) ja =
     worker_moves jt k ms (fst (transition_job jt k expected status f ja))"

record launch_env =
  la_root :: string
  la_launch :: "job_authority \<Rightarrow> launch_outcome"
  la_stamp :: string
  la_hosts :: "job_key \<Rightarrow> pool_env"

definition start_job :: "job_tools \<Rightarrow> launch_env \<Rightarrow> queue_entry \<Rightarrow> (job_area, ticket_error, bool) op" where
  "start_job jt la x ja = (case read_job jt ja (qe_path x) None of
      Inl e \<Rightarrow> if malformed e then (ja, Inr False) else (ja, Inl e)
    | Inr r \<Rightarrow>
        if \<not> is_launchable (la_hosts la (qe_path x)) r then (ja, Inr False)
        else bindS (readS (\<lambda>ja. reference (la_root la) ja (qe_team_id x) (sp_job_id (jr_spec r))
              (jr_authority_digest r))) (\<lambda>a.
          case la_launch la a of
            LaunchError message \<Rightarrow>
              unless_moved (transition_job jt (qe_path x) Queued Failed
                  (\<lambda>y. y\<lparr>jr_completed_at := Some (la_stamp la),
                        jr_execution_summary := Some (''Launch error: '' @ message)\<rparr>))
                False (\<lambda>_. False)
          | Launched pid moves \<Rightarrow>
              bindS (putS (worker_moves jt (au_team_id a, au_job_id a) moves)) (\<lambda>_.
              unless_moved (claim_job jt (qe_path x) pid (la_stamp la)) True (\<lambda>_. True))) ja)"

text \<open>The loop of a drain, over what starting an entry does.\<close>

fun drain_loop :: "('x \<Rightarrow> ('s, 'e, bool) op) \<Rightarrow> int \<Rightarrow> 'x list \<Rightarrow> ('s, 'e, nat) op" where
  "drain_loop start capacity [] = returnS 0"
| "drain_loop start capacity (x # xs) =
     (if capacity \<le> 0 then returnS 0
      else bindS (start x) (\<lambda>started.
        if started then bindS (drain_loop start (capacity - 1) xs) (\<lambda>n. returnS (Suc n))
        else drain_loop start capacity xs))"

definition drain ::
  "job_tools \<Rightarrow> bool \<Rightarrow> sweep \<Rightarrow> bool \<Rightarrow> pool_env \<Rightarrow> launch_env \<Rightarrow> string list \<Rightarrow> int \<Rightarrow>
   (job_area, ticket_error, nat) op" where
  "drain jt lock_free sw full_reconcile e la teams pool =
     (if \<not> lock_free then returnS 0
      else bindS (reconcile_jobs jt sw (if full_reconcile then None else Some SLOT_STATUSES) teams) (\<lambda>_.
        bindS (readS (queue_snapshot jt e teams pool)) (\<lambda>v.
        drain_loop (start_job jt la) (qv_pool v - int (qv_running v)) (qv_waiting v))))"

section \<open>Starting one job\<close>

text \<open>A worker moves its record with fields of the run only.\<close>

definition proper_launcher :: "launch_env \<Rightarrow> bool" where
  "proper_launcher la \<longleftrightarrow> (\<forall>a. case la_launch la a of LaunchError _ \<Rightarrow> True
     | Launched _ moves \<Rightarrow> (\<forall>m\<in>set moves. run_fields (snd (snd m))))"

lemma worker_moves_touches:
  assumes "faithful_files jt" "\<forall>m\<in>set moves. run_fields (snd (snd m))"
  shows "touches jt kept k s (worker_moves jt k moves s)"
  using assms(2)
proof (induction moves arbitrary: s)
  case Nil
  show ?case by (simp add: touches_refl)
next
  case (Cons m moves)
  obtain a b f where m: "m = (a, b, f)" by (cases m)
  obtain u out where u: "transition_job jt k a b f s = (u, out)" by fastforce
  from Cons.prems m have "run_fields f" by simp
  from transition_job_touches [OF assms(1) u this] Cons
  have "touches jt kept k s u" "touches jt kept k u (worker_moves jt k moves u)" by simp_all
  then show ?case using m u by (auto intro: touches_trans kept_trans)
qed

lemma unless_moved_cases:
  assumes "unless_moved m other f s = (t, out)"
  obtains (returned) x where "m s = (t, Inr x)" "out = Inr (f x)"
  | (moved) "m s = (t, Inl invalidTransition)" "out = Inr other"
  | (raised) e where "m s = (t, Inl e)" "out = Inl e"
  using assms that
  by (cases "snd (m s)") (auto simp: unless_moved_def split: prod.splits if_splits)

lemma run_fields_stamp:
  "run_fields (\<lambda>y. y\<lparr>jr_completed_at := c, jr_execution_summary := e\<rparr>)"
  by (simp add: run_fields_def)

text \<open>An entry of the snapshot names its file by team and job.\<close>

definition entry_named :: "queue_entry \<Rightarrow> bool" where
  "entry_named x \<longleftrightarrow> qe_team_id x = fst (qe_path x)"

lemma start_job_cases:
  assumes "start_job jt la x s = (t, out)" "well_named jt s" "entry_named x"
  obtains (left) "t = s" "out \<noteq> Inr True"
  | (failed) message r where "transition_job jt (qe_path x) Queued Failed
        (\<lambda>y. y\<lparr>jr_completed_at := Some (la_stamp la),
           jr_execution_summary := Some (''Launch error: '' @ message)\<rparr>) s = (t, r)"
      "out \<noteq> Inr True"
  | (launched) a pid moves r where "la_launch la a = Launched pid moves"
      "claim_job jt (qe_path x) pid (la_stamp la) (worker_moves jt (qe_path x) moves s) = (t, r)"
      "out \<noteq> Inr False"
proof (cases "read_job jt s (qe_path x) None")
  case (Inl e)
  with assms(1) left show thesis by (auto simp: start_job_def split: if_splits)
next
  case (Inr r)
  show thesis
  proof (cases "is_launchable (la_hosts la (qe_path x)) r")
    case False
    with Inr assms(1) left show thesis by (auto simp: start_job_def)
  next
    case True
    let ?k = "qe_path x"
    show thesis
    proof (cases "reference (la_root la) s (qe_team_id x) (sp_job_id (jr_spec r)) (jr_authority_digest r)")
      case (Inl e)
      with True Inr assms(1) left show thesis by (auto simp: start_job_def)
    next
      case ref: (Inr a)
      from well_namedD [OF assms(2) Inr] have "snd ?k = sp_job_id (jr_spec r)" by (cases ?k) simp
      with reference_names [OF ref] assms(3) have k: "(au_team_id a, au_job_id a) = ?k"
        by (cases ?k) (simp add: entry_named_def)
      show thesis
      proof (cases "la_launch la a")
        case (LaunchError message)
        let ?f = "\<lambda>y. y\<lparr>jr_completed_at := Some (la_stamp la),
           jr_execution_summary := Some (''Launch error: '' @ message)\<rparr>"
        from LaunchError True Inr ref assms(1)
        have um: "unless_moved (transition_job jt ?k Queued Failed ?f) False (\<lambda>_. False) s = (t, out)"
          by (simp add: start_job_def)
        obtain u res where tr: "transition_job jt ?k Queued Failed ?f s = (u, res)" by fastforce
        moreover have "out \<noteq> Inr True" "u = t"
          using um tr by (auto elim!: unless_moved_cases)
        ultimately show thesis using failed by blast
      next
        case (Launched pid moves)
        with True Inr ref k assms(1)
        have um: "unless_moved (claim_job jt ?k pid (la_stamp la)) True (\<lambda>_. True) (worker_moves jt ?k moves s) = (t, out)"
          by (simp add: start_job_def)
        obtain u res where "claim_job jt ?k pid (la_stamp la) (worker_moves jt ?k moves s) = (u, res)" by fastforce
        moreover from this um have "out \<noteq> Inr False" "u = t" by (auto elim!: unless_moved_cases)
        ultimately show thesis using launched [OF Launched] by blast
      qed
    qed
  qed
qed

lemma start_job_touches:
  assumes "faithful_files jt" "proper_launcher la" "well_named jt s" "entry_named x"
    and "start_job jt la x s = (t, out)"
  shows "touches jt kept (qe_path x) s t"
  using assms(5,3,4)
proof (cases rule: start_job_cases)
  case left
  then show ?thesis by (simp add: touches_refl)
next
  case (failed message r)
  show ?thesis by (rule transition_job_touches [OF assms(1) failed(1)]) (simp add: run_fields_stamp)
next
  case (launched a pid moves r)
  from assms(2) launched(1) have "\<forall>m\<in>set moves. run_fields (snd (snd m))"
    by (force simp: proper_launcher_def split: launch_outcome.splits)
  from worker_moves_touches [OF assms(1) this] claim_job_touches [OF assms(1) launched(2)]
  show ?thesis by (rule touches_trans) (rule kept_trans)
qed

lemma failed_frees:
  assumes "faithful_files jt" "transition_job jt k a Failed f s = (t, r)" "run_fields f"
    and "takes_slot jt e teams t k"
  shows "takes_slot jt e teams s k"
  using assms(2) unfolding transition_job_def
proof (cases rule: update_job_cases)
  case (raised e)
  with assms(4) show ?thesis by simp
next
  case (wrote x x')
  then have "x' = f (x\<lparr>jr_status := Failed\<rparr>)" by (auto simp: bindE_eq_Inr)
  with assms(3) have x': "jr_status x' = Failed" "jr_spec x' = jr_spec x" "jr_authority_digest x' = jr_authority_digest x"
    by (simp_all add: run_fields_def)
  with read_job_sound [OF assms(1) wrote(1)] have "sound_record jt x'" by (simp add: sound_record_def)
  then have "read_job jt t k None = Inr x'" using wrote(5) assms(1) by (simp add: read_stored)
  with assms(4) x'(1) show ?thesis by (simp add: takes_slot_def occupies_slot_def)
qed

section \<open>The pool\<close>

text \<open>What the loop of a drain relies on: starting an entry takes at most one more slot, and none when it
  reports that nothing was started.\<close>

locale worker_pool =
  fixes ok :: "'s \<Rightarrow> bool" and fits :: "'x \<Rightarrow> bool" and used :: "'s \<Rightarrow> nat"
    and start :: "'x \<Rightarrow> ('s, 'e, bool) op"
  assumes keeps: "ok s \<Longrightarrow> fits x \<Longrightarrow> ok (fst (start x s))"
    and at_most_one: "ok s \<Longrightarrow> fits x \<Longrightarrow> used (fst (start x s)) \<le> used s + 1"
    and none_started: "ok s \<Longrightarrow> fits x \<Longrightarrow> start x s = (t, Inr False) \<Longrightarrow> used t \<le> used s"
begin

lemma drain_loop_bound:
  "drain_loop start capacity xs s = (t, out) \<Longrightarrow> ok s \<Longrightarrow> \<forall>x\<in>set xs. fits x \<Longrightarrow>
     ok t \<and> used t \<le> used s + nat capacity \<and> (\<forall>n. out = Inr n \<longrightarrow> n \<le> nat capacity)"
proof (induction xs arbitrary: capacity s out)
  case Nil
  then show ?case by auto
next
  case (Cons x xs)
  obtain u res where u: "start x s = (u, res)" by fastforce
  with keeps [of s x] at_most_one [of s x] Cons.prems
  have step: "ok u" "used u \<le> used s + 1" by simp_all
  show ?case
  proof (cases "capacity \<le> 0")
    case True
    with Cons.prems show ?thesis by auto
  next
    case room: False
    show ?thesis
    proof (cases res)
      case (Inl e)
      with room Cons.prems u step show ?thesis by (auto simp: bindS_def)
    next
      case (Inr started)
      show ?thesis
      proof (cases started)
        case True
        obtain r where "drain_loop start (capacity - 1) xs u = (t, r)"
          and out: "out = (case r of Inl e \<Rightarrow> Inl e | Inr n \<Rightarrow> Inr (Suc n))"
          using Cons.prems(1) room u Inr True by (auto simp: bindS_def split: prod.splits sum.splits)
        from Cons.IH [OF this(1) step(1)] Cons.prems(3)
        have "ok t" "used t \<le> used u + nat (capacity - 1)" "\<forall>n. r = Inr n \<longrightarrow> n \<le> nat (capacity - 1)" by auto
        with step(2) room out show ?thesis by (auto split: sum.splits)
      next
        case False
        with none_started [of s x u] u Inr Cons.prems have "used u \<le> used s" by simp
        with Cons.IH [of capacity u out] Cons.prems room u Inr False step(1) show ?thesis
          by (force simp: bindS_def)
      qed
    qed
  qed
qed

end

definition trusted :: "job_tools \<Rightarrow> launch_env \<Rightarrow> job_area \<Rightarrow> bool" where
  "trusted jt la s \<longleftrightarrow> faithful_files jt \<and> proper_launcher la \<and> well_named jt s"

interpretation jobs: worker_pool "trusted jt la" entry_named "slots jt e teams" "start_job jt la"
proof unfold_locales
  fix s x t
  assume "trusted jt la s" and x: "entry_named x"
  then have ok: "faithful_files jt" "proper_launcher la" "well_named jt s" by (simp_all add: trusted_def)
  obtain u res where u: "start_job jt la x s = (u, res)" by fastforce
  note touch = start_job_touches [OF ok x u]
  show "trusted jt la (fst (start_job jt la x s))"
    using touches_named [OF touch ok(3)] ok u by (simp add: trusted_def kept_def)
  show "slots jt e teams (fst (start_job jt la x s)) \<le> slots jt e teams s + 1"
    using slots_touches(1) [OF touch] u by simp
  assume start: "start_job jt la x s = (t, Inr False)"
  then show "slots jt e teams t \<le> slots jt e teams s"
    using ok(3) x
  proof (cases rule: start_job_cases)
    case (failed message r)
    with u start have "touches jt kept (qe_path x) s t" using touch by simp
    then show ?thesis
      by (rule slots_touches(2)) (rule failed_frees [OF ok(1) failed(1) run_fields_stamp])
  qed simp_all
qed

section \<open>Draining\<close>

lemma team_entries_slots:
  assumes "wf_dict (ja_files ja)" "distinct teams" "team_entries jt ja teams = Inr es"
  shows "length (filter (\<lambda>x. occupies_slot e (qe_record x)) es) = slots jt e teams ja"
  using assms(2,3)
proof (induction teams arbitrary: es)
  case Nil
  then show ?case by (simp add: slots_def takes_slot_def)
next
  case (Cons team teams)
  then obtain rs es' where rs: "read_records jt ja (job_paths ja team) = Inr rs"
    and es': "team_entries jt ja teams = Inr es'"
    and es: "es = map (\<lambda>(k, r). \<lparr>qe_team_id = team, qe_record = r, qe_path = k\<rparr>) rs @ es'"
    by (auto simp: bindE_eq_Inr)
  let ?T = "\<lambda>ts. set (filter (takes_slot jt e ts ja) (keys (ja_files ja)))"
  have "filter (\<lambda>k. isOk (read_job jt ja k None) \<and> occupies_slot e (projr (read_job jt ja k None))) (job_paths ja team) =
      filter (takes_slot jt e [team] ja) (job_paths ja team)"
    by (rule filter_cong) (auto simp: takes_slot_def job_paths_of isOk_def split: sum.splits)
  then have "length (filter (\<lambda>(k, r). occupies_slot e r) rs) = length (filter (takes_slot jt e [team] ja) (job_paths ja team))"
    unfolding read_records_map [OF rs] by (simp add: filter_map o_def conj_commute)
  also have "\<dots> = card (set (filter (takes_slot jt e [team] ja) (job_paths ja team)))"
    by (rule distinct_card [symmetric]) (simp add: job_paths_def assms(1))
  also have "set (filter (takes_slot jt e [team] ja) (job_paths ja team)) = ?T [team]"
    by (auto simp: takes_slot_def job_paths_def)
  finally have "card (?T [team]) = length (filter (\<lambda>(k, r). occupies_slot e r) rs)" by simp
  moreover have "?T (team # teams) = ?T [team] \<union> ?T teams" "?T [team] \<inter> ?T teams = {}"
    using Cons.prems(1) by (auto simp: takes_slot_def)
  ultimately show ?case
    using Cons.IH [of es'] Cons.prems es es'
    by (simp add: slots_def card_Un_disjoint filter_map o_def case_prod_unfold)
qed

lemma snapshot_slots:
  assumes "wf_dict (ja_files ja)" "distinct teams" "queue_snapshot jt e teams pool ja = Inr v"
  shows "qv_running v = slots jt e teams ja" "qv_pool v = pool"
proof -
  from assms(3) obtain es where "team_entries jt ja (sort teams) = Inr es"
    and v: "qv_running v = length (filter (\<lambda>x. occupies_slot e (qe_record x)) es)" "qv_pool v = pool"
    by (auto simp: queue_snapshot_def job_entries_def bindE_eq_Inr)
  with team_entries_slots [OF assms(1), of "sort teams"] assms(2)
  show "qv_running v = slots jt e teams ja" by (simp add: slots_def takes_slot_def)
  from v show "qv_pool v = pool" by simp
qed

lemma team_entries_named: "team_entries jt ja teams = Inr es \<Longrightarrow> x \<in> set es \<Longrightarrow>
    entry_named x \<and> qe_path x \<in> set (keys (ja_files ja)) \<and> read_job jt ja (qe_path x) None = Inr (qe_record x)"
proof (induction teams arbitrary: es)
  case (Cons team teams)
  then obtain rs es' where rs: "read_records jt ja (job_paths ja team) = Inr rs"
    and es': "team_entries jt ja teams = Inr es'"
    and es: "es = map (\<lambda>(k, r). \<lparr>qe_team_id = team, qe_record = r, qe_path = k\<rparr>) rs @ es'"
    by (auto simp: bindE_eq_Inr)
  show ?case
  proof (cases "x \<in> set es'")
    case False
    with Cons.prems(2) es obtain k r where kr: "(k, r) \<in> set rs" "x = \<lparr>qe_team_id = team, qe_record = r, qe_path = k\<rparr>"
      by auto
    then have "k \<in> set (job_paths ja team)" "r = projr (read_job jt ja k None)" "isOk (read_job jt ja k None)"
      using read_records_map [OF rs] by auto
    with kr(2) show ?thesis by (auto simp: entry_named_def job_paths_of isOk_iff)
  qed (use Cons.IH [OF es'] in blast)
qed simp

lemma snapshot_waiting:
  assumes "queue_snapshot jt e teams pool ja = Inr v" "x \<in> set (qv_waiting v)"
  shows "entry_named x" "read_job jt ja (qe_path x) None = Inr (qe_record x)" "is_launchable e (qe_record x)"
  using assms team_entries_named by (auto simp: queue_snapshot_def job_entries_def bindE_eq_Inr)

text \<open>C24: A drain never overfills the pool. Whatever the launched workers do to their records meanwhile,
  and also when it ends in an exception, afterwards at most as many slots are taken as the pool has,
  or as were taken before; and it reports at most as many starts as the pool has slots. Without the
  queue lock it does nothing.\<close>

theorem drain_within_pool:
  assumes "faithful_files jt" "proper_launcher la" "well_named jt s" "distinct teams"
    and "drain jt lock_free sw full_reconcile e la teams pool s = (t, out)"
  shows "int (slots jt e teams t) \<le> max pool (int (slots jt e teams s)) \<and>
    (\<forall>n. out = Inr n \<longrightarrow> int n \<le> max 0 pool) \<and> (\<not> lock_free \<longrightarrow> t = s) \<and> well_named jt t"
proof -
  let ?statuses = "if full_reconcile then None else Some SLOT_STATUSES"
  obtain u res where u: "reconcile_jobs jt sw ?statuses teams s = (u, res)" by fastforce
  then have area: "swept_area jt sw ?statuses s u" using reconcile_jobs_swept [OF assms(1,3)] by blast
  note fewer = swept_area_slots [OF area, of e teams] and named = swept_area_named [OF area assms(3)]
  show ?thesis
  proof (cases "lock_free \<and> isOk res \<and> isOk (queue_snapshot jt e teams pool u)")
    case False
    then have "t = s \<and> out = Inr 0 \<or> lock_free \<and> t = u \<and> \<not> isOk out"
      using assms(5) u by (auto simp: drain_def bindS_def isOk_def split: sum.splits if_splits)
    with fewer named assms(3) show ?thesis by auto
  next
    case True
    then obtain v where v: "queue_snapshot jt e teams pool u = Inr v" by (auto simp: isOk_iff)
    note count = snapshot_slots [OF _ assms(4) v]
    from named have wf: "wf_dict (ja_files u)" by (simp add: well_named_def)
    have run: "drain_loop (start_job jt la) (pool - int (slots jt e teams u)) (qv_waiting v) u = (t, out)"
      using True assms(5) u v count [OF wf] by (auto simp: drain_def bindS_def isOk_iff)
    have "trusted jt la u" using assms(1,2) named by (simp add: trusted_def)
    from jobs.drain_loop_bound [OF run this, of e teams] snapshot_waiting(1) [OF v]
    have "trusted jt la t" "slots jt e teams t \<le> slots jt e teams u + nat (pool - int (slots jt e teams u))"
      "\<forall>n. out = Inr n \<longrightarrow> n \<le> nat (pool - int (slots jt e teams u))" by auto
    with fewer True show ?thesis by (fastforce simp: trusted_def)
  qed
qed

text \<open>A drain keeps what can be read readable, with its specification.\<close>

definition all_kept :: "job_tools \<Rightarrow> job_area \<Rightarrow> job_area \<Rightarrow> bool" where
  "all_kept jt s t \<longleftrightarrow> (\<forall>k r. read_job jt s k None = Inr r \<longrightarrow> (\<exists>r'. read_job jt t k None = Inr r' \<and> kept r r'))"

lemma all_kept_refl: "all_kept jt s s"
  by (simp add: all_kept_def)

lemma all_kept_trans: "all_kept jt s t \<Longrightarrow> all_kept jt t u \<Longrightarrow> all_kept jt s u"
  unfolding all_kept_def by (meson kept_trans)

lemma touches_all_kept: "touches jt kept k s t \<Longrightarrow> all_kept jt s t"
  unfolding all_kept_def using touches_forward by (fastforce split: if_splits)

lemma swept_all_kept:
  assumes "faithful_files jt" "swept_area jt sw statuses s t"
  shows "all_kept jt s t"
proof -
  have "\<exists>r'. read_job jt t k None = Inr r' \<and> kept r r'" if r: "read_job jt s k None = Inr r" for k r
  proof -
    from assms(2) r obtain r' where r': "read_job jt t k None = Inr r'" "swept sw statuses r r'"
      unfolding swept_area_def by blast
    from read_job_sound [OF assms(1) r] read_job_sound [OF assms(1) r'(1)] r'(2)
    have "jr_spec r' = jr_spec r" "jr_authority_digest r' = jr_authority_digest r"
      by (auto simp: sound_record_def swept_def)
    moreover have "allowed\<^sup>*\<^sup>* (jr_status r) (jr_status r')"
      using r'(2) by (auto simp: swept_def worker_gone_def allowed_def)
    ultimately show ?thesis using r'(1) by (auto simp: kept_def)
  qed
  then show ?thesis by (simp add: all_kept_def)
qed

lemma drain_loop_kept:
  "trusted jt la s \<Longrightarrow> \<forall>x\<in>set xs. entry_named x \<Longrightarrow> drain_loop (start_job jt la) c xs s = (t, out) \<Longrightarrow> all_kept jt s t"
proof (induction xs arbitrary: c s out)
  case Nil
  then show ?case by (simp add: all_kept_refl)
next
  case (Cons x xs)
  obtain u res where u: "start_job jt la x s = (u, res)" by fastforce
  have "faithful_files jt" "proper_launcher la" "well_named jt s" using Cons.prems(1) by (simp_all add: trusted_def)
  from start_job_touches [OF this _ u] Cons.prems(2) have "all_kept jt s u" by (simp add: touches_all_kept)
  moreover have "trusted jt la u" using jobs.keeps [OF Cons.prems(1), of x] Cons.prems(2) u by simp
  ultimately show ?case
    using Cons.IH [of u] Cons.prems(2,3) u
    by (auto simp: bindS_def all_kept_refl intro: all_kept_trans split: if_splits sum.splits prod.splits)
qed

lemma drain_kept:
  assumes "faithful_files jt" "proper_launcher la" "well_named jt s"
    and "drain jt lock_free sw full_reconcile e la teams pool s = (t, out)"
  shows "all_kept jt s t"
proof -
  let ?statuses = "if full_reconcile then None else Some SLOT_STATUSES"
  obtain u res where u: "reconcile_jobs jt sw ?statuses teams s = (u, res)" by fastforce
  then have area: "swept_area jt sw ?statuses s u" using reconcile_jobs_swept [OF assms(1,3)] by blast
  from swept_area_named [OF area assms(3)] have "trusted jt la u" using assms(1,2) by (simp add: trusted_def)
  note loop = drain_loop_kept [OF this] and sweep = swept_all_kept [OF assms(1) area]
  show ?thesis
  proof (cases "lock_free \<and> isOk res \<and> isOk (queue_snapshot jt e teams pool u)")
    case False
    then have "t = s \<or> t = u"
      using assms(4) u by (auto simp: drain_def bindS_def isOk_def split: sum.splits if_splits)
    with sweep all_kept_refl show ?thesis by auto
  next
    case True
    then obtain v where v: "queue_snapshot jt e teams pool u = Inr v" by (auto simp: isOk_iff)
    then have "drain_loop (start_job jt la) (qv_pool v - int (qv_running v)) (qv_waiting v) u = (t, out)"
      using True assms(4) u by (auto simp: drain_def bindS_def isOk_iff)
    from loop [OF _ this] snapshot_waiting(1) [OF v] show ?thesis using sweep all_kept_trans by blast
  qed
qed

section \<open>A drain makes progress\<close>

text \<open>An entry that can be started: its record is launchable, its path resolves, its launch succeeds and its
  file can be written. Afterwards it is claimed, or its worker has taken it out of the queue.\<close>

definition startable :: "job_tools \<Rightarrow> launch_env \<Rightarrow> job_area \<Rightarrow> queue_entry \<Rightarrow> bool" where
  "startable jt la s x \<longleftrightarrow> (case read_job jt s (qe_path x) None of Inl _ \<Rightarrow> False
     | Inr r \<Rightarrow> is_launchable (la_hosts la (qe_path x)) r \<and> qe_path x \<notin> set (ja_readonly s) \<and>
         (case reference (la_root la) s (qe_team_id x) (sp_job_id (jr_spec r)) (jr_authority_digest r) of
            Inl _ \<Rightarrow> False
          | Inr a \<Rightarrow> (case la_launch la a of LaunchError _ \<Rightarrow> False | Launched _ _ \<Rightarrow> True)))"

definition taken :: "job_record \<Rightarrow> bool" where
  "taken r \<longleftrightarrow> jr_status r \<noteq> Queued \<or> jr_launched_at r \<noteq> None"

lemma startable_elsewhere:
  assumes "touches jt R k s t" "startable jt la s x" "qe_path x \<noteq> k"
  shows "startable jt la t x"
proof -
  have "ja_escapes t = ja_escapes s" "ja_readonly t = ja_readonly s" using assms(1) by (simp_all add: touches_def)
  then show ?thesis
    using assms(2) touches_other [OF assms(1,3)]
    by (simp add: startable_def reference_def job_path_def cong: sum.case_cong)
qed

lemma claim_takes:
  assumes "faithful_files jt" "read_job jt w k None = Inr r" "k \<notin> set (ja_readonly w)"
  shows "\<exists>t r'. unless_moved (claim_job jt k pid now) True (\<lambda>_. True) w = (t, Inr True) \<and>
    read_job jt t k None = Inr r' \<and> taken r'"
proof (cases "jr_status r = Queued")
  case True
  let ?r = "r\<lparr>jr_worker_pid := pid, jr_launched_at := Some now\<rparr>"
  have sound: "sound_record jt ?r" using read_job_sound [OF assms(1,2)] by (simp add: sound_record_def)
  then have "write_job jt k ?r w = (stored jt k ?r w, Inr ())"
    using assms(3) by (simp add: write_job_Inr sound_record_def)
  with assms(2) True have "claim_job jt k pid now w = (stored jt k ?r w, Inr ?r)"
    by (simp add: claim_job_def update_job_def bindS_def)
  then show ?thesis
    using read_stored [OF assms(1) sound, of k w k] by (simp add: unless_moved_def taken_def)
next
  case False
  with assms(2) have "claim_job jt k pid now w = (w, Inl invalidTransition)"
    by (simp add: claim_job_def update_job_def)
  with assms(2) False show ?thesis by (simp add: unless_moved_def taken_def)
qed

lemma start_job_starts:
  assumes "trusted jt la s" "entry_named x" "startable jt la s x"
  obtains t r' where "start_job jt la x s = (t, Inr True)" "read_job jt t (qe_path x) None = Inr r'" "taken r'"
proof -
  let ?k = "qe_path x"
  from assms(3) obtain r a pid moves where r: "read_job jt s ?k None = Inr r" "is_launchable (la_hosts la ?k) r"
      "?k \<notin> set (ja_readonly s)"
    and a: "reference (la_root la) s (qe_team_id x) (sp_job_id (jr_spec r)) (jr_authority_digest r) = Inr a"
      "la_launch la a = Launched pid moves"
    by (auto simp: startable_def split: sum.splits launch_outcome.splits)
  from assms(1) have ok: "faithful_files jt" "proper_launcher la" "well_named jt s" by (simp_all add: trusted_def)
  from well_namedD [OF ok(3) r(1)] reference_names [OF a(1)] assms(2)
  have k: "(au_team_id a, au_job_id a) = ?k" by (cases ?k) (simp add: entry_named_def)
  from ok(2) a(2) have "\<forall>m\<in>set moves. run_fields (snd (snd m))"
    by (force simp: proper_launcher_def split: launch_outcome.splits)
  from worker_moves_touches [OF ok(1) this] have w: "touches jt kept ?k s (worker_moves jt ?k moves s)" .
  from touches_forward [OF w r(1)] obtain r1 where "read_job jt (worker_moves jt ?k moves s) ?k None = Inr r1" by auto
  moreover have "?k \<notin> set (ja_readonly (worker_moves jt ?k moves s))" using w r(3) by (simp add: touches_def)
  ultimately obtain t r' where
    "unless_moved (claim_job jt ?k pid (la_stamp la)) True (\<lambda>_. True) (worker_moves jt ?k moves s) = (t, Inr True)"
    "read_job jt t ?k None = Inr r'" "taken r'"
    using claim_takes [OF ok(1)] by blast
  with r a k that show thesis by (simp add: start_job_def)
qed

lemma drain_loop_starts:
  "trusted jt la s \<Longrightarrow> distinct (map qe_path xs) \<Longrightarrow> \<forall>x\<in>set xs. entry_named x \<Longrightarrow>
   \<forall>x\<in>set (take (nat c) xs). startable jt la s x \<Longrightarrow>
   \<exists>t. drain_loop (start_job jt la) c xs s = (t, Inr (min (nat c) (length xs))) \<and>
     (\<forall>x\<in>set (take (nat c) xs). \<exists>r'. read_job jt t (qe_path x) None = Inr r' \<and> taken r') \<and>
     (\<forall>k. k \<notin> qe_path ` set (take (nat c) xs) \<longrightarrow> read_job jt t k None = read_job jt s k None)"
proof (induction xs arbitrary: c s)
  case Nil
  then show ?case by simp
next
  case (Cons x xs)
  show ?case
  proof (cases "c \<le> 0")
    case True
    then show ?thesis by simp
  next
    case False
    define n where "n = nat (c - 1)"
    have c: "nat c = Suc n" "nat (c - 1) = n" using False by (simp_all add: n_def)
    obtain u r' where u: "start_job jt la x s = (u, Inr True)"
      and x: "read_job jt u (qe_path x) None = Inr r'" "taken r'"
      using start_job_starts [OF Cons.prems(1), of x] Cons.prems(3,4) c by auto
    have "faithful_files jt" "proper_launcher la" "well_named jt s" using Cons.prems(1) by (simp_all add: trusted_def)
    note touch = start_job_touches [OF this _ u]
    have "trusted jt la u" using jobs.keeps [OF Cons.prems(1), of x] Cons.prems(3) u by simp
    moreover have "startable jt la u y" if "y \<in> set (take n xs)" for y
    proof -
      have "y \<in> set xs" using that by (rule in_set_takeD)
      then have "qe_path y \<in> set (map qe_path xs)" by simp
      with Cons.prems(2) have "qe_path y \<noteq> qe_path x" by (auto simp del: set_map)
      with touch startable_elsewhere Cons.prems(3,4) that c show ?thesis by simp
    qed
    ultimately obtain t where t: "drain_loop (start_job jt la) (c - 1) xs u = (t, Inr (min n (length xs)))"
      "\<forall>x\<in>set (take n xs). \<exists>r'. read_job jt t (qe_path x) None = Inr r' \<and> taken r'"
      "\<forall>k. k \<notin> qe_path ` set (take n xs) \<longrightarrow> read_job jt t k None = read_job jt u k None"
      using Cons.IH [of u "c - 1"] Cons.prems(2,3) c by auto
    have "drain_loop (start_job jt la) c (x # xs) s = (t, Inr (min (nat c) (length (x # xs))))"
      using t(1) u False c by (simp add: bindS_def)
    moreover have "qe_path x \<notin> qe_path ` set (take n xs)"
      using Cons.prems(2) set_take_subset [of n xs] by (auto simp: subset_iff image_iff)
    ultimately show ?thesis
      using t(2,3) x touches_other [OF touch] Cons.prems(3) c by auto
  qed
qed

lemma team_entries_paths:
  assumes "wf_dict (ja_files ja)"
  shows "team_entries jt ja teams = Inr es \<Longrightarrow> distinct teams \<Longrightarrow>
    distinct (map qe_path es) \<and> (\<forall>k\<in>set (map qe_path es). fst k \<in> set teams)"
proof (induction teams arbitrary: es)
  case (Cons team teams)
  then obtain rs es' where rs: "read_records jt ja (job_paths ja team) = Inr rs"
    and es': "team_entries jt ja teams = Inr es'"
    and es: "es = map (\<lambda>(k, r). \<lparr>qe_team_id = team, qe_record = r, qe_path = k\<rparr>) rs @ es'"
    by (auto simp: bindE_eq_Inr)
  have "map qe_path es = map fst rs @ map qe_path es'" by (simp add: es case_prod_unfold o_def)
  moreover have "distinct (map fst rs)" "\<forall>k\<in>set (map fst rs). fst k = team"
    unfolding read_records_keys [OF rs] by (simp_all add: job_paths_def assms)
  ultimately show ?case
    using Cons.IH [OF es'] Cons.prems(2) by (auto simp del: set_map)
qed simp

lemma distinct_snapshot:
  assumes "wf_dict (ja_files ja)" "distinct teams" "queue_snapshot jt e teams pool ja = Inr v"
  shows "distinct (map qe_path (qv_waiting v))"
proof -
  from assms(3) obtain es where es: "team_entries jt ja (sort teams) = Inr es"
    and v: "qv_waiting v = sort_key order_key (filter (\<lambda>x. is_launchable e (qe_record x)) es)"
    by (auto simp: queue_snapshot_def job_entries_def bindE_eq_Inr)
  from team_entries_paths [OF assms(1) es] assms(2) show ?thesis
    by (simp add: v distinct_map inj_on_def)
qed

text \<open>C26: When nothing stands in the way, a drain fills the pool: it starts as many waiting jobs as there are
  free slots, or all of them, oldest due first, and leaves every other record as the sweep left it.\<close>

theorem drain_starts_oldest:
  assumes "faithful_files jt" "proper_launcher la" "well_named jt s" "distinct teams"
    and "reconcile_jobs jt sw (if full_reconcile then None else Some SLOT_STATUSES) teams s = (u, Inr swept_counts)"
    and "queue_snapshot jt e teams pool u = Inr v"
    and "\<forall>x\<in>set (take (nat (pool - int (slots jt e teams u))) (qv_waiting v)). startable jt la u x"
  shows "\<exists>t. drain jt True sw full_reconcile e la teams pool s =
       (t, Inr (min (nat (pool - int (slots jt e teams u))) (length (qv_waiting v)))) \<and>
     (\<forall>x\<in>set (take (nat (pool - int (slots jt e teams u))) (qv_waiting v)).
        (\<exists>r'. read_job jt t (qe_path x) None = Inr r' \<and> taken r') \<and>
        (\<forall>y\<in>set (drop (nat (pool - int (slots jt e teams u))) (qv_waiting v)). order_key x \<le> order_key y)) \<and>
     (\<forall>k. k \<notin> qe_path ` set (take (nat (pool - int (slots jt e teams u))) (qv_waiting v)) \<longrightarrow>
        read_job jt t k None = read_job jt u k None)"
proof -
  let ?c = "pool - int (slots jt e teams u)"
  from reconcile_jobs_swept [OF assms(1,3,5)] have area:
    "swept_area jt sw (if full_reconcile then None else Some SLOT_STATUSES) s u" by blast
  from swept_area_named [OF area assms(3)] have ok: "trusted jt la u" "wf_dict (ja_files u)"
    using assms(1,2) by (simp_all add: trusted_def well_named_def)
  note count = snapshot_slots [OF ok(2) assms(4,6)]
  from drain_loop_starts [OF ok(1) distinct_snapshot [OF ok(2) assms(4,6)] _ assms(7)] snapshot_waiting(1) [OF assms(6)]
  obtain t where t: "drain_loop (start_job jt la) ?c (qv_waiting v) u = (t, Inr (min (nat ?c) (length (qv_waiting v))))"
    "\<forall>x\<in>set (take (nat ?c) (qv_waiting v)). \<exists>r'. read_job jt t (qe_path x) None = Inr r' \<and> taken r'"
    "\<forall>k. k \<notin> qe_path ` set (take (nat ?c) (qv_waiting v)) \<longrightarrow> read_job jt t k None = read_job jt u k None" by blast
  moreover have "drain jt True sw full_reconcile e la teams pool s = drain_loop (start_job jt la) ?c (qv_waiting v) u"
    using assms(5,6) count by (simp add: drain_def bindS_def)
  moreover have "sorted (map order_key (qv_waiting v))"
    using assms(6) by (auto simp: queue_snapshot_def bindE_eq_Inr)
  then have "sorted (map order_key (take (nat ?c) (qv_waiting v) @ drop (nat ?c) (qv_waiting v)))" by simp
  then have "\<forall>x\<in>set (take (nat ?c) (qv_waiting v)). \<forall>y\<in>set (drop (nat ?c) (qv_waiting v)). order_key x \<le> order_key y"
    unfolding map_append sorted_append by auto
  ultimately show ?thesis by auto
qed

end
