(* ===== verification/Submission.thy ===== *)
theory Submission
  imports JobQueue
begin

text \<open>
  Submission, \<^verbatim>\<open>flowgency/jobs/submission.py\<close>: a request is resolved to a specification under the locks of
  its team, the job is created, the queue is drained, and the caller hears what became of the job.
  Resolving reads the configuration, the libraries and the caches; here its outcome on each attempt is
  an argument, as are the pins of the compilation cache.
\<close>

record job_handle =
  jh_job_id :: string
  jh_status :: job_status
  jh_path :: job_key
  jh_worker_pid :: "int option"

definition submissionError :: ticket_error where "submissionError = PyError ''JobSubmissionError''"

text \<open>\<open>pin\<close> is what \<open>to_artifact\<close> and \<open>pin_artifact\<close> raise, if anything.\<close>

definition submit_resolved ::
  "job_tools \<Rightarrow> string \<Rightarrow> (job_spec \<Rightarrow> ticket_error + unit) \<Rightarrow> job_spec \<Rightarrow> string option \<Rightarrow>
   (job_area, ticket_error, job_handle) op" where
  "submit_resolved jt root_path pin s due_at =
     bindS (liftS (validate_spec s)) (\<lambda>_.
     bindS (liftS (new_record jt s due_at)) (\<lambda>r.
     bindS (liftS (pin s)) (\<lambda>_.
     bindS (readS (\<lambda>ja. reference root_path ja (sp_team_key s) (sp_job_id s) (jr_authority_digest r))) (\<lambda>a ja.
     case create_job jt root_path r ja of
       (t, Inl e) \<Rightarrow> (t, Inl submissionError)
     | (t, Inr a') \<Rightarrow> (t, Inr \<lparr>jh_job_id = sp_job_id s, jh_status = Queued,
         jh_path = (au_team_id a', au_job_id a'), jh_worker_pid = None\<rparr>)))))"

definition settle :: "job_tools \<Rightarrow> job_handle \<Rightarrow> (job_area, ticket_error, job_handle) op" where
  "settle jt h = readS (\<lambda>ja. case read_job jt ja (jh_path h) None of
      Inl e \<Rightarrow> if malformed e then Inr h else Inl e
    | Inr r \<Rightarrow>
        if jr_status r = Failed \<and> jr_launched_at r = None then Inl submissionError
        else Inr \<lparr>jh_job_id = jh_job_id h, jh_status = jr_status r, jh_path = jh_path h,
          jh_worker_pid = jr_worker_pid r\<rparr>)"

text \<open>What one attempt meets: the outcome of locking and resolving, the pins, and what the drain that follows
  sees and launches.\<close>

record attempt =
  at_resolved :: "ticket_error + job_spec"
  at_pin :: "job_spec \<Rightarrow> ticket_error + unit"
  at_lock_free :: bool
  at_sweep :: sweep
  at_host :: pool_env
  at_launch :: launch_env
  at_teams :: "string list"
  at_pool :: int

definition attempt_drain :: "job_tools \<Rightarrow> attempt \<Rightarrow> (job_area, ticket_error, nat) op" where
  "attempt_drain jt a = drain jt (at_lock_free a) (at_sweep a) False (at_host a) (at_launch a) (at_teams a) (at_pool a)"

text \<open>A conflict of configuration revisions is tried again; any other exception is the caller's.\<close>

fun submit_attempts ::
  "job_tools \<Rightarrow> string \<Rightarrow> string option \<Rightarrow> attempt list \<Rightarrow> (job_area, ticket_error, job_handle) op" where
  "submit_attempts jt root_path due_at [] = raiseS ConfigConflict"
| "submit_attempts jt root_path due_at (a # rest) =
     (case at_resolved a of
        Inl e \<Rightarrow> if e = ConfigConflict then submit_attempts jt root_path due_at rest else raiseS e
      | Inr s \<Rightarrow>
          bindS (submit_resolved jt root_path (at_pin a) s due_at) (\<lambda>h.
          bindS (tryS (attempt_drain jt a)) (\<lambda>_. settle jt h)))"

definition submit_job_request ::
  "job_tools \<Rightarrow> string \<Rightarrow> string option \<Rightarrow> (nat \<Rightarrow> attempt) \<Rightarrow> (job_area, ticket_error, job_handle) op" where
  "submit_job_request jt root_path due_at attempts = submit_attempts jt root_path due_at (map attempts [0..<3])"

section \<open>What the caller hears\<close>

lemma submit_resolved_Inr:
  assumes "faithful_files jt" "submit_resolved jt root_path pin s due_at ja = (t, Inr h)"
    and "\<forall>x. sp_ticket_target s = Some x \<longrightarrow> canonical_target (jt_ids jt) x \<and> validate_target x = Inr ()"
  obtains r where "new_record jt s due_at = Inr r" "jh_path h = (sp_team_key s, sp_job_id s)" "jh_job_id h = sp_job_id s"
    "job_file_at ja (jh_path h) = None" "t = stored jt (jh_path h) r ja" "read_job jt t (jh_path h) None = Inr r"
    "sound_record jt r"
proof -
  from assms(2) obtain r a' where v: "validate_spec s = Inr ()" and r: "new_record jt s due_at = Inr r"
    and c: "create_job jt root_path r ja = (t, Inr a')"
    and h: "h = \<lparr>jh_job_id = sp_job_id s, jh_status = Queued, jh_path = (au_team_id a', au_job_id a'), jh_worker_pid = None\<rparr>"
    unfolding submit_resolved_def by (auto split: sum.splits prod.splits)
  from v r have spec: "jr_spec r = s" "jr_authority_digest r = immutable_digest jt s"
    by (auto simp: new_record_def)
  let ?k = "(sp_team_key s, sp_job_id s)"
  from c spec obtain a u where "reference root_path ja (sp_team_key s) (sp_job_id s) (jr_authority_digest r) = Inr a"
    and free: "job_file_at ja ?k = None" and w: "write_job jt ?k r ja = (t, Inr u)" and a': "a' = a"
    by (auto simp: create_job_def Let_def bindS_def ensure_def split: sum.splits prod.splits if_splits)
  then have path: "jh_path h = ?k" using reference_names h by auto
  have t: "t = stored jt ?k r ja" using w by (simp add: write_job_Inr)
  have sound: "sound_record jt r" using v assms(3) spec by (simp add: sound_record_def sound_spec_def)
  show thesis
    by (rule that [OF r path _ _ _ _ sound]) (use h path free t read_stored [OF assms(1) sound] in simp_all)
qed

text \<open>A job that was created for \<open>s\<close> and is as the handle says.\<close>

definition settled :: "job_tools \<Rightarrow> job_area \<Rightarrow> job_area \<Rightarrow> job_handle \<Rightarrow> job_spec \<Rightarrow> bool" where
  "settled jt ja t h s \<longleftrightarrow> validate_spec s = Inr () \<and> jh_path h = (sp_team_key s, sp_job_id s) \<and>
     job_file_at ja (jh_path h) = None \<and>
     (\<exists>r. read_job jt t (jh_path h) None = Inr r \<and> jr_spec r = s \<and> jh_status h = jr_status r \<and>
        jh_worker_pid h = jr_worker_pid r \<and> \<not> (jr_status r = Failed \<and> jr_launched_at r = None))"

definition proper_attempt :: "job_tools \<Rightarrow> attempt \<Rightarrow> bool" where
  "proper_attempt jt a \<longleftrightarrow> proper_launcher (at_launch a) \<and> (\<forall>s x. at_resolved a = Inr s \<longrightarrow> sp_ticket_target s = Some x \<longrightarrow>
     canonical_target (jt_ids jt) x \<and> validate_target x = Inr ())"

lemma created_named:
  assumes "faithful_files jt" "well_named jt s" "sound_record jt r" "k = (sp_team_key (jr_spec r), sp_job_id (jr_spec r))"
  shows "well_named jt (stored jt k r s)"
proof -
  have "k' = (sp_team_key (jr_spec x), sp_job_id (jr_spec x))" if x: "read_job jt (stored jt k r s) k' None = Inr x" for k' x
  proof (cases "k' = k")
    case True
    with x assms(4) show ?thesis by (simp add: read_stored [OF assms(1,3)])
  next
    case False
    with x well_namedD [OF assms(2), of k' x] show ?thesis by (simp add: read_stored [OF assms(1,3)])
  qed
  moreover have "wf_dict (ja_files (stored jt k r s))"
    using assms(2) by (simp add: stored_def well_named_def distinct_update)
  ultimately show ?thesis by (auto simp: well_named_def split: sum.split)
qed

lemma attempt_settled:
  assumes "faithful_files jt" "well_named jt ja" "proper_attempt jt a" "at_resolved a = Inr s"
    and "bindS (submit_resolved jt root_path (at_pin a) s due_at)
      (\<lambda>h. bindS (tryS (attempt_drain jt a)) (\<lambda>_. settle jt h)) ja = (t, Inr h)"
  shows "settled jt ja t h s"
proof -
  from assms(5) obtain u h0 where sub: "submit_resolved jt root_path (at_pin a) s due_at ja = (u, Inr h0)"
    and t: "t = fst (attempt_drain jt a u)" and fin: "settle jt h0 t = (t, Inr h)"
    by (auto simp: bindS_Inr tryS_def settle_def)
  have "\<forall>x. sp_ticket_target s = Some x \<longrightarrow> canonical_target (jt_ids jt) x \<and> validate_target x = Inr ()"
    using assms(3,4) by (simp add: proper_attempt_def)
  from submit_resolved_Inr [OF assms(1) sub this] obtain r where r: "new_record jt s due_at = Inr r"
    "jh_path h0 = (sp_team_key s, sp_job_id s)" "job_file_at ja (jh_path h0) = None" "u = stored jt (jh_path h0) r ja"
    "read_job jt u (jh_path h0) None = Inr r" "sound_record jt r" by metis
  from r(1) have spec: "jr_spec r = s" "validate_spec s = Inr ()" by (auto simp: new_record_def bindE_eq_Inr)
  have "well_named jt u" unfolding r(4) by (rule created_named [OF assms(1,2) r(6)]) (simp add: r(2) spec)
  moreover obtain out where "attempt_drain jt a u = (t, out)" using t by (metis prod.collapse)
  moreover have "proper_launcher (at_launch a)" using assms(3) by (simp add: proper_attempt_def)
  ultimately have "all_kept jt u t"
    using drain_kept [OF assms(1)] unfolding attempt_drain_def by blast
  with r(5) obtain r' where "read_job jt t (jh_path h0) None = Inr r'" "kept r r'" unfolding all_kept_def by blast
  with fin spec r show ?thesis by (auto simp: settled_def settle_def kept_def split: if_splits)
qed

lemma submit_attempts_settled:
  "faithful_files jt \<Longrightarrow> well_named jt ja \<Longrightarrow> \<forall>a\<in>set as. proper_attempt jt a \<Longrightarrow>
   submit_attempts jt root_path due_at as ja = (t, Inr h) \<Longrightarrow>
   \<exists>i<length as. \<exists>s. at_resolved (as ! i) = Inr s \<and> (\<forall>j<i. at_resolved (as ! j) = Inl ConfigConflict) \<and>
     settled jt ja t h s"
proof (induction as)
  case Nil
  then show ?case by simp
next
  case (Cons a as)
  show ?case
  proof (cases "at_resolved a")
    case (Inl e)
    with Cons.prems(4) have "e = ConfigConflict" "submit_attempts jt root_path due_at as ja = (t, Inr h)"
      by (auto split: if_splits)
    with Cons Inl obtain i s where "i < length as" "at_resolved (as ! i) = Inr s"
      "\<forall>j<i. at_resolved (as ! j) = Inl ConfigConflict" "settled jt ja t h s" by auto
    with Inl \<open>e = ConfigConflict\<close> show ?thesis
      by (intro exI [of _ "Suc i"]) (auto simp: less_Suc_eq_0_disj)
  next
    case (Inr s)
    with Cons.prems have "settled jt ja t h s" by (intro attempt_settled [of jt ja a s]) simp_all
    with Inr show ?thesis by (intro exI [of _ 0]) simp
  qed
qed

text \<open>C31: When a submission returns, the job it names was created by it, is in the store with the specification
  that was resolved, and did reach a worker or still waits; its handle tells the status it has. A job
  that fails without being launched is an exception to the caller, and only conflicts of the
  configuration are tried again.\<close>

theorem submission_settled:
  assumes "faithful_files jt" "well_named jt ja" "\<forall>i<3. proper_attempt jt (attempts i)"
    and "submit_job_request jt root_path due_at attempts ja = (t, Inr h)"
  shows "\<exists>i<3. \<exists>s r. at_resolved (attempts i) = Inr s \<and> (\<forall>j<i. at_resolved (attempts j) = Inl ConfigConflict) \<and>
     validate_spec s = Inr () \<and> jh_path h = (sp_team_key s, sp_job_id s) \<and> job_file_at ja (jh_path h) = None \<and>
     read_job jt t (jh_path h) None = Inr r \<and> jr_spec r = s \<and> jh_status h = jr_status r \<and>
     jh_worker_pid h = jr_worker_pid r \<and> \<not> (jr_status r = Failed \<and> jr_launched_at r = None)"
proof -
  have "\<forall>a\<in>set (map attempts [0..<3]). proper_attempt jt a" using assms(3) by simp
  from submit_attempts_settled [OF assms(1,2) this assms(4)[unfolded submit_job_request_def]]
  obtain i s where i: "i < 3" "at_resolved (attempts i) = Inr s" "settled jt ja t h s"
    "\<forall>j<i. at_resolved (map attempts [0..<3] ! j) = Inl ConfigConflict" by auto
  then have "\<forall>j<i. at_resolved (attempts j) = Inl ConfigConflict" by (auto simp del: upt_Suc)
  with i show ?thesis unfolding settled_def by blast
qed

end
