(* ===== verification/Dispatch.thy ===== *)
theory Dispatch
  imports Schedule Submission
begin

text \<open>
  The dispatch runner, \<^verbatim>\<open>flowgency/dispatch/run.py\<close>. A cycle, run by a timer, drains the queue and then
  submits a job for every routine that owes an occurrence: the marker of the routine tells which
  occurrence was submitted last, the job records tell which submitted occurrences never reached a
  runtime and are owed again.

  The state holds the job files, the markers with their times, and the submissions made so far. The
  program keeps no such log; it is what the properties speak about.
\<close>

section \<open>Configuration and state\<close>

record schedule_rule =
  sr_at :: "string option"
  sr_every :: "string option"
  sr_catch_up :: "string option"

record routine =
  ro_id :: string
  ro_schedule :: schedule_rule
  ro_enabled :: bool
  ro_condition :: bool

record dispatch_team =
  dt_key :: string
  dt_enabled :: bool
  dt_logs :: string
  dt_agents :: "(string \<times> routine list) list"

record job_request =
  rq_team_key :: string
  rq_agent_name :: string
  rq_routine_id :: string
  rq_due_at :: string

record submission =
  su_logs :: string
  su_agent :: string
  su_routine :: routine
  su_occurrence :: time
  su_lost :: "time option"

record dispatch_state =
  ds_jobs :: job_area
  ds_markers :: "(marker, time) dict"
  ds_log :: "submission list"

text \<open>What a cycle sees of the host: the clock when it looks at a routine, what a stamped marker's time reads
  back as, ISO texts of times, files that cannot be written, and what a submission meets.\<close>

record dispatch_env =
  de_now :: "string \<Rightarrow> string \<Rightarrow> string \<Rightarrow> time"
  de_today :: "string \<Rightarrow> time"
  de_stamp :: "time \<Rightarrow> time"
  de_iso :: "time \<Rightarrow> string"
  de_parse :: "string \<Rightarrow> time option"
  de_unwritable :: "marker list"
  de_root :: string
  de_attempts :: "job_request \<Rightarrow> nat \<Rightarrow> attempt"

section \<open>Lost occurrences\<close>

definition OCCURRENCE_SLACK :: int where "OCCURRENCE_SLACK = SECOND"

definition same_occurrence :: "time option \<Rightarrow> time option \<Rightarrow> bool" where
  "same_occurrence l r = (case (l, r) of (Some a, Some b) \<Rightarrow> abs (a - b) \<le> OCCURRENCE_SLACK | _ \<Rightarrow> False)"

definition occurrence_of :: "(string \<Rightarrow> time option) \<Rightarrow> job_record \<Rightarrow> time option" where
  "occurrence_of parse r = (case jr_due_at r of None \<Rightarrow> None | Some s \<Rightarrow> parse s)"

definition is_settled_ticket_cleanup :: "json \<Rightarrow> bool" where
  "is_settled_ticket_cleanup j = (case j of
      JObj c \<Rightarrow>
        if get_or JNull c ''confirmed'' \<noteq> JBool True then False
        else if get_or JNull c ''requires_retry'' \<noteq> JBool False then False
        else if get_or JNull c ''error'' \<noteq> JNull then False
        else (case get_or JNull c ''status'' of
            JStr s \<Rightarrow> s \<in> {''idle'', ''cleared''} \<and>
              (case get_or JNull c ''pending_cleanup'' of JList xs \<Rightarrow> xs = [] | _ \<Rightarrow> False)
          | _ \<Rightarrow> False)
    | _ \<Rightarrow> False)"

definition recoverable_pre_runtime_failure :: "job_record \<Rightarrow> bool" where
  "recoverable_pre_runtime_failure r =
     (if jr_status r \<noteq> Failed then False
      else if \<not> is_launched r then True
      else (case jr_result_metadata r of
          JObj m \<Rightarrow> (case get_or JNull m ''execution_failure'' of
              JObj f \<Rightarrow>
                if get_or JNull f ''phase'' \<noteq> JStr ''before_runtime'' then False
                else if \<not> has_key m ''ticket_cleanup'' then True
                else is_settled_ticket_cleanup (get_or JNull m ''ticket_cleanup'')
            | _ \<Rightarrow> False)
        | _ \<Rightarrow> False))"

type_synonym routine_key = "string \<times> json"

text \<open>One record's entry in the tables of lost and of served occurrences: a scheduled one with a time, under
  a key that can be hashed.\<close>

definition scheduled_occurrence ::
  "(string \<Rightarrow> time option) \<Rightarrow> job_record \<Rightarrow> ticket_error + (routine_key \<times> time) option" where
  "scheduled_occurrence parse r =
     (let s = jr_spec r in
      if sp_trigger s \<noteq> ''scheduled_prompt'' \<or> falsy (sp_routine_id s) then Inr None
      else case occurrence_of parse r of
          None \<Rightarrow> Inr None
        | Some t \<Rightarrow> (case sp_routine_id s of
            JList _ \<Rightarrow> Inl typeError | JObj _ \<Rightarrow> Inl typeError
          | i \<Rightarrow> Inr (Some ((sp_agent_name s, i), t))))"

definition newest_at :: "(routine_key, time) dict \<Rightarrow> routine_key \<Rightarrow> time \<Rightarrow> (routine_key, time) dict" where
  "newest_at d k t = (case map_of d k of
      None \<Rightarrow> AList.update k t d | Some u \<Rightarrow> if u < t then AList.update k t d else d)"

fun collect_occurrences ::
  "(string \<Rightarrow> time option) \<Rightarrow> (routine_key, time) dict \<Rightarrow> (routine_key, time) dict \<Rightarrow> job_record list \<Rightarrow>
   ticket_error + (routine_key, time) dict \<times> (routine_key, time) dict" where
  "collect_occurrences parse lost served [] = Inr (lost, served)"
| "collect_occurrences parse lost served (r # rs) =
     bindE (scheduled_occurrence parse r) (\<lambda>x. case x of
       None \<Rightarrow> collect_occurrences parse lost served rs
     | Some (k, t) \<Rightarrow>
         if recoverable_pre_runtime_failure r then collect_occurrences parse (newest_at lost k t) served rs
         else collect_occurrences parse lost (newest_at served k t) rs)"

definition lost_occurrences ::
  "(string \<Rightarrow> time option) \<Rightarrow> job_record list \<Rightarrow> ticket_error + (routine_key, time) dict" where
  "lost_occurrences parse rs =
     bindE (collect_occurrences parse [] [] rs) (\<lambda>(lost, served).
     Inr (filter (\<lambda>(k, t). case map_of served k of None \<Rightarrow> True | Some u \<Rightarrow> u < t) lost))"

definition team_job_records :: "job_tools \<Rightarrow> job_area \<Rightarrow> string \<Rightarrow> ticket_error + job_record list" where
  "team_job_records jt ja team =
     (if \<not> is_team_id team then Inr []
      else bindE (read_records jt ja (job_paths ja team)) (\<lambda>rs. Inr (map snd rs)))"

section \<open>The due occurrence\<close>

definition due_occurrence ::
  "(marker, time) dict \<Rightarrow> routine \<Rightarrow> string \<Rightarrow> string \<Rightarrow> time \<Rightarrow> time option \<Rightarrow>
   ticket_error + time option \<times> marker option" where
  "due_occurrence markers r logs agent now lost =
     (let s = ro_schedule r in
      if truthy (sr_at s) then
        (case last_at_occurrence (the (sr_at s)) now of
           None \<Rightarrow> Inr (None, None)
         | Some t \<Rightarrow> Inr (Some t, Some (at_marker_path logs agent (ro_id r) (day_text (day_of t)))))
      else if truthy (sr_every s) then
        bindE (parse_every (sr_every s)) (\<lambda>p.
        if (case p of None \<Rightarrow> True | Some period \<Rightarrow> period \<le> 0) then Inr (None, None)
        else let mark = every_marker_path logs agent (ro_id r) in
          case map_of markers mark of
            None \<Rightarrow> Inr (Some now, Some mark)
          | Some anchor \<Rightarrow>
              bindE (last_every_occurrence anchor (the (sr_every s)) now) (\<lambda>t.
              if t = None \<and> same_occurrence lost (Some anchor) then Inr (lost, Some mark)
              else Inr (t, Some mark)))
      else Inr (None, None))"

section \<open>The cycle\<close>

definition on_jobs :: "(job_area, ticket_error, 'a) op \<Rightarrow> (dispatch_state, ticket_error, 'a) op" where
  "on_jobs m s = (let (ja, r) = m (ds_jobs s) in (s\<lparr>ds_jobs := ja\<rparr>, r))"

text \<open>The exceptions a cycle answers with a line in its log; \<open>JobValidationError\<close>, \<open>JobAuthorityError\<close> and
  \<open>ValidationFailed\<close> are value errors.\<close>

definition submission_caught :: "ticket_error \<Rightarrow> bool" where
  "submission_caught e \<longleftrightarrow> e \<in> {typeError, valueError, authorityError, osError, PyError ''FileNotFoundError'',
     PyError ''FileExistsError'', PyError ''JobValidationError'', submissionError}"

definition dispatch_routine ::
  "job_tools \<Rightarrow> dispatch_env \<Rightarrow> int \<Rightarrow> (routine_key, time) dict \<Rightarrow> string \<Rightarrow> string \<Rightarrow> string \<Rightarrow> routine \<Rightarrow>
   (dispatch_state, ticket_error, unit) op" where
  "dispatch_routine jt e interval lost team logs agent r s =
     (if \<not> ro_enabled r \<or> ro_condition r then (s, Inr ())
      else
        let now = de_now e team agent (ro_id r) in
        bindS (liftS (parse_catch_up (sr_catch_up (ro_schedule r)))) (\<lambda>bound s. case bound of
          None \<Rightarrow> (s, Inr ())
        | Some b \<Rightarrow>
            let unrun = map_of lost (agent, JStr (ro_id r)) in
            bindS (readS (\<lambda>s. due_occurrence (ds_markers s) r logs agent now unrun)) (\<lambda>due s. case due of
              (Some t, Some mark) \<Rightarrow>
                if truthy (sr_at (ro_schedule r)) \<and> has_key (ds_markers s) mark \<and>
                   \<not> same_occurrence (Some t) unrun then (s, Inr ())
                else if \<not> catch_up_allows t now b (grace_window interval) then (s, Inr ())
                else
                  let request = \<lparr>rq_team_key = team, rq_agent_name = agent, rq_routine_id = ro_id r,
                        rq_due_at = de_iso e t\<rparr> in
                  (case on_jobs (submit_job_request jt (de_root e) (Some (rq_due_at request))
                      (de_attempts e request)) s of
                     (u, Inl x) \<Rightarrow> if submission_caught x then (u, Inr ()) else (u, Inl x)
                   | (u, Inr _) \<Rightarrow>
                       bindS (putS (\<lambda>s. s\<lparr>ds_log := ds_log s @ [\<lparr>su_logs = logs, su_agent = agent, su_routine = r,
                          su_occurrence = t, su_lost = unrun\<rparr>]\<rparr>)) (\<lambda>_.
                       bindS (liftS (ensure (mark \<notin> set (de_unwritable e)) osError)) (\<lambda>_.
                       putS (\<lambda>s. s\<lparr>ds_markers := AList.update mark (de_stamp e t) (ds_markers s)\<rparr>))) u)
            | _ \<Rightarrow> (s, Inr ())) s) s)"

fun forS :: "('a \<Rightarrow> ('s, 'e, unit) op) \<Rightarrow> 'a list \<Rightarrow> ('s, 'e, unit) op" where
  "forS f [] = returnS ()"
| "forS f (x # xs) = bindS (f x) (\<lambda>_. forS f xs)"

definition dispatch_one_team ::
  "job_tools \<Rightarrow> dispatch_env \<Rightarrow> int \<Rightarrow> dispatch_team \<Rightarrow> (dispatch_state, ticket_error, unit) op" where
  "dispatch_one_team jt e interval dt =
     (if \<not> dt_enabled dt then returnS ()
      else
        bindS (liftS (ensure ((dt_logs dt @ ''/'' @ day_text (day_of (de_today e (dt_key dt))), []) \<notin>
          set (de_unwritable e)) osError)) (\<lambda>_.
        bindS (readS (\<lambda>s. bindE (team_job_records jt (ds_jobs s) (dt_key dt)) (lost_occurrences (de_parse e)))) (\<lambda>lost.
        forS (\<lambda>(agent, routines).
          forS (dispatch_routine jt e interval lost (dt_key dt) (dt_logs dt) agent) routines) (dt_agents dt))))"

definition run_dispatch_cycle ::
  "job_tools \<Rightarrow> dispatch_env \<Rightarrow> attempt \<Rightarrow> int \<Rightarrow> dispatch_team list \<Rightarrow> (dispatch_state, ticket_error, unit) op" where
  "run_dispatch_cycle jt e a interval teams =
     bindS (tryS (on_jobs (drain jt (at_lock_free a) (at_sweep a) True (at_host a) (at_launch a)
       (map dt_key teams) (at_pool a)))) (\<lambda>_.
     forS (dispatch_one_team jt e interval) teams)"

section \<open>Which occurrences are lost\<close>

lemma map_of_newest_at:
  "map_of (newest_at d k t) k' = (if k' = k then Some (case map_of d k of None \<Rightarrow> t | Some u \<Rightarrow> max u t) else map_of d k')"
  by (auto simp: newest_at_def update_conv' split: option.split)

lemma wf_newest_at: "wf_dict d \<Longrightarrow> wf_dict (newest_at d k t)"
  by (simp add: newest_at_def distinct_update split: option.split)

lemma map_of_filter_dict:
  "wf_dict d \<Longrightarrow> map_of (filter (\<lambda>(k, t). P k t) d) k =
     (case map_of d k of None \<Rightarrow> None | Some t \<Rightarrow> if P k t then Some t else None)"
proof (induction d)
  case (Cons x d)
  obtain k' t where x: "x = (k', t)" by (cases x)
  show ?case
  proof (cases "k' = k")
    case True
    with Cons x have "map_of d k = None" by (simp add: map_of_eq_None_iff)
    with Cons x True show ?thesis by simp
  qed (use Cons x in simp)
qed simp

text \<open>The newest of a set of times, if there is any.\<close>

definition newest :: "time option \<Rightarrow> time set \<Rightarrow> bool" where
  "newest x S \<longleftrightarrow> (case x of None \<Rightarrow> S = {} | Some t \<Rightarrow> t \<in> S \<and> (\<forall>u\<in>S. u \<le> t))"

lemma newest_insert: "newest x S \<Longrightarrow> newest (Some (case x of None \<Rightarrow> t | Some u \<Rightarrow> max u t)) (insert t S)"
  by (auto simp: newest_def max_def split: option.splits)

text \<open>The occurrences the records of one kind have for a routine.\<close>

definition occurrences :: "(string \<Rightarrow> time option) \<Rightarrow> bool \<Rightarrow> routine_key \<Rightarrow> job_record list \<Rightarrow> time set" where
  "occurrences parse failed k rs =
     {t. \<exists>r\<in>set rs. recoverable_pre_runtime_failure r = failed \<and> scheduled_occurrence parse r = Inr (Some (k, t))}"

lemma collect_newest:
  "collect_occurrences parse lost served rs = Inr (lost', served') \<Longrightarrow> wf_dict lost \<Longrightarrow>
   newest (map_of lost k) L \<Longrightarrow> newest (map_of served k) S \<Longrightarrow>
   wf_dict lost' \<and> newest (map_of lost' k) (L \<union> occurrences parse True k rs) \<and>
   newest (map_of served' k) (S \<union> occurrences parse False k rs)"
proof (induction rs arbitrary: lost served L S)
  case Nil
  then show ?case by (simp add: occurrences_def)
next
  case (Cons r rs)
  from Cons.prems(1) obtain x where x: "scheduled_occurrence parse r = Inr x" by (auto simp: bindE_eq_Inr)
  let ?b = "recoverable_pre_runtime_failure r"
  have own: "occurrences parse b k (r # rs) =
      (case x of Some (k', t) \<Rightarrow> if k' = k \<and> ?b = b then {t} else {} | None \<Rightarrow> {}) \<union> occurrences parse b k rs" for b
    using x by (auto simp: occurrences_def split: option.splits if_splits)
  show ?case
  proof (cases x)
    case None
    with Cons x show ?thesis by (simp add: own)
  next
    case (Some kt)
    obtain k' t where kt: "kt = (k', t)" by (cases kt)
    let ?L = "if k' = k \<and> ?b then insert t L else L" and ?S = "if k' = k \<and> \<not> ?b then insert t S else S"
    let ?lost = "if ?b then newest_at lost k' t else lost" and ?served = "if ?b then served else newest_at served k' t"
    have "collect_occurrences parse ?lost ?served rs = Inr (lost', served')"
      using Cons.prems(1) x Some kt by (simp split: if_splits)
    moreover have "wf_dict ?lost" using Cons.prems(2) by (simp add: wf_newest_at)
    moreover have "newest (map_of ?lost k) ?L" "newest (map_of ?served k) ?S"
      using Cons.prems(3,4) newest_insert by (auto simp: map_of_newest_at)
    ultimately have "wf_dict lost' \<and> newest (map_of lost' k) (?L \<union> occurrences parse True k rs) \<and>
       newest (map_of served' k) (?S \<union> occurrences parse False k rs)" by (rule Cons.IH)
    moreover have "?L \<union> occurrences parse True k rs = L \<union> occurrences parse True k (r # rs)"
      "?S \<union> occurrences parse False k rs = S \<union> occurrences parse False k (r # rs)"
      using Some kt by (auto simp: own)
    ultimately show ?thesis by simp
  qed
qed

text \<open>C32: An occurrence is owed again exactly when a job submitted for it failed before it reached a runtime,
  and it is newer than every occurrence of the routine whose job got further or is still pending, and
  the newest of those that failed so.\<close>

theorem lost_occurrences_iff:
  assumes "lost_occurrences parse rs = Inr d"
  shows "map_of d k = Some t \<longleftrightarrow>
    (\<exists>r\<in>set rs. recoverable_pre_runtime_failure r \<and> scheduled_occurrence parse r = Inr (Some (k, t))) \<and>
    (\<forall>r\<in>set rs. \<forall>u. scheduled_occurrence parse r = Inr (Some (k, u)) \<longrightarrow>
       (if recoverable_pre_runtime_failure r then u \<le> t else u < t))"
proof -
  from assms obtain lost served where c: "collect_occurrences parse [] [] rs = Inr (lost, served)"
    and d: "d = filter (\<lambda>(k, t). case map_of served k of None \<Rightarrow> True | Some u \<Rightarrow> u < t) lost"
    by (auto simp: lost_occurrences_def bindE_eq_Inr)
  from collect_newest [OF c, of k "{}" "{}"] have n: "wf_dict lost" "newest (map_of lost k) (occurrences parse True k rs)"
    "newest (map_of served k) (occurrences parse False k rs)" by (simp_all add: newest_def)
  have "map_of d k = Some t \<longleftrightarrow> map_of lost k = Some t \<and> (case map_of served k of None \<Rightarrow> True | Some u \<Rightarrow> u < t)"
    unfolding d by (auto simp: map_of_filter_dict [OF n(1)] split: option.splits if_splits)
  also have "\<dots> \<longleftrightarrow> t \<in> occurrences parse True k rs \<and> (\<forall>u\<in>occurrences parse True k rs. u \<le> t) \<and>
      (\<forall>u\<in>occurrences parse False k rs. u < t)"
    using n(2,3) unfolding newest_def by (cases "map_of lost k"; cases "map_of served k") (auto intro: antisym)
  also have "\<dots> \<longleftrightarrow> (\<exists>r\<in>set rs. recoverable_pre_runtime_failure r \<and> scheduled_occurrence parse r = Inr (Some (k, t))) \<and>
    (\<forall>r\<in>set rs. \<forall>u. scheduled_occurrence parse r = Inr (Some (k, u)) \<longrightarrow>
       (if recoverable_pre_runtime_failure r then u \<le> t else u < t))"
    by (auto simp: occurrences_def)
  finally show ?thesis .
qed

section \<open>What dispatching a routine does\<close>

lemma dispatch_routine_cases:
  assumes "dispatch_routine jt e interval lost team logs agent r s = (t, out)"
  obtains (quiet) "ds_markers t = ds_markers s" "ds_log t = ds_log s"
  | (submitted) o1 mark b where "ro_enabled r" "\<not> ro_condition r"
      "due_occurrence (ds_markers s) r logs agent (de_now e team agent (ro_id r)) (map_of lost (agent, JStr (ro_id r))) =
         Inr (Some o1, Some mark)"
      "truthy (sr_at (ro_schedule r)) \<Longrightarrow> has_key (ds_markers s) mark \<Longrightarrow>
         same_occurrence (Some o1) (map_of lost (agent, JStr (ro_id r)))"
      "parse_catch_up (sr_catch_up (ro_schedule r)) = Inr (Some b)"
      "catch_up_allows o1 (de_now e team agent (ro_id r)) b (grace_window interval)"
      "ds_log t = ds_log s @ [\<lparr>su_logs = logs, su_agent = agent, su_routine = r, su_occurrence = o1,
         su_lost = map_of lost (agent, JStr (ro_id r))\<rparr>]"
      "ds_markers t = (if mark \<in> set (de_unwritable e) then ds_markers s
         else AList.update mark (de_stamp e o1) (ds_markers s))"
proof (cases "ro_enabled r \<and> \<not> ro_condition r")
  case False
  with assms have "t = s" by (auto simp: dispatch_routine_def)
  then show thesis by (intro quiet) simp_all
next
  case True
  let ?now = "de_now e team agent (ro_id r)" and ?lost = "map_of lost (agent, JStr (ro_id r))"
  show thesis
  proof (cases "\<exists>b o1 mark. parse_catch_up (sr_catch_up (ro_schedule r)) = Inr (Some b) \<and>
      due_occurrence (ds_markers s) r logs agent ?now ?lost = Inr (Some o1, Some mark) \<and>
      \<not> (truthy (sr_at (ro_schedule r)) \<and> has_key (ds_markers s) mark \<and> \<not> same_occurrence (Some o1) ?lost) \<and>
      catch_up_allows o1 ?now b (grace_window interval)")
    case False
    with True assms have "t = s"
      by (auto simp: dispatch_routine_def Let_def split: sum.splits option.splits if_splits)
    then show thesis by (intro quiet) simp_all
  next
    case found: True
    then obtain b o1 mark where b: "parse_catch_up (sr_catch_up (ro_schedule r)) = Inr (Some b)"
      and due: "due_occurrence (ds_markers s) r logs agent ?now ?lost = Inr (Some o1, Some mark)"
      and ok: "truthy (sr_at (ro_schedule r)) \<Longrightarrow> has_key (ds_markers s) mark \<Longrightarrow> same_occurrence (Some o1) ?lost"
      "catch_up_allows o1 ?now b (grace_window interval)" by blast
    let ?rq = "\<lparr>rq_team_key = team, rq_agent_name = agent, rq_routine_id = ro_id r, rq_due_at = de_iso e o1\<rparr>"
    let ?submit = "on_jobs (submit_job_request jt (de_root e) (Some (de_iso e o1)) (de_attempts e ?rq))"
    obtain u res where u: "?submit s = (u, res)" by fastforce
    then have same: "ds_markers u = ds_markers s" "ds_log u = ds_log s"
      by (auto simp: on_jobs_def split: prod.splits)
    have run: "dispatch_routine jt e interval lost team logs agent r s =
       (case res of
          Inl x \<Rightarrow> if submission_caught x then (u, Inr ()) else (u, Inl x)
        | Inr _ \<Rightarrow>
            bindS (putS (\<lambda>s. s\<lparr>ds_log := ds_log s @ [\<lparr>su_logs = logs, su_agent = agent, su_routine = r,
               su_occurrence = o1, su_lost = ?lost\<rparr>]\<rparr>)) (\<lambda>_.
            bindS (liftS (ensure (mark \<notin> set (de_unwritable e)) osError)) (\<lambda>_.
            putS (\<lambda>s. s\<lparr>ds_markers := AList.update mark (de_stamp e o1) (ds_markers s)\<rparr>))) u)"
      using True b due ok u by (auto simp: dispatch_routine_def Let_def split: sum.splits)
    show thesis
    proof (cases res)
      case (Inl x)
      with run assms have "t = u" by (auto split: if_splits)
      with same show thesis by (intro quiet) simp_all
    next
      case (Inr h)
      with run assms same show thesis
        by (intro submitted [OF _ _ due ok(1) b ok(2)]) (use True in \<open>auto simp: ensure_def split: if_splits\<close>)
    qed
  qed
qed

section \<open>No occurrence is submitted twice\<close>

abbreviation su_key :: "submission \<Rightarrow> string \<times> string \<times> routine" where
  "su_key x \<equiv> (su_logs x, su_agent x, su_routine x)"

text \<open>What the steps of the program assume: a marker reads back as it was stamped but for the slack, it can be
  written, and an occurrence that is reported lost and is the marker's own was submitted. Anything else may happen to the job files
  between the steps.\<close>

inductive dispatch_step ::
  "job_tools \<Rightarrow> (string \<times> string \<times> routine) set \<Rightarrow> dispatch_state \<Rightarrow> dispatch_state \<Rightarrow> bool" for jt R where
  routine: "dispatch_routine jt e interval lost team logs agent r s = (t, out) \<Longrightarrow> (logs, agent, r) \<in> R \<Longrightarrow>
     (\<forall>x. abs (de_stamp e x - x) \<le> OCCURRENCE_SLACK) \<Longrightarrow> de_unwritable e = [] \<Longrightarrow>
     (\<forall>x m. map_of lost (agent, JStr (ro_id r)) = Some x \<longrightarrow>
        map_of (ds_markers s) (every_marker_path logs agent (ro_id r)) = Some m \<longrightarrow> abs (x - m) \<le> OCCURRENCE_SLACK \<longrightarrow>
        (\<exists>y\<in>set (ds_log s). su_key y = (logs, agent, r) \<and> su_occurrence y = x)) \<Longrightarrow>
     dispatch_step jt R s t"
| jobs: "ds_markers t = ds_markers s \<Longrightarrow> ds_log t = ds_log s \<Longrightarrow> dispatch_step jt R s t"

definition every_path :: "string \<times> string \<times> routine \<Rightarrow> marker" where
  "every_path k = every_marker_path (fst k) (fst (snd k)) (ro_id (snd (snd k)))"

definition separate :: "(string \<times> string \<times> routine) set \<Rightarrow> bool" where
  "separate R \<longleftrightarrow> (\<forall>k\<in>R. \<forall>k'\<in>R. every_path k = every_path k' \<longrightarrow> k = k')"

text \<open>How a later submission of a routine relates to an earlier one.\<close>

definition follows :: "submission \<Rightarrow> submission \<Rightarrow> bool" where
  "follows x y \<longleftrightarrow> su_key x = su_key y \<longrightarrow>
     (su_occurrence y = su_occurrence x \<longrightarrow> same_occurrence (Some (su_occurrence y)) (su_lost y)) \<and>
     (\<forall>period. \<not> truthy (sr_at (ro_schedule (su_routine y))) \<longrightarrow>
        parse_every (sr_every (ro_schedule (su_routine y))) = Inr (Some period) \<longrightarrow>
        su_occurrence y = su_occurrence x \<or> su_occurrence x + period - OCCURRENCE_SLACK \<le> su_occurrence y)"

abbreviation last_of :: "string \<times> string \<times> routine \<Rightarrow> submission list \<Rightarrow> submission option" where
  "last_of k xs \<equiv> find (\<lambda>x. su_key x = k) (rev xs)"

definition every_rule :: "routine \<Rightarrow> bool" where
  "every_rule r \<longleftrightarrow> \<not> truthy (sr_at (ro_schedule r)) \<and> truthy (sr_every (ro_schedule r))"

definition stamped :: "dispatch_state \<Rightarrow> string \<times> string \<times> routine \<Rightarrow> bool" where
  "stamped s k \<longleftrightarrow> (case last_of k (ds_log s) of
      None \<Rightarrow> True
    | Some x \<Rightarrow> (case map_of (ds_markers s) (every_path k) of
        None \<Rightarrow> False | Some m \<Rightarrow> abs (m - su_occurrence x) \<le> OCCURRENCE_SLACK))"

definition marked :: "(string \<times> string \<times> routine) set \<Rightarrow> dispatch_state \<Rightarrow> bool" where
  "marked R s \<longleftrightarrow> sorted_wrt follows (ds_log s) \<and>
     (\<forall>x\<in>set (ds_log s). truthy (sr_at (ro_schedule (su_routine x))) \<longrightarrow>
        has_key (ds_markers s) (at_marker_path (su_logs x) (su_agent x) (ro_id (su_routine x))
          (day_text (day_of (su_occurrence x))))) \<and>
     (\<forall>k\<in>R. every_rule (snd (snd k)) \<longrightarrow> stamped s k)"

lemma at_every_differ: "at_marker_path l a i d \<noteq> every_path k"
  by (simp add: at_marker_path_def every_path_def every_marker_path_def)

lemma last_of_Some: "last_of k xs = Some x \<Longrightarrow> x \<in> set xs \<and> su_key x = k"
  by (auto dest: find_Some_conv)

text \<open>Every submission of a routine is at most as new as its last one.\<close>

lemma follows_last:
  assumes "sorted_wrt follows xs" "last_of k xs = Some x" "y \<in> set xs" "su_key y = k"
    and "every_rule (snd (snd k))" "parse_every (sr_every (ro_schedule (snd (snd k)))) = Inr (Some period)"
  shows "su_occurrence y = su_occurrence x \<or> su_occurrence y + period - OCCURRENCE_SLACK \<le> su_occurrence x"
  using assms(1-3)
proof (induction xs rule: rev_induct)
  case (snoc z xs)
  show ?case
  proof (cases "su_key z = k")
    case True
    with snoc.prems(2) have "x = z" by simp
    moreover have "y = z \<or> follows y z" using snoc.prems(1,3) by (auto simp: sorted_wrt_append)
    ultimately show ?thesis using True assms(4-6) by (auto simp: follows_def every_rule_def)
  next
    case False
    with snoc assms(4) show ?thesis by (auto simp: sorted_wrt_append)
  qed
qed simp

text \<open>What the due occurrence is, seen from the routine's last submission.\<close>

lemma due_every:
  assumes "every_rule r" "due_occurrence markers r l a now lost = Inr (Some o1, Some mark)"
  obtains period where "parse_every (sr_every (ro_schedule r)) = Inr (Some period)" "MINUTE \<le> period"
    "mark = every_marker_path l a (ro_id r)"
    "map_of markers mark = None \<or>
     (\<exists>m. map_of markers mark = Some m \<and> (m + period \<le> o1 \<or> lost = Some o1 \<and> abs (o1 - m) \<le> OCCURRENCE_SLACK))"
proof -
  from assms obtain period every where p: "sr_every (ro_schedule r) = Some every"
      "parse_every (Some every) = Inr (Some period)" "0 < period"
    and due: "(case map_of markers (every_marker_path l a (ro_id r)) of
        None \<Rightarrow> Inr (Some now, Some (every_marker_path l a (ro_id r)))
      | Some anchor \<Rightarrow> bindE (last_every_occurrence anchor every now) (\<lambda>t.
          if t = None \<and> same_occurrence lost (Some anchor) then Inr (lost, Some (every_marker_path l a (ro_id r)))
          else Inr (t, Some (every_marker_path l a (ro_id r))))) = Inr (Some o1, Some mark)"
    unfolding due_occurrence_def every_rule_def
    by (cases "sr_every (ro_schedule r)") (auto simp: Let_def bindE_eq_Inr split: if_splits option.splits)
  from due have mark: "mark = every_marker_path l a (ro_id r)"
    by (auto simp: bindE_eq_Inr split: option.splits if_splits)
  have "m + period \<le> o1 \<or> lost = Some o1 \<and> abs (o1 - m) \<le> OCCURRENCE_SLACK" if m: "map_of markers mark = Some m" for m
  proof -
    from due m mark obtain x where x: "last_every_occurrence m every now = Inr x"
      "if x = None \<and> same_occurrence lost (Some m) then lost = Some o1 else x = Some o1"
      by (auto simp: bindE_eq_Inr split: if_splits)
    show ?thesis
    proof (cases x)
      case None
      with x(2) show ?thesis by (auto simp: same_occurrence_def split: if_splits)
    next
      case (Some o2)
      with x have "last_every_occurrence m every now = Inr (Some o1)" by simp
      then obtain k where "1 \<le> k" "o1 = m + k * period"
        using last_every_newest [of m every now o1] p(2) by auto
      moreover have "1 * period \<le> k * period" using \<open>1 \<le> k\<close> p(3) by (intro mult_right_mono) auto
      ultimately show ?thesis by simp
    qed
  qed
  with that p mark parse_every_minutes [OF p(2)] show thesis by (cases "map_of markers mark") auto
qed

lemma due_at_rule:
  assumes "truthy (sr_at (ro_schedule r))" "due_occurrence markers r l a now lost = Inr (Some o1, Some mark)"
  shows "mark = at_marker_path l a (ro_id r) (day_text (day_of o1))"
  using assms by (auto simp: due_occurrence_def Let_def split: option.splits)

lemma due_rule:
  "due_occurrence markers r l a now lost = Inr (Some o1, Some mark) \<Longrightarrow> truthy (sr_at (ro_schedule r)) \<or> every_rule r"
  by (auto simp: due_occurrence_def every_rule_def Let_def split: if_splits)

lemma has_key_update: "has_key (AList.update k v d) k' \<longleftrightarrow> k' = k \<or> has_key d k'"
  by (simp add: has_key_map_of update_conv')

text \<open>The new submission follows every earlier one.\<close>

lemma submission_follows:
  assumes "marked R s" "(l, a, r) \<in> R"
    and "due_occurrence (ds_markers s) r l a now lost = Inr (Some o1, Some mark)"
    and "truthy (sr_at (ro_schedule r)) \<Longrightarrow> has_key (ds_markers s) mark \<Longrightarrow> same_occurrence (Some o1) lost"
    and "\<And>x m. lost = Some x \<Longrightarrow> map_of (ds_markers s) (every_marker_path l a (ro_id r)) = Some m \<Longrightarrow>
      abs (x - m) \<le> OCCURRENCE_SLACK \<Longrightarrow> \<exists>y\<in>set (ds_log s). su_key y = (l, a, r) \<and> su_occurrence y = x"
    and "x \<in> set (ds_log s)"
  shows "follows x \<lparr>su_logs = l, su_agent = a, su_routine = r, su_occurrence = o1, su_lost = lost\<rparr>"
proof (cases "su_key x = (l, a, r)")
  case False
  then show ?thesis by (auto simp: follows_def)
next
  case key: True
  show ?thesis
  proof (cases "truthy (sr_at (ro_schedule r))")
    case True
    have "has_key (ds_markers s) mark" if "o1 = su_occurrence x"
      using assms(1,6) key True due_at_rule [OF True assms(3)] that by (auto simp: marked_def)
    with assms(4) True show ?thesis by (auto simp: follows_def)
  next
    case at: False
    with due_rule [OF assms(3)] have every: "every_rule r" by simp
    from due_every [OF this assms(3)] obtain period where p: "parse_every (sr_every (ro_schedule r)) = Inr (Some period)"
      "MINUTE \<le> period" "mark = every_marker_path l a (ro_id r)"
      and o1: "map_of (ds_markers s) mark = None \<or> (\<exists>m. map_of (ds_markers s) mark = Some m \<and>
        (m + period \<le> o1 \<or> lost = Some o1 \<and> abs (o1 - m) \<le> OCCURRENCE_SLACK))" .
    obtain z where z: "last_of (l, a, r) (ds_log s) = Some z"
      using assms(6) key by (cases "last_of (l, a, r) (ds_log s)") (auto simp: find_None_iff)
    moreover have "stamped s (l, a, r)" using assms(1,2) every unfolding marked_def by fastforce
    ultimately obtain m where m: "map_of (ds_markers s) mark = Some m" "abs (m - su_occurrence z) \<le> OCCURRENCE_SLACK"
      using p(3) by (auto simp: stamped_def every_path_def split: option.splits)
    have before: "su_occurrence y = su_occurrence z \<or> su_occurrence y + period - OCCURRENCE_SLACK \<le> su_occurrence z"
      if "y \<in> set (ds_log s)" "su_key y = (l, a, r)" for y
      using follows_last [OF _ z that] assms(1) every p(1) by (simp add: marked_def)
    note bound = m(2) p(2) before [OF assms(6) key] OCCURRENCE_SLACK_def
    from o1 m(1) have "m + period \<le> o1 \<or> lost = Some o1 \<and> abs (o1 - m) \<le> OCCURRENCE_SLACK" by simp
    then have "(o1 = su_occurrence x \<longrightarrow> lost = Some o1) \<and>
        (o1 = su_occurrence x \<or> su_occurrence x + period - OCCURRENCE_SLACK \<le> o1)"
    proof
      assume "m + period \<le> o1"
      then have "su_occurrence x + period - OCCURRENCE_SLACK \<le> o1" "o1 \<noteq> su_occurrence x" using bound by auto
      then show ?thesis by simp
    next
      assume again: "lost = Some o1 \<and> abs (o1 - m) \<le> OCCURRENCE_SLACK"
      with assms(5) [of o1 m] m(1) p(3) obtain y where "y \<in> set (ds_log s)" "su_key y = (l, a, r)" "su_occurrence y = o1" by blast
      with before [of y] again bound have "o1 = su_occurrence z" by auto
      with before [OF assms(6) key] again show ?thesis by auto
    qed
    then show ?thesis using p(1) by (auto simp: follows_def same_occurrence_def OCCURRENCE_SLACK_def)
  qed
qed

lemma marked_cong: "ds_markers t = ds_markers s \<Longrightarrow> ds_log t = ds_log s \<Longrightarrow> marked R t = marked R s"
  by (simp only: marked_def stamped_def)

lemma dispatch_step_marked:
  assumes "separate R" "marked R s" "dispatch_step jt R s t"
  shows "marked R t"
  using assms(3)
proof cases
  case jobs
  with assms(2) marked_cong show ?thesis by blast
next
  case (routine e interval lost team l a r out)
  from routine(1) show ?thesis
  proof (cases rule: dispatch_routine_cases)
    case quiet
    with assms(2) marked_cong show ?thesis by blast
  next
    case (submitted o1 mark b)
    let ?lost = "map_of lost (a, JStr (ro_id r))"
    let ?x = "\<lparr>su_logs = l, su_agent = a, su_routine = r, su_occurrence = o1, su_lost = ?lost\<rparr>"
    have log: "ds_log t = ds_log s @ [?x]" using submitted(7) .
    have markers: "ds_markers t = AList.update mark (de_stamp e o1) (ds_markers s)"
      using submitted(8) routine(4) by simp
    have "\<forall>y\<in>set (ds_log s). follows y ?x"
      using submission_follows [OF assms(2) routine(2) submitted(3,4)] routine(5) by blast
    then have "sorted_wrt follows (ds_log t)" using assms(2) by (simp add: log sorted_wrt_append marked_def)
    moreover have "has_key (ds_markers t) (at_marker_path (su_logs x) (su_agent x) (ro_id (su_routine x))
        (day_text (day_of (su_occurrence x))))" if "x \<in> set (ds_log t)" "truthy (sr_at (ro_schedule (su_routine x)))" for x
      using that assms(2) due_at_rule [OF _ submitted(3)] by (auto simp: log markers has_key_update marked_def)
    moreover have "stamped t k" if k: "k \<in> R" "every_rule (snd (snd k))" for k
    proof (cases "k = (l, a, r)")
      case True
      with k(2) have "every_rule r" by simp
      from due_every [OF this submitted(3)] have "mark = every_marker_path l a (ro_id r)" by blast
      with True routine(3) show ?thesis by (simp add: stamped_def every_path_def log markers update_conv')
    next
      case False
      have "mark \<noteq> every_path k"
      proof (cases "truthy (sr_at (ro_schedule r))")
        case True
        with due_at_rule [OF _ submitted(3)] at_every_differ show ?thesis by simp
      next
        case at: False
        with due_rule [OF submitted(3)] have "every_rule r" by simp
        from due_every [OF this submitted(3)] have "mark = every_path (l, a, r)" by (simp add: every_path_def)
        with False k(1) routine(2) assms(1) show ?thesis unfolding separate_def by metis
      qed
      moreover have "stamped s k" using assms(2) k unfolding marked_def by blast
      moreover have "last_of k (ds_log t) = last_of k (ds_log s)" using False by (auto simp: log)
      moreover have "map_of (ds_markers t) (every_path k) = map_of (ds_markers s) (every_path k)"
        using calculation(1) by (simp add: markers update_conv')
      ultimately show ?thesis by (simp add: stamped_def cong: option.case_cong)
    qed
    ultimately show ?thesis unfolding marked_def by blast
  qed
qed


end
