(* ===== verification/TicketAccess.thy ===== *)
theory TicketAccess
  imports JobReconciliation
begin

text \<open>
  Sessions of running jobs, \<^verbatim>\<open>flowgency/tickets/access.py\<close>: a worker opens a session for its job and gets a
  token; every use of the token or of its context checks again that the job still runs, as the run
  the session was opened for. The state is the job files and one registry file per job. A registry is
  kept as what its JSON text holds; random parts of a session and the hash of a token are arguments.
\<close>

section \<open>State\<close>

record run_fingerprint =
  fp_worker_pid :: "int option"
  fp_started_at :: "string option"
  fp_launched_at :: "string option"
  fp_observed_session_id :: "string option"

record stored_session =
  ss_session_id :: string
  ss_token_hash :: string
  ss_context :: agent_context
  ss_immutable_digest :: string
  ss_run_fingerprint :: run_fingerprint

record original_target =
  ot_generation :: string
  ot_binding :: storage_binding
  ot_ref :: ticket_ref

record stored_registry =
  sg_sessions :: "(string, stored_session) dict"
  sg_original_targets :: "original_target list"

datatype registry_file = UnreadableRegistry | InvalidRegistry | Registry stored_registry

record access_area =
  aa_root :: string
  aa_jobs :: job_area
  aa_registries :: "(job_key, registry_file) dict"
  aa_links :: "job_key list"
  aa_readonly :: "job_key list"

record access_grant =
  gr_session_id :: string
  gr_token :: string
  gr_context :: agent_context

abbreviation "invalidContext \<equiv> Raise TicketForbidden ''invalid-agent-context''"
abbreviation "invalidToken \<equiv> Raise TicketForbidden ''invalid-token''"
abbreviation "endedSession \<equiv> Raise TicketForbidden ''ended-session''"

definition validate_original_target :: "identities \<Rightarrow> original_target \<Rightarrow> ticket_error + unit" where
  "validate_original_target ids x =
     (let b = ot_binding x; r = ot_ref x in
      bindE (new_storage_binding ids (sb_integration b) (sb_config b) (sb_team_id b) (sb_workflow_id b)) (\<lambda>rebound.
      bindE (ensure (rebound = b) valueError) (\<lambda>_.
      bindE (ensure (rf_binding_id r = sb_binding_id b) valueError) (\<lambda>_.
      bindE (ensure (rf_team_id r = sb_team_id b) valueError) (\<lambda>_.
      ensure (rf_workflow_id r = sb_workflow_id b) valueError)))))"

definition fingerprint_of :: "job_record \<Rightarrow> run_fingerprint" where
  "fingerprint_of r = \<lparr>fp_worker_pid = jr_worker_pid r, fp_started_at = jr_started_at r,
     fp_launched_at = jr_launched_at r, fp_observed_session_id = jr_session_id r\<rparr>"

section \<open>Names of sessions and tokens\<close>

fun split_limit :: "nat \<Rightarrow> string \<Rightarrow> string list" where
  "split_limit 0 s = [s]"
| "split_limit (Suc n) s = (case split_at '':'' s of None \<Rightarrow> [s] | Some (a, b) \<Rightarrow> a # split_limit n b)"

definition split_session_id :: "string \<Rightarrow> ticket_error + string \<times> string \<times> string" where
  "split_session_id s = (case split_limit 2 s of
      [a, b, c] \<Rightarrow> if a \<noteq> [] \<and> b \<noteq> [] \<and> c \<noteq> [] then Inr (a, b, c) else Inl invalidContext
    | _ \<Rightarrow> Inl invalidContext)"

definition split_token :: "string \<Rightarrow> ticket_error + string \<times> string \<times> string \<times> string" where
  "split_token s = (case split_limit 3 s of
      [a, b, c, d] \<Rightarrow> if a \<noteq> [] \<and> b \<noteq> [] \<and> c \<noteq> [] \<and> d \<noteq> [] then Inr (a, b, c, d) else Inl invalidToken
    | _ \<Rightarrow> Inl invalidToken)"

definition session_name :: "string \<Rightarrow> string \<Rightarrow> string \<Rightarrow> string" where
  "session_name team job nonce = team @ '':'' @ job @ '':'' @ nonce"

section \<open>Registry files\<close>

definition access_path :: "access_area \<Rightarrow> job_key \<Rightarrow> ticket_error + job_key" where
  "access_path s k =
     bindE (ensure (is_team_id (fst k)) valueError) (\<lambda>_.
     bindE (ensure (k \<notin> set (aa_links s)) valueError) (\<lambda>_. Inr k))"

definition load_registry :: "access_area \<Rightarrow> job_key \<Rightarrow> ticket_error + stored_registry" where
  "load_registry s k = (case map_of (aa_registries s) k of
      None \<Rightarrow> Inr \<lparr>sg_sessions = [], sg_original_targets = []\<rparr>
    | Some UnreadableRegistry \<Rightarrow> Inl osError
    | Some InvalidRegistry \<Rightarrow> Inl valueError
    | Some (Registry g) \<Rightarrow> Inr g)"

definition save_registry :: "job_key \<Rightarrow> stored_registry \<Rightarrow> (access_area, ticket_error, unit) op" where
  "save_registry k g s =
     (if sg_sessions g = [] \<and> sg_original_targets g = [] \<and> \<not> has_key (aa_registries s) k then (s, Inr ())
      else if k \<in> set (aa_readonly s) then (s, Inl osError)
      else if sg_sessions g = [] \<and> sg_original_targets g = []
      then (s\<lparr>aa_registries := filter (\<lambda>x. fst x \<noteq> k) (aa_registries s)\<rparr>, Inr ())
      else (s\<lparr>aa_registries := AList.update k (Registry g) (aa_registries s)\<rparr>, Inr ()))"

definition drop_session :: "job_key \<Rightarrow> stored_registry \<Rightarrow> string \<Rightarrow> (access_area, ticket_error, unit) op" where
  "drop_session k g session_id =
     (if \<not> has_key (sg_sessions g) session_id then returnS ()
      else save_registry k (g\<lparr>sg_sessions := filter (\<lambda>x. fst x \<noteq> session_id) (sg_sessions g)\<rparr>))"

text \<open>Of two references with the same root the paths are the same when the ids are.\<close>

definition trusted_authority :: "access_area \<Rightarrow> job_authority \<Rightarrow> ticket_error + job_authority" where
  "trusted_authority s a =
     bindE (reference (aa_root s) (aa_jobs s) (au_team_id a) (au_job_id a) (au_immutable_digest a)) (\<lambda>trusted.
     bindE (ensure (au_root a = aa_root s) invalidContext) (\<lambda>_. Inr trusted))"

text \<open>The digest line of a job file, read as text.\<close>

definition digest_prefix :: string where "digest_prefix = ''authority_digest:''"

definition read_job_digest :: "access_area \<Rightarrow> job_key \<Rightarrow> ticket_error + string" where
  "read_job_digest s k =
     bindE (job_path (aa_jobs s) (fst k) (snd k)) (\<lambda>_. case job_file_at (aa_jobs s) k of
       None \<Rightarrow> Inl (PyError ''FileNotFoundError'')
     | Some UnreadableJob \<Rightarrow> Inl osError
     | Some (JobText doc) \<Rightarrow>
         (case find (\<lambda>l. take (length digest_prefix) l = digest_prefix) (split_on newline doc) of
            None \<Rightarrow> Inl invalidContext
          | Some l \<Rightarrow> Inr (strip (drop (length digest_prefix) l))))"

definition load_locked_by_job :: "access_area \<Rightarrow> job_key \<Rightarrow> ticket_error + job_authority \<times> stored_registry" where
  "load_locked_by_job s k =
     bindE (access_path s k) (\<lambda>_.
     bindE (load_registry s k) (\<lambda>g.
     bindE (case sg_sessions g of [] \<Rightarrow> read_job_digest s k | x # _ \<Rightarrow> Inr (ss_immutable_digest (snd x))) (\<lambda>digest.
     bindE (reference (aa_root s) (aa_jobs s) (fst k) (snd k) digest) (\<lambda>a. Inr (a, g)))))"

definition load_locked :: "access_area \<Rightarrow> job_authority \<Rightarrow> ticket_error + job_key \<times> stored_registry" where
  "load_locked s a =
     bindE (trusted_authority s a) (\<lambda>trusted.
     bindE (access_path s (au_team_id trusted, au_job_id trusted)) (\<lambda>k.
     bindE (load_registry s k) (\<lambda>g. Inr (k, g))))"

section \<open>The running job\<close>

definition require_running ::
  "job_tools \<Rightarrow> access_area \<Rightarrow> job_authority \<Rightarrow> agent_context option \<Rightarrow> ticket_error + job_record" where
  "require_running jt s a expected =
     bindE (mapErr (\<lambda>e. if e \<in> {PyError ''FileNotFoundError'', authorityError} then invalidContext else e)
       (read_authority jt (aa_root s) (aa_jobs s) a)) (\<lambda>r.
     bindE (ensure (jr_status r = Running) endedSession) (\<lambda>_.
     bindE (case expected of None \<Rightarrow> Inr () | Some c \<Rightarrow>
       bindE (ensure (sp_team_key (jr_spec r) = cx_team_id c) invalidContext) (\<lambda>_.
       bindE (ensure (sp_job_id (jr_spec r) = cx_job_id c) invalidContext) (\<lambda>_.
       ensure (sp_agent_name (jr_spec r) = cx_agent_name c) invalidContext))) (\<lambda>_. Inr r)))"

definition forbidden_code :: "ticket_error \<Rightarrow> string option" where
  "forbidden_code e = (case e of Raise TicketForbidden c \<Rightarrow> Some c | _ \<Rightarrow> None)"

text \<open>The check a session passes: the job runs, and as the run the session was opened for. A session that
  fails it is dropped; \<open>other\<close> is what its caller hears.\<close>

definition check_session ::
  "job_tools \<Rightarrow> job_key \<Rightarrow> job_authority \<Rightarrow> stored_registry \<Rightarrow> string \<Rightarrow> stored_session \<Rightarrow> agent_context \<Rightarrow>
   (string \<Rightarrow> ticket_error) \<Rightarrow> ticket_error \<Rightarrow> (access_area, ticket_error, job_record) op" where
  "check_session jt k a g session_id session c refused other s =
     (case require_running jt s a (Some c) of
        Inl e \<Rightarrow> (case forbidden_code e of
            None \<Rightarrow> (s, Inl e)
          | Some code \<Rightarrow> bindS (drop_session k g session_id) (\<lambda>_. raiseS (refused code)) s)
      | Inr r \<Rightarrow>
          if ss_run_fingerprint session \<noteq> fingerprint_of r
          then bindS (drop_session k g session_id) (\<lambda>_. raiseS other) s
          else (s, Inr r))"

section \<open>Operations\<close>

definition open_session ::
  "job_tools \<Rightarrow> (string \<Rightarrow> string) \<Rightarrow> string \<Rightarrow> string \<Rightarrow> job_authority \<Rightarrow> (access_area, ticket_error, access_grant) op"
where
  "open_session jt token_hash nonce secret a0 =
     bindS (readS (\<lambda>s. trusted_authority s a0)) (\<lambda>a.
     let session_id = session_name (au_team_id a) (au_job_id a) nonce;
         token = session_id @ '':'' @ secret in
     bindS (readS (\<lambda>s. require_running jt s a None)) (\<lambda>r.
     bindS (readS (\<lambda>s. load_locked s a)) (\<lambda>(k, g).
     let c = \<lparr>cx_job_id = au_job_id a, cx_team_id = au_team_id a, cx_agent_name = sp_agent_name (jr_spec r),
           cx_session_id = session_id\<rparr> in
     bindS (save_registry k (g\<lparr>sg_sessions := [(session_id, \<lparr>ss_session_id = session_id,
        ss_token_hash = token_hash token, ss_context = c, ss_immutable_digest = au_immutable_digest a,
        ss_run_fingerprint = fingerprint_of r\<rparr>)]\<rparr>)) (\<lambda>_.
     returnS \<lparr>gr_session_id = session_id, gr_token = token, gr_context = c\<rparr>))))"

definition authenticate ::
  "job_tools \<Rightarrow> (string \<Rightarrow> string) \<Rightarrow> string \<Rightarrow> (access_area, ticket_error, agent_context) op" where
  "authenticate jt token_hash token =
     bindS (liftS (split_token token)) (\<lambda>(team, job, nonce, _).
     let session_id = session_name team job nonce in
     bindS (readS (\<lambda>s. job_path (aa_jobs s) team job)) (\<lambda>k.
     bindS (readS (\<lambda>s. load_locked_by_job s k)) (\<lambda>(a, g).
     case map_of (sg_sessions g) session_id of
       None \<Rightarrow> raiseS invalidToken
     | Some session \<Rightarrow>
         if ss_token_hash session \<noteq> token_hash token then raiseS invalidToken
         else bindS (check_session jt k a g session_id session (ss_context session)
            (\<lambda>code. if code = ''ended-session'' then endedSession else invalidToken) invalidToken) (\<lambda>_.
          returnS (ss_context session)))))"

definition resolve_context :: "job_tools \<Rightarrow> agent_context \<Rightarrow> (access_area, ticket_error, job_record) op" where
  "resolve_context jt c =
     bindS (liftS (split_session_id (cx_session_id c))) (\<lambda>(team, job, _).
     bindS (liftS (ensure (team = cx_team_id c \<and> job = cx_job_id c) invalidContext)) (\<lambda>_.
     bindS (readS (\<lambda>s. job_path (aa_jobs s) team job)) (\<lambda>k.
     bindS (readS (\<lambda>s. load_locked_by_job s k)) (\<lambda>(a, g).
     case map_of (sg_sessions g) (cx_session_id c) of
       None \<Rightarrow> raiseS invalidContext
     | Some session \<Rightarrow>
         if ss_context session \<noteq> c then raiseS invalidContext
         else check_session jt k a g (cx_session_id c) session c (Raise TicketForbidden) invalidContext))))"

definition validate_context :: "job_tools \<Rightarrow> agent_context \<Rightarrow> (access_area, ticket_error, unit) op" where
  "validate_context jt c = bindS (resolve_context jt c) (\<lambda>_. returnS ())"

definition close_session :: "string \<Rightarrow> (access_area, ticket_error, unit) op" where
  "close_session session_id =
     bindS (liftS (split_session_id session_id)) (\<lambda>(team, job, _).
     bindS (readS (\<lambda>s. job_path (aa_jobs s) team job)) (\<lambda>k.
     bindS (readS (\<lambda>s. load_locked_by_job s k)) (\<lambda>(_, g). drop_session k g session_id)))"

definition revoke_sessions :: "job_authority \<Rightarrow> (access_area, ticket_error, unit) op" where
  "revoke_sessions a =
     bindS (readS (\<lambda>s. trusted_authority s a)) (\<lambda>trusted.
     bindS (readS (\<lambda>s. load_locked s trusted)) (\<lambda>(k, g). save_registry k (g\<lparr>sg_sessions := []\<rparr>)))"

definition register_target ::
  "job_tools \<Rightarrow> agent_context \<Rightarrow> workflow_binding \<Rightarrow> ticket_ref \<Rightarrow> (access_area, ticket_error, unit) op" where
  "register_target jt c wb ref =
     bindS (validate_context jt c) (\<lambda>_.
     bindS (liftS (ensure (wb_team_id wb = cx_team_id c) (Raise TicketForbidden ''wrong-team''))) (\<lambda>_.
     bindS (liftS (ensure (rf_team_id ref = cx_team_id c \<and> rf_workflow_id ref = wb_workflow_id wb)
       (Raise TicketForbidden ''wrong-team''))) (\<lambda>_.
     bindS (liftS (ensure (rf_binding_id ref = sb_binding_id (wb_storage wb))
       (Raise TicketForbidden ''binding-mismatch''))) (\<lambda>_.
     bindS (liftS (split_session_id (cx_session_id c))) (\<lambda>(team, job, _).
     bindS (readS (\<lambda>s. job_path (aa_jobs s) team job)) (\<lambda>k.
     bindS (readS (\<lambda>s. load_locked_by_job s k)) (\<lambda>(a, g).
     case map_of (sg_sessions g) (cx_session_id c) of
       None \<Rightarrow> raiseS invalidContext
     | Some session \<Rightarrow>
         bindS (readS (\<lambda>s. require_running jt s a (Some c))) (\<lambda>r.
         if ss_run_fingerprint session \<noteq> fingerprint_of r
         then bindS (drop_session k g (cx_session_id c)) (\<lambda>_. raiseS invalidContext)
         else
           let b = wb_storage wb; ids = jt_ids jt in
           bindS (liftS (new_storage_binding ids (sb_integration b) (sb_config b) (sb_team_id b) (sb_workflow_id b))) (\<lambda>b'.
           let x = \<lparr>ot_generation = cx_session_id c, ot_binding = b', ot_ref = ref\<rparr> in
           bindS (liftS (validate_original_target ids x)) (\<lambda>_.
           save_registry k (g\<lparr>sg_original_targets :=
             (if x \<in> set (sg_original_targets g) then sg_original_targets g else sg_original_targets g @ [x])\<rparr>)))))))))))"

definition revalidated_target :: "identities \<Rightarrow> original_target \<Rightarrow> ticket_error + original_target" where
  "revalidated_target ids x =
     (let b = ot_binding x in
      bindE (new_storage_binding ids (sb_integration b) (sb_config b) (sb_team_id b) (sb_workflow_id b)) (\<lambda>b'.
      let y = x\<lparr>ot_binding := b'\<rparr> in bindE (validate_original_target ids y) (\<lambda>_. Inr y)))"

definition read_original_targets ::
  "job_tools \<Rightarrow> job_authority \<Rightarrow> access_area \<Rightarrow> ticket_error + original_target list" where
  "read_original_targets jt a s =
     bindE (trusted_authority s a) (\<lambda>trusted.
     bindE (load_locked s trusted) (\<lambda>(k, g). mapE (revalidated_target (jt_ids jt)) (sg_original_targets g)))"

section \<open>Names come apart again\<close>

lemma split_at_colon: "CHR '':'' \<notin> set a \<Longrightarrow> split_at '':'' (a @ CHR '':'' # b) = Some (a, b)"
  by (induction a) auto

lemma split_token_of:
  assumes "CHR '':'' \<notin> set team" "CHR '':'' \<notin> set job" "CHR '':'' \<notin> set nonce"
    and "team \<noteq> []" "job \<noteq> []" "nonce \<noteq> []" "secret \<noteq> []"
  shows "split_token (session_name team job nonce @ '':'' @ secret) = Inr (team, job, nonce, secret)"
  using assms by (simp add: split_token_def session_name_def numeral_3_eq_3 split_at_colon)

lemma split_at_colonD: "split_at '':'' s = Some (a, b) \<Longrightarrow> s = a @ CHR '':'' # b \<and> CHR '':'' \<notin> set a"
  using split_at_join [of "'':''" s a b] by (induction s arbitrary: a) (auto split: if_splits)

lemma split_token_parts:
  assumes "split_token tok = Inr (team, job, nonce, secret)"
  shows "tok = session_name team job nonce @ '':'' @ secret \<and> CHR '':'' \<notin> set team \<and> CHR '':'' \<notin> set job \<and>
    CHR '':'' \<notin> set nonce \<and> team \<noteq> [] \<and> job \<noteq> [] \<and> nonce \<noteq> [] \<and> secret \<noteq> []"
  using assms
  by (auto simp: split_token_def session_name_def numeral_3_eq_3 dest!: split_at_colonD
      split: option.splits list.splits if_splits)

lemma id_free_of_colon: "is_team_id s \<Longrightarrow> CHR '':'' \<notin> set s" "is_job_id s \<Longrightarrow> CHR '':'' \<notin> set s"
proof -
  have "CHR '':'' \<notin> set s" if "list_all (\<lambda>p. CHR '':'' \<notin> set p) (split_on CHR ''-'' s)" for s
    using that by (induction s) (auto split: if_splits list.splits)
  moreover have "\<not> char_in CHR ''a'' CHR ''z'' CHR '':''" "\<not> char_in CHR ''0'' CHR ''9'' CHR '':''"
    "\<not> char_in CHR ''A'' CHR ''Z'' CHR '':''" by code_simp+
  ultimately show "is_team_id s \<Longrightarrow> CHR '':'' \<notin> set s" by (fastforce simp: is_team_id_def list_all_iff)
  show "is_job_id s \<Longrightarrow> CHR '':'' \<notin> set s"
    using \<open>\<not> char_in CHR ''a'' CHR ''z'' CHR '':''\<close> \<open>\<not> char_in CHR ''0'' CHR ''9'' CHR '':''\<close>
      \<open>\<not> char_in CHR ''A'' CHR ''Z'' CHR '':''\<close>
    by (auto simp: is_job_id_def job_id_char_def list_all_iff split: list.splits)
qed

section \<open>Only the live run authenticates\<close>

text \<open>The job of a session runs, for the agent of its context, and as the run it was opened for.\<close>

definition live_session :: "job_tools \<Rightarrow> access_area \<Rightarrow> job_authority \<Rightarrow> stored_session \<Rightarrow> agent_context \<Rightarrow> bool" where
  "live_session jt s a session c \<longleftrightarrow> (\<exists>r. read_authority jt (aa_root s) (aa_jobs s) a = Inr r \<and> jr_status r = Running \<and>
     sp_team_key (jr_spec r) = cx_team_id c \<and> sp_job_id (jr_spec r) = cx_job_id c \<and>
     sp_agent_name (jr_spec r) = cx_agent_name c \<and> ss_run_fingerprint session = fingerprint_of r)"

lemma require_running_Inr:
  "require_running jt s a (Some c) = Inr r \<longleftrightarrow> read_authority jt (aa_root s) (aa_jobs s) a = Inr r \<and>
     jr_status r = Running \<and> sp_team_key (jr_spec r) = cx_team_id c \<and> sp_job_id (jr_spec r) = cx_job_id c \<and>
     sp_agent_name (jr_spec r) = cx_agent_name c"
  by (auto simp: require_running_def bindE_eq_Inr mapErr_eq_Inr ensure_eq_Inr)

lemma check_session_Inr:
  "check_session jt k a g i session c refused other s = (t, Inr r) \<longleftrightarrow>
     t = s \<and> require_running jt s a (Some c) = Inr r \<and> ss_run_fingerprint session = fingerprint_of r"
  by (auto simp: check_session_def bindS_Inr split: sum.splits option.splits)

lemma authenticate_Inr:
  "authenticate jt token_hash token s = (t, Inr c) \<longleftrightarrow>
     t = s \<and> (\<exists>team job nonce secret a g session.
       split_token token = Inr (team, job, nonce, secret) \<and> job_path (aa_jobs s) team job = Inr (team, job) \<and>
       load_locked_by_job s (team, job) = Inr (a, g) \<and>
       map_of (sg_sessions g) (session_name team job nonce) = Some session \<and>
       ss_token_hash session = token_hash token \<and> ss_context session = c \<and> live_session jt s a session c)"
proof -
  have path: "k = (x, y)" if "job_path ja x y = Inr k" for ja x y k
    using that by (auto simp: job_path_def bindE_eq_Inr)
  show ?thesis
  proof (cases "split_token token")
    case (Inl e)
    then show ?thesis by (simp add: authenticate_def)
  next
    case tok: (Inr x)
    obtain team job nonce secret where x: "x = (team, job, nonce, secret)" by (cases x)
    show ?thesis
    proof (cases "job_path (aa_jobs s) team job")
      case (Inl e)
      with tok x show ?thesis by (simp add: authenticate_def Let_def)
    next
      case k: (Inr k)
      with path have k: "job_path (aa_jobs s) team job = Inr (team, job)" by blast
      show ?thesis
      proof (cases "load_locked_by_job s (team, job)")
        case (Inl e)
        with tok x k show ?thesis by (simp add: authenticate_def Let_def)
      next
        case ag: (Inr ag)
        obtain a g where g: "ag = (a, g)" by (cases ag)
        show ?thesis
        proof (cases "map_of (sg_sessions g) (session_name team job nonce)")
          case None
          with tok x k ag g show ?thesis by (simp add: authenticate_def Let_def)
        next
          case (Some session)
          with tok x k ag g show ?thesis
            by (auto simp: authenticate_def Let_def bindS_Inr check_session_Inr require_running_Inr live_session_def)
        qed
      qed
    qed
  qed
qed

text \<open>C29: A token authenticates exactly when the registry of the job it names holds its session with the hash of
  this token, and the job still runs, unchanged in its digest, for the agent of the session, as the
  same run: the worker, the times and the runtime session it had when the session was opened.
  Authenticating changes nothing.\<close>

theorem authenticate_iff:
  "authenticate jt token_hash token s = (t, Inr c) \<longleftrightarrow>
     t = s \<and> (\<exists>team job nonce secret a g session.
       split_token token = Inr (team, job, nonce, secret) \<and> job_path (aa_jobs s) team job = Inr (team, job) \<and>
       load_locked_by_job s (team, job) = Inr (a, g) \<and>
       map_of (sg_sessions g) (session_name team job nonce) = Some session \<and>
       ss_token_hash session = token_hash token \<and> ss_context session = c \<and>
       (\<exists>r. read_authority jt (aa_root s) (aa_jobs s) a = Inr r \<and> jr_status r = Running \<and>
          sp_team_key (jr_spec r) = cx_team_id c \<and> sp_job_id (jr_spec r) = cx_job_id c \<and>
          sp_agent_name (jr_spec r) = cx_agent_name c \<and> ss_run_fingerprint session = fingerprint_of r))"
  unfolding authenticate_Inr live_session_def by (rule refl)

section \<open>One session at a time\<close>

lemma reference_Inr:
  "reference root_path ja team job digest = Inr a \<Longrightarrow> is_team_id team \<and> is_job_id job \<and>
     job_path ja team job = Inr (team, job) \<and> full_digest digest \<and>
     a = \<lparr>au_root = root_path, au_team_id = team, au_job_id = job, au_immutable_digest = digest\<rparr>"
  by (auto simp: reference_def job_path_def bindE_eq_Inr ensure_eq_Inr)

lemma is_id_not_Nil: "is_job_id s \<Longrightarrow> s \<noteq> []" "is_team_id s \<Longrightarrow> s \<noteq> []"
  by (auto simp: is_job_id_def is_team_id_def)

text \<open>What opening a session leaves behind: a registry with this session only.\<close>

lemma open_session_effect:
  assumes "open_session jt token_hash nonce secret a0 s = (t, Inr gr)"
  obtains team job digest r session g where
    "is_team_id team" "is_job_id job" "job_path (aa_jobs s) team job = Inr (team, job)" "(team, job) \<notin> set (aa_links s)"
    "reference (aa_root s) (aa_jobs s) team job digest =
       Inr \<lparr>au_root = aa_root s, au_team_id = team, au_job_id = job, au_immutable_digest = digest\<rparr>"
    "read_authority jt (aa_root s) (aa_jobs s)
       \<lparr>au_root = aa_root s, au_team_id = team, au_job_id = job, au_immutable_digest = digest\<rparr> = Inr r"
    "jr_status r = Running" "gr_session_id gr = session_name team job nonce"
    "gr_token gr = session_name team job nonce @ '':'' @ secret"
    "gr_context gr = \<lparr>cx_job_id = job, cx_team_id = team, cx_agent_name = sp_agent_name (jr_spec r),
       cx_session_id = session_name team job nonce\<rparr>"
    "session = \<lparr>ss_session_id = session_name team job nonce, ss_token_hash = token_hash (gr_token gr),
       ss_context = gr_context gr, ss_immutable_digest = digest, ss_run_fingerprint = fingerprint_of r\<rparr>"
    "aa_root t = aa_root s" "aa_jobs t = aa_jobs s" "aa_links t = aa_links s"
    "map_of (aa_registries t) (team, job) =
       Some (Registry \<lparr>sg_sessions = [(session_name team job nonce, session)], sg_original_targets = g\<rparr>)"
proof -
  from assms obtain a r k g u where tr: "trusted_authority s a0 = Inr a" and run: "require_running jt s a None = Inr r"
    and kg: "load_locked s a = Inr (k, g)"
    and save: "save_registry k (g\<lparr>sg_sessions := [(session_name (au_team_id a) (au_job_id a) nonce,
        \<lparr>ss_session_id = session_name (au_team_id a) (au_job_id a) nonce,
        ss_token_hash = token_hash (session_name (au_team_id a) (au_job_id a) nonce @ '':'' @ secret),
        ss_context = \<lparr>cx_job_id = au_job_id a, cx_team_id = au_team_id a, cx_agent_name = sp_agent_name (jr_spec r),
           cx_session_id = session_name (au_team_id a) (au_job_id a) nonce\<rparr>,
        ss_immutable_digest = au_immutable_digest a, ss_run_fingerprint = fingerprint_of r\<rparr>)]\<rparr>) s = (t, Inr u)"
    and gr: "gr = \<lparr>gr_session_id = session_name (au_team_id a) (au_job_id a) nonce,
        gr_token = session_name (au_team_id a) (au_job_id a) nonce @ '':'' @ secret,
        gr_context = \<lparr>cx_job_id = au_job_id a, cx_team_id = au_team_id a, cx_agent_name = sp_agent_name (jr_spec r),
           cx_session_id = session_name (au_team_id a) (au_job_id a) nonce\<rparr>\<rparr>"
    unfolding open_session_def Let_def by (auto simp: bindS_Inr split: prod.splits sum.splits)
  let ?team = "au_team_id a" and ?job = "au_job_id a" and ?digest = "au_immutable_digest a"
  from tr have ref0: "reference (aa_root s) (aa_jobs s) (au_team_id a0) (au_job_id a0) (au_immutable_digest a0) = Inr a"
    by (auto simp: trusted_authority_def bindE_eq_Inr)
  from reference_Inr [OF ref0] have a: "a = \<lparr>au_root = aa_root s, au_team_id = ?team, au_job_id = ?job, au_immutable_digest = ?digest\<rparr>"
    and ids: "is_team_id ?team" "is_job_id ?job" "job_path (aa_jobs s) ?team ?job = Inr (?team, ?job)" by auto
  from ref0 a reference_Inr [OF ref0] have ref: "reference (aa_root s) (aa_jobs s) ?team ?job ?digest = Inr a" by auto
  from run have r: "read_authority jt (aa_root s) (aa_jobs s) a = Inr r" "jr_status r = Running"
    by (auto simp: require_running_def bindE_eq_Inr mapErr_eq_Inr ensure_eq_Inr)
  from kg ref a have k: "k = (?team, ?job)" "(?team, ?job) \<notin> set (aa_links s)"
    by (auto simp: load_locked_def trusted_authority_def access_path_def bindE_eq_Inr ensure_eq_Inr)
  from save have t: "t = s\<lparr>aa_registries := AList.update k (Registry (g\<lparr>sg_sessions := [(session_name ?team ?job nonce,
        \<lparr>ss_session_id = session_name ?team ?job nonce, ss_token_hash = token_hash (gr_token gr),
        ss_context = gr_context gr, ss_immutable_digest = ?digest, ss_run_fingerprint = fingerprint_of r\<rparr>)]\<rparr>)) (aa_registries s)\<rparr>"
    by (auto simp: save_registry_def gr split: if_splits)
  show thesis
    by (rule that [of ?team ?job ?digest r _ "sg_original_targets g"])
      (use ids k ref r gr a t in \<open>simp_all add: update_conv'\<close>, cases g, simp)
qed

text \<open>C30: A session that was just opened authenticates, with the context it was granted, and no other token of
  that job does any more: only one that names this session and has this token's hash.\<close>

theorem open_supersedes:
  assumes "well_named jt (aa_jobs s)" "open_session jt token_hash nonce secret a s = (t, Inr gr)"
    and "CHR '':'' \<notin> set nonce" "nonce \<noteq> []" "secret \<noteq> []"
  shows "authenticate jt token_hash (gr_token gr) t = (t, Inr (gr_context gr)) \<and>
    (\<forall>tok u c n x. split_token tok = Inr (cx_team_id (gr_context gr), cx_job_id (gr_context gr), n, x) \<longrightarrow>
       authenticate jt token_hash tok t = (u, Inr c) \<longrightarrow>
       session_name (cx_team_id c) (cx_job_id c) n = gr_session_id gr \<and>
       token_hash tok = token_hash (gr_token gr) \<and> c = gr_context gr)"
  using assms(2)
proof (cases rule: open_session_effect)
  case (1 team job digest r session g)
  let ?a = "\<lparr>au_root = aa_root s, au_team_id = team, au_job_id = job, au_immutable_digest = digest\<rparr>"
  let ?g = "\<lparr>sg_sessions = [(session_name team job nonce, session)], sg_original_targets = g\<rparr>"
  have locked: "load_locked_by_job t (team, job) = Inr (?a, ?g)"
    using 1 by (simp add: load_locked_by_job_def access_path_def load_registry_def)
  have token: "split_token (gr_token gr) = Inr (team, job, nonce, secret)"
    using 1 assms(3-5) split_token_of id_free_of_colon is_id_not_Nil by simp
  have "read_job jt (aa_jobs s) (team, job) (Some digest) = Inr r"
    using 1(5,6) by (simp add: read_authority_def bindE_eq_Inr mapErr_eq_Inr ensure_eq_Inr)
  then have "read_job jt (aa_jobs s) (team, job) None = Inr r"
    by (auto simp: read_job_def bindE_eq_Inr split: option.splits job_file.splits)
  from well_namedD [OF assms(1) this] have "live_session jt t ?a session (gr_context gr)"
    using 1 by (simp add: live_session_def)
  then have "authenticate jt token_hash (gr_token gr) t = (t, Inr (gr_context gr))"
    unfolding authenticate_Inr using token locked 1 by auto
  moreover have "session_name (cx_team_id c) (cx_job_id c) n = gr_session_id gr \<and>
      token_hash tok = token_hash (gr_token gr) \<and> c = gr_context gr"
    if tok: "split_token tok = Inr (team, job, n, x)" "authenticate jt token_hash tok t = (u, Inr c)" for tok u c n x
  proof -
    from tok(2) locked obtain y where "map_of [(session_name team job nonce, session)] (session_name team job n) = Some y"
      "ss_token_hash y = token_hash tok" "ss_context y = c"
      unfolding authenticate_Inr tok(1) by auto
    then have "session_name team job n = session_name team job nonce" "y = session" by (auto split: if_splits)
    with \<open>ss_token_hash y = _\<close> \<open>ss_context y = c\<close> 1 show ?thesis by auto
  qed
  ultimately show ?thesis using 1 by auto
qed

end
