(* ===== verification/JobScenarios.thy ===== *)
theory JobScenarios
  imports JobQueue
begin

text \<open>
  The job files run on concrete records: a team with a job that waits and one whose worker is gone.
  The text format is a small one that loads what it dumps, as YAML does for the data of a record. Each
  scenario discharges the hypotheses of one property of jobs.
\<close>

section \<open>A text format\<close>

text \<open>Data in postfix form: a reader keeps the values it has read on a stack.\<close>

definition unary :: "int \<Rightarrow> string" where
  "unary i = CHR ''z'' # replicate (nat i) CHR ''u'' @ replicate (nat (- i)) CHR ''d''"

fun written :: "json \<Rightarrow> string" where
  "written JNull = ''n''"
| "written (JBool b) = (if b then ''t'' else ''f'')"
| "written (JInt i) = unary i"
| "written (JFloat x) = (case x of
     Finite q \<Rightarrow> unary (fst (quotient_of q)) @ unary (snd (quotient_of q)) @ ''r''
   | PosInf \<Rightarrow> ''P'' | NegInf \<Rightarrow> ''M'' | NaN \<Rightarrow> ''N'')"
| "written (JStr s) = CHR ''e'' # concat (map (\<lambda>c. [CHR ''c'', c]) s)"
| "written (JList xs) = CHR ''l'' # concat (map (\<lambda>x. written x @ ''a'') xs)"
| "written (JObj d) = CHR ''o'' # concat (map (\<lambda>(k, v).
     CHR ''e'' # concat (map (\<lambda>c. [CHR ''c'', c]) k) @ written v @ ''k'') d)"

definition push1 :: "char \<Rightarrow> json list \<Rightarrow> json list" where
  "push1 c st =
     (if c = CHR ''n'' then JNull # st else if c = CHR ''t'' then JBool True # st
      else if c = CHR ''f'' then JBool False # st else if c = CHR ''z'' then JInt 0 # st
      else if c = CHR ''P'' then JFloat PosInf # st else if c = CHR ''M'' then JFloat NegInf # st
      else if c = CHR ''N'' then JFloat NaN # st else if c = CHR ''e'' then JStr [] # st
      else if c = CHR ''l'' then JList [] # st else if c = CHR ''o'' then JObj [] # st
      else if c = CHR ''u'' then (case st of JInt i # st' \<Rightarrow> JInt (i + 1) # st' | _ \<Rightarrow> st)
      else if c = CHR ''d'' then (case st of JInt i # st' \<Rightarrow> JInt (i - 1) # st' | _ \<Rightarrow> st)
      else if c = CHR ''r'' then
        (case st of JInt b # JInt a # st' \<Rightarrow> JFloat (Finite (of_int a / of_int b)) # st' | _ \<Rightarrow> st)
      else if c = CHR ''a'' then (case st of v # JList xs # st' \<Rightarrow> JList (xs @ [v]) # st' | _ \<Rightarrow> st)
      else if c = CHR ''k'' then
        (case st of v # JStr k # JObj d # st' \<Rightarrow> JObj (d @ [(k, v)]) # st' | _ \<Rightarrow> st)
      else st)"

fun loaded :: "string \<Rightarrow> json list \<Rightarrow> json option" where
  "loaded [] st = (case st of [j] \<Rightarrow> Some j | _ \<Rightarrow> None)"
| "loaded [c] st = loaded [] (push1 c st)"
| "loaded (c # d # cs) st =
     (if c = CHR ''c'' then (case st of JStr s # st' \<Rightarrow> loaded cs (JStr (s @ [d]) # st') | _ \<Rightarrow> None)
      else loaded (d # cs) (push1 c st))"

lemma loaded_Cons: "c \<noteq> CHR ''c'' \<Longrightarrow> loaded (c # cs) st = loaded cs (push1 c st)"
  by (cases cs) simp_all

lemma loaded_char [simp]: "loaded (CHR ''c'' # d # cs) (JStr s # st) = loaded cs (JStr (s @ [d]) # st)"
  by simp

lemma loaded_chars: "loaded (concat (map (\<lambda>c. [CHR ''c'', c]) s) @ rest) (JStr t # st) = loaded rest (JStr (t @ s) # st)"
  by (induction s arbitrary: t) simp_all

lemma loaded_steps: "loaded (replicate n CHR ''u'' @ rest) (JInt i # st) = loaded rest (JInt (i + int n) # st)"
    "loaded (replicate n CHR ''d'' @ rest) (JInt i # st) = loaded rest (JInt (i - int n) # st)"
  by (induction n arbitrary: i) (simp_all add: loaded_Cons push1_def algebra_simps)

lemma loaded_unary: "loaded (unary i @ rest) st = loaded rest (JInt i # st)"
  by (simp add: unary_def loaded_Cons push1_def loaded_steps)

lemma loaded_items:
  "(\<And>x rest st. x \<in> set xs \<Longrightarrow> loaded (written x @ rest) st = loaded rest (x # st)) \<Longrightarrow>
     loaded (concat (map (\<lambda>x. written x @ ''a'') xs) @ rest) (JList ys # st) = loaded rest (JList (ys @ xs) # st)"
  by (induction xs arbitrary: ys) (simp_all add: loaded_Cons push1_def)

lemma loaded_fields:
  "(\<And>k v rest st. (k, v) \<in> set d \<Longrightarrow> loaded (written v @ rest) st = loaded rest (v # st)) \<Longrightarrow>
     loaded (concat (map (\<lambda>(k, v). CHR ''e'' # concat (map (\<lambda>c. [CHR ''c'', c]) k) @ written v @ ''k'') d) @ rest)
       (JObj e # st) = loaded rest (JObj (e @ d) # st)"
proof (induction d arbitrary: e)
  case (Cons p d)
  obtain k v where p: "p = (k, v)" by (cases p)
  have v: "loaded (written v @ rest) st = loaded rest (v # st)" for rest st
    by (rule Cons.prems [of k]) (simp add: p)
  have "loaded (concat (map (\<lambda>(k, v). CHR ''e'' # concat (map (\<lambda>c. [CHR ''c'', c]) k) @ written v @ ''k'') d) @ rest)
       (JObj e # st) = loaded rest (JObj (e @ d) # st)" for e
    by (rule Cons.IH) (auto intro: Cons.prems)
  then show ?case by (simp add: p v loaded_Cons push1_def loaded_chars)
qed simp

lemma loaded_written: "loaded (written j @ rest) st = loaded rest (j # st)"
proof (induction j arbitrary: rest st)
  case (JFloat x)
  have "of_int (fst (quotient_of q)) / of_int (snd (quotient_of q)) = q" for q
    using quotient_of_div [of q] by (cases "quotient_of q") simp
  then show ?case by (cases x) (simp_all add: loaded_unary loaded_Cons push1_def)
next
  case (JList xs)
  then show ?case by (simp add: loaded_Cons push1_def loaded_items)
next
  case (JObj d)
  have "loaded (written v @ rest) st = loaded rest (v # st)" if "(k, v) \<in> set d" for k v rest st
    using JObj.IH [OF that] by simp
  then show ?case by (simp add: loaded_Cons push1_def loaded_fields [simplified])
qed (simp_all add: loaded_Cons push1_def loaded_unary loaded_chars)

section \<open>A team's jobs\<close>

definition example_tools :: job_tools where
  "example_tools = \<lparr>jt_dump = written, jt_load = \<lambda>s. loaded s [], jt_sha = \<lambda>_. replicate 64 CHR ''0'',
     jt_ids = demo_ids\<rparr>"

lemma example_faithful: "faithful_files example_tools"
  using loaded_written [where rest = "[]" and st = "[]"]
  by (simp add: faithful_files_def example_tools_def demo_ids_def)

definition example_spec :: "string \<Rightarrow> job_spec" where
  "example_spec job = \<lparr>sp_schema_version = 6, sp_job_id = job, sp_config_path = JStr ''flowgency.yaml'',
     sp_config_revision = ''r1'', sp_team_key = ''t'', sp_workspace_root = ''/ws'', sp_team_root = ''/team'',
     sp_agent_name = ''ann'', sp_trigger = ''manual_prompt'', sp_integration_name = ''local'',
     sp_integration_config = [], sp_blueprint = \<lparr>bp_key = JStr ''b'', bp_source_digest = JNull,
       bp_integration = JNull, bp_projector_version = JInt 1, bp_cache_path = JNull, bp_instance_digest = JStr []\<rparr>,
     sp_routine_id = JNull, sp_skill = JNull, sp_skill_arguments = [], sp_task_input = ''work'',
     sp_runtime_policy = \<lparr>ry_timeout = JInt 60, ry_mode = JStr ''unrestricted'', ry_rules = []\<rparr>,
     sp_memory = \<lparr>mb_selector = JNull, mb_canonical_json = JNull, mb_memory_hash = JNull, mb_path = JNull\<rparr>,
     sp_trigger_context = JNull, sp_prompt_source = JObj [(''type'', JStr ''manual'')],
     sp_timeout_override = JNull, sp_created_at = Some ''2026-01-01'', sp_private_prompts = [],
     sp_writable_agents = None, sp_ticket_target = None\<rparr>"

definition example_queued :: "string \<Rightarrow> job_record" where
  "example_queued job = projr (new_record example_tools (example_spec job) (Some job))"

definition example_running :: "string \<Rightarrow> job_record" where
  "example_running job = (example_queued job)\<lparr>jr_status := Running, jr_worker_pid := Some 7\<rparr>"

lemma example_valid: "strip job \<noteq> [] \<Longrightarrow> validate_spec (example_spec job) = Inr ()"
proof -
  have "strip ''t'' \<noteq> []" "strip ''ann'' \<noteq> []" "strip ''work'' \<noteq> []" by code_simp+
  then show "strip job \<noteq> [] \<Longrightarrow> validate_spec (example_spec job) = Inr ()"
    by (simp add: validate_spec_def validate_trigger_contract_def example_spec_def VALID_TRIGGERS_def)
qed

lemma example_record:
  assumes "strip job \<noteq> []"
  shows "example_queued job = \<lparr>jr_spec = example_spec job, jr_authority_digest = replicate 64 CHR ''0'', jr_status = Queued,
          jr_worker_pid = None, jr_started_at = None, jr_completed_at = None, jr_stdout_path = JNull,
          jr_stderr_path = JNull, jr_exit_code = JNull, jr_duration_seconds = JNull,
          jr_changed_files = JList [], jr_execution_summary = None, jr_base_sha = JNull,
          jr_memory_publication = JNull, jr_result_metadata = JNull, jr_session_id = None,
          jr_copilot_home = JNull, jr_due_at = Some job, jr_launched_at = None\<rparr>"
  using example_valid [OF assms] by (simp add: example_queued_def new_record_def immutable_digest_def example_tools_def)

lemma example_sound:
  assumes "strip job \<noteq> []"
  shows "sound_record example_tools (example_queued job)" "sound_record example_tools (example_running job)"
  using example_valid [OF assms] example_record [OF assms]
  by (simp_all add: sound_record_def sound_spec_def example_running_def immutable_digest_def)
    (simp_all add: example_tools_def example_spec_def)

theorem record_roundtrip_witness:
  "record_of_json example_tools (record_json (example_running ''j1'')) = Inr (example_running ''j1'')"
proof -
  have "strip ''j1'' \<noteq> []" by code_simp
  from example_sound(2) [OF this] show ?thesis
    by (intro record_roundtrip) (simp_all add: sound_record_def)
qed

text \<open>Two jobs: \<open>j1\<close> waits, and the worker of \<open>j2\<close> is gone.\<close>

definition example_jobs :: job_area where
  "example_jobs = stored example_tools (''t'', ''j2'') (example_running ''j2'')
     (stored example_tools (''t'', ''j1'') (example_queued ''j1'')
       \<lparr>ja_files = [], ja_readonly = [], ja_escapes = []\<rparr>)"

lemma example_names: "strip ''j1'' \<noteq> []" "strip ''j2'' \<noteq> []"
  by code_simp+

lemma example_read:
  "read_job example_tools example_jobs k None =
     (if k = (''t'', ''j2'') then Inr (example_running ''j2'')
      else if k = (''t'', ''j1'') then Inr (example_queued ''j1'') else Inl (PyError ''FileNotFoundError''))"
  using example_sound [OF example_names(1)] example_sound [OF example_names(2)]
  by (simp add: example_jobs_def read_stored [OF example_faithful]) (simp add: read_job_def job_file_at_def)

lemma example_keys: "keys (ja_files example_jobs) = [(''t'', ''j1''), (''t'', ''j2'')]"
  by (simp add: example_jobs_def stored_def)

lemma example_fields:
  "jr_status (example_queued ''j1'') = Queued" "jr_spec (example_queued ''j1'') = example_spec ''j1''"
  "jr_worker_pid (example_queued ''j1'') = None" "jr_launched_at (example_queued ''j1'') = None"
  "jr_authority_digest (example_queued ''j1'') = replicate 64 CHR ''0''"
  "jr_status (example_running ''j2'') = Running" "jr_spec (example_running ''j2'') = example_spec ''j2''"
  "jr_worker_pid (example_running ''j2'') = Some 7"
  "sp_job_id (example_spec job) = job" "sp_team_key (example_spec job) = ''t''"
  by (simp_all add: example_running_def example_record [OF example_names(1)] example_record [OF example_names(2)] example_spec_def)

lemma example_well_named: "well_named example_tools example_jobs"
  by (simp add: well_named_def example_keys example_read example_fields)

definition example_host :: pool_env where
  "example_host = \<lparr>pe_alive = \<lambda>p. Some (p \<noteq> 7), pe_now = 0, pe_parse = \<lambda>_. Some 0\<rparr>"

definition example_sweep :: sweep where
  "example_sweep = \<lparr>sw_pool = example_host, sw_stamp = ''now'', sw_root = ''/jobs'', sw_blocked = Some [],
     sw_targets = \<lambda>_. [], sw_cleanup = \<lambda>_ _. Inr ([], [])\<rparr>"

definition example_launch :: launch_env where
  "example_launch = \<lparr>la_root = ''/jobs'', la_launch = \<lambda>_. Launched (Some 8) [(Queued, Running, \<lambda>r. r\<lparr>jr_started_at := Some ''now''\<rparr>)],
     la_stamp = ''now'', la_hosts = \<lambda>_. example_host\<rparr>"

lemma example_proper: "proper_launcher example_launch"
  by (simp add: proper_launcher_def example_launch_def run_fields_def)


lemma example_paths: "job_paths example_jobs ''t'' = [(''t'', ''j1''), (''t'', ''j2'')]"
proof -
  have "sort_key (\<lambda>k. snd k @ ''.yaml'') [(''t'', ''j1''), (''t'', ''j2'')] = [(''t'', ''j1''), (''t'', ''j2'')]"
    by code_simp
  then show ?thesis by (simp add: job_paths_def example_keys)
qed

lemma example_team: "is_team_id ''t''" "sort [''t''] = [''t'']"
  by code_simp+

text \<open>The sweep over both jobs: \<open>j2\<close> fails.\<close>

definition example_swept :: job_record where
  "example_swept = (example_running ''j2'')\<lparr>jr_status := Failed, jr_completed_at := Some ''now'',
     jr_execution_summary := Some ''Worker process (PID 7) was not found.''\<rparr>"

definition example_after :: job_area where
  "example_after = stored example_tools (''t'', ''j2'') example_swept example_jobs"

lemma example_swept_sound: "sound_record example_tools example_swept"
  using example_sound(2) [OF example_names(2)] by (simp add: sound_record_def example_swept_def)

lemma example_reconciled:
  "reconcile_jobs example_tools example_sweep (Some SLOT_STATUSES) [''t''] example_jobs = (example_after, Inr (1, 0))"
proof -
  have wr: "write_job example_tools (''t'', ''j2'') example_swept example_jobs = (example_after, Inr ())"
    unfolding write_job_Inr using example_swept_sound
    by (simp add: sound_record_def example_after_def example_jobs_def stored_def)
  have pid: "pid_text (Some 7) = ''7''" by code_simp
  have ref: "reference ''/jobs'' example_jobs ''t'' ''j2'' (replicate 64 CHR ''0'') =
      Inr \<lparr>au_root = ''/jobs'', au_team_id = ''t'', au_job_id = ''j2'', au_immutable_digest = replicate 64 CHR ''0''\<rparr>"
  proof -
    have "is_job_id ''j2''" "full_digest (replicate 64 CHR ''0'')" by code_simp+
    then show ?thesis using example_team by (simp add: reference_def job_path_def example_jobs_def stored_def)
  qed
  have "jr_authority_digest (example_running ''j2'') = replicate 64 CHR ''0''"
    by (simp add: example_running_def example_record [OF example_names(2)])
  then have dead: "record_dead_worker example_tools example_sweep (''t'', ''j2'') (example_running ''j2'') example_jobs = (example_jobs, Inr ())"
    by (simp add: record_dead_worker_def example_fields example_sweep_def ref)
  have tr: "transition_job example_tools (''t'', ''j2'') Running Failed
      (\<lambda>x. x\<lparr>jr_completed_at := Some ''now'', jr_execution_summary := Some ''Worker process (PID 7) was not found.''\<rparr>)
      example_jobs = (example_after, Inr example_swept)"
    using wr by (simp add: transition_job_def update_job_def example_read example_fields bindS_def example_swept_def)
  have "reconcile_one example_tools example_sweep (Some SLOT_STATUSES) ''t'' (''t'', ''j2'') example_jobs = (example_after, Inr (1, 0))"
    using dead tr
    by (simp add: reconcile_one_def example_read example_fields SLOT_STATUSES_def example_sweep_def worker_alive_def example_host_def
        bindS_def unless_moved_def pid)
  moreover have "reconcile_one example_tools example_sweep (Some SLOT_STATUSES) ''t'' (''t'', ''j1'') example_jobs = (example_jobs, Inr (0, 0))"
    by (simp add: reconcile_one_def example_read example_fields SLOT_STATUSES_def)
  moreover have "read_records example_tools example_jobs (job_paths example_jobs ''t'') =
      Inr [((''t'', ''j1''), example_queued ''j1''), ((''t'', ''j2''), example_running ''j2'')]"
    by (simp add: example_paths example_read)
  ultimately show ?thesis using example_team by (simp add: bindS_def)
qed


lemma example_after_read:
  "read_job example_tools example_after k None =
     (if k = (''t'', ''j2'') then Inr example_swept
      else if k = (''t'', ''j1'') then Inr (example_queued ''j1'') else Inl (PyError ''FileNotFoundError''))"
  by (simp add: example_after_def read_stored [OF example_faithful example_swept_sound] example_read)

lemma example_after_keys: "keys (ja_files example_after) = [(''t'', ''j1''), (''t'', ''j2'')]"
  using example_keys update_keys [of "(''t'', ''j2'')" "ja_files example_jobs"] by (simp add: example_after_def stored_def)

text \<open>One slot: the drain finds it free after the sweep and starts \<open>j1\<close>.\<close>

definition example_entry :: queue_entry where
  "example_entry = \<lparr>qe_team_id = ''t'', qe_record = example_queued ''j1'', qe_path = (''t'', ''j1'')\<rparr>"

lemma example_snapshot:
  "queue_snapshot example_tools example_host [''t''] 1 example_after = Inr \<lparr>qv_running = 0, qv_waiting = [example_entry], qv_pool = 1\<rparr>"
proof -
  have "job_paths example_after ''t'' = [(''t'', ''j1''), (''t'', ''j2'')]"
    using example_paths example_keys example_after_keys by (simp add: job_paths_def)
  then have "job_entries example_tools example_after [''t''] = Inr [example_entry,
      \<lparr>qe_team_id = ''t'', qe_record = example_swept, qe_path = (''t'', ''j2'')\<rparr>]"
    using example_team by (simp add: job_entries_def example_after_read example_entry_def)
  then show ?thesis
    by (simp add: queue_snapshot_def example_entry_def occupies_slot_def is_launchable_def is_launched_def example_fields
        example_swept_def)
qed

lemma example_slots: "slots example_tools example_host [''t''] example_after = 0"
  by (simp add: slots_def example_after_keys takes_slot_def example_after_read occupies_slot_def is_launched_def example_fields
      example_swept_def)

lemma example_area: "ja_escapes example_after = []" "ja_readonly example_after = []"
  by (simp_all add: example_after_def example_jobs_def stored_def)

lemma example_startable: "startable example_tools example_launch example_after example_entry"
proof -
  have "is_job_id ''j1''" "full_digest (replicate 64 CHR ''0'')" by code_simp+
  then have "reference ''/jobs'' example_after ''t'' ''j1'' (replicate 64 CHR ''0'') = Inr
      \<lparr>au_root = ''/jobs'', au_team_id = ''t'', au_job_id = ''j1'', au_immutable_digest = replicate 64 CHR ''0''\<rparr>"
    using example_team by (simp add: reference_def job_path_def example_area)
  then show ?thesis
    by (simp add: startable_def example_entry_def example_after_read example_fields is_launchable_def is_launched_def
        example_launch_def example_area)
qed

theorem drain_starts_oldest_witness:
  "\<exists>t r'. drain example_tools True example_sweep False example_host example_launch [''t''] 1 example_jobs = (t, Inr 1) \<and>
     read_job example_tools t (''t'', ''j1'') None = Inr r' \<and> taken r'"
proof -
  let ?v = "\<lparr>qv_running = 0, qv_waiting = [example_entry], qv_pool = 1\<rparr>"
  have rec: "reconcile_jobs example_tools example_sweep (if False then None else Some SLOT_STATUSES) [''t'']
      example_jobs = (example_after, Inr (1, 0))" using example_reconciled by (simp only: if_False)
  have one: "nat (1 - int (slots example_tools example_host [''t''] example_after)) = 1"
    by (simp add: example_slots)
  have ready: "\<forall>x\<in>set (take (nat (1 - int (slots example_tools example_host [''t''] example_after))) (qv_waiting ?v)).
      startable example_tools example_launch example_after x"
    unfolding one by (simp add: example_startable)
  have "distinct [''t'']" by simp
  from drain_starts_oldest [OF example_faithful example_proper example_well_named this rec example_snapshot ready]
  obtain t where "drain example_tools True example_sweep False example_host example_launch [''t''] 1 example_jobs = (t, Inr 1)"
    "\<exists>r'. read_job example_tools t (qe_path example_entry) None = Inr r' \<and> taken r'"
    unfolding one by auto
  then show ?thesis by (auto simp: example_entry_def)
qed

theorem drain_within_pool_witness:
  "\<exists>t. drain example_tools True example_sweep False example_host example_launch [''t''] 1 example_jobs = (t, Inr 1) \<and>
     slots example_tools example_host [''t''] t \<le> 1"
proof -
  have "trusted example_tools example_launch example_after"
    using example_well_named
    by (simp add: trusted_def example_faithful example_proper well_named_def example_after_keys example_after_read
        example_swept_def example_fields)
  moreover have "entry_named example_entry" by (simp add: entry_named_def example_entry_def)
  ultimately obtain t r' where "start_job example_tools example_launch example_entry example_after = (t, Inr True)"
    using start_job_starts [OF _ _ example_startable] by blast
  then have t: "drain example_tools True example_sweep False example_host example_launch [''t''] 1 example_jobs = (t, Inr 1)"
    using example_reconciled example_snapshot by (simp add: drain_def bindS_def del: reconcile_jobs.simps)
  have "slots example_tools example_host [''t''] example_jobs = 1"
    by (simp add: slots_def example_keys takes_slot_def example_read occupies_slot_def is_launched_def example_fields)
  with drain_within_pool [OF example_faithful example_proper example_well_named _ t] t show ?thesis by simp
qed

end
