(* ===== verification/DispatchScenarios.thy ===== *)
theory DispatchScenarios
  imports Dispatch TicketAccess JobScenarios
begin

text \<open>
  Submission and dispatch run on concrete routines: a routine due every hour and one due at a clock
  time, with the job files and the text format of \<^verbatim>\<open>JobScenarios\<close>; and a session of a running job.
\<close>

section \<open>Submission\<close>

text \<open>Another drainer holds the queue, so the job waits.\<close>

definition example_attempt :: "string \<Rightarrow> attempt" where
  "example_attempt job = \<lparr>at_resolved = Inr (example_spec job), at_pin = \<lambda>_. Inr (), at_lock_free = False,
     at_sweep = example_sweep, at_host = example_host, at_launch = example_launch, at_teams = [''t''], at_pool = 1\<rparr>"

definition example_handle :: "string \<Rightarrow> job_handle" where
  "example_handle job = \<lparr>jh_job_id = job, jh_status = Queued, jh_path = (''t'', job), jh_worker_pid = None\<rparr>"

lemma example_proper_attempt: "proper_attempt example_tools (example_attempt job)"
  using example_proper by (simp add: proper_attempt_def example_attempt_def example_spec_def)

lemma example_submit:
  assumes "strip job \<noteq> []" "is_job_id job" "ja_escapes ja = []" "ja_readonly ja = []"
    and "job_file_at ja (''t'', job) = None"
  shows "submit_job_request example_tools ''/jobs'' (Some job) (\<lambda>_. example_attempt job) ja =
    (stored example_tools (''t'', job) (example_queued job) ja, Inr (example_handle job))"
proof -
  let ?k = "(''t'', job)"
  note fields0 = example_record [OF assms(1)]
  note sound = example_sound(1) [OF assms(1)]
  have new: "new_record example_tools (example_spec job) (Some job) = Inr (example_queued job)"
    using example_valid [OF assms(1)] by (simp add: example_queued_def new_record_def)
  have "full_digest (replicate 64 CHR ''0'')" by code_simp
  then have ref: "reference ''/jobs'' ja ''t'' job (replicate 64 CHR ''0'') = Inr \<lparr>au_root = ''/jobs'',
      au_team_id = ''t'', au_job_id = job, au_immutable_digest = replicate 64 CHR ''0''\<rparr>"
    using assms(2,3) example_team by (simp add: reference_def job_path_def)
  have wr: "write_job example_tools ?k (example_queued job) ja =
      (stored example_tools ?k (example_queued job) ja, Inr ())"
    unfolding write_job_Inr using sound assms(4) by (simp add: sound_record_def)
  have fields: "jr_spec (example_queued job) = example_spec job" "jr_status (example_queued job) = Queued"
    "jr_authority_digest (example_queued job) = replicate 64 CHR ''0''" "jr_worker_pid (example_queued job) = None"
    by (simp_all add: fields0)
  have cr: "create_job example_tools ''/jobs'' (example_queued job) ja =
      (stored example_tools ?k (example_queued job) ja, Inr \<lparr>au_root = ''/jobs'', au_team_id = ''t'', au_job_id = job,
         au_immutable_digest = replicate 64 CHR ''0''\<rparr>)"
    using wr ref assms(5) by (simp add: create_job_def Let_def fields example_fields bindS_def)
  have "submit_resolved example_tools ''/jobs'' (\<lambda>_. Inr ()) (example_spec job) (Some job) ja =
      (stored example_tools ?k (example_queued job) ja, Inr (example_handle job))"
    using example_valid [OF assms(1)] new ref cr
    by (simp add: submit_resolved_def fields example_fields example_handle_def)
  moreover have "settle example_tools (example_handle job) (stored example_tools ?k (example_queued job) ja) =
      (stored example_tools ?k (example_queued job) ja, Inr (example_handle job))"
    by (simp add: settle_def example_handle_def read_stored [OF example_faithful sound] fields)
  moreover have "map (\<lambda>_. example_attempt job) [0..<3] = [example_attempt job, example_attempt job, example_attempt job]"
    by (simp add: upt_rec eval_nat_numeral)
  ultimately show ?thesis
    by (simp add: submit_job_request_def bindS_def attempt_drain_def drain_def example_attempt_def tryS_def)
qed

theorem submission_settled_witness:
  "\<exists>t r. submit_job_request example_tools ''/jobs'' (Some ''j3'') (\<lambda>_. example_attempt ''j3'') example_jobs =
      (t, Inr (example_handle ''j3'')) \<and>
     read_job example_tools t (''t'', ''j3'') None = Inr r \<and> jr_spec r = example_spec ''j3'' \<and> jr_status r = Queued"
proof -
  have "strip ''j3'' \<noteq> []" "is_job_id ''j3''" by code_simp+
  then obtain t where t: "submit_job_request example_tools ''/jobs'' (Some ''j3'') (\<lambda>_. example_attempt ''j3'') example_jobs =
      (t, Inr (example_handle ''j3''))"
    using example_submit [of "''j3''" example_jobs] by (simp add: example_jobs_def stored_def job_file_at_def)
  from submission_settled [OF example_faithful example_well_named _ t] example_proper_attempt
  obtain r where "read_job example_tools t (''t'', ''j3'') None = Inr r" "jr_spec r = example_spec ''j3''" "jr_status r = Queued"
    by (auto simp: example_attempt_def example_handle_def)
  with t show ?thesis by blast
qed

section \<open>Occurrences\<close>

theorem newest_occurrence_witness:
  "last_at_occurrence ''9:30'' (10 * DAY) = Some (9 * DAY + 570 * MINUTE) \<and> 10 * DAY < 9 * DAY + 570 * MINUTE + DAY \<and>
   last_every_occurrence 0 ''1h'' (150 * MINUTE) = Inr (Some (120 * MINUTE)) \<and> 150 * MINUTE < 120 * MINUTE + 60 * MINUTE"
proof -
  have a: "last_at_occurrence ''9:30'' (10 * DAY) = Some (9 * DAY + 570 * MINUTE)" by code_simp
  have e: "last_every_occurrence 0 ''1h'' (150 * MINUTE) = Inr (Some (120 * MINUTE))" by code_simp
  have p: "parse_every (Some ''1h'') = Inr (Some (60 * MINUTE))" by code_simp
  from newest_occurrence [of "''9:30''" "10 * DAY" "9 * DAY + 570 * MINUTE" 0 "''1h''" 0]
  have "10 * DAY < 9 * DAY + 570 * MINUTE + DAY" using a by simp
  moreover from newest_occurrence [of "''9:30''" "150 * MINUTE" 0 0 "''1h''" "120 * MINUTE"]
  have "150 * MINUTE < 120 * MINUTE + 60 * MINUTE" using e p by auto
  ultimately show ?thesis using a e by blast
qed

definition example_failed :: "string \<Rightarrow> bool \<Rightarrow> job_record" where
  "example_failed due launched = (example_queued ''j1'')\<lparr>
     jr_spec := (example_spec ''j1'')\<lparr>sp_trigger := ''scheduled_prompt'', sp_routine_id := JStr ''r''\<rparr>,
     jr_status := Failed, jr_due_at := Some due, jr_launched_at := (if launched then Some ''now'' else None)\<rparr>"

definition example_parse :: "string \<Rightarrow> time option" where
  "example_parse s = (if s = ''d0'' then Some 0 else if s = ''d1'' then Some (60 * MINUTE) else None)"

theorem lost_occurrences_iff_witness:
  "\<exists>d. lost_occurrences example_parse [example_failed ''d0'' True, example_failed ''d1'' False] = Inr d \<and>
     map_of d (''ann'', JStr ''r'') = Some (60 * MINUTE)"
proof -
  let ?rs = "[example_failed ''d0'' True, example_failed ''d1'' False]" and ?k = "(''ann'', JStr ''r'')"
  have spec: "sp_agent_name (example_spec ''j1'') = ''ann''" by (simp add: example_spec_def)
  have served: "scheduled_occurrence example_parse (example_failed ''d0'' True) = Inr (Some (?k, 0))"
    and lost: "scheduled_occurrence example_parse (example_failed ''d1'' False) = Inr (Some (?k, 60 * MINUTE))"
    by (simp_all add: scheduled_occurrence_def example_failed_def occurrence_of_def example_parse_def spec)
  have kinds: "recoverable_pre_runtime_failure (example_failed ''d1'' False)"
    "\<not> recoverable_pre_runtime_failure (example_failed ''d0'' True)"
    by (simp_all add: recoverable_pre_runtime_failure_def example_failed_def is_launched_def example_fields
        example_record [OF example_names(1)])
  have "isOk (lost_occurrences example_parse ?rs)"
    by (simp add: lost_occurrences_def served lost kinds)
  then obtain d where d: "lost_occurrences example_parse ?rs = Inr d" by (auto simp: isOk_iff)
  from lost_occurrences_iff [OF d, of ?k "60 * MINUTE"] have "map_of d ?k = Some (60 * MINUTE)"
    using served lost kinds by auto
  with d show ?thesis by blast
qed

section \<open>Two submissions\<close>

definition example_routine :: routine where
  "example_routine = \<lparr>ro_id = ''r'', ro_schedule = \<lparr>sr_at = None, sr_every = Some ''1h'', sr_catch_up = Some ''always''\<rparr>,
     ro_enabled = True, ro_condition = False\<rparr>"

definition example_clock :: "time \<Rightarrow> dispatch_env" where
  "example_clock now = \<lparr>de_now = \<lambda>_ _ _. now, de_today = \<lambda>_. now, de_stamp = \<lambda>t. t,
     de_iso = \<lambda>t. if t = 0 then ''d0'' else ''d1'', de_parse = example_parse, de_unwritable = [], de_root = ''/jobs'',
     de_attempts = \<lambda>rq _. example_attempt (rq_due_at rq)\<rparr>"

definition example_start :: dispatch_state where
  "example_start = \<lparr>ds_jobs = \<lparr>ja_files = [], ja_readonly = [], ja_escapes = []\<rparr>, ds_markers = [], ds_log = []\<rparr>"

definition example_submission :: "time \<Rightarrow> submission" where
  "example_submission t = \<lparr>su_logs = ''logs'', su_agent = ''ann'', su_routine = example_routine,
     su_occurrence = t, su_lost = None\<rparr>"

definition example_looked :: "time \<Rightarrow> dispatch_state \<Rightarrow> dispatch_state \<times> (ticket_error + unit)" where
  "example_looked now = dispatch_routine example_tools (example_clock now) 15 [] ''t'' ''logs'' ''ann'' example_routine"

definition example_first :: dispatch_state where
  "example_first = \<lparr>ds_jobs = stored example_tools (''t'', ''d0'') (example_queued ''d0'')
       \<lparr>ja_files = [], ja_readonly = [], ja_escapes = []\<rparr>,
     ds_markers = [(every_marker_path ''logs'' ''ann'' ''r'', 0)], ds_log = [example_submission 0]\<rparr>"

lemma example_rule:
  "parse_every (Some ''1h'') = Inr (Some (60 * MINUTE))" "parse_catch_up (Some ''always'') = Inr (Some CatchAlways)"
  "last_every_occurrence 0 ''1h'' (60 * MINUTE) = Inr (Some (60 * MINUTE))"
  "strip ''d0'' \<noteq> []" "is_job_id ''d0''" "strip ''d1'' \<noteq> []" "is_job_id ''d1''"
  by code_simp+

lemma example_look_first: "example_looked 0 example_start = (example_first, Inr ())"
  using example_submit [of "''d0''" "\<lparr>ja_files = [], ja_readonly = [], ja_escapes = []\<rparr>"] example_rule
  by (simp add: example_looked_def dispatch_routine_def example_routine_def example_clock_def example_start_def
      example_first_def due_occurrence_def Let_def catch_up_allows_def on_jobs_def job_file_at_def
      example_submission_def)

lemma example_look_second:
  "\<exists>t. example_looked (60 * MINUTE) example_first = (t, Inr ()) \<and>
     ds_log t = [example_submission 0, example_submission (60 * MINUTE)]"
  using example_submit [of "''d1''" "ds_jobs example_first"] example_rule
  by (simp add: example_looked_def dispatch_routine_def example_routine_def example_clock_def
      example_first_def due_occurrence_def Let_def catch_up_allows_def on_jobs_def job_file_at_def stored_def
      example_submission_def same_occurrence_def)


section \<open>A session\<close>

definition example_access :: access_area where
  "example_access = \<lparr>aa_root = ''/jobs'', aa_jobs = example_jobs, aa_registries = [], aa_links = [], aa_readonly = []\<rparr>"

definition example_authority :: job_authority where
  "example_authority = \<lparr>au_root = ''/jobs'', au_team_id = ''t'', au_job_id = ''j2'',
     au_immutable_digest = replicate 64 CHR ''0''\<rparr>"

lemma read_job_digest_Some:
  "read_job jt ja k None = Inr r \<Longrightarrow> jr_authority_digest r = d \<Longrightarrow> read_job jt ja k (Some d) = Inr r"
  by (auto simp: read_job_def bindE_eq_Inr split: option.splits job_file.splits)

theorem open_supersedes_witness:
  "\<exists>t gr. open_session example_tools (\<lambda>x. x) ''n'' ''k'' example_authority example_access = (t, Inr gr) \<and>
     authenticate example_tools (\<lambda>x. x) (gr_token gr) t = (t, Inr (gr_context gr))"
proof -
  have "is_job_id ''j2''" "full_digest (replicate 64 CHR ''0'')" by code_simp+
  then have ref: "reference ''/jobs'' example_jobs ''t'' ''j2'' (replicate 64 CHR ''0'') = Inr example_authority"
    using example_team by (simp add: reference_def job_path_def example_authority_def example_jobs_def stored_def)
  have "jr_authority_digest (example_running ''j2'') = replicate 64 CHR ''0''"
    by (simp add: example_running_def example_record [OF example_names(2)])
  then have "read_job example_tools example_jobs (''t'', ''j2'') (Some (replicate 64 CHR ''0'')) = Inr (example_running ''j2'')"
    by (intro read_job_digest_Some) (simp_all add: example_read)
  then have read: "read_authority example_tools ''/jobs'' example_jobs example_authority = Inr (example_running ''j2'')"
    using ref by (simp add: read_authority_def example_authority_def)
  have names: "au_team_id example_authority = ''t''" "au_job_id example_authority = ''j2''"
    "au_root example_authority = ''/jobs''" "au_immutable_digest example_authority = replicate 64 CHR ''0''"
    by (simp_all add: example_authority_def)
  have trusted: "trusted_authority example_access example_authority = Inr example_authority"
    using ref by (simp add: trusted_authority_def example_access_def names)
  have running: "require_running example_tools example_access example_authority None = Inr (example_running ''j2'')"
    using read by (simp add: require_running_def example_access_def example_fields)
  have locked: "load_locked example_access example_authority =
      Inr ((''t'', ''j2''), \<lparr>sg_sessions = [], sg_original_targets = []\<rparr>)"
    using trusted example_team
    by (simp add: load_locked_def access_path_def load_registry_def names) (simp add: example_access_def)
  have saved: "save_registry (''t'', ''j2'') \<lparr>sg_sessions = [x], sg_original_targets = []\<rparr> example_access =
      (example_access\<lparr>aa_registries := [((''t'', ''j2''), Registry \<lparr>sg_sessions = [x], sg_original_targets = []\<rparr>)]\<rparr>, Inr ())" for x
    by (simp add: save_registry_def example_access_def)
  obtain t gr where t: "open_session example_tools (\<lambda>x. x) ''n'' ''k'' example_authority example_access = (t, Inr gr)"
    by (simp add: open_session_def trusted running locked saved Let_def bindS_def)
  from open_supersedes [OF _ t] have "authenticate example_tools (\<lambda>x. x) (gr_token gr) t = (t, Inr (gr_context gr))"
    using example_well_named by (simp add: example_access_def)
  with t show ?thesis by blast
qed

end
