(* ===== verification/FileTree.thy ===== *)
theory FileTree
  imports TicketModels "HOL-Library.Sublist"
begin

text \<open>
  A directory tree, the calls of the operating system that change it, and how they fail. The program
  keeps agent memory in a tree of its own and journals its changes, so here every call is a step that may
  work, raise, or be the last one the process makes. A rule calculus on pre- and postconditions, with one
  postcondition for each way an operation ends, carries the proofs about such programs.

  This theory models \<^verbatim>\<open>os\<close>, \<^verbatim>\<open>shutil\<close> and \<^verbatim>\<open>pathlib\<close> as the program uses them, and
  \<^verbatim>\<open>flowgency/fs/atomic.py\<close>, whose write is one step that replaces a file or leaves it; the hidden temporary
  file that a process killed in it leaves behind is not modelled.
\<close>

section \<open>Trees\<close>

text \<open>A link knows whether its target exists; it is never followed.\<close>

datatype node = FileNode string | LinkNode bool | DirNode "(string \<times> node) list"

type_synonym path = "string list"

fun look :: "node \<Rightarrow> path \<Rightarrow> node option" where
  "look n [] = Some n"
| "look (DirNode es) (p # ps) = (case map_of es p of None \<Rightarrow> None | Some n \<Rightarrow> look n ps)"
| "look _ (p # ps) = None"

text \<open>Changing the node at a path.\<close>

fun alter :: "path \<Rightarrow> (node \<Rightarrow> node) \<Rightarrow> node \<Rightarrow> node" where
  "alter [] f n = f n"
| "alter (p # ps) f (DirNode es) = DirNode (map (\<lambda>(k, c). (k, if k = p then alter ps f c else c)) es)"
| "alter (p # ps) f n = n"

fun set_entry :: "string \<Rightarrow> node \<Rightarrow> node \<Rightarrow> node" where
  "set_entry n c (DirNode es) = DirNode (AList.update n c es)"
| "set_entry n c x = x"

fun drop_entry :: "string \<Rightarrow> node \<Rightarrow> node" where
  "drop_entry n (DirNode es) = DirNode (AList.delete n es)"
| "drop_entry n x = x"

text \<open>What a tree must offer to the clients below: what is found after a change.\<close>

locale tree_view =
  fixes find_at :: "'t \<Rightarrow> path \<Rightarrow> 'n option"
    and change :: "path \<Rightarrow> ('n \<Rightarrow> 'n) \<Rightarrow> 't \<Rightarrow> 't"
  assumes find_changed: "find_at (change d f t) d = map_option f (find_at t d)"
    and find_elsewhere: "d \<parallel> q \<Longrightarrow> find_at (change d f t) q = find_at t q"
begin

lemma change_twice:
  "d \<parallel> e \<Longrightarrow> find_at (change d f (change e g t)) d = map_option f (find_at t d)"
  "d \<parallel> e \<Longrightarrow> find_at (change d f (change e g t)) e = map_option g (find_at t e)"
  using find_changed find_elsewhere by (metis parallel_commute)+

lemma change_apart:
  "d \<parallel> q \<Longrightarrow> e \<parallel> q \<Longrightarrow> find_at (change d f (change e g t)) q = find_at t q"
  by (simp add: find_elsewhere)

end

lemma map_of_map_value: "map_of (map (\<lambda>(k, c). (k, h k c)) es) q = map_option (h q) (map_of es q)"
  by (induction es) auto

lemma look_append: "look t (d @ q) = Option.bind (look t d) (\<lambda>c. look c q)"
  by (induction t d rule: look.induct) (auto split: option.split)

lemma look_alter: "look (alter d f t) d = map_option f (look t d)"
proof (induction d f t rule: alter.induct)
  case (2 p ps f es)
  have "look (alter ps f c) ps = map_option f (look c ps)" if "map_of es p = Some c" for c
    using 2 map_of_SomeD [OF that] by blast
  then show ?case by (auto simp: map_of_map_value split: option.split)
qed auto

lemma look_alter_parallel: "d \<parallel> q \<Longrightarrow> look (alter d f t) q = look t q"
proof (induction d f t arbitrary: q rule: alter.induct)
  case (2 p ps f es)
  then obtain k ks where q: "q = k # ks" by (cases q) (auto simp: parallel_def)
  show ?case
  proof (cases "k = p")
    case True
    with 2 q have "ps \<parallel> ks" by (auto simp: parallel_def)
    with 2 have "look (alter ps f c) ks = look c ks" if "(p, c) \<in> set es" for c
      using that by blast
    then show ?thesis using q True by (auto simp: map_of_map_value split: option.split dest: map_of_SomeD)
  next
    case False
    then show ?thesis using q by (auto simp: map_of_map_value split: option.split)
  qed
qed auto

interpretation tree: tree_view look alter
  by unfold_locales (simp_all add: look_alter look_alter_parallel)

section \<open>Steps that may fail\<close>

text \<open>What ends an operation early: the process dies, or an exception is raised.\<close>

datatype failure = Killed | Failure ticket_error

text \<open>What happens to the next call of the operating system.\<close>

datatype hazard = Works | Breaks | Dies

text \<open>The tree below the root, and how many calls were made.\<close>

record disk =
  dk_root :: node
  dk_clock :: nat

type_synonym ('x, 'a) sys = "('x disk_scheme, failure, 'a) op"

abbreviation tick :: "'x disk_scheme \<Rightarrow> 'x disk_scheme" where
  "tick s \<equiv> s\<lparr>dk_clock := Suc (dk_clock s)\<rparr>"

definition syscall :: "(nat \<Rightarrow> hazard) \<Rightarrow> (node \<Rightarrow> ticket_error + node) \<Rightarrow> ('x, unit) sys" where
  "syscall hz f s = (case hz (dk_clock s) of
      Dies \<Rightarrow> (s, Inl Killed)
    | Breaks \<Rightarrow> (tick s, Inl (Failure (PyError ''OSError'')))
    | Works \<Rightarrow> (case f (dk_root s) of
        Inl e \<Rightarrow> (tick s, Inl (Failure e))
      | Inr r \<Rightarrow> ((tick s)\<lparr>dk_root := r\<rparr>, Inr ())))"

text \<open>A read raises or dies without a change.\<close>

definition sysread :: "(nat \<Rightarrow> hazard) \<Rightarrow> (node \<Rightarrow> ticket_error + 'a) \<Rightarrow> ('x, 'a) sys" where
  "sysread hz f s = (case hz (dk_clock s) of
      Dies \<Rightarrow> (s, Inl Killed)
    | Breaks \<Rightarrow> (tick s, Inl (Failure (PyError ''OSError'')))
    | Works \<Rightarrow> (tick s, mapErr Failure (f (dk_root s))))"

text \<open>\<open>try: m except Exception as e: h\<close>, and \<open>try: m finally: f\<close>. A killed process runs no handler.\<close>

definition catchS :: "('s, failure, 'a) op \<Rightarrow> (ticket_error \<Rightarrow> ('s, failure, 'a) op) \<Rightarrow> ('s, failure, 'a) op" where
  "catchS m h s = (case m s of (t, Inl (Failure e)) \<Rightarrow> h e t | out \<Rightarrow> out)"

definition finallyS :: "('s, failure, 'a) op \<Rightarrow> ('s, failure, unit) op \<Rightarrow> ('s, failure, 'a) op" where
  "finallyS m f s = (case m s of
      (t, Inl Killed) \<Rightarrow> (t, Inl Killed)
    | (t, out) \<Rightarrow> (case f t of (u, Inl e) \<Rightarrow> (u, Inl e) | (u, Inr _) \<Rightarrow> (u, out)))"

fun eachS :: "('a \<Rightarrow> ('s, 'e, unit) op) \<Rightarrow> 'a list \<Rightarrow> ('s, 'e, unit) op" where
  "eachS f [] = returnS ()"
| "eachS f (x # xs) = bindS (f x) (\<lambda>_. eachS f xs)"

definition whenS :: "('s \<Rightarrow> bool) \<Rightarrow> ('s, 'e, unit) op \<Rightarrow> ('s, 'e, unit) op" where
  "whenS c m s = (if c s then m s else (s, Inr ()))"

section \<open>Calls\<close>

text \<open>A path is the path of a directory with the name of an entry in it.\<close>

definition entries_at :: "node \<Rightarrow> path \<Rightarrow> (string \<times> node) list option" where
  "entries_at t d = (case look t d of Some (DirNode es) \<Rightarrow> Some es | _ \<Rightarrow> None)"

text \<open>\<open>exists()\<close> follows a link.\<close>

definition present :: "node option \<Rightarrow> bool" where
  "present c = (case c of None \<Rightarrow> False | Some (LinkNode b) \<Rightarrow> b | Some _ \<Rightarrow> True)"

definition is_directory :: "node option \<Rightarrow> bool" where
  "is_directory c = (case c of Some (DirNode _) \<Rightarrow> True | _ \<Rightarrow> False)"

definition call_error :: "string \<Rightarrow> ticket_error" where "call_error n = PyError n"

definition in_directory ::
  "path \<Rightarrow> ((string \<times> node) list \<Rightarrow> ticket_error option) \<Rightarrow> (node \<Rightarrow> node) \<Rightarrow> node \<Rightarrow> ticket_error + node" where
  "in_directory d check f t = (case entries_at t d of
      None \<Rightarrow> Inl (call_error ''FileNotFoundError'')
    | Some es \<Rightarrow> (case check es of Some e \<Rightarrow> Inl e | None \<Rightarrow> Inr (alter d f t)))"

definition make_dir :: "path \<Rightarrow> string \<Rightarrow> node \<Rightarrow> ticket_error + node" where
  "make_dir d n = in_directory d
     (\<lambda>es. if map_of es n = None then None else Some (call_error ''FileExistsError'')) (set_entry n (DirNode []))"

definition replace_file :: "path \<Rightarrow> string \<Rightarrow> string \<Rightarrow> node \<Rightarrow> ticket_error + node" where
  "replace_file d n b = in_directory d
     (\<lambda>es. if is_directory (map_of es n) then Some (call_error ''IsADirectoryError'') else None)
     (set_entry n (FileNode b))"

definition remove_file :: "path \<Rightarrow> string \<Rightarrow> node \<Rightarrow> ticket_error + node" where
  "remove_file d n = in_directory d
     (\<lambda>es. case map_of es n of
         None \<Rightarrow> Some (call_error ''FileNotFoundError'')
       | Some (DirNode _) \<Rightarrow> Some (call_error ''IsADirectoryError'')
       | Some _ \<Rightarrow> None) (drop_entry n)"

definition remove_dir :: "path \<Rightarrow> string \<Rightarrow> node \<Rightarrow> ticket_error + node" where
  "remove_dir d n = in_directory d
     (\<lambda>es. if map_of es n = Some (DirNode []) then None else Some (call_error ''OSError'')) (drop_entry n)"

text \<open>\<open>shutil.move\<close> of an entry to another directory of the same tree: a directory already there gets the
  entry inside, a file is replaced by a file, and a link is not followed.\<close>

definition move_entry :: "path \<Rightarrow> path \<Rightarrow> string \<Rightarrow> node \<Rightarrow> ticket_error + node" where
  "move_entry d e n t = (case (entries_at t d, entries_at t e) of
      (Some es, Some fs) \<Rightarrow> (case map_of es n of
          None \<Rightarrow> Inl (call_error ''FileNotFoundError'')
        | Some c \<Rightarrow> (case map_of fs n of
              None \<Rightarrow> Inr (alter e (set_entry n c) (alter d (drop_entry n) t))
            | Some (DirNode gs) \<Rightarrow>
                if map_of gs n \<noteq> None then Inl (call_error ''Error'')
                else Inr (alter (e @ [n]) (set_entry n c) (alter d (drop_entry n) t))
            | Some x \<Rightarrow> if is_directory (Some c) then Inl (call_error ''OSError'')
                else Inr (alter e (set_entry n c) (alter d (drop_entry n) t))))
    | _ \<Rightarrow> Inl (call_error ''FileNotFoundError''))"

section \<open>The calculus\<close>

text \<open>From a state with \<open>P\<close>, an operation that returns \<open>x\<close> ends with \<open>Q x\<close>, and one that ends early ends
  with \<open>E\<close>.\<close>

definition triple ::
  "('s \<Rightarrow> bool) \<Rightarrow> ('s, 'e, 'a) op \<Rightarrow> ('a \<Rightarrow> 's \<Rightarrow> bool) \<Rightarrow> ('e \<Rightarrow> 's \<Rightarrow> bool) \<Rightarrow> bool" where
  "triple P m Q E \<longleftrightarrow> (\<forall>s. P s \<longrightarrow> (case m s of (t, Inl e) \<Rightarrow> E e t | (t, Inr x) \<Rightarrow> Q x t))"

named_theorems tripleI \<open>rules of the calculus\<close>

lemma tripleD:
  "triple P m Q E \<Longrightarrow> P s \<Longrightarrow> m s = (t, Inr x) \<Longrightarrow> Q x t"
  "triple P m Q E \<Longrightarrow> P s \<Longrightarrow> m s = (t, Inl e) \<Longrightarrow> E e t"
  unfolding triple_def by (metis (no_types, lifting) case_prod_conv sum.case)+

lemma tripleI':
  "(\<And>s t x. P s \<Longrightarrow> m s = (t, Inr x) \<Longrightarrow> Q x t) \<Longrightarrow> (\<And>s t e. P s \<Longrightarrow> m s = (t, Inl e) \<Longrightarrow> E e t) \<Longrightarrow>
   triple P m Q E"
  unfolding triple_def by (auto split: prod.split sum.split)

lemma triple_conseq:
  assumes "triple P' m Q' E'" "\<And>s. P s \<Longrightarrow> P' s" "\<And>x s. Q' x s \<Longrightarrow> Q x s" "\<And>e s. E' e s \<Longrightarrow> E e s"
  shows "triple P m Q E"
  using assms(2) tripleD [OF assms(1)] assms(3,4) by (intro tripleI') blast+

lemma triple_post: "triple P m Q' E \<Longrightarrow> (\<And>x s. Q' x s \<Longrightarrow> Q x s) \<Longrightarrow> triple P m Q E"
  by (rule triple_conseq)

lemma triple_pre: "triple P' m Q E \<Longrightarrow> (\<And>s. P s \<Longrightarrow> P' s) \<Longrightarrow> triple P m Q E"
  by (rule triple_conseq)

lemma triple_early: "triple P m Q E' \<Longrightarrow> (\<And>e s. E' e s \<Longrightarrow> E e s) \<Longrightarrow> triple P m Q E"
  by (rule triple_conseq)

lemma triple_conj:
  "triple P m Q E \<Longrightarrow> triple P' m Q' E' \<Longrightarrow>
   triple (\<lambda>s. P s \<and> P' s) m (\<lambda>x s. Q x s \<and> Q' x s) (\<lambda>e s. E e s \<and> E' e s)"
  by (rule tripleI') (auto dest: tripleD)

lemma triple_pure: "(c \<Longrightarrow> triple P m Q E) \<Longrightarrow> triple (\<lambda>s. c \<and> P s) m Q E"
  by (simp add: triple_def)

lemma triple_ex: "(\<And>x. triple (P x) m Q E) \<Longrightarrow> triple (\<lambda>s. \<exists>x. P x s) m Q E"
  by (rule tripleI') (auto dest: tripleD)

lemma triple_bind [tripleI]:
  assumes "triple P m R E" "\<And>x. triple (R x) (f x) Q E"
  shows "triple P (bindS m f) Q E"
proof (rule tripleI')
  show "Q x t" if "P s" "bindS m f s = (t, Inr x)" for s t x
    using that tripleD(1) [OF assms(1)] tripleD(1) [OF assms(2)] unfolding bindS_Inr by blast
  show "E e t" if "P s" "bindS m f s = (t, Inl e)" for s t e
    using that tripleD [OF assms(1)] tripleD(2) [OF assms(2)] unfolding bindS_Inl by blast
qed

lemma triple_read [tripleI]:
  "(\<And>s. P s \<Longrightarrow> (case f s of Inl e \<Rightarrow> E e s | Inr x \<Rightarrow> Q x s)) \<Longrightarrow> triple P (readS f) Q E"
  by (rule tripleI') (fastforce simp: readS_def)+

lemma triple_if [tripleI]:
  "(c \<Longrightarrow> triple P m Q E) \<Longrightarrow> (\<not> c \<Longrightarrow> triple P m' Q E) \<Longrightarrow> triple P (if c then m else m') Q E"
  by simp

lemma catchS_Inr:
  "catchS m h s = (t, Inr x) \<longleftrightarrow> m s = (t, Inr x) \<or> (\<exists>u e. m s = (u, Inl (Failure e)) \<and> h e u = (t, Inr x))"
  by (auto simp: catchS_def split: prod.splits sum.splits failure.splits)

lemma catchS_Inl:
  "catchS m h s = (t, Inl f) \<longleftrightarrow>
     m s = (t, Inl Killed) \<and> f = Killed \<or> (\<exists>u e. m s = (u, Inl (Failure e)) \<and> h e u = (t, Inl f))"
  by (auto simp: catchS_def split: prod.splits sum.splits failure.splits)

lemma finallyS_Inr:
  "finallyS m f s = (t, Inr x) \<longleftrightarrow> (\<exists>u y. m s = (u, Inr x) \<and> f u = (t, Inr y))"
  by (auto simp: finallyS_def split: prod.splits sum.splits failure.splits)

lemma finallyS_Inl:
  "finallyS m f s = (t, Inl e) \<longleftrightarrow> m s = (t, Inl Killed) \<and> e = Killed \<or>
     (\<exists>u x. m s = (u, Inr x) \<and> f u = (t, Inl e)) \<or>
     (\<exists>u d. m s = (u, Inl (Failure d)) \<and> (f u = (t, Inl e) \<or> (\<exists>y. f u = (t, Inr y)) \<and> e = Failure d))"
  by (auto simp: finallyS_def split: prod.splits sum.splits failure.splits)

lemma triple_catch:
  assumes "triple P m Q E'" "\<And>s. E' Killed s \<Longrightarrow> E Killed s" "\<And>e. triple (E' (Failure e)) (h e) Q E"
  shows "triple P (catchS m h) Q E"
proof (rule tripleI')
  show "Q x t" if "P s" "catchS m h s = (t, Inr x)" for s t x
    using that tripleD [OF assms(1)] tripleD(1) [OF assms(3)] unfolding catchS_Inr by blast
  show "E f t" if "P s" "catchS m h s = (t, Inl f)" for s t f
    using that tripleD(2) [OF assms(1)] tripleD(2) [OF assms(3)] assms(2) unfolding catchS_Inl by blast
qed

lemma triple_finally:
  assumes "triple P m R E'" "\<And>s. E' Killed s \<Longrightarrow> E Killed s"
    and "\<And>x. triple (R x) f (\<lambda>_. Q x) E" "\<And>e. triple (E' (Failure e)) f (\<lambda>_. E (Failure e)) E"
  shows "triple P (finallyS m f) Q E"
proof (rule tripleI')
  show "Q x t" if "P s" "finallyS m f s = (t, Inr x)" for s t x
    using that tripleD(1) [OF assms(1)] tripleD(1) [OF assms(3)] unfolding finallyS_Inr by blast
  show "E e t" if "P s" "finallyS m f s = (t, Inl e)" for s t e
    using that tripleD [OF assms(1)] tripleD(2) [OF assms(3)] tripleD [OF assms(4)] assms(2)
    unfolding finallyS_Inl by blast
qed

lemma triple_each:
  assumes "\<And>xs x ys. zs = xs @ x # ys \<Longrightarrow> triple (I xs) (f x) (\<lambda>_. I (xs @ [x])) E"
  shows "triple (I []) (eachS f zs) (\<lambda>_. I zs) E"
proof -
  have "triple (I xs) (eachS f ys) (\<lambda>_. I zs) E" if "zs = xs @ ys" for xs ys
    using that
  proof (induction ys arbitrary: xs)
    case Nil
    then show ?case by (auto simp: triple_def)
  next
    case (Cons y ys)
    show ?case using assms [OF Cons.prems] Cons.IH [of "xs @ [y]"] Cons.prems
      by (auto intro: triple_bind)
  qed
  from this [of "[]" zs] show ?thesis by simp
qed

lemma triple_syscall:
  assumes "\<And>s. P s \<Longrightarrow> E Killed s" "\<And>s e. P s \<Longrightarrow> E (Failure e) (tick s)"
    and "\<And>s r. P s \<Longrightarrow> f (dk_root s) = Inr r \<Longrightarrow> Q () ((tick s)\<lparr>dk_root := r\<rparr>)"
  shows "triple P (syscall hz f) Q E"
proof (rule tripleI')
  fix s t assume P: "P s"
  show "Q x t" if "syscall hz f s = (t, Inr x)" for x
    using that assms(3) [OF P] by (auto simp: syscall_def split: hazard.splits sum.splits)
  show "E e t" if "syscall hz f s = (t, Inl e)" for e
    using that assms(1) [OF P] assms(2) [OF P] by (auto simp: syscall_def split: hazard.splits sum.splits)
qed

lemma triple_sysread:
  assumes "\<And>s. P s \<Longrightarrow> E Killed s" "\<And>s e. P s \<Longrightarrow> E (Failure e) (tick s)"
    and "\<And>s x. P s \<Longrightarrow> f (dk_root s) = Inr x \<Longrightarrow> Q x (tick s)"
  shows "triple P (sysread hz f) Q E"
proof (rule tripleI')
  fix s t assume P: "P s"
  show "Q x t" if "sysread hz f s = (t, Inr x)" for x
    using that assms(3) [OF P] by (auto simp: sysread_def mapErr_eq_Inr split: hazard.splits)
  show "E e t" if "sysread hz f s = (t, Inl e)" for e
    using that assms(1) [OF P] assms(2) [OF P] by (auto simp: sysread_def mapErr_eq_Inl split: hazard.splits)
qed

lemma triple_when:
  "triple (\<lambda>s. P s \<and> c s) m Q E \<Longrightarrow> (\<And>s. P s \<Longrightarrow> \<not> c s \<Longrightarrow> Q () s) \<Longrightarrow> triple P (whenS c m) Q E"
  unfolding triple_def whenS_def by auto

lemma readS_Inr: "readS f s = (t, Inr x) \<longleftrightarrow> t = s \<and> f s = Inr x"
  by auto

lemma readS_Inl: "readS f s = (t, Inl e) \<longleftrightarrow> t = s \<and> f s = Inl e"
  by auto

section \<open>What an operation leaves alone\<close>

definition keeps :: "('s \<Rightarrow> 'v) \<Rightarrow> ('s, 'e, 'a) op \<Rightarrow> bool" where
  "keeps v m \<longleftrightarrow> (\<forall>s. v (fst (m s)) = v s)"

named_theorems keepsI \<open>rules on what is left alone\<close>

lemma keepsD: "keeps v m \<Longrightarrow> m s = (t, x) \<Longrightarrow> v t = v s"
  unfolding keeps_def by (metis fst_conv)

lemma keepsI': "(\<And>s t x. m s = (t, x) \<Longrightarrow> v t = v s) \<Longrightarrow> keeps v m"
  unfolding keeps_def by (metis prod.collapse)

lemma keeps_bind [keepsI]:
  assumes "keeps v m" "\<And>x. keeps v (f x)"
  shows "keeps v (bindS m f)"
proof (rule keepsI')
  fix s t x assume "bindS m f s = (t, x)"
  with keepsD [OF assms(1)] keepsD [OF assms(2)] show "v t = v s"
    unfolding bindS_def by (auto split: prod.splits sum.splits)
qed

lemma keeps_read [keepsI]: "keeps v (readS f)"
  by (simp add: keeps_def)

lemma keeps_pure [keepsI]: "keeps v (\<lambda>s. (s, f s))"
  by (simp add: keeps_def)

lemma keeps_if [keepsI]: "keeps v m \<Longrightarrow> keeps v m' \<Longrightarrow> keeps v (if c then m else m')"
  by simp

lemma keeps_option [keepsI]:
  "keeps v m \<Longrightarrow> (\<And>y. keeps v (f y)) \<Longrightarrow> keeps v (case x of None \<Rightarrow> m | Some y \<Rightarrow> f y)"
  by (cases x) simp_all

lemma keeps_when [keepsI]: "keeps v m \<Longrightarrow> keeps v (whenS c m)"
  by (simp add: keeps_def whenS_def)

lemma keeps_each [keepsI]: "(\<And>x. keeps v (f x)) \<Longrightarrow> keeps v (eachS f xs)"
  by (induction xs) (simp_all add: keeps_bind keeps_read)

lemma keeps_catch [keepsI]:
  assumes "keeps v m" "\<And>e. keeps v (h e)"
  shows "keeps v (catchS m h)"
proof (rule keepsI')
  fix s t x assume "catchS m h s = (t, x)"
  with keepsD [OF assms(1)] keepsD [OF assms(2)] show "v t = v s"
    by (cases x) (auto simp: catchS_Inl catchS_Inr)
qed

lemma keeps_finally [keepsI]:
  assumes "keeps v m" "keeps v f"
  shows "keeps v (finallyS m f)"
proof (rule keepsI')
  fix s t x assume "finallyS m f s = (t, x)"
  with keepsD [OF assms(1)] keepsD [OF assms(2)] show "v t = v s"
    by (cases x) (auto simp: finallyS_Inl finallyS_Inr)
qed

lemma keeps_syscall:
  assumes "\<And>s. v (tick s) = v s" "\<And>s r. f (dk_root s) = Inr r \<Longrightarrow> v ((tick s)\<lparr>dk_root := r\<rparr>) = v s"
  shows "keeps v (syscall hz f)"
  using assms by (auto simp: keeps_def syscall_def split: hazard.split sum.split)

lemma keeps_sysread: "(\<And>s. v (tick s) = v s) \<Longrightarrow> keeps v (sysread hz f)"
  by (auto simp: keeps_def sysread_def split: hazard.split)

lemma keeps_pair: "keeps v m \<Longrightarrow> keeps w m \<Longrightarrow> keeps (\<lambda>s. (v s, w s)) m"
  by (simp add: keeps_def)

lemma triple_keeps: "keeps v m \<Longrightarrow> triple (\<lambda>s. v s = c) m (\<lambda>_ s. v s = c) (\<lambda>_ s. v s = c)"
  by (rule tripleI') (auto dest: keepsD)

text \<open>What is left alone may be added to every condition.\<close>

lemma triple_frame:
  assumes "triple P m Q E" "keeps v m"
  shows "triple (\<lambda>s. P s \<and> R (v s)) m (\<lambda>x s. Q x s \<and> R (v s)) (\<lambda>e s. E e s \<and> R (v s))"
  using tripleD [OF assms(1)] keepsD [OF assms(2)] by (intro tripleI') metis+

section \<open>Calls on one part of a tree\<close>

lemma parallel_entry: "d @ [n] \<parallel> q \<Longrightarrow> d \<parallel> q \<or> (\<exists>k ks. q = d @ k # ks \<and> k \<noteq> n)"
proof (induction d arbitrary: q)
  case Nil
  then show ?case by (cases q) (auto simp: parallel_def)
next
  case (Cons x d)
  then obtain y q' where "q = y # q'" by (cases q) (auto simp: parallel_def)
  with Cons show ?case by (cases "x = y") (auto simp: parallel_def)
qed

lemma entry_elsewhere:
  assumes "d @ [n] \<parallel> q"
  shows "look (alter d (set_entry n c) t) q = look t q" "look (alter d (drop_entry n) t) q = look t q"
proof -
  have "look (alter d f t) q = look t q"
    if f: "\<And>k ks x. k \<noteq> n \<Longrightarrow> look (f x) (k # ks) = look x (k # ks)" for f
  proof (cases "d \<parallel> q")
    case True
    then show ?thesis by (rule look_alter_parallel)
  next
    case False
    with parallel_entry [OF assms] obtain k ks where "q = d @ k # ks" "k \<noteq> n" by blast
    with f show ?thesis
      by (cases "look t d") (simp_all add: look_append look_alter)
  qed
  moreover have "look (set_entry n c x) (k # ks) = look x (k # ks)" if "k \<noteq> n" for k ks x
    using that by (cases x) (auto simp: update_conv')
  moreover have "look (drop_entry n x) (k # ks) = look x (k # ks)" if "k \<noteq> n" for k ks x
    using that by (cases x) (auto simp: delete_conv')
  ultimately show "look (alter d (set_entry n c) t) q = look t q" "look (alter d (drop_entry n) t) q = look t q"
    by blast+
qed

lemma in_directory_Inr:
  "in_directory d check f t = Inr r \<longleftrightarrow> (\<exists>es. look t d = Some (DirNode es) \<and> check es = None \<and> r = alter d f t)"
  by (auto simp: in_directory_def entries_at_def split: option.splits node.splits)

lemmas call_defs = make_dir_def replace_file_def remove_file_def remove_dir_def in_directory_Inr

lemma calls_elsewhere:
  assumes "d @ [n] \<parallel> q"
  shows "make_dir d n t = Inr r \<Longrightarrow> look r q = look t q"
    and "replace_file d n b t = Inr r \<Longrightarrow> look r q = look t q"
    and "remove_file d n t = Inr r \<Longrightarrow> look r q = look t q"
    and "remove_dir d n t = Inr r \<Longrightarrow> look r q = look t q"
  using entry_elsewhere [OF assms] by (auto simp: call_defs)

lemma move_elsewhere:
  assumes "d @ [n] \<parallel> q" "e @ [n] \<parallel> q" "move_entry d e n t = Inr r"
  shows "look r q = look t q"
proof -
  have "(e @ [n]) @ [n] \<parallel> q"
    using assms(2) prefix_prefix prefix_order.trans unfolding parallel_def by (metis prefixI prefix_same_cases)
  then show ?thesis
    using assms entry_elsewhere
    by (auto simp: move_entry_def split: option.splits node.splits if_splits)
qed

section \<open>Which exceptions an operation raises\<close>

definition spares :: "ticket_error set \<Rightarrow> ('s, failure, 'a) op \<Rightarrow> bool" where
  "spares X m \<longleftrightarrow> (\<forall>s t e. m s = (t, Inl (Failure e)) \<longrightarrow> e \<notin> X)"

named_theorems sparesI \<open>rules on the exceptions that are not raised\<close>

lemma sparesD: "spares X m \<Longrightarrow> m s = (t, Inl (Failure e)) \<Longrightarrow> e \<notin> X"
  by (auto simp: spares_def)

lemma spares_bind [sparesI]: "spares X m \<Longrightarrow> (\<And>x. spares X (f x)) \<Longrightarrow> spares X (bindS m f)"
  by (fastforce simp: spares_def bindS_Inl)

lemma spares_read [sparesI]: "(\<And>s e. f s = Inl (Failure e) \<Longrightarrow> e \<notin> X) \<Longrightarrow> spares X (readS f)"
  by (auto simp: spares_def)

lemma spares_pure [sparesI]: "(\<And>s e. f s = Inl (Failure e) \<Longrightarrow> e \<notin> X) \<Longrightarrow> spares X (\<lambda>s. (s, f s))"
  by (auto simp: spares_def)

lemma spares_if [sparesI]: "(c \<Longrightarrow> spares X m) \<Longrightarrow> (\<not> c \<Longrightarrow> spares X m') \<Longrightarrow> spares X (if c then m else m')"
  by simp

lemma spares_when [sparesI]: "spares X m \<Longrightarrow> spares X (whenS c m)"
  by (auto simp: spares_def whenS_def)

lemma spares_each [sparesI]: "(\<And>x. spares X (f x)) \<Longrightarrow> spares X (eachS f xs)"
  by (induction xs) (auto intro!: sparesI)

lemma spares_catch [sparesI]: "(\<And>e. spares X (h e)) \<Longrightarrow> spares X (catchS m h)"
  by (fastforce simp: spares_def catchS_Inl)

lemma spares_finally [sparesI]: "spares X m \<Longrightarrow> spares X f \<Longrightarrow> spares X (finallyS m f)"
  by (fastforce simp: spares_def finallyS_Inl)

lemma spares_syscall:
  "PyError ''OSError'' \<notin> X \<Longrightarrow> (\<And>t e. f t = Inl e \<Longrightarrow> e \<notin> X) \<Longrightarrow> spares X (syscall hz f)"
  by (auto simp: spares_def syscall_def split: hazard.splits sum.splits)

lemma spares_sysread:
  "PyError ''OSError'' \<notin> X \<Longrightarrow> (\<And>t e. f t = Inl e \<Longrightarrow> e \<notin> X) \<Longrightarrow> spares X (sysread hz f)"
  by (auto simp: spares_def sysread_def mapErr_eq_Inl split: hazard.splits)

text \<open>The exceptions of the calls.\<close>

definition call_errors :: "ticket_error set" where
  "call_errors = call_error ` {''OSError'', ''FileNotFoundError'', ''FileExistsError'', ''IsADirectoryError'', ''Error''}"

lemma call_raises:
  "make_dir d n t = Inl e \<Longrightarrow> e \<in> call_errors" "replace_file d n b t = Inl e \<Longrightarrow> e \<in> call_errors"
  "remove_file d n t = Inl e \<Longrightarrow> e \<in> call_errors" "remove_dir d n t = Inl e \<Longrightarrow> e \<in> call_errors"
  "move_entry d e' n t = Inl e \<Longrightarrow> e \<in> call_errors"
  by (auto simp: make_dir_def replace_file_def remove_file_def remove_dir_def in_directory_def move_entry_def
      call_errors_def split: option.splits node.splits if_splits)

text \<open>What is left alone by an operation holds however the operation ends.\<close>

lemma triple_kept:
  assumes "keeps v m" "spares X m"
  shows "triple (\<lambda>s. R (v s)) m (\<lambda>_ s. R (v s)) (\<lambda>f s. R (v s) \<and> f \<notin> Failure ` X)"
  using keepsD [OF assms(1)] sparesD [OF assms(2)] by (intro tripleI') auto

end
