(* ===== verification/MemoryStore.thy ===== *)
theory MemoryStore
  imports FileTree JobStore
begin

text \<open>
  Agent memory on disk, \<^verbatim>\<open>flowgency/memory/store.py\<close> and \<^verbatim>\<open>flowgency/memory/models.py\<close>: a memory is a
  directory of markdown files below the store's root, named by the hash of what selects it; its revision
  is a digest of its content. Beside the memories stand the directories \<^verbatim>\<open>.locks\<close>, \<^verbatim>\<open>.staging\<close> and
  \<^verbatim>\<open>.backups\<close>. The operations run under the lock of one memory, so they are sequences of calls on the
  tree that no other process interrupts, and each call may fail.

  SHA-256, the Unicode tables, the JSON and YAML libraries, \<open>str\<close> of data that is not a string and of an exception, the clock,
  random names, the name of the root and what happens to each call are arguments.
\<close>

section \<open>State\<close>

record memory_tools =
  mt_jobs :: job_tools
  mt_hazard :: "nat \<Rightarrow> hazard"
  mt_sha :: "string \<Rightarrow> string"
  mt_nfkc :: "string \<Rightarrow> string"
  mt_casefold :: "string \<Rightarrow> string"
  mt_dumps :: "json \<Rightarrow> string"
  mt_loads :: "string \<Rightarrow> json option"
  mt_temp :: "string \<Rightarrow> string list \<Rightarrow> string"
  mt_uuid :: "nat \<Rightarrow> string"
  mt_now :: string
  mt_str :: "json \<Rightarrow> string"
  mt_message :: "ticket_error \<Rightarrow> string"
  mt_root :: string

record memory_area = disk +
  ma_jobs :: job_area

type_synonym 'a mem_op = "(memory_area, failure, 'a) op"

type_synonym files = "(string, string) dict"

record memory_selector =
  ms_scope :: string
  ms_channel :: "string option"

text \<open>The directory of a memory is \<open>rm_root / rm_name\<close>.\<close>

record resolved_memory =
  rm_selector :: memory_selector
  rm_canonical_json :: string
  rm_memory_hash :: string
  rm_root :: string
  rm_name :: string

record memory_snapshot =
  sn_resolved :: resolved_memory
  sn_files :: files
  sn_revision :: string

record memory_stage =
  mg_resolved :: resolved_memory
  mg_job_id :: string
  mg_base_revision :: string

definition memoryStoreError :: ticket_error where "memoryStoreError = PyError ''MemoryStoreError''"
definition runtimeError :: ticket_error where "runtimeError = PyError ''RuntimeError''"

definition callM :: "memory_tools \<Rightarrow> (node \<Rightarrow> ticket_error + node) \<Rightarrow> unit mem_op" where
  "callM mt f = syscall (mt_hazard mt) f"

text \<open>A look at the tree that raises on what it finds.\<close>

definition lookM :: "(node \<Rightarrow> ticket_error + 'a) \<Rightarrow> 'a mem_op" where
  "lookM f = readS (\<lambda>s. mapErr Failure (f (dk_root s)))"

abbreviation raiseM :: "ticket_error \<Rightarrow> 'a mem_op" where
  "raiseM e \<equiv> raiseS (Failure e)"

abbreviation liftM :: "ticket_error + 'a \<Rightarrow> 'a mem_op" where
  "liftM m \<equiv> liftS (mapErr Failure m)"

section \<open>Names and revisions\<close>

definition utf8_char :: "char \<Rightarrow> string" where
  "utf8_char c = (let n = of_char c :: nat in
     if n < 128 then [c] else [char_of (192 + n div 64), char_of (128 + n mod 64)])"

definition utf8 :: "string \<Rightarrow> string" where "utf8 s = concat (map utf8_char s)"

abbreviation NUL :: char where "NUL \<equiv> CHR 0x00"

definition revision_text :: "files \<Rightarrow> string" where
  "revision_text fs = ''flowgency-memory-content:v1'' @ [NUL] @
     concat (map (\<lambda>(n, b). utf8 n @ [NUL] @ b @ [NUL]) (sort_key fst fs))"

definition memory_content_revision :: "memory_tools \<Rightarrow> files \<Rightarrow> string" where
  "memory_content_revision mt fs = mt_sha mt (revision_text fs)"

definition normalized_key :: "memory_tools \<Rightarrow> string \<Rightarrow> string" where
  "normalized_key mt s = mt_casefold mt (mt_nfkc mt s)"

text \<open>\<open>Path(s).name\<close>, \<open>suffix\<close> and \<open>stem\<close> of a name.\<close>

definition path_name :: "string \<Rightarrow> string" where
  "path_name s = (let ps = filter (\<lambda>p. p \<noteq> [] \<and> p \<noteq> ''.'') (split_on CHR ''/'' s) in
     if ps = [] then [] else last ps)"

definition last_dot :: "string \<Rightarrow> nat option" where
  "last_dot s = (let n = length (takeWhile (\<lambda>c. c \<noteq> CHR ''.'') (rev s)) in
     if n < length s \<and> 0 < length s - 1 - n \<and> 0 < n then Some (length s - 1 - n) else None)"

definition path_suffix :: "string \<Rightarrow> string" where
  "path_suffix s = (case last_dot s of None \<Rightarrow> [] | Some i \<Rightarrow> drop i s)"

definition path_stem :: "string \<Rightarrow> string" where
  "path_stem s = (case last_dot s of None \<Rightarrow> s | Some i \<Rightarrow> take i s)"

definition upper_char :: "char \<Rightarrow> char" where
  "upper_char c = (if char_in CHR ''a'' CHR ''z'' c then char_of ((of_char c :: nat) - 32) else c)"

definition WINDOWS_RESERVED_NAMES :: "string list" where
  "WINDOWS_RESERVED_NAMES = [''CON'', ''PRN'', ''AUX'', ''NUL''] @
     concat (map (\<lambda>c. [''COM'' @ [c], ''LPT'' @ [c]]) ''123456789'')"

definition reserved_stem :: "string \<Rightarrow> bool" where
  "reserved_stem s \<longleftrightarrow> map upper_char (path_stem s) \<in> set WINDOWS_RESERVED_NAMES"

definition ends_in :: "string \<Rightarrow> string \<Rightarrow> bool" where
  "ends_in cs s \<longleftrightarrow> s \<noteq> [] \<and> last s \<in> set cs"

definition has_separator :: "string \<Rightarrow> bool" where
  "has_separator s \<longleftrightarrow> CHR ''/'' \<in> set s \<or> CHR 0x5C \<in> set s"

text \<open>The names seen so far by their folded form.\<close>

definition validate_filename ::
  "memory_tools \<Rightarrow> string \<Rightarrow> (string, string) dict \<Rightarrow> ticket_error + (string, string) dict" where
  "validate_filename mt name seen =
     bindE (ensure (path_name name = name) valueError) (\<lambda>_.
     bindE (ensure (name \<notin> {[], ''.'', ''..''}) valueError) (\<lambda>_.
     bindE (ensure (\<not> ends_in '' .'' name) valueError) (\<lambda>_.
     bindE (ensure (hd name \<noteq> CHR ''.'') valueError) (\<lambda>_.
     bindE (ensure (\<not> has_separator name) valueError) (\<lambda>_.
     bindE (ensure (path_suffix name = ''.md'') valueError) (\<lambda>_.
     bindE (ensure (\<not> reserved_stem name) valueError) (\<lambda>_.
     let folded = normalized_key mt name in
     bindE (ensure (map_of seen folded \<in> {None, Some name}) valueError) (\<lambda>_.
     Inr (AList.update folded name seen)))))))))"

definition validate_job_id :: "memory_tools \<Rightarrow> string \<Rightarrow> ticket_error + string" where
  "validate_job_id mt job =
     bindE (ensure (job \<notin> {[], ''.'', ''..''}) valueError) (\<lambda>_.
     bindE (ensure (\<not> ends_in '' .'' job) valueError) (\<lambda>_.
     bindE (ensure (\<not> has_separator job) valueError) (\<lambda>_.
     bindE (ensure (path_name job = job) valueError) (\<lambda>_.
     bindE (ensure (mt_nfkc mt job = job) valueError) (\<lambda>_.
     bindE (ensure (normalized_key mt job = job) valueError) (\<lambda>_.
     bindE (ensure (\<not> reserved_stem job) valueError) (\<lambda>_.
     Inr job)))))))"

definition validate_memory_hash :: "string \<Rightarrow> ticket_error + string" where
  "validate_memory_hash h = bindE (ensure (full_digest h) valueError) (\<lambda>_. Inr h)"

definition validate_resolved_memory :: "string option \<Rightarrow> resolved_memory \<Rightarrow> ticket_error + unit" where
  "validate_resolved_memory expected_root r =
     bindE (validate_memory_hash (rm_memory_hash r)) (\<lambda>_.
     bindE (ensure (expected_root \<in> {None, Some (rm_root r)}) memoryStoreError) (\<lambda>_.
     ensure (rm_name r = rm_memory_hash r) memoryStoreError))"

definition normalize_candidate_files :: "memory_tools \<Rightarrow> files \<Rightarrow> ticket_error + files" where
  "normalize_candidate_files mt fs =
     bindE (ensure (fs \<noteq> []) valueError) (\<lambda>_.
     bindE (foldE (\<lambda>(n, b). validate_filename mt n) fs []) (\<lambda>_. Inr fs))"

section \<open>Directories\<close>

text \<open>\<open>_ensure_actual_directory\<close>: a directory, not a link.\<close>

definition actual_directory :: "path \<Rightarrow> node \<Rightarrow> ticket_error + unit" where
  "actual_directory p t = ensure (is_directory (look t p)) memoryStoreError"

definition ensure_child_directory :: "memory_tools \<Rightarrow> path \<Rightarrow> string \<Rightarrow> unit mem_op" where
  "ensure_child_directory mt d n =
     bindS (whenS (\<lambda>s. look (dk_root s) (d @ [n]) = None) (callM mt (make_dir d n))) (\<lambda>_.
     lookM (actual_directory (d @ [n])))"

fun ensure_children :: "memory_tools \<Rightarrow> path \<Rightarrow> string list \<Rightarrow> unit mem_op" where
  "ensure_children mt d [] = returnS ()"
| "ensure_children mt d (n # ns) = bindS (ensure_child_directory mt d n) (\<lambda>_. ensure_children mt (d @ [n]) ns)"

text \<open>The root of the store exists: the tree is what it holds.\<close>

definition ensure_infrastructure_directory :: "memory_tools \<Rightarrow> string list \<Rightarrow> unit mem_op" where
  "ensure_infrastructure_directory mt ns =
     bindS (lookM (actual_directory [])) (\<lambda>_. ensure_children mt [] ns)"

definition canonical_directory :: "memory_tools \<Rightarrow> string \<Rightarrow> unit mem_op" where
  "canonical_directory mt h = ensure_infrastructure_directory mt [h]"

definition create_verified_tempdir :: "memory_tools \<Rightarrow> path \<Rightarrow> string \<Rightarrow> string mem_op" where
  "create_verified_tempdir mt d pre =
     bindS (readS (\<lambda>s. Inr (mt_temp mt pre (case entries_at (dk_root s) d of None \<Rightarrow> [] | Some es \<Rightarrow> keys es)))) (\<lambda>n.
     bindS (callM mt (make_dir d n)) (\<lambda>_.
     bindS (lookM (actual_directory (d @ [n]))) (\<lambda>_. returnS n)))"

text \<open>\<open>_safe_rmtree\<close>: the entries of a directory, then the directory; a link stops it.\<close>

fun remove_tree :: "memory_tools \<Rightarrow> path \<Rightarrow> string \<Rightarrow> node \<Rightarrow> unit mem_op"
  and remove_entries :: "memory_tools \<Rightarrow> path \<Rightarrow> (string \<times> node) list \<Rightarrow> unit mem_op" where
  "remove_tree mt d n (DirNode es) =
     bindS (remove_entries mt (d @ [n]) es) (\<lambda>_. callM mt (remove_dir d n))"
| "remove_tree mt d n (FileNode b) = callM mt (remove_file d n)"
| "remove_tree mt d n (LinkNode b) = raiseM memoryStoreError"
| "remove_entries mt p [] = returnS ()"
| "remove_entries mt p ((k, c) # es) = bindS (remove_tree mt p k c) (\<lambda>_. remove_entries mt p es)"

definition safe_rmtree :: "memory_tools \<Rightarrow> bool \<Rightarrow> path \<Rightarrow> string \<Rightarrow> unit mem_op" where
  "safe_rmtree mt ignore_missing d n =
     bindS (readS (\<lambda>s. Inr (look (dk_root s) (d @ [n])))) (\<lambda>c.
     if is_directory c then remove_tree mt d n (the c)
     else if ignore_missing \<and> \<not> present c then returnS ()
     else raiseM memoryStoreError)"

section \<open>Reading\<close>

fun read_entries ::
  "memory_tools \<Rightarrow> (string, string) dict \<Rightarrow> (string \<times> node) list \<Rightarrow> ticket_error + files" where
  "read_entries mt seen [] = Inr []"
| "read_entries mt seen ((n, FileNode b) # es) =
     bindE (validate_filename mt n seen) (\<lambda>seen'.
     bindE (read_entries mt seen' es) (\<lambda>fs. Inr ((n, b) # fs)))"
| "read_entries mt seen ((n, _) # es) = Inl valueError"

definition read_canonical_files :: "memory_tools \<Rightarrow> path \<Rightarrow> node \<Rightarrow> ticket_error + files" where
  "read_canonical_files mt d t =
     (let c = look t d in
      if \<not> present c then Inr []
      else case c of
          Some (DirNode es) \<Rightarrow> read_entries mt [] (sort_key (\<lambda>e. mt_casefold mt (fst e)) es)
        | _ \<Rightarrow> Inl memoryStoreError)"

definition read_files :: "memory_tools \<Rightarrow> path \<Rightarrow> files mem_op" where
  "read_files mt d = sysread (mt_hazard mt) (read_canonical_files mt d)"

definition snapshot_of :: "memory_tools \<Rightarrow> resolved_memory \<Rightarrow> files \<Rightarrow> memory_snapshot" where
  "snapshot_of mt r fs =
     \<lparr>sn_resolved = r, sn_files = fs, sn_revision = memory_content_revision mt fs\<rparr>"

text \<open>The file of the lock is created in a safe place; \<open>busy\<close> is whether another process holds it when
  the caller does not wait.\<close>

definition safe_leaf :: "path \<Rightarrow> node \<Rightarrow> ticket_error + unit" where
  "safe_leaf p t = (case look t p of
      None \<Rightarrow> Inr () | Some (FileNode _) \<Rightarrow> Inr () | Some _ \<Rightarrow> Inl memoryStoreError)"

definition take_lock :: "memory_tools \<Rightarrow> bool \<Rightarrow> string \<Rightarrow> unit mem_op" where
  "take_lock mt busy h =
     (let lock = h @ ''.lock'' in
      bindS (ensure_infrastructure_directory mt [''.locks'']) (\<lambda>_.
      bindS (lookM (safe_leaf [''.locks'', lock])) (\<lambda>_.
      bindS (whenS (\<lambda>s. look (dk_root s) [''.locks'', lock] = None)
               (callM mt (replace_file [''.locks''] lock []))) (\<lambda>_.
      liftM (ensure (\<not> busy) (PyError ''ResourceBusyError''))))))"

definition memory_lock :: "memory_tools \<Rightarrow> bool \<Rightarrow> resolved_memory \<Rightarrow> unit mem_op" where
  "memory_lock mt busy r =
     bindS (liftM (validate_resolved_memory None r)) (\<lambda>_. take_lock mt busy (rm_memory_hash r))"

definition read_memory :: "memory_tools \<Rightarrow> bool \<Rightarrow> resolved_memory \<Rightarrow> memory_snapshot mem_op" where
  "read_memory mt busy r =
     bindS (memory_lock mt busy r) (\<lambda>_.
     bindS (canonical_directory mt (rm_memory_hash r)) (\<lambda>_.
     bindS (read_files mt [rm_memory_hash r]) (\<lambda>fs. returnS (snapshot_of mt r fs))))"

definition preview_memory :: "memory_tools \<Rightarrow> resolved_memory \<Rightarrow> memory_snapshot mem_op" where
  "preview_memory mt r =
     bindS (liftM (validate_resolved_memory None r)) (\<lambda>_.
     bindS (read_files mt [rm_name r]) (\<lambda>fs.
     returnS (snapshot_of mt r (if fs = [] then [(''memory.md'', [])] else fs))))"

definition ensure_memory_locked :: "memory_tools \<Rightarrow> resolved_memory \<Rightarrow> memory_snapshot mem_op" where
  "ensure_memory_locked mt r =
     (let h = rm_memory_hash r in
      bindS (canonical_directory mt h) (\<lambda>_.
      bindS (whenS (\<lambda>s. entries_at (dk_root s) [h] = Some []) (callM mt (replace_file [h] ''memory.md'' []))) (\<lambda>_.
      bindS (read_files mt [h]) (\<lambda>fs.
      bindS (liftM (ensure (fs \<noteq> []) valueError)) (\<lambda>_. returnS (snapshot_of mt r fs))))))"

definition ensure_memory :: "memory_tools \<Rightarrow> resolved_memory \<Rightarrow> memory_snapshot mem_op" where
  "ensure_memory mt r = bindS (memory_lock mt False r) (\<lambda>_. ensure_memory_locked mt r)"

definition write_files :: "memory_tools \<Rightarrow> path \<Rightarrow> files \<Rightarrow> unit mem_op" where
  "write_files mt d fs = eachS (\<lambda>(n, b). callM mt (replace_file d n b)) fs"

definition stage_memory_locked :: "memory_tools \<Rightarrow> resolved_memory \<Rightarrow> string \<Rightarrow> memory_stage mem_op" where
  "stage_memory_locked mt r job =
     (let h = rm_memory_hash r in
      bindS (ensure_memory_locked mt r) (\<lambda>snapshot.
      bindS (liftM (validate_job_id mt job)) (\<lambda>safe.
      bindS (ensure_infrastructure_directory mt [''.staging'', h]) (\<lambda>_.
      bindS (whenS (\<lambda>s. present (look (dk_root s) [''.staging'', h, safe]))
               (safe_rmtree mt False [''.staging'', h] safe)) (\<lambda>_.
      bindS (ensure_child_directory mt [''.staging'', h] safe) (\<lambda>_.
      bindS (write_files mt [''.staging'', h, safe] (sn_files snapshot)) (\<lambda>_.
      returnS \<lparr>mg_resolved = r, mg_job_id = job, mg_base_revision = sn_revision snapshot\<rparr>)))))))"

definition stage_memory :: "memory_tools \<Rightarrow> resolved_memory \<Rightarrow> string \<Rightarrow> memory_stage mem_op" where
  "stage_memory mt r job = bindS (memory_lock mt False r) (\<lambda>_. stage_memory_locked mt r job)"

section \<open>Replacing the content of a memory\<close>

text \<open>The new files are written to one temporary directory, the old ones are moved to another, the new ones
  are moved in, and the old ones are removed. \<open>install_files\<close> also says what it tried to move in.\<close>

fun install_files ::
  "memory_tools \<Rightarrow> string \<Rightarrow> string \<Rightarrow> string list \<Rightarrow> string list \<Rightarrow> memory_area \<Rightarrow>
   memory_area \<times> string list \<times> (failure + unit)" where
  "install_files mt h temp [] moved s = (s, moved, Inr ())"
| "install_files mt h temp (n # ns) moved s = (case callM mt (move_entry [''.backups'', temp] [h] n) s of
      (t, Inl e) \<Rightarrow> (t, moved @ [n], Inl e)
    | (t, Inr _) \<Rightarrow> install_files mt h temp ns (moved @ [n]) t)"

definition entry_names :: "memory_area \<Rightarrow> path \<Rightarrow> string list" where
  "entry_names s d = (case entries_at (dk_root s) d of None \<Rightarrow> [] | Some es \<Rightarrow> keys es)"

definition evacuate_files :: "memory_tools \<Rightarrow> string \<Rightarrow> string \<Rightarrow> unit mem_op" where
  "evacuate_files mt h bak =
     bindS (readS (\<lambda>s. Inr (entry_names s [h]))) (eachS (\<lambda>n. callM mt (move_entry [h] [''.backups'', bak] n)))"

definition rollback_canonical_replace :: "memory_tools \<Rightarrow> string \<Rightarrow> string \<Rightarrow> string list \<Rightarrow> unit mem_op" where
  "rollback_canonical_replace mt h bak moved =
     bindS (eachS (\<lambda>n. whenS (\<lambda>s. present (look (dk_root s) [h, n]))
         (catchS (callM mt (remove_file [h] n))
            (\<lambda>e. if e = call_error ''FileNotFoundError'' then returnS () else raiseM e))) moved) (\<lambda>_.
     bindS (readS (\<lambda>s. Inr (look (dk_root s) [''.backups'', bak]))) (\<lambda>c.
     if \<not> present c then returnS ()
     else bindS (readS (\<lambda>s. Inr (entry_names s [''.backups'', bak]))) (\<lambda>ns.
       bindS (eachS (\<lambda>n. callM mt (move_entry [''.backups'', bak] [h] n)) ns) (\<lambda>_.
       safe_rmtree mt False [''.backups''] bak))))"

text \<open>Both outcomes of the rollback raise \<open>RuntimeError\<close>.\<close>

definition swap_files :: "memory_tools \<Rightarrow> string \<Rightarrow> string \<Rightarrow> string \<Rightarrow> files \<Rightarrow> unit mem_op" where
  "swap_files mt h temp bak fs s =
     (case bindS (write_files mt [''.backups'', temp] fs) (\<lambda>_. evacuate_files mt h bak) s of
        (t, Inl Killed) \<Rightarrow> (t, Inl Killed)
      | (t, Inl (Failure e)) \<Rightarrow>
          bindS (catchS (rollback_canonical_replace mt h bak []) (\<lambda>_. returnS ())) (\<lambda>_. raiseM runtimeError) t
      | (t, Inr _) \<Rightarrow>
          (case install_files mt h temp (entry_names t [''.backups'', temp]) [] t of
             (u, moved, out) \<Rightarrow>
               catchS (bindS (readS (\<lambda>_. out)) (\<lambda>_. safe_rmtree mt False [''.backups''] bak))
                 (\<lambda>_. bindS (catchS (rollback_canonical_replace mt h bak moved) (\<lambda>_. returnS ()))
                   (\<lambda>_. raiseM runtimeError)) u))"

definition replace_canonical_files :: "memory_tools \<Rightarrow> string \<Rightarrow> files \<Rightarrow> unit mem_op" where
  "replace_canonical_files mt h fs =
     bindS (lookM (actual_directory [h])) (\<lambda>_.
     bindS (ensure_infrastructure_directory mt [''.backups'']) (\<lambda>_.
     bindS (create_verified_tempdir mt [''.backups''] (h @ ''.'')) (\<lambda>temp.
     bindS (create_verified_tempdir mt [''.backups''] (h @ ''.'')) (\<lambda>bak.
     finallyS (swap_files mt h temp bak fs)
       (whenS (\<lambda>s. present (look (dk_root s) [''.backups'', temp])) (safe_rmtree mt True [''.backups''] temp))))))"

section \<open>What the operations leave alone\<close>

text \<open>The content of a directory that holds exactly some files.\<close>

definition dir_is :: "files \<Rightarrow> node option \<Rightarrow> bool" where
  "dir_is fs c \<longleftrightarrow> (\<exists>es. c = Some (DirNode es) \<and> wf_dict es \<and>
     (\<forall>k. map_of es k = map_option FileNode (map_of fs k)))"

abbreviation holds :: "node \<Rightarrow> path \<Rightarrow> files \<Rightarrow> bool" where
  "holds t d fs \<equiv> dir_is fs (look t d)"

definition spot :: "path \<Rightarrow> memory_area \<Rightarrow> node option" where
  "spot q s = look (dk_root s) q"

lemma spot_tick [simp]: "spot q (tick s) = spot q s"
  by (simp add: spot_def)

lemma spot_root [simp]: "spot q (s\<lparr>dk_root := r\<rparr>) = look r q"
  by (simp add: spot_def)

lemma keeps_jobs [keepsI]: "keeps ma_jobs (callM mt f)" "keeps ma_jobs (read_files mt d)" "keeps v (lookM g)"
  unfolding callM_def read_files_def lookM_def by (auto intro: keeps_syscall keeps_sysread keeps_read)

lemma keeps_read_files [keepsI]: "keeps (spot q) (read_files mt d)"
  unfolding read_files_def by (rule keeps_sysread) simp

lemma keeps_calls [keepsI]:
  assumes "d @ [n] \<parallel> q"
  shows "keeps (spot q) (callM mt (make_dir d n))" "keeps (spot q) (callM mt (replace_file d n b))"
    "keeps (spot q) (callM mt (remove_file d n))" "keeps (spot q) (callM mt (remove_dir d n))"
    "e @ [n] \<parallel> q \<Longrightarrow> keeps (spot q) (callM mt (move_entry d e n))"
  using calls_elsewhere [OF assms] move_elsewhere [OF assms]
  by (auto simp: callM_def spot_def intro!: keeps_syscall)

lemma keeps_child:
  "d @ [n] \<parallel> q \<Longrightarrow> keeps (spot q) (ensure_child_directory mt d n)"
  "keeps ma_jobs (ensure_child_directory mt d n)"
  unfolding ensure_child_directory_def by (intro keepsI; assumption?)+

lemma parallel_longer: "d \<parallel> q \<Longrightarrow> d @ r \<parallel> q"
  using parallel_append [of d q r "[]"] by simp

lemma keeps_children:
  "d @ [n] \<parallel> q \<Longrightarrow> keeps (spot q) (ensure_children mt d (n # ns))"
  "keeps ma_jobs (ensure_children mt d ms)"
proof -
  show "d @ [n] \<parallel> q \<Longrightarrow> keeps (spot q) (ensure_children mt d (n # ns))"
  proof (induction ns arbitrary: d n)
    case Nil
    then show ?case by (simp add: keeps_bind keeps_child keeps_read)
  next
    case (Cons m ns)
    have "(d @ [n]) @ [m] \<parallel> q" using Cons.prems by (rule parallel_longer)
    from Cons.IH [OF this] Cons.prems show ?case
      unfolding ensure_children.simps(2) [of mt d] by (intro keeps_bind keeps_child)
  qed
  show "keeps ma_jobs (ensure_children mt d ms)"
    by (induction ms arbitrary: d) (simp_all add: keeps_bind keeps_child keeps_read)
qed

lemma keeps_infrastructure [keepsI]:
  "[n] \<parallel> q \<Longrightarrow> keeps (spot q) (ensure_infrastructure_directory mt (n # ns))"
  "keeps ma_jobs (ensure_infrastructure_directory mt ms)"
  using keeps_children(1) [of "[]" n q] unfolding ensure_infrastructure_directory_def
  by (auto intro!: keeps_bind keepsI keeps_children simp del: ensure_children.simps)

lemma keeps_tempdir [keepsI]:
  "d \<parallel> q \<Longrightarrow> keeps (spot q) (create_verified_tempdir mt d x)"
  "keeps ma_jobs (create_verified_tempdir mt d x)"
  unfolding create_verified_tempdir_def by (intro keepsI; (rule parallel_longer)?; assumption)+

lemma keeps_remove:
  "d @ [n] \<parallel> q \<Longrightarrow> keeps (spot q) (remove_tree mt d n c)"
  "p \<parallel> q \<Longrightarrow> keeps (spot q) (remove_entries mt p es)"
  by (induction mt d n c and mt p es rule: remove_tree_remove_entries.induct)
    (auto intro!: keepsI parallel_longer)

lemma keeps_remove_jobs:
  "keeps ma_jobs (remove_tree mt d n c)"
  "keeps ma_jobs (remove_entries mt p es)"
  by (induction mt d n c and mt p es rule: remove_tree_remove_entries.induct) (auto intro!: keepsI)

lemma keeps_rmtree [keepsI]:
  "d @ [n] \<parallel> q \<Longrightarrow> keeps (spot q) (safe_rmtree mt b d n)"
  "keeps ma_jobs (safe_rmtree mt b d n)"
  unfolding safe_rmtree_def by (intro keepsI keeps_remove keeps_remove_jobs; assumption?)+

lemma keeps_write [keepsI]:
  "d \<parallel> q \<Longrightarrow> keeps (spot q) (write_files mt d fs)"
  "keeps ma_jobs (write_files mt d fs)"
  unfolding write_files_def by (auto intro!: keepsI parallel_longer split: prod.split)

lemma keeps_evacuate [keepsI]:
  "[h] \<parallel> q \<Longrightarrow> [''.backups'', bak] \<parallel> q \<Longrightarrow> keeps (spot q) (evacuate_files mt h bak)"
  "keeps ma_jobs (evacuate_files mt h bak)"
  unfolding evacuate_files_def by (auto intro!: keepsI dest: parallel_longer)

lemma keeps_rollback [keepsI]:
  "[h] \<parallel> q \<Longrightarrow> [''.backups'', bak] \<parallel> q \<Longrightarrow> keeps (spot q) (rollback_canonical_replace mt h bak moved)"
  "keeps ma_jobs (rollback_canonical_replace mt h bak moved)"
  unfolding rollback_canonical_replace_def by (auto intro!: keepsI dest: parallel_longer)

lemma install_keeps:
  assumes "\<And>n. keeps v (callM mt (move_entry [''.backups'', temp] [h] n))"
    and "install_files mt h temp ns moved s = (t, out)"
  shows "v t = v s"
  using assms(2)
proof (induction ns arbitrary: moved s)
  case (Cons n ns)
  with keepsD [OF assms(1)] show ?case by (fastforce split: prod.splits sum.splits)
qed simp

lemma keeps_swap:
  assumes "keeps v (write_files mt [''.backups'', temp] fs)" "keeps v (evacuate_files mt h bak)"
    and "\<And>moved. keeps v (rollback_canonical_replace mt h bak moved)"
    and "keeps v (safe_rmtree mt False [''.backups''] bak)"
    and "\<And>n. keeps v (callM mt (move_entry [''.backups'', temp] [h] n))"
  shows "keeps v (swap_files mt h temp bak fs)"
proof (rule keepsI')
  fix s w x assume sw: "swap_files mt h temp bak fs s = (w, x)"
  let ?first = "bindS (write_files mt [''.backups'', temp] fs) (\<lambda>_. evacuate_files mt h bak)"
  let ?undo = "\<lambda>moved. bindS (catchS (rollback_canonical_replace mt h bak moved) (\<lambda>_. returnS ()))
    (\<lambda>_. raiseM runtimeError) :: unit mem_op"
  have undo: "keeps v (?undo moved)" for moved by (intro keepsI assms(3))
  have first: "keeps v ?first" by (intro keepsI assms(1,2))
  obtain t out where t: "?first s = (t, out)" by fastforce
  with keepsD [OF first] have vt: "v t = v s" by blast
  show "v w = v s"
  proof (cases out)
    case (Inl e)
    with sw t vt keepsD [OF undo] show ?thesis by (cases e) (fastforce simp: swap_files_def)+
  next
    case (Inr y)
    obtain u moved io where u: "install_files mt h temp (entry_names t [''.backups'', temp]) [] t = (u, moved, io)"
      by (cases "install_files mt h temp (entry_names t [''.backups'', temp]) [] t") auto
    have "keeps v (catchS (bindS (readS (\<lambda>_. io)) (\<lambda>_. safe_rmtree mt False [''.backups''] bak)) (\<lambda>_. ?undo moved))"
      by (intro keepsI assms(3,4))
    moreover have "v u = v t" using install_keeps [OF assms(5) u] by simp
    ultimately show ?thesis using sw t u vt Inr keepsD by (fastforce simp: swap_files_def)
  qed
qed

lemma keeps_replace [keepsI]:
  "[h] \<parallel> q \<Longrightarrow> [''.backups''] \<parallel> q \<Longrightarrow> keeps (spot q) (replace_canonical_files mt h fs)"
  "keeps ma_jobs (replace_canonical_files mt h fs)"
proof -
  assume p: "[h] \<parallel> q" "[''.backups''] \<parallel> q"
  from p(2) have "[''.backups'', x] \<parallel> q" "[''.backups'', x, n] \<parallel> q" for x n
    using parallel_longer [of "[''.backups'']"] by (metis append_Cons append_Nil)+
  moreover from p(1) have "[h, n] \<parallel> q" for n using parallel_longer [of "[h]"] by simp
  ultimately show "keeps (spot q) (replace_canonical_files mt h fs)"
    using p unfolding replace_canonical_files_def by (auto intro!: keepsI keeps_swap)
next
  show "keeps ma_jobs (replace_canonical_files mt h fs)"
    unfolding replace_canonical_files_def by (intro keepsI keeps_swap)
qed

section \<open>What replacing the content does\<close>

lemma lookM_Inr: "lookM f s = (t, Inr x) \<longleftrightarrow> t = s \<and> f (dk_root s) = Inr x"
  by (auto simp: lookM_def mapErr_eq_Inr)

lemma raises: "bindS m (\<lambda>_. raiseS e) s \<noteq> (t, Inr x)"
  by (auto simp: bindS_Inr)

text \<open>Taking a sequence of calls that returned apart.\<close>

lemmas returned = bindS_Inr lookM_Inr readS_Inr finallyS_Inr catchS_Inr

lemma spot_holds: "spot d t = spot d s \<Longrightarrow> holds (dk_root t) d fs = holds (dk_root s) d fs"
  by (simp add: spot_def dir_is_def)

lemma holds_tick [simp]: "holds (dk_root (tick s)) d fs = holds (dk_root s) d fs"
  by simp

lemma holds_written:
  assumes "holds t d fs" "n \<notin> set (keys fs)"
  shows "holds (alter d (set_entry n (FileNode b)) t) d (fs @ [(n, b)])"
proof -
  from assms(1) obtain es where es: "look t d = Some (DirNode es)" "wf_dict es"
    "map_of es k = map_option FileNode (map_of fs k)" for k unfolding dir_is_def by blast
  from assms(2) have "map_of fs n = None" by (simp add: map_of_eq_None_iff)
  with es show ?thesis
    by (auto simp: dir_is_def look_alter update_conv' distinct_update map_add_def split: option.split)
qed

lemma write_files_holds:
  assumes "wf_dict fs" "spot d s = Some (DirNode [])" "write_files mt d fs s = (t, Inr u)"
  shows "holds (dk_root t) d fs"
proof -
  have "triple (\<lambda>s. holds (dk_root s) d []) (write_files mt d fs)
     (\<lambda>_ s. holds (dk_root s) d fs) (\<lambda>_ _. True)"
    unfolding write_files_def
  proof (rule triple_each)
    fix xs x ys assume fs: "fs = xs @ x # ys"
    obtain n b where x: "x = (n, b)" by fastforce
    with fs assms(1) have "n \<notin> set (keys xs)" by auto
    then show "triple (\<lambda>s. holds (dk_root s) d xs) (case x of (n, b) \<Rightarrow> callM mt (replace_file d n b))
      (\<lambda>_ s. holds (dk_root s) d (xs @ [x])) (\<lambda>_ _. True)"
      unfolding x by (auto simp: callM_def call_defs intro!: triple_syscall holds_written)
  qed
  moreover have "holds (dk_root s) d []" using assms(2) by (simp add: dir_is_def spot_def)
  ultimately show ?thesis using assms(3) by (auto dest: tripleD)
qed

lemma callM_Inr:
  "callM mt f s = (t, Inr u) \<longleftrightarrow> mt_hazard mt (dk_clock s) = Works \<and>
     (\<exists>r. f (dk_root s) = Inr r \<and> t = (tick s)\<lparr>dk_root := r\<rparr>)"
  by (auto simp: callM_def syscall_def split: hazard.split sum.split)

text \<open>Moving everything out of a directory leaves it empty.\<close>

lemma move_to_fresh:
  assumes "move_entry d e n t = Inr r" "d \<parallel> e" "look t e = Some (DirNode fs)" "map_of fs n = None"
  obtains es c where "look t d = Some (DirNode es)" "map_of es n = Some c"
    "look r d = Some (DirNode (AList.delete n es))" "look r e = Some (DirNode (AList.update n c fs))"
proof -
  from assms obtain es c where "look t d = Some (DirNode es)" "map_of es n = Some c"
    and r: "r = alter e (set_entry n c) (alter d (drop_entry n) t)"
    by (auto simp: move_entry_def entries_at_def split: option.splits node.splits)
  moreover from assms(2) have "e \<parallel> d" by blast
  ultimately show thesis
    using that assms(2,3) by (simp add: look_alter look_alter_parallel)
qed

lemma moved_out:
  assumes "move_entry d e n t = Inr r" "d \<parallel> e" "look t d = Some (DirNode es)"
  shows "look r d = Some (DirNode (AList.delete n es))"
proof -
  from assms(2) have p: "e \<parallel> d" "e @ [n] \<parallel> d" using parallel_longer by blast+
  from assms(1,3) p show ?thesis
    by (auto simp: move_entry_def entries_at_def look_alter look_alter_parallel
        split: option.splits node.splits if_splits)
qed

lemma evacuate_empties:
  assumes "[h] \<parallel> [''.backups'', bak]" "spot [h] s = Some (DirNode es)" "evacuate_files mt h bak s = (t, Inr u)"
  shows "spot [h] t = Some (DirNode [])"
proof -
  have moves: "triple (\<lambda>s. spot [h] s = Some (DirNode (filter (\<lambda>e. fst e \<notin> set []) es)))
     (eachS (\<lambda>n. callM mt (move_entry [h] [''.backups'', bak] n)) (keys es))
     (\<lambda>_ s. spot [h] s = Some (DirNode (filter (\<lambda>e. fst e \<notin> set (keys es)) es))) (\<lambda>_ _. True)"
  proof (rule triple_each)
    fix xs n ys
    show "triple (\<lambda>s. spot [h] s = Some (DirNode (filter (\<lambda>e. fst e \<notin> set xs) es)))
      (callM mt (move_entry [h] [''.backups'', bak] n))
      (\<lambda>_ s. spot [h] s = Some (DirNode (filter (\<lambda>e. fst e \<notin> set (xs @ [n])) es))) (\<lambda>_ _. True)"
      unfolding callM_def
    proof (rule triple_syscall)
      fix s r assume "spot [h] s = Some (DirNode (filter (\<lambda>e. fst e \<notin> set xs) es))"
        and "move_entry [h] [''.backups'', bak] n (dk_root s) = Inr r"
      with moved_out [OF _ assms(1)]
      have "look r [h] = Some (DirNode (AList.delete n (filter (\<lambda>e. fst e \<notin> set xs) es)))"
        unfolding spot_def by blast
      then show "spot [h] ((tick s)\<lparr>dk_root := r\<rparr>) = Some (DirNode (filter (\<lambda>e. fst e \<notin> set (xs @ [n])) es))"
        by (auto simp: AList.delete_eq intro!: arg_cong [where f = "\<lambda>f. filter f es"])
    qed simp_all
  qed
  have "evacuate_files mt h bak s =
      eachS (\<lambda>n. callM mt (move_entry [h] [''.backups'', bak] n)) (keys es) s"
    using assms(2) by (simp add: evacuate_files_def entry_names_def entries_at_def spot_def)
  with assms(3) have "eachS (\<lambda>n. callM mt (move_entry [h] [''.backups'', bak] n)) (keys es) s = (t, Inr u)" by simp
  from tripleD(1) [OF moves _ this] assms(2)
  have "spot [h] t = Some (DirNode (filter (\<lambda>e. fst e \<notin> set (keys es)) es))" by simp
  moreover have "filter (\<lambda>e. fst e \<notin> set (keys es)) es = []" by (auto simp: filter_empty_conv)
  ultimately show ?thesis by simp
qed

text \<open>Moving the new files in: what is moved is no longer in the temporary directory and is in the memory.\<close>

lemma install_holds:
  assumes "[''.backups'', temp] \<parallel> [h]" "distinct ns"
    and "spot [''.backups'', temp] s = Some (DirNode ts)" "\<And>n. n \<in> set ns \<Longrightarrow> map_of ts n = map_option FileNode (map_of fs n)"
    and "spot [h] s = Some (DirNode es)" "wf_dict es"
    and "\<And>k. map_of es k = (if k \<in> set ns then None else map_option FileNode (map_of fs k))"
    and "install_files mt h temp ns moved s = (t, out, Inr u)"
  shows "holds (dk_root t) [h] fs"
  using assms(2-)
proof (induction ns arbitrary: moved s ts es)
  case Nil
  then show ?case by (auto simp: dir_is_def spot_def)
next
  case (Cons n ns)
  then obtain s' where s': "callM mt (move_entry [''.backups'', temp] [h] n) s = (s', Inr ())"
    and rest: "install_files mt h temp ns (moved @ [n]) s' = (t, out, Inr u)"
    by (auto split: prod.splits sum.splits)
  from s' obtain r where r: "move_entry [''.backups'', temp] [h] n (dk_root s) = Inr r"
    and root: "dk_root s' = r" by (auto simp: callM_Inr)
  have "look (dk_root s) [h] = Some (DirNode es)" "map_of es n = None"
    using Cons.prems(4,6) by (simp_all add: spot_def)
  from move_to_fresh [OF r assms(1) this] Cons.prems(2) obtain c where c: "map_of ts n = Some c"
      "look r [''.backups'', temp] = Some (DirNode (AList.delete n ts))"
      "look r [h] = Some (DirNode (AList.update n c es))" by (auto simp: spot_def)
  show ?case
  proof (rule Cons.IH [OF _ _ _ _ _ _ rest])
    show "distinct ns" using Cons.prems(1) by simp
    show "spot [''.backups'', temp] s' = Some (DirNode (AList.delete n ts))" using c root by (simp add: spot_def)
    show "spot [h] s' = Some (DirNode (AList.update n c es))" using c root by (simp add: spot_def)
    show "wf_dict (AList.update n c es)" using Cons.prems(5) by (simp add: distinct_update)
    show "map_of (AList.delete n ts) k = map_option FileNode (map_of fs k)" if "k \<in> set ns" for k
      using that Cons.prems(1,3) by (auto simp: delete_conv')
    show "map_of (AList.update n c es) k = (if k \<in> set ns then None else map_option FileNode (map_of fs k))" for k
      using Cons.prems(1,3,6) c(1) by (auto simp: update_conv')
  qed
qed

text \<open>The second temporary directory is new, so it is not the first.\<close>

lemma tempdir_fresh:
  assumes "create_verified_tempdir mt d x s = (t, Inr n)"
  shows "spot (d @ [n]) s = None" "spot (d @ [n]) t = Some (DirNode [])"
proof -
  from assms have "\<exists>u. callM mt (make_dir d n) s = (u, Inr ()) \<and> t = u"
    by (auto simp: create_verified_tempdir_def returned simp del: bindS_readS readS_apply)
  then show "spot (d @ [n]) s = None" "spot (d @ [n]) t = Some (DirNode [])"
    by (auto simp: callM_Inr call_defs spot_def look_append look_alter update_conv' split: if_splits)
qed

lemma swap_holds:
  assumes "wf_dict fs" "h \<noteq> ''.backups''" "temp \<noteq> bak" "spot [h] s = Some (DirNode es)"
    and "spot [''.backups'', temp] s = Some (DirNode [])" "swap_files mt h temp bak fs s = (t, Inr u)"
  shows "holds (dk_root t) [h] fs"
proof -
  have apart: "[''.backups'', temp] \<parallel> [h]" "[h] \<parallel> [''.backups'', bak]" "[''.backups'', bak] \<parallel> [h]"
    "[h] \<parallel> [''.backups'', temp]" "[''.backups'', bak] \<parallel> [''.backups'', temp]"
    using assms(2,3) by (auto simp: parallel_def)
  from assms(6) obtain v w x where v: "write_files mt [''.backups'', temp] fs s = (v, Inr ())"
    and w: "evacuate_files mt h bak v = (w, Inr ())"
    and x: "install_files mt h temp (entry_names w [''.backups'', temp]) [] w = x"
    by (auto simp: swap_files_def bindS_Inr split: prod.splits sum.splits failure.splits)
  obtain y moved z where xs: "x = (y, moved, z)" by (cases x) auto
  have "catchS (bindS (readS (\<lambda>_. z)) (\<lambda>_. safe_rmtree mt False [''.backups''] bak))
      (\<lambda>_. bindS (catchS (rollback_canonical_replace mt h bak moved) (\<lambda>_. returnS ()))
        (\<lambda>_. raiseM runtimeError)) y = (t, Inr u)"
    using assms(6) v w x xs by (simp add: swap_files_def bindS_def split: prod.splits)
  then have z: "z = Inr ()" and tidy: "safe_rmtree mt False [''.backups''] bak y = (t, Inr u)"
    by (auto simp: catchS_Inr raises split: sum.splits)
  have "spot [h] v = spot [h] s" using keepsD [OF keeps_write(1) v] apart by blast
  with evacuate_empties [OF apart(2) _ w] assms(4) have empty: "spot [h] w = Some (DirNode [])" by simp
  have "holds (dk_root v) [''.backups'', temp] fs" using write_files_holds [OF assms(1,5) v] .
  moreover have "spot [''.backups'', temp] w = spot [''.backups'', temp] v"
    using keepsD [OF keeps_evacuate(1) w] apart by blast
  ultimately have "holds (dk_root w) [''.backups'', temp] fs" using spot_holds by blast
  then obtain ts where ts: "spot [''.backups'', temp] w = Some (DirNode ts)" "wf_dict ts"
    "\<And>k. map_of ts k = map_option FileNode (map_of fs k)" by (auto simp: dir_is_def spot_def)
  then have names: "entry_names w [''.backups'', temp] = keys ts"
    by (simp add: entry_names_def entries_at_def spot_def)
  have "map_of [] k = (if k \<in> set (keys ts) then None else map_option FileNode (map_of fs k))" for k
    using ts(3) [of k] by (metis empty_iff list.set(1) map_of_eq_None_iff map_of.simps(1) option.map_disc_iff set_map)
  with install_holds [OF apart(1) _ ts(1) _ empty] ts x xs z names
  have "holds (dk_root y) [h] fs" by fastforce
  moreover have "spot [h] t = spot [h] y"
    using keepsD [OF keeps_rmtree(1) tidy, of "[h]"] apart(3) by simp
  ultimately show ?thesis using spot_holds by blast
qed

lemma replace_holds:
  assumes "wf_dict fs" "h \<noteq> ''.backups''" "replace_canonical_files mt h fs s = (t, Inr u)"
  shows "holds (dk_root t) [h] fs"
proof -
  have apart: "[''.backups''] \<parallel> [h]" using assms(2) by (simp add: parallel_def)
  from assms(3) obtain s1 s2 s3 s4 temp bak where
    dir: "is_directory (spot [h] s)" and s1: "ensure_infrastructure_directory mt [''.backups''] s = (s1, Inr ())"
    and s2: "create_verified_tempdir mt [''.backups''] (h @ ''.'') s1 = (s2, Inr temp)"
    and s3: "create_verified_tempdir mt [''.backups''] (h @ ''.'') s2 = (s3, Inr bak)"
    and s4: "swap_files mt h temp bak fs s3 = (s4, Inr u)"
    and last: "\<exists>y. whenS (\<lambda>s. present (look (dk_root s) [''.backups'', temp]))
      (safe_rmtree mt True [''.backups''] temp) s4 = (t, Inr y)"
    unfolding replace_canonical_files_def returned actual_directory_def ensure_eq_Inr spot_def by (auto simp del: bindS_readS readS_apply)
  from tempdir_fresh [OF s2] tempdir_fresh [OF s3]
  have new: "temp \<noteq> bak" "spot [''.backups'', temp] s2 = Some (DirNode [])" by auto
  have "[''.backups''] @ [bak] \<parallel> [''.backups'', temp]" using new(1) by (simp add: parallel_def)
  moreover have "callM mt (make_dir [''.backups''] bak) s2 = (s3, Inr ())"
    using s3 by (auto simp: create_verified_tempdir_def returned simp del: bindS_readS readS_apply)
  ultimately have temp: "spot [''.backups'', temp] s3 = Some (DirNode [])"
    using keepsD [OF keeps_calls(1) [of "[''.backups'']" bak]] new(2) by simp
  have "spot [h] s3 = spot [h] s"
    using keepsD [OF keeps_infrastructure(1) s1] keepsD [OF keeps_tempdir(1) s2]
      keepsD [OF keeps_tempdir(1) s3] apart by simp
  with dir obtain es where "spot [h] s3 = Some (DirNode es)"
    by (auto simp: is_directory_def split: option.splits node.splits)
  from swap_holds [OF assms(1,2) new(1) this temp s4] have "holds (dk_root s4) [h] fs" .
  moreover have "spot [h] t = spot [h] s4"
  proof -
    have "keeps (spot [h]) (whenS (\<lambda>s. present (look (dk_root s) [''.backups'', temp]))
        (safe_rmtree mt True [''.backups''] temp))"
      using parallel_longer [OF apart, of "[temp]"] by (intro keepsI) simp
    from keepsD [OF this] last show ?thesis by auto
  qed
  ultimately show ?thesis using spot_holds by blast
qed

section \<open>Revisions\<close>

definition same_files :: "files \<Rightarrow> files \<Rightarrow> bool" where
  "same_files fs gs \<longleftrightarrow> set fs = set gs"

definition nul_free :: "files \<Rightarrow> bool" where
  "nul_free fs \<longleftrightarrow> (\<forall>(n, b)\<in>set fs. NUL \<notin> set n \<and> NUL \<notin> set b)"

lemma utf8_char_inj:
  assumes "utf8_char c @ r = utf8_char d @ r'"
  shows "c = d \<and> r = r'"
proof -
  define m n where "m = (of_char c :: nat)" and "n = (of_char d :: nat)"
  have lt: "m < 256" "n < 256" and same: "char_of m = c" "char_of n = d" by (simp_all add: m_def n_def)
  have code: "of_char (char_of (192 + k div 64) :: char) = 192 + k div 64"
    "of_char (char_of (128 + k mod 64) :: char) = 128 + k mod 64" if "k < 256" for k :: nat
    using that by simp_all
  show ?thesis
  proof (cases "m < 128 \<longleftrightarrow> n < 128")
    case True
    then show ?thesis
    proof (cases "m < 128")
      case False
      with True assms have "char_of (192 + m div 64) = (char_of (192 + n div 64) :: char)"
        "char_of (128 + m mod 64) = (char_of (128 + n mod 64) :: char)" "r = r'"
        by (simp_all add: utf8_char_def Let_def flip: m_def n_def)
      then have "192 + m div 64 = 192 + n div 64" "128 + m mod 64 = 128 + n mod 64" "r = r'"
        using code lt by metis+
      then have "m = n" by (metis add_left_cancel mult_div_mod_eq)
      with same \<open>r = r'\<close> show ?thesis by metis
    qed (use assms True in \<open>simp add: utf8_char_def Let_def flip: m_def n_def\<close>)
  next
    case False
    have "of_char (hd (utf8_char x @ y)) = (let k = of_char x :: nat in if k < 128 then k else 192 + k div 64)" for x y
      using code(1) [of "of_char x"] by (simp add: utf8_char_def Let_def)
    from this [of c r] this [of d r'] assms
    have "(if m < 128 then m else 192 + m div 64) = (if n < 128 then n else 192 + n div 64)"
      unfolding Let_def m_def n_def by metis
    with False show ?thesis by (auto split: if_splits)
  qed
qed

lemma utf8_inj: "utf8 s = utf8 t \<Longrightarrow> s = t"
proof (induction s arbitrary: t)
  case Nil
  then show ?case by (cases t) (auto simp: utf8_def utf8_char_def Let_def split: if_splits)
next
  case (Cons c s)
  then obtain d t' where t: "t = d # t'"
    by (cases t) (auto simp: utf8_def utf8_char_def Let_def split: if_splits)
  with Cons.prems have "utf8_char c @ utf8 s = utf8_char d @ utf8 t'" by (simp add: utf8_def)
  from utf8_char_inj [OF this] Cons.IH t show ?case by blast
qed

lemma utf8_nul: "NUL \<notin> set s \<Longrightarrow> NUL \<notin> set (utf8 s)"
proof (induction s)
  case (Cons c s)
  have "NUL \<noteq> char_of k" if "0 < k" "k < 256" for k :: nat
  proof
    assume "NUL = char_of k"
    then have "(of_char NUL :: nat) = k" using that by simp
    with that show False by simp
  qed
  moreover have "(of_char c :: nat) < 256" by (rule nat_of_char_less_256)
  then have "(of_char c :: nat) div 64 < 64" using less_mult_imp_div_less [of "of_char c" 64 64] by linarith
  ultimately have "NUL \<noteq> char_of (192 + of_char c div 64 :: nat)" "NUL \<noteq> char_of (128 + of_char c mod 64 :: nat)"
    by simp_all
  then
  have "NUL \<notin> set (utf8_char c)" if "NUL \<noteq> c"
    using that by (simp add: utf8_char_def Let_def)
  then show ?case using Cons by (auto simp: utf8_def)
qed (simp add: utf8_def)

lemma until_nul: "x @ NUL # r = y @ NUL # r' \<Longrightarrow> NUL \<notin> set x \<Longrightarrow> NUL \<notin> set y \<Longrightarrow> x = y \<and> r = r'"
proof (induction x arbitrary: y)
  case Nil
  then show ?case by (cases y) auto
next
  case (Cons a x)
  then show ?case by (cases y) auto
qed

lemma text_inj:
  "concat (map (\<lambda>(n, b). utf8 n @ [NUL] @ b @ [NUL]) fs) = concat (map (\<lambda>(n, b). utf8 n @ [NUL] @ b @ [NUL]) gs) \<Longrightarrow>
   nul_free fs \<Longrightarrow> nul_free gs \<Longrightarrow> fs = gs"
proof (induction fs arbitrary: gs)
  case Nil
  then show ?case by (cases gs) auto
next
  case (Cons p fs)
  then obtain q gs' where g: "gs = q # gs'" by (cases gs) (auto split: prod.splits)
  obtain n b m c where pq: "p = (n, b)" "q = (m, c)" by fastforce
  let ?text = "\<lambda>hs. concat (map (\<lambda>(n, b). utf8 n @ [NUL] @ b @ [NUL]) hs)"
  have free: "NUL \<notin> set (utf8 n)" "NUL \<notin> set (utf8 m)" "NUL \<notin> set b" "NUL \<notin> set c" "nul_free fs" "nul_free gs'"
    using Cons.prems g pq utf8_nul by (auto simp: nul_free_def)
  from Cons.prems(1) g pq have "utf8 n @ NUL # (b @ NUL # ?text fs) = utf8 m @ NUL # (c @ NUL # ?text gs')"
    by simp
  from until_nul [OF this free(1,2)] have n: "utf8 n = utf8 m" and "b @ NUL # ?text fs = c @ NUL # ?text gs'" by blast+
  from until_nul [OF this(2) free(3,4)] Cons.IH free utf8_inj [OF n] g pq show ?case by blast
qed

lemma revision_text_inj:
  assumes "revision_text fs = revision_text gs" "nul_free fs" "nul_free gs"
  shows "same_files fs gs"
proof -
  have "sort_key fst fs = sort_key fst gs"
    using text_inj [of "sort_key fst fs" "sort_key fst gs"] assms by (simp add: revision_text_def nul_free_def)
  then show ?thesis by (metis same_files_def set_sort)
qed

text \<open>A payload that holds NUL can look like two files.\<close>

lemma revisions_collide:
  "\<not> same_files [(''a.md'', ''x'' @ [NUL] @ ''b.md'' @ [NUL] @ ''y'')] [(''a.md'', ''x''), (''b.md'', ''y'')] \<and>
   memory_content_revision mt [(''a.md'', ''x'' @ [NUL] @ ''b.md'' @ [NUL] @ ''y'')] =
   memory_content_revision mt [(''a.md'', ''x''), (''b.md'', ''y'')]"
  unfolding memory_content_revision_def
  by (rule conjI, simp add: same_files_def, rule arg_cong [where f = "mt_sha mt"]) code_simp

section \<open>What the operations raise\<close>

definition store_errors :: "ticket_error set" where
  "store_errors = call_errors \<union> {memoryStoreError, runtimeError, valueError, PyError ''ResourceBusyError''}"

definition foreign :: "ticket_error set \<Rightarrow> bool" where
  "foreign X \<longleftrightarrow> X \<inter> store_errors = {}"

lemma foreignD: "foreign X \<Longrightarrow> e \<in> store_errors \<Longrightarrow> e \<notin> X"
  by (auto simp: foreign_def)

lemma store_errors_simps [simp]:
  "PyError ''OSError'' \<in> store_errors" "memoryStoreError \<in> store_errors" "runtimeError \<in> store_errors"
  "valueError \<in> store_errors" "PyError ''ResourceBusyError'' \<in> store_errors" "e \<in> call_errors \<Longrightarrow> e \<in> store_errors"
  by (simp_all add: store_errors_def call_errors_def call_error_def)

lemma foreign_simps [simp]:
  "foreign X \<Longrightarrow> memoryStoreError \<notin> X" "foreign X \<Longrightarrow> runtimeError \<notin> X" "foreign X \<Longrightarrow> valueError \<notin> X"
  "foreign X \<Longrightarrow> PyError ''ResourceBusyError'' \<notin> X" "foreign X \<Longrightarrow> PyError ''OSError'' \<notin> X"
  by (rule foreignD; simp)+

lemma validate_filename_raises: "validate_filename mt n seen = Inl e \<Longrightarrow> e = valueError"
  by (auto simp: validate_filename_def Let_def bindE_eq_Inl ensure_eq_Inl)

lemma read_entries_raises: "read_entries mt seen es = Inl e \<Longrightarrow> e = valueError"
  by (induction mt seen es rule: read_entries.induct)
    (auto simp: bindE_eq_Inl dest: validate_filename_raises)

lemma read_raises: "read_canonical_files mt d t = Inl e \<Longrightarrow> e \<in> store_errors"
  by (auto simp: read_canonical_files_def Let_def split: if_splits option.splits node.splits dest: read_entries_raises)

lemma spares_calls [sparesI]:
  assumes "foreign X"
  shows "spares X (callM mt (make_dir d n))" "spares X (callM mt (replace_file d n b))"
    "spares X (callM mt (remove_file d n))" "spares X (callM mt (remove_dir d n))"
    "spares X (callM mt (move_entry d e n))" "spares X (read_files mt d)"
  unfolding callM_def read_files_def
  by (intro spares_syscall spares_sysread foreignD [OF assms]; auto dest: call_raises read_raises)+

lemma spares_look [sparesI]: "(\<And>t e. f t = Inl e \<Longrightarrow> e \<notin> X) \<Longrightarrow> spares X (lookM f)"
  unfolding lookM_def by (rule spares_read) (auto simp: mapErr_eq_Inl)

lemma spares_directory [sparesI]: "foreign X \<Longrightarrow> spares X (lookM (actual_directory p))"
  by (rule spares_look) (auto simp: actual_directory_def ensure_eq_Inl dest: foreignD)

lemma spares_child [sparesI]: "foreign X \<Longrightarrow> spares X (ensure_child_directory mt d n)"
  unfolding ensure_child_directory_def by (intro sparesI)

lemma spares_children: "foreign X \<Longrightarrow> spares X (ensure_children mt d ns)"
  by (induction ns arbitrary: d) (auto intro!: sparesI)

lemma spares_infrastructure [sparesI]:
  "foreign X \<Longrightarrow> spares X (ensure_infrastructure_directory mt ns)"
  "foreign X \<Longrightarrow> spares X (canonical_directory mt h)"
  unfolding canonical_directory_def ensure_infrastructure_directory_def by (intro sparesI spares_children; assumption)+

lemma spares_raise [sparesI]: "e \<notin> X \<Longrightarrow> spares X (raiseM e)"
  by (simp add: spares_def)

lemma spares_remove:
  assumes "foreign X"
  shows "spares X (remove_tree mt d n c)" "spares X (remove_entries mt p es)"
  using assms
  by (induction mt d n c and mt p es rule: remove_tree_remove_entries.induct)
    (auto intro!: sparesI dest: foreignD)

lemma spares_rmtree [sparesI]: "foreign X \<Longrightarrow> spares X (safe_rmtree mt b d n)"
  unfolding safe_rmtree_def by (intro sparesI spares_remove) (auto dest: foreignD)

lemma spares_tempdir [sparesI]: "foreign X \<Longrightarrow> spares X (create_verified_tempdir mt d x)"
  unfolding create_verified_tempdir_def by (intro sparesI) auto

lemma spares_write [sparesI]: "foreign X \<Longrightarrow> spares X (write_files mt d fs)"
  unfolding write_files_def by (auto intro!: sparesI split: prod.split)

lemma spares_swap: "foreign X \<Longrightarrow> spares X (swap_files mt h temp bak fs)"
proof -
  assume X: "foreign X"
  have written: "spares X (bindS (write_files mt [''.backups'', temp] fs) (\<lambda>_. evacuate_files mt h bak))"
    unfolding evacuate_files_def using X by (auto intro!: sparesI)
  from X have undo: "spares X (bindS (catchS (rollback_canonical_replace mt h bak moved) (\<lambda>_. returnS ()))
    (\<lambda>_. raiseM runtimeError) :: unit mem_op)" for moved
    by (auto intro!: sparesI)
  have tidy: "spares X (catchS (bindS (readS (\<lambda>_. out)) (\<lambda>_. safe_rmtree mt False [''.backups''] bak))
      (\<lambda>_. bindS (catchS (rollback_canonical_replace mt h bak moved) (\<lambda>_. returnS ()))
        (\<lambda>_. raiseM runtimeError)))" for out moved
    by (intro spares_catch undo)
  show ?thesis
    unfolding spares_def
    by (auto simp: swap_files_def simp del: bindS_readS readS_apply split: prod.splits sum.splits failure.splits
        dest: sparesD [OF written] sparesD [OF undo] sparesD [OF tidy])
qed

lemma spares_replace [sparesI]: "foreign X \<Longrightarrow> spares X (replace_canonical_files mt h fs)"
  unfolding replace_canonical_files_def by (intro sparesI spares_swap)

lemma spares_lock [sparesI]: "foreign X \<Longrightarrow> spares X (take_lock mt busy h)"
  unfolding take_lock_def Let_def
  by (intro sparesI)
    (auto simp: safe_leaf_def mapErr_eq_Inl ensure_eq_Inl split: option.splits node.splits dest: foreignD)

end
