(* ===== verification/MemoryPublication.thy ===== *)
theory MemoryPublication
  imports MemoryStore
begin

text \<open>
  Publishing to a memory, \<^verbatim>\<open>flowgency/memory/publication.py\<close> with \<open>try_update_memory\<close> of
  \<^verbatim>\<open>memory/store.py\<close>. A job that ends, or a user who saves, replaces the files of a memory. A journal beside
  the memory says how far the replacement is, a backup keeps the old files, and the stage keeps the new
  ones. An exception rolls the memory back; a process that dies leaves journal, backup and stage for
  recovery.
\<close>

section \<open>Transactions\<close>

definition publicationError :: ticket_error where "publicationError = PyError ''MemoryPublicationError''"
definition publicationConflict :: ticket_error where
  "publicationConflict = PyError ''MemoryPublicationConflictError''"
definition publicationCrash :: ticket_error where "publicationCrash = PyError ''PublicationCrash''"
definition memoryConflict :: ticket_error where "memoryConflict = PyError ''MemoryConflictError''"

text \<open>The diff of a publication is only kept with the artifacts of a failed job.\<close>

record prepared_publication =
  pp_stage :: memory_stage
  pp_job :: job_key
  pp_selector :: memory_selector
  pp_memory_hash :: string
  pp_old_revision :: string
  pp_new_revision :: string
  pp_old_files :: files
  pp_new_files :: files
  pp_no_change :: bool

record memory_transaction =
  tx_kind :: string
  tx_operation_id :: string
  tx_resolved :: resolved_memory
  tx_old_revision :: string
  tx_new_revision :: string
  tx_old_files :: files
  tx_new_files :: files
  tx_selector :: memory_selector
  tx_memory_hash :: string
  tx_no_change :: bool
  tx_job :: "job_key option"

record applied_publication =
  ap_prepared :: prepared_publication
  ap_published_at :: string

record memory_receipt =
  rc_selector :: memory_selector
  rc_memory_hash :: string
  rc_old_revision :: string
  rc_new_revision :: string
  rc_published_at :: string
  rc_no_change :: bool

definition selector_json :: "memory_selector \<Rightarrow> json" where
  "selector_json m = JObj ((''scope'', JStr (ms_scope m)) #
     (case ms_channel m of None \<Rightarrow> [] | Some c \<Rightarrow> [(''channel'', JStr c)]))"

definition receipt_to_dict :: "memory_receipt \<Rightarrow> json" where
  "receipt_to_dict r = JObj [(''selector'', selector_json (rc_selector r)),
     (''memory_hash'', JStr (rc_memory_hash r)), (''old_revision'', JStr (rc_old_revision r)),
     (''new_revision'', JStr (rc_new_revision r)), (''diff_artifact'', JNull),
     (''published_at'', JStr (rc_published_at r)), (''no_change'', JBool (rc_no_change r))]"

section \<open>Places\<close>

abbreviation stages :: "string \<Rightarrow> path" where "stages h \<equiv> [''.staging'', h]"
abbreviation journals :: "string \<Rightarrow> path" where "journals h \<equiv> [''.journals'', h]"
abbreviation backups :: "string \<Rightarrow> path" where "backups h \<equiv> [''.publication-backups'', h]"
abbreviation journal_name :: "string \<Rightarrow> string" where "journal_name i \<equiv> i @ ''.yaml''"

definition journal_path :: "memory_tools \<Rightarrow> string \<Rightarrow> string \<Rightarrow> unit mem_op" where
  "journal_path mt h i =
     bindS (liftM (validate_memory_hash h)) (\<lambda>_.
     bindS (liftM (validate_job_id mt i)) (\<lambda>_. ensure_infrastructure_directory mt (journals h)))"

definition backup_path :: "memory_tools \<Rightarrow> string \<Rightarrow> string \<Rightarrow> unit mem_op" where
  "backup_path mt h i =
     bindS (liftM (validate_memory_hash h)) (\<lambda>_.
     bindS (liftM (validate_job_id mt i)) (\<lambda>_. ensure_infrastructure_directory mt (backups h)))"

definition stage_directory :: "memory_tools \<Rightarrow> string \<Rightarrow> string \<Rightarrow> unit mem_op" where
  "stage_directory mt h i =
     bindS (liftM (validate_memory_hash h)) (\<lambda>_.
     bindS (liftM (validate_job_id mt i)) (\<lambda>_. ensure_infrastructure_directory mt (stages h)))"

text \<open>\<open>_job_path\<close>: the record of the job is a file of its store, and the caller's path, if it gives one,
  is that file.\<close>

definition publication_job ::
  "memory_tools \<Rightarrow> string \<Rightarrow> string \<Rightarrow> job_key option \<Rightarrow> memory_area \<Rightarrow> ticket_error + job_key" where
  "publication_job mt team job given s =
     bindE (validate_job_id mt job) (\<lambda>safe.
     let k = (team, safe) in
     bindE (ensure (k \<notin> set (ja_escapes (ma_jobs s))) publicationError) (\<lambda>_.
     bindE (ensure (job_file_at (ma_jobs s) k \<noteq> None) publicationError) (\<lambda>_.
     bindE (ensure (given \<in> {None, Some k}) publicationError) (\<lambda>_. Inr k))))"

section \<open>Calls on the job files\<close>

definition jobM :: "memory_tools \<Rightarrow> (job_area, ticket_error, 'a) op \<Rightarrow> 'a mem_op" where
  "jobM mt m s = (case mt_hazard mt (dk_clock s) of
      Dies \<Rightarrow> (s, Inl Killed)
    | Breaks \<Rightarrow> (tick s, Inl (Failure osError))
    | Works \<Rightarrow> (case m (ma_jobs s) of (j, out) \<Rightarrow> ((tick s)\<lparr>ma_jobs := j\<rparr>, mapErr Failure out)))"

text \<open>A transition that another process has already made is accepted.\<close>

definition settle_job ::
  "memory_tools \<Rightarrow> job_key \<Rightarrow> job_status \<Rightarrow> (job_record \<Rightarrow> job_record) \<Rightarrow> unit mem_op" where
  "settle_job mt k status changes =
     catchS (bindS (jobM mt (transition_job (mt_jobs mt) k Running status changes)) (\<lambda>_. returnS ()))
       (\<lambda>e. if e \<noteq> invalidTransition then raiseM e
         else bindS (readS (\<lambda>s. mapErr Failure (read_job (mt_jobs mt) (ma_jobs s) k None))) (\<lambda>r.
           if jr_status r \<noteq> status then raiseM e else returnS ()))"

definition mark_complete :: "memory_tools \<Rightarrow> job_key \<Rightarrow> memory_receipt \<Rightarrow> unit mem_op" where
  "mark_complete mt k rc = settle_job mt k Complete (\<lambda>r.
     r\<lparr>jr_completed_at := Some (mt_now mt), jr_memory_publication := receipt_to_dict rc\<rparr>)"

definition mark_failed :: "memory_tools \<Rightarrow> job_key \<Rightarrow> string \<Rightarrow> unit mem_op" where
  "mark_failed mt k summary = settle_job mt k Failed (\<lambda>r.
     r\<lparr>jr_completed_at := Some (mt_now mt), jr_execution_summary := Some summary\<rparr>)"

section \<open>Journal, backup and cleanup\<close>

definition journal_json :: "memory_transaction \<Rightarrow> string \<Rightarrow> json" where
  "journal_json tx phase = JObj ([(''kind'', JStr (tx_kind tx)),
     (''operation_id'', JStr (tx_operation_id tx)), (''selector'', selector_json (tx_selector tx)),
     (''canonical_json'', JStr (rm_canonical_json (tx_resolved tx))),
     (''memory_hash'', JStr (tx_memory_hash tx)), (''old_revision'', JStr (tx_old_revision tx)),
     (''new_revision'', JStr (tx_new_revision tx)), (''stage_directory'', JStr (tx_operation_id tx)),
     (''backup_directory'', JStr (tx_operation_id tx)), (''phase'', JStr phase),
     (''no_change'', JBool (tx_no_change tx))] @
     (if tx_kind tx = ''job'' then [(''job_id'', JStr (tx_operation_id tx))] else []))"

definition write_transaction_journal :: "memory_tools \<Rightarrow> memory_transaction \<Rightarrow> string \<Rightarrow> unit mem_op" where
  "write_transaction_journal mt tx phase =
     callM mt (replace_file (journals (tx_memory_hash tx)) (journal_name (tx_operation_id tx))
       (jt_dump (mt_jobs mt) (journal_json tx phase)))"

definition write_backup :: "memory_tools \<Rightarrow> string \<Rightarrow> string \<Rightarrow> files \<Rightarrow> unit mem_op" where
  "write_backup mt h i fs =
     bindS (whenS (\<lambda>s. present (look (dk_root s) (backups h @ [i]))) (safe_rmtree mt False (backups h) i)) (\<lambda>_.
     bindS (ensure_child_directory mt (backups h) i) (\<lambda>_.
     write_files mt (backups h @ [i]) fs))"

definition cleanup_paths :: "memory_tools \<Rightarrow> string \<Rightarrow> string \<Rightarrow> unit mem_op" where
  "cleanup_paths mt h i =
     bindS (whenS (\<lambda>s. present (look (dk_root s) (journals h @ [journal_name i])))
              (callM mt (remove_file (journals h) (journal_name i)))) (\<lambda>_.
     bindS (whenS (\<lambda>s. present (look (dk_root s) (backups h @ [i]))) (safe_rmtree mt False (backups h) i)) (\<lambda>_.
     whenS (\<lambda>s. present (look (dk_root s) (stages h @ [i]))) (safe_rmtree mt False (stages h) i)))"

section \<open>Preparing\<close>

definition prepare_publication ::
  "memory_tools \<Rightarrow> memory_stage \<Rightarrow> string \<Rightarrow> job_key option \<Rightarrow> prepared_publication mem_op" where
  "prepare_publication mt stage team given =
     (let r = mg_resolved stage; h = rm_memory_hash r; i = mg_job_id stage in
      catchS
        (bindS (liftM (validate_resolved_memory None r)) (\<lambda>_.
         bindS (readS (\<lambda>s. mapErr Failure (publication_job mt team i given s))) (\<lambda>k.
         bindS (canonical_directory mt h) (\<lambda>_.
         bindS (read_files mt [h]) (\<lambda>old.
         bindS (liftM (ensure (memory_content_revision mt old = mg_base_revision stage) publicationConflict)) (\<lambda>_.
         bindS (read_files mt (stages h @ [i])) (\<lambda>new.
         bindS (liftM (ensure (new \<noteq> []) publicationError)) (\<lambda>_.
         bindS (journal_path mt h i) (\<lambda>_.
         bindS (backup_path mt h i) (\<lambda>_.
         returnS \<lparr>pp_stage = stage, pp_job = k, pp_selector = rm_selector r, pp_memory_hash = h,
           pp_old_revision = memory_content_revision mt old, pp_new_revision = memory_content_revision mt new,
           pp_old_files = old, pp_new_files = new, pp_no_change = same_files old new\<rparr>)))))))))) 
        (\<lambda>e. if e \<in> {publicationError, publicationConflict} then raiseM e else raiseM publicationError))"

definition job_transaction :: "prepared_publication \<Rightarrow> memory_transaction" where
  "job_transaction p = \<lparr>tx_kind = ''job'', tx_operation_id = mg_job_id (pp_stage p),
     tx_resolved = mg_resolved (pp_stage p), tx_old_revision = pp_old_revision p,
     tx_new_revision = pp_new_revision p, tx_old_files = pp_old_files p, tx_new_files = pp_new_files p,
     tx_selector = pp_selector p, tx_memory_hash = pp_memory_hash p, tx_no_change = pp_no_change p,
     tx_job = Some (pp_job p)\<rparr>"

definition prepare_direct_transaction ::
  "memory_tools \<Rightarrow> resolved_memory \<Rightarrow> files \<Rightarrow> files \<Rightarrow> memory_transaction mem_op" where
  "prepare_direct_transaction mt r old new =
     (let h = rm_memory_hash r in
      bindS (readS (\<lambda>s. Inr (''direct-save-'' @ mt_uuid mt (dk_clock s)))) (\<lambda>i.
      bindS (stage_directory mt h i) (\<lambda>_.
      bindS (whenS (\<lambda>s. present (look (dk_root s) (stages h @ [i]))) (safe_rmtree mt False (stages h) i)) (\<lambda>_.
      bindS (ensure_child_directory mt (stages h) i) (\<lambda>_.
      bindS (write_files mt (stages h @ [i]) new) (\<lambda>_.
      bindS (journal_path mt h i) (\<lambda>_.
      bindS (backup_path mt h i) (\<lambda>_.
      returnS \<lparr>tx_kind = ''direct-save'', tx_operation_id = i, tx_resolved = r,
        tx_old_revision = memory_content_revision mt old, tx_new_revision = memory_content_revision mt new,
        tx_old_files = old, tx_new_files = new, tx_selector = rm_selector r, tx_memory_hash = h,
        tx_no_change = same_files old new, tx_job = None\<rparr>))))))))"

section \<open>Applying\<close>

text \<open>The points where a test can stop a transaction.\<close>

definition checkpoint :: "string option \<Rightarrow> string \<Rightarrow> unit mem_op" where
  "checkpoint crash_at phase = liftM (ensure (crash_at \<noteq> Some phase) publicationCrash)"

definition run_transaction_locked ::
  "memory_tools \<Rightarrow> string option \<Rightarrow> bool \<Rightarrow> memory_transaction \<Rightarrow> unit mem_op" where
  "run_transaction_locked mt crash_at fail_after_publish tx =
     (let h = tx_memory_hash tx; i = tx_operation_id tx in
      bindS (canonical_directory mt h) (\<lambda>_.
      bindS (read_files mt [h]) (\<lambda>current.
      bindS (liftM (ensure (memory_content_revision mt current = tx_old_revision tx) publicationConflict)) (\<lambda>_.
      bindS (write_transaction_journal mt tx ''prepared'') (\<lambda>_.
      bindS (checkpoint crash_at ''prepared'') (\<lambda>_.
      if tx_no_change tx then
        bindS (write_transaction_journal mt tx ''published'') (\<lambda>_.
        bindS (checkpoint crash_at ''published'') (\<lambda>_.
        liftM (ensure (\<not> fail_after_publish) osError)))
      else
        bindS (write_backup mt h i (tx_old_files tx)) (\<lambda>_.
        bindS (write_transaction_journal mt tx ''backed_up'') (\<lambda>_.
        bindS (checkpoint crash_at ''backed_up'') (\<lambda>_.
        bindS (canonical_directory mt h) (\<lambda>_.
        bindS (replace_canonical_files mt h (tx_new_files tx)) (\<lambda>_.
        bindS (checkpoint crash_at ''after_replace'') (\<lambda>_.
        bindS (write_transaction_journal mt tx ''published'') (\<lambda>_.
        bindS (checkpoint crash_at ''published'') (\<lambda>_.
        liftM (ensure (\<not> fail_after_publish) osError)))))))))))))))"

text \<open>\<open>retain\<close> is what keeping the artifacts of a failed job raises, if anything. Without a lease the lock of
  the memory is taken.\<close>

definition rollback_failed_transaction ::
  "memory_tools \<Rightarrow> bool \<Rightarrow> (memory_transaction \<Rightarrow> ticket_error + unit) option \<Rightarrow> string \<Rightarrow>
   memory_transaction \<Rightarrow> unit mem_op" where
  "rollback_failed_transaction mt lease retain summary tx =
     (let h = tx_memory_hash tx in
      bindS (whenS (\<lambda>_. \<not> lease) (take_lock mt False h)) (\<lambda>_.
      bindS (canonical_directory mt h) (\<lambda>_.
      bindS (replace_canonical_files mt h (tx_old_files tx)) (\<lambda>_.
      bindS (case (retain, tx_job tx) of (Some f, Some k) \<Rightarrow> liftM (f tx) | _ \<Rightarrow> returnS ()) (\<lambda>_.
      bindS (case tx_job tx of None \<Rightarrow> returnS () | Some k \<Rightarrow> mark_failed mt k summary) (\<lambda>_.
      cleanup_paths mt h (tx_operation_id tx)))))))"

definition failure_summary :: "memory_tools \<Rightarrow> ticket_error \<Rightarrow> string" where
  "failure_summary mt e = ''Memory publication failed: '' @ mt_message mt e"

definition apply_publication ::
  "memory_tools \<Rightarrow> string option \<Rightarrow> bool \<Rightarrow> (memory_transaction \<Rightarrow> ticket_error + unit) option \<Rightarrow> bool \<Rightarrow>
   prepared_publication \<Rightarrow> applied_publication mem_op" where
  "apply_publication mt crash_at fail_after_publish retain lease p =
     (let tx = job_transaction p in
      catchS
        (bindS (whenS (\<lambda>_. \<not> lease) (take_lock mt False (tx_memory_hash tx))) (\<lambda>_.
         bindS (run_transaction_locked mt crash_at fail_after_publish tx) (\<lambda>_.
         returnS \<lparr>ap_prepared = p, ap_published_at = mt_now mt\<rparr>)))
        (\<lambda>e. if e \<in> {publicationConflict, publicationCrash} then raiseM e
          else bindS (rollback_failed_transaction mt lease retain (failure_summary mt e) tx) (\<lambda>_.
            raiseM publicationError)))"

definition finalize_publication :: "memory_tools \<Rightarrow> applied_publication \<Rightarrow> memory_receipt mem_op" where
  "finalize_publication mt a =
     (let p = ap_prepared a;
          rc = \<lparr>rc_selector = pp_selector p, rc_memory_hash = pp_memory_hash p,
            rc_old_revision = pp_old_revision p, rc_new_revision = pp_new_revision p,
            rc_published_at = ap_published_at a, rc_no_change = pp_no_change p\<rparr> in
      bindS (mark_complete mt (pp_job p) rc) (\<lambda>_.
      bindS (cleanup_paths mt (pp_memory_hash p) (mg_job_id (pp_stage p))) (\<lambda>_. returnS rc)))"

section \<open>Saving directly\<close>

definition save_direct_locked ::
  "memory_tools \<Rightarrow> resolved_memory \<Rightarrow> memory_snapshot \<Rightarrow> files \<Rightarrow> memory_snapshot mem_op" where
  "save_direct_locked mt r current new =
     bindS (prepare_direct_transaction mt r (sn_files current) new) (\<lambda>tx.
     bindS (catchS (run_transaction_locked mt None False tx)
       (\<lambda>e. if e = publicationCrash then raiseM publicationError
         else bindS (rollback_failed_transaction mt True None (failure_summary mt e) tx) (\<lambda>_.
           raiseM publicationError))) (\<lambda>_.
     bindS (cleanup_paths mt (tx_memory_hash tx) (tx_operation_id tx)) (\<lambda>_.
     returnS (snapshot_of mt r new))))"

definition try_update_memory ::
  "memory_tools \<Rightarrow> bool \<Rightarrow> resolved_memory \<Rightarrow> string \<Rightarrow> (memory_snapshot \<Rightarrow> ticket_error + files) \<Rightarrow>
   memory_snapshot mem_op" where
  "try_update_memory mt busy r expected_revision updater =
     bindS (memory_lock mt busy r) (\<lambda>_.
     bindS (ensure_memory_locked mt r) (\<lambda>current.
     bindS (liftM (bindE (updater current) (normalize_candidate_files mt))) (\<lambda>normalized.
     if sn_revision current \<noteq> expected_revision then raiseM memoryConflict
     else save_direct_locked mt r current normalized)))"

definition try_save_memory ::
  "memory_tools \<Rightarrow> bool \<Rightarrow> resolved_memory \<Rightarrow> string \<Rightarrow> files \<Rightarrow> memory_snapshot mem_op" where
  "try_save_memory mt busy r expected_revision fs =
     try_update_memory mt busy r expected_revision (\<lambda>_. Inr fs)"

section \<open>What the parts leave alone\<close>

lemma path_parallel [simp]:
  "x # p \<parallel> y # q \<longleftrightarrow> x \<noteq> y \<or> p \<parallel> q" "\<not> [] \<parallel> q" "\<not> p \<parallel> []"
  by (auto simp: parallel_def)

text \<open>The name of a memory is none of the store's own directories.\<close>

lemma digest_name:
  "full_digest h \<Longrightarrow> h \<notin> {''.backups'', ''.staging'', ''.journals'', ''.publication-backups'', ''.locks''}"
  by (auto simp: full_digest_def)

lemma keeps_lookS [keepsI]: "keeps v (checkpoint c x)" "keeps v (liftM m)"
  unfolding checkpoint_def by (intro keepsI)+

lemma keeps_paths [keepsI]:
  "[''.journals''] \<parallel> q \<Longrightarrow> keeps (spot q) (journal_path mt h i)"
  "[''.publication-backups''] \<parallel> q \<Longrightarrow> keeps (spot q) (backup_path mt h i)"
  "[''.staging''] \<parallel> q \<Longrightarrow> keeps (spot q) (stage_directory mt h i)"
  unfolding journal_path_def backup_path_def stage_directory_def by (intro keepsI; assumption)+

lemma keeps_canonical [keepsI]: "[h] \<parallel> q \<Longrightarrow> keeps (spot q) (canonical_directory mt h)"
  unfolding canonical_directory_def by (intro keepsI)

lemma keeps_journal [keepsI]:
  "journals (tx_memory_hash tx) @ [journal_name (tx_operation_id tx)] \<parallel> q \<Longrightarrow>
   keeps (spot q) (write_transaction_journal mt tx phase)"
  unfolding write_transaction_journal_def by (intro keepsI)

lemma keeps_backup [keepsI]: "backups h @ [i] \<parallel> q \<Longrightarrow> keeps (spot q) (write_backup mt h i fs)"
  unfolding write_backup_def by (intro keepsI keeps_child) simp_all

lemma keeps_cleanup [keepsI]:
  assumes "journals h @ [journal_name i] \<parallel> q" "backups h @ [i] \<parallel> q" "stages h @ [i] \<parallel> q"
  shows "keeps (spot q) (cleanup_paths mt h i)"
  unfolding cleanup_paths_def by (intro keepsI assms)

lemma keeps_jobM [keepsI]: "keeps (spot q) (jobM mt m)"
  by (auto simp: keeps_def jobM_def spot_def split: hazard.split prod.split)

lemma keeps_settle [keepsI]:
  "keeps (spot q) (mark_failed mt k x)" "keeps (spot q) (mark_complete mt k rc)"
  unfolding mark_failed_def mark_complete_def settle_job_def by (intro keepsI)+

lemma keeps_lock [keepsI]: "[''.locks''] \<parallel> q \<Longrightarrow> keeps (spot q) (take_lock mt busy h)"
  unfolding take_lock_def Let_def by (intro keepsI) (auto intro: parallel_longer dest: parallel_longer [where r = "[_]"])

text \<open>A memory whose directory exists is not touched by making sure that it does.\<close>

lemma canonical_idle: "spot [h] s \<noteq> None \<Longrightarrow> fst (canonical_directory mt h s) = s"
  by (auto simp: canonical_directory_def ensure_infrastructure_directory_def lookM_def
      ensure_child_directory_def whenS_def spot_def bindS_def split: sum.splits prod.splits)

definition own_errors :: "ticket_error set" where
  "own_errors = {publicationError, publicationConflict, memoryConflict}"

lemma own_foreign [simp]: "foreign own_errors"
  by (auto simp: foreign_def store_errors_def call_errors_def call_error_def own_errors_def publicationError_def
      publicationConflict_def memoryConflict_def memoryStoreError_def runtimeError_def)

lemma not_own [simp]: "publicationCrash \<notin> own_errors" "osError \<notin> own_errors"
  by (auto simp: own_errors_def publicationCrash_def osError_def publicationError_def publicationConflict_def
      memoryConflict_def)

lemma spares_parts [sparesI]:
  "spares own_errors (write_transaction_journal mt tx phase)"
  "spares own_errors (write_backup mt h i fs)"
  "spares own_errors (checkpoint c x)"
  "spares own_errors (liftM (ensure b osError))"
  unfolding write_transaction_journal_def write_backup_def checkpoint_def
  subgoal by (intro sparesI own_foreign)
  subgoal by (intro sparesI own_foreign)
  subgoal by (rule spares_read) (auto simp: mapErr_eq_Inl ensure_eq_Inl)
  subgoal by (rule spares_read) (auto simp: mapErr_eq_Inl ensure_eq_Inl)
  done

section \<open>A transaction that runs\<close>

definition journal_at :: "memory_tools \<Rightarrow> memory_transaction \<Rightarrow> string \<Rightarrow> memory_area \<Rightarrow> bool" where
  "journal_at mt tx phase s \<longleftrightarrow>
     spot (journals (tx_memory_hash tx) @ [journal_name (tx_operation_id tx)]) s =
       Some (FileNode (jt_dump (mt_jobs mt) (journal_json tx phase)))"

definition backed_up :: "memory_tools \<Rightarrow> memory_transaction \<Rightarrow> memory_area \<Rightarrow> bool" where
  "backed_up mt tx s \<longleftrightarrow>
     dir_is (tx_old_files tx) (spot (backups (tx_memory_hash tx) @ [tx_operation_id tx]) s) \<and>
     (journal_at mt tx ''backed_up'' s \<or> journal_at mt tx ''published'' s)"

text \<open>The old files are where they were, or all in the backup that the journal tells of.\<close>

definition old_kept :: "memory_tools \<Rightarrow> memory_transaction \<Rightarrow> memory_area \<Rightarrow> bool" where
  "old_kept mt tx s \<longleftrightarrow> dir_is (tx_old_files tx) (spot [tx_memory_hash tx] s) \<or> backed_up mt tx s"

text \<open>What a transaction needs: the name of a memory, and files with distinct names.\<close>

definition wf_transaction :: "memory_transaction \<Rightarrow> bool" where
  "wf_transaction tx \<longleftrightarrow> full_digest (tx_memory_hash tx) \<and> wf_dict (tx_old_files tx) \<and> wf_dict (tx_new_files tx) \<and>
     (tx_no_change tx \<longrightarrow> same_files (tx_old_files tx) (tx_new_files tx))"

lemma same_dir_is: "same_files fs gs \<Longrightarrow> wf_dict fs \<Longrightarrow> wf_dict gs \<Longrightarrow> dir_is fs c = dir_is gs c"
proof -
  assume "same_files fs gs" "wf_dict fs" "wf_dict gs"
  then have "map_of fs = map_of gs" by (metis map_of_inject_set same_files_def)
  then show ?thesis by (simp add: dir_is_def)
qed

text \<open>A directory that was removed and made again is empty.\<close>

lemma removed: "safe_rmtree mt False d n s = (t, Inr u) \<Longrightarrow> spot (d @ [n]) t = None"
proof -
  assume rm: "safe_rmtree mt False d n s = (t, Inr u)"
  then obtain es where "remove_tree mt d n (DirNode es) s = (t, Inr u)"
    by (auto simp: safe_rmtree_def is_directory_def split: if_splits option.splits node.splits)
  then obtain v where "callM mt (remove_dir d n) v = (t, Inr u)" by (auto simp: bindS_Inr)
  then show ?thesis
    by (auto simp: callM_Inr call_defs spot_def look_append look_alter delete_conv')
qed

lemma made_again:
  assumes "whenS (\<lambda>s. present (look (dk_root s) (d @ [n]))) (safe_rmtree mt False d n) s = (u, Inr x)"
    and "ensure_child_directory mt d n u = (t, Inr y)"
  shows "spot (d @ [n]) t = Some (DirNode [])"
proof (cases "spot (d @ [n]) u")
  case None
  with assms(2) have "callM mt (make_dir d n) u = (t, Inr ())"
    by (auto simp: ensure_child_directory_def whenS_def returned spot_def)
  then show ?thesis by (auto simp: callM_Inr call_defs spot_def look_append look_alter update_conv')
next
  case (Some c)
  with assms(1) removed [of mt d n s u] have "s = u" "\<not> present (Some c)"
    by (auto simp: whenS_def spot_def split: if_splits)
  with Some assms(2) show ?thesis
    by (auto simp: ensure_child_directory_def whenS_def returned spot_def actual_directory_def ensure_eq_Inr
        present_def is_directory_def split: node.splits)
qed

lemma write_backup_holds:
  assumes "wf_dict fs" "write_backup mt h i fs s = (t, Inr u)"
  shows "dir_is fs (spot (backups h @ [i]) t)"
proof -
  from assms(2) obtain v w x y where
    "whenS (\<lambda>s. present (look (dk_root s) (backups h @ [i]))) (safe_rmtree mt False (backups h) i) s = (v, Inr x)"
    "ensure_child_directory mt (backups h) i v = (w, Inr y)" and fill: "write_files mt (backups h @ [i]) fs w = (t, Inr u)"
    unfolding write_backup_def returned by blast
  then have "spot (backups h @ [i]) w = Some (DirNode [])" by (intro made_again)
  with write_files_holds [OF assms(1) _ fill] show ?thesis by (simp add: spot_def)
qed

lemma replaced: "callM mt (replace_file d n b) s = (t, Inr u) \<Longrightarrow> spot (d @ [n]) t = Some (FileNode b)"
  by (auto simp: callM_Inr call_defs spot_def look_append look_alter update_conv')

lemma journal_written:
  "write_transaction_journal mt tx phase s = (t, Inr u) \<Longrightarrow> journal_at mt tx phase t"
  unfolding write_transaction_journal_def journal_at_def by (rule replaced)

lemma callM_early: "callM mt f s = (t, Inl e) \<Longrightarrow> spot q t = spot q s"
  by (auto simp: callM_def syscall_def split: hazard.splits sum.splits)

lemma keeps_journal_at [keepsI]:
  "keeps (spot (journals (tx_memory_hash tx) @ [journal_name (tx_operation_id tx)])) m \<Longrightarrow>
   keeps (spot (backups (tx_memory_hash tx) @ [tx_operation_id tx])) m \<Longrightarrow> keeps (backed_up mt tx) m"
  unfolding keeps_def backed_up_def journal_at_def by simp

text \<open>Replacing the memory once the backup is complete, up to the end of the transaction.\<close>

lemma publish_triple:
  assumes "wf_transaction tx"
  defines "h \<equiv> tx_memory_hash tx"
  shows "triple (\<lambda>s. backed_up mt tx s)
    (bindS (canonical_directory mt h) (\<lambda>_.
     bindS (replace_canonical_files mt h (tx_new_files tx)) (\<lambda>_.
     bindS (checkpoint crash_at ''after_replace'') (\<lambda>_.
     bindS (write_transaction_journal mt tx ''published'') (\<lambda>_.
     bindS (checkpoint crash_at ''published'') (\<lambda>_.
     liftM (ensure (\<not> fail) osError)))))))
    (\<lambda>_ s. dir_is (tx_new_files tx) (spot [h] s))
    (\<lambda>f s. backed_up mt tx s \<and> f \<notin> Failure ` own_errors)"
proof -
  let ?N = "\<lambda>s. dir_is (tx_new_files tx) (spot [h] s)"
  let ?E = "\<lambda>f s. backed_up mt tx s \<and> f \<notin> Failure ` own_errors"
  have names: "h \<noteq> ''.backups''" "h \<noteq> ''.journals''" "h \<noteq> ''.publication-backups''" "h \<noteq> ''.staging''"
    using digest_name assms by (auto simp: wf_transaction_def)
  have far: "keeps (backed_up mt tx) (canonical_directory mt h)"
    "keeps (backed_up mt tx) (replace_canonical_files mt h (tx_new_files tx))"
    using names by (auto intro!: keepsI)
  have repl: "triple (backed_up mt tx) (replace_canonical_files mt h (tx_new_files tx))
    (\<lambda>_ s. backed_up mt tx s \<and> ?N s) ?E"
  proof (rule tripleI')
    fix s t x assume b: "backed_up mt tx s"
    show "backed_up mt tx t \<and> ?N t" if "replace_canonical_files mt h (tx_new_files tx) s = (t, Inr x)"
      using keepsD [OF far(2) that] b replace_holds [OF _ names(1) that] assms(1)
      by (simp add: wf_transaction_def spot_def)
    show "?E e t" if "replace_canonical_files mt h (tx_new_files tx) s = (t, Inl e)" for e
      using keepsD [OF far(2) that] b sparesD [OF spares_replace [OF own_foreign]] that by auto
  qed
  have note_it: "triple (\<lambda>s. backed_up mt tx s \<and> ?N s) (write_transaction_journal mt tx ''published'')
    (\<lambda>_ s. backed_up mt tx s \<and> ?N s) ?E"
  proof (rule tripleI')
    let ?w = "write_transaction_journal mt tx ''published''"
    fix s t x assume b: "backed_up mt tx s \<and> ?N s"
    have "keeps (spot [h]) ?w" "keeps (spot (backups h @ [tx_operation_id tx])) ?w"
      unfolding h_def using names by (auto intro!: keepsI simp: h_def)
    from this [THEN keepsD] show "backed_up mt tx t \<and> ?N t" if "?w s = (t, Inr x)"
      using that b journal_written [OF that] by (simp add: backed_up_def h_def)
    show "?E e t" if "?w s = (t, Inl e)" for e
      using that b callM_early [of mt _ s t e] sparesD [OF spares_parts(1)]
      by (auto simp: backed_up_def journal_at_def write_transaction_journal_def)
  qed
  have check: "triple (\<lambda>s. backed_up mt tx s \<and> ?N s) (checkpoint crash_at x) (\<lambda>_ s. backed_up mt tx s \<and> ?N s) ?E"
    "triple (\<lambda>s. backed_up mt tx s \<and> ?N s) (liftM (ensure (\<not> fail) osError)) (\<lambda>_. ?N) ?E" for x
    by (auto simp: checkpoint_def mapErr_eq_Inl ensure_eq_Inl intro!: triple_read split: sum.split)
  have start: "triple (backed_up mt tx) (canonical_directory mt h) (\<lambda>_. backed_up mt tx) ?E"
    using triple_kept [OF far(1), where R = "\<lambda>b. b"] spares_infrastructure(2) own_foreign by simp
  show ?thesis
    by (rule start [THEN triple_bind], rule repl [THEN triple_bind], rule check(1) [THEN triple_bind],
        rule note_it [THEN triple_bind], rule check(1) [THEN triple_bind], rule check(2))
qed

text \<open>The whole transaction, from a memory with the old files.\<close>

lemma run_triple:
  assumes "wf_transaction tx"
  defines "h \<equiv> tx_memory_hash tx"
  shows "triple (\<lambda>s. dir_is (tx_old_files tx) (spot [h] s)) (run_transaction_locked mt crash_at fail tx)
    (\<lambda>_ s. dir_is (tx_new_files tx) (spot [h] s))
    (\<lambda>f s. old_kept mt tx s \<and> (f \<in> Failure ` own_errors \<longrightarrow> dir_is (tx_old_files tx) (spot [h] s)))"
proof -
  let ?A = "\<lambda>s. dir_is (tx_old_files tx) (spot [h] s)"
  let ?E = "\<lambda>f s. old_kept mt tx s \<and> (f \<in> Failure ` own_errors \<longrightarrow> ?A s)"
  have names: "h \<noteq> ''.journals''" "h \<noteq> ''.publication-backups''"
    using digest_name assms by (auto simp: wf_transaction_def)
  have old: "?E f s" if "?A s" for f s using that by (simp add: old_kept_def h_def)
  have stays: "triple ?A m (\<lambda>_. ?A) ?E" if "keeps (spot [h]) m" for m :: "'a mem_op"
    using keepsD [OF that] by (intro tripleI') (auto simp: old_kept_def h_def)
  have journal: "triple ?A (write_transaction_journal mt tx phase) (\<lambda>_. ?A) ?E" for phase
    using names by (intro stays keepsI) (simp add: h_def)
  have start: "triple ?A (canonical_directory mt h) (\<lambda>_. ?A) ?E"
  proof (rule tripleI')
    fix s t x assume A: "?A s"
    then have "fst (canonical_directory mt h s) = s" by (intro canonical_idle) (auto simp: dir_is_def)
    with A old show "canonical_directory mt h s = (t, Inr x) \<Longrightarrow> ?A t"
      "\<And>e. canonical_directory mt h s = (t, Inl e) \<Longrightarrow> ?E e t" by auto
  qed
  have backup: "triple ?A (write_backup mt h (tx_operation_id tx) (tx_old_files tx))
    (\<lambda>_ s. ?A s \<and> dir_is (tx_old_files tx) (spot (backups h @ [tx_operation_id tx]) s)) ?E"
  proof (rule tripleI')
    let ?w = "write_backup mt h (tx_operation_id tx) (tx_old_files tx)"
    fix s t x assume A: "?A s"
    have k: "keeps (spot [h]) ?w" using names by (intro keepsI) simp
    show "?A t \<and> dir_is (tx_old_files tx) (spot (backups h @ [tx_operation_id tx]) t)" if "?w s = (t, Inr x)"
      using keepsD [OF k that] A write_backup_holds [OF _ that] assms(1) by (simp add: wf_transaction_def)
    show "?E e t" if "?w s = (t, Inl e)" for e
      using keepsD [OF k that] A old by simp
  qed
  have noted: "triple (\<lambda>s. ?A s \<and> dir_is (tx_old_files tx) (spot (backups h @ [tx_operation_id tx]) s))
    (write_transaction_journal mt tx ''backed_up'') (\<lambda>_ s. ?A s \<and> backed_up mt tx s) ?E"
  proof (rule tripleI')
    let ?w = "write_transaction_journal mt tx ''backed_up''"
    fix s t x assume A: "?A s \<and> dir_is (tx_old_files tx) (spot (backups h @ [tx_operation_id tx]) s)"
    have k: "keeps (spot [h]) ?w" "keeps (spot (backups h @ [tx_operation_id tx])) ?w"
      using names by (auto intro!: keepsI simp: h_def)
    show "?A t \<and> backed_up mt tx t" if "?w s = (t, Inr x)"
      using k [THEN keepsD, OF that] A journal_written [OF that] by (simp add: backed_up_def h_def)
    show "?E e t" if "?w s = (t, Inl e)" for e
      using k [THEN keepsD, OF that] A old by simp
  qed
  have change: "triple (\<lambda>s. ?A s \<and> backed_up mt tx s) (checkpoint crash_at ''backed_up'') (\<lambda>_. backed_up mt tx) ?E"
    using old by (auto simp: checkpoint_def intro!: triple_read split: sum.split)
  have rest: "triple (backed_up mt tx)
    (bindS (canonical_directory mt h) (\<lambda>_.
     bindS (replace_canonical_files mt h (tx_new_files tx)) (\<lambda>_.
     bindS (checkpoint crash_at ''after_replace'') (\<lambda>_.
     bindS (write_transaction_journal mt tx ''published'') (\<lambda>_.
     bindS (checkpoint crash_at ''published'') (\<lambda>_.
     liftM (ensure (\<not> fail) osError))))))) (\<lambda>_ s. dir_is (tx_new_files tx) (spot [h] s)) ?E"
    using publish_triple [OF assms(1), of mt crash_at fail] unfolding h_def
    by (rule triple_early) (simp add: old_kept_def)
  have read: "triple ?A (read_files mt [h]) (\<lambda>_. ?A) ?E" by (intro stays keepsI)
  have conflict: "triple ?A (liftM (ensure c publicationConflict)) (\<lambda>_. ?A) ?E" for c by (intro stays keepsI)
  have check: "triple ?A (checkpoint crash_at x) (\<lambda>_. ?A) ?E" for x by (intro stays keepsI)
  have same: "tx_no_change tx \<Longrightarrow> ?A s \<Longrightarrow> dir_is (tx_new_files tx) (spot [h] s)" for s
    using assms(1) same_dir_is by (metis wf_transaction_def)
  have done_same: "triple ?A (liftM (ensure (\<not> fail) osError)) (\<lambda>_ s. dir_is (tx_new_files tx) (spot [h] s)) ?E"
    if "tx_no_change tx"
    using same [OF that] by (intro triple_post [OF stays]) (auto intro: keepsI)
  show ?thesis
    unfolding run_transaction_locked_def Let_def h_def [symmetric]
    by (rule start [THEN triple_bind], rule read [THEN triple_bind], rule conflict [THEN triple_bind],
        rule journal [THEN triple_bind], rule check [THEN triple_bind], rule triple_if,
        rule journal [THEN triple_bind], rule check [THEN triple_bind], rule done_same, assumption,
        rule backup [THEN triple_bind], rule noted [THEN triple_bind], rule change [THEN triple_bind], rule rest)
qed

text \<open>A rollback that gets past the replacement has restored the old files, whatever it raises after.\<close>

lemma rollback_triple:
  assumes "wf_transaction tx"
  defines "h \<equiv> tx_memory_hash tx"
  shows "triple (\<lambda>_. True) (rollback_failed_transaction mt lease retain summary tx)
    (\<lambda>_ s. dir_is (tx_old_files tx) (spot [h] s))
    (\<lambda>f s. f \<in> Failure ` own_errors \<longrightarrow> dir_is (tx_old_files tx) (spot [h] s))"
proof -
  let ?A = "\<lambda>s. dir_is (tx_old_files tx) (spot [h] s)"
  let ?E = "\<lambda>f s. f \<in> Failure ` own_errors \<longrightarrow> ?A s"
  have names: "h \<noteq> ''.backups''" "h \<noteq> ''.journals''" "h \<noteq> ''.publication-backups''" "h \<noteq> ''.staging''"
    using digest_name assms by (auto simp: wf_transaction_def)
  have before: "triple (\<lambda>_. True) m (\<lambda>_ _. True) ?E" if "spares own_errors m" for m :: "'a mem_op"
    using sparesD [OF that] by (intro tripleI') auto
  have after: "triple ?A m (\<lambda>_. ?A) ?E" if "keeps (spot [h]) m" for m :: "'a mem_op"
    using keepsD [OF that] by (intro tripleI') auto
  have repl: "triple (\<lambda>_. True) (replace_canonical_files mt h (tx_old_files tx)) (\<lambda>_. ?A) ?E"
  proof (rule tripleI')
    fix s t x
    show "?A t" if "replace_canonical_files mt h (tx_old_files tx) s = (t, Inr x)"
      using replace_holds [OF _ names(1) that] assms(1) by (simp add: wf_transaction_def spot_def)
    show "?E e t" if "replace_canonical_files mt h (tx_old_files tx) s = (t, Inl e)" for e
      using sparesD [OF spares_replace [OF own_foreign]] that by auto
  qed
  have tail: "keeps (spot [h])
    (bindS (case (retain, tx_job tx) of (Some f, Some k) \<Rightarrow> liftM (f tx) | _ \<Rightarrow> returnS ()) (\<lambda>_.
     bindS (case tx_job tx of None \<Rightarrow> returnS () | Some k \<Rightarrow> mark_failed mt k summary) (\<lambda>_.
     cleanup_paths mt h (tx_operation_id tx))))"
    using names by (auto intro!: keepsI split: option.split)
  show ?thesis
    unfolding rollback_failed_transaction_def Let_def h_def [symmetric]
    by (rule triple_bind, rule before, intro sparesI own_foreign,
        rule triple_bind, rule before, intro sparesI own_foreign,
        rule repl [THEN triple_bind], rule after, rule tail)
qed

text \<open>Applying a publication from a memory with the old files.\<close>

lemma apply_triple:
  assumes "wf_transaction (job_transaction p)"
  defines "h \<equiv> pp_memory_hash p"
  shows "triple (\<lambda>s. dir_is (pp_old_files p) (spot [h] s)) (apply_publication mt crash_at fail retain lease p)
    (\<lambda>_ s. dir_is (pp_new_files p) (spot [h] s))
    (\<lambda>f s. f \<in> Failure ` own_errors \<longrightarrow> dir_is (pp_old_files p) (spot [h] s))"
proof -
  let ?tx = "job_transaction p"
  let ?A = "\<lambda>s. dir_is (pp_old_files p) (spot [h] s)"
  let ?E = "\<lambda>f s. f \<in> Failure ` own_errors \<longrightarrow> ?A s"
  have tx: "tx_memory_hash ?tx = h" "tx_old_files ?tx = pp_old_files p" "tx_new_files ?tx = pp_new_files p"
    by (simp_all add: job_transaction_def h_def)
  have names: "h \<noteq> ''.locks''" using digest_name assms(1) tx by (auto simp: wf_transaction_def)
  have "keeps (spot [h]) (whenS (\<lambda>_. \<not> lease) (take_lock mt False h))" using names by (intro keepsI) simp
  from keepsD [OF this] have lock: "triple ?A (whenS (\<lambda>_. \<not> lease) (take_lock mt False h)) (\<lambda>_. ?A) ?E"
    by (intro tripleI') auto
  have run: "triple ?A (run_transaction_locked mt crash_at fail ?tx)
      (\<lambda>_ s. dir_is (pp_new_files p) (spot [h] s)) ?E"
    using run_triple [OF assms(1), of mt crash_at fail] unfolding tx by (rule triple_early) simp
  show ?thesis
    unfolding apply_publication_def Let_def tx
  proof (rule triple_catch)
    show "triple ?A (bindS (whenS (\<lambda>_. \<not> lease) (take_lock mt False h)) (\<lambda>_.
        bindS (run_transaction_locked mt crash_at fail ?tx) (\<lambda>_.
        returnS \<lparr>ap_prepared = p, ap_published_at = mt_now mt\<rparr>)))
      (\<lambda>_ s. dir_is (pp_new_files p) (spot [h] s)) ?E"
      by (rule lock [THEN triple_bind], rule run [THEN triple_bind], rule triple_read) simp
  next
    fix e
    show "triple (?E (Failure e)) (if e \<in> {publicationConflict, publicationCrash} then raiseM e
        else bindS (rollback_failed_transaction mt lease retain (failure_summary mt e) ?tx) (\<lambda>_. raiseM publicationError))
      (\<lambda>_ s. dir_is (pp_new_files p) (spot [h] s)) ?E"
    proof (rule triple_if)
      show "triple (?E (Failure e)) (raiseM e) (\<lambda>_ s. dir_is (pp_new_files p) (spot [h] s)) ?E"
        by (rule triple_read) simp
    next
      show "triple (?E (Failure e))
          (bindS (rollback_failed_transaction mt lease retain (failure_summary mt e) ?tx) (\<lambda>_. raiseM publicationError))
          (\<lambda>_ s. dir_is (pp_new_files p) (spot [h] s)) ?E"
        by (rule triple_bind, rule triple_pre, rule rollback_triple [OF assms(1), unfolded tx], simp)
          (rule triple_read, simp)
    qed
  qed simp
qed

section \<open>What a publication does to a memory\<close>

text \<open>The content of a directory, as a map; a directory has distinct names.\<close>

definition contents :: "node option \<Rightarrow> (string \<rightharpoonup> node) option" where
  "contents c = (case c of Some (DirNode es) \<Rightarrow> Some (map_of es) | _ \<Rightarrow> None)"

definition wf_dir :: "node option \<Rightarrow> bool" where
  "wf_dir c \<longleftrightarrow> (case c of Some (DirNode es) \<Rightarrow> wf_dict es | _ \<Rightarrow> True)"

text \<open>The abstract publication: a memory has the staged content when it commits, and its own otherwise.\<close>

definition publish_spec :: "'c \<Rightarrow> 'c \<Rightarrow> bool \<Rightarrow> 'c" where
  "publish_spec before staged commit = (if commit then staged else before)"

lemma dir_is_contents: "dir_is fs c \<Longrightarrow> contents c = Some (\<lambda>k. map_option FileNode (map_of fs k))"
  by (auto simp: dir_is_def contents_def fun_eq_iff)

lemma dir_is_same: "dir_is fs c \<Longrightarrow> dir_is fs d \<Longrightarrow> contents c = contents d"
  by (simp add: dir_is_contents)

lemma read_entries_files: "read_entries mt seen es = Inr fs \<Longrightarrow> es = map (\<lambda>(n, b). (n, FileNode b)) fs"
  by (induction mt seen es arbitrary: fs rule: read_entries.induct) (auto simp: bindE_eq_Inr)

lemma read_dir_is:
  assumes "read_canonical_files mt d t = Inr fs" "look t d = Some (DirNode es)" "wf_dict es"
  shows "dir_is fs (look t d)" "wf_dict fs"
proof -
  let ?sorted = "sort_key (\<lambda>e. mt_casefold mt (fst e)) es"
  have "read_entries mt [] ?sorted = Inr fs"
    using assms(1,2) by (simp add: read_canonical_files_def present_def Let_def)
  then have sorted: "?sorted = map (\<lambda>(n, b). (n, FileNode b)) fs" by (rule read_entries_files)
  have wf: "wf_dict ?sorted" using assms(3) by (metis distinct_map distinct_sort set_sort)
  with assms(3) have "map_of es = map_of ?sorted" by (metis map_of_inject_set set_sort)
  moreover have "map_of ?sorted k = map_option FileNode (map_of fs k)" for k
    unfolding sorted by (induction fs) auto
  ultimately have "map_of es k = map_option FileNode (map_of fs k)" for k by simp
  with assms(2,3) show "dir_is fs (look t d)" by (simp add: dir_is_def)
  have "keys ?sorted = keys fs" unfolding sorted by (induction fs) auto
  with wf show "wf_dict fs" by simp
qed

lemma read_files_Inr:
  "read_files mt d s = (t, Inr fs) \<Longrightarrow> t = tick s \<and> read_canonical_files mt d (dk_root s) = Inr fs"
  by (auto simp: read_files_def sysread_def mapErr_eq_Inr split: hazard.splits)

lemma read_files_dir:
  assumes "read_files mt d s = (t, Inr fs)" "wf_dir (spot d s)" "fs \<noteq> [] \<or> is_directory (spot d s)"
  shows "dir_is fs (spot d s)" "wf_dict fs" "spot q t = spot q s"
proof -
  from assms(1) have rd: "t = tick s" "read_canonical_files mt d (dk_root s) = Inr fs"
    using read_files_Inr by blast+
  then show "spot q t = spot q s" by simp
  from rd(2) assms(3) obtain es where es: "look (dk_root s) d = Some (DirNode es)"
    by (auto simp: read_canonical_files_def Let_def is_directory_def spot_def
        split: if_splits option.splits node.splits)
  with assms(2) have "wf_dict es" by (simp add: wf_dir_def spot_def)
  from read_dir_is [OF rd(2) es this] show "dir_is fs (spot d s)" "wf_dict fs" by (simp_all add: spot_def)
qed

text \<open>What preparing finds: the files of the memory and of the stage, which stay as they are.\<close>

lemma prepare_finds:
  assumes "prepare_publication mt stage team given s = (t, Inr p)"
  defines "h \<equiv> rm_memory_hash (mg_resolved stage)" and "i \<equiv> mg_job_id stage"
  assumes "wf_dir (spot [h] s)" "wf_dir (spot (stages h @ [i]) s)" "spot [h] s \<noteq> None"
  shows "wf_transaction (job_transaction p)" "pp_memory_hash p = h" "pp_stage p = stage"
    and "spot [h] t = spot [h] s" "spot (stages h @ [i]) t = spot (stages h @ [i]) s"
    and "dir_is (pp_old_files p) (spot [h] s)" "dir_is (pp_new_files p) (spot (stages h @ [i]) s)"
proof -
  from assms(1) obtain k u v old w new x where
    valid: "validate_resolved_memory None (mg_resolved stage) = Inr ()" and
    u: "canonical_directory mt h s = (u, Inr ())" and v: "read_files mt [h] u = (v, Inr old)" and
    w: "read_files mt (stages h @ [i]) v = (w, Inr new)" and new: "new \<noteq> []" and
    x: "journal_path mt h i w = (x, Inr ())" and t: "backup_path mt h i x = (t, Inr ())" and
    p: "p = \<lparr>pp_stage = stage, pp_job = k, pp_selector = rm_selector (mg_resolved stage), pp_memory_hash = h,
      pp_old_revision = memory_content_revision mt old, pp_new_revision = memory_content_revision mt new,
      pp_old_files = old, pp_new_files = new, pp_no_change = same_files old new\<rparr>"
    unfolding prepare_publication_def Let_def returned mapErr_eq_Inr ensure_eq_Inr h_def i_def
    by (auto simp: readS_Inr simp del: bindS_readS readS_apply split: if_splits)
  have digest: "full_digest h"
    using valid by (auto simp: validate_resolved_memory_def validate_memory_hash_def bindE_eq_Inr ensure_eq_Inr h_def)
  note names = digest_name [OF this]
  have us: "u = s" using canonical_idle [OF assms(6), of mt] u by simp
  have "is_directory (spot [h] s)"
    using u us by (auto simp: canonical_directory_def ensure_infrastructure_directory_def
        ensure_child_directory_def returned actual_directory_def ensure_eq_Inr spot_def)
  with read_files_dir [OF v] us assms(4)
  have old: "dir_is old (spot [h] s)" "wf_dict old" "spot q v = spot q s" for q by auto
  with read_files_dir [OF w] assms(5) new
  have stg: "dir_is new (spot (stages h @ [i]) s)" "wf_dict new" "spot q w = spot q s" for q by auto
  show "spot [h] t = spot [h] s" "spot (stages h @ [i]) t = spot (stages h @ [i]) s"
    using stg(3) keepsD [OF keeps_paths(1) x] keepsD [OF keeps_paths(2) t] names by auto
  show "wf_transaction (job_transaction p)" "pp_memory_hash p = h" "pp_stage p = stage"
    "dir_is (pp_old_files p) (spot [h] s)" "dir_is (pp_new_files p) (spot (stages h @ [i]) s)"
    using old stg digest p by (simp_all add: wf_transaction_def job_transaction_def)
qed

text \<open>C10: Applying a prepared publication implements the abstract one, whichever calls of the operating
  system fail: when it returns, the memory has exactly the content of the stage, and when it raises a
  publication error or a conflict, the memory has exactly the content it had before.\<close>

theorem publication_atomic:
  assumes "prepare_publication mt stage team given s0 = (s, Inr p)"
    and "apply_publication mt crash_at fail retain lease p s = (t, out)"
  defines "h \<equiv> rm_memory_hash (mg_resolved stage)" and "i \<equiv> mg_job_id stage"
  assumes "spot [h] s0 \<noteq> None" "wf_dir (spot [h] s0)" "wf_dir (spot (stages h @ [i]) s0)"
    and "isOk out \<or> out \<in> {Inl (Failure publicationError), Inl (Failure publicationConflict)}"
  shows "contents (spot [h] t) =
    publish_spec (contents (spot [h] s0)) (contents (spot (stages h @ [i]) s0)) (isOk out)"
proof -
  note found = prepare_finds [OF assms(1), folded h_def i_def, OF assms(6,7,5)]
  have tr: "triple (\<lambda>s. dir_is (pp_old_files p) (spot [h] s)) (apply_publication mt crash_at fail retain lease p)
    (\<lambda>_ s. dir_is (pp_new_files p) (spot [h] s))
    (\<lambda>f s. f \<in> Failure ` own_errors \<longrightarrow> dir_is (pp_old_files p) (spot [h] s))"
    using apply_triple [OF found(1)] found(2) by simp
  have before: "dir_is (pp_old_files p) (spot [h] s)" using found(4,6) by simp
  show ?thesis
  proof (cases out)
    case (Inr a)
    with tripleD(1) [OF tr before] assms(2) have "dir_is (pp_new_files p) (spot [h] t)" by simp
    from dir_is_same [OF this found(7)] Inr show ?thesis by (simp add: publish_spec_def)
  next
    case (Inl f)
    with assms(8) have "f \<in> Failure ` own_errors" by (auto simp: own_errors_def)
    with tripleD(2) [OF tr before] assms(2) Inl have "dir_is (pp_old_files p) (spot [h] t)" by simp
    from dir_is_same [OF this found(6)] Inl show ?thesis by (simp add: publish_spec_def)
  qed
qed

lemma keeps_run [keepsI]:
  assumes "[''.journals''] \<parallel> q" "[''.publication-backups''] \<parallel> q" "[''.backups''] \<parallel> q"
    "[tx_memory_hash tx] \<parallel> q"
  shows "keeps (spot q) (run_transaction_locked mt crash_at fail tx)"
proof -
  have "x # ps \<parallel> q" if "[x] \<parallel> q" for x ps using parallel_longer [OF that, of ps] by simp
  with assms show ?thesis
    unfolding run_transaction_locked_def Let_def by (intro keepsI) auto
qed

text \<open>C11: A transaction that is cut short, because the process dies at any call or an exception is raised,
  loses nothing: the memory still has its old content, or the backup has all of it and the journal says
  so, and the staged content is untouched.\<close>

theorem interrupted_keeps_old:
  assumes "prepare_publication mt stage team given s0 = (s, Inr p)"
    and "run_transaction_locked mt crash_at fail (job_transaction p) s = (t, Inl e)"
  defines "h \<equiv> rm_memory_hash (mg_resolved stage)" and "i \<equiv> mg_job_id stage"
  assumes "spot [h] s0 \<noteq> None" "wf_dir (spot [h] s0)" "wf_dir (spot (stages h @ [i]) s0)"
  shows "(contents (spot [h] t) = contents (spot [h] s0) \<or>
      contents (spot (backups h @ [i]) t) = contents (spot [h] s0) \<and>
      (journal_at mt (job_transaction p) ''backed_up'' t \<or> journal_at mt (job_transaction p) ''published'' t)) \<and>
    spot (stages h @ [i]) t = spot (stages h @ [i]) s0"
proof -
  note found = prepare_finds [OF assms(1), folded h_def i_def, OF assms(6,7,5)]
  have tx: "tx_memory_hash (job_transaction p) = h" "tx_operation_id (job_transaction p) = i"
    "tx_old_files (job_transaction p) = pp_old_files p"
    using found(2,3) by (simp_all add: job_transaction_def i_def)
  have h: "h \<noteq> ''.staging''" using digest_name found(1) tx by (auto simp: wf_transaction_def)
  from tripleD(2) [OF run_triple [OF found(1)] _ assms(2)] found(4,6) tx
  have "old_kept mt (job_transaction p) t" by simp
  then have "contents (spot [h] t) = contents (spot [h] s0) \<or>
      contents (spot (backups h @ [i]) t) = contents (spot [h] s0) \<and>
      (journal_at mt (job_transaction p) ''backed_up'' t \<or> journal_at mt (job_transaction p) ''published'' t)"
    using dir_is_same [OF _ found(6)] by (auto simp: old_kept_def backed_up_def tx)
  moreover have "spot (stages h @ [i]) t = spot (stages h @ [i]) s"
    using keepsD [OF keeps_run assms(2)] h tx by auto
  ultimately show ?thesis using found(5) by simp
qed

section \<open>What saving does\<close>

lemma keeps_direct:
  assumes "[''.staging''] \<parallel> q" "[''.journals''] \<parallel> q" "[''.publication-backups''] \<parallel> q"
  shows "keeps (spot q) (prepare_direct_transaction mt r old new)"
proof -
  have "x # ps \<parallel> q" if "[x] \<parallel> q" for x ps using parallel_longer [OF that, of ps] by simp
  with assms show ?thesis
    unfolding prepare_direct_transaction_def Let_def by (intro keepsI keeps_child) auto
qed

lemma direct_transaction:
  assumes "prepare_direct_transaction mt r old new s = (t, Inr tx)" "wf_dict old" "wf_dict new"
  shows "wf_transaction tx" "tx_memory_hash tx = rm_memory_hash r" "tx_old_files tx = old" "tx_new_files tx = new"
  using assms
  by (auto simp: prepare_direct_transaction_def Let_def returned wf_transaction_def stage_directory_def
      mapErr_eq_Inr validate_memory_hash_def bindE_eq_Inr ensure_eq_Inr simp del: bindS_readS readS_apply)

lemma spares_cleanup [sparesI]: "spares own_errors (cleanup_paths mt h i)"
  unfolding cleanup_paths_def by (intro sparesI own_foreign)

text \<open>Without a test's checkpoint a transaction never simulates a crash.\<close>

lemma spares_run: "spares {publicationCrash} (run_transaction_locked mt None fail tx)"
proof -
  have X: "foreign {publicationCrash}"
    by (auto simp: foreign_def store_errors_def call_errors_def call_error_def publicationCrash_def
        memoryStoreError_def runtimeError_def)
  have "spares {publicationCrash} (liftM (ensure b e) :: unit mem_op)" if "e \<noteq> publicationCrash" for b e
    using that by (auto intro!: spares_read simp: mapErr_eq_Inl ensure_eq_Inl)
  moreover have "spares {publicationCrash} (checkpoint None x)" for x
    by (auto simp: checkpoint_def intro!: spares_read)
  ultimately show ?thesis
    unfolding run_transaction_locked_def write_transaction_journal_def write_backup_def Let_def
    by (intro sparesI X) (auto simp: publicationConflict_def publicationCrash_def osError_def mapErr_eq_Inl ensure_eq_Inl)
qed

lemma save_triple:
  fixes r :: resolved_memory
  assumes "wf_dict (sn_files current)" "wf_dict new"
  defines "h \<equiv> rm_memory_hash r"
  assumes "full_digest h"
  shows "triple (\<lambda>s. dir_is (sn_files current) (spot [h] s)) (save_direct_locked mt r current new)
    (\<lambda>sn s. dir_is new (spot [h] s) \<and> sn = snapshot_of mt r new)
    (\<lambda>f s. f \<in> Failure ` own_errors \<longrightarrow> dir_is (sn_files current) (spot [h] s))"
proof -
  let ?A = "\<lambda>s. dir_is (sn_files current) (spot [h] s)"
  let ?N = "\<lambda>s. dir_is new (spot [h] s)"
  let ?E = "\<lambda>f s. f \<in> Failure ` own_errors \<longrightarrow> ?A s"
  note names = digest_name [OF assms(4)]
  let ?fits = "\<lambda>tx. wf_transaction tx \<and> tx_memory_hash tx = h \<and> tx_old_files tx = sn_files current \<and> tx_new_files tx = new"
  have prep: "triple ?A (prepare_direct_transaction mt r (sn_files current) new) (\<lambda>tx s. ?fits tx \<and> ?A s) ?E"
  proof (rule tripleI')
    let ?m = "prepare_direct_transaction mt r (sn_files current) new"
    fix s t x assume A: "?A s"
    have k: "keeps (spot [h]) ?m" using names by (intro keeps_direct) auto
    show "?fits x \<and> ?A t" if "?m s = (t, Inr x)"
      using keepsD [OF k that] A direct_transaction [OF that assms(1,2)] by (simp add: h_def)
    show "?E e t" if "?m s = (t, Inl e)" for e
      using keepsD [OF k that] A by simp
  qed
  have run: "triple ?A (catchS (run_transaction_locked mt None False tx)
       (\<lambda>e. if e = publicationCrash then raiseM publicationError
         else bindS (rollback_failed_transaction mt True None (failure_summary mt e) tx) (\<lambda>_.
           raiseM publicationError))) (\<lambda>_. ?N) ?E" if tx: "?fits tx" for tx
  proof (rule triple_catch)
    show "triple ?A (run_transaction_locked mt None False tx) (\<lambda>_. ?N)
        (\<lambda>f s. ?E f s \<and> f \<noteq> Failure publicationCrash)"
    proof (rule tripleI')
      fix s t x assume A: "?A s"
      note tr = run_triple [of tx mt None False, unfolded tx [THEN conjunct2, THEN conjunct1]]
      have A': "dir_is (tx_old_files tx) (spot [h] s)" using A tx by simp
      show "?N t" if "run_transaction_locked mt None False tx s = (t, Inr x)"
        using tripleD(1) [OF tr _ that] A' tx by simp
      show "?E e t \<and> e \<noteq> Failure publicationCrash" if "run_transaction_locked mt None False tx s = (t, Inl e)" for e
        using tripleD(2) [OF tr _ that] A' tx sparesD [OF spares_run, of mt False tx s t] that by auto
    qed
    fix e
    show "triple (\<lambda>s. ?E (Failure e) s \<and> Failure e \<noteq> Failure publicationCrash)
      (if e = publicationCrash then raiseM publicationError
       else bindS (rollback_failed_transaction mt True None (failure_summary mt e) tx) (\<lambda>_. raiseM publicationError))
      (\<lambda>_. ?N) ?E"
    proof (rule triple_if)
      show "triple (\<lambda>s. ?E (Failure e) s \<and> Failure e \<noteq> Failure publicationCrash)
        (raiseM publicationError) (\<lambda>_. ?N) ?E" if "e = publicationCrash"
        using that by (intro triple_read) simp
      show "triple (\<lambda>s. ?E (Failure e) s \<and> Failure e \<noteq> Failure publicationCrash)
        (bindS (rollback_failed_transaction mt True None (failure_summary mt e) tx) (\<lambda>_. raiseM publicationError))
        (\<lambda>_. ?N) ?E"
        using rollback_triple [of tx mt True None "failure_summary mt e"] tx
        by (intro triple_bind [where R = "\<lambda>_. ?A"] triple_read) (auto intro: triple_pre)
    qed
  qed simp
  have clean: "triple ?N (cleanup_paths mt h i) (\<lambda>_. ?N) ?E" for i
  proof -
    have "keeps (spot [h]) (cleanup_paths mt h i)" using names by (intro keepsI) auto
    from triple_kept [OF this spares_cleanup, where R = "dir_is new"] show ?thesis
      by (rule triple_early) blast
  qed
  show ?thesis
    unfolding save_direct_locked_def
  proof (rule prep [THEN triple_bind], rule triple_pure)
    fix tx assume tx: "?fits tx"
    then show "triple ?A (bindS (catchS (run_transaction_locked mt None False tx)
       (\<lambda>e. if e = publicationCrash then raiseM publicationError
         else bindS (rollback_failed_transaction mt True None (failure_summary mt e) tx) (\<lambda>_.
           raiseM publicationError))) (\<lambda>_.
       bindS (cleanup_paths mt (tx_memory_hash tx) (tx_operation_id tx)) (\<lambda>_.
       returnS (snapshot_of mt r new))))
      (\<lambda>sn s. ?N s \<and> sn = snapshot_of mt r new) ?E"
      by (intro run [OF tx, THEN triple_bind]) (auto intro!: clean [THEN triple_bind] triple_read)
  qed
qed

lemma read_cong: "look t d = look t' d \<Longrightarrow> read_canonical_files mt d t = read_canonical_files mt d t'"
  by (simp add: read_canonical_files_def)

lemma memory_lock_Inr:
  assumes "memory_lock mt busy r s = (t, Inr u)"
  shows "full_digest (rm_memory_hash r)" "spot [rm_memory_hash r] t = spot [rm_memory_hash r] s"
proof -
  from assms have "validate_resolved_memory None r = Inr ()" and lock: "take_lock mt busy (rm_memory_hash r) s = (t, Inr u)"
    by (auto simp: memory_lock_def returned mapErr_eq_Inr simp del: bindS_readS readS_apply)
  then show d: "full_digest (rm_memory_hash r)"
    by (auto simp: validate_resolved_memory_def validate_memory_hash_def bindE_eq_Inr ensure_eq_Inr)
  show "spot [rm_memory_hash r] t = spot [rm_memory_hash r] s"
    using keepsD [OF keeps_lock lock, of "[rm_memory_hash r]"] digest_name [OF d] by auto
qed

text \<open>Making sure that a memory with files exists only reads it.\<close>

lemma ensure_reads:
  assumes "read_canonical_files mt [rm_memory_hash r] (dk_root s) = Inr fs" "fs \<noteq> []"
    and "ensure_memory_locked mt r s = (t, out)"
  shows "spot [rm_memory_hash r] t = spot [rm_memory_hash r] s"
    and "out = Inr sn \<Longrightarrow> sn = snapshot_of mt r fs"
    and "out = Inl (Failure e) \<Longrightarrow> e \<notin> own_errors"
proof -
  let ?h = "rm_memory_hash r"
  from assms(1,2) obtain es where es: "spot [?h] s = Some (DirNode es)"
      "read_entries mt [] (sort_key (\<lambda>e. mt_casefold mt (fst e)) es) = Inr fs"
    by (auto simp: read_canonical_files_def Let_def spot_def split: if_splits option.splits node.splits)
  with assms(2) have nonempty: "es \<noteq> []" by auto
  obtain u x where u: "canonical_directory mt ?h s = (u, x)" by fastforce
  with canonical_idle [of ?h s mt] es have us: "u = s" by simp
  let ?rest = "bindS (read_files mt [?h]) (\<lambda>fs. bindS (liftM (ensure (fs \<noteq> []) valueError)) (\<lambda>_.
    returnS (snapshot_of mt r fs)))"
  have run: "ensure_memory_locked mt r s = (case x of Inl e \<Rightarrow> (s, Inl e) | Inr _ \<Rightarrow> ?rest s)"
    using u us es(1) nonempty by (simp add: ensure_memory_locked_def Let_def bindS_def whenS_def entries_at_def spot_def
        split: sum.split)
  have "keeps (spot [?h]) ?rest" by (intro keepsI)
  from keepsD [OF this] assms(3) run show "spot [?h] t = spot [?h] s"
    by (cases x) auto
  show "sn = snapshot_of mt r fs" if "out = Inr sn"
    using that assms(1,3) run read_files_Inr [of mt "[?h]" s]
    by (auto simp: returned mapErr_eq_Inr simp del: bindS_readS readS_apply split: sum.splits)
  have "spares own_errors (ensure_memory_locked mt r)"
    unfolding ensure_memory_locked_def Let_def by (intro sparesI own_foreign) (auto simp: mapErr_eq_Inl ensure_eq_Inl)
  from sparesD [OF this] assms(3) show "e \<notin> own_errors" if "out = Inl (Failure e)" using that by blast
qed

text \<open>A publication error or a conflict leaves the content as it was; the steps of saving.\<close>

abbreviation unharmed :: "path \<Rightarrow> memory_area \<Rightarrow> failure \<Rightarrow> memory_area \<Rightarrow> bool" where
  "unharmed q s f z \<equiv> f \<in> Failure ` own_errors \<longrightarrow> contents (spot q z) = contents (spot q s)"

abbreviation untouched :: "string \<Rightarrow> memory_area \<Rightarrow> memory_area \<Rightarrow> bool" where
  "untouched h s z \<equiv> full_digest h \<and> spot [h] z = spot [h] s"

lemma lock_triple:
  "triple (\<lambda>z. z = s) (memory_lock mt busy r) (\<lambda>_. untouched (rm_memory_hash r) s) (unharmed [rm_memory_hash r] s)"
proof (rule tripleI')
  fix z t u assume "z = s"
  with memory_lock_Inr [of mt busy r]
  show "memory_lock mt busy r z = (t, Inr u) \<Longrightarrow> untouched (rm_memory_hash r) s t" by blast
  have "spares own_errors (memory_lock mt busy r)"
    unfolding memory_lock_def
    by (intro sparesI own_foreign) (auto simp: mapErr_eq_Inl validate_resolved_memory_def
        validate_memory_hash_def bindE_eq_Inl ensure_eq_Inl)
  from sparesD [OF this] show "memory_lock mt busy r z = (t, Inl e) \<Longrightarrow> unharmed [rm_memory_hash r] s e t" for e
    by auto
qed

lemma ensure_triple:
  assumes "read_canonical_files mt [rm_memory_hash r] (dk_root s) = Inr fs" "fs \<noteq> []"
  shows "triple (untouched (rm_memory_hash r) s) (ensure_memory_locked mt r)
    (\<lambda>sn z. sn = snapshot_of mt r fs \<and> untouched (rm_memory_hash r) s z) (unharmed [rm_memory_hash r] s)"
proof (rule tripleI')
  let ?h = "rm_memory_hash r"
  fix z t u assume z: "untouched ?h s z"
  with assms(1) have rd: "read_canonical_files mt [?h] (dk_root z) = Inr fs"
    using read_cong [of "dk_root z" "[?h]" "dk_root s"] by (simp add: spot_def)
  show "u = snapshot_of mt r fs \<and> untouched ?h s t" if "ensure_memory_locked mt r z = (t, Inr u)"
    using ensure_reads(1,2) [OF rd assms(2) that] z by auto
  show "unharmed [?h] s e t" if "ensure_memory_locked mt r z = (t, Inl e)" for e
    using ensure_reads(1) [OF rd assms(2) that] z by simp
qed

lemma saved_triple:
  assumes "dir_is fs (spot [rm_memory_hash r] s)" "wf_dict fs" "wf_dict new"
  shows "triple (untouched (rm_memory_hash r) s) (save_direct_locked mt r (snapshot_of mt r fs) new)
    (\<lambda>sn z. dir_is new (spot [rm_memory_hash r] z) \<and> sn = snapshot_of mt r new) (unharmed [rm_memory_hash r] s)"
proof (rule triple_pure)
  let ?h = "rm_memory_hash r"
  assume d: "full_digest ?h"
  have tr: "triple (\<lambda>z. dir_is fs (spot [?h] z)) (save_direct_locked mt r (snapshot_of mt r fs) new)
    (\<lambda>sn z. dir_is new (spot [?h] z) \<and> sn = snapshot_of mt r new)
    (\<lambda>f z. f \<in> Failure ` own_errors \<longrightarrow> dir_is fs (spot [?h] z))"
    using save_triple [of "snapshot_of mt r fs" new r mt] assms(2,3) d by (simp add: snapshot_of_def)
  show "triple (\<lambda>z. spot [?h] z = spot [?h] s) (save_direct_locked mt r (snapshot_of mt r fs) new)
    (\<lambda>sn z. dir_is new (spot [?h] z) \<and> sn = snapshot_of mt r new) (unharmed [?h] s)"
  proof (rule triple_conseq [OF tr])
    show "unharmed [?h] s f z" if "f \<in> Failure ` own_errors \<longrightarrow> dir_is fs (spot [?h] z)" for f z
      using that dir_is_same [OF _ assms(1)] by blast
  qed (use assms(1) in simp_all)
qed

text \<open>C13: Saving is a compare and set on the content of a memory: it commits only when the revision is still
  the one the caller saw, and then the memory has exactly the updated files and the caller gets their
  revision; after a conflict or a failed publication it has the content it had.\<close>

theorem update_compares_and_sets:
  fixes r :: resolved_memory
  defines "h \<equiv> rm_memory_hash r"
  assumes "try_update_memory mt busy r expected updater s = (t, out)"
    and "read_canonical_files mt [h] (dk_root s) = Inr fs" "fs \<noteq> []" "wf_dir (spot [h] s)"
    and "\<And>gs. updater (snapshot_of mt r fs) = Inr gs \<Longrightarrow> wf_dict gs"
  shows "case out of
      Inr sn \<Rightarrow> memory_content_revision mt fs = expected \<and>
        (\<exists>new. updater (snapshot_of mt r fs) = Inr new \<and> dir_is new (spot [h] t) \<and> sn = snapshot_of mt r new)
    | Inl Killed \<Rightarrow> True
    | Inl (Failure e) \<Rightarrow> e \<in> {memoryConflict, publicationError} \<longrightarrow> contents (spot [h] t) = contents (spot [h] s)"
proof -
  let ?Q = "\<lambda>sn z. memory_content_revision mt fs = expected \<and>
    (\<exists>new. updater (snapshot_of mt r fs) = Inr new \<and> dir_is new (spot [h] z) \<and> sn = snapshot_of mt r new)"
  from assms(3,4) obtain es where "look (dk_root s) [h] = Some (DirNode es)"
    by (auto simp: read_canonical_files_def Let_def split: if_splits option.splits node.splits)
  with read_dir_is [OF assms(3)] assms(5) have fs: "dir_is fs (spot [h] s)" "wf_dict fs"
    by (simp_all add: spot_def wf_dir_def)
  have updated: "triple (untouched h s) (liftM (bindE (updater (snapshot_of mt r fs)) (normalize_candidate_files mt)))
    (\<lambda>new z. updater (snapshot_of mt r fs) = Inr new \<and> untouched h s z) (unharmed [h] s)"
    by (rule triple_read) (auto simp: normalize_candidate_files_def mapErr_def bindE_eq_Inr split: sum.split)
  have tr: "triple (\<lambda>z. z = s) (try_update_memory mt busy r expected updater) ?Q (unharmed [h] s)"
    unfolding try_update_memory_def h_def
  proof (rule lock_triple [THEN triple_bind], rule ensure_triple [OF assms(3) [unfolded h_def] assms(4), THEN triple_bind],
      rule triple_pure, unfold h_def [symmetric])
    fix sn assume sn: "sn = snapshot_of mt r fs"
    show "triple (untouched h s) (bindS (liftM (bindE (updater sn) (normalize_candidate_files mt))) (\<lambda>normalized.
        if sn_revision sn \<noteq> expected then raiseM memoryConflict
        else save_direct_locked mt r sn normalized)) ?Q (unharmed [h] s)"
      unfolding sn
    proof (rule updated [THEN triple_bind], rule triple_pure, rule triple_if)
      fix new assume new: "updater (snapshot_of mt r fs) = Inr new"
      show "triple (untouched h s) (raiseM memoryConflict) ?Q (unharmed [h] s)" by (rule triple_read) simp
      show "triple (untouched h s) (save_direct_locked mt r (snapshot_of mt r fs) new) ?Q (unharmed [h] s)"
        if "\<not> sn_revision (snapshot_of mt r fs) \<noteq> expected"
        by (rule triple_post [OF saved_triple [OF fs [unfolded h_def] assms(6) [OF new], folded h_def]])
          (use that new in \<open>auto simp: snapshot_of_def\<close>)
    qed
  qed
  show ?thesis
  proof (cases out)
    case (Inr sn)
    with tripleD(1) [OF tr refl] assms(2) show ?thesis by simp
  next
    case (Inl f)
    with tripleD(2) [OF tr refl] assms(2) show ?thesis by (auto simp: own_errors_def split: failure.split)
  qed
qed

end
