(* ===== verification/MemoryRecovery.thy ===== *)
theory MemoryRecovery
  imports MemoryPublication
begin

text \<open>
  Recovery of publications, \<^verbatim>\<open>flowgency/memory/recovery.py\<close>, and the selection of memories,
  \<^verbatim>\<open>flowgency/memory/selectors.py\<close>, it checks identities with. Recovery reads every journal below the
  store's root, checks it against the record of the job that owns it, and settles it by comparing the
  revisions of the memory, the stage and the backup; a journal it cannot settle blocks the job.
\<close>

section \<open>Selecting a memory\<close>

definition MEMORY_SCOPES :: "string list" where
  "MEMORY_SCOPES = [''run'', ''routine'', ''agent'', ''team'', ''channel'']"

definition validate_selector_shape :: "memory_selector \<Rightarrow> ticket_error + unit" where
  "validate_selector_shape m = ensure (ms_scope m = ''channel'' \<or> ms_channel m = None) valueError"

text \<open>\<open>MemorySelector(**data)\<close>\<close>

definition selector_of_json :: "json \<Rightarrow> ticket_error + memory_selector" where
  "selector_of_json j = (case j of
      JObj d \<Rightarrow>
        bindE (ensure (set (keys d) \<subseteq> {''scope'', ''channel''}) valueError) (\<lambda>_.
        (case (map_of d ''scope'', get_or JNull d ''channel'') of
           (Some (JStr s), JNull) \<Rightarrow> bindE (ensure (s \<in> set MEMORY_SCOPES) valueError) (\<lambda>_.
             Inr \<lparr>ms_scope = s, ms_channel = None\<rparr>)
         | (Some (JStr s), JStr c) \<Rightarrow> bindE (ensure (s \<in> set MEMORY_SCOPES) valueError) (\<lambda>_.
             Inr \<lparr>ms_scope = s, ms_channel = Some c\<rparr>)
         | _ \<Rightarrow> Inl valueError))
    | _ \<Rightarrow> Inl typeError)"

definition memory_hash_of :: "memory_tools \<Rightarrow> string \<Rightarrow> string" where
  "memory_hash_of mt canonical = mt_sha mt (''flowgency-memory:v1'' @ [NUL] @ utf8 canonical)"

definition resolved_for :: "memory_tools \<Rightarrow> memory_selector \<Rightarrow> string \<Rightarrow> resolved_memory" where
  "resolved_for mt m canonical = \<lparr>rm_selector = m, rm_canonical_json = canonical,
     rm_memory_hash = memory_hash_of mt canonical, rm_root = mt_root mt,
     rm_name = memory_hash_of mt canonical\<rparr>"

definition expected_keys :: "string \<Rightarrow> string set" where
  "expected_keys scope =
     (if scope = ''run'' then {''version'', ''scope'', ''job''}
      else if scope = ''routine'' then {''version'', ''scope'', ''team'', ''agent'', ''routine''}
      else if scope = ''agent'' then {''version'', ''scope'', ''team'', ''agent''}
      else if scope = ''team'' then {''version'', ''scope'', ''team''}
      else {''version'', ''scope'', ''channel''})"

definition resolved_memory_from_canonical ::
  "memory_tools \<Rightarrow> memory_selector \<Rightarrow> string \<Rightarrow> ticket_error + resolved_memory" where
  "resolved_memory_from_canonical mt m canonical =
     bindE (validate_selector_shape m) (\<lambda>_.
     (case mt_loads mt canonical of
        Some (JObj d) \<Rightarrow>
          bindE (ensure (mt_dumps mt (JObj d) = canonical) valueError) (\<lambda>_.
          bindE (ensure (json_eq (get_or JNull d ''version'') (JInt 1) \<and>
                   json_eq (get_or JNull d ''scope'') (JStr (ms_scope m))) valueError) (\<lambda>_.
          bindE (ensure (set (keys d) = expected_keys (ms_scope m)) valueError) (\<lambda>_.
          bindE (ensure (ms_scope m = ''channel'' \<longrightarrow>
                   json_eq (get_or JNull d ''channel'') (opt_json JStr (ms_channel m))) valueError) (\<lambda>_.
          Inr (resolved_for mt m canonical)))))
      | _ \<Rightarrow> Inl valueError))"

definition select_effective_memory ::
  "memory_selector option \<Rightarrow> memory_selector option \<Rightarrow> memory_selector option \<Rightarrow> memory_selector" where
  "select_effective_memory manual routine agent_default =
     (case manual of Some m \<Rightarrow> m | None \<Rightarrow>
     (case routine of Some m \<Rightarrow> m | None \<Rightarrow>
     (case agent_default of Some m \<Rightarrow> m | None \<Rightarrow> \<lparr>ms_scope = ''run'', ms_channel = None\<rparr>)))"

definition selector_criteria ::
  "memory_selector \<Rightarrow> string \<Rightarrow> string \<Rightarrow> string \<Rightarrow> json \<Rightarrow> string list \<Rightarrow> ticket_error + (string, json) dict" where
  "selector_criteria m job team agent routine channels =
     (let base = [(''version'', JInt 1), (''scope'', JStr (ms_scope m))]; scope = ms_scope m in
      if scope = ''run'' then Inr (base @ [(''job'', JStr job)])
      else if scope = ''routine'' then bindE (ensure (routine \<noteq> JNull) valueError) (\<lambda>_.
        Inr (base @ [(''team'', JStr team), (''agent'', JStr agent), (''routine'', routine)]))
      else if scope = ''agent'' then Inr (base @ [(''team'', JStr team), (''agent'', JStr agent)])
      else if scope = ''team'' then Inr (base @ [(''team'', JStr team)])
      else if scope = ''channel'' then (case ms_channel m of
          None \<Rightarrow> Inl valueError
        | Some c \<Rightarrow> bindE (ensure (c \<in> set channels) valueError) (\<lambda>_. Inr (base @ [(''channel'', JStr c)])))
      else Inr base)"

definition resolve_memory_selector ::
  "memory_tools \<Rightarrow> memory_selector \<Rightarrow> string \<Rightarrow> string \<Rightarrow> string \<Rightarrow> json \<Rightarrow> string list \<Rightarrow>
   ticket_error + resolved_memory" where
  "resolve_memory_selector mt m job team agent routine channels =
     bindE (validate_selector_shape m) (\<lambda>_.
     bindE (selector_criteria m job team agent routine channels) (\<lambda>criteria.
     Inr (resolved_for mt m (mt_dumps mt (JObj criteria)))))"

section \<open>Journals\<close>

text \<open>A configured team with the root its jobs must have.\<close>

record job_store_owner =
  jo_team_id :: string
  jo_team_root :: "string option"

record recovery_operation =
  ro_kind :: string
  ro_operation_id :: string
  ro_phase :: string
  ro_no_change :: bool
  ro_resolved :: resolved_memory
  ro_memory_hash :: string
  ro_old_revision :: string
  ro_new_revision :: string
  ro_job :: "(job_store_owner \<times> job_key) option"

record recovery_result =
  rr_recovered :: nat
  rr_blocked_job_ids :: "string list"
  rr_errors :: "((string \<times> string) \<times> ticket_error) list"

definition py_str :: "memory_tools \<Rightarrow> json \<Rightarrow> string" where
  "py_str mt j = (case j of JStr s \<Rightarrow> s | _ \<Rightarrow> mt_str mt j)"

definition operation_id_from_path :: "memory_tools \<Rightarrow> string \<Rightarrow> string option" where
  "operation_id_from_path mt name =
     (if path_suffix name \<noteq> ''.yaml'' then None
      else case validate_job_id mt (path_stem name) of Inl _ \<Rightarrow> None | Inr i \<Rightarrow> Some i)"

definition read_identity :: "memory_tools \<Rightarrow> string \<Rightarrow> string \<Rightarrow> node \<Rightarrow> ticket_error + string \<times> string" where
  "read_identity mt h name t =
     bindE (ensure (case look t (journals h @ [name]) of Some (LinkNode _) \<Rightarrow> False | _ \<Rightarrow> True) valueError) (\<lambda>_.
     bindE (validate_memory_hash h) (\<lambda>_.
     case operation_id_from_path mt name of None \<Rightarrow> Inl valueError | Some i \<Rightarrow> Inr (h, i)))"

definition read_payload :: "memory_tools \<Rightarrow> string \<Rightarrow> string \<Rightarrow> node \<Rightarrow> ticket_error + (string, json) dict" where
  "read_payload mt h name t = (case look t (journals h @ [name]) of
      None \<Rightarrow> Inl (call_error ''FileNotFoundError'')
    | Some (FileNode text) \<Rightarrow> (case jt_load (mt_jobs mt) text of
          Some (JObj d) \<Rightarrow> Inr d
        | Some _ \<Rightarrow> Inl valueError
        | None \<Rightarrow> Inl (PyError ''YAMLError''))
    | Some _ \<Rightarrow> Inl osError)"

definition matching_job_paths ::
  "job_store_owner list \<Rightarrow> string \<Rightarrow> job_area \<Rightarrow> ticket_error + (job_store_owner \<times> job_key) list" where
  "matching_job_paths owners i ja =
     bindE (ensure (\<forall>w\<in>set owners. (jo_team_id w, i) \<notin> set (ja_escapes ja)) valueError) (\<lambda>_.
     Inr (filter (\<lambda>m. job_file_at ja (snd m) \<noteq> None) (map (\<lambda>w. (w, (jo_team_id w, i))) owners)))"

definition barrier_job_ids ::
  "memory_tools \<Rightarrow> job_store_owner list \<Rightarrow> string \<Rightarrow> string \<Rightarrow> memory_area \<Rightarrow> string list" where
  "barrier_job_ids mt owners h name s =
     (let payload = (case read_payload mt h name (dk_root s) of Inl _ \<Rightarrow> [] | Inr d \<Rightarrow> d);
          named = List.map_filter (\<lambda>f. case map_of payload f of
              Some (JStr i) \<Rightarrow> (case validate_job_id mt i of Inl _ \<Rightarrow> None | Inr j \<Rightarrow> Some j)
            | _ \<Rightarrow> None) [''operation_id'', ''job_id''];
          candidates = (case operation_id_from_path mt name of None \<Rightarrow> [] | Some i \<Rightarrow> [i]) @ named in
      sort (remdups (filter (\<lambda>i. case matching_job_paths owners i (ma_jobs s) of
          Inl _ \<Rightarrow> True | Inr ms \<Rightarrow> ms \<noteq> []) candidates)))"

section \<open>Checking a journal\<close>

definition journal_keys :: "string set" where
  "journal_keys = {''kind'', ''operation_id'', ''selector'', ''canonical_json'', ''memory_hash'',
     ''old_revision'', ''new_revision'', ''stage_directory'', ''backup_directory'', ''phase'', ''no_change''}"

definition safe_directory_name :: "memory_tools \<Rightarrow> json \<Rightarrow> string \<Rightarrow> ticket_error + string" where
  "safe_directory_name mt v expected = (case v of
      JStr s \<Rightarrow> (case validate_job_id mt s of
          Inl _ \<Rightarrow> Inl valueError
        | Inr safe \<Rightarrow> bindE (ensure (safe = expected) valueError) (\<lambda>_. Inr safe))
    | _ \<Rightarrow> Inl valueError)"

definition revision_field :: "json \<Rightarrow> ticket_error + string" where
  "revision_field j = (case j of JStr s \<Rightarrow> bindE (ensure (full_digest s) valueError) (\<lambda>_. Inr s) | _ \<Rightarrow> Inl valueError)"

definition text_field :: "json \<Rightarrow> ticket_error + string" where
  "text_field j = (case j of JStr s \<Rightarrow> bindE (ensure (s \<noteq> []) valueError) (\<lambda>_. Inr s) | _ \<Rightarrow> Inl valueError)"

definition phase_field :: "json \<Rightarrow> ticket_error + string" where
  "phase_field j = (case j of
      JStr x \<Rightarrow> bindE (ensure (x \<in> {''prepared'', ''backed_up'', ''published''}) valueError) (\<lambda>_. Inr x)
    | _ \<Rightarrow> Inl valueError)"

definition flag_field :: "json \<Rightarrow> ticket_error + bool" where
  "flag_field j = (case j of JBool b \<Rightarrow> Inr b | _ \<Rightarrow> Inl valueError)"

text \<open>The record of the job a journal names.\<close>

definition owned_job ::
  "bool \<Rightarrow> job_store_owner list \<Rightarrow> string \<Rightarrow> job_area \<Rightarrow> ticket_error + (job_store_owner \<times> job_key) option" where
  "owned_job is_job owners i ja =
     (if is_job then bindE (matching_job_paths owners i ja) (\<lambda>ms. case ms of [x] \<Rightarrow> Inr (Some x) | _ \<Rightarrow> Inl valueError)
      else Inr None)"

text \<open>What a journal says, up to the directories and the job it names.\<close>

definition parse_journal ::
  "memory_tools \<Rightarrow> (string, json) dict \<Rightarrow> string \<Rightarrow> string \<Rightarrow> job_store_owner list \<Rightarrow> job_area \<Rightarrow>
   ticket_error + recovery_operation" where
  "parse_journal mt d journal_hash journal_file owners ja =
     (let kind = get_or JNull d ''kind''; field = (\<lambda>k. get_or JNull d k) in
      bindE (ensure (has_key d ''kind'') valueError) (\<lambda>_.
      bindE (ensure (set (keys d) = journal_keys \<union> (if kind = JStr ''job'' then {''job_id''} else {})) valueError) (\<lambda>_.
      bindE (ensure (kind \<in> {JStr ''job'', JStr ''direct-save''}) valueError) (\<lambda>_.
      bindE (validate_memory_hash (py_str mt (field ''memory_hash''))) (\<lambda>h.
      bindE (ensure (journal_hash = h) valueError) (\<lambda>_.
      bindE (validate_job_id mt (py_str mt (field ''operation_id''))) (\<lambda>i.
      bindE (if kind = JStr ''job'' then
               bindE (validate_job_id mt (py_str mt (field ''job_id''))) (\<lambda>j. ensure (j = i) valueError)
             else Inr ()) (\<lambda>_.
      bindE (ensure (journal_file = journal_name i) valueError) (\<lambda>_.
      bindE (ensure (case field ''selector'' of JObj _ \<Rightarrow> True | _ \<Rightarrow> False) valueError) (\<lambda>_.
      bindE (selector_of_json (field ''selector'')) (\<lambda>m.
      bindE (text_field (field ''canonical_json'')) (\<lambda>canonical.
      bindE (phase_field (field ''phase'')) (\<lambda>phase.
      bindE (flag_field (field ''no_change'')) (\<lambda>no_change.
      bindE (revision_field (field ''old_revision'')) (\<lambda>old.
      bindE (revision_field (field ''new_revision'')) (\<lambda>new.
      bindE (safe_directory_name mt (field ''stage_directory'') i) (\<lambda>_.
      bindE (safe_directory_name mt (field ''backup_directory'') i) (\<lambda>_.
      bindE (owned_job (kind = JStr ''job'') owners i ja) (\<lambda>job.
      Inr \<lparr>ro_kind = py_str mt kind, ro_operation_id = i, ro_phase = phase, ro_no_change = no_change,
        ro_resolved = \<lparr>rm_selector = m, rm_canonical_json = canonical, rm_memory_hash = h,
          rm_root = mt_root mt, rm_name = h\<rparr>,
        ro_memory_hash = h, ro_old_revision = old, ro_new_revision = new, ro_job = job\<rparr>)))))))))))))))))))"

definition path_parent :: "string \<Rightarrow> string" where
  "path_parent s = butlast (rev (dropWhile (\<lambda>c. c \<noteq> CHR ''/'') (rev s)))"

definition validate_job_ownership ::
  "memory_tools \<Rightarrow> recovery_operation \<Rightarrow> job_store_owner \<times> job_key \<Rightarrow> job_area \<Rightarrow> ticket_error + unit" where
  "validate_job_ownership mt ro owned ja =
     (let ids = jt_ids (mt_jobs mt) in
      bindE (read_job (mt_jobs mt) ja (snd owned) None) (\<lambda>r.
      let s = jr_spec r; mb = sp_memory s in
      bindE (ensure (sp_job_id s = ro_operation_id ro) valueError) (\<lambda>_.
      bindE (ensure (sp_team_key s = jo_team_id (fst owned)) valueError) (\<lambda>_.
      (case jo_team_root (fst owned) of None \<Rightarrow> Inl valueError
       | Some team_root \<Rightarrow>
         bindE (ensure (id_canon ids (sp_team_root s) = id_canon ids team_root) valueError) (\<lambda>_.
         bindE (case mb_path mb of JStr p \<Rightarrow> Inr p | _ \<Rightarrow> Inl typeError) (\<lambda>p.
         bindE (ensure (path_parent (id_canon ids p) = mt_root mt) valueError) (\<lambda>_.
         bindE (selector_of_json (mb_selector mb)) (\<lambda>m.
         bindE (resolve_memory_selector mt m (sp_job_id s) (sp_team_key s) (sp_agent_name s) (sp_routine_id s)
                  (case ms_channel m of None \<Rightarrow> [] | Some c \<Rightarrow> [c])) (\<lambda>again.
         bindE (ensure (rm_selector (ro_resolved ro) = m) valueError) (\<lambda>_.
         bindE (ensure (mb_canonical_json mb = JStr (rm_canonical_json again)) valueError) (\<lambda>_.
         bindE (ensure (rm_canonical_json (ro_resolved ro) = rm_canonical_json again) valueError) (\<lambda>_.
         bindE (ensure (mb_memory_hash mb = JStr (rm_memory_hash again)) valueError) (\<lambda>_.
         bindE (ensure (ro_memory_hash ro = rm_memory_hash again) valueError) (\<lambda>_.
         ensure (id_canon ids p = id_canon ids (rm_root again @ ''/'' @ rm_name again)) valueError)))))))))))))))"

definition validate_direct_identity :: "memory_tools \<Rightarrow> recovery_operation \<Rightarrow> ticket_error + unit" where
  "validate_direct_identity mt ro =
     bindE (resolved_memory_from_canonical mt (rm_selector (ro_resolved ro)) (rm_canonical_json (ro_resolved ro)))
       (\<lambda>again. ensure (rm_memory_hash again = ro_memory_hash ro) valueError)"

definition operation_from_payload ::
  "memory_tools \<Rightarrow> (string, json) dict \<Rightarrow> string \<Rightarrow> string \<Rightarrow> job_store_owner list \<Rightarrow> recovery_operation mem_op" where
  "operation_from_payload mt d journal_hash journal_file owners =
     bindS (readS (\<lambda>s. mapErr Failure (parse_journal mt d journal_hash journal_file owners (ma_jobs s)))) (\<lambda>ro.
     let h = ro_memory_hash ro; i = ro_operation_id ro in
     bindS (ensure_infrastructure_directory mt (stages h)) (\<lambda>_.
     bindS (lookM (actual_directory (stages h @ [i]))) (\<lambda>_.
     bindS (ensure_infrastructure_directory mt (backups h)) (\<lambda>_.
     bindS (lookM (\<lambda>t. if \<not> ro_no_change ro \<and> ro_phase ro \<in> {''backed_up'', ''published''} \<or>
         present (look t (backups h @ [i])) then actual_directory (backups h @ [i]) t else Inr ())) (\<lambda>_.
     bindS (readS (\<lambda>s. mapErr Failure (case ro_job ro of
         Some owned \<Rightarrow> validate_job_ownership mt ro owned (ma_jobs s)
       | None \<Rightarrow> validate_direct_identity mt ro))) (\<lambda>_. returnS ro))))))"

section \<open>Settling a journal\<close>

definition finalize_recovered_success :: "memory_tools \<Rightarrow> recovery_operation \<Rightarrow> unit mem_op" where
  "finalize_recovered_success mt ro =
     bindS (case ro_job ro of None \<Rightarrow> returnS ()
       | Some owned \<Rightarrow>
         bindS (readS (\<lambda>s. mapErr Failure (read_job (mt_jobs mt) (ma_jobs s) (snd owned) None))) (\<lambda>r.
         mark_complete mt (snd owned) \<lparr>rc_selector = rm_selector (ro_resolved ro), rc_memory_hash = ro_memory_hash ro,
           rc_old_revision = ro_old_revision ro, rc_new_revision = ro_new_revision ro,
           rc_published_at = first_text [jr_completed_at r, jr_started_at r], rc_no_change = ro_no_change ro\<rparr>)) (\<lambda>_.
     cleanup_paths mt (ro_memory_hash ro) (ro_operation_id ro))"

text \<open>The last branches of \<open>_recover_locked\<close>: the revision of the memory decides.\<close>

definition settle_by_revision :: "memory_tools \<Rightarrow> recovery_operation \<Rightarrow> string \<Rightarrow> nat mem_op" where
  "settle_by_revision mt ro current =
     (if ro_phase ro \<in> {''backed_up'', ''published''} \<and> current = ro_new_revision ro then
        bindS (finalize_recovered_success mt ro) (\<lambda>_. returnS 1)
      else if ro_phase ro = ''prepared'' \<and> ro_no_change ro \<and> current = ro_old_revision ro \<and>
          ro_old_revision ro = ro_new_revision ro then
        bindS (if ro_job ro \<noteq> None then finalize_recovered_success mt ro
               else cleanup_paths mt (ro_memory_hash ro) (ro_operation_id ro)) (\<lambda>_. returnS 1)
      else if current = ro_old_revision ro then
        bindS (case ro_job ro of None \<Rightarrow> returnS ()
          | Some owned \<Rightarrow> mark_failed mt (snd owned)
              ''Recovered incomplete memory publication with old canonical revision.'') (\<lambda>_.
        bindS (cleanup_paths mt (ro_memory_hash ro) (ro_operation_id ro)) (\<lambda>_. returnS 1))
      else raiseM valueError)"

definition recover_locked :: "memory_tools \<Rightarrow> recovery_operation \<Rightarrow> nat mem_op" where
  "recover_locked mt ro =
     (let h = ro_memory_hash ro; i = ro_operation_id ro;
          old = ro_old_revision ro; new = ro_new_revision ro;
          past = ro_phase ro \<in> {''backed_up'', ''published''} in
      bindS (canonical_directory mt h) (\<lambda>_.
      bindS (read_files mt [h]) (\<lambda>current_files.
      bindS (read_files mt (stages h @ [i])) (\<lambda>stage_files.
      bindS (liftM (ensure (memory_content_revision mt stage_files = new) valueError)) (\<lambda>_.
      bindS (readS (\<lambda>s. Inr (present (look (dk_root s) (backups h @ [i]))))) (\<lambda>has_backup.
      bindS (if has_backup then bindS (read_files mt (backups h @ [i])) (\<lambda>fs.
               liftM (ensure (memory_content_revision mt fs = old) valueError)) else returnS ()) (\<lambda>_.
      bindS (liftM (ensure (ro_no_change ro \<or> \<not> past \<or> has_backup) valueError)) (\<lambda>_.
      bindS (liftM (ensure (\<not> (ro_no_change ro \<and> has_backup)) valueError)) (\<lambda>_.
      bindS (liftM (ensure (\<not> (ro_no_change ro \<and> old \<noteq> new)) valueError)) (\<lambda>_.
      bindS (liftM (ensure (ro_no_change ro \<or> old \<noteq> new) valueError)) (\<lambda>_.
      settle_by_revision mt ro (memory_content_revision mt current_files))))))))))))"

section \<open>Recovering all journals\<close>

text \<open>The journals below the root, by directory and name.\<close>

definition journal_files :: "node \<Rightarrow> (string \<times> string) list" where
  "journal_files t = sort (concat (map (\<lambda>(h, c). case c of
      DirNode es \<Rightarrow> map (Pair h) (filter (\<lambda>n. drop (length n - 5) n = ''.yaml'') (keys es)) | _ \<Rightarrow> [])
    (case entries_at t [''.journals''] of None \<Rightarrow> [] | Some es \<Rightarrow> es)))"

definition recover_journal ::
  "memory_tools \<Rightarrow> job_store_owner list \<Rightarrow> string \<Rightarrow> string \<Rightarrow> nat mem_op" where
  "recover_journal mt owners h name =
     bindS (lookM (read_identity mt h name)) (\<lambda>_.
     bindS (memory_lock mt False \<lparr>rm_selector = \<lparr>ms_scope = ''run'', ms_channel = None\<rparr>, rm_canonical_json = [],
       rm_memory_hash = h, rm_root = mt_root mt, rm_name = h\<rparr>) (\<lambda>_.
     bindS (readS (\<lambda>s. Inr (read_payload mt h name (dk_root s)))) (\<lambda>payload.
     case payload of
       Inl e \<Rightarrow> if e = call_error ''FileNotFoundError'' then returnS 0 else raiseM e
     | Inr d \<Rightarrow> bindS (operation_from_payload mt d h name owners) (recover_locked mt))))"

fun recover_journals ::
  "memory_tools \<Rightarrow> job_store_owner list \<Rightarrow> (string \<times> string) list \<Rightarrow> recovery_result \<Rightarrow> recovery_result mem_op" where
  "recover_journals mt owners [] rr = returnS rr"
| "recover_journals mt owners ((h, name) # js) rr =
     bindS (catchS (bindS (recover_journal mt owners h name) (\<lambda>n. returnS (rr\<lparr>rr_recovered := rr_recovered rr + n\<rparr>)))
       (\<lambda>e. readS (\<lambda>s. Inr (rr\<lparr>
          rr_blocked_job_ids := rr_blocked_job_ids rr @ barrier_job_ids mt owners h name s,
          rr_errors := rr_errors rr @ [((h, name), e)]\<rparr>))))
       (recover_journals mt owners js)"

definition recover_publications :: "memory_tools \<Rightarrow> job_store_owner list \<Rightarrow> recovery_result mem_op" where
  "recover_publications mt owners =
     bindS (lookM (actual_directory [])) (\<lambda>_.
     bindS (readS (\<lambda>s. Inr (present (look (dk_root s) [''.journals''])))) (\<lambda>found.
     let none = \<lparr>rr_recovered = 0, rr_blocked_job_ids = [], rr_errors = []\<rparr> in
     if \<not> found then returnS none
     else bindS (lookM (actual_directory [''.journals''])) (\<lambda>_.
       bindS (readS (\<lambda>s. Inr (journal_files (dk_root s)))) (\<lambda>js.
       bindS (recover_journals mt owners js none) (\<lambda>rr.
       returnS (rr\<lparr>rr_blocked_job_ids := sort (remdups (rr_blocked_job_ids rr))\<rparr>))))))"

section \<open>What recovery does\<close>

definition job_is :: "memory_tools \<Rightarrow> job_key \<Rightarrow> job_status \<Rightarrow> memory_area \<Rightarrow> bool" where
  "job_is mt k status s \<longleftrightarrow> (case read_job (mt_jobs mt) (ma_jobs s) k None of
     Inl _ \<Rightarrow> False | Inr r \<Rightarrow> jr_status r = status)"

lemma job_is_jobs: "ma_jobs t = ma_jobs s \<Longrightarrow> job_is mt k x t = job_is mt k x s"
  by (simp add: job_is_def)

lemma settled:
  assumes "faithful_files (mt_jobs mt)" "run_fields f" "settle_job mt k status f s = (t, Inr u)"
  shows "job_is mt k status t"
  using assms(3) unfolding settle_job_def catchS_Inr
proof (elim disjE exE conjE)
  assume "bindS (jobM mt (transition_job (mt_jobs mt) k Running status f)) (\<lambda>_. returnS ()) s = (t, Inr u)"
  then obtain j r where "transition_job (mt_jobs mt) k Running status f (ma_jobs s) = (j, Inr r)" and j: "ma_jobs t = j"
    by (auto simp: bindS_Inr jobM_def mapErr_eq_Inr split: hazard.splits prod.splits)
  then show ?thesis
    unfolding transition_job_def
  proof (cases rule: update_job_cases)
    case (wrote r0 r1)
    then have r1: "r1 = f (r0\<lparr>jr_status := status\<rparr>)" by (auto simp: bindE_eq_Inr)
    then have "sound_record (mt_jobs mt) r1"
      using read_job_sound [OF assms(1) wrote(1)] assms(2) by (simp add: sound_record_def run_fields_def)
    from read_stored [OF assms(1) this, of k "ma_jobs s" k] r1 assms(2) j wrote show ?thesis
      by (simp add: job_is_def run_fields_def)
  qed simp
next
  fix v e
  assume "(if e \<noteq> invalidTransition then raiseM e
      else bindS (readS (\<lambda>s. mapErr Failure (read_job (mt_jobs mt) (ma_jobs s) k None))) (\<lambda>r.
        if jr_status r \<noteq> status then raiseM e else returnS ())) v = (t, Inr u)"
  then show ?thesis
    by (auto simp: job_is_def bindS_Inr readS_Inr mapErr_eq_Inr simp del: bindS_readS readS_apply split: if_splits)
qed

lemma marked:
  assumes "faithful_files (mt_jobs mt)"
  shows "mark_complete mt k rc s = (t, Inr u) \<Longrightarrow> job_is mt k Complete t"
    and "mark_failed mt k x s = (t, Inr u) \<Longrightarrow> job_is mt k Failed t"
  unfolding mark_complete_def mark_failed_def by (erule settled [OF assms, rotated], simp add: run_fields_def)+

text \<open>What cleaning up removes.\<close>

definition tidied :: "string \<Rightarrow> string \<Rightarrow> memory_area \<Rightarrow> bool" where
  "tidied h i s \<longleftrightarrow> \<not> present (spot (journals h @ [journal_name i]) s) \<and>
     \<not> present (spot (backups h @ [i]) s) \<and> \<not> present (spot (stages h @ [i]) s)"

lemma when_removed:
  assumes "whenS (\<lambda>s. present (look (dk_root s) (d @ [n]))) (safe_rmtree mt False d n) s = (t, Inr u)"
  shows "\<not> present (spot (d @ [n]) t)"
  using assms removed [of mt d n s t u] by (auto simp: whenS_def spot_def present_def split: if_splits)

lemma when_unlinked:
  assumes "whenS (\<lambda>s. present (look (dk_root s) (d @ [n]))) (callM mt (remove_file d n)) s = (t, Inr u)"
  shows "\<not> present (spot (d @ [n]) t)"
  using assms
  by (auto simp: whenS_def spot_def present_def callM_Inr call_defs look_append look_alter delete_conv' split: if_splits)

lemma cleanup_tidies:
  assumes "cleanup_paths mt h i s = (t, Inr u)"
  shows "tidied h i t"
proof -
  let ?when = "\<lambda>p m. whenS (\<lambda>s. present (look (dk_root s) p)) m :: unit mem_op"
  from assms obtain v w x y where
    v: "?when (journals h @ [journal_name i]) (callM mt (remove_file (journals h) (journal_name i))) s = (v, Inr x)" and
    w: "?when (backups h @ [i]) (safe_rmtree mt False (backups h) i) v = (w, Inr y)" and
    t: "?when (stages h @ [i]) (safe_rmtree mt False (stages h) i) w = (t, Inr u)"
    unfolding cleanup_paths_def returned by blast
  have "keeps (spot (journals h @ [journal_name i])) (?when (backups h @ [i]) (safe_rmtree mt False (backups h) i))"
    "keeps (spot (journals h @ [journal_name i])) (?when (stages h @ [i]) (safe_rmtree mt False (stages h) i))"
    "keeps (spot (backups h @ [i])) (?when (stages h @ [i]) (safe_rmtree mt False (stages h) i))"
    by (intro keepsI, simp)+
  from keepsD [OF this(1) w] keepsD [OF this(2) t] keepsD [OF this(3) t]
    when_unlinked [OF v] when_removed [OF w] when_removed [OF t]
  show ?thesis by (simp add: tidied_def)
qed

lemma keeps_cleanup_jobs [keepsI]: "keeps ma_jobs (cleanup_paths mt h i)"
  unfolding cleanup_paths_def by (intro keepsI)

lemma finalized:
  assumes "finalize_recovered_success mt ro s = (t, Inr u)" "faithful_files (mt_jobs mt)"
  shows "tidied (ro_memory_hash ro) (ro_operation_id ro) t"
    and "ro_job ro = Some (w, k) \<Longrightarrow> job_is mt k Complete t"
proof -
  from assms(1) obtain v x where
    first: "(case ro_job ro of None \<Rightarrow> returnS ()
       | Some owned \<Rightarrow>
         bindS (readS (\<lambda>s. mapErr Failure (read_job (mt_jobs mt) (ma_jobs s) (snd owned) None))) (\<lambda>r.
         mark_complete mt (snd owned) \<lparr>rc_selector = rm_selector (ro_resolved ro), rc_memory_hash = ro_memory_hash ro,
           rc_old_revision = ro_old_revision ro, rc_new_revision = ro_new_revision ro,
           rc_published_at = first_text [jr_completed_at r, jr_started_at r], rc_no_change = ro_no_change ro\<rparr>)) s = (v, Inr x)"
    and clean: "cleanup_paths mt (ro_memory_hash ro) (ro_operation_id ro) v = (t, Inr u)"
    unfolding finalize_recovered_success_def returned by blast
  from clean show "tidied (ro_memory_hash ro) (ro_operation_id ro) t" by (rule cleanup_tidies)
  assume "ro_job ro = Some (w, k)"
  with first obtain y rc where "mark_complete mt k rc y = (v, Inr x)" by (auto simp: bindS_Inr simp del: bindS_readS)
  then have "job_is mt k Complete v" by (rule marked(1) [OF assms(2)])
  with job_is_jobs keepsD [OF keeps_cleanup_jobs clean] show "job_is mt k Complete t" by blast
qed

lemma settle_cases:
  assumes "settle_by_revision mt ro current s = (t, Inr n)"
  obtains (success) u where "current = ro_new_revision ro" "n = 1" "finalize_recovered_success mt ro s = (t, Inr u)"
  | (direct) u where "current = ro_new_revision ro" "ro_job ro = None" "n = 1"
      "cleanup_paths mt (ro_memory_hash ro) (ro_operation_id ro) s = (t, Inr u)"
  | (failed) u v x where "current = ro_old_revision ro" "n = 1"
      "ro_phase ro = ''prepared'' \<Longrightarrow> ro_no_change ro \<Longrightarrow> ro_old_revision ro \<noteq> ro_new_revision ro"
      "ro_phase ro \<in> {''backed_up'', ''published''} \<Longrightarrow> current \<noteq> ro_new_revision ro"
      "cleanup_paths mt (ro_memory_hash ro) (ro_operation_id ro) v = (t, Inr u)"
      "\<And>w k. ro_job ro = Some (w, k) \<Longrightarrow> mark_failed mt k
         ''Recovered incomplete memory publication with old canonical revision.'' s = (v, Inr x)"
proof -
  let ?A = "ro_phase ro \<in> {''backed_up'', ''published''} \<and> current = ro_new_revision ro"
  let ?B = "ro_phase ro = ''prepared'' \<and> ro_no_change ro \<and> current = ro_old_revision ro \<and>
    ro_old_revision ro = ro_new_revision ro"
  let ?C = "current = ro_old_revision ro"
  have "?A \<or> ?B \<or> ?C"
  proof (rule ccontr)
    assume "\<not> (?A \<or> ?B \<or> ?C)"
    then have "\<not> ?A" "\<not> ?B" "\<not> ?C" by blast+
    with assms show False by (simp only: settle_by_revision_def if_False) simp
  qed
  then consider (A) ?A | (B) "\<not> ?A" ?B | (C) "\<not> ?A" "\<not> ?B" ?C by blast
  then show thesis
  proof cases
    case A
    with assms success show ?thesis by (auto simp: settle_by_revision_def bindS_Inr)
  next
    case B
    with assms success direct show ?thesis
      unfolding settle_by_revision_def by (cases "ro_job ro") (auto simp: bindS_Inr)
  next
    case C
    note out = assms [unfolded settle_by_revision_def if_not_P [OF C(1)] if_not_P [OF C(2)] if_P [OF C(3)]]
    show ?thesis
    proof (cases "ro_job ro")
      case None
      with out failed [OF C(3)] C show ?thesis by (auto simp: bindS_Inr)
    next
      case (Some wk)
      with out failed [OF C(3)] C show ?thesis by (cases wk) (auto simp: bindS_Inr)
    qed
  qed
qed

text \<open>The outcomes of settling: the revision of the memory decides.\<close>

lemma recover_locked_settles:
  assumes "recover_locked mt ro s = (t, Inr n)" "faithful_files (mt_jobs mt)"
    and "spot [ro_memory_hash ro] s \<noteq> None" "ro_phase ro \<in> {''prepared'', ''backed_up'', ''published''}"
  obtains fs where "read_canonical_files mt [ro_memory_hash ro] (dk_root s) = Inr fs"
    and "memory_content_revision mt fs \<in> {ro_old_revision ro, ro_new_revision ro}" "n = 1"
    and "tidied (ro_memory_hash ro) (ro_operation_id ro) t"
    and "\<forall>w k. ro_job ro = Some (w, k) \<longrightarrow>
      job_is mt k (if memory_content_revision mt fs = ro_new_revision ro then Complete else Failed) t"
proof -
  let ?h = "ro_memory_hash ro" and ?old = "ro_old_revision ro" and ?new = "ro_new_revision ro"
  from assms(1) obtain u v fs z x where
    u: "canonical_directory mt ?h s = (u, Inr x)" and v: "read_files mt [?h] u = (v, Inr fs)" and
    same: "ro_no_change ro \<longleftrightarrow> ?old = ?new" and
    last: "settle_by_revision mt ro (memory_content_revision mt fs) z = (t, Inr n)"
    unfolding recover_locked_def Let_def returned mapErr_eq_Inr ensure_eq_Inr by blast
  have "u = s" using canonical_idle [OF assms(3), of mt] u by simp
  with read_files_Inr [OF v] have found: "read_canonical_files mt [?h] (dk_root s) = Inr fs" by simp
  show thesis using last
  proof (cases rule: settle_cases)
    case success
    with finalized [OF success(3) assms(2)] found show ?thesis by (intro that) auto
  next
    case direct
    with cleanup_tidies [OF direct(4)] found show ?thesis by (intro that) auto
  next
    case (failed _ y)
    then have new: "memory_content_revision mt fs \<noteq> ?new" using assms(4) same by auto
    have "job_is mt k Failed t" if "ro_job ro = Some (w, k)" for w k
      using marked(2) [OF assms(2) failed(6) [OF that]] job_is_jobs keepsD [OF keeps_cleanup_jobs failed(5)] by blast
    with failed cleanup_tidies [OF failed(5)] found new show ?thesis by (intro that) auto
  qed
qed

text \<open>Recovery never writes to a memory.\<close>

lemma canonical_stays:
  "triple (\<lambda>z. spot [h] z = c \<and> c \<noteq> None) (canonical_directory mt h) (\<lambda>_ z. spot [h] z = c) (\<lambda>_ z. spot [h] z = c)"
  by (rule tripleI') (metis canonical_idle fst_conv)+

lemma recover_locked_memory:
  assumes "full_digest (ro_memory_hash ro)" "spot [ro_memory_hash ro] s \<noteq> None" "recover_locked mt ro s = (t, out)"
  shows "spot [ro_memory_hash ro] t = spot [ro_memory_hash ro] s"
proof -
  let ?h = "ro_memory_hash ro"
  note names = digest_name [OF assms(1)]
  have clean: "keeps (spot [?h]) (cleanup_paths mt ?h i)" for i
    using names by (intro keepsI) auto
  then have fin: "keeps (spot [?h]) (finalize_recovered_success mt ro)"
    using names unfolding finalize_recovered_success_def by (intro keepsI) auto
  then have settle: "keeps (spot [?h]) (settle_by_revision mt ro x)" for x
    unfolding settle_by_revision_def using names by (intro keepsI) auto
  have "\<exists>m. recover_locked mt ro = bindS (canonical_directory mt ?h) (\<lambda>_. m) \<and> keeps (spot [?h]) m"
    unfolding recover_locked_def Let_def by (intro exI conjI, rule refl) (intro keepsI settle)
  then obtain m where m: "recover_locked mt ro = bindS (canonical_directory mt ?h) (\<lambda>_. m)" "keeps (spot [?h]) m"
    by blast
  have "triple (\<lambda>z. spot [?h] z = spot [?h] s \<and> spot [?h] s \<noteq> None) (recover_locked mt ro)
      (\<lambda>_ z. spot [?h] z = spot [?h] s) (\<lambda>_ z. spot [?h] z = spot [?h] s)"
    unfolding m(1)
    by (rule triple_bind [OF canonical_stays [of ?h "spot [?h] s" mt] triple_keeps [OF m(2), of "spot [?h] s"]])
  note tr = this
  show ?thesis
  proof (cases out)
    case (Inl e)
    with assms(2,3) show ?thesis by (intro tripleD(2) [OF tr]) simp_all
  next
    case (Inr n)
    with assms(2,3) show ?thesis by (intro tripleD(1) [OF tr]) simp_all
  qed
qed

lemma keeps_operation:
  assumes "full_digest h"
  shows "keeps (spot [h]) (lookM f)" "keeps (spot [h]) (memory_lock mt b r)"
    "keeps (spot [h]) (operation_from_payload mt d h' name owners)"
  using digest_name [OF assms]
  unfolding memory_lock_def operation_from_payload_def Let_def by (auto intro!: keepsI)

text \<open>What a parsed journal says.\<close>

lemma matching_job_in:
  "matching_job_paths owners i ja = Inr ms \<Longrightarrow> x \<in> set ms \<Longrightarrow> \<exists>w\<in>set owners. x = (w, (jo_team_id w, i))"
  by (auto simp: matching_job_paths_def bindE_eq_Inr)

lemma field_Inr:
  "revision_field j = Inr r \<Longrightarrow> j = JStr r"
  "phase_field j = Inr r \<Longrightarrow> j = JStr r \<and> r \<in> {''prepared'', ''backed_up'', ''published''}"
  by (auto simp: revision_field_def phase_field_def bindE_eq_Inr ensure_eq_Inr split: json.splits)

lemma owned_job_Inr:
  assumes "owned_job True owners i ja = Inr x"
  shows "\<exists>w\<in>set owners. x = Some (w, (jo_team_id w, i))"
proof -
  from assms obtain ms where ms: "matching_job_paths owners i ja = Inr ms"
    "(case ms of [y] \<Rightarrow> Inr (Some y) | _ \<Rightarrow> Inl valueError) = Inr x"
    by (auto simp: owned_job_def bindE_eq_Inr)
  then obtain y where "ms = [y]" "x = Some y" by (cases ms rule: remdups_adj.cases) auto
  with matching_job_in [OF ms(1), of y] show ?thesis by auto
qed

lemma parsed_text:
  assumes "parse_journal mt d h name owners ja = Inr ro"
  shows "ro_memory_hash ro = h" "full_digest h" "name = journal_name (ro_operation_id ro)"
    and "get_or JNull d ''old_revision'' = JStr (ro_old_revision ro)"
    and "get_or JNull d ''new_revision'' = JStr (ro_new_revision ro)"
    and "ro_phase ro \<in> {''prepared'', ''backed_up'', ''published''}"
    and "get_or JNull d ''kind'' = JStr ''job'' \<Longrightarrow>
      \<exists>w\<in>set owners. ro_job ro = Some (w, (jo_team_id w, ro_operation_id ro))"
proof -
  from assms obtain i old new phase no_change kind canonical m job x where
    h: "validate_memory_hash x = Inr h" and name: "name = journal_name i" and
    fields: "phase_field (get_or JNull d ''phase'') = Inr phase"
      "revision_field (get_or JNull d ''old_revision'') = Inr old"
      "revision_field (get_or JNull d ''new_revision'') = Inr new"
      "owned_job (get_or JNull d ''kind'' = JStr ''job'') owners i ja = Inr job" and
    ro: "ro = \<lparr>ro_kind = kind, ro_operation_id = i, ro_phase = phase, ro_no_change = no_change,
        ro_resolved = \<lparr>rm_selector = m, rm_canonical_json = canonical, rm_memory_hash = h,
          rm_root = mt_root mt, rm_name = h\<rparr>,
        ro_memory_hash = h, ro_old_revision = old, ro_new_revision = new, ro_job = job\<rparr>"
    unfolding parse_journal_def Let_def bindE_eq_Inr ensure_eq_Inr by blast
  then show "ro_memory_hash ro = h" "full_digest h" "name = journal_name (ro_operation_id ro)"
    by (auto simp: validate_memory_hash_def bindE_eq_Inr ensure_eq_Inr)
  show "get_or JNull d ''old_revision'' = JStr (ro_old_revision ro)"
    "get_or JNull d ''new_revision'' = JStr (ro_new_revision ro)"
    "ro_phase ro \<in> {''prepared'', ''backed_up'', ''published''}"
    using field_Inr(2) [OF fields(1)] field_Inr(1) [OF fields(2)] field_Inr(1) [OF fields(3)] ro by simp_all
  show "\<exists>w\<in>set owners. ro_job ro = Some (w, (jo_team_id w, ro_operation_id ro))"
    if "get_or JNull d ''kind'' = JStr ''job''"
    using owned_job_Inr fields(4) that ro by simp
qed

section \<open>Recovering an interrupted transaction\<close>

text \<open>What a transaction is made of, and that revisions tell two contents apart.\<close>

definition sound_transaction :: "memory_tools \<Rightarrow> memory_transaction \<Rightarrow> bool" where
  "sound_transaction mt tx \<longleftrightarrow> wf_transaction tx \<and>
     tx_old_revision tx = memory_content_revision mt (tx_old_files tx) \<and>
     tx_new_revision tx = memory_content_revision mt (tx_new_files tx)"

definition tells_apart :: "memory_tools \<Rightarrow> files \<Rightarrow> files \<Rightarrow> bool" where
  "tells_apart mt fs gs \<longleftrightarrow>
     (memory_content_revision mt fs = memory_content_revision mt gs \<longrightarrow> same_files fs gs)"

text \<open>A digest without a collision on two texts tells files without NUL apart.\<close>

lemma collision_free_tells_apart:
  assumes "mt_sha mt (revision_text fs) = mt_sha mt (revision_text gs) \<Longrightarrow> revision_text fs = revision_text gs"
    and "nul_free fs" "nul_free gs"
  shows "tells_apart mt fs gs"
  using assms revision_text_inj by (auto simp: tells_apart_def memory_content_revision_def)

lemma same_revision:
  assumes "same_files fs gs" "wf_dict fs" "wf_dict gs"
  shows "memory_content_revision mt fs = memory_content_revision mt gs"
proof -
  have "sort_key fst fs = sort_key fst gs"
  proof (rule map_sorted_distinct_set_unique [where f = fst])
    show "inj_on fst (set (sort_key fst fs) \<union> set (sort_key fst gs))"
      using assms by (simp add: same_files_def distinct_map)
  qed (use assms in \<open>auto simp: same_files_def distinct_map\<close>)
  then show ?thesis by (simp add: memory_content_revision_def revision_text_def)
qed

lemma dir_is_files:
  assumes "dir_is fs c" "dir_is gs c" "wf_dict fs" "wf_dict gs"
  shows "same_files fs gs"
proof -
  from assms(1,2) have "map_option FileNode (map_of fs k) = map_option FileNode (map_of gs k)" for k
    by (auto simp: dir_is_def)
  then have "map_of fs k = map_of gs k" for k
    using option.inj_map [of FileNode] by (meson injD inj_def node.inject(1))
  then have "map_of fs = map_of gs" by blast
  with assms(3,4) show ?thesis by (metis map_of_inject_set same_files_def)
qed

text \<open>Which of its two contents a memory has is what its revision says.\<close>

lemma content_decides:
  assumes "sound_transaction mt tx" "dir_is fs c" "wf_dict fs"
    and "tells_apart mt fs (tx_old_files tx) \<and> tells_apart mt fs (tx_new_files tx)"
    and "memory_content_revision mt fs \<in> {tx_old_revision tx, tx_new_revision tx}"
  shows "dir_is (tx_new_files tx) c \<longleftrightarrow> memory_content_revision mt fs = tx_new_revision tx"
    and "dir_is (tx_new_files tx) c \<or> dir_is (tx_old_files tx) c"
proof -
  have wf: "wf_dict (tx_old_files tx)" "wf_dict (tx_new_files tx)"
    using assms(1) by (simp_all add: sound_transaction_def wf_transaction_def)
  show new: "dir_is (tx_new_files tx) c \<longleftrightarrow> memory_content_revision mt fs = tx_new_revision tx"
    using dir_is_files [OF assms(2) _ assms(3) wf(2)] same_revision [OF _ assms(3) wf(2)]
      same_dir_is [OF _ assms(3) wf(2)] assms(1,2,4) by (auto simp: tells_apart_def sound_transaction_def)
  have "dir_is (tx_old_files tx) c" if "memory_content_revision mt fs = tx_old_revision tx"
    using that same_dir_is [OF _ assms(3) wf(1)] assms(1,2,4) by (auto simp: tells_apart_def sound_transaction_def)
  with new assms(5) show "dir_is (tx_new_files tx) c \<or> dir_is (tx_old_files tx) c" by blast
qed

text \<open>Reading the journal back under the lock.\<close>

lemma operation_Inr:
  "operation_from_payload mt d h name owners s = (t, Inr ro) \<Longrightarrow>
   parse_journal mt d h name owners (ma_jobs s) = Inr ro"
  by (auto simp: operation_from_payload_def Let_def returned mapErr_eq_Inr simp del: bindS_readS readS_apply)

lemma recover_journal_memory:
  assumes "recover_journal mt owners h name s = (t, out)" "full_digest h" "spot [h] s \<noteq> None"
  shows "spot [h] t = spot [h] s"
proof -
  let ?A = "\<lambda>z. spot [h] z = spot [h] s"
  have same: "triple ?A m (\<lambda>_. ?A) (\<lambda>_. ?A)" if "keeps (spot [h]) m" for m :: "'a mem_op"
    using that by (rule triple_keeps)
  have op: "triple ?A (operation_from_payload mt d h name owners) (\<lambda>ro z. ro_memory_hash ro = h \<and> ?A z) (\<lambda>_. ?A)" for d
  proof (rule tripleI')
    fix z w x assume A: "?A z"
    note k = keepsD [OF keeps_operation(3) [OF assms(2)]]
    show "ro_memory_hash x = h \<and> ?A w" if "operation_from_payload mt d h name owners z = (w, Inr x)"
      using k [OF that] A parsed_text(1) [OF operation_Inr [OF that]] by simp
    show "?A w" if "operation_from_payload mt d h name owners z = (w, Inl e)" for e
      using k [OF that] A by simp
  qed
  have settle: "triple (\<lambda>z. ro_memory_hash ro = h \<and> ?A z) (recover_locked mt ro) (\<lambda>_. ?A) (\<lambda>_. ?A)" for ro
  proof (rule tripleI')
    fix z w x assume z: "ro_memory_hash ro = h \<and> ?A z"
    with recover_locked_memory [of ro z mt] assms(2,3)
    show "recover_locked mt ro z = (w, Inr x) \<Longrightarrow> ?A w" "\<And>e. recover_locked mt ro z = (w, Inl e) \<Longrightarrow> ?A w"
      by simp_all
  qed
  have pay: "triple ?A (case payload of
       Inl e \<Rightarrow> if e = call_error ''FileNotFoundError'' then returnS 0 else raiseM e
     | Inr d \<Rightarrow> bindS (operation_from_payload mt d h name owners) (recover_locked mt)) (\<lambda>_. ?A) (\<lambda>_. ?A)" for payload
    by (cases payload) (auto intro!: triple_read triple_bind [OF op settle])
  have "triple ?A (recover_journal mt owners h name) (\<lambda>_. ?A) (\<lambda>_. ?A)"
    unfolding recover_journal_def
    by (rule triple_bind [OF same [OF keeps_operation(1) [OF assms(2)]]],
        rule triple_bind [OF same [OF keeps_operation(2) [OF assms(2)]]],
        rule triple_bind [OF same [OF keeps_read]], rule pay)
  note tr = this
  show ?thesis
  proof (cases out)
    case (Inl e)
    with tripleD(2) [OF tr refl] assms(1) show ?thesis by simp
  next
    case (Inr n)
    with tripleD(1) [OF tr refl] assms(1) show ?thesis by simp
  qed
qed

lemma recover_journal_runs:
  assumes "recover_journal mt owners h (journal_name i) s = (t, Inr n)" "full_digest h"
    and "spot (journals h @ [journal_name i]) s = Some (FileNode (jt_dump (mt_jobs mt) (JObj d)))"
    and "jt_load (mt_jobs mt) (jt_dump (mt_jobs mt) (JObj d)) = Some (JObj d)"
  obtains ro u and v :: memory_area where "parse_journal mt d h (journal_name i) owners (ma_jobs v) = Inr ro"
    "recover_locked mt ro u = (t, Inr n)" "spot [h] u = spot [h] s"
proof -
  let ?name = "journal_name i"
  from assms(1) obtain r x v where lock: "memory_lock mt False r s = (v, Inr x)"
    and run: "(case read_payload mt h ?name (dk_root v) of
       Inl e \<Rightarrow> if e = call_error ''FileNotFoundError'' then returnS 0 else raiseM e
     | Inr d \<Rightarrow> bindS (operation_from_payload mt d h ?name owners) (recover_locked mt)) v = (t, Inr n)"
    unfolding recover_journal_def returned by auto
  have "keeps (spot (journals h @ [?name])) (memory_lock mt False r)"
    unfolding memory_lock_def by (intro keepsI) simp
  from keepsD [OF this lock] assms(3,4) have "read_payload mt h ?name (dk_root v) = Inr d"
    by (simp add: read_payload_def spot_def)
  with run obtain ro u where op: "operation_from_payload mt d h ?name owners v = (u, Inr ro)"
    and rl: "recover_locked mt ro u = (t, Inr n)" by (auto simp: bindS_Inr)
  have "spot [h] u = spot [h] s"
    using keepsD [OF keeps_operation(3) [OF assms(2)] op] keepsD [OF keeps_operation(2) [OF assms(2)] lock] by simp
  with operation_Inr [OF op] rl show thesis by (intro that)
qed

text \<open>The journal that a transaction wrote.\<close>

lemma own_journal_settles:
  assumes "recover_journal mt owners (tx_memory_hash tx) (journal_name (tx_operation_id tx)) s = (t, Inr n)"
    and "journal_at mt tx phase s" "full_digest (tx_memory_hash tx)" "faithful_files (mt_jobs mt)"
    and "jt_load (mt_jobs mt) (jt_dump (mt_jobs mt) (journal_json tx phase)) = Some (journal_json tx phase)"
    and "spot [tx_memory_hash tx] s \<noteq> None"
  obtains fs where "read_canonical_files mt [tx_memory_hash tx] (dk_root s) = Inr fs"
    "memory_content_revision mt fs \<in> {tx_old_revision tx, tx_new_revision tx}"
    "tidied (tx_memory_hash tx) (tx_operation_id tx) t"
    "tx_kind tx = ''job'' \<longrightarrow> (\<exists>w\<in>set owners. job_is mt (jo_team_id w, tx_operation_id tx)
       (if memory_content_revision mt fs = tx_new_revision tx then Complete else Failed) t)"
proof -
  let ?h = "tx_memory_hash tx" and ?i = "tx_operation_id tx"
  obtain d where d: "journal_json tx phase = JObj d" by (simp add: journal_json_def)
  from assms(2) d have "spot (journals ?h @ [journal_name ?i]) s = Some (FileNode (jt_dump (mt_jobs mt) (JObj d)))"
    by (simp add: journal_at_def)
  from recover_journal_runs [OF assms(1,3) this assms(5) [unfolded d]] obtain ro u and v :: memory_area where
    parse: "parse_journal mt d ?h (journal_name ?i) owners (ma_jobs v) = Inr ro" and
    run: "recover_locked mt ro u = (t, Inr n)" and u: "spot [?h] u = spot [?h] s" .
  note said = parsed_text [OF parse]
  have id: "ro_operation_id ro = ?i" using said(3) by simp
  have revs: "ro_old_revision ro = tx_old_revision tx" "ro_new_revision ro = tx_new_revision tx"
    and kind: "get_or JNull d ''kind'' = JStr (tx_kind tx)"
    using said(4,5) d by (auto simp: journal_json_def get_or_def)
  have "spot [ro_memory_hash ro] u \<noteq> None" using u assms(6) by (simp add: said(1))
  from recover_locked_settles [OF run assms(4) this said(6), unfolded said(1) id revs] obtain fs where
    fs: "read_canonical_files mt [?h] (dk_root u) = Inr fs" and
    rest: "memory_content_revision mt fs \<in> {tx_old_revision tx, tx_new_revision tx}" "n = 1" "tidied ?h ?i t" and
    job: "\<forall>w k. ro_job ro = Some (w, k) \<longrightarrow>
      job_is mt k (if memory_content_revision mt fs = tx_new_revision tx then Complete else Failed) t" .
  have rd: "read_canonical_files mt [?h] (dk_root s) = Inr fs"
    using fs u read_cong [of "dk_root u" "[?h]" "dk_root s"] by (simp add: spot_def)
  show thesis
  proof (rule that [OF rd rest(1,3)], rule impI)
    assume "tx_kind tx = ''job''"
    with said(7) kind id job show "\<exists>w\<in>set owners. job_is mt (jo_team_id w, ?i)
       (if memory_content_revision mt fs = tx_new_revision tx then Complete else Failed) t" by auto
  qed
qed

text \<open>C12: Recovering the journal of an interrupted transaction never changes the memory. When it settles the
  journal, the memory has exactly the old or exactly the new files, the job that owns the journal is
  complete if they are the new ones and failed otherwise, and journal, backup and stage are gone.\<close>

theorem recovery_settles:
  assumes "recover_journal mt owners (tx_memory_hash tx) (journal_name (tx_operation_id tx)) s = (t, out)"
    and "journal_at mt tx phase s" "sound_transaction mt tx" "faithful_files (mt_jobs mt)"
    and "jt_load (mt_jobs mt) (jt_dump (mt_jobs mt) (journal_json tx phase)) = Some (journal_json tx phase)"
    and "spot [tx_memory_hash tx] s = Some (DirNode es)" "wf_dict es"
    and "\<And>fs. read_canonical_files mt [tx_memory_hash tx] (dk_root s) = Inr fs \<Longrightarrow>
      tells_apart mt fs (tx_old_files tx) \<and> tells_apart mt fs (tx_new_files tx)"
  shows "spot [tx_memory_hash tx] t = spot [tx_memory_hash tx] s \<and>
    (isOk out \<longrightarrow>
       (let committed = dir_is (tx_new_files tx) (spot [tx_memory_hash tx] t) in
        (committed \<or> dir_is (tx_old_files tx) (spot [tx_memory_hash tx] t)) \<and>
        tidied (tx_memory_hash tx) (tx_operation_id tx) t \<and>
        (tx_kind tx = ''job'' \<longrightarrow> (\<exists>w\<in>set owners.
           job_is mt (jo_team_id w, tx_operation_id tx) (if committed then Complete else Failed) t))))"
proof -
  let ?h = "tx_memory_hash tx"
  have digest: "full_digest ?h" using assms(3) by (simp add: sound_transaction_def wf_transaction_def)
  from recover_journal_memory [OF assms(1) digest] assms(6) have same: "spot [?h] t = spot [?h] s" by simp
  show ?thesis
  proof (cases out)
    case (Inl e)
    with same show ?thesis by simp
  next
    case (Inr n)
    from assms(6) have "spot [?h] s \<noteq> None" by simp
    from own_journal_settles [OF assms(1) [unfolded Inr] assms(2) digest assms(4,5) this] obtain fs where
      rd: "read_canonical_files mt [?h] (dk_root s) = Inr fs" and
      out: "memory_content_revision mt fs \<in> {tx_old_revision tx, tx_new_revision tx}"
        "tidied ?h (tx_operation_id tx) t"
        "tx_kind tx = ''job'' \<longrightarrow> (\<exists>w\<in>set owners. job_is mt (jo_team_id w, tx_operation_id tx)
          (if memory_content_revision mt fs = tx_new_revision tx then Complete else Failed) t)" .
    from read_dir_is [OF rd, of es] assms(6,7) same have dir: "dir_is fs (spot [?h] t)" "wf_dict fs"
      by (simp_all add: spot_def)
    from content_decides [OF assms(3) dir assms(8) [OF rd] out(1)] out(2,3) same show ?thesis
      by (simp add: Let_def)
  qed
qed

end
