(* ===== verification/MemoryScenarios.thy ===== *)
theory MemoryScenarios
  imports MemoryRecovery JobScenarios
begin

text \<open>
  The memory operations run on a small store. Which call fails, and how, is an argument, so the same
  publication can be run to its end, be stopped at any point, and be recovered.
\<close>

section \<open>A store with one memory\<close>

text \<open>A digest that tells the contents of the example apart, and names all memories alike.\<close>

definition new_content :: files where "new_content = [(''memory.md'', ''new''), (''notes.md'', ''n'')]"
definition old_content :: files where "old_content = [(''memory.md'', ''old'')]"

definition example_sha :: "string \<Rightarrow> string" where
  "example_sha s = replicate 64 (if s = revision_text new_content then CHR ''1''
     else if s = revision_text old_content then CHR ''2'' else CHR ''a'')"

definition fresh_name :: "string \<Rightarrow> string list \<Rightarrow> string" where
  "fresh_name pre ks = (if pre @ ''x'' \<in> set ks then pre @ ''y'' else pre @ ''x'')"

definition memory_tools_with :: "(nat \<Rightarrow> hazard) \<Rightarrow> memory_tools" where
  "memory_tools_with hz = \<lparr>mt_jobs = example_tools, mt_hazard = hz, mt_sha = example_sha, mt_nfkc = (\<lambda>s. s),
     mt_casefold = (\<lambda>s. s), mt_dumps = written, mt_loads = (\<lambda>s. loaded s []), mt_temp = fresh_name,
     mt_uuid = (\<lambda>_. ''u''), mt_now = ''now'', mt_str = (\<lambda>_. ''?''), mt_message = (\<lambda>_. ''error''), mt_root = ''/mem''\<rparr>"

definition calm :: "nat \<Rightarrow> hazard" where "calm n = Works"
definition dies_at :: "nat \<Rightarrow> nat \<Rightarrow> hazard" where "dies_at k n = (if n = k then Dies else Works)"
definition breaks_at :: "nat \<Rightarrow> nat \<Rightarrow> hazard" where "breaks_at k n = (if n = k then Breaks else Works)"

definition example_hash :: string where "example_hash = replicate 64 CHR ''a''"

definition example_canonical :: string where
  "example_canonical = written (JObj [(''version'', JInt 1), (''scope'', JStr ''team''), (''team'', JStr ''t'')])"

definition example_memory :: resolved_memory where
  "example_memory = \<lparr>rm_selector = \<lparr>ms_scope = ''team'', ms_channel = None\<rparr>,
     rm_canonical_json = example_canonical,
     rm_memory_hash = example_hash, rm_root = ''/mem'', rm_name = example_hash\<rparr>"

definition directory_of :: "files \<Rightarrow> node" where
  "directory_of fs = DirNode (map (\<lambda>(n, b). (n, FileNode b)) fs)"

text \<open>The record of the job that publishes to it.\<close>

definition owner_spec :: job_spec where
  "owner_spec = (example_spec ''j1'')\<lparr>sp_memory := \<lparr>mb_selector = JObj [(''scope'', JStr ''team'')],
     mb_canonical_json = JStr example_canonical, mb_memory_hash = JStr example_hash,
     mb_path = JStr (''/mem/'' @ example_hash)\<rparr>\<rparr>"

definition owner_record :: job_record where
  "owner_record = (example_running ''j1'')\<lparr>jr_spec := owner_spec\<rparr>"

definition owned_jobs :: job_area where
  "owned_jobs = stored example_tools (''t'', ''j1'') owner_record \<lparr>ja_files = [], ja_readonly = [], ja_escapes = []\<rparr>"

text \<open>A memory with its old content, and the stage of a job with the new one.\<close>

definition example_store :: memory_area where
  "example_store = \<lparr>dk_root = DirNode [(example_hash, directory_of old_content),
     (''.staging'', DirNode [(example_hash, DirNode [(''j1'', directory_of new_content)])])],
     dk_clock = 0, ma_jobs = owned_jobs\<rparr>"

definition example_stage :: memory_stage where
  "example_stage = \<lparr>mg_resolved = example_memory, mg_job_id = ''j1'', mg_base_revision = replicate 64 CHR ''2''\<rparr>"

text \<open>What preparing makes of it: places for the journal and the backup.\<close>

definition store_at :: "(string \<times> node) list \<Rightarrow> (string \<times> node) list \<Rightarrow> (string \<times> node) list \<Rightarrow>
    (string \<times> node) list \<Rightarrow> nat \<Rightarrow> memory_area" where
  "store_at memory journal backup rest clock = example_store\<lparr>dk_root := DirNode ([(example_hash, DirNode memory),
     (''.staging'', DirNode [(example_hash, DirNode [(''j1'', directory_of new_content)])]),
     (''.journals'', DirNode [(example_hash, DirNode journal)]),
     (''.publication-backups'', DirNode [(example_hash, DirNode backup)])] @ rest), dk_clock := clock\<rparr>"

abbreviation doc :: "string \<Rightarrow> string \<Rightarrow> string \<times> node" where
  "doc n b \<equiv> (n, FileNode b)"

definition prepared_store :: memory_area where
  "prepared_store = store_at [doc ''memory.md'' ''old''] [] [] [] 6"

definition prepared :: prepared_publication where
  "prepared = \<lparr>pp_stage = example_stage, pp_job = (''t'', ''j1''), pp_selector = rm_selector example_memory,
     pp_memory_hash = example_hash, pp_old_revision = replicate 64 CHR ''2'', pp_new_revision = replicate 64 CHR ''1'',
     pp_old_files = old_content, pp_new_files = new_content, pp_no_change = False\<rparr>"

text \<open>Running an operation: a continuation is left alone until its argument is known.\<close>

lemma lazy_bind: "bindS m f s = bindS m f s" by (rule refl)
lemma lazy_catch: "catchS m h s = catchS m h s" by (rule refl)
lemma lazy_finally: "finallyS m h s = finallyS m h s" by (rule refl)
lemma lazy_when: "whenS c m s = whenS c m s" by (rule refl)
lemma lazy_each: "xs = ys \<Longrightarrow> eachS f xs s = eachS f ys s" by simp

lemma example_digest: "full_digest example_hash" by code_simp

lemma hash_names [simp]: "example_hash \<noteq> CHR ''.'' # n" "CHR ''.'' # n \<noteq> example_hash"
proof -
  have "hd example_hash \<noteq> CHR ''.''" by code_simp
  then show "example_hash \<noteq> CHR ''.'' # n" "CHR ''.'' # n \<noteq> example_hash" by (metis list.sel(1))+
qed

lemma tool_sel [simp]:
  "mt_jobs (memory_tools_with hz) = example_tools" "mt_hazard (memory_tools_with hz) = hz"
  "mt_sha (memory_tools_with hz) = example_sha" "mt_nfkc (memory_tools_with hz) = (\<lambda>s. s)"
  "mt_casefold (memory_tools_with hz) = (\<lambda>s. s)" "mt_temp (memory_tools_with hz) = fresh_name"
  "mt_uuid (memory_tools_with hz) = (\<lambda>_. ''u'')" "mt_now (memory_tools_with hz) = ''now''"
  by (simp_all add: memory_tools_with_def)

lemma owner_sound:
  assumes "run_fields f" "st \<in> {Running, Complete, Failed}"
  shows "sound_record example_tools (f (owner_record\<lparr>jr_status := st\<rparr>))"
proof -
  have "strip ''j1'' \<noteq> []" by code_simp
  from example_valid [OF this] example_record [OF this] have "sound_record example_tools owner_record"
    by (simp add: sound_record_def sound_spec_def owner_record_def owner_spec_def example_running_def
        immutable_digest_def example_tools_def example_spec_def validate_spec_def validate_trigger_contract_def)
  with assms(1) show ?thesis by (simp add: sound_record_def run_fields_def)
qed

lemma owner_fields:
  "jr_status owner_record = Running" "jr_spec owner_record = owner_spec"
  by (simp_all add: owner_record_def example_running_def)

lemma owner_sound_now: "sound_record example_tools owner_record"
  using owner_sound [of "\<lambda>r. r" Running] by (simp add: run_fields_def) (metis owner_fields(1) job_record.surjective job_record.update_convs(3))

lemma owned [simp]:
  "read_job example_tools owned_jobs (''t'', ''j1'') None = Inr owner_record" "ja_escapes owned_jobs = []"
  "job_file_at owned_jobs (''t'', ''j1'') \<noteq> None"
  using owner_sound_now
  by (simp_all add: owned_jobs_def read_stored [OF example_faithful]) (simp_all add: stored_def job_file_at_def)

lemma owner_moves:
  assumes "run_fields f" "st \<in> {Complete, Failed}"
  shows "transition_job example_tools (''t'', ''j1'') Running st f owned_jobs =
    (stored example_tools (''t'', ''j1'') (f (owner_record\<lparr>jr_status := st\<rparr>)) owned_jobs,
     Inr (f (owner_record\<lparr>jr_status := st\<rparr>)))"
proof -
  have w: "write_job example_tools (''t'', ''j1'') (f (owner_record\<lparr>jr_status := st\<rparr>)) owned_jobs =
    (stored example_tools (''t'', ''j1'') (f (owner_record\<lparr>jr_status := st\<rparr>)) owned_jobs, Inr ())"
    unfolding write_job_Inr using owner_sound [OF assms(1)] assms(2)
    by (auto simp: sound_record_def owned_jobs_def stored_def)
  from assms(2) have "st \<in> set (VALID_TRANSITIONS Running)" by auto
  with w show ?thesis
    by (simp add: transition_job_def update_job_def owner_fields ensure_def bindS_def)
qed

lemma job_name: "validate_job_id (memory_tools_with hz) ''j1'' = Inr ''j1''"
proof -
  have "validate_job_id (memory_tools_with calm) ''j1'' = Inr ''j1''" by code_simp
  then show ?thesis by (simp add: validate_job_id_def normalized_key_def)
qed

lemma file_names:
  "validate_filename (memory_tools_with hz) ''memory.md'' [] = Inr [(''memory.md'', ''memory.md'')]"
  "validate_filename (memory_tools_with hz) ''notes.md'' [(''memory.md'', ''memory.md'')] =
     Inr [(''memory.md'', ''memory.md''), (''notes.md'', ''notes.md'')]"
proof -
  have "validate_filename (memory_tools_with calm) ''memory.md'' [] = Inr [(''memory.md'', ''memory.md'')]"
    "validate_filename (memory_tools_with calm) ''notes.md'' [(''memory.md'', ''memory.md'')] =
       Inr [(''memory.md'', ''memory.md''), (''notes.md'', ''notes.md'')]" by code_simp+
  then show "validate_filename (memory_tools_with hz) ''memory.md'' [] = Inr [(''memory.md'', ''memory.md'')]"
    "validate_filename (memory_tools_with hz) ''notes.md'' [(''memory.md'', ''memory.md'')] =
       Inr [(''memory.md'', ''memory.md''), (''notes.md'', ''notes.md'')]"
    by (simp_all add: validate_filename_def normalized_key_def)
qed

lemma content_revisions:
  "memory_content_revision (memory_tools_with hz) [(''memory.md'', ''old'')] = replicate 64 CHR ''2''"
  "memory_content_revision (memory_tools_with hz) [(''memory.md'', ''new''), (''notes.md'', ''n'')] = replicate 64 CHR ''1''"
  "memory_content_revision (memory_tools_with hz) [] = replicate 64 CHR ''a''"
proof -
  have "revision_text old_content \<noteq> revision_text new_content" "revision_text [] \<noteq> revision_text new_content"
    "revision_text [] \<noteq> revision_text old_content" by code_simp+
  then show "memory_content_revision (memory_tools_with hz) [(''memory.md'', ''old'')] = replicate 64 CHR ''2''"
    "memory_content_revision (memory_tools_with hz) [(''memory.md'', ''new''), (''notes.md'', ''n'')] = replicate 64 CHR ''1''"
    "memory_content_revision (memory_tools_with hz) [] = replicate 64 CHR ''a''"
    by (simp_all add: memory_content_revision_def example_sha_def old_content_def new_content_def)
qed

lemmas run_defs = bindS_def catchS_def finallyS_def whenS_def mapErr_def ensure_def Let_def
  syscall_def sysread_def callM_def lookM_def calm_def entries_at_def in_directory_def
  make_dir_def replace_file_def remove_file_def remove_dir_def move_entry_def
  actual_directory_def is_directory_def present_def
  ensure_infrastructure_directory_def ensure_child_directory_def canonical_directory_def
  create_verified_tempdir_def safe_rmtree_def read_files_def read_canonical_files_def
  write_files_def fresh_name_def evacuate_files_def entry_names_def
  swap_files_def replace_canonical_files_def rollback_canonical_replace_def
  validate_resolved_memory_def validate_memory_hash_def example_digest
  journal_path_def backup_path_def publication_job_def job_name file_names content_revisions

lemmas lazy = lazy_bind lazy_catch lazy_finally lazy_when lazy_each

lemmas example_defs = store_at_def example_stage_def example_memory_def example_store_def directory_of_def
  old_content_def new_content_def same_files_def

lemma example_prepared:
  "prepare_publication (memory_tools_with calm) example_stage ''t'' None example_store = (prepared_store, Inr prepared)"
  by (simp add: run_defs prepare_publication_def example_defs prepared_def prepared_store_def
    cong: lazy del: bindS_readS)

definition journal_text :: "string \<Rightarrow> string" where
  "journal_text phase = written (journal_json (job_transaction prepared) phase)"

lemma written_journal: "jt_dump example_tools (journal_json (job_transaction prepared) phase) = journal_text phase"
  by (simp add: journal_text_def example_tools_def)

lemma transaction_sel [simp]:
  "tx_memory_hash (job_transaction prepared) = example_hash" "tx_operation_id (job_transaction prepared) = ''j1''"
  "tx_old_revision (job_transaction prepared) = replicate 64 CHR ''2''"
  "tx_new_revision (job_transaction prepared) = replicate 64 CHR ''1''"
  "tx_old_files (job_transaction prepared) = [(''memory.md'', ''old'')]"
  "tx_new_files (job_transaction prepared) = [(''memory.md'', ''new''), (''notes.md'', ''n'')]"
  "tx_no_change (job_transaction prepared) = False" "tx_job (job_transaction prepared) = Some (''t'', ''j1'')"
  "tx_kind (job_transaction prepared) = ''job''"
  by (simp_all add: job_transaction_def prepared_def example_defs)

lemmas run_all = run_defs run_transaction_locked_def write_transaction_journal_def written_journal
  checkpoint_def write_backup_def prepared_store_def store_at_def example_store_def directory_of_def
  old_content_def new_content_def

abbreviation journal :: "string \<Rightarrow> string \<times> node" where
  "journal phase \<equiv> doc ''j1.yaml'' (journal_text phase)"

abbreviation complete_backup :: "string \<times> node" where
  "complete_backup \<equiv> (''j1'', DirNode [doc ''memory.md'' ''old''])"

section \<open>Publications that end, and that do not\<close>

lemma run_calm:
  "run_transaction_locked (memory_tools_with calm) None False (job_transaction prepared) prepared_store =
     (store_at [doc ''memory.md'' ''new'', doc ''notes.md'' ''n''] [journal ''published''] [complete_backup]
        [(''.backups'', DirNode [])] 23, Inr ())"
  by (simp add: run_all cong: lazy del: bindS_readS)

lemma run_before_replacing:
  "run_transaction_locked (memory_tools_with (dies_at 11)) None False (job_transaction prepared) prepared_store =
     (store_at [doc ''memory.md'' ''old''] [journal ''backed_up''] [complete_backup] [] 11, Inl Killed)"
  by (simp add: run_all dies_at_def cong: lazy del: bindS_readS)

lemma run_in_replacement:
  "run_transaction_locked (memory_tools_with (dies_at 17)) None False (job_transaction prepared) prepared_store =
     (store_at [] [journal ''backed_up''] [complete_backup]
        [(''.backups'', DirNode [(example_hash @ ''.x'', directory_of new_content), (example_hash @ ''.y'', directory_of old_content)])] 17, Inl Killed)"
  by (simp add: run_all dies_at_def cong: lazy del: bindS_readS)

lemma run_in_backup:
  "run_transaction_locked (memory_tools_with (dies_at 9)) None False (job_transaction prepared) prepared_store =
     (store_at [doc ''memory.md'' ''old''] [journal ''prepared''] [(''j1'', DirNode [])] [] 9, Inl Killed)"
  by (simp add: run_all dies_at_def cong: lazy del: bindS_readS)

text \<open>What the hypotheses of the properties say of the example.\<close>

lemma example_spots:
  "spot [example_hash] (store_at m j b r c) = Some (DirNode m)"
  "spot [''.publication-backups'', example_hash, ''j1''] (store_at m j b r c) = map_of b ''j1''"
  "spot [''.staging'', example_hash, ''j1''] (store_at m j b r c) = Some (directory_of new_content)"
  "spot [example_hash] example_store = Some (directory_of old_content)"
  "spot [''.staging'', example_hash, ''j1''] example_store = Some (directory_of new_content)"
  by (simp_all add: spot_def store_at_def example_store_def split: option.split)

lemma stage_sel [simp]: "mg_resolved example_stage = example_memory" "mg_job_id example_stage = ''j1''"
  "rm_memory_hash example_memory = example_hash"
  by (simp_all add: example_stage_def example_memory_def)

lemma contents_of: "contents (Some (directory_of fs)) = Some (\<lambda>k. map_option FileNode (map_of fs k))"
proof -
  have "map_of (map (\<lambda>(n, b). (n, FileNode b)) fs) k = map_option FileNode (map_of fs k)" for k
    by (induction fs) auto
  then show ?thesis by (simp add: contents_def directory_of_def fun_eq_iff)
qed

lemma wf_examples: "wf_dir (Some (directory_of old_content))" "wf_dir (Some (directory_of new_content))"
  by (simp_all add: wf_dir_def directory_of_def old_content_def new_content_def)

theorem publication_atomic_witness:
  "contents (spot [example_hash] (fst (apply_publication (memory_tools_with calm) None False None True prepared prepared_store))) =
     Some (\<lambda>k. map_option FileNode (map_of new_content k)) \<and>
   contents (spot [example_hash] prepared_store) \<noteq> Some (\<lambda>k. map_option FileNode (map_of new_content k))"
proof -
  let ?run = "apply_publication (memory_tools_with calm) None False None True prepared prepared_store"
  have "isOk (snd ?run)"
    using run_calm by (simp add: apply_publication_def Let_def bindS_def catchS_def whenS_def)
  then have "contents (spot [example_hash] (fst ?run)) = publish_spec (contents (spot [example_hash] example_store))
      (contents (spot [''.staging'', example_hash, ''j1''] example_store)) (isOk (snd ?run))"
    using publication_atomic [OF example_prepared prod.collapse [symmetric], of None False None True]
    by (simp add: example_spots wf_examples)
  with \<open>isOk (snd ?run)\<close> have "contents (spot [example_hash] (fst ?run)) = Some (\<lambda>k. map_option FileNode (map_of new_content k))"
    by (simp add: publish_spec_def example_spots contents_of)
  moreover have "map_of new_content ''notes.md'' = Some ''n''" by (simp add: new_content_def)
  then have "contents (spot [example_hash] prepared_store) \<noteq> Some (\<lambda>k. map_option FileNode (map_of new_content k))"
    by (simp add: prepared_store_def example_spots contents_def fun_eq_iff) (rule exI [of _ "''notes.md''"], simp)
  ultimately show ?thesis by blast
qed

theorem interrupted_keeps_old_witness:
  "contents (spot [''.publication-backups'', example_hash, ''j1'']
     (fst (run_transaction_locked (memory_tools_with (dies_at 17)) None False (job_transaction prepared) prepared_store))) =
   Some (\<lambda>k. map_option FileNode (map_of old_content k))"
proof -
  have prep: "prepare_publication (memory_tools_with (dies_at 17)) example_stage ''t'' None example_store = (prepared_store, Inr prepared)"
    by (simp add: run_defs prepare_publication_def example_defs prepared_def prepared_store_def dies_at_def
        cong: lazy del: bindS_readS)
  from interrupted_keeps_old [OF prep run_in_replacement]
  show ?thesis
    by (simp add: run_in_replacement example_spots wf_examples contents_of)
      (simp add: contents_def old_content_def fun_eq_iff)
qed

section \<open>Recovering the publication\<close>

definition example_owners :: "job_store_owner list" where
  "example_owners = [\<lparr>jo_team_id = ''t'', jo_team_root = Some ''/team''\<rparr>]"

text \<open>What the journal of the publication parses to.\<close>

definition recovered_operation :: "string \<Rightarrow> recovery_operation" where
  "recovered_operation phase = \<lparr>ro_kind = ''job'', ro_operation_id = ''j1'', ro_phase = phase, ro_no_change = False,
     ro_resolved = example_memory, ro_memory_hash = example_hash,
     ro_old_revision = replicate 64 CHR ''2'', ro_new_revision = replicate 64 CHR ''1'',
     ro_job = Some (hd example_owners, (''t'', ''j1''))\<rparr>"

lemma example_parse:
  assumes "phase \<in> {''prepared'', ''backed_up'', ''published''}" "journal_json (job_transaction prepared) phase = JObj d"
  shows "parse_journal (memory_tools_with hz) d example_hash ''j1.yaml'' example_owners owned_jobs =
    Inr (recovered_operation phase)"
proof -
  have d: "d = [(''kind'', JStr ''job''), (''operation_id'', JStr ''j1''), (''selector'', JObj [(''scope'', JStr ''team'')]),
     (''canonical_json'', JStr example_canonical), (''memory_hash'', JStr example_hash),
     (''old_revision'', JStr (replicate 64 CHR ''2'')), (''new_revision'', JStr (replicate 64 CHR ''1'')),
     (''stage_directory'', JStr ''j1''), (''backup_directory'', JStr ''j1''), (''phase'', JStr phase),
     (''no_change'', JBool False), (''job_id'', JStr ''j1'')]"
    using assms(2) by (simp add: journal_json_def selector_json_def job_transaction_def prepared_def example_defs)
  have keys: "set (keys d) = journal_keys \<union> {''job_id''}"
    unfolding d journal_keys_def by auto
  have scope: "''team'' \<in> set MEMORY_SCOPES" by (simp add: MEMORY_SCOPES_def)
  have digests: "full_digest (replicate 64 CHR ''1'')" "full_digest (replicate 64 CHR ''2'')" by code_simp+
  have canonical: "example_canonical \<noteq> []" by (simp add: example_canonical_def)
  have owned: "owned_job True example_owners ''j1'' owned_jobs = Inr (Some (hd example_owners, (''t'', ''j1'')))"
    by (simp add: owned_job_def matching_job_paths_def example_owners_def ensure_def)
  have fields: "get_or JNull d ''kind'' = JStr ''job''" "get_or JNull d ''operation_id'' = JStr ''j1''"
    "get_or JNull d ''selector'' = JObj [(''scope'', JStr ''team'')]" "get_or JNull d ''canonical_json'' = JStr example_canonical"
    "get_or JNull d ''memory_hash'' = JStr example_hash" "get_or JNull d ''old_revision'' = JStr (replicate 64 CHR ''2'')"
    "get_or JNull d ''new_revision'' = JStr (replicate 64 CHR ''1'')" "get_or JNull d ''stage_directory'' = JStr ''j1''"
    "get_or JNull d ''backup_directory'' = JStr ''j1''" "get_or JNull d ''phase'' = JStr phase"
    "get_or JNull d ''no_change'' = JBool False" "get_or JNull d ''job_id'' = JStr ''j1''"
    unfolding d by (simp_all add: get_or_def)
  have has: "has_key d ''kind''" unfolding has_key_def keys by (simp add: journal_keys_def)
  have parts: "phase_field (JStr phase) = Inr phase" "flag_field (JBool False) = Inr False"
    "text_field (JStr example_canonical) = Inr example_canonical"
    "revision_field (JStr (replicate 64 CHR ''1'')) = Inr (replicate 64 CHR ''1'')"
    "revision_field (JStr (replicate 64 CHR ''2'')) = Inr (replicate 64 CHR ''2'')"
    "selector_of_json (JObj [(''scope'', JStr ''team'')]) = Inr \<lparr>ms_scope = ''team'', ms_channel = None\<rparr>"
    "safe_directory_name (memory_tools_with hz) (JStr ''j1'') ''j1'' = Inr ''j1''"
    "validate_memory_hash example_hash = Inr example_hash"
    using assms(1) digests scope canonical example_digest
    by (simp_all add: phase_field_def flag_field_def text_field_def revision_field_def selector_of_json_def
        safe_directory_name_def job_name ensure_def get_or_def validate_memory_hash_def)
  show ?thesis
    unfolding parse_journal_def Let_def fields keys
    by (simp add: has parts owned py_str_def job_name ensure_def recovered_operation_def example_memory_def
        memory_tools_with_def [of hz, THEN arg_cong [where f = mt_root], simplified])
qed

lemma example_ownership:
  "validate_job_ownership (memory_tools_with hz) (recovered_operation phase) (hd example_owners, (''t'', ''j1'')) owned_jobs = Inr ()"
proof -
  have spec: "sp_job_id owner_spec = ''j1''" "sp_team_key owner_spec = ''t''" "sp_team_root owner_spec = ''/team''"
    "sp_memory owner_spec = \<lparr>mb_selector = JObj [(''scope'', JStr ''team'')], mb_canonical_json = JStr example_canonical,
       mb_memory_hash = JStr example_hash, mb_path = JStr (''/mem/'' @ example_hash)\<rparr>"
    by (simp_all add: owner_spec_def example_spec_def)
  have ids: "id_canon (jt_ids example_tools) x = x" for x by (simp add: example_tools_def demo_ids_def)
  have scope: "''team'' \<in> set MEMORY_SCOPES" by (simp add: MEMORY_SCOPES_def)
  have parent: "path_parent (''/mem/'' @ example_hash) = ''/mem''" by code_simp
  have hash: "memory_hash_of (memory_tools_with hz) example_canonical = example_hash"
  proof -
    have "memory_hash_of (memory_tools_with calm) example_canonical = example_hash" by code_simp
    then show ?thesis by (simp add: memory_hash_of_def)
  qed
  have again: "resolve_memory_selector (memory_tools_with hz) \<lparr>ms_scope = ''team'', ms_channel = None\<rparr> ''j1'' ''t'' a r [] =
      Inr example_memory" for a r
    using hash
    by (simp add: resolve_memory_selector_def validate_selector_shape_def selector_criteria_def Let_def ensure_def
        resolved_for_def example_memory_def example_canonical_def memory_tools_with_def memory_hash_of_def)
  show ?thesis
    unfolding validate_job_ownership_def Let_def
    by (simp add: owner_fields spec ids ensure_def recovered_operation_def example_owners_def parent [simplified] again
        selector_of_json_def scope get_or_def)
      (simp add: example_memory_def memory_tools_with_def)
qed

lemma journal_read:
  "jt_load example_tools (journal_text phase) = Some (journal_json (job_transaction prepared) phase)"
  using loaded_written [where rest = "[]" and st = "[]"] by (simp add: journal_text_def example_tools_def)

lemma journal_dict: "\<exists>d. journal_json (job_transaction prepared) phase = JObj d"
  by (simp add: journal_json_def)

lemma operation_sel [simp]:
  "ro_memory_hash (recovered_operation x) = example_hash" "ro_operation_id (recovered_operation x) = ''j1''"
  "ro_phase (recovered_operation x) = x" "ro_no_change (recovered_operation x) = False"
  "ro_old_revision (recovered_operation x) = replicate 64 CHR ''2''"
  "ro_new_revision (recovered_operation x) = replicate 64 CHR ''1''"
  "ro_job (recovered_operation x) = Some (hd example_owners, (''t'', ''j1''))"
  by (simp_all add: recovered_operation_def)

lemma journal_file_name: "path_suffix ''j1.yaml'' = ''.yaml''" "path_stem ''j1.yaml'' = ''j1''"
  by code_simp+

lemma owner_settled:
  "transition_job example_tools (''t'', ''j1'') Running Failed (\<lambda>r. r\<lparr>jr_completed_at := c, jr_execution_summary := e\<rparr>) owned_jobs =
    (stored example_tools (''t'', ''j1'') (owner_record\<lparr>jr_status := Failed, jr_completed_at := c, jr_execution_summary := e\<rparr>) owned_jobs,
     Inr (owner_record\<lparr>jr_status := Failed, jr_completed_at := c, jr_execution_summary := e\<rparr>))"
  "transition_job example_tools (''t'', ''j1'') Running Complete (\<lambda>r. r\<lparr>jr_completed_at := c, jr_memory_publication := p\<rparr>) owned_jobs =
    (stored example_tools (''t'', ''j1'') (owner_record\<lparr>jr_status := Complete, jr_completed_at := c, jr_memory_publication := p\<rparr>) owned_jobs,
     Inr (owner_record\<lparr>jr_status := Complete, jr_completed_at := c, jr_memory_publication := p\<rparr>))"
  by (rule owner_moves; simp add: run_fields_def)+

lemmas recover_all = run_defs recover_journal_def read_identity_def operation_id_from_path_def memory_lock_def take_lock_def
  safe_leaf_def read_payload_def operation_from_payload_def recover_locked_def settle_by_revision_def
  finalize_recovered_success_def mark_complete_def mark_failed_def settle_job_def jobM_def cleanup_paths_def
  example_ownership journal_read store_at_def example_store_def directory_of_def new_content_def
  journal_file_name owner_settled example_parse

lemma recover_old:
  "\<exists>t. recover_journal (memory_tools_with calm) example_owners example_hash ''j1.yaml''
    (store_at [doc ''memory.md'' ''old''] [journal ''backed_up''] [complete_backup] [] 11) = (t, Inr 1)"
proof -
  obtain d where d: "journal_json (job_transaction prepared) ''backed_up'' = JObj d" using journal_dict by blast
  show ?thesis
    by (simp add: recover_all d example_parse [OF _ d] cong: lazy del: bindS_readS)
qed

lemma recover_new:
  "\<exists>t. recover_journal (memory_tools_with calm) example_owners example_hash ''j1.yaml''
    (store_at [doc ''memory.md'' ''new'', doc ''notes.md'' ''n''] [journal ''published''] [complete_backup]
      [(''.backups'', DirNode [])] 23) = (t, Inr 1)"
proof -
  obtain d where d: "journal_json (job_transaction prepared) ''published'' = JObj d" using journal_dict by blast
  show ?thesis
    by (simp add: recover_all d example_parse [OF _ d] cong: lazy del: bindS_readS)
qed

text \<open>Two crashes that recovery does not get past, although the old content is there: the memory was
  intact and only the backup incomplete, and the memory was half replaced with a complete backup.\<close>

lemma recover_blocked:
  "\<exists>t. recover_journal (memory_tools_with calm) example_owners example_hash ''j1.yaml''
    (fst (run_transaction_locked (memory_tools_with (dies_at 9)) None False (job_transaction prepared) prepared_store)) =
      (t, Inl (Failure valueError))"
  "\<exists>t. recover_journal (memory_tools_with calm) example_owners example_hash ''j1.yaml''
    (fst (run_transaction_locked (memory_tools_with (dies_at 17)) None False (job_transaction prepared) prepared_store)) =
      (t, Inl (Failure valueError))"
proof -
  obtain d where d: "journal_json (job_transaction prepared) ''prepared'' = JObj d" using journal_dict by blast
  show "\<exists>t. recover_journal (memory_tools_with calm) example_owners example_hash ''j1.yaml''
    (fst (run_transaction_locked (memory_tools_with (dies_at 9)) None False (job_transaction prepared) prepared_store)) =
      (t, Inl (Failure valueError))"
    unfolding run_in_backup fst_conv
    by (simp add: recover_all d example_parse [OF _ d] cong: lazy del: bindS_readS)
next
  obtain d where d: "journal_json (job_transaction prepared) ''backed_up'' = JObj d" using journal_dict by blast
  show "\<exists>t. recover_journal (memory_tools_with calm) example_owners example_hash ''j1.yaml''
    (fst (run_transaction_locked (memory_tools_with (dies_at 17)) None False (job_transaction prepared) prepared_store)) =
      (t, Inl (Failure valueError))"
    unfolding run_in_replacement fst_conv
    by (simp add: recover_all d example_parse [OF _ d] cong: lazy del: bindS_readS)
qed

lemma example_sound_transaction: "sound_transaction (memory_tools_with hz) (job_transaction prepared)"
  by (simp add: sound_transaction_def wf_transaction_def content_revisions example_digest)

lemma example_tells_apart:
  "tells_apart (memory_tools_with hz) [(''memory.md'', ''old'')] [(''memory.md'', ''old'')]"
  "tells_apart (memory_tools_with hz) [(''memory.md'', ''old'')] [(''memory.md'', ''new''), (''notes.md'', ''n'')]"
  "tells_apart (memory_tools_with hz) [(''memory.md'', ''new''), (''notes.md'', ''n'')] [(''memory.md'', ''old'')]"
  "tells_apart (memory_tools_with hz) [(''memory.md'', ''new''), (''notes.md'', ''n'')] [(''memory.md'', ''new''), (''notes.md'', ''n'')]"
  by (simp_all add: tells_apart_def same_files_def content_revisions)

theorem recovery_settles_witness:
  "\<exists>t. recover_journal (memory_tools_with calm) example_owners example_hash ''j1.yaml''
      (fst (run_transaction_locked (memory_tools_with (dies_at 11)) None False (job_transaction prepared) prepared_store)) =
        (t, Inr 1) \<and>
     spot [example_hash] t = Some (directory_of old_content) \<and> tidied example_hash ''j1'' t \<and>
     job_is (memory_tools_with calm) (''t'', ''j1'') Failed t"
proof -
  let ?s = "store_at [doc ''memory.md'' ''old''] [journal ''backed_up''] [complete_backup] [] 11"
  obtain t where t: "recover_journal (memory_tools_with calm) example_owners example_hash ''j1.yaml'' ?s = (t, Inr 1)"
    using recover_old by blast
  have spot: "spot [example_hash] ?s = Some (DirNode [doc ''memory.md'' ''old''])" by (simp add: example_spots)
  have "read_canonical_files (memory_tools_with calm) [example_hash] (dk_root ?s) = Inr [(''memory.md'', ''old'')]"
    by (simp add: read_canonical_files_def store_at_def present_def file_names)
  then have "\<And>fs. read_canonical_files (memory_tools_with calm) [example_hash] (dk_root ?s) = Inr fs \<Longrightarrow>
    tells_apart (memory_tools_with calm) fs (tx_old_files (job_transaction prepared)) \<and>
    tells_apart (memory_tools_with calm) fs (tx_new_files (job_transaction prepared))"
    by (simp add: example_tells_apart)
  moreover have "journal_at (memory_tools_with calm) (job_transaction prepared) ''backed_up'' ?s"
    by (simp add: journal_at_def spot_def store_at_def written_journal)
  moreover have "\<not> dir_is [(''memory.md'', ''new''), (''notes.md'', ''n'')] (Some (DirNode [doc ''memory.md'' ''old'']))"
    by (auto simp: dir_is_def dest!: spec [of _ "''notes.md''"])
  ultimately show ?thesis
    using recovery_settles [of "memory_tools_with calm" example_owners "job_transaction prepared" ?s t "Inr 1" "''backed_up''"
        "[doc ''memory.md'' ''old'']"] t spot
    by (simp add: example_sound_transaction example_faithful journal_read written_journal run_before_replacing
        example_owners_def Let_def directory_of_def old_content_def)
      (auto split: if_split_asm)
qed

section \<open>A save\<close>

lemma direct_name: "validate_job_id (memory_tools_with hz) ''direct-save-u'' = Inr ''direct-save-u''"
proof -
  have "validate_job_id (memory_tools_with calm) ''direct-save-u'' = Inr ''direct-save-u''" by code_simp
  then show ?thesis by (simp add: validate_job_id_def normalized_key_def)
qed

lemmas save_all = run_all memory_lock_def take_lock_def safe_leaf_def try_update_memory_def try_save_memory_def
  ensure_memory_locked_def snapshot_of_def normalize_candidate_files_def save_direct_locked_def
  prepare_direct_transaction_def stage_directory_def cleanup_paths_def direct_name same_files_def example_memory_def

theorem update_compares_and_sets_witness:
  "\<exists>t. try_save_memory (memory_tools_with calm) False example_memory (replicate 64 CHR ''2'') new_content example_store =
      (t, Inr (snapshot_of (memory_tools_with calm) example_memory new_content)) \<and>
     dir_is new_content (spot [example_hash] t)"
proof -
  obtain t sn where run: "try_update_memory (memory_tools_with calm) False example_memory (replicate 64 CHR ''2'')
      (\<lambda>_. Inr new_content) example_store = (t, Inr sn)"
  proof -
    have "\<exists>t sn. try_save_memory (memory_tools_with calm) False example_memory (replicate 64 CHR ''2'') new_content
      example_store = (t, Inr sn)" by (simp add: save_all cong: lazy del: bindS_readS)
    then show thesis using that by (auto simp: try_save_memory_def)
  qed
  have "read_canonical_files (memory_tools_with calm) [rm_memory_hash example_memory] (dk_root example_store) = Inr old_content"
    by (simp add: read_canonical_files_def example_store_def directory_of_def old_content_def present_def file_names)
  note read = this
  have wf: "wf_dir (spot [rm_memory_hash example_memory] example_store)" by (simp add: example_spots wf_examples)
  have "old_content \<noteq> []" "wf_dict new_content" by (simp_all add: old_content_def new_content_def)
  with update_compares_and_sets [OF run read _ wf] run show ?thesis by (simp add: try_save_memory_def)
qed

end
