(* ===== verification/TicketRuns.thy ===== *)
theory TicketRuns
  imports TicketAccess Submission
begin

text \<open>
  Runs of tickets, \<^verbatim>\<open>flowgency/jobs/tickets.py\<close>: a user's request to run a ticket is reserved in a durable
  file and on the ticket, submitted as a job, and reconciled with what became of the job. The state is
  the ticket storages, the job files with their access registries, and the reservation files. The
  submitter, the digests and YAML texts and the integrations are arguments; what a call sees of the
  configuration and the clock is given at each of its loads.
\<close>

section \<open>State\<close>

record reservation_recovery =
  rk_kind :: string
  rk_message :: string

record durable_reservation =
  rs_schema_version :: int
  rs_operation_id :: string
  rs_request_digest :: string
  rs_actor_team_id :: string
  rs_actor_name :: string
  rs_original_revision :: int
  rs_job_id :: string
  rs_target :: job_target
  rs_authority_digest :: "string option"
  rs_status :: string
  rs_recovery :: "reservation_recovery option"

text \<open>A reservation file that cannot be opened, that is not JSON, or the data it holds.\<close>

datatype reservation_file = UnreadableReservation | NotJson | ReservationData json

text \<open>A storage is the tree below the root its binding names.\<close>

type_synonym place = "string \<times> json option"

definition place :: "storage_binding \<Rightarrow> place" where
  "place b = (sb_integration b, map_of (sb_config b) ''root'')"

record run_area =
  ra_stores :: "place \<Rightarrow> storage"
  ra_access :: access_area
  ra_reservations :: "(string \<times> string, reservation_file) dict"
  ra_linked_roots :: "string list"
  ra_linked_files :: "(string \<times> string) list"
  ra_readonly :: "(string \<times> string) list"

definition on_store :: "storage_binding \<Rightarrow> (storage, ticket_error, 'a) op \<Rightarrow> (run_area, ticket_error, 'a) op" where
  "on_store b m s = (case m (ra_stores s (place b)) of (st, out) \<Rightarrow> (s\<lparr>ra_stores := (ra_stores s)(place b := st)\<rparr>, out))"

definition on_jobs :: "(job_area, ticket_error, 'a) op \<Rightarrow> (run_area, ticket_error, 'a) op" where
  "on_jobs m s = (case m (aa_jobs (ra_access s)) of
     (ja, out) \<Rightarrow> (s\<lparr>ra_access := (ra_access s)\<lparr>aa_jobs := ja\<rparr>\<rparr>, out))"

section \<open>The coordinator\<close>

record integration_abilities =
  ia_supports_execution :: bool
  ia_live_ticket_transport :: "string option"

record job_request =
  jq_config_path :: string
  jq_team_key :: string
  jq_agent_name :: string
  jq_trigger :: string
  jq_task_input :: string
  jq_job_id :: string
  jq_ticket_target :: job_target

text \<open>\<open>co_sha\<close> is SHA-256 of the JSON text with sorted keys, \<open>co_uuid5\<close> the version 5 UUID of a URL,
  \<open>co_message\<close> the text of an exception, the last two the stripped YAML texts.\<close>

record coordinator =
  co_service :: service
  co_jobs :: job_tools
  co_config_path :: string
  co_submitter :: "job_request \<Rightarrow> (run_area, ticket_error, job_handle) op"
  co_sha :: "json \<Rightarrow> string"
  co_uuid5 :: "string \<Rightarrow> string"
  co_message :: "ticket_error \<Rightarrow> string"
  co_integration :: "config_snapshot \<Rightarrow> string \<Rightarrow> string \<Rightarrow> string"
  co_registry :: "string \<Rightarrow> integration_abilities option"
  co_yaml :: "json \<Rightarrow> string"
  co_definition_yaml :: "workflow_definition \<Rightarrow> string"

definition reservationError :: ticket_error where "reservationError = PyError ''TicketReservationError''"

abbreviation co_provider :: "coordinator \<Rightarrow> storage_binding \<Rightarrow> provider" where
  "co_provider co \<equiv> sv_provider (co_service co)"

definition read_ticket :: "coordinator \<Rightarrow> storage_binding \<Rightarrow> ticket_ref \<Rightarrow> run_area \<Rightarrow> ticket_error + ticket_record" where
  "read_ticket co b ref s = read (co_provider co b) (ra_stores s (place b)) ref"

section \<open>Reservation files\<close>

definition recovery_json :: "reservation_recovery \<Rightarrow> json" where
  "recovery_json x = JObj [(''kind'', JStr (rk_kind x)), (''message'', JStr (rk_message x))]"

definition recovery_of_json :: "json \<Rightarrow> ticket_error + reservation_recovery" where
  "recovery_of_json j =
     bindE (mapErr (\<lambda>_. valueError) (kwargs [''kind'', ''message''] [] j)) (\<lambda>d.
     bindE (strict_string d ''kind'') (\<lambda>k. bindE (strict_string d ''message'') (\<lambda>m.
     Inr \<lparr>rk_kind = k, rk_message = m\<rparr>)))"

definition reservation_json :: "durable_reservation \<Rightarrow> json" where
  "reservation_json r = JObj
     [(''schema_version'', JInt (rs_schema_version r)), (''operation_id'', JStr (rs_operation_id r)),
      (''request_digest'', JStr (rs_request_digest r)), (''actor_team_id'', JStr (rs_actor_team_id r)),
      (''actor_name'', JStr (rs_actor_name r)), (''original_revision'', JInt (rs_original_revision r)),
      (''job_id'', JStr (rs_job_id r)), (''target'', target_json (rs_target r)),
      (''authority_digest'', opt_json JStr (rs_authority_digest r)), (''status'', JStr (rs_status r)),
      (''recovery'', opt_json recovery_json (rs_recovery r))]"

definition RESERVATION_REQUIRED :: "string list" where
  "RESERVATION_REQUIRED = [''operation_id'', ''request_digest'', ''actor_team_id'', ''actor_name'',
     ''original_revision'', ''job_id'', ''target'']"

definition RESERVATION_OPTIONAL :: "string list" where
  "RESERVATION_OPTIONAL = [''schema_version'', ''authority_digest'', ''status'', ''recovery'']"

text \<open>Values are taken with their own type: no file of this program writes a number as a text.\<close>

definition reservation_of_json :: "identities \<Rightarrow> json \<Rightarrow> ticket_error + durable_reservation" where
  "reservation_of_json ids j =
     mapErr (\<lambda>_. valueError) (bindE (kwargs RESERVATION_REQUIRED RESERVATION_OPTIONAL j) (\<lambda>d.
     bindE (as_int (get_or (JInt 1) d ''schema_version'')) (\<lambda>version.
     bindE (strict_string d ''operation_id'') (\<lambda>operation.
     bindE (strict_string d ''request_digest'') (\<lambda>digest.
     bindE (strict_string d ''actor_team_id'') (\<lambda>team.
     bindE (strict_string d ''actor_name'') (\<lambda>name.
     bindE (as_int (get_or JNull d ''original_revision'')) (\<lambda>revision.
     bindE (strict_string d ''job_id'') (\<lambda>job.
     bindE (target_of_json ids (get_or JNull d ''target'')) (\<lambda>target.
     bindE (optional as_string (get_or JNull d ''authority_digest'')) (\<lambda>authority.
     bindE (as_string (get_or (JStr ''reserved'') d ''status'')) (\<lambda>status.
     bindE (optional recovery_of_json (get_or JNull d ''recovery'')) (\<lambda>recovery.
     Inr \<lparr>rs_schema_version = version, rs_operation_id = operation, rs_request_digest = digest,
       rs_actor_team_id = team, rs_actor_name = name, rs_original_revision = revision, rs_job_id = job,
       rs_target = target, rs_authority_digest = authority, rs_status = status, rs_recovery = recovery\<rparr>)))))))))))))"

definition reservation_key :: "coordinator \<Rightarrow> ticket_ref \<Rightarrow> string \<Rightarrow> string" where
  "reservation_key co ref operation_id = co_sha co (JObj
     [(''binding_id'', JStr (rf_binding_id ref)), (''workflow_id'', JStr (rf_workflow_id ref)),
      (''ticket_id'', JStr (rf_ticket_id ref)), (''operation_id'', JStr operation_id)])"

definition reservation_root :: "run_area \<Rightarrow> string \<Rightarrow> ticket_error + unit" where
  "reservation_root s team = bindE (ensure (is_team_id team) valueError) (\<lambda>_.
     ensure (team \<notin> set (ra_linked_roots s)) reservationError)"

definition reservation_path ::
  "coordinator \<Rightarrow> run_area \<Rightarrow> string \<Rightarrow> ticket_ref \<Rightarrow> string \<Rightarrow> ticket_error + string \<times> string" where
  "reservation_path co s team ref operation_id =
     bindE (reservation_root s team) (\<lambda>_.
     let k = (team, reservation_key co ref operation_id) in
     bindE (ensure (k \<notin> set (ra_linked_files s)) reservationError) (\<lambda>_. Inr k))"

definition load_reservation :: "coordinator \<Rightarrow> reservation_file \<Rightarrow> ticket_error + durable_reservation" where
  "load_reservation co f = (case f of
      UnreadableReservation \<Rightarrow> Inl osError
    | NotJson \<Rightarrow> Inl valueError
    | ReservationData j \<Rightarrow> reservation_of_json (sv_ids (co_service co)) j)"

definition read_reservation ::
  "coordinator \<Rightarrow> string \<Rightarrow> ticket_ref \<Rightarrow> string \<Rightarrow> run_area \<Rightarrow> ticket_error + durable_reservation option" where
  "read_reservation co team ref operation_id s =
     bindE (reservation_path co s team ref operation_id) (\<lambda>k.
     case map_of (ra_reservations s) k of
       None \<Rightarrow> Inr None
     | Some f \<Rightarrow> bindE (load_reservation co f) (\<lambda>r. Inr (Some r)))"

definition write_reservation :: "coordinator \<Rightarrow> durable_reservation \<Rightarrow> (run_area, ticket_error, unit) op" where
  "write_reservation co r =
     (let ref = tg_ref (rs_target r) in
      bindS (readS (\<lambda>s. reservation_path co s (rf_team_id ref) ref (rs_operation_id r))) (\<lambda>k.
      bindS (readS (\<lambda>s. ensure (k \<notin> set (ra_readonly s)) osError)) (\<lambda>_.
      putS (\<lambda>s. s\<lparr>ra_reservations := AList.update k (ReservationData (reservation_json r)) (ra_reservations s)\<rparr>))))"

definition iter_reservations ::
  "coordinator \<Rightarrow> string \<Rightarrow> run_area \<Rightarrow> ticket_error + durable_reservation list" where
  "iter_reservations co team s =
     bindE (reservation_root s team) (\<lambda>_.
     mapE (\<lambda>(k, f). load_reservation co f)
       (sort_key (\<lambda>(k, f). snd k @ ''.json'') (filter (\<lambda>(k, f). fst k = team) (ra_reservations s))))"

section \<open>Jobs of reservations\<close>

definition require_job_matches :: "job_record \<Rightarrow> durable_reservation \<Rightarrow> ticket_error + unit" where
  "require_job_matches r x = (let spec = jr_spec r; target = rs_target x in
     bindE (ensure (sp_ticket_target spec \<noteq> None) reservationError) (\<lambda>_.
     bindE (ensure (sp_job_id spec = rs_job_id x) reservationError) (\<lambda>_.
     bindE (ensure (sp_team_key spec = rf_team_id (tg_ref target)) reservationError) (\<lambda>_.
     bindE (ensure (sp_agent_name spec = tg_assigned_agent target) reservationError) (\<lambda>_.
     ensure (sp_ticket_target spec = Some target) reservationError)))))"

abbreviation ra_root :: "run_area \<Rightarrow> string" where "ra_root s \<equiv> aa_root (ra_access s)"
abbreviation ra_jobs :: "run_area \<Rightarrow> job_area" where "ra_jobs s \<equiv> aa_jobs (ra_access s)"

text \<open>The reference of the job with this digest, and its record.\<close>

definition authorized :: "coordinator \<Rightarrow> run_area \<Rightarrow> string \<Rightarrow> string \<Rightarrow> string \<Rightarrow> ticket_error + job_authority \<times> job_record" where
  "authorized co s team job digest =
     bindE (reference (ra_root s) (ra_jobs s) team job digest) (\<lambda>a.
     bindE (read_authority (co_jobs co) (ra_root s) (ra_jobs s) a) (\<lambda>r. Inr (a, r)))"

definition verified_handle :: "coordinator \<Rightarrow> durable_reservation \<Rightarrow> run_area \<Rightarrow> ticket_error + job_handle" where
  "verified_handle co x s =
     bindE (authorized co s (rf_team_id (tg_ref (rs_target x))) (rs_job_id x)
        (case rs_authority_digest x of None \<Rightarrow> [] | Some d \<Rightarrow> d)) (\<lambda>(a, r).
     bindE (require_job_matches r x) (\<lambda>_.
     Inr \<lparr>jh_job_id = rs_job_id x, jh_status = jr_status r, jh_path = (au_team_id a, au_job_id a),
          jh_worker_pid = jr_worker_pid r\<rparr>))"

definition existing_handle :: "coordinator \<Rightarrow> durable_reservation \<Rightarrow> run_area \<Rightarrow> ticket_error + job_handle option" where
  "existing_handle co x s =
     (if rs_authority_digest x = None then Inr None else bindE (verified_handle co x s) (\<lambda>h. Inr (Some h)))"

definition verify_existing_job :: "coordinator \<Rightarrow> durable_reservation \<Rightarrow> run_area \<Rightarrow> ticket_error + job_authority option" where
  "verify_existing_job co x s =
     (let team = rf_team_id (tg_ref (rs_target x)); job = rs_job_id x in
      bindE (job_path (ra_jobs s) team job) (\<lambda>k.
      if job_file_at (ra_jobs s) k = None then Inr None
      else
        bindE (mapErr (\<lambda>_. reservationError)
          (case rs_authority_digest x of
             Some d \<Rightarrow> authorized co s team job d
           | None \<Rightarrow> bindE (read_job (co_jobs co) (ra_jobs s) k None) (\<lambda>r.
               bindE (authorized co s team job (jr_authority_digest r)) (\<lambda>(a, _). Inr (a, r))))) (\<lambda>(a, r).
        bindE (require_job_matches r x) (\<lambda>_. Inr (Some a)))))"

section \<open>Tickets of reservations\<close>

definition reservation_matches_current :: "ticket_record \<Rightarrow> run_reservation \<Rightarrow> string \<Rightarrow> bool" where
  "reservation_matches_current r pending ev \<longleftrightarrow>
     tk_assignee r = Some (rv_assignee pending) \<and> rv_assignment_event_id pending = ev"

definition target_matches_current :: "ticket_record \<Rightarrow> job_target \<Rightarrow> bool" where
  "target_matches_current r target \<longleftrightarrow> tk_assignee r = Some (tg_assigned_agent target) \<and>
     latest_assignment_event_id r = tg_assignment_event_id target \<and> tk_ref r = Some (tg_ref target)"

definition reservation_operation ::
  "coordinator \<Rightarrow> string \<Rightarrow> ticket_version \<Rightarrow> string \<Rightarrow> string \<Rightarrow> ticket_operation" where
  "reservation_operation co team version operation_id job_id =
     \<lparr>op_id = ''ticket-run-'' @ operation_id, op_request_digest = co_sha co (JObj
        [(''team_id'', JStr team), (''ticket'', ref_json (tv_ref version)),
         (''operation_id'', JStr operation_id), (''job_id'', JStr job_id)])\<rparr>"

definition reconcile_operation :: "coordinator \<Rightarrow> ticket_ref \<Rightarrow> string \<Rightarrow> string \<Rightarrow> string \<Rightarrow> ticket_operation" where
  "reconcile_operation co ref job_id ev reason =
     \<lparr>op_id = ''reconcile-'' @ job_id @ ''-'' @ reason, op_request_digest = co_sha co (JObj
        [(''binding_id'', JStr (rf_binding_id ref)), (''job_id'', JStr job_id),
         (''assignment_event_id'', JStr ev), (''reason'', JStr reason)])\<rparr>"

definition request_digest :: "coordinator \<Rightarrow> user_context \<Rightarrow> ticket_version \<Rightarrow> string \<Rightarrow> string" where
  "request_digest co actor version operation_id = (let ref = tv_ref version in co_sha co (JObj
     [(''team_id'', JStr (uc_team_id actor)), (''actor_name'', JStr (uc_actor_name actor)),
      (''binding_id'', JStr (rf_binding_id ref)), (''workflow_id'', JStr (rf_workflow_id ref)),
      (''ticket_id'', JStr (rf_ticket_id ref)), (''context_digest'', JStr (tv_context_digest version)),
      (''operation_id'', JStr operation_id)]))"

definition reserved_job_id :: "coordinator \<Rightarrow> ticket_ref \<Rightarrow> string \<Rightarrow> string" where
  "reserved_job_id co ref operation_id = co_uuid5 co (''ticket-run:'' @ rf_binding_id ref @ '':'' @ rf_team_id ref @ '':'' @
     rf_workflow_id ref @ '':'' @ rf_ticket_id ref @ '':'' @ operation_id)"

definition apply_pending_mutation ::
  "string \<Rightarrow> string \<Rightarrow> string \<Rightarrow> run_reservation option \<Rightarrow> ticket_record \<Rightarrow> ticket_record" where
  "apply_pending_mutation actor kind summary pending r =
     add_event \<lparr>te_id = [], te_kind = kind, te_actor = actor, te_summary = summary, te_data = [], te_at = None\<rparr>
       (r\<lparr>tk_pending_run := pending\<rparr>)"

section \<open>Reconciliation\<close>

definition is_unavailable :: "ticket_error \<Rightarrow> bool" where
  "is_unavailable e \<longleftrightarrow> (case e of Raise StorageUnavailable _ \<Rightarrow> True | _ \<Rightarrow> False)"

text \<open>\<open>try: x = m except StorageUnavailable as error: return h(error)\<close>, then \<open>f(x)\<close>.\<close>

definition when_available ::
  "('s, ticket_error, 'a) op \<Rightarrow> (ticket_error \<Rightarrow> ('s, ticket_error, 'b) op) \<Rightarrow> ('a \<Rightarrow> ('s, ticket_error, 'b) op) \<Rightarrow>
   ('s, ticket_error, 'b) op" where
  "when_available m h f s = (case m s of
      (t, Inr x) \<Rightarrow> f x t
    | (t, Inl e) \<Rightarrow> if is_unavailable e then h e t else (t, Inl e))"

definition set_status :: "coordinator \<Rightarrow> durable_reservation \<Rightarrow> string \<Rightarrow> (run_area, ticket_error, unit) op" where
  "set_status co x status = write_reservation co (x\<lparr>rs_status := status, rs_recovery := None\<rparr>)"

definition write_recovery :: "coordinator \<Rightarrow> durable_reservation \<Rightarrow> ticket_error \<Rightarrow> (run_area, ticket_error, unit) op" where
  "write_recovery co x e = write_reservation co (x\<lparr>rs_status := ''recovery-pending'',
     rs_recovery := Some \<lparr>rk_kind = ''original-storage-unavailable'', rk_message = co_message co e\<rparr>\<rparr>)"

text \<open>Set the pending run of the ticket, then the status of the reservation.\<close>

definition set_pending ::
  "coordinator \<Rightarrow> time \<Rightarrow> durable_reservation \<Rightarrow> int \<Rightarrow> string \<Rightarrow> run_reservation option \<Rightarrow> string \<Rightarrow>
   (run_area, ticket_error, unit) op" where
  "set_pending co now x revision reason pending status =
     (let target = rs_target x; b = tg_binding target; ref = tg_ref target in
      when_available
        (on_store b (apply_op (co_provider co b) now ref revision
           (reconcile_operation co ref (rs_job_id x) (tg_assignment_event_id target) reason)
           (\<lambda>r. liftS (Inr (apply_pending_mutation ''system'' ''ticket-run-reconciled'' ''Ticket run reservation reconciled''
              pending r)))))
        (write_recovery co x) (\<lambda>_. set_status co x status))"

definition holds_pending :: "ticket_record \<Rightarrow> string \<Rightarrow> bool" where
  "holds_pending r job_id \<longleftrightarrow> (case tk_pending_run r of None \<Rightarrow> False | Some p \<Rightarrow> rv_job_id p = job_id)"

definition own_reservation :: "durable_reservation \<Rightarrow> run_reservation" where
  "own_reservation x = \<lparr>rv_job_id = rs_job_id x, rv_request_id = rs_operation_id x,
     rv_assignee = tg_assigned_agent (rs_target x), rv_assignment_event_id = tg_assignment_event_id (rs_target x)\<rparr>"

definition never_launched :: "job_record \<Rightarrow> bool" where
  "never_launched r \<longleftrightarrow> jr_worker_pid r = None \<and> jr_launched_at r \<in> {None, Some []} \<and>
     jr_started_at r \<in> {None, Some []} \<and> jr_session_id r \<in> {None, Some []}"

definition may_clear_terminal_pending ::
  "coordinator \<Rightarrow> job_authority \<Rightarrow> job_record \<Rightarrow> ticket_record \<Rightarrow> durable_reservation \<Rightarrow> run_area \<Rightarrow> ticket_error + bool" where
  "may_clear_terminal_pending co a r current x s =
     (if \<not> holds_pending current (rs_job_id x) then Inr False
      else if tk_active_run current \<noteq> None then Inr False
      else bindE (read_original_targets (co_jobs co) a (ra_access s)) (\<lambda>targets.
        if targets \<noteq> [] then Inr False
        else if jr_status r = Cancelled then Inr True
        else Inr (never_launched r)))"

text \<open>\<open>config\<close> is the configuration loaded here, \<open>None\<close> when it cannot be.\<close>

definition stale_target :: "coordinator \<Rightarrow> config_snapshot option \<Rightarrow> durable_reservation \<Rightarrow> ticket_record \<Rightarrow> bool" where
  "stale_target co config x current \<longleftrightarrow> (let target = rs_target x in
     tk_assignee current \<noteq> Some (tg_assigned_agent target) \<or>
     latest_assignment_event_id current \<noteq> tg_assignment_event_id target \<or>
     (case config of None \<Rightarrow> True | Some snapshot \<Rightarrow>
        (case resolve_binding (co_service co) snapshot (rf_team_id (tg_ref target)) (rf_workflow_id (tg_ref target)) of
           Inl _ \<Rightarrow> True
         | Inr wb \<Rightarrow> sb_binding_id (wb_storage wb) \<noteq> sb_binding_id (tg_binding target) \<or>
             wb_context_digest wb \<noteq> tg_context_digest target)))"

definition reconcile_stale ::
  "coordinator \<Rightarrow> time \<Rightarrow> durable_reservation \<Rightarrow> job_authority \<Rightarrow> (run_area, ticket_error, unit) op" where
  "reconcile_stale co now x a =
     bindS (tryS (on_jobs (cancel_job (co_jobs co) (au_team_id a, au_job_id a)))) (\<lambda>_.
     when_available (readS (read_ticket co (tg_binding (rs_target x)) (tg_ref (rs_target x)))) (write_recovery co x) (\<lambda>current.
     if holds_pending current (rs_job_id x) then set_pending co now x (tk_revision current) ''stale'' None ''stale''
     else set_status co x ''stale''))"

definition reconcile_known ::
  "coordinator \<Rightarrow> config_snapshot option \<Rightarrow> time \<Rightarrow> durable_reservation \<Rightarrow> job_authority \<Rightarrow> ticket_record \<Rightarrow>
   (run_area, ticket_error, unit) op" where
  "reconcile_known co config now x a current =
     bindS (readS (\<lambda>s. read_authority (co_jobs co) (ra_root s) (ra_jobs s) a)) (\<lambda>r.
     if jr_status r \<in> set TERMINAL_STATUSES then
       bindS (readS (may_clear_terminal_pending co a r current x)) (\<lambda>clear.
       if clear then set_pending co now x (tk_revision current) (status_name (jr_status r)) None ''linked''
       else set_status co x ''linked'')
     else if stale_target co config x current then reconcile_stale co now x a
     else if \<not> holds_pending current (rs_job_id x)
     then set_pending co now x (tk_revision current) ''linked'' (Some (own_reservation x)) ''linked''
     else set_status co x ''linked'')"

definition link_job ::
  "coordinator \<Rightarrow> durable_reservation \<Rightarrow> job_authority option \<Rightarrow> (run_area, ticket_error, durable_reservation) op" where
  "link_job co x authority = (case authority of
      None \<Rightarrow> returnS x
    | Some a \<Rightarrow>
        if rs_authority_digest x = Some (au_immutable_digest a) then returnS x
        else let linked = x\<lparr>rs_authority_digest := Some (au_immutable_digest a), rs_status := ''linked'', rs_recovery := None\<rparr>
             in bindS (write_reservation co linked) (\<lambda>_. returnS linked))"

definition reconcile_pending ::
  "coordinator \<Rightarrow> config_snapshot option \<Rightarrow> time \<Rightarrow> durable_reservation \<Rightarrow> bool \<Rightarrow> (run_area, ticket_error, unit) op" where
  "reconcile_pending co config now x clear_missing_job =
     bindS (readS (verify_existing_job co x)) (\<lambda>authority.
     bindS (link_job co x authority) (\<lambda>linked.
     when_available (readS (read_ticket co (tg_binding (rs_target x)) (tg_ref (rs_target x)))) (write_recovery co linked) (\<lambda>current.
     case authority of
       None \<Rightarrow>
         if \<not> clear_missing_job then returnS ()
         else if \<not> holds_pending current (rs_job_id x) then set_status co linked ''retryable''
         else set_pending co now linked (tk_revision current) ''missing'' None ''retryable''
     | Some a \<Rightarrow> reconcile_known co config now linked a current)))"

record reservation_result =
  re_status :: string
  re_recovery_kind :: "string option"
  re_handle :: "job_handle option"

definition reconcile_pending_submission ::
  "coordinator \<Rightarrow> config_snapshot option \<Rightarrow> time \<Rightarrow> string \<Rightarrow> ticket_ref \<Rightarrow> string \<Rightarrow>
   (run_area, ticket_error, reservation_result option) op" where
  "reconcile_pending_submission co config now team ref operation_id =
     bindS (readS (read_reservation co team ref operation_id)) (\<lambda>found. case found of
       None \<Rightarrow> returnS None
     | Some x \<Rightarrow>
         bindS (readS (verify_existing_job co x)) (\<lambda>authority.
         bindS (reconcile_pending co config now x (authority = None)) (\<lambda>_.
         bindS (readS (read_reservation co team ref operation_id)) (\<lambda>refreshed. case refreshed of
           None \<Rightarrow> returnS None
         | Some y \<Rightarrow>
             bindS (readS (existing_handle co y)) (\<lambda>handle.
             returnS (Some \<lparr>re_status = rs_status y, re_recovery_kind = map_option rk_kind (rs_recovery y),
               re_handle = handle\<rparr>))))))"

section \<open>Reserving a run\<close>

record reservation_plan =
  pl_handle :: "job_handle option"
  pl_request :: "job_request option"
  pl_ref :: ticket_ref
  pl_assignment_event_id :: string
  pl_job_id :: string
  pl_reservation :: durable_reservation

abbreviation "alreadyQueued \<equiv> Raise TicketConflict ''already-queued''"

definition reservation_state ::
  "coordinator \<Rightarrow> user_context \<Rightarrow> ticket_version \<Rightarrow> string \<Rightarrow> string \<Rightarrow> job_target \<Rightarrow> durable_reservation option \<Rightarrow>
   ticket_error + durable_reservation" where
  "reservation_state co actor version operation_id digest target existing = (case existing of
      None \<Rightarrow> Inr \<lparr>rs_schema_version = 1, rs_operation_id = operation_id, rs_request_digest = digest,
        rs_actor_team_id = uc_team_id actor, rs_actor_name = uc_actor_name actor,
        rs_original_revision = tv_revision version, rs_job_id = reserved_job_id co (tv_ref version) operation_id,
        rs_target = target, rs_authority_digest = None, rs_status = ''reserved'', rs_recovery = None\<rparr>
    | Some x \<Rightarrow>
        if rs_request_digest x \<noteq> digest then Inl alreadyQueued
        else if rs_actor_team_id x \<noteq> uc_team_id actor \<or> rs_actor_name x \<noteq> uc_actor_name actor then Inl alreadyQueued
        else Inr x)"

definition replay_handle ::
  "coordinator \<Rightarrow> config_snapshot option \<Rightarrow> time \<Rightarrow> job_target \<Rightarrow> ticket_record \<Rightarrow> durable_reservation \<Rightarrow>
   (run_area, ticket_error, job_handle option) op" where
  "replay_handle co config now current_target current x =
     (let ref = tg_ref (rs_target x) in
      bindS (reconcile_pending_submission co config now (rf_team_id ref) ref (rs_operation_id x)) (\<lambda>refreshed.
      bindS (case refreshed of
          None \<Rightarrow> returnS x
        | Some _ \<Rightarrow> bindS (readS (read_reservation co (rf_team_id ref) ref (rs_operation_id x))) (\<lambda>y.
            returnS (case y of None \<Rightarrow> x | Some y \<Rightarrow> y))) (\<lambda>x.
      bindS (readS (existing_handle co x)) (\<lambda>handle. case handle of
        None \<Rightarrow> returnS None
      | Some h \<Rightarrow>
          if jh_status h \<in> set TERMINAL_STATUSES then returnS (Some h)
          else case tk_pending_run current of
            None \<Rightarrow> raiseS staleTicket
          | Some p \<Rightarrow>
              if rv_job_id p \<noteq> rs_job_id x \<or> rv_request_id p \<noteq> rs_operation_id x then raiseS alreadyQueued
              else if rs_target x \<noteq> current_target then raiseS staleTicket
              else returnS (Some h)))))"

definition may_replace_terminal_pending ::
  "coordinator \<Rightarrow> ticket_ref \<Rightarrow> run_reservation \<Rightarrow> run_area \<Rightarrow> ticket_error + bool" where
  "may_replace_terminal_pending co ref pending s =
     bindE (read_reservation co (rf_team_id ref) ref (rv_request_id pending) s) (\<lambda>found. case found of
       None \<Rightarrow> Inr False
     | Some x \<Rightarrow>
         if rs_job_id x \<noteq> rv_job_id pending then Inr False
         else bindE (verify_existing_job co x s) (\<lambda>authority. case authority of
           None \<Rightarrow> Inr False
         | Some a \<Rightarrow> bindE (read_authority (co_jobs co) (ra_root s) (ra_jobs s) a) (\<lambda>r.
             Inr (jr_status r \<in> set TERMINAL_STATUSES))))"

text \<open>What a submission sees: the service's moment, with the libraries at the time of the reservation, the
  configuration and the clock of the reconciliations before and after, and the moment of the last read.\<close>

record run_moment =
  rm_moment :: moment
  rm_replay_config :: "config_snapshot option"
  rm_replay_now :: time
  rm_inspect :: moment
  rm_after_config :: "config_snapshot option"
  rm_after_now :: time

definition require_ticket_capable_assignee ::
  "coordinator \<Rightarrow> config_snapshot \<Rightarrow> string \<Rightarrow> string \<Rightarrow> ticket_error + unit" where
  "require_ticket_capable_assignee co snapshot team_id agent_name =
     bindE (dict_at (cs_teams snapshot) team_id) (\<lambda>team.
     bindE (ensure (agent_name \<in> set (tc_agents team)) staleTicket) (\<lambda>_.
     case co_registry co (co_integration co snapshot team_id agent_name) of
       None \<Rightarrow> Inl staleTicket
     | Some abilities \<Rightarrow>
         bindE (ensure (ia_supports_execution abilities) staleTicket) (\<lambda>_.
         ensure (ia_live_ticket_transport abilities \<noteq> None) staleTicket)))"

definition require_new_request_freshness ::
  "coordinator \<Rightarrow> run_moment \<Rightarrow> config_snapshot \<Rightarrow> workflow_binding \<Rightarrow> ticket_record \<Rightarrow> ticket_version \<Rightarrow>
   ticket_error + unit" where
  "require_new_request_freshness co rm snapshot binding current version =
     bindE (require_current_version binding version) (\<lambda>_.
     bindE (ensure (tk_revision current = tv_revision version) staleTicket) (\<lambda>_.
     bindE (resolve_definition (co_service co) (mo_libraries (rm_moment rm)) binding snapshot) (\<lambda>d.
     ensure (ws_digest d = tv_workflow_digest version) staleTicket)))"

definition ticket_task_input :: "coordinator \<Rightarrow> ticket_ref \<Rightarrow> ticket_view \<Rightarrow> ticket_error + string" where
  "ticket_task_input co ref view = (case (vw_version view, vw_definition view) of
      (Some v, Some d) \<Rightarrow>
        let r = vw_record view; nl = [newline]; payload = JObj
          [(''ref'', ref_json ref), (''revision'', JInt (tv_revision v)), (''title'', JStr (tk_title r)),
           (''description'', JStr (tk_description r)), (''state_id'', JStr (tk_state_id r)),
           (''assignee'', opt_json JStr (tk_assignee r)), (''field_values'', values_json (tk_field_values r))]
        in Inr (''Use the live ticket tools to inspect the current ticket state from the project, '' @
          ''re-evaluate the workflow contract below against the actual repository, and continue the work. '' @
          ''Do not rely on any stale earlier snapshot.'' @ nl @ nl @
          ''Required outputs must be supplied in outputs. Inputs are attempt-only context; '' @
          ''reports and logs do not save outputs. Accepted outputs and state commit together.'' @ nl @ nl @
          ''## Current ticket'' @ nl @ ''```yaml'' @ nl @ co_yaml co payload @ nl @ ''```'' @ nl @ nl @
          ''## Current workflow definition'' @ nl @ ''```yaml'' @ nl @ co_definition_yaml co d @ nl @ ''```'' @ nl)
    | _ \<Rightarrow> Inl (Raise WorkflowUnavailable ''unavailable-workflow''))"

text \<open>The service's \<open>inspect\<close>, in the storage of the binding it resolves.\<close>

definition inspect_run ::
  "coordinator \<Rightarrow> moment \<Rightarrow> user_context \<Rightarrow> ticket_ref \<Rightarrow> run_area \<Rightarrow> ticket_error + ticket_view" where
  "inspect_run co mo actor ref s =
     bindE (require_team_access (User actor) (rf_team_id ref)) (\<lambda>_.
     bindE (resolve_binding (co_service co) (mo_initial mo) (rf_team_id ref) (rf_workflow_id ref)) (\<lambda>wb.
     inspect_ticket (co_service co) mo (User actor) ref (ra_stores s (place (wb_storage wb)))))"

text \<open>Put the reservation on the ticket and into its file, and answer with the job or with what to submit.\<close>

definition mark_reserved ::
  "coordinator \<Rightarrow> run_moment \<Rightarrow> user_context \<Rightarrow> ticket_version \<Rightarrow> string \<Rightarrow> job_target \<Rightarrow> durable_reservation \<Rightarrow>
   (run_area, ticket_error, mutation_result) op" where
  "mark_reserved co rm actor version operation_id target x =
     (let b = tg_binding target;
          pending = \<lparr>rv_job_id = rs_job_id x, rv_request_id = rs_operation_id x, rv_assignee = tg_assigned_agent target,
                     rv_assignment_event_id = tg_assignment_event_id target\<rparr> in
      on_store b (apply_op (co_provider co b) (mo_stored_at (rm_moment rm)) (tv_ref version) (tv_revision version)
        (reservation_operation co (uc_team_id actor) version operation_id (rs_job_id x))
        (\<lambda>r. liftS (Inr (apply_pending_mutation (uc_actor_name actor) ''ticket-run-reserved'' ''Ticket run reserved''
           (Some pending) r)))))"

definition run_request ::
  "coordinator \<Rightarrow> run_moment \<Rightarrow> user_context \<Rightarrow> ticket_ref \<Rightarrow> job_target \<Rightarrow> string \<Rightarrow> run_area \<Rightarrow> ticket_error + job_request" where
  "run_request co rm actor ref target job_id s =
     bindE (inspect_run co (rm_inspect rm) actor ref s) (\<lambda>view.
     bindE (ticket_task_input co ref view) (\<lambda>text.
     Inr \<lparr>jq_config_path = co_config_path co, jq_team_key = rf_team_id ref, jq_agent_name = tg_assigned_agent target,
       jq_trigger = ''ticket'', jq_task_input = text, jq_job_id = job_id, jq_ticket_target = target\<rparr>))"

definition place_reservation ::
  "coordinator \<Rightarrow> run_moment \<Rightarrow> user_context \<Rightarrow> ticket_version \<Rightarrow> string \<Rightarrow> job_target \<Rightarrow> durable_reservation \<Rightarrow>
   (run_area, ticket_error, reservation_plan) op" where
  "place_reservation co rm actor version operation_id target x =
     (let plan = (\<lambda>handle request. \<lparr>pl_handle = handle, pl_request = request, pl_ref = tv_ref version,
            pl_assignment_event_id = tg_assignment_event_id target, pl_job_id = rs_job_id x, pl_reservation = x\<rparr>) in
      bindS (mark_reserved co rm actor version operation_id target x) (\<lambda>_.
      bindS (set_status co x ''reserved'') (\<lambda>_.
      bindS (readS (existing_handle co x)) (\<lambda>handle. case handle of
        Some h \<Rightarrow> returnS (plan (Some h) None)
      | None \<Rightarrow> bindS (readS (run_request co rm actor (tv_ref version) target (rs_job_id x))) (\<lambda>q.
          returnS (plan None (Some q)))))))"

text \<open>A ticket that another live run is queued for is left to it.\<close>

definition require_replaceable_pending ::
  "coordinator \<Rightarrow> ticket_ref \<Rightarrow> ticket_record \<Rightarrow> string \<Rightarrow> durable_reservation \<Rightarrow> run_area \<Rightarrow> ticket_error + unit" where
  "require_replaceable_pending co ref current ev x s = (case tk_pending_run current of
      None \<Rightarrow> Inr ()
    | Some p \<Rightarrow>
        if reservation_matches_current current p ev \<and> rv_request_id p \<noteq> rs_operation_id x
        then bindE (may_replace_terminal_pending co ref p s) (\<lambda>ok. ensure ok alreadyQueued)
        else Inr ())"

text \<open>What is checked before the reservation is looked up: the current binding, the ticket, its assignee.\<close>

definition enter_run ::
  "coordinator \<Rightarrow> run_moment \<Rightarrow> ticket_version \<Rightarrow> run_area \<Rightarrow>
   ticket_error + config_snapshot \<times> workflow_binding \<times> ticket_record \<times> job_target" where
  "enter_run co rm version s =
     (let sv = co_service co; mo = rm_moment rm; ref = tv_ref version; team = rf_team_id ref in
      bindE (resolve_binding sv (mo_initial mo) team (rf_workflow_id ref)) (\<lambda>initial.
      bindE (workflow_operation (mo_area mo) (mo_before mo) (mo_locked mo) [team] [wb_blueprint_id initial] None) (\<lambda>snapshot.
      bindE (resolve_workflow_binding (sv_ids sv) snapshot team (rf_workflow_id ref)) (\<lambda>binding.
      bindE (ensure (wb_blueprint_id binding = wb_blueprint_id initial) staleTicket) (\<lambda>_.
      bindE (read_ticket co (wb_storage binding) ref s) (\<lambda>current.
      case tk_assignee current of
        None \<Rightarrow> Inl (Raise TicketConflict ''unassigned-ticket'')
      | Some assignee \<Rightarrow>
          bindE (require_ticket_capable_assignee co snapshot team assignee) (\<lambda>_.
          bindE (ensure (tk_active_run current = None) (Raise TicketConflict ''already-working'')) (\<lambda>_.
          let ev = latest_assignment_event_id current;
              target = \<lparr>tg_binding = wb_storage binding, tg_ref = ref, tg_assigned_agent = assignee,
                        tg_assignment_event_id = ev, tg_context_digest = wb_context_digest binding\<rparr> in
          bindE (ensure (ev \<noteq> []) staleTicket) (\<lambda>_.
          bindE (validate_target target) (\<lambda>_. Inr (snapshot, binding, current, target)))))))))))"

definition reserve ::
  "coordinator \<Rightarrow> run_moment \<Rightarrow> user_context \<Rightarrow> ticket_version \<Rightarrow> string \<Rightarrow> (run_area, ticket_error, reservation_plan) op" where
  "reserve co rm actor version operation_id =
     (let ref = tv_ref version; digest = request_digest co actor version operation_id in
      bindS (readS (enter_run co rm version)) (\<lambda>(snapshot, binding, current, target).
      let ev = tg_assignment_event_id target in
      bindS (readS (read_reservation co (rf_team_id ref) ref operation_id)) (\<lambda>existing.
      bindS (liftS (reservation_state co actor version operation_id digest target existing)) (\<lambda>x.
      bindS (replay_handle co (rm_replay_config rm) (rm_replay_now rm) target current x) (\<lambda>replayed. case replayed of
        Some h \<Rightarrow> returnS \<lparr>pl_handle = Some h, pl_request = None, pl_ref = ref, pl_assignment_event_id = ev,
          pl_job_id = jh_job_id h, pl_reservation = x\<rparr>
      | None \<Rightarrow>
          bindS (liftS (if existing = None then require_new_request_freshness co rm snapshot binding current version
                        else Inr ())) (\<lambda>_.
          bindS (readS (require_replaceable_pending co ref current ev x)) (\<lambda>_.
          bindS (liftS (ensure (target_matches_current current target) staleTicket)) (\<lambda>_.
          place_reservation co rm actor version operation_id target x))))))))"

section \<open>Submitting a run\<close>

definition submit_run ::
  "coordinator \<Rightarrow> run_moment \<Rightarrow> ticket_actor \<Rightarrow> ticket_version \<Rightarrow> string \<Rightarrow> (run_area, ticket_error, job_handle) op" where
  "submit_run co rm actor version operation_id = (case actor of
      Agent _ \<Rightarrow> raiseS (Raise TicketForbidden ''forbidden'')
    | User user \<Rightarrow>
        bindS (liftS (require_team_access actor (rf_team_id (tv_ref version)))) (\<lambda>_.
        bindS (reserve co rm user version operation_id) (\<lambda>plan.
        case (pl_handle plan, pl_request plan) of
          (Some h, _) \<Rightarrow> returnS h
        | (None, None) \<Rightarrow> raiseS (PyError ''AssertionError'')
        | (None, Some request) \<Rightarrow> (\<lambda>s. case co_submitter co request s of
            (t, Inl e) \<Rightarrow> bindS (reconcile_pending co (rm_after_config rm) (rm_after_now rm) (pl_reservation plan) True)
                (\<lambda>_. raiseS e) t
          | (t, Inr h) \<Rightarrow>
              bindS (reconcile_pending co (rm_after_config rm) (rm_after_now rm) (pl_reservation plan) False) (\<lambda>_.
              bindS (readS (read_reservation co (rf_team_id (pl_ref plan)) (pl_ref plan) operation_id)) (\<lambda>refreshed.
              case refreshed of
                None \<Rightarrow> returnS h
              | Some y \<Rightarrow> if rs_authority_digest y = None then returnS h else readS (verified_handle co y))) t))))"

section \<open>Running and cleaning up\<close>

definition require_reserved :: "job_record \<Rightarrow> job_target \<Rightarrow> ticket_view \<Rightarrow> ticket_error + ticket_view" where
  "require_reserved r target view = (case vw_version view of
      None \<Rightarrow> Inl (Raise WorkflowUnavailable ''unavailable-workflow'')
    | Some v \<Rightarrow>
        let t = vw_record view; ev = latest_assignment_event_id t in
        if tk_assignee t \<noteq> Some (tg_assigned_agent target) \<or> ev \<noteq> tg_assignment_event_id target \<or>
           tv_context_digest v \<noteq> tg_context_digest target \<or>
           rf_binding_id (tv_ref v) \<noteq> sb_binding_id (tg_binding target)
        then Inl staleTicket
        else case tk_pending_run t of
          None \<Rightarrow> Inl staleTicket
        | Some p \<Rightarrow>
            bindE (ensure (rv_job_id p = sp_job_id (jr_spec r)) staleTicket) (\<lambda>_.
            bindE (ensure (rv_assignee p = tg_assigned_agent target) staleTicket) (\<lambda>_.
            bindE (ensure (rv_assignment_event_id p = tg_assignment_event_id target) staleTicket) (\<lambda>_.
            Inr view))))"

definition preflight ::
  "coordinator \<Rightarrow> moment \<Rightarrow> job_record \<Rightarrow> run_area \<Rightarrow> ticket_error + ticket_view" where
  "preflight co mo r s = (case sp_ticket_target (jr_spec r) of
      None \<Rightarrow> Inl staleTicket
    | Some target \<Rightarrow>
        bindE (inspect_run co mo \<lparr>uc_team_id = rf_team_id (tg_ref target), uc_actor_name = ''ticket-preflight''\<rparr>
          (tg_ref target) s) (require_reserved r target))"

record cleanup_result =
  cu_cleared :: "ticket_ref list"
  cu_pending_cleanup :: "ticket_ref list"

definition bool_text :: "bool \<Rightarrow> string" where "bool_text b = (if b then ''True'' else ''False'')"

text \<open>One target: whether the ticket is released. \<open>cleanup_digest\<close> is the \<open>uuid5\<close> of the cleanup.\<close>

definition cleanup_digest :: "coordinator \<Rightarrow> ticket_ref \<Rightarrow> string \<Rightarrow> stop_evidence \<Rightarrow> string \<Rightarrow> string" where
  "cleanup_digest co ref job_id stopped ev = co_uuid5 co (''cleanup:'' @ rf_binding_id ref @ '':'' @ rf_ticket_id ref @ '':'' @
     job_id @ '':'' @ se_generation stopped @ '':'' @ ev @ '':'' @ bool_text (se_confirmed stopped))"

definition cleanup_target ::
  "coordinator \<Rightarrow> time \<Rightarrow> job_record \<Rightarrow> stop_evidence \<Rightarrow> original_target \<Rightarrow> run_area \<Rightarrow> run_area \<times> bool" where
  "cleanup_target co now r stopped x s =
     (let ref = ot_ref x; job_id = sp_job_id (jr_spec r);
          expected = (if ot_generation x = se_generation stopped then Some (ot_generation x) else None);
          ev = (case sp_ticket_target (jr_spec r) of None \<Rightarrow> []
                | Some target \<Rightarrow> if ref = tg_ref target then tg_assignment_event_id target else [])
      in case on_store (ot_binding x) (cleanup_job_target (co_provider co (ot_binding x)) now
              (cleanup_digest co ref job_id stopped ev) ref job_id ev expected stopped) s of
           (t, Inl e) \<Rightarrow> (t, False)
         | (t, Inr updated) \<Rightarrow> (t, tk_active_run updated = None \<and> \<not> holds_pending updated job_id))"

fun cleanup_targets ::
  "coordinator \<Rightarrow> (nat \<Rightarrow> time) \<Rightarrow> job_record \<Rightarrow> stop_evidence \<Rightarrow> original_target list \<Rightarrow> run_area \<Rightarrow>
   run_area \<times> cleanup_result" where
  "cleanup_targets co clock r stopped [] s = (s, \<lparr>cu_cleared = [], cu_pending_cleanup = []\<rparr>)"
| "cleanup_targets co clock r stopped (x # xs) s =
     (let (t, released) = cleanup_target co (clock 0) r stopped x s;
          (u, rest) = cleanup_targets co (\<lambda>i. clock (Suc i)) r stopped xs t
      in (u, if released then rest\<lparr>cu_cleared := ot_ref x # cu_cleared rest\<rparr>
             else rest\<lparr>cu_pending_cleanup := ot_ref x # cu_pending_cleanup rest\<rparr>))"

definition cleanup ::
  "coordinator \<Rightarrow> (nat \<Rightarrow> time) \<Rightarrow> job_authority \<Rightarrow> stop_evidence \<Rightarrow> (run_area, ticket_error, cleanup_result) op" where
  "cleanup co clock a stopped =
     bindS (readS (\<lambda>s. read_authority (co_jobs co) (ra_root s) (ra_jobs s) a)) (\<lambda>r.
     bindS (readS (\<lambda>s. read_original_targets (co_jobs co) a (ra_access s))) (\<lambda>originals.
     bindS (liftS (case sp_ticket_target (jr_spec r) of
         None \<Rightarrow> Inr originals
       | Some target \<Rightarrow> if originals \<noteq> [] then Inr originals
           else let x = \<lparr>ot_generation = [], ot_binding = tg_binding target, ot_ref = tg_ref target\<rparr> in
                bindE (validate_original_target (jt_ids (co_jobs co)) x) (\<lambda>_. Inr [x]))) (\<lambda>targets s.
     if targets = [] then (s, Inr \<lparr>cu_cleared = [], cu_pending_cleanup = []\<rparr>)
     else if \<not> se_confirmed stopped then (s, Inr \<lparr>cu_cleared = [], cu_pending_cleanup = map ot_ref targets\<rparr>)
     else case cleanup_targets co clock r stopped targets s of (t, result) \<Rightarrow> (t, Inr result))))"

section \<open>The sweep over reservations\<close>

text \<open>\<open>_reconcile_ticket_reservations\<close> of \<^verbatim>\<open>jobs/reconciliation.py\<close>: \<open>ready\<close> says whether a coordinator
  can be built, \<open>views\<close> is the configuration and the clock at each reservation.\<close>

fun reconcile_all ::
  "coordinator \<Rightarrow> string \<Rightarrow> ((config_snapshot option \<times> time) \<times> durable_reservation) list \<Rightarrow> run_area \<Rightarrow> run_area" where
  "reconcile_all co team [] s = s"
| "reconcile_all co team (((config, now), x) # rest) s = reconcile_all co team rest
     (fst (reconcile_pending_submission co config now team (tg_ref (rs_target x)) (rs_operation_id x) s))"

definition reconcile_ticket_reservations ::
  "coordinator \<Rightarrow> string \<Rightarrow> bool \<Rightarrow> (nat \<Rightarrow> config_snapshot option \<times> time) \<Rightarrow> (run_area, ticket_error, unit) op" where
  "reconcile_ticket_reservations co team ready views s =
     (if \<not> is_team_id team then (s, Inl valueError)
      else if filter (\<lambda>(k, f). fst k = team) (ra_reservations s) = [] \<or> \<not> ready then (s, Inr ())
      else case iter_reservations co team s of
        Inl e \<Rightarrow> (s, Inr ())
      | Inr xs \<Rightarrow> (reconcile_all co team (zip (map views [0..<length xs]) xs) s, Inr ()))"

end
