(* ===== verification/ReservationSafety.thy ===== *)
theory ReservationSafety
  imports TicketRuns
begin

text \<open>
  What the operations of \<^verbatim>\<open>flowgency/jobs/tickets.py\<close> promise: a reconciliation changes only the pending run of its
  own ticket and only its own job, the sweep over all reservations is a sequence of such settlements, a run
  starts only under its reservation, and a new one is requested only for a ticket no live run holds.
\<close>

section \<open>What reconciliation may touch\<close>

text \<open>The file of a reservation, and a change of no other reservation file.\<close>

definition own_key :: "coordinator \<Rightarrow> durable_reservation \<Rightarrow> string \<times> string" where
  "own_key co x = (let ref = tg_ref (rs_target x) in (rf_team_id ref, reservation_key co ref (rs_operation_id x)))"

definition others_filed :: "string \<times> string \<Rightarrow> run_area \<Rightarrow> run_area \<Rightarrow> bool" where
  "others_filed k s t \<longleftrightarrow> (\<forall>k'. k' \<noteq> k \<longrightarrow> map_of (ra_reservations t) k' = map_of (ra_reservations s) k')"

text \<open>A write of one ticket that sets its pending run and adds an event, and changes nothing else of it.\<close>

definition pending_write ::
  "provider \<Rightarrow> ticket_ref \<Rightarrow> string \<Rightarrow> ticket_record \<Rightarrow> run_reservation option \<Rightarrow> storage \<Rightarrow> storage \<Rightarrow> bool" where
  "pending_write p ref kind cur pending st st' \<longleftrightarrow> read p st ref = Inr cur \<and> (\<exists>upd e.
     st' = st\<lparr>fs_docs := AList.update (doc_key ref) (TextFile (serialize p upd)) (fs_docs st)\<rparr> \<and>
     tk_pending_run upd = pending \<and> tk_active_run upd = tk_active_run cur \<and> tk_assignee upd = tk_assignee cur \<and>
     tk_state_id upd = tk_state_id cur \<and> tk_field_values upd = tk_field_values cur \<and>
     tk_title upd = tk_title cur \<and> tk_description upd = tk_description cur \<and> tk_id upd = tk_id cur \<and>
     tk_ref upd = tk_ref cur \<and> tk_revision upd = tk_revision cur + 1 \<and> tk_events upd = tk_events cur @ [e] \<and> te_kind e = kind)"

lemma others_filed_refl [simp]: "others_filed k s s"
  by (simp add: others_filed_def)

lemma others_filed_trans: "others_filed k s t \<Longrightarrow> others_filed k t u \<Longrightarrow> others_filed k s u"
  by (simp add: others_filed_def)

lemma own_key_updates [simp]:
  "own_key co (x\<lparr>rs_status := a\<rparr>) = own_key co x" "own_key co (x\<lparr>rs_recovery := r\<rparr>) = own_key co x"
  "own_key co (x\<lparr>rs_authority_digest := d\<rparr>) = own_key co x"
  by (simp_all add: own_key_def)

lemma write_reservation_frame:
  assumes "write_reservation co x s = (t, out)"
  shows "ra_stores t = ra_stores s \<and> ra_access t = ra_access s \<and> others_filed (own_key co x) s t"
  using assms
  by (auto simp: write_reservation_def reservation_path_def own_key_def others_filed_def Let_def errE update_conv'
      split: sum.splits if_splits)

lemma set_status_frame: "set_status co x v s = (t, out) \<Longrightarrow>
    ra_stores t = ra_stores s \<and> ra_access t = ra_access s \<and> others_filed (own_key co x) s t"
  unfolding set_status_def by (drule write_reservation_frame) simp

lemma write_recovery_frame: "write_recovery co x e s = (t, out) \<Longrightarrow>
    ra_stores t = ra_stores s \<and> ra_access t = ra_access s \<and> others_filed (own_key co x) s t"
  unfolding write_recovery_def by (drule write_reservation_frame) simp

lemma when_availableE:
  assumes "when_available m h f s = (t, out)"
  obtains (returned) u x where "m s = (u, Inr x)" "f x u = (t, out)"
  | (unavailable) u e where "m s = (u, Inl e)" "is_unavailable e" "h e u = (t, out)"
  | (raised) e where "m s = (t, Inl e)" "\<not> is_unavailable e" "out = Inl e"
  using assms by (auto simp: when_available_def split: prod.splits sum.splits if_splits)

lemma on_storeE:
  assumes "on_store b m s = (t, out)"
  obtains st where "m (ra_stores s (place b)) = (st, out)" "t = s\<lparr>ra_stores := (ra_stores s)(place b := st)\<rparr>"
  using assms by (auto simp: on_store_def split: prod.splits)

lemma pending_applied_Inr:
  assumes "apply_op p now ref n op (\<lambda>r. liftS (Inr (apply_pending_mutation actor kind summary pending r))) st = (st', Inr res)"
  shows "st' = st \<and> (\<exists>cur rc. read p st ref = Inr cur \<and> find_receipt cur (op_id op) = Some rc) \<or>
    (\<exists>cur. pending_write p ref kind cur pending st st' \<and> tk_revision cur = n \<and> find_receipt cur (op_id op) = None)"
  using assms
proof (rule apply_op_Inr)
  fix cur u cand upd
  assume cur: "read p st ref = Inr cur" "find_receipt cur (op_id op) = None" "tk_revision cur = n"
    and "liftS (Inr (apply_pending_mutation actor kind summary pending cur)) st = (u, Inr cand)"
    and seal: "sealed_update (pr_uuid p) now cur cand op upd res" and w: "write_record p upd ref u = (st', Inr ())"
  then have u: "u = st" and cand: "cand = apply_pending_mutation actor kind summary pending cur" by auto
  from seal obtain evs where ev: "tk_events upd = tk_events cur @ evs"
    "evs = finalize_new now (pr_uuid p) 0 (drop (length (tk_events cur)) (tk_events cand))" by (rule sealed_updateD)
  then obtain e where e: "evs = [e]" "te_kind e = kind"
    using finalize_new_kinds [of now "pr_uuid p" 0 "drop (length (tk_events cur)) (tk_events cand)"]
    by (auto simp: cand apply_pending_mutation_def add_event_def Let_def)
  from seal w u cur ev(1) e have "pending_write p ref kind cur pending st st'"
    unfolding pending_write_def
    by (elim sealed_updateD) (auto simp: write_record_Inr cand apply_pending_mutation_def add_event_def)
  with cur show ?thesis by blast
qed blast

lemma pending_applied:
  assumes "apply_op p now ref n op (\<lambda>r. liftS (Inr (apply_pending_mutation actor kind summary pending r))) st = (st', out)"
  shows "st' = st \<or> (\<exists>cur. pending_write p ref kind cur pending st st' \<and> tk_revision cur = n \<and> find_receipt cur (op_id op) = None)"
  using assms by (cases out) (auto elim: apply_op_Inl dest: pending_applied_Inr)

lemma set_pending_frame:
  fixes x co
  defines "b \<equiv> tg_binding (rs_target x)" and "ref \<equiv> tg_ref (rs_target x)"
  assumes "set_pending co now x n reason pending status s = (t, out)"
  shows "ra_access t = ra_access s \<and> others_filed (own_key co x) s t \<and>
    (\<exists>st'. ra_stores t = (ra_stores s)(place b := st') \<and> (st' = ra_stores s (place b) \<or>
      (\<exists>cur. pending_write (co_provider co b) ref ''ticket-run-reconciled'' cur pending (ra_stores s (place b)) st' \<and>
         tk_revision cur = n)))"
proof -
  let ?m = "on_store b (apply_op (co_provider co b) now ref n (reconcile_operation co ref (rs_job_id x)
      (tg_assignment_event_id (rs_target x)) reason) (\<lambda>r. liftS (Inr (apply_pending_mutation ''system''
        ''ticket-run-reconciled'' ''Ticket run reservation reconciled'' pending r))))"
  obtain u r where m: "?m s = (u, r)" by fastforce
  then obtain st where st: "ra_stores u = (ra_stores s)(place b := st)" "ra_access u = ra_access s"
    "others_filed (own_key co x) s u" "st = ra_stores s (place b) \<or>
      (\<exists>cur. pending_write (co_provider co b) ref ''ticket-run-reconciled'' cur pending (ra_stores s (place b)) st \<and>
         tk_revision cur = n)"
    by (elim on_storeE) (auto dest!: pending_applied simp: others_filed_def)
  have "when_available ?m (write_recovery co x) (\<lambda>_. set_status co x status) s = (t, out)"
    using assms(3) by (simp add: set_pending_def Let_def b_def ref_def)
  then have "ra_stores t = ra_stores u \<and> ra_access t = ra_access u \<and> others_filed (own_key co x) u t"
    by (cases rule: when_availableE) (use m in \<open>auto dest!: set_status_frame write_recovery_frame\<close>)
  with st show ?thesis by (intro conjI exI [of _ st]) (auto intro: others_filed_trans)
qed

section \<open>A reconciliation is gentle\<close>

text \<open>What one reconciliation does to its ticket: nothing, or a release of the pending run it made itself, or the
  return of it to a ticket that is still assigned as it was reserved.\<close>

definition settles_ticket :: "coordinator \<Rightarrow> durable_reservation \<Rightarrow> storage \<Rightarrow> storage \<Rightarrow> bool" where
  "settles_ticket co x st st' \<longleftrightarrow> (let target = rs_target x; p = co_provider co (tg_binding target);
       written = (\<lambda>cur pending. pending_write p (tg_ref target) ''ticket-run-reconciled'' cur pending st st') in
     st' = st \<or> (\<exists>cur. written cur None \<and> holds_pending cur (rs_job_id x)) \<or>
     (\<exists>cur. written cur (Some (own_reservation x)) \<and> \<not> holds_pending cur (rs_job_id x) \<and>
        tk_assignee cur = Some (tg_assigned_agent target) \<and>
        latest_assignment_event_id cur = tg_assignment_event_id target))"

text \<open>Its job keeps its file, or is cancelled before it ran.\<close>

definition settles_job :: "job_tools \<Rightarrow> job_key \<Rightarrow> job_area \<Rightarrow> job_area \<Rightarrow> bool" where
  "settles_job jt k ja ja' \<longleftrightarrow> ja' = ja \<or> (\<exists>r. read_job jt ja k None = Inr r \<and> jr_status r \<in> {Queued, WaitingForMemory} \<and>
     ja' = stored jt k (r\<lparr>jr_status := Cancelled\<rparr>) ja)"

lemma settles_linked [simp]: "settles_ticket co (x\<lparr>rs_authority_digest := d, rs_status := v, rs_recovery := r\<rparr>) = settles_ticket co x"
  by (intro ext) (simp add: settles_ticket_def own_reservation_def)

lemma cancel_job_settles: "settles_job jt k ja (fst (cancel_job jt k ja))"
proof (cases "cancel_job jt k ja")
  case (Pair ja' out)
  then have "update_job jt k (\<lambda>r. bindE (ensure (jr_status r \<in> {Queued, WaitingForMemory}) invalidTransition) (\<lambda>_.
      Inr (r\<lparr>jr_status := Cancelled\<rparr>))) ja = (ja', out)" by (simp add: cancel_job_def)
  then have "settles_job jt k ja ja'"
    by (rule update_job_cases) (auto simp: settles_job_def errE)
  with Pair show ?thesis by simp
qed

lemma link_job_frame:
  assumes "link_job co x authority s = (t, out)"
  shows "ra_stores t = ra_stores s \<and> ra_access t = ra_access s \<and> others_filed (own_key co x) s t \<and>
    (\<forall>y. out = Inr y \<longrightarrow> y = x \<or> (\<exists>d v r. y = x\<lparr>rs_authority_digest := d, rs_status := v, rs_recovery := r\<rparr>))"
proof (cases out)
  case (Inl e)
  with assms show ?thesis
    by (auto simp: link_job_def bindS_Inl Let_def dest!: write_reservation_frame split: option.splits if_splits)
next
  case (Inr y)
  with assms show ?thesis
    by (auto simp: link_job_def bindS_Inr Let_def dest!: write_reservation_frame split: option.splits if_splits)
qed

definition settles_run :: "coordinator \<Rightarrow> durable_reservation \<Rightarrow> run_area \<Rightarrow> run_area \<Rightarrow> bool" where
  "settles_run co x s t \<longleftrightarrow> (let pl = place (tg_binding (rs_target x)); team = rf_team_id (tg_ref (rs_target x)) in
     others_filed (own_key co x) s t \<and>
     (\<exists>st'. ra_stores t = (ra_stores s)(pl := st') \<and> settles_ticket co x (ra_stores s pl) st') \<and>
     (\<exists>ja'. ra_access t = (ra_access s)\<lparr>aa_jobs := ja'\<rparr> \<and> settles_job (co_jobs co) (team, rs_job_id x) (ra_jobs s) ja'))"

lemma settles_refl [simp]: "settles_ticket co x st st" "settles_job jt k ja ja"
  by (simp_all add: settles_ticket_def settles_job_def)

lemma settles_run_quiet:
  assumes "ra_stores t = ra_stores s" "ra_access t = ra_access s" "others_filed (own_key co x) s t"
  shows "settles_run co x s t"
  unfolding settles_run_def Let_def using assms
  by (intro conjI exI [of _ "ra_stores s (place (tg_binding (rs_target x)))"] exI [of _ "ra_jobs s"]) simp_all

lemma settles_run_after:
  assumes "settles_run co x u t" "ra_stores u = ra_stores s" "ra_access u = ra_access s" "others_filed (own_key co x) s u"
  shows "settles_run co x s t"
  using assms by (auto simp: settles_run_def Let_def intro: others_filed_trans)

lemma settles_run_linked [simp]:
  "settles_run co (x\<lparr>rs_authority_digest := d, rs_status := v, rs_recovery := r\<rparr>) = settles_run co x"
  by (intro ext) (simp add: settles_run_def)

lemma set_status_settles: "set_status co x v s = (t, out) \<Longrightarrow> settles_run co x s t \<and> ra_access t = ra_access s"
  by (intro conjI settles_run_quiet) (auto dest!: set_status_frame)

lemma write_recovery_settles: "write_recovery co x e s = (t, out) \<Longrightarrow> settles_run co x s t \<and> ra_access t = ra_access s"
  by (intro conjI settles_run_quiet) (auto dest!: write_recovery_frame)

lemma set_pending_settles:
  assumes "set_pending co now x n reason pending status s = (t, out)"
    and "read_ticket co (tg_binding (rs_target x)) (tg_ref (rs_target x)) s = Inr cur"
    and "pending = None \<and> holds_pending cur (rs_job_id x) \<or>
      pending = Some (own_reservation x) \<and> \<not> holds_pending cur (rs_job_id x) \<and>
        tk_assignee cur = Some (tg_assigned_agent (rs_target x)) \<and>
        latest_assignment_event_id cur = tg_assignment_event_id (rs_target x)"
  shows "settles_run co x s t \<and> ra_access t = ra_access s"
proof -
  let ?pl = "place (tg_binding (rs_target x))"
  from set_pending_frame [OF assms(1)] obtain st' where t: "ra_access t = ra_access s" "others_filed (own_key co x) s t"
    "ra_stores t = (ra_stores s)(?pl := st')" and st': "st' = ra_stores s ?pl \<or>
      (\<exists>cur. pending_write (co_provider co (tg_binding (rs_target x))) (tg_ref (rs_target x)) ''ticket-run-reconciled''
         cur pending (ra_stores s ?pl) st')" by blast
  have "settles_ticket co x (ra_stores s ?pl) st'"
    using st'
  proof
    assume "\<exists>cur. pending_write (co_provider co (tg_binding (rs_target x))) (tg_ref (rs_target x)) ''ticket-run-reconciled''
      cur pending (ra_stores s ?pl) st'"
    then obtain cur' where w: "pending_write (co_provider co (tg_binding (rs_target x))) (tg_ref (rs_target x))
      ''ticket-run-reconciled'' cur' pending (ra_stores s ?pl) st'" ..
    with assms(2) have "cur' = cur" by (simp add: read_ticket_def pending_write_def)
    with w assms(3) show ?thesis unfolding settles_ticket_def Let_def by blast
  qed (simp add: settles_ticket_def)
  with t show ?thesis by (auto simp: settles_run_def Let_def intro!: exI [of _ "ra_jobs s"])
qed

lemma read_ticket_stores: "ra_stores t = ra_stores s \<Longrightarrow> read_ticket co b ref t = read_ticket co b ref s"
  by (simp add: read_ticket_def)

lemma on_jobs_frame: "fst (on_jobs m s) = s\<lparr>ra_access := (ra_access s)\<lparr>aa_jobs := fst (m (ra_jobs s))\<rparr>\<rparr>"
  by (simp add: on_jobs_def split: prod.split)

lemma reconcile_stale_settles:
  assumes "reconcile_stale co now x a s = (t, out)"
    and "au_team_id a = rf_team_id (tg_ref (rs_target x))" "au_job_id a = rs_job_id x"
  shows "settles_run co x s t"
proof -
  let ?u = "fst (on_jobs (cancel_job (co_jobs co) (au_team_id a, au_job_id a)) s)"
  have "settles_run co x ?u t \<and> ra_access t = ra_access ?u"
    using assms(1) unfolding reconcile_stale_def
    by (auto simp: bindS_def tryS_def elim!: when_availableE split: if_splits
        dest!: write_recovery_settles set_status_settles set_pending_settles intro: settles_run_quiet)
  moreover have "settles_job (co_jobs co) (au_team_id a, au_job_id a) (ra_jobs s) (ra_jobs ?u)"
    by (simp add: on_jobs_frame cancel_job_settles)
  ultimately show ?thesis
    using assms(2,3) by (auto simp: settles_run_def Let_def on_jobs_frame others_filed_def)
qed

lemma not_stale: "\<not> stale_target co config x cur \<Longrightarrow> tk_assignee cur = Some (tg_assigned_agent (rs_target x)) \<and>
    latest_assignment_event_id cur = tg_assignment_event_id (rs_target x)"
  by (auto simp: stale_target_def Let_def)

lemma reconcile_known_settles:
  assumes "reconcile_known co config now x a cur s = (t, out)"
    and "au_team_id a = rf_team_id (tg_ref (rs_target x))" "au_job_id a = rs_job_id x"
    and cur: "read_ticket co (tg_binding (rs_target x)) (tg_ref (rs_target x)) s = Inr cur"
  shows "settles_run co x s t"
proof (cases "read_authority (co_jobs co) (ra_root s) (ra_jobs s) a")
  case (Inl e)
  with assms(1) show ?thesis by (auto simp: reconcile_known_def intro: settles_run_quiet)
next
  case (Inr r)
  have clear: "may_clear_terminal_pending co a r cur x s = Inr True \<Longrightarrow> holds_pending cur (rs_job_id x)"
    by (auto simp: may_clear_terminal_pending_def split: if_splits)
  note body = assms(1) [unfolded reconcile_known_def bindS_readS Inr sum.case]
  show ?thesis
  proof (cases "jr_status r \<in> set TERMINAL_STATUSES")
    case True
    with body clear show ?thesis
      by (auto dest!: set_status_settles set_pending_settles [OF _ cur] intro: settles_run_quiet split: sum.splits if_splits)
  next
    case False
    with body show ?thesis
      by (auto dest!: set_status_settles set_pending_settles [OF _ cur] dest: not_stale split: if_splits
          intro: reconcile_stale_settles [OF _ assms(2,3)])
  qed
qed

lemma read_authority_file:
  assumes "read_authority jt root_path ja a = Inr r"
  shows "read_job jt ja (au_team_id a, au_job_id a) None = Inr r"
proof -
  from assms obtain e where "reference root_path ja (au_team_id a) (au_job_id a) (au_immutable_digest a) = Inr e"
    and "read_job jt ja (au_team_id e, au_job_id e) (Some (au_immutable_digest e)) = Inr r"
    by (auto simp: read_authority_def errE)
  then show ?thesis
    by (auto simp: read_job_def errE dest!: reference_names split: option.splits job_file.splits)
qed

lemma authorized_Inr:
  assumes "authorized co s team job d = Inr (a, r)"
  shows "au_team_id a = team \<and> au_job_id a = job \<and> read_authority (co_jobs co) (ra_root s) (ra_jobs s) a = Inr r \<and>
    read_job (co_jobs co) (ra_jobs s) (team, job) None = Inr r"
  using assms by (auto simp: authorized_def errE dest!: reference_names dest: read_authority_file)

text \<open>A reservation's verified job is in its own file, and made for the ticket as it was reserved.\<close>

lemma verify_existing_job_Some:
  assumes "verify_existing_job co x s = Inr (Some a)"
  obtains r where "au_team_id a = rf_team_id (tg_ref (rs_target x))" "au_job_id a = rs_job_id x"
    "read_authority (co_jobs co) (ra_root s) (ra_jobs s) a = Inr r"
    "read_job (co_jobs co) (ra_jobs s) (rf_team_id (tg_ref (rs_target x)), rs_job_id x) None = Inr r"
    "require_job_matches r x = Inr ()"
proof -
  let ?team = "rf_team_id (tg_ref (rs_target x))"
  have path: "job_path ja team job = Inr k \<Longrightarrow> k = (team, job)" for ja team job k
    by (auto simp: job_path_def errE)
  show thesis
  proof (cases "rs_authority_digest x")
    case (Some d)
    with assms obtain r where "authorized co s ?team (rs_job_id x) d = Inr (a, r)" "require_job_matches r x = Inr ()"
      by (auto simp: verify_existing_job_def Let_def errE split: if_splits)
    then show thesis using that authorized_Inr by blast
  next
    case None
    with assms obtain k r r' where "job_path (ra_jobs s) ?team (rs_job_id x) = Inr k"
      "read_job (co_jobs co) (ra_jobs s) k None = Inr r"
      "authorized co s ?team (rs_job_id x) (jr_authority_digest r) = Inr (a, r')" "require_job_matches r x = Inr ()"
      by (auto simp: verify_existing_job_def Let_def errE split: if_splits)
    with path have "r' = r" using authorized_Inr by fastforce
    with \<open>authorized co s ?team _ _ = _\<close> \<open>require_job_matches r x = Inr ()\<close> show thesis using that authorized_Inr by blast
  qed
qed

lemma reconcile_pending_settles:
  assumes "reconcile_pending co config now x clear s = (t, out)"
  shows "settles_run co x s t"
proof (cases "verify_existing_job co x s")
  case (Inl e)
  with assms show ?thesis by (auto simp: reconcile_pending_def intro: settles_run_quiet)
next
  case (Inr authority)
  obtain u linked where l: "link_job co x authority s = (u, linked)" by fastforce
  note f = link_job_frame [OF l]
  show ?thesis
  proof (cases linked)
    case (Inl e)
    with Inr assms l f show ?thesis by (auto simp: reconcile_pending_def bindS_def intro: settles_run_quiet)
  next
    case linked: (Inr y)
    with f have y: "settles_run co y = settles_run co x" "rs_target y = rs_target x" "rs_job_id y = rs_job_id x" by auto
    from assms Inr l linked have "when_available (readS (read_ticket co (tg_binding (rs_target x)) (tg_ref (rs_target x))))
        (write_recovery co y) (\<lambda>current. case authority of
          None \<Rightarrow> if \<not> clear then returnS ()
            else if \<not> holds_pending current (rs_job_id x) then set_status co y ''retryable''
            else set_pending co now y (tk_revision current) ''missing'' None ''retryable''
        | Some a \<Rightarrow> reconcile_known co config now y a current) u = (t, out)"
      by (simp add: reconcile_pending_def bindS_def)
    then have "settles_run co y u t"
    proof (cases rule: when_availableE)
      case (returned v cur)
      then have cur: "v = u" "read_ticket co (tg_binding (rs_target y)) (tg_ref (rs_target y)) u = Inr cur"
        using y by auto
      show ?thesis
      proof (cases authority)
        case None
        with returned(2) cur y show ?thesis
          by (auto dest!: set_status_settles set_pending_settles [OF _ cur(2)] intro: settles_run_quiet split: if_splits)
      next
        case (Some a)
        with Inr y have "au_team_id a = rf_team_id (tg_ref (rs_target y))" "au_job_id a = rs_job_id y"
          by (auto elim: verify_existing_job_Some)
        with returned(2) cur Some show ?thesis by (auto intro: reconcile_known_settles)
      qed
    qed (auto dest!: write_recovery_settles intro: settles_run_quiet)
    with f y(1) show ?thesis by (auto intro: settles_run_after)
  qed
qed

text \<open>A job that still may run, for a ticket that is as it was reserved, keeps its file and its pending run.\<close>

lemma stale_target_cong: "rs_target y = rs_target x \<Longrightarrow> stale_target co config y = stale_target co config x"
  by (intro ext) (simp add: stale_target_def)

lemma reconcile_pending_live:
  assumes run: "reconcile_pending co config now x clear s = (t, out)"
    and r: "read_job (co_jobs co) (ra_jobs s) (rf_team_id (tg_ref (rs_target x)), rs_job_id x) None = Inr r"
    and live: "jr_status r \<notin> set TERMINAL_STATUSES"
    and cur: "read_ticket co (tg_binding (rs_target x)) (tg_ref (rs_target x)) s = Inr cur"
    and current: "\<not> stale_target co config x cur"
  shows "ra_access t = ra_access s \<and> (ra_stores t = ra_stores s \<or> \<not> holds_pending cur (rs_job_id x))"
proof (cases "verify_existing_job co x s")
  case (Inl e)
  with run show ?thesis by (simp add: reconcile_pending_def)
next
  case (Inr authority)
  have "authority \<noteq> None"
    using Inr r by (auto simp: verify_existing_job_def Let_def errE read_job_def job_path_def split: if_splits option.splits)
  then obtain a where a: "authority = Some a" by auto
  with Inr r have known: "read_authority (co_jobs co) (ra_root s) (ra_jobs s) a = Inr r"
    by (auto elim!: verify_existing_job_Some)
  obtain u linked where l: "link_job co x authority s = (u, linked)" by fastforce
  note f = link_job_frame [OF l]
  show ?thesis
  proof (cases linked)
    case (Inl e)
    with Inr run l f show ?thesis by (simp add: reconcile_pending_def bindS_def)
  next
    case linked: (Inr y)
    with f have y: "rs_target y = rs_target x" "rs_job_id y = rs_job_id x" by auto
    have cur_u: "read_ticket co (tg_binding (rs_target x)) (tg_ref (rs_target x)) u = Inr cur"
      using f cur by (simp add: read_ticket_def)
    then have "reconcile_known co config now y a cur u = (t, out)"
      using run Inr l linked a by (simp add: reconcile_pending_def bindS_def when_available_def)
    then have "(if \<not> holds_pending cur (rs_job_id x)
        then set_pending co now y (tk_revision cur) ''linked'' (Some (own_reservation y)) ''linked'' else set_status co y ''linked'') u = (t, out)"
      using known f live current y by (simp add: reconcile_known_def stale_target_cong [OF y(1)])
    then show ?thesis
      using f by (auto dest!: set_status_frame set_pending_frame split: if_splits)
  qed
qed


section \<open>The sweep implements settlements\<close>

text \<open>One settlement: of a reservation that a file of the team holds.\<close>

definition settlement :: "coordinator \<Rightarrow> string \<Rightarrow> run_area \<Rightarrow> run_area \<Rightarrow> bool" where
  "settlement co team s t \<longleftrightarrow> (\<exists>ref operation_id x.
     read_reservation co team ref operation_id s = Inr (Some x) \<and> settles_run co x s t)"

lemma reconcile_pending_submission_settles:
  assumes "reconcile_pending_submission co config now team ref operation_id s = (t, out)"
  shows "t = s \<or> settlement co team s t"
proof (cases "read_reservation co team ref operation_id s")
  case (Inl e)
  with assms show ?thesis by (simp add: reconcile_pending_submission_def)
next
  case (Inr found)
  show ?thesis
  proof (cases found)
    case None
    with Inr assms show ?thesis by (simp add: reconcile_pending_submission_def)
  next
    case (Some x)
    show ?thesis
    proof (cases "verify_existing_job co x s")
      case (Inl e)
      with Inr Some assms show ?thesis by (simp add: reconcile_pending_submission_def)
    next
      case a: (Inr a)
      obtain u r where u: "reconcile_pending co config now x (a = None) s = (u, r)" by fastforce
      have "t = u"
        using assms Inr Some a u unfolding reconcile_pending_submission_def
        by (auto simp: bindS_def [of "reconcile_pending _ _ _ _ _"] split: sum.splits option.splits)
      with reconcile_pending_settles [OF u] Inr Some show ?thesis by (auto simp: settlement_def)
    qed
  qed
qed

lemma reconcile_all_settles: "(settlement co team)\<^sup>*\<^sup>* s (reconcile_all co team vs s)"
proof (induction co team vs s rule: reconcile_all.induct)
  case (2 co team config now x rest s)
  let ?r = "reconcile_pending_submission co config now team (tg_ref (rs_target x)) (rs_operation_id x) s"
  have "(settlement co team)\<^sup>*\<^sup>* s (fst ?r)"
    using reconcile_pending_submission_settles [of co config now team "tg_ref (rs_target x)" "rs_operation_id x" s "fst ?r" "snd ?r"]
    by auto
  with 2 show ?case by (simp add: rtranclp_trans)
qed simp

text \<open>What settlements keep of the jobs and sessions.\<close>

definition jobs_spared :: "job_tools \<Rightarrow> access_area \<Rightarrow> access_area \<Rightarrow> bool" where
  "jobs_spared jt s t \<longleftrightarrow> (\<exists>ja. t = s\<lparr>aa_jobs := ja\<rparr>) \<and> (\<forall>k r. read_job jt (aa_jobs s) k None = Inr r \<longrightarrow>
     (\<exists>r'. read_job jt (aa_jobs t) k None = Inr r' \<and>
        (r' = r \<or> jr_status r \<in> {Queued, WaitingForMemory} \<and> r' = r\<lparr>jr_status := Cancelled\<rparr>)))"

lemma jobs_spared_trans:
  assumes "jobs_spared jt s t" "jobs_spared jt t u"
  shows "jobs_spared jt s u"
  using assms unfolding jobs_spared_def by fastforce

lemma settles_run_spares:
  assumes "faithful_files (co_jobs co)" "settles_run co x s t"
  shows "jobs_spared (co_jobs co) (ra_access s) (ra_access t)"
proof -
  let ?k = "(rf_team_id (tg_ref (rs_target x)), rs_job_id x)"
  from assms(2) obtain ja where ja: "ra_access t = (ra_access s)\<lparr>aa_jobs := ja\<rparr>" "settles_job (co_jobs co) ?k (ra_jobs s) ja"
    by (auto simp: settles_run_def Let_def)
  have sound: "sound_record (co_jobs co) (r\<lparr>jr_status := Cancelled\<rparr>)" if "read_job (co_jobs co) (ra_jobs s) ?k None = Inr r" for r
    using read_job_sound [OF assms(1) that] by (simp add: sound_record_def)
  show ?thesis
    using ja unfolding jobs_spared_def settles_job_def by (auto simp: read_stored [OF assms(1) sound])
qed

text \<open>C21: The sweep over the reservations of a team, with all its reads, retries and swallowed errors, implements an
  abstract machine whose only step is the settlement of one filed reservation; it ends without an error for every
  team name; and it loses no job: each file holds the record it held, or the record of a waiting job as cancelled.\<close>

theorem sweep_settles:
  assumes "reconcile_ticket_reservations co team ready views s = (t, out)"
  shows "(settlement co team)\<^sup>*\<^sup>* s t \<and> (out = Inr () \<longleftrightarrow> is_team_id team) \<and>
    (faithful_files (co_jobs co) \<longrightarrow> jobs_spared (co_jobs co) (ra_access s) (ra_access t))"
proof -
  have steps: "(settlement co team)\<^sup>*\<^sup>* s t"
    using assms reconcile_all_settles
    by (auto simp: reconcile_ticket_reservations_def split: if_splits sum.splits)
  have "jobs_spared (co_jobs co) (ra_access s) (ra_access t)" if "faithful_files (co_jobs co)"
    using steps
  proof (induction rule: rtranclp_induct)
    case base
    show ?case by (auto simp: jobs_spared_def intro!: exI [of _ "ra_jobs s"])
  next
    case (step u v)
    then have "jobs_spared (co_jobs co) (ra_access u) (ra_access v)"
      using settles_run_spares [OF that] by (auto simp: settlement_def)
    with step.IH show ?case by (rule jobs_spared_trans)
  qed
  moreover have "out = Inr () \<longleftrightarrow> is_team_id team"
    using assms by (auto simp: reconcile_ticket_reservations_def split: if_splits sum.splits)
  ultimately show ?thesis using steps by blast
qed

section \<open>A run starts only under its reservation\<close>

lemma inspect_run_Inr:
  "inspect_run co mo actor ref s = Inr view \<longleftrightarrow> uc_team_id actor = rf_team_id ref \<and> (\<exists>wb r.
     resolve_binding (co_service co) (mo_initial mo) (rf_team_id ref) (rf_workflow_id ref) = Inr wb \<and>
     sb_binding_id (wb_storage wb) = rf_binding_id ref \<and> read_ticket co (wb_storage wb) ref s = Inr r \<and>
     view = view_of (co_service co) mo wb (mo_initial mo) ref r)"
  by (auto simp: inspect_run_def inspect_ticket_def require_team_access_def validate_actor_def
      require_configured_agent_def read_ticket_def Let_def errE split: if_splits)

text \<open>C22: The preflight of a job succeeds exactly when the job has a ticket target whose board is still bound to the same
  storage with the same context and an available definition, the ticket is still assigned to the agent by the same
  event, and its pending run is the reservation of this job; and then it returns the current view of the ticket.\<close>

theorem preflight_iff:
  "preflight co mo job s = Inr view \<longleftrightarrow> (\<exists>target wb d r p.
     sp_ticket_target (jr_spec job) = Some target \<and>
     resolve_binding (co_service co) (mo_initial mo) (rf_team_id (tg_ref target)) (rf_workflow_id (tg_ref target)) = Inr wb \<and>
     sb_binding_id (wb_storage wb) = sb_binding_id (tg_binding target) \<and>
     rf_binding_id (tg_ref target) = sb_binding_id (tg_binding target) \<and>
     wb_context_digest wb = tg_context_digest target \<and>
     resolve_definition (co_service co) (mo_libraries mo) wb (mo_initial mo) = Inr d \<and>
     read_ticket co (wb_storage wb) (tg_ref target) s = Inr r \<and>
     tk_assignee r = Some (tg_assigned_agent target) \<and>
     latest_assignment_event_id r = tg_assignment_event_id target \<and>
     tk_pending_run r = Some p \<and> rv_job_id p = sp_job_id (jr_spec job) \<and> rv_assignee p = tg_assigned_agent target \<and>
     rv_assignment_event_id p = tg_assignment_event_id target \<and>
     view = \<lparr>vw_record = r, vw_version = Some \<lparr>tv_ref = tg_ref target, tv_revision = tk_revision r,
       tv_workflow_digest = ws_digest d, tv_context_digest = wb_context_digest wb\<rparr>,
       vw_definition = Some (ws_definition d), vw_unavailable = False\<rparr>)"
  (is "_ \<longleftrightarrow> (\<exists>target wb d r p. ?R target wb d r p)")
proof (cases "sp_ticket_target (jr_spec job)")
  case None
  then show ?thesis by (simp add: preflight_def)
next
  case (Some target)
  have chk: "require_reserved job target view0 = Inr view \<longleftrightarrow> view0 = view \<and> (\<exists>v p. vw_version view = Some v \<and>
      tk_assignee (vw_record view) = Some (tg_assigned_agent target) \<and>
      latest_assignment_event_id (vw_record view) = tg_assignment_event_id target \<and>
      tv_context_digest v = tg_context_digest target \<and> rf_binding_id (tv_ref v) = sb_binding_id (tg_binding target) \<and>
      tk_pending_run (vw_record view) = Some p \<and> rv_job_id p = sp_job_id (jr_spec job) \<and>
      rv_assignee p = tg_assigned_agent target \<and> rv_assignment_event_id p = tg_assignment_event_id target)" for view0
    by (cases "vw_version view0"; cases "tk_pending_run (vw_record view0)") (auto simp: require_reserved_def Let_def ensure_def)
  then have pre: "preflight co mo job s = Inr view \<longleftrightarrow> inspect_run co mo \<lparr>uc_team_id = rf_team_id (tg_ref target),
      uc_actor_name = ''ticket-preflight''\<rparr> (tg_ref target) s = Inr view \<and> require_reserved job target view = Inr view"
    by (auto simp: preflight_def Some bindE_eq_Inr)
  let ?sv = "co_service co" and ?m = "mo_initial mo" and ?ref = "tg_ref target"
  show ?thesis
  proof
    assume "preflight co mo job s = Inr view"
    with pre chk [of view] inspect_run_Inr [of co mo _ ?ref s view] obtain wb r v p where
      i: "resolve_binding ?sv ?m (rf_team_id ?ref) (rf_workflow_id ?ref) = Inr wb"
        "sb_binding_id (wb_storage wb) = rf_binding_id ?ref" "read_ticket co (wb_storage wb) ?ref s = Inr r"
      and view: "view = view_of ?sv mo wb ?m ?ref r" and c: "vw_version view = Some v"
        "tk_assignee (vw_record view) = Some (tg_assigned_agent target)"
        "latest_assignment_event_id (vw_record view) = tg_assignment_event_id target"
        "tv_context_digest v = tg_context_digest target" "rf_binding_id (tv_ref v) = sb_binding_id (tg_binding target)"
        "tk_pending_run (vw_record view) = Some p" "rv_job_id p = sp_job_id (jr_spec job)"
        "rv_assignee p = tg_assigned_agent target" "rv_assignment_event_id p = tg_assignment_event_id target"
      by blast
    from view c(1) obtain d where "resolve_definition ?sv (mo_libraries mo) wb ?m = Inr d"
      by (cases "resolve_definition ?sv (mo_libraries mo) wb ?m") (simp_all add: view_of_def)
    with i view c show "\<exists>target wb d r p. ?R target wb d r p"
      by (intro exI [of _ target] exI [of _ wb] exI [of _ d] exI [of _ r] exI [of _ p]) (auto simp: view_of_def Some)
  next
    assume "\<exists>target wb d r p. ?R target wb d r p"
    then obtain target' wb d r p where R: "?R target' wb d r p" by blast
    moreover from R Some have "target' = target" by simp
    ultimately show "preflight co mo job s = Inr view"
      unfolding pre chk inspect_run_Inr by (auto simp: view_of_def)
  qed
qed

section \<open>Reserving is exclusive\<close>

lemma bindS_InrE:
  assumes "bindS m f s = (t, Inr y)"
  obtains u x where "m s = (u, Inr x)" "f x u = (t, Inr y)"
  using assms by (auto simp: bindS_Inr)

lemma bindS_readS_InrE:
  assumes "bindS (readS g) f s = (t, Inr y)"
  obtains x where "g s = Inr x" "f x s = (t, Inr y)"
  using assms by (cases "g s") simp_all

lemma mark_reserved_frame:
  assumes "mark_reserved co rm actor version operation_id target x s = (t, out)"
  shows "ra_access t = ra_access s \<and> ra_reservations t = ra_reservations s"
  using assms by (auto simp: mark_reserved_def Let_def elim: on_storeE)

lemma run_request_Inr:
  "run_request co rm actor ref target job_id s = Inr q \<Longrightarrow> jq_ticket_target q = target \<and>
     jq_agent_name q = tg_assigned_agent target \<and> jq_team_key q = rf_team_id ref \<and> jq_job_id q = job_id"
  unfolding run_request_def by (elim bindE_eq_Inr [THEN iffD1, elim_format] exE conjE) auto

lemma place_reservation_Inr:
  assumes "place_reservation co rm actor version operation_id target x s = (t, Inr plan)"
  shows "ra_access t = ra_access s \<and> pl_reservation plan = x \<and>
    ra_stores t = ra_stores (fst (mark_reserved co rm actor version operation_id target x s)) \<and>
    (pl_handle plan = None \<longrightarrow> (\<exists>q. pl_request plan = Some q \<and> jq_ticket_target q = target \<and>
       jq_agent_name q = tg_assigned_agent target \<and> jq_team_key q = rf_team_id (tv_ref version) \<and> jq_job_id q = rs_job_id x))"
proof -
  let ?plan = "\<lambda>handle request. \<lparr>pl_handle = handle, pl_request = request, pl_ref = tv_ref version,
      pl_assignment_event_id = tg_assignment_event_id target, pl_job_id = rs_job_id x, pl_reservation = x\<rparr>"
  from assms [unfolded place_reservation_def Let_def] obtain u q where
    m: "mark_reserved co rm actor version operation_id target x s = (u, Inr q)"
    and "bindS (set_status co x ''reserved'') (\<lambda>_. bindS (readS (existing_handle co x)) (\<lambda>handle. case handle of
        Some h \<Rightarrow> returnS (?plan (Some h) None)
      | None \<Rightarrow> bindS (readS (run_request co rm actor (tv_ref version) target (rs_job_id x))) (\<lambda>q.
          returnS (?plan None (Some q))))) u = (t, Inr plan)" by (rule bindS_InrE)
  from this(2) obtain v w where w: "set_status co x ''reserved'' u = (v, Inr w)"
    and "bindS (readS (existing_handle co x)) (\<lambda>handle. case handle of
        Some h \<Rightarrow> returnS (?plan (Some h) None)
      | None \<Rightarrow> bindS (readS (run_request co rm actor (tv_ref version) target (rs_job_id x))) (\<lambda>q.
          returnS (?plan None (Some q)))) v = (t, Inr plan)" by (rule bindS_InrE)
  from this(2) obtain h where rest: "(case h of Some h \<Rightarrow> returnS (?plan (Some h) None)
      | None \<Rightarrow> bindS (readS (run_request co rm actor (tv_ref version) target (rs_job_id x))) (\<lambda>q.
          returnS (?plan None (Some q)))) v = (t, Inr plan)" by (rule bindS_readS_InrE)
  have frame: "ra_access v = ra_access s" "ra_stores v = ra_stores u"
    using mark_reserved_frame [OF m] set_status_frame [OF w] by simp_all
  show ?thesis
  proof (cases h)
    case (Some h')
    with rest frame m show ?thesis by auto
  next
    case None
    from rest [unfolded None option.case] obtain q where q: "run_request co rm actor (tv_ref version) target (rs_job_id x) v = Inr q"
      and r: "returnS (?plan None (Some q)) v = (t, Inr plan :: ticket_error + _)" by (rule bindS_readS_InrE)
    then have t: "t = v" and plan: "plan = ?plan None (Some q)" by simp_all
    show ?thesis using run_request_Inr [OF q] frame m by (simp add: t plan)
  qed
qed

lemma may_replace_terminal_pending_True:
  assumes "may_replace_terminal_pending co ref p s = Inr True"
  obtains y r where "read_reservation co (rf_team_id ref) ref (rv_request_id p) s = Inr (Some y)" "rs_job_id y = rv_job_id p"
    "read_job (co_jobs co) (ra_jobs s) (rf_team_id (tg_ref (rs_target y)), rv_job_id p) None = Inr r"
    "jr_status r \<in> set TERMINAL_STATUSES"
proof -
  let ?last = "\<lambda>a. bindE (read_authority (co_jobs co) (ra_root s) (ra_jobs s) a) (\<lambda>r. Inr (jr_status r \<in> set TERMINAL_STATUSES))"
  from assms obtain found where f: "read_reservation co (rf_team_id ref) ref (rv_request_id p) s = Inr found"
    and rest: "(case found of None \<Rightarrow> Inr False | Some x \<Rightarrow> if rs_job_id x \<noteq> rv_job_id p then Inr False
      else bindE (verify_existing_job co x s) (\<lambda>authority. case authority of None \<Rightarrow> Inr False | Some a \<Rightarrow> ?last a)) = Inr True"
    unfolding may_replace_terminal_pending_def bindE_eq_Inr [of "read_reservation _ _ _ _ _"] by blast
  from rest obtain y where y: "found = Some y" "rs_job_id y = rv_job_id p"
    and rest: "bindE (verify_existing_job co y s) (\<lambda>authority. case authority of None \<Rightarrow> Inr False | Some a \<Rightarrow> ?last a) = Inr True"
    by (cases found) (simp_all split: if_splits)
  from rest obtain v where "verify_existing_job co y s = Inr v" "(case v of None \<Rightarrow> Inr False | Some a \<Rightarrow> ?last a) = Inr True"
    unfolding bindE_eq_Inr [of "verify_existing_job _ _ _"] by blast
  then obtain a where a: "verify_existing_job co y s = Inr (Some a)" and "?last a = Inr True"
    by (cases v) simp_all
  then obtain r where r: "read_authority (co_jobs co) (ra_root s) (ra_jobs s) a = Inr r" "jr_status r \<in> set TERMINAL_STATUSES"
    by (auto simp: bindE_eq_Inr)
  from a obtain r' where "read_authority (co_jobs co) (ra_root s) (ra_jobs s) a = Inr r'"
    "read_job (co_jobs co) (ra_jobs s) (rf_team_id (tg_ref (rs_target y)), rs_job_id y) None = Inr r'"
    by (rule verify_existing_job_Some)
  with f y r show thesis using that by simp
qed

lemma enter_run_Inr:
  assumes "enter_run co rm version s = Inr (snapshot, binding, cur, target)"
  shows "read_ticket co (tg_binding target) (tv_ref version) s = Inr cur \<and> tk_active_run cur = None \<and>
    tk_assignee cur = Some (tg_assigned_agent target) \<and> latest_assignment_event_id cur = tg_assignment_event_id target \<and>
    tg_ref target = tv_ref version \<and> tg_binding target = wb_storage binding \<and>
    tg_context_digest target = wb_context_digest binding \<and> validate_target target = Inr () \<and>
    require_ticket_capable_assignee co snapshot (rf_team_id (tv_ref version)) (tg_assigned_agent target) = Inr ()"
  using assms by (auto simp: enter_run_def Let_def errE split: option.splits)

lemma reservation_state_Inr:
  assumes "reservation_state co actor version operation_id digest target existing = Inr x"
  shows "existing = None \<and> rs_job_id x = reserved_job_id co (tv_ref version) operation_id \<and> rs_target x = target \<and>
      rs_operation_id x = operation_id \<and> rs_authority_digest x = None \<or>
    existing = Some x \<and> rs_request_digest x = digest \<and> rs_actor_team_id x = uc_team_id actor \<and>
      rs_actor_name x = uc_actor_name actor"
  using assms by (auto simp: reservation_state_def split: option.splits if_splits)

text \<open>A new reservation is looked up in vain, so its ticket is marked as it was found.\<close>

lemma replay_handle_new:
  assumes "replay_handle co config now target cur x s = (u, Inr h)" "rs_authority_digest x = None"
    and "read_reservation co (rf_team_id (tg_ref (rs_target x))) (tg_ref (rs_target x)) (rs_operation_id x) s = Inr None"
  shows "u = s"
proof -
  have "reconcile_pending_submission co config now (rf_team_id (tg_ref (rs_target x))) (tg_ref (rs_target x))
      (rs_operation_id x) s = (s, Inr None)"
    using assms(3) by (simp add: reconcile_pending_submission_def)
  then have "replay_handle co config now target cur x s = (s, Inr None)"
    using assms(2) by (simp add: replay_handle_def Let_def existing_handle_def bindS_def [of "reconcile_pending_submission _ _ _ _ _ _"])
  with assms(1) show ?thesis by simp
qed

lemma place_reservation_marks:
  assumes "place_reservation co rm actor version operation_id target x s = (t, Inr plan)"
    and "read_ticket co (tg_binding target) (tv_ref version) s = Inr cur"
    and "find_receipt cur (''ticket-run-'' @ operation_id) = None" "rs_target x = target"
  shows "pending_write (co_provider co (tg_binding target)) (tv_ref version) ''ticket-run-reserved'' cur
    (Some (own_reservation x)) (ra_stores s (place (tg_binding target))) (ra_stores t (place (tg_binding target)))"
proof -
  let ?m = "mark_reserved co rm actor version operation_id target x s"
  from assms(1) obtain q where "snd ?m = Inr q"
    unfolding place_reservation_def Let_def by (elim bindS_InrE) simp
  then obtain st where a: "apply_op (co_provider co (tg_binding target)) (mo_stored_at (rm_moment rm)) (tv_ref version)
        (tv_revision version) (reservation_operation co (uc_team_id actor) version operation_id (rs_job_id x))
        (\<lambda>r. liftS (Inr (apply_pending_mutation (uc_actor_name actor) ''ticket-run-reserved'' ''Ticket run reserved''
           (Some (own_reservation x)) r))) (ra_stores s (place (tg_binding target))) = (st, Inr q)"
    and st: "ra_stores (fst ?m) (place (tg_binding target)) = st"
    using assms(4) by (auto simp: mark_reserved_def Let_def on_store_def own_reservation_def split: prod.splits)
  from pending_applied_Inr [OF a] assms(2,3) show ?thesis
    using place_reservation_Inr [OF assms(1)] st
    by (auto simp: read_ticket_def reservation_operation_def pending_write_def)
qed


section \<open>A repeated request\<close>

text \<open>The receipt of the first reservation answers a repeated one, so a ticket that was released in between is
  not marked again, and no job for it passes the preflight.\<close>

lemma repeated_mark_unchanged:
  assumes "read_ticket co (tg_binding target) (tv_ref version) s = Inr cur"
    and "find_receipt cur (''ticket-run-'' @ operation_id) = Some rc"
  shows "ra_stores (fst (mark_reserved co rm actor version operation_id target x s)) = ra_stores s"
proof -
  let ?b = "tg_binding target"
  have "fst (apply_op (co_provider co ?b) now (tv_ref version) n
      (reservation_operation co team version operation_id job) m (ra_stores s (place ?b))) = ra_stores s (place ?b)"
    (is "fst (?apply) = _") for now n team job m
  proof (cases ?apply)
    case (Pair st out)
    with assms show ?thesis
      by (cases out) (auto simp: read_ticket_def reservation_operation_def elim!: apply_op_Inr apply_op_Inl)
  qed
  then show ?thesis by (simp add: mark_reserved_def Let_def on_store_def split_beta)
qed

lemma repeated_run_not_reserved:
  assumes "place_reservation co rm actor version operation_id target x s = (t, Inr plan)"
    and "read_ticket co (tg_binding target) (tv_ref version) s = Inr cur"
    and "find_receipt cur (''ticket-run-'' @ operation_id) = Some rc" "tk_pending_run cur = None"
    and "sp_ticket_target (jr_spec job) = Some target" "tg_ref target = tv_ref version"
    and "resolve_binding (co_service co) (mo_initial mo) (rf_team_id (tv_ref version)) (rf_workflow_id (tv_ref version)) = Inr wb"
    and "wb_storage wb = tg_binding target"
  shows "preflight co mo job t \<noteq> Inr view"
proof
  assume "preflight co mo job t = Inr view"
  then obtain r p where "read_ticket co (tg_binding target) (tv_ref version) t = Inr r" "tk_pending_run r = Some p"
    unfolding preflight_iff using assms(5-8) by auto
  moreover have "ra_stores t = ra_stores s"
    using place_reservation_Inr [OF assms(1)] repeated_mark_unchanged [OF assms(2,3)] by simp
  ultimately show False using assms(2,4) by (simp add: read_ticket_def)
qed

text \<open>A reservation keeps the target it was first made for; once the ticket is assigned anew, a job submitted for
  the repeated request never verifies against it, and every reconciliation of it raises.\<close>

lemma mismatched_job_refused:
  assumes "read_job (co_jobs co) (ra_jobs s) (rf_team_id (tg_ref (rs_target x)), rs_job_id x) None = Inr r"
    and "sp_ticket_target (jr_spec r) \<noteq> Some (rs_target x)"
  shows "\<exists>e. reconcile_pending co config now x clear s = (s, Inl e)"
proof -
  have "\<not> (\<exists>a. verify_existing_job co x s = Inr (Some a))"
  proof
    assume "\<exists>a. verify_existing_job co x s = Inr (Some a)"
    then obtain a r' where "read_job (co_jobs co) (ra_jobs s) (rf_team_id (tg_ref (rs_target x)), rs_job_id x) None = Inr r'"
      "require_job_matches r' x = Inr ()" by (auto elim: verify_existing_job_Some)
    with assms show False by (simp add: require_job_matches_def Let_def errE)
  qed
  moreover have "verify_existing_job co x s \<noteq> Inr None"
    using assms(1) by (auto simp: verify_existing_job_def Let_def errE read_job_def job_path_def split: if_splits option.splits)
  ultimately obtain e where "verify_existing_job co x s = Inl e"
    by (cases "verify_existing_job co x s") (metis option.exhaust, auto)
  then show ?thesis by (simp add: reconcile_pending_def)
qed

section \<open>Reservation files keep reservations\<close>

lemma recovery_roundtrip: "recovery_of_json (recovery_json x) = Inr x"
  by (simp add: recovery_of_json_def recovery_json_def kwargs_def strict_string_def)

lemma reservation_roundtrip:
  assumes "canonical_target ids (rs_target x)" "validate_target (rs_target x) = Inr ()"
  shows "reservation_of_json ids (reservation_json x) = Inr x"
proof -
  have "optional recovery_of_json (opt_json recovery_json (rs_recovery x)) = Inr (rs_recovery x)"
    by (cases "rs_recovery x") (simp_all add: optional_def opt_json_def recovery_roundtrip, simp add: recovery_json_def)
  then show ?thesis
    using target_roundtrip [OF assms]
    by (cases x) (simp add: reservation_of_json_def reservation_json_def kwargs_def RESERVATION_REQUIRED_def
        RESERVATION_OPTIONAL_def strict_string_def get_or_def)
qed

text \<open>A reservation that was written is read back under its operation as it was written, and every other one is
  found as before.\<close>

theorem reservation_durable:
  assumes "canonical_target (sv_ids (co_service co)) (rs_target x)" "validate_target (rs_target x) = Inr ()"
    and "write_reservation co x s = (t, Inr u)"
  shows "read_reservation co (rf_team_id (tg_ref (rs_target x))) (tg_ref (rs_target x)) (rs_operation_id x) t = Inr (Some x) \<and>
    (\<forall>team ref operation_id. (team, reservation_key co ref operation_id) \<noteq> own_key co x \<longrightarrow>
       read_reservation co team ref operation_id t = read_reservation co team ref operation_id s)"
  using assms(3) reservation_roundtrip [OF assms(1,2)]
  by (auto simp: write_reservation_def read_reservation_def reservation_path_def reservation_root_def load_reservation_def
      own_key_def Let_def errE update_conv' bindE_def ensure_def split: sum.splits if_splits)

end
