(* ===== verification/RunScenarios.thy ===== *)
theory RunScenarios
  imports ReservationSafety TicketScenarios JobScenarios
begin

text \<open>
  A user asks to run a ticket of the demonstration board: the request is reserved, filed and, as no job came of it,
  taken back. Each scenario discharges the hypotheses of one property of runs.
\<close>

section \<open>A ticket that can be run\<close>

definition run_ids :: identities where
  "run_ids = demo_ids\<lparr>id_context := \<lambda>_. replicate 64 CHR ''0''\<rparr>"

definition run_ticket :: ticket_record where
  "run_ticket = demo_ticket\<lparr>tk_assignee := Some ''ann'', tk_events := [\<lparr>te_id = ''a1'', te_kind = ''assigned'',
     te_actor = ''pat'', te_summary = ''Ticket assignment changed'', te_data = [], te_at = Some 1\<rparr>]\<rparr>"

definition run_pending :: run_reservation where
  "run_pending = \<lparr>rv_job_id = ''j9'', rv_request_id = ''q1'', rv_assignee = ''ann'', rv_assignment_event_id = ''a1''\<rparr>"

definition run_operation :: ticket_operation where
  "run_operation = \<lparr>op_id = ''ticket-run-q1'', op_request_digest = ''d''\<rparr>"

text \<open>The ticket as it is reserved and as it is released, with the results of both changes.\<close>

definition run_changed :: "string \<Rightarrow> string \<Rightarrow> string \<Rightarrow> run_reservation option \<Rightarrow> ticket_operation \<Rightarrow> ticket_record \<Rightarrow>
    ticket_record \<times> mutation_result" where
  "run_changed actor kind summary pending op r =
     (case commit_operation (\<lambda>_. ''u'') (apply_pending_mutation actor kind summary pending r) r op 10 of
        Inr x \<Rightarrow> x | Inl _ \<Rightarrow> demo_seal)"

definition run_marked :: "ticket_record \<times> mutation_result" where
  "run_marked = run_changed ''pat'' ''ticket-run-reserved'' ''Ticket run reserved'' (Some run_pending) run_operation run_ticket"

definition run_release :: ticket_operation where
  "run_release = \<lparr>op_id = ''reconcile-j9-missing'', op_request_digest = ''d''\<rparr>"

definition run_released :: "ticket_record \<times> mutation_result" where
  "run_released = run_changed ''system'' ''ticket-run-reconciled'' ''Ticket run reservation reconciled'' None run_release
     (fst run_marked)"

definition run_provider :: provider where
  "run_provider = demo_provider\<lparr>pr_load := \<lambda>s.
     if s = [newline] @ ''one'' @ [newline] then YamlMapping True (Some (envelope run_ticket))
     else if s = [newline] @ ''two'' @ [newline] then YamlMapping True (Some (envelope (fst run_marked))) else YamlError\<rparr>"

definition run_storage :: "ticket_record \<Rightarrow> storage" where
  "run_storage r = demo_storage\<lparr>fs_docs := [(doc_key demo_ref, TextFile (serialize run_provider r))]\<rparr>"

lemma run_commits:
  "commit_operation (pr_uuid run_provider) (apply_pending_mutation ''pat'' ''ticket-run-reserved'' ''Ticket run reserved''
     (Some run_pending) run_ticket) run_ticket run_operation 10 = Inr run_marked"
  "commit_operation (pr_uuid run_provider) (apply_pending_mutation ''system'' ''ticket-run-reconciled''
     ''Ticket run reservation reconciled'' None (fst run_marked)) (fst run_marked) run_release 10 = Inr run_released"
  by code_simp+

lemma run_codec:
  "codec_ok run_provider run_ticket" "marker_free run_provider run_ticket"
  "codec_ok run_provider (fst run_marked)" "marker_free run_provider (fst run_marked)"
  by code_simp+

lemma run_lengths:
  "utf8_len (serialize run_provider run_ticket) \<le> MAX_TICKET_BYTES"
  "utf8_len (serialize run_provider (fst run_marked)) \<le> MAX_TICKET_BYTES"
  "utf8_len (serialize run_provider (fst run_released)) \<le> MAX_TICKET_BYTES"
proof -
  have "utf8_len (serialize run_provider run_ticket) = 18" "utf8_len (serialize run_provider (fst run_marked)) = 18"
    "utf8_len (serialize run_provider (fst run_released)) = 18" by code_simp+
  then show "utf8_len (serialize run_provider run_ticket) \<le> MAX_TICKET_BYTES"
    "utf8_len (serialize run_provider (fst run_marked)) \<le> MAX_TICKET_BYTES"
    "utf8_len (serialize run_provider (fst run_released)) \<le> MAX_TICKET_BYTES"
    by (simp_all add: MAX_TICKET_BYTES_def)
qed

lemma run_guards:
  "guard_ref run_provider (run_storage r) demo_ref = Inr ()"
  "require_safe_metadata (run_storage r) (rf_team_id demo_ref) (rf_workflow_id demo_ref) (rf_ticket_id demo_ref @ ''.lock'') = Inr ()"
  "doc_at (run_storage r) demo_ref = TextFile (serialize run_provider r)"
  "ticket_path demo_ref \<notin> set (fs_readonly (run_storage r))"
  using demo_guards(2,3) guard_ref_docs [where p = demo_provider and st = demo_storage and ref = demo_ref]
  by (simp_all add: guard_ref_def verify_binding_def run_provider_def run_storage_def doc_at_def
      require_safe_metadata_def walk_no_reparse_def) (simp add: demo_storage_def)

lemma run_read:
  "read run_provider (run_storage run_ticket) demo_ref = Inr run_ticket"
  "read run_provider (run_storage (fst run_marked)) demo_ref = Inr (fst run_marked)"
proof -
  have "stored_description (tk_description run_ticket) = tk_description run_ticket" "tk_ref run_ticket = Some demo_ref"
    "stored_description (tk_description (fst run_marked)) = tk_description (fst run_marked)"
    "tk_ref (fst run_marked) = Some demo_ref" by code_simp+
  then show "read run_provider (run_storage run_ticket) demo_ref = Inr run_ticket"
    "read run_provider (run_storage (fst run_marked)) demo_ref = Inr (fst run_marked)"
    using read_document [OF run_guards(3) run_codec(1,2) _ run_lengths(1) run_guards(1)]
      read_document [OF run_guards(3) run_codec(3,4) _ run_lengths(2) run_guards(1)] by simp_all
qed

lemma run_fields:
  "find_receipt run_ticket (op_id run_operation) = None" "tk_revision run_ticket = 1"
  "find_receipt (fst run_marked) (op_id run_release) = None" "tk_revision (fst run_marked) = 2"
  "tk_pending_run (fst run_marked) = Some run_pending" "tk_pending_run run_ticket = None" "tk_active_run run_ticket = None"
  "tk_assignee run_ticket = Some ''ann''" "latest_assignment_event_id run_ticket = ''a1''" "tk_ref run_ticket = Some demo_ref"
  "require_same_identity run_ticket (apply_pending_mutation ''pat'' ''ticket-run-reserved'' ''Ticket run reserved''
     (Some run_pending) run_ticket) = Inr ()"
  "require_same_identity (fst run_marked) (apply_pending_mutation ''system'' ''ticket-run-reconciled''
     ''Ticket run reservation reconciled'' None (fst run_marked)) = Inr ()"
  by code_simp+

lemma run_stored: "(run_storage r)\<lparr>fs_docs := AList.update (doc_key demo_ref) (TextFile (serialize run_provider r'))
     (fs_docs (run_storage r))\<rparr> = run_storage r'"
  by (simp add: run_storage_def)

lemma run_applied:
  "apply_op run_provider 10 demo_ref 1 run_operation (\<lambda>r. liftS (Inr (apply_pending_mutation ''pat'' ''ticket-run-reserved''
     ''Ticket run reserved'' (Some run_pending) r))) (run_storage run_ticket) =
     (run_storage (fst run_marked), Inr (snd run_marked))"
  "apply_op run_provider 10 demo_ref 2 run_release (\<lambda>r. liftS (Inr (apply_pending_mutation ''system'' ''ticket-run-reconciled''
     ''Ticket run reservation reconciled'' None r))) (run_storage (fst run_marked)) =
     (run_storage (fst run_released), Inr (snd run_released))"
proof -
  note marks = apply_new [OF run_read(1) run_fields(1,2) run_guards(2) _ run_fields(11) _ run_lengths(2) run_guards(4)]
  note releases = apply_new [OF run_read(2) run_fields(3,4) run_guards(2) _ run_fields(12) _ run_lengths(3) run_guards(4)]
  show "apply_op run_provider 10 demo_ref 1 run_operation (\<lambda>r. liftS (Inr (apply_pending_mutation ''pat'' ''ticket-run-reserved''
     ''Ticket run reserved'' (Some run_pending) r))) (run_storage run_ticket) = (run_storage (fst run_marked), Inr (snd run_marked))"
    by (rule trans [OF marks]) (use run_commits(1) in \<open>simp_all add: run_stored\<close>)
  show "apply_op run_provider 10 demo_ref 2 run_release (\<lambda>r. liftS (Inr (apply_pending_mutation ''system'' ''ticket-run-reconciled''
     ''Ticket run reservation reconciled'' None r))) (run_storage (fst run_marked)) =
     (run_storage (fst run_released), Inr (snd run_released))"
    by (rule trans [OF releases]) (use run_commits(2) in \<open>simp_all add: run_stored\<close>)
qed

section \<open>A request\<close>

definition run_service :: service where
  "run_service = (demo_service demo_ticket)\<lparr>sv_ids := run_ids, sv_provider := \<lambda>_. run_provider\<rparr>"

definition run_coordinator :: coordinator where
  "run_coordinator = \<lparr>co_service = run_service, co_jobs = example_tools\<lparr>jt_ids := run_ids\<rparr>, co_config_path = ''flowgency.yaml'',
     co_submitter = \<lambda>_. raiseS osError, co_sha = \<lambda>_. ''d'', co_uuid5 = \<lambda>_. ''j9'', co_message = \<lambda>_. ''unavailable'',
     co_integration = \<lambda>_ _ _. ''copilot'', co_registry = \<lambda>_. Some \<lparr>ia_supports_execution = True, ia_live_ticket_transport = Some ''mcp''\<rparr>,
     co_yaml = \<lambda>_. ''ticket'', co_definition_yaml = \<lambda>_. ''workflow''\<rparr>"

definition run_at :: run_moment where
  "run_at = \<lparr>rm_moment = demo_moment, rm_replay_config = Some demo_config, rm_replay_now = 10, rm_inspect = demo_moment,
     rm_after_config = Some demo_config, rm_after_now = 10\<rparr>"

definition run_binding :: workflow_binding where
  "run_binding = demo_binding\<lparr>wb_context_digest := replicate 64 CHR ''0''\<rparr>"

definition run_version :: ticket_version where
  "run_version = demo_version\<lparr>tv_context_digest := replicate 64 CHR ''0''\<rparr>"

definition run_target :: job_target where
  "run_target = \<lparr>tg_binding = wb_storage run_binding, tg_ref = demo_ref, tg_assigned_agent = ''ann'',
     tg_assignment_event_id = ''a1'', tg_context_digest = replicate 64 CHR ''0''\<rparr>"

definition run_reserved :: durable_reservation where
  "run_reserved = \<lparr>rs_schema_version = 1, rs_operation_id = ''q1'', rs_request_digest = ''d'', rs_actor_team_id = ''t'',
     rs_actor_name = ''pat'', rs_original_revision = 1, rs_job_id = ''j9'', rs_target = run_target, rs_authority_digest = None,
     rs_status = ''reserved'', rs_recovery = None\<rparr>"

definition run_files :: "ticket_record \<Rightarrow> (string \<times> string, reservation_file) dict \<Rightarrow> run_area" where
  "run_files r files = \<lparr>ra_stores = \<lambda>_. run_storage r, ra_access = \<lparr>aa_root = ''/jobs'', aa_jobs =
       \<lparr>ja_files = [], ja_readonly = [], ja_escapes = []\<rparr>, aa_registries = [], aa_links = [], aa_readonly = []\<rparr>,
     ra_reservations = files, ra_linked_roots = [], ra_linked_files = [], ra_readonly = []\<rparr>"

abbreviation run_file :: "(string \<times> string, reservation_file) dict" where
  "run_file \<equiv> [((''t'', ''d''), ReservationData (reservation_json run_reserved))]"

lemma run_computed:
  "resolve_workflow_binding run_ids demo_config ''t'' ''w'' = Inr run_binding"
  "validate_target run_target = Inr ()" "canonical_target run_ids run_target" "is_team_id ''t''" "is_job_id ''j9''"
  "require_ticket_capable_assignee run_coordinator demo_config ''t'' ''ann'' = Inr ()"
  "wb_blueprint_id run_binding = ''wf''" "tv_ref run_version = demo_ref" "rf_team_id demo_ref = ''t''"
  "rf_workflow_id demo_ref = ''w''" "reservation_key run_coordinator ref op = ''d''"
  "tv_revision run_version = 1" "tv_workflow_digest run_version = ''new''" "rf_binding_id demo_ref = ''b''"
  "require_current_version run_binding run_version = Inr ()" "sb_binding_id (wb_storage run_binding) = ''b''"
  by code_simp+

lemma run_parts:
  "co_service run_coordinator = run_service" "sv_ids run_service = run_ids" "sv_provider run_service b = run_provider"
  "sv_tools run_service = demo_tools" "co_sha run_coordinator j = ''d''" "co_uuid5 run_coordinator u = ''j9''"
  "co_jobs run_coordinator = example_tools\<lparr>jt_ids := run_ids\<rparr>"
  "rs_target run_reserved = run_target" "rs_operation_id run_reserved = ''q1''" "rs_job_id run_reserved = ''j9''"
  "rs_authority_digest run_reserved = None" "tg_ref run_target = demo_ref" "tg_binding run_target = wb_storage run_binding"
  "tg_assigned_agent run_target = ''ann''" "tg_assignment_event_id run_target = ''a1''"
  "uc_team_id demo_user = ''t''" "uc_actor_name demo_user = ''pat''"
  by (simp_all add: run_coordinator_def run_service_def demo_service_def run_reserved_def run_target_def demo_user_def)

lemma run_area_parts:
  "ra_stores (run_files r files) p = run_storage r" "ra_reservations (run_files r files) = files"
  "ra_linked_roots (run_files r files) = []" "ra_linked_files (run_files r files) = []" "ra_readonly (run_files r files) = []"
  "ra_jobs (run_files r files) = \<lparr>ja_files = [], ja_readonly = [], ja_escapes = []\<rparr>"
  by (simp_all add: run_files_def)

lemma run_write:
  assumes "rs_target x = run_target" "ra_linked_roots s = []" "ra_linked_files s = []" "ra_readonly s = []"
  shows "write_reservation run_coordinator x s =
    (s\<lparr>ra_reservations := AList.update (''t'', ''d'') (ReservationData (reservation_json x)) (ra_reservations s)\<rparr>, Inr ())"
  using run_computed(4) assms by (simp add: write_reservation_def reservation_path_def reservation_root_def
      run_parts run_computed(9,11) bindS_def)

lemma run_filed:
  "read_reservation run_coordinator ''t'' demo_ref op (run_files r run_file) = Inr (Some run_reserved)"
  "read_reservation run_coordinator ''t'' demo_ref op (run_files r []) = Inr None"
  using run_computed(4) reservation_roundtrip [of run_ids run_reserved] run_computed(2,3)
  by (simp_all add: read_reservation_def reservation_path_def reservation_root_def run_area_parts run_computed(11)
      load_reservation_def run_parts)

theorem reservation_durable_witness:
  "read_reservation run_coordinator ''t'' demo_ref ''q1'' (run_files run_ticket run_file) = Inr (Some run_reserved)"
proof -
  have "write_reservation run_coordinator run_reserved (run_files run_ticket []) = (run_files run_ticket run_file, Inr ())"
    by (simp add: run_write run_parts run_area_parts) (simp add: run_files_def)
  from reservation_durable [OF _ _ this] show ?thesis
    using run_computed by (simp add: run_parts)
qed

section \<open>No job came of it\<close>

lemma run_no_job:
  assumes "ra_jobs s = \<lparr>ja_files = [], ja_readonly = [], ja_escapes = []\<rparr>"
  shows "verify_existing_job run_coordinator run_reserved s = Inr None"
  using run_computed(4,5) assms by (simp add: verify_existing_job_def run_parts run_computed(9) job_path_def job_file_at_def)

lemma run_read_ticket:
  "read_ticket run_coordinator b demo_ref (run_files run_ticket files) = Inr run_ticket"
  "read_ticket run_coordinator b demo_ref (run_files (fst run_marked) files) = Inr (fst run_marked)"
  by (simp_all add: read_ticket_def run_parts run_area_parts run_read)

definition run_after :: run_area where
  "run_after = (run_files (fst run_marked)
     [((''t'', ''d''), ReservationData (reservation_json (run_reserved\<lparr>rs_status := ''retryable''\<rparr>)))])\<lparr>
       ra_stores := (\<lambda>_. run_storage (fst run_marked))(place (wb_storage run_binding) := run_storage (fst run_released))\<rparr>"

lemma run_reconciled:
  "reconcile_pending run_coordinator None 10 run_reserved True (run_files (fst run_marked) run_file) = (run_after, Inr ())"
proof -
  have "holds_pending (fst run_marked) ''j9''" by (simp add: holds_pending_def run_fields run_pending_def)
  moreover have "reconcile_operation run_coordinator demo_ref ''j9'' ''a1'' ''missing'' = run_release"
    by (simp add: reconcile_operation_def run_release_def run_parts)
  ultimately show ?thesis
    using run_applied(2)
    by (simp add: reconcile_pending_def run_no_job run_area_parts link_job_def run_parts when_available_def run_read_ticket
        set_pending_def run_fields on_store_def set_status_def run_write)
      (simp add: run_after_def run_files_def run_reserved_def)
qed


theorem sweep_settles_witness:
  "\<exists>t. reconcile_ticket_reservations run_coordinator ''t'' True (\<lambda>_. (None, 10)) (run_files (fst run_marked) run_file) = (t, Inr ()) \<and>
     (settlement run_coordinator ''t'')\<^sup>*\<^sup>* (run_files (fst run_marked) run_file) t"
proof -
  obtain t out where t: "reconcile_ticket_reservations run_coordinator ''t'' True (\<lambda>_. (None, 10))
      (run_files (fst run_marked) run_file) = (t, out)" by fastforce
  from sweep_settles [OF t] run_computed(4) t show ?thesis by auto
qed

section \<open>The request accepted\<close>

lemma run_moments: "mo_initial demo_moment = demo_config" "mo_area demo_moment = demo_area" "mo_before demo_moment = demo_config"
  "mo_locked demo_moment = demo_config" "mo_stored_at demo_moment = 10" "mo_libraries demo_moment l = demo_published"
  "rm_moment run_at = demo_moment" "rm_inspect run_at = demo_moment"
  by (simp_all add: demo_moment_def run_at_def)

lemma run_bound: "resolve_binding run_service demo_config ''t'' ''w'' = Inr run_binding"
  by (simp add: resolve_binding_def run_parts run_computed)

lemma run_defined: "resolve_definition run_service (\<lambda>_. demo_published) run_binding demo_config = Inr demo_snapshot"
proof -
  have "cs_library demo_config = Some ''lib''" by code_simp
  then show ?thesis by (simp add: resolve_definition_def run_computed run_parts demo_inspected)
qed

lemma run_target_current: "\<lparr>tg_binding = wb_storage run_binding, tg_ref = demo_ref, tg_assigned_agent = ''ann'',
    tg_assignment_event_id = ''a1'', tg_context_digest = wb_context_digest run_binding\<rparr> = run_target"
  by (simp add: run_target_def run_binding_def)

lemma run_entered:
  "enter_run run_coordinator run_at run_version (run_files run_ticket []) = Inr (demo_config, run_binding, run_ticket, run_target)"
  using run_computed(2)
  by (simp add: enter_run_def Let_def run_moments run_parts run_computed run_bound demo_operation run_read_ticket run_fields
      run_target_current)

lemma run_fresh: "require_new_request_freshness run_coordinator run_at demo_config run_binding run_ticket run_version = Inr ()"
proof -
  have "mo_libraries demo_moment = (\<lambda>_. demo_published)" "ws_digest demo_snapshot = ''new''"
    by (simp_all add: demo_moment_def demo_snapshot_def)
  then show ?thesis
    by (simp add: require_new_request_freshness_def run_computed run_fields run_moments run_parts run_defined)
qed

definition run_marked_area :: run_area where
  "run_marked_area = (run_files run_ticket run_file)\<lparr>ra_stores :=
     (\<lambda>_. run_storage run_ticket)(place (wb_storage run_binding) := run_storage (fst run_marked))\<rparr>"

lemma run_mark:
  "mark_reserved run_coordinator run_at demo_user run_version ''q1'' run_target run_reserved (run_files run_ticket []) =
     (run_marked_area\<lparr>ra_reservations := []\<rparr>, Inr (snd run_marked))"
proof -
  have op: "reservation_operation run_coordinator ''t'' run_version ''q1'' ''j9'' = run_operation"
    by (simp add: reservation_operation_def run_operation_def run_parts)
  have pending: "\<lparr>rv_job_id = ''j9'', rv_request_id = ''q1'', rv_assignee = ''ann'', rv_assignment_event_id = ''a1''\<rparr> = run_pending"
    by (simp add: run_pending_def)
  show ?thesis
    using run_applied(1)
    by (simp add: mark_reserved_def on_store_def run_parts run_computed run_moments op pending run_area_parts)
      (simp add: run_marked_area_def run_files_def)
qed

lemma run_asked: "\<exists>q. run_request run_coordinator run_at demo_user demo_ref run_target ''j9'' run_marked_area = Inr q"
proof -
  let ?st = "run_storage (fst run_marked)"
  have st: "ra_stores run_marked_area (place (wb_storage run_binding)) = ?st" by (simp add: run_marked_area_def)
  have libs: "mo_libraries demo_moment = (\<lambda>_. demo_published)" by (simp add: demo_moment_def)
  have "inspect_run run_coordinator demo_moment demo_user demo_ref run_marked_area =
      Inr (view_of run_service demo_moment run_binding demo_config demo_ref (fst run_marked))"
    by (simp add: inspect_run_def require_team_access_def run_parts run_computed run_moments run_bound st inspect_ticket_def
        validate_actor_def require_configured_agent_def run_read)
  then show ?thesis
    by (simp add: run_request_def run_moments view_of_def libs run_defined ticket_task_input_def Let_def)
qed


end
