(* ===== verification/LaunchMemory.thy ===== *)
theory LaunchMemory
  imports MemoryRecovery TicketRuns
begin

text \<open>
  What an agent is given to run in, \<^verbatim>\<open>flowgency/jobs/launch_view.py\<close> and \<^verbatim>\<open>flowgency/memory/launch.py\<close>: a
  private copy of its instructions, and the files of its memory, which come back to the stage of a publication when
  the agent has ended. The world of a worker is the tree of the memory store with the job files, the tree that holds
  the launch view, the logs, and the ticket storages with their sessions and reservations.
\<close>

section \<open>The world of a worker\<close>

record worker_world =
  ww_memory :: memory_area
  ww_view :: disk
  ww_logs :: disk
  ww_runs :: run_area

type_synonym ('x, 'a) work = "('x worker_world_scheme, failure, 'a) op"

definition on_memory :: "'a mem_op \<Rightarrow> ('x, 'a) work" where
  "on_memory m s = (case m (ww_memory s) of (u, out) \<Rightarrow> (s\<lparr>ww_memory := u\<rparr>, out))"

definition on_view :: "(disk, failure, 'a) op \<Rightarrow> ('x, 'a) work" where
  "on_view m s = (case m (ww_view s) of (u, out) \<Rightarrow> (s\<lparr>ww_view := u\<rparr>, out))"

definition on_logs :: "(disk, failure, 'a) op \<Rightarrow> ('x, 'a) work" where
  "on_logs m s = (case m (ww_logs s) of (u, out) \<Rightarrow> (s\<lparr>ww_logs := u\<rparr>, out))"

text \<open>The job files of the ticket operations are the job files of the memory operations.\<close>

definition runs_of :: "'x worker_world_scheme \<Rightarrow> run_area" where
  "runs_of s = (ww_runs s)\<lparr>ra_access := (ra_access (ww_runs s))\<lparr>aa_jobs := ma_jobs (ww_memory s)\<rparr>\<rparr>"

definition on_runs :: "(run_area, ticket_error, 'a) op \<Rightarrow> ('x, 'a) work" where
  "on_runs m s = (case m (runs_of s) of
     (u, out) \<Rightarrow> (s\<lparr>ww_runs := u, ww_memory := (ww_memory s)\<lparr>ma_jobs := ra_jobs u\<rparr>\<rparr>, mapErr Failure out))"

definition on_access :: "(access_area, ticket_error, 'a) op \<Rightarrow> (run_area, ticket_error, 'a) op" where
  "on_access m s = (case m (ra_access s) of (u, out) \<Rightarrow> (s\<lparr>ra_access := u\<rparr>, out))"

abbreviation failS :: "ticket_error \<Rightarrow> ('s, failure, 'a) op" where "failS e \<equiv> raiseS (Failure e)"
abbreviation tryliftS :: "ticket_error + 'a \<Rightarrow> ('s, failure, 'a) op" where "tryliftS m \<equiv> liftS (mapErr Failure m)"

definition lookD :: "(node \<Rightarrow> ticket_error + 'a) \<Rightarrow> (disk, failure, 'a) op" where
  "lookD f = readS (\<lambda>s. mapErr Failure (f (dk_root s)))"

section \<open>Zones of a launch view\<close>

definition ZONE_INSTRUCTIONS :: path where "ZONE_INSTRUCTIONS = [''instructions'']"
definition ZONE_OUTBOX :: path where "ZONE_OUTBOX = [''.flowgency'', ''outbox'']"
definition ZONE_MEMORY :: path where "ZONE_MEMORY = [''.flowgency'', ''memory'']"

definition MAX_MEMORY_FILES :: nat where "MAX_MEMORY_FILES = 20"
definition MAX_MEMORY_FILE_BYTES :: nat where "MAX_MEMORY_FILE_BYTES = 65536"
definition MAX_MEMORY_ENTRIES :: nat where "MAX_MEMORY_ENTRIES = 100"

text \<open>\<open>mkdir(parents=True, exist_ok=True)\<close> of the directories along a path.\<close>

definition make_child :: "(nat \<Rightarrow> hazard) \<Rightarrow> path \<Rightarrow> string \<Rightarrow> ('x, unit) sys" where
  "make_child hz d n = whenS (\<lambda>s. \<not> is_directory (look (dk_root s) (d @ [n]))) (syscall hz (make_dir d n))"

fun make_dirs :: "(nat \<Rightarrow> hazard) \<Rightarrow> path \<Rightarrow> string list \<Rightarrow> ('x, unit) sys" where
  "make_dirs hz d [] = returnS ()"
| "make_dirs hz d (n # ns) = bindS (make_child hz d n) (\<lambda>_. make_dirs hz (d @ [n]) ns)"

text \<open>\<open>shutil.rmtree\<close>: a link inside is removed, not followed; a link in the place of the tree is an error.\<close>

fun wipe_tree :: "(nat \<Rightarrow> hazard) \<Rightarrow> path \<Rightarrow> string \<Rightarrow> node \<Rightarrow> (disk, failure, unit) op"
  and wipe_entries :: "(nat \<Rightarrow> hazard) \<Rightarrow> path \<Rightarrow> (string \<times> node) list \<Rightarrow> (disk, failure, unit) op" where
  "wipe_tree hz d n (DirNode es) = bindS (wipe_entries hz (d @ [n]) es) (\<lambda>_. syscall hz (remove_dir d n))"
| "wipe_tree hz d n (FileNode b) = syscall hz (remove_file d n)"
| "wipe_tree hz d n (LinkNode b) = syscall hz (remove_file d n)"
| "wipe_entries hz p [] = returnS ()"
| "wipe_entries hz p ((k, c) # es) = bindS (wipe_tree hz p k c) (\<lambda>_. wipe_entries hz p es)"

definition rmtree :: "(nat \<Rightarrow> hazard) \<Rightarrow> path \<Rightarrow> string \<Rightarrow> (disk, failure, unit) op" where
  "rmtree hz d n = bindS (readS (\<lambda>s. Inr (look (dk_root s) (d @ [n])))) (\<lambda>c. case c of
      Some (DirNode es) \<Rightarrow> wipe_tree hz d n (DirNode es)
    | Some (FileNode b) \<Rightarrow> failS (call_error ''NotADirectoryError'')
    | _ \<Rightarrow> failS (call_error ''OSError''))"

text \<open>The copy of the cached instructions, a directory at a time: its regular files in the order of their folded
  names, then its directories. Anything else in it is refused.\<close>

definition copy_files ::
  "(nat \<Rightarrow> hazard) \<Rightarrow> (string \<Rightarrow> string) \<Rightarrow> path \<Rightarrow> (string \<times> node) list \<Rightarrow> (disk, failure, unit) op" where
  "copy_files hz fold_case d es = eachS (\<lambda>(n, c). case c of
      DirNode _ \<Rightarrow> returnS ()
    | FileNode b \<Rightarrow> syscall hz (replace_file d n b)
    | LinkNode _ \<Rightarrow> failS valueError) (sort_key (\<lambda>e. fold_case (fst e)) es)"

fun copy_tree :: "(nat \<Rightarrow> hazard) \<Rightarrow> (string \<Rightarrow> string) \<Rightarrow> path \<Rightarrow> node \<Rightarrow> (disk, failure, unit) op"
  and copy_subtrees :: "(nat \<Rightarrow> hazard) \<Rightarrow> (string \<Rightarrow> string) \<Rightarrow> path \<Rightarrow> (string \<times> node) list \<Rightarrow> (disk, failure, unit) op" where
  "copy_tree hz fold_case d (DirNode es) =
     bindS (make_dirs hz [] d) (\<lambda>_.
     bindS (copy_files hz fold_case d es) (\<lambda>_. copy_subtrees hz fold_case d es))"
| "copy_tree hz fold_case d _ = returnS ()"
| "copy_subtrees hz fold_case d [] = returnS ()"
| "copy_subtrees hz fold_case d ((n, c) # es) =
     bindS (copy_tree hz fold_case (d @ [n]) c) (\<lambda>_. copy_subtrees hz fold_case d es)"

text \<open>\<open>overlaps\<close> is whether the view would lie in the cached artifact or around it; \<open>runtime\<close> is the cached tree.\<close>

definition create_launch_view ::
  "(nat \<Rightarrow> hazard) \<Rightarrow> (string \<Rightarrow> string) \<Rightarrow> bool \<Rightarrow> node \<Rightarrow> string \<Rightarrow> (disk, failure, unit) op" where
  "create_launch_view hz fold_case overlaps runtime v =
     bindS (tryliftS (ensure (\<not> overlaps) valueError)) (\<lambda>_.
     bindS (whenS (\<lambda>s. present (look (dk_root s) [v])) (rmtree hz [] v)) (\<lambda>_.
     bindS (make_dirs hz [] [v]) (\<lambda>_.
     bindS (copy_tree hz fold_case ([v] @ ZONE_INSTRUCTIONS) runtime) (\<lambda>_.
     bindS (make_dirs hz [v] ZONE_OUTBOX) (\<lambda>_. make_dirs hz [v] ZONE_MEMORY)))))"

section \<open>Memory files for a launch\<close>

definition require_memory_name_and_size :: "string \<Rightarrow> string \<Rightarrow> ticket_error + unit" where
  "require_memory_name_and_size name payload =
     bindE (ensure (path_name name = name \<and> name \<notin> {[], ''.'', ''..''}) valueError) (\<lambda>_.
     ensure (length payload \<le> MAX_MEMORY_FILE_BYTES) valueError)"

definition is_link :: "node option \<Rightarrow> bool" where
  "is_link c = (case c of Some (LinkNode _) \<Rightarrow> True | _ \<Rightarrow> False)"

definition real_directory :: "path \<Rightarrow> node \<Rightarrow> ticket_error + unit" where
  "real_directory p t = ensure (\<not> present (look t p) \<or> is_directory (look t p)) valueError"

definition require_safe_memory_directory :: "(nat \<Rightarrow> hazard) \<Rightarrow> path \<Rightarrow> (disk, failure, unit) op" where
  "require_safe_memory_directory hz m =
     (let root = butlast m in
      bindS (tryliftS (ensure (root \<noteq> [] \<and> last root = ''.flowgency'') valueError)) (\<lambda>_.
      bindS (lookD (\<lambda>t. ensure (is_directory (look t (butlast root))) valueError)) (\<lambda>_.
      bindS (lookD (real_directory root)) (\<lambda>_.
      bindS (lookD (real_directory m)) (\<lambda>_.
      bindS (make_child hz (butlast root) (last root)) (\<lambda>_.
      bindS (make_child hz root (last m)) (\<lambda>_.
      lookD (\<lambda>t. ensure (\<not> is_link (look t root) \<and> \<not> is_link (look t m)) valueError))))))))"

fun reset_entries :: "(nat \<Rightarrow> hazard) \<Rightarrow> path \<Rightarrow> (string \<times> node) list \<Rightarrow> (disk, failure, unit) op" where
  "reset_entries hz m [] = returnS ()"
| "reset_entries hz m ((n, FileNode b) # es) = bindS (syscall hz (remove_file m n)) (\<lambda>_. reset_entries hz m es)"
| "reset_entries hz m ((n, _) # es) = failS valueError"

definition entries_of :: "path \<Rightarrow> node \<Rightarrow> ticket_error + (string \<times> node) list" where
  "entries_of d t = (case entries_at t d of None \<Rightarrow> Inl (call_error ''FileNotFoundError'') | Some es \<Rightarrow> Inr es)"

definition reset_memory_directory :: "(nat \<Rightarrow> hazard) \<Rightarrow> path \<Rightarrow> (disk, failure, unit) op" where
  "reset_memory_directory hz m =
     whenS (\<lambda>s. present (look (dk_root s) m))
       (bindS (lookD (entries_of m)) (\<lambda>es.
        bindS (tryliftS (ensure (length es \<le> MAX_MEMORY_ENTRIES) valueError)) (\<lambda>_. reset_entries hz m es)))"

definition place_files :: "(nat \<Rightarrow> hazard) \<Rightarrow> path \<Rightarrow> files \<Rightarrow> (disk, failure, unit) op" where
  "place_files hz m fs = eachS (\<lambda>(n, b). bindS (tryliftS (require_memory_name_and_size n b)) (\<lambda>_.
     syscall hz (replace_file m n b))) fs"

definition prepare_launch_memory :: "(nat \<Rightarrow> hazard) \<Rightarrow> path \<Rightarrow> files \<Rightarrow> (disk, failure, path) op" where
  "prepare_launch_memory hz v fs =
     bindS (lookD (\<lambda>t. ensure (is_directory (look t v)) valueError)) (\<lambda>_.
     bindS (tryliftS (ensure (length fs \<le> MAX_MEMORY_FILES) valueError)) (\<lambda>_.
     let m = v @ ZONE_MEMORY in
     bindS (require_safe_memory_directory hz m) (\<lambda>_.
     bindS (reset_memory_directory hz m) (\<lambda>_.
     bindS (place_files hz m fs) (\<lambda>_. returnS m)))))"

section \<open>Back to the stage\<close>

definition existing_bytes :: "path \<Rightarrow> node \<Rightarrow> ticket_error + string option" where
  "existing_bytes p t = (case look t p of
      None \<Rightarrow> Inr None
    | Some (FileNode b) \<Rightarrow> Inr (Some b)
    | Some (DirNode _) \<Rightarrow> Inl (call_error ''IsADirectoryError'')
    | Some (LinkNode live) \<Rightarrow> if live then Inl (call_error ''OSError'') else Inr None)"

definition copy_to_stage :: "memory_tools \<Rightarrow> path \<Rightarrow> string \<Rightarrow> string \<Rightarrow> ('x, unit) work" where
  "copy_to_stage mt d n b =
     bindS (on_memory (lookM (existing_bytes (d @ [n])))) (\<lambda>existing.
     if existing = Some b then returnS () else on_memory (callM mt (replace_file d n b)))"

fun copy_entries :: "memory_tools \<Rightarrow> path \<Rightarrow> string list \<Rightarrow> (string \<times> node) list \<Rightarrow> ('x, string list) work" where
  "copy_entries mt d produced [] = returnS produced"
| "copy_entries mt d produced ((n, FileNode b) # es) =
     (if path_suffix n \<noteq> ''.md'' then copy_entries mt d produced es
      else if MAX_MEMORY_FILES \<le> length produced then failS valueError
      else if MAX_MEMORY_FILE_BYTES < length b then failS valueError
      else bindS (copy_to_stage mt d n b) (\<lambda>_. copy_entries mt d (List.insert n produced) es))"
| "copy_entries mt d produced ((n, _) # es) = failS valueError"

text \<open>A live link counts as the file it names.\<close>

fun prune_entries :: "memory_tools \<Rightarrow> path \<Rightarrow> string list \<Rightarrow> (string \<times> node) list \<Rightarrow> unit mem_op" where
  "prune_entries mt d produced [] = returnS ()"
| "prune_entries mt d produced ((n, DirNode _) # es) = failS valueError"
| "prune_entries mt d produced ((n, c) # es) =
     bindS (if present (Some c) \<and> n \<notin> set produced then callM mt (remove_file d n) else returnS ()) (\<lambda>_.
     prune_entries mt d produced es)"

definition copy_launch_memory_to_stage :: "memory_tools \<Rightarrow> path \<Rightarrow> path \<Rightarrow> ('x, unit) work" where
  "copy_launch_memory_to_stage mt m d =
     bindS (on_memory (make_dirs (mt_hazard mt) [] d)) (\<lambda>_.
     bindS (on_view (lookD (entries_of m))) (\<lambda>es.
     bindS (tryliftS (ensure (length es \<le> MAX_MEMORY_ENTRIES) valueError)) (\<lambda>_.
     bindS (copy_entries mt d [] (sort_key (\<lambda>e. mt_casefold mt (fst e)) es)) (\<lambda>produced.
     bindS (on_memory (lookM (entries_of d))) (\<lambda>staged.
     on_memory (prune_entries mt d produced staged))))))"

section \<open>What a launch keeps of the files\<close>

text \<open>A directory that holds exactly the files of a map.\<close>

definition dir_map :: "(string \<rightharpoonup> string) \<Rightarrow> node option \<Rightarrow> bool" where
  "dir_map f c \<longleftrightarrow> (\<exists>es. c = Some (DirNode es) \<and> wf_dict es \<and> (\<forall>k. map_of es k = map_option FileNode (f k)))"

lemma dir_is_map: "dir_is fs c \<longleftrightarrow> dir_map (map_of fs) c"
  by (simp add: dir_is_def dir_map_def)

lemma dir_map_set: "dir_map f (look t d) \<Longrightarrow> dir_map (f(n \<mapsto> b)) (look (alter d (set_entry n (FileNode b)) t) d)"
  by (auto simp: dir_map_def look_alter update_conv' distinct_update)

lemma dir_map_drop: "dir_map f (look t d) \<Longrightarrow> dir_map (f(n := None)) (look (alter d (drop_entry n) t) d)"
  by (auto simp: dir_map_def look_alter delete_conv' distinct_delete)

lemma dir_map_entry: "dir_map f (look t d) \<Longrightarrow> look t (d @ [n]) = map_option FileNode (f n)"
  by (auto simp: dir_map_def look_append split: option.split)

lemma dir_map_entries: "dir_map f (look t d) \<Longrightarrow> entries_at t d = Some es \<Longrightarrow>
    wf_dict es \<and> (\<forall>k. map_of es k = map_option FileNode (f k))"
  by (auto simp: dir_map_def entries_at_def)

lemma dir_map_cong: "(\<And>k. f k = g k) \<Longrightarrow> dir_map f = dir_map g"
  by (simp add: dir_map_def fun_eq_iff)

text \<open>The files that come back: the Markdown files of the directory.\<close>

definition markdown :: "(string \<times> node) list \<Rightarrow> files" where
  "markdown es = concat (map (\<lambda>(n, c). case c of FileNode b \<Rightarrow> if path_suffix n = ''.md'' then [(n, b)] else [] | _ \<Rightarrow> []) es)"

lemma markdown_simps [simp]:
  "markdown [] = []"
  "markdown ((n, FileNode b) # es) = (if path_suffix n = ''.md'' then (n, b) # markdown es else markdown es)"
  "markdown ((n, LinkNode l) # es) = markdown es" "markdown ((n, DirNode ds) # es) = markdown es"
  by (simp_all add: markdown_def)

lemma markdown_set: "set (markdown es) = {(n, b). (n, FileNode b) \<in> set es \<and> path_suffix n = ''.md''}"
  by (induction es) (auto simp: markdown_def split: node.splits)

lemma markdown_keys: "set (keys (markdown es)) \<subseteq> set (keys es)"
  by (force simp: markdown_set)

lemma markdown_wf: "wf_dict es \<Longrightarrow> wf_dict (markdown es)"
proof (induction es)
  case (Cons e es)
  obtain n c where e: "e = (n, c)" by fastforce
  with Cons.prems have "n \<notin> set (keys (markdown es))" using markdown_keys by auto
  with Cons e show ?case by (cases c) auto
qed simp

lemma on_memory_Inr: "on_memory m s = (t, Inr x) \<longleftrightarrow> (\<exists>u. m (ww_memory s) = (u, Inr x) \<and> t = s\<lparr>ww_memory := u\<rparr>)"
  by (auto simp: on_memory_def split: prod.splits)

lemma on_view_Inr: "on_view m s = (t, Inr x) \<longleftrightarrow> (\<exists>u. m (ww_view s) = (u, Inr x) \<and> t = s\<lparr>ww_view := u\<rparr>)"
  by (auto simp: on_view_def split: prod.splits)

lemma copy_to_stage_Inr:
  assumes "copy_to_stage mt d n b s = (t, Inr u)" "dir_map f (spot d (ww_memory s))"
  shows "dir_map (f(n \<mapsto> b)) (spot d (ww_memory t)) \<and> (\<exists>m. t = s\<lparr>ww_memory := m\<rparr> \<and> ma_jobs m = ma_jobs (ww_memory s) \<and>
    (\<forall>q. d @ [n] \<parallel> q \<longrightarrow> spot q m = spot q (ww_memory s)))"
proof -
  from assms(1) obtain v existing where x: "lookM (existing_bytes (d @ [n])) (ww_memory s) = (v, Inr existing)"
    and rest: "(if existing = Some b then returnS () else on_memory (callM mt (replace_file d n b))) (s\<lparr>ww_memory := v\<rparr>) = (t, Inr u)"
    by (auto simp: copy_to_stage_def bindS_Inr on_memory_Inr)
  from x assms(2) have v: "v = ww_memory s" and existing: "existing = f n"
    using dir_map_entry [of f "dk_root (ww_memory s)" d n]
    by (auto simp: lookM_Inr existing_bytes_def spot_def split: option.splits node.splits if_splits)
  show ?thesis
  proof (cases "existing = Some b")
    case True
    then have "f(n \<mapsto> b) = f" using existing by auto
    with rest True v assms(2) show ?thesis by (auto intro!: exI [of _ "ww_memory s"])
  next
    case False
    with rest v obtain r where r: "replace_file d n b (dk_root (ww_memory s)) = Inr r"
      "t = s\<lparr>ww_memory := (tick (ww_memory s))\<lparr>dk_root := r\<rparr>\<rparr>" by (auto simp: on_memory_Inr callM_Inr)
    then have "dir_map (f(n \<mapsto> b)) (look r d)"
      using dir_map_set assms(2) by (auto simp: spot_def call_defs)
    with r calls_elsewhere(2) show ?thesis by (auto simp: spot_def)
  qed
qed

text \<open>What the loop over the entries does: every one is a file, the Markdown ones are staged.\<close>

lemma copy_entries_Inr:
  assumes "copy_entries mt d P es s = (t, Inr Q)" "dir_map f (spot d (ww_memory s))" "wf_dict es"
  shows "dir_map (f ++ map_of (markdown es)) (spot d (ww_memory t)) \<and> set Q = set P \<union> set (keys (markdown es)) \<and>
    (\<forall>c\<in>snd ` set es. \<exists>b. c = FileNode b) \<and> (\<forall>b\<in>snd ` set (markdown es). length b \<le> MAX_MEMORY_FILE_BYTES) \<and>
    (\<exists>m. t = s\<lparr>ww_memory := m\<rparr> \<and> ma_jobs m = ma_jobs (ww_memory s) \<and>
      (\<forall>q. d \<parallel> q \<longrightarrow> spot q m = spot q (ww_memory s)))"
  using assms
proof (induction mt d P es arbitrary: s f rule: copy_entries.induct)
  case (1 mt d P)
  then show ?case by (auto intro!: exI [of _ "ww_memory s"])
next
  case (2 mt d P n b es)
  show ?case
  proof (cases "path_suffix n = ''.md''")
    case False
    with 2 show ?thesis by auto
  next
    case True
    with 2(3) have small: "length P < MAX_MEMORY_FILES" "length b \<le> MAX_MEMORY_FILE_BYTES"
      by (auto split: if_splits)
    with 2(3) True obtain u where u: "copy_to_stage mt d n b s = (u, Inr ())"
      and rest: "copy_entries mt d (List.insert n P) es u = (t, Inr Q)" by (auto simp: bindS_Inr)
    note first = copy_to_stage_Inr [OF u 2(4)]
    from small True have "\<not> MAX_MEMORY_FILES \<le> length P" "\<not> MAX_MEMORY_FILE_BYTES < length b" "\<not> path_suffix n \<noteq> ''.md''" by auto
    from 2(5) have "wf_dict es" by simp
    note IH = 2(2) [OF \<open>\<not> path_suffix n \<noteq> ''.md''\<close> \<open>\<not> MAX_MEMORY_FILES \<le> length P\<close> \<open>\<not> MAX_MEMORY_FILE_BYTES < length b\<close>
      rest first [THEN conjunct1] this]
    from 2(5) have "n \<notin> set (keys (markdown es))" using markdown_keys by auto
    then have "f(n \<mapsto> b) ++ map_of (markdown es) = f ++ map_of (markdown ((n, FileNode b) # es))"
      using True by (simp add: map_add_upd_left dom_map_of_conv_image_fst)
    with IH [THEN conjunct1] have dm: "dir_map (f ++ map_of (markdown ((n, FileNode b) # es))) (spot d (ww_memory t))" by (simp only:)
    from IH True have "set Q = set P \<union> set (keys (markdown ((n, FileNode b) # es)))"
      "\<forall>c\<in>snd ` set es. \<exists>b. c = FileNode b" "\<forall>b\<in>snd ` set (markdown es). length b \<le> MAX_MEMORY_FILE_BYTES" by auto
    moreover from IH 2(5) obtain m where "t = u\<lparr>ww_memory := m\<rparr>" "ma_jobs m = ma_jobs (ww_memory u)"
      "\<And>q. d \<parallel> q \<Longrightarrow> spot q m = spot q (ww_memory u)" by auto
    moreover from first obtain m' where "u = s\<lparr>ww_memory := m'\<rparr>" "ma_jobs m' = ma_jobs (ww_memory s)"
      "\<And>q. d \<parallel> q \<Longrightarrow> spot q m' = spot q (ww_memory s)" using parallel_longer by blast
    ultimately show ?thesis using True small(2) by (intro conjI) (rule dm, auto intro!: exI [of _ m])
  qed
qed simp_all

lemma prune_entries_Inr:
  assumes "prune_entries mt d P es s = (t, Inr u)" "dir_map f (spot d s)" "wf_dict es"
    and "\<And>n c. (n, c) \<in> set es \<Longrightarrow> map_option FileNode (f n) = Some c"
  shows "dir_map (\<lambda>k. if k \<in> set (keys es) \<and> k \<notin> set P then None else f k) (spot d t) \<and> ma_jobs t = ma_jobs s \<and>
    (\<forall>q. d \<parallel> q \<longrightarrow> spot q t = spot q s)"
  using assms
proof (induction mt d P es arbitrary: s f rule: prune_entries.induct [case_names no_entry dir_entry file_entry link_entry])
  case (file_entry mt d P n b es)
  from file_entry(2) obtain v where v: "(if n \<notin> set P then callM mt (remove_file d n) else returnS ()) s = (v, Inr ())"
    and rest: "prune_entries mt d P es v = (t, Inr u)" by (auto simp: bindS_Inr present_def)
  let ?g = "if n \<in> set P then f else f(n := None)"
  have "dir_map ?g (spot d v) \<and> ma_jobs v = ma_jobs s \<and> (\<forall>q. d \<parallel> q \<longrightarrow> spot q v = spot q s)"
  proof (cases "n \<in> set P")
    case True
    with v file_entry(3) show ?thesis by auto
  next
    case False
    with v obtain r where r: "remove_file d n (dk_root s) = Inr r" "v = (tick s)\<lparr>dk_root := r\<rparr>" by (auto simp: callM_Inr)
    then have "dir_map (f(n := None)) (look r d)" using dir_map_drop file_entry(3) by (auto simp: spot_def call_defs)
    moreover have "look r q = look (dk_root s) q" if "d \<parallel> q" for q
      using calls_elsewhere(3) [OF parallel_longer [OF that] r(1)] by simp
    ultimately show ?thesis using r False by (auto simp: spot_def)
  qed
  moreover have "map_option FileNode (?g k) = Some c" if "(k, c) \<in> set es" for k c
    using that file_entry(4,5) by (force split: if_splits)
  moreover from file_entry(4) have "wf_dict es" by simp
  ultimately have IH: "dir_map (\<lambda>k. if k \<in> set (keys es) \<and> k \<notin> set P then None else ?g k) (spot d t) \<and>
      ma_jobs t = ma_jobs v \<and> (\<forall>q. d \<parallel> q \<longrightarrow> spot q t = spot q v)"
    using file_entry(1) [OF rest, of ?g] by blast
  have "(\<lambda>k. if k \<in> set (keys es) \<and> k \<notin> set P then None else ?g k) =
      (\<lambda>k. if k \<in> set (keys ((n, FileNode b) # es)) \<and> k \<notin> set P then None else f k)" by (auto simp: fun_eq_iff)
  with IH \<open>dir_map ?g (spot d v) \<and> _\<close> show ?case by simp
next
  case (link_entry mt d P n b es)
  then have "map_option FileNode (f n) = Some (LinkNode b)" by (meson list.set_intros(1))
  then show ?case by auto
qed auto

lemma copy_entries_count:
  "copy_entries mt d P es s = (t, Inr Q) \<Longrightarrow> length P \<le> MAX_MEMORY_FILES \<Longrightarrow> length Q \<le> MAX_MEMORY_FILES"
proof (induction mt d P es arbitrary: s rule: copy_entries.induct)
  case (2 mt d P n b es)
  then show ?case by (cases "n \<in> set P") (auto simp: bindS_Inr List.insert_def split: if_splits)
qed auto

text \<open>Making directories that are there changes nothing.\<close>

lemma directory_above: "is_directory (look t (d @ n # ns)) \<Longrightarrow> is_directory (look t (d @ [n]))"
  using look_append [of t "d @ [n]" ns]
  by (cases "look t (d @ [n])"; cases ns; cases "the (look t (d @ [n]))") (auto simp: is_directory_def)

lemma make_dirs_idle: "is_directory (look (dk_root s) (d @ ns)) \<Longrightarrow> make_dirs hz d ns s = (s, Inr ())"
proof (induction ns arbitrary: d)
  case (Cons n ns)
  from directory_above [OF Cons.prems] have "make_child hz d n s = (s, Inr ())" by (simp add: make_child_def whenS_def)
  with Cons.IH [of "d @ [n]"] Cons.prems show ?case by (simp add: bindS_def)
qed simp

text \<open>What an agent leaves in the memory directory of its view comes back to the stage of a publication
  exactly: the stage then holds the Markdown files of that directory and no others. The directory holds
  regular files only, and no more and no larger ones than the limits allow; the view itself, the other parts
  of the store and the job files are left alone.\<close>

theorem launch_copies_back:
  assumes "copy_launch_memory_to_stage mt m d s = (t, Inr u)"
    and "entries_at (dk_root (ww_view s)) m = Some es" "wf_dict es" "dir_is old (spot d (ww_memory s))"
  shows "dir_is (markdown es) (spot d (ww_memory t)) \<and> (\<forall>c\<in>snd ` set es. \<exists>b. c = FileNode b) \<and>
    length es \<le> MAX_MEMORY_ENTRIES \<and> length (markdown es) \<le> MAX_MEMORY_FILES \<and>
    (\<forall>b\<in>snd ` set (markdown es). length b \<le> MAX_MEMORY_FILE_BYTES) \<and>
    (\<exists>a. t = s\<lparr>ww_memory := a\<rparr> \<and> ma_jobs a = ma_jobs (ww_memory s) \<and> (\<forall>q. d \<parallel> q \<longrightarrow> spot q a = spot q (ww_memory s)))"
proof -
  let ?sorted = "sort_key (\<lambda>e. mt_casefold mt (fst e)) es"
  have "is_directory (look (dk_root (ww_memory s)) ([] @ d))"
    using assms(4) by (auto simp: dir_is_def spot_def is_directory_def)
  from make_dirs_idle [OF this] have idle: "on_memory (make_dirs (mt_hazard mt) [] d) s = (s, Inr ())" by (simp add: on_memory_def)
  have view: "on_view (lookD (entries_of m)) s = (s, Inr es)" using assms(2) by (simp add: on_view_def lookD_def entries_of_def)
  from assms(1) idle view obtain v P w staged where small: "length es \<le> MAX_MEMORY_ENTRIES"
    and P: "copy_entries mt d [] ?sorted s = (v, Inr P)"
    and w: "on_memory (lookM (entries_of d)) v = (w, Inr staged)" and t: "on_memory (prune_entries mt d P staged) w = (t, Inr ())"
    unfolding copy_launch_memory_to_stage_def
    by (auto simp: bindS_Inr mapErr_eq_Inr ensure_eq_Inr readS_Inr simp del: bindS_readS readS_apply)
  have wf: "wf_dict ?sorted" using assms(3) by (metis distinct_map distinct_sort set_sort)
  note copied = copy_entries_Inr [OF P assms(4) [unfolded dir_is_map] wf]
  have md_set: "set (markdown ?sorted) = set (markdown es)" by (simp add: markdown_set)
  have md_map: "map_of (markdown ?sorted) = map_of (markdown es)"
    using markdown_wf [OF wf] markdown_wf [OF assms(3)] md_set by (simp add: map_of_inject_set)
  from w have w: "w = v" "entries_at (dk_root (ww_memory v)) d = Some staged"
    by (auto simp: on_memory_Inr lookM_Inr entries_of_def split: option.splits)
  let ?f = "map_of old ++ map_of (markdown es)"
  from copied have stage: "dir_map ?f (spot d (ww_memory v))" by (simp add: md_map)
  from dir_map_entries [OF this [unfolded spot_def] w(2)] have staged: "wf_dict staged" "\<And>k. map_of staged k = map_option FileNode (?f k)" by auto
  from t w obtain x where x: "prune_entries mt d P staged (ww_memory v) = (x, Inr ())" "t = v\<lparr>ww_memory := x\<rparr>" by (auto simp: on_memory_Inr)
  have "map_option FileNode (?f n) = Some c" if "(n, c) \<in> set staged" for n c
    using that staged map_of_is_SomeI by metis
  note pruned = prune_entries_Inr [OF x(1) stage staged(1) this]
  have "(if k \<in> set (keys staged) \<and> k \<notin> set P then None else ?f k) = map_of (markdown es) k" for k
  proof -
    have P: "k \<in> set P \<longleftrightarrow> map_of (markdown es) k \<noteq> None"
      using copied md_set by (auto simp: map_of_eq_None_iff)
    moreover have "k \<in> set (keys staged) \<longleftrightarrow> ?f k \<noteq> None"
    proof -
      have "k \<in> set (keys staged) \<longleftrightarrow> map_of staged k \<noteq> None" by (simp add: map_of_eq_None_iff)
      then show ?thesis unfolding staged(2) by (simp only: option.map_disc_iff)
    qed
    ultimately show ?thesis by (auto simp: map_add_def split: option.splits)
  qed
  with pruned have "dir_is (markdown es) (spot d (ww_memory t))" using x(2) by (simp add: dir_is_map)
  moreover have "length (markdown es) \<le> MAX_MEMORY_FILES"
  proof -
    have "length (markdown es) = card (set P)"
      using copied md_set markdown_wf [OF assms(3)] by (metis Un_empty_left distinct_card image_set length_map list.set(1))
    also have "\<dots> \<le> length P" by (rule card_length)
    finally show ?thesis using copy_entries_count [OF P] by (simp add: MAX_MEMORY_FILES_def)
  qed
  moreover have "\<forall>c\<in>snd ` set es. \<exists>b. c = FileNode b" "\<forall>b\<in>snd ` set (markdown es). length b \<le> MAX_MEMORY_FILE_BYTES"
    using copied md_set by auto
  moreover have "\<exists>a. t = s\<lparr>ww_memory := a\<rparr> \<and> ma_jobs a = ma_jobs (ww_memory s) \<and> (\<forall>q. d \<parallel> q \<longrightarrow> spot q a = spot q (ww_memory s))"
    using copied pruned x(2) by auto
  ultimately show ?thesis using small by blast
qed

section \<open>What a launch is given\<close>

lemma syscall_Inr: "syscall hz f s = (t, Inr u) \<longleftrightarrow> hz (dk_clock s) = Works \<and>
    (\<exists>r. f (dk_root s) = Inr r \<and> t = (tick s)\<lparr>dk_root := r\<rparr>)"
  by (auto simp: syscall_def split: hazard.split sum.split)

lemma lookD_Inr: "lookD f s = (t, Inr x) \<longleftrightarrow> t = s \<and> f (dk_root s) = Inr x"
  by (auto simp: lookD_def mapErr_eq_Inr)

lemma reset_entries_Inr:
  assumes "reset_entries hz m es s = (t, Inr u)" "look (dk_root s) m = Some (DirNode ds)"
  shows "look (dk_root t) m = Some (DirNode (filter (\<lambda>(k, _). k \<notin> set (keys es)) ds)) \<and>
    (\<forall>q. m \<parallel> q \<longrightarrow> look (dk_root t) q = look (dk_root s) q)"
  using assms
proof (induction hz m es arbitrary: s ds rule: reset_entries.induct)
  case (2 hz m n b es)
  from 2(2,3) obtain v r where v: "remove_file m n (dk_root s) = Inr r" "v = (tick s)\<lparr>dk_root := r\<rparr>"
    and rest: "reset_entries hz m es v = (t, Inr u)" by (auto simp: bindS_Inr syscall_Inr)
  from v 2(3) have "look (dk_root v) m = Some (DirNode (AList.delete n ds))" by (auto simp: call_defs look_alter)
  from 2(1) [OF rest this] calls_elsewhere(3) [OF parallel_longer v(1)] v(2)
  show ?case by (auto simp: AList.delete_eq split_def intro!: filter_cong)
qed auto

lemma make_child_Inr:
  assumes "make_child hz d n s = (t, Inr u)"
  shows "is_directory (look (dk_root t) (d @ [n]))"
  using assms by (auto simp: make_child_def whenS_def syscall_Inr call_defs look_append look_alter is_directory_def
      update_conv' split: if_splits)

lemma place_files_Inr:
  assumes "place_files hz m fs s = (t, Inr u)" "wf_dict fs" "look (dk_root s) m = Some (DirNode [])"
  shows "dir_is fs (look (dk_root t) m) \<and> (\<forall>(n, b)\<in>set fs. require_memory_name_and_size n b = Inr ())"
proof -
  have "triple (\<lambda>s. dir_is [] (look (dk_root s) m) \<and> (\<forall>(n, b)\<in>set []. require_memory_name_and_size n b = Inr ()))
     (place_files hz m fs) (\<lambda>_ s. dir_is fs (look (dk_root s) m) \<and> (\<forall>(n, b)\<in>set fs. require_memory_name_and_size n b = Inr ()))
     (\<lambda>_ _. True)"
    unfolding place_files_def
  proof (rule triple_each)
    fix xs x ys assume fs: "fs = xs @ x # ys"
    obtain n b where x: "x = (n, b)" by fastforce
    with fs assms(2) have "n \<notin> set (keys xs)" by auto
    then show "triple (\<lambda>s. dir_is xs (look (dk_root s) m) \<and> (\<forall>(n, b)\<in>set xs. require_memory_name_and_size n b = Inr ()))
      (case x of (n, b) \<Rightarrow> bindS (tryliftS (require_memory_name_and_size n b)) (\<lambda>_. syscall hz (replace_file m n b)))
      (\<lambda>_ s. dir_is (xs @ [x]) (look (dk_root s) m) \<and> (\<forall>(n, b)\<in>set (xs @ [x]). require_memory_name_and_size n b = Inr ()))
      (\<lambda>_ _. True)"
      unfolding x by (intro tripleI') (auto simp: bindS_Inr readS_Inr mapErr_eq_Inr syscall_Inr call_defs holds_written simp del: bindS_readS readS_apply)
  qed
  moreover have "dir_is [] (look (dk_root s) m)" using assms(3) by (simp add: dir_is_def)
  ultimately show ?thesis using assms(1) by (auto dest: tripleD)
qed

text \<open>Before an agent starts, the memory directory of its view holds exactly the files of its memory, within the
  limits: whatever an earlier run left there is gone.\<close>

theorem launch_is_given_memory:
  assumes "prepare_launch_memory hz v fs s = (t, Inr m)" "wf_dict fs"
  shows "m = v @ ZONE_MEMORY \<and> dir_is fs (look (dk_root t) m) \<and> length fs \<le> MAX_MEMORY_FILES \<and>
    (\<forall>(n, b)\<in>set fs. require_memory_name_and_size n b = Inr ())"
proof -
  let ?m = "v @ ZONE_MEMORY"
  from assms(1) obtain a b where safe: "require_safe_memory_directory hz ?m s = (a, Inr ())"
    and reset: "reset_memory_directory hz ?m a = (b, Inr ())" and place: "place_files hz ?m fs b = (t, Inr ())"
    and "m = ?m" "length fs \<le> MAX_MEMORY_FILES"
    by (auto simp: prepare_launch_memory_def Let_def bindS_Inr readS_Inr lookD_Inr mapErr_eq_Inr ensure_eq_Inr
        simp del: bindS_readS readS_apply)
  have m: "?m \<noteq> []" "butlast ?m @ [last ?m] = ?m" by (simp_all add: ZONE_MEMORY_def butlast_append)
  from safe obtain c where "make_child hz (butlast ?m) (last ?m) c = (a, Inr ())"
    by (auto simp: require_safe_memory_directory_def Let_def bindS_Inr readS_Inr lookD_Inr mapErr_eq_Inr ensure_eq_Inr
        simp del: bindS_readS readS_apply)
  from make_child_Inr [OF this] m obtain ds where ds: "look (dk_root a) ?m = Some (DirNode ds)"
    by (auto simp: is_directory_def split: option.splits node.splits)
  with reset obtain es where "entries_of ?m (dk_root a) = Inr es" "reset_entries hz ?m es a = (b, Inr ())"
    by (auto simp: reset_memory_directory_def whenS_def present_def bindS_Inr readS_Inr lookD_Inr mapErr_eq_Inr ensure_eq_Inr
        simp del: bindS_readS readS_apply)
  with ds have "reset_entries hz ?m ds a = (b, Inr ())" by (simp add: entries_of_def entries_at_def)
  from reset_entries_Inr [OF this ds]
  have "look (dk_root b) ?m = Some (DirNode (filter (\<lambda>(k, _). k \<notin> set (keys ds)) ds))" by blast
  moreover have "filter (\<lambda>(k, _). k \<notin> set (keys ds)) ds = []" by (force simp: filter_empty_conv)
  ultimately have "look (dk_root b) ?m = Some (DirNode [])" by simp
  from place_files_Inr [OF place assms(2) this] \<open>m = ?m\<close> \<open>length fs \<le> _\<close> show ?thesis by simp
qed

end
