(* ===== verification/Execution.thy ===== *)
theory Execution
  imports LaunchMemory
begin

text \<open>
  The worker of a job, \<^verbatim>\<open>flowgency/jobs/execution.py\<close>: it claims the job, waits for the memory of the agent,
  prepares a launch view, runs the agent under a session of the ticket tools, and publishes what the agent
  left in its memory, or records why the job failed. The integration that runs the agent is an operation on
  the whole world: an agent reaches tickets, its launch view and, through the program's own commands, the job files.

  Arguments are what the worker reads from outside: the configuration, the compiled artifact of the blueprint, Git,
  the clock, how other processes change the world while the worker waits for the lock, and what keeping the
  artifacts of a failed stage returns. The pins of the artifact cache are no part of the world, so releasing them
  at the end has no effect here.
\<close>

section \<open>Integrations\<close>

record agent_request =
  ir_spec :: job_spec
  ir_task_file :: string
  ir_launch_dir :: path
  ir_memory_dir :: path
  ir_ticket_tools :: "access_grant option"

record agent_result =
  rz_exit_code :: int
  rz_stdout :: string
  rz_stderr :: string
  rz_duration :: json
  rz_changed_files :: "json list"
  rz_write_attempts :: "json list"
  rz_unenforced :: "string list"
  rz_session_id :: "string option"
  rz_copilot_home :: json
  rz_stop :: "cleanup_evidence option"

record agent_runtime =
  gt_has_projector :: bool
  gt_run :: "agent_request \<Rightarrow> (worker_world, failure, agent_result) op"

section \<open>The state of a worker\<close>

text \<open>The local variables of \<open>execute_job\<close> that its exception handlers read.\<close>

record worker = worker_world +
  wk_started :: "string option"
  wk_base_sha :: json
  wk_invoked :: bool

type_synonym 'a exec = "(worker, failure, 'a) op"

definition by_agent :: "(worker_world, failure, 'a) op \<Rightarrow> 'a exec" where
  "by_agent m s = (case m (worker_world.truncate s) of (w, out) \<Rightarrow> (worker_world.extend w (worker_world.more s), out))"

text \<open>\<open>wt_artifact\<close> is whether the launch view would overlap the cached artifact, and its tree. \<open>wt_waits\<close> is what
  others do to the world at each poll of a lock that is held, until it is free.\<close>

record worker_tools =
  wt_memory :: memory_tools
  wt_co :: coordinator
  wt_pid :: int
  wt_runtime :: "job_spec \<Rightarrow> ticket_error + agent_runtime"
  wt_artifact :: "job_spec \<Rightarrow> ticket_error + bool \<times> node"
  wt_split :: "string \<Rightarrow> string \<times> string"
  wt_view_hazard :: "nat \<Rightarrow> hazard"
  wt_log_hazard :: "nat \<Rightarrow> hazard"
  wt_log_path :: "string \<Rightarrow> string"
  wt_project :: "job_spec \<Rightarrow> (disk, failure, unit) op"
  wt_base :: json
  wt_git_changes :: "json list"
  wt_started_at :: string
  wt_completed_at :: string
  wt_day :: string
  wt_config :: "ticket_error + config_snapshot"
  wt_moment :: moment
  wt_token_hash :: "string \<Rightarrow> string"
  wt_nonce :: string
  wt_secret :: string
  wt_serving :: "ticket_error + unit"
  wt_shutdown :: "ticket_error + unit"
  wt_clock :: "nat \<Rightarrow> time"
  wt_waits :: "(worker_world \<Rightarrow> worker_world) list"
  wt_kind :: "ticket_error \<Rightarrow> string"
  wt_retain :: "memory_transaction \<Rightarrow> ticket_error + unit"
  wt_keep_stage :: "files \<Rightarrow> node option \<Rightarrow> ticket_error + json list"
  wt_retained :: "ticket_error + json list"

abbreviation wt_jobs :: "worker_tools \<Rightarrow> job_tools" where "wt_jobs wt \<equiv> mt_jobs (wt_memory wt)"

text \<open>An exception as a value; a killed process has none.\<close>

definition tryE :: "('s, failure, 'a) op \<Rightarrow> ('s, failure, ticket_error + 'a) op" where
  "tryE m s = (case m s of
      (t, Inl Killed) \<Rightarrow> (t, Inl Killed)
    | (t, Inl (Failure e)) \<Rightarrow> (t, Inr (Inl e))
    | (t, Inr x) \<Rightarrow> (t, Inr (Inr x)))"

definition lockCancelled :: ticket_error where "lockCancelled = PyError ''LockCancelledError''"

section \<open>The job's own file\<close>

definition on_job :: "worker_tools \<Rightarrow> (job_area, ticket_error, 'a) op \<Rightarrow> 'a exec" where
  "on_job wt m = on_memory (jobM (wt_memory wt) m)"

definition own_job :: "worker_tools \<Rightarrow> job_key \<Rightarrow> job_record exec" where
  "own_job wt k = readS (\<lambda>s. mapErr Failure (read_job (wt_jobs wt) (ma_jobs (ww_memory s)) k None))"

definition authority_job :: "worker_tools \<Rightarrow> job_authority \<Rightarrow> job_record exec" where
  "authority_job wt a = readS (\<lambda>s. mapErr Failure (read_authority (wt_jobs wt) (au_root a) (ma_jobs (ww_memory s)) a))"

definition mark_cancelled_if_waiting :: "worker_tools \<Rightarrow> job_key \<Rightarrow> job_record exec" where
  "mark_cancelled_if_waiting wt k = bindS (own_job wt k) (\<lambda>r.
     if jr_status r = Cancelled then returnS r else failS invalidTransition)"

text \<open>What a worker knows of a run when it records the end.\<close>

record run_facts =
  fa_started :: "string option"
  fa_stdout :: json
  fa_stderr :: json
  fa_exit_code :: json
  fa_duration :: json
  fa_changes :: "json list"
  fa_base :: json
  fa_publication :: json
  fa_session :: "string option"
  fa_home :: json

definition no_facts :: "worker \<Rightarrow> run_facts" where
  "no_facts s = \<lparr>fa_started = wk_started s, fa_stdout = JNull, fa_stderr = JNull, fa_exit_code = JNull, fa_duration = JNull,
     fa_changes = [], fa_base = wk_base_sha s, fa_publication = JNull, fa_session = None, fa_home = JNull\<rparr>"

definition terminalize_failure :: "worker_tools \<Rightarrow> job_key \<Rightarrow> string \<Rightarrow> run_facts \<Rightarrow> job_record exec" where
  "terminalize_failure wt k summary f = bindS (own_job wt k) (\<lambda>r.
     if jr_status r = Cancelled then returnS r
     else if jr_status r \<notin> {Running, WaitingForMemory} then returnS r
     else on_job wt (transition_job (wt_jobs wt) k (jr_status r) Failed (\<lambda>r. r\<lparr>
       jr_completed_at := Some (wt_completed_at wt), jr_started_at := fa_started f, jr_stdout_path := fa_stdout f,
       jr_stderr_path := fa_stderr f, jr_exit_code := fa_exit_code f, jr_duration_seconds := fa_duration f,
       jr_changed_files := JList (fa_changes f), jr_execution_summary := Some summary, jr_base_sha := fa_base f,
       jr_memory_publication := fa_publication f, jr_session_id := fa_session f, jr_copilot_home := fa_home f\<rparr>)))"

text \<open>\<open>x or y\<close>, where \<open>x\<close> may be an empty text; and on data.\<close>

definition or_text :: "string option \<Rightarrow> string option \<Rightarrow> string option" where
  "or_text x y = (if x \<in> {None, Some []} then y else x)"

definition or_json :: "json \<Rightarrow> json \<Rightarrow> json" where "or_json x y = (if falsy x then y else x)"

text \<open>A record that was read is written again.\<close>

definition rewrite_job :: "worker_tools \<Rightarrow> job_key \<Rightarrow> job_record \<Rightarrow> job_record exec" where
  "rewrite_job wt k r = bindS (on_job wt (write_job (wt_jobs wt) k r)) (\<lambda>_. returnS r)"

definition merged_failure :: "string \<Rightarrow> run_facts \<Rightarrow> job_record \<Rightarrow> ticket_error + job_record" where
  "merged_failure summary f r =
     bindE (if falsy (jr_memory_publication r) then Inr [] else py_dict (jr_memory_publication r)) (\<lambda>old.
     bindE (if falsy (fa_publication f) then Inr [] else py_dict (fa_publication f)) (\<lambda>new.
     let publication = dict_update old new in
     Inr (r\<lparr>jr_started_at := or_text (jr_started_at r) (fa_started f),
       jr_stdout_path := or_json (jr_stdout_path r) (fa_stdout f),
       jr_stderr_path := or_json (jr_stderr_path r) (fa_stderr f),
       jr_exit_code := (if jr_exit_code r \<noteq> JNull then jr_exit_code r else fa_exit_code f),
       jr_duration_seconds := (if jr_duration_seconds r \<noteq> JNull then jr_duration_seconds r else fa_duration f),
       jr_changed_files := or_json (jr_changed_files r) (JList (fa_changes f)),
       jr_execution_summary := or_text (jr_execution_summary r) (Some summary),
       jr_base_sha := or_json (jr_base_sha r) (fa_base f),
       jr_memory_publication := (if publication = [] then JNull else JObj publication),
       jr_session_id := or_text (jr_session_id r) (fa_session f),
       jr_copilot_home := or_json (jr_copilot_home r) (fa_home f)\<rparr>)))"

definition merge_failed_terminal_metadata :: "worker_tools \<Rightarrow> job_key \<Rightarrow> string \<Rightarrow> run_facts \<Rightarrow> job_record exec" where
  "merge_failed_terminal_metadata wt k summary f = bindS (own_job wt k) (\<lambda>r.
     if jr_status r \<noteq> Failed then returnS r
     else bindS (tryliftS (merged_failure summary f r)) (rewrite_job wt k))"

section \<open>Texts\<close>

definition unenforced_policy_note :: "agent_result \<Rightarrow> string" where
  "unenforced_policy_note z = (if rz_unenforced z = [] then []
     else [newline, newline] @ ''**Permission policy not fully enforced**'' @ [newline] @
       concat (map (\<lambda>e. newline # ''- '' @ e) (rz_unenforced z)))"

definition RETIRED_TRIGGERS :: "string list" where "RETIRED_TRIGGERS = [''decision'', ''decision_retry'']"

definition retired_trigger_summary :: "string \<Rightarrow> string" where
  "retired_trigger_summary trigger = ''Retired pipeline trigger '' @ [CHR 0x27] @ trigger @ [CHR 0x27] @
     '' is no longer supported. '' @ ''Submit work through a ticket workflow instead.''"

definition exit_summary :: "worker_tools \<Rightarrow> job_spec \<Rightarrow> int \<Rightarrow> string" where
  "exit_summary wt spec code = (if code = 124 then ''Agent timed out after '' @ mt_str (wt_memory wt) (ry_timeout (sp_runtime_policy spec)) @ '' seconds.''
     else ''Agent exited with code '' @ pid_text (Some code) @ ''.'')"

definition completed_summary :: "json list \<Rightarrow> string" where
  "completed_summary changes = (if changes = [] then ''Agent completed execution (inferred from exit code).''
     else ''Agent completed execution; captured '' @ nat_text (length changes) @ '' changed '' @
       (if length changes = 1 then ''file'' else ''files'') @ ''.'')"

definition refresh_ticket_prompt :: "worker_tools \<Rightarrow> ticket_ref \<Rightarrow> string \<Rightarrow> ticket_view \<Rightarrow> ticket_error + string" where
  "refresh_ticket_prompt wt ref task_input view =
     (let protocol = newline # ''## Flowgency reporting protocol'' in
      bindE (ticket_task_input (wt_co wt) ref view) (\<lambda>refreshed.
      Inr (case split_at protocol task_input of
          None \<Rightarrow> refreshed
        | Some (_, tail) \<Rightarrow> refreshed @ protocol @ tail)))"


section \<open>Memory, tickets and logs\<close>

text \<open>The texts of a memory binding are texts here; \<open>wt_split\<close> is the parent and the name of a path.\<close>

definition resolved_memory_of :: "worker_tools \<Rightarrow> job_spec \<Rightarrow> ticket_error + resolved_memory" where
  "resolved_memory_of wt spec =
     (let b = sp_memory spec in
      bindE (py_dict (mb_selector b)) (\<lambda>d.
      bindE (item (JObj d) ''scope'') (\<lambda>scope.
      bindE (selector_of_json (JObj [(''scope'', scope), (''channel'', get_or JNull d ''channel'')])) (\<lambda>m.
      bindE (as_string (mb_canonical_json b)) (\<lambda>canonical.
      bindE (as_string (mb_memory_hash b)) (\<lambda>h.
      bindE (as_string (mb_path b)) (\<lambda>p.
      Inr \<lparr>rm_selector = m, rm_canonical_json = canonical, rm_memory_hash = h, rm_root = fst (wt_split wt p),
        rm_name = snd (wt_split wt p)\<rparr>)))))))"

definition requires_live_ticket_tools :: "job_spec \<Rightarrow> config_snapshot \<Rightarrow> bool" where
  "requires_live_ticket_tools spec snapshot =
     (if sp_ticket_target spec \<noteq> None then True
      else if sp_trigger spec \<notin> {''manual_prompt'', ''scheduled_prompt''} then False
      else (case map_of (cs_teams snapshot) (sp_team_key spec) of
          None \<Rightarrow> False | Some team \<Rightarrow> tc_workflows team \<noteq> []))"

definition ticket_runtime :: "worker_tools \<Rightarrow> job_spec \<Rightarrow> ticket_error + bool" where
  "ticket_runtime wt spec =
     bindE (wt_config wt) (\<lambda>snapshot.
     if \<not> requires_live_ticket_tools spec snapshot then Inr False
     else bindE (ensure (cs_library snapshot \<noteq> None) valueError) (\<lambda>_. Inr True))"

text \<open>The broker: a session of the run, and a server, which is a parameter. A server that does not start gives the
  session back.\<close>

definition start_broker :: "worker_tools \<Rightarrow> job_authority \<Rightarrow> access_grant exec" where
  "start_broker wt a =
     bindS (on_runs (on_access (open_session (wt_jobs wt) (wt_token_hash wt) (wt_nonce wt) (wt_secret wt) a))) (\<lambda>grant.
     catchS (bindS (tryliftS (wt_serving wt)) (\<lambda>_. returnS grant))
       (\<lambda>e. bindS (on_runs (on_access (close_session (gr_session_id grant)))) (\<lambda>_. failS e)))"

definition close_broker :: "worker_tools \<Rightarrow> string \<Rightarrow> unit exec" where
  "close_broker wt session_id =
     bindS (on_runs (on_access (close_session session_id))) (\<lambda>_. tryliftS (wt_shutdown wt))"

definition cleanup_message :: "string \<Rightarrow> string" where
  "cleanup_message phase = (if phase = ''broker_close'' then ''Ticket broker shutdown failed'' else ''Ticket cleanup failed'')"

definition ticket_cleanup_error :: "worker_tools \<Rightarrow> string \<Rightarrow> ticket_error \<Rightarrow> (string, json) dict" where
  "ticket_cleanup_error wt phase e =
     [(''phase'', JStr phase), (''kind'', JStr (wt_kind wt e)), (''message'', JStr (cleanup_message phase))]"

text \<open>\<open>_finalize_ticket_runtime\<close> of a broker that has started; it answers with the message of what failed.\<close>

definition finalize_ticket_runtime ::
  "worker_tools \<Rightarrow> job_authority \<Rightarrow> job_key \<Rightarrow> job_record \<Rightarrow> string \<Rightarrow> cleanup_evidence option \<Rightarrow> string option exec" where
  "finalize_ticket_runtime wt a k r generation stopped =
     (let evidence = (case stopped of Some x \<Rightarrow> x
        | None \<Rightarrow> \<lparr>se_job_id = sp_job_id (jr_spec r), se_generation = generation, se_confirmed = False,
                   se_reason = ''unknown''\<rparr>) in
      bindS (tryE (close_broker wt generation)) (\<lambda>closed.
      bindS (tryE (on_runs (cleanup (wt_co wt) (wt_clock wt) a (stop_evidence.truncate evidence)))) (\<lambda>cleaned.
      let result = (case cleaned of Inr c \<Rightarrow> c | Inl _ \<Rightarrow> \<lparr>cu_cleared = [], cu_pending_cleanup = []\<rparr>);
          failed = (case (cleaned, closed) of (Inl e, _) \<Rightarrow> Some (''cleanup'', e)
            | (_, Inl e) \<Rightarrow> Some (''broker_close'', e) | _ \<Rightarrow> None) in
      bindS (on_job wt (merge_result_metadata (wt_jobs wt) k [(''ticket_cleanup'', JObj (cleanup_metadata evidence
          (cu_cleared result) (cu_pending_cleanup result)
          (map_option (\<lambda>(phase, e). ticket_cleanup_error wt phase e) failed)))])) (\<lambda>_.
      returnS (map_option (cleanup_message \<circ> fst) failed)))))"

text \<open>The logs of a run stand in a directory of the team, one for each day.\<close>

abbreviation log_directory :: "worker_tools \<Rightarrow> path" where "log_directory wt \<equiv> [''logs'', wt_day wt]"

definition log_stem :: "job_spec \<Rightarrow> string" where
  "log_stem spec = sp_agent_name spec @ ''-'' @ sp_trigger spec @ ''-'' @ sp_job_id spec"

definition write_log :: "worker_tools \<Rightarrow> string \<Rightarrow> string \<Rightarrow> unit exec" where
  "write_log wt name content = on_logs (syscall (wt_log_hazard wt) (replace_file (log_directory wt) name (utf8 content)))"

definition prompt_name :: "job_spec \<Rightarrow> string" where "prompt_name spec = log_stem spec @ ''.prompt''"

section \<open>Running the agent\<close>

definition prepare_prompt :: "worker_tools \<Rightarrow> job_record \<Rightarrow> unit exec" where
  "prepare_prompt wt r = (case sp_ticket_target (jr_spec r) of
      None \<Rightarrow> returnS ()
    | Some target \<Rightarrow>
        bindS (readS (\<lambda>s. mapErr Failure (preflight (wt_co wt) (wt_moment wt) r (runs_of s)))) (\<lambda>view.
        bindS (tryliftS (refresh_ticket_prompt wt (tg_ref target) (sp_task_input (jr_spec r)) view)) (\<lambda>content.
        write_log wt (prompt_name (jr_spec r)) content)))"

definition run_agent :: "agent_runtime \<Rightarrow> agent_request \<Rightarrow> (ticket_error + agent_result) exec" where
  "run_agent g q = bindS (putS (\<lambda>s. s\<lparr>wk_invoked := True\<rparr>)) (\<lambda>_. tryE (by_agent (gt_run g q)))"

text \<open>The run inside its \<open>try ... finally\<close>: the session is closed and the tickets are cleaned up however it ends.\<close>

definition with_broker ::
  "worker_tools \<Rightarrow> job_authority \<Rightarrow> job_key \<Rightarrow> job_record \<Rightarrow> agent_runtime \<Rightarrow> agent_request \<Rightarrow> access_grant \<Rightarrow>
   ((ticket_error + agent_result) \<times> string option) exec" where
  "with_broker wt a k r g q grant =
     bindS (tryE (bindS (prepare_prompt wt r) (\<lambda>_. run_agent g (q\<lparr>ir_ticket_tools := Some grant\<rparr>)))) (\<lambda>ended.
     bindS (finalize_ticket_runtime wt a k r (gr_session_id grant) (case ended of Inr (Inr z) \<Rightarrow> rz_stop z | _ \<Rightarrow> None)) (\<lambda>m.
     case ended of Inl e \<Rightarrow> failS e | Inr z \<Rightarrow> returnS (z, m)))"

definition run_with_tickets ::
  "worker_tools \<Rightarrow> job_authority \<Rightarrow> job_key \<Rightarrow> job_record \<Rightarrow> agent_runtime \<Rightarrow> agent_request \<Rightarrow>
   (agent_result \<times> string option) exec" where
  "run_with_tickets wt a k r g q =
     bindS (tryliftS (ticket_runtime wt (jr_spec r))) (\<lambda>live.
     bindS (if live then bindS (start_broker wt a) (with_broker wt a k r g q)
            else bindS (run_agent g q) (\<lambda>z. returnS (z, None))) (\<lambda>(z, message).
     bindS (tryliftS z) (\<lambda>z. returnS (z, message))))"

section \<open>The end of a run\<close>

definition failed_memory_artifacts :: "worker_tools \<Rightarrow> job_key \<Rightarrow> path \<Rightarrow> files \<Rightarrow> json list exec" where
  "failed_memory_artifacts wt k stage old =
     bindS (on_memory (lookM (\<lambda>t. Inr (look t stage)))) (\<lambda>c.
     bindS (own_job wt k) (\<lambda>_. tryliftS (wt_keep_stage wt old c)))"

definition retained_failed_artifacts :: "worker_tools \<Rightarrow> job_key \<Rightarrow> json list exec" where
  "retained_failed_artifacts wt k = bindS (own_job wt k) (\<lambda>_. tryliftS (wt_retained wt))"

definition with_artifacts :: "run_facts \<Rightarrow> json list \<Rightarrow> run_facts" where
  "with_artifacts f arts = f\<lparr>fa_publication := JObj [(''failed_artifacts'', JList arts)]\<rparr>"

text \<open>\<open>MemoryPublicationError\<close> with its subclass, and what is a \<open>ValueError\<close>.\<close>

definition publication_failures :: "ticket_error set" where
  "publication_failures = {publicationError, publicationConflict, valueError, authorityError, memoryStoreError}"

definition success_record :: "string \<Rightarrow> run_facts \<Rightarrow> job_record \<Rightarrow> job_record" where
  "success_record summary f r = r\<lparr>jr_started_at := fa_started f, jr_stdout_path := fa_stdout f, jr_stderr_path := fa_stderr f,
     jr_exit_code := fa_exit_code f, jr_duration_seconds := fa_duration f,
     jr_changed_files := JList (fa_changes f), jr_execution_summary := Some summary, jr_base_sha := fa_base f,
     jr_session_id := fa_session f, jr_copilot_home := fa_home f\<rparr>"

definition record_success :: "worker_tools \<Rightarrow> job_key \<Rightarrow> string \<Rightarrow> run_facts \<Rightarrow> job_record exec" where
  "record_success wt k summary f = bindS (own_job wt k) (\<lambda>r.
     if jr_status r \<noteq> Complete then returnS r else rewrite_job wt k (success_record summary f r))"

definition publish_run ::
  "worker_tools \<Rightarrow> job_key \<Rightarrow> path \<Rightarrow> memory_stage \<Rightarrow> files \<Rightarrow> run_facts \<Rightarrow> string \<Rightarrow> job_record exec" where
  "publish_run wt k m stage old f note =
     (let mt = wt_memory wt; d = stages (rm_memory_hash (mg_resolved stage)) @ [mg_job_id stage] in
      catchS
        (bindS (copy_launch_memory_to_stage mt m d) (\<lambda>_.
         bindS (on_memory (prepare_publication mt stage (fst k) (Some k))) (\<lambda>p.
         bindS (on_memory (apply_publication mt None False (Some (wt_retain wt)) True p)) (\<lambda>applied.
         bindS (on_memory (finalize_publication mt applied)) (\<lambda>_.
         record_success wt k (completed_summary (fa_changes f) @ note) f)))))
        (\<lambda>e. if e \<notin> publication_failures then failS e
          else let summary = ''Memory publication failed: '' @ mt_message mt e @ note in
            bindS (own_job wt k) (\<lambda>current.
            bindS (retained_failed_artifacts wt k) (\<lambda>arts.
            bindS (if arts \<noteq> [] then returnS arts else failed_memory_artifacts wt k d old) (\<lambda>arts.
            if jr_status current = Failed then merge_failed_terminal_metadata wt k summary (with_artifacts f arts)
            else terminalize_failure wt k summary (with_artifacts f arts))))))"

definition facts_of :: "worker_tools \<Rightarrow> job_spec \<Rightarrow> agent_result \<Rightarrow> worker \<Rightarrow> run_facts" where
  "facts_of wt spec z s = \<lparr>fa_started = wk_started s,
     fa_stdout = JStr (wt_log_path wt (log_stem spec @ ''.out'')),
     fa_stderr = (if rz_stderr z = [] then JNull else JStr (wt_log_path wt (log_stem spec @ ''.err''))),
     fa_exit_code = JInt (rz_exit_code z), fa_duration = rz_duration z,
     fa_changes = (if rz_changed_files z = [] then wt_git_changes wt else rz_changed_files z),
     fa_base = wk_base_sha s, fa_publication = JNull, fa_session = rz_session_id z, fa_home = rz_copilot_home z\<rparr>"

text \<open>What is recorded of a run whose agent has ended: its output, the writes it was denied, and the outcome.\<close>

definition report_run ::
  "worker_tools \<Rightarrow> job_key \<Rightarrow> job_spec \<Rightarrow> path \<Rightarrow> memory_stage \<Rightarrow> files \<Rightarrow> agent_result \<Rightarrow> string option \<Rightarrow> job_record exec" where
  "report_run wt k spec m stage old z message =
     (let note = unenforced_policy_note z; d = stages (rm_memory_hash (mg_resolved stage)) @ [mg_job_id stage] in
      bindS (write_log wt (log_stem spec @ ''.out'') (rz_stdout z)) (\<lambda>_.
      bindS (if rz_stderr z = [] then returnS () else write_log wt (log_stem spec @ ''.err'') (rz_stderr z)) (\<lambda>_.
      bindS (if rz_write_attempts z = [] then returnS () else
         bindS (on_job wt (merge_result_metadata (wt_jobs wt) k [(''write_attempts'', JList (rz_write_attempts z))]))
           (\<lambda>_. returnS ())) (\<lambda>_.
      bindS (readS (\<lambda>s. Inr (facts_of wt spec z s))) (\<lambda>f. case message of
          Some x \<Rightarrow> terminalize_failure wt k (x @ note) f
        | None \<Rightarrow>
            if rz_exit_code z \<noteq> 0
            then bindS (failed_memory_artifacts wt k d old) (\<lambda>arts.
              terminalize_failure wt k (exit_summary wt spec (rz_exit_code z) @ note) (with_artifacts f arts))
            else publish_run wt k m stage old f note)))))"

section \<open>Executing a job\<close>

definition is_cancelled :: "worker_tools \<Rightarrow> job_authority \<Rightarrow> bool exec" where
  "is_cancelled wt a = bindS (authority_job wt a) (\<lambda>r. returnS (jr_status r = Cancelled))"

text \<open>\<open>exclusive_lock\<close> of \<^verbatim>\<open>flowgency/fs/locks.py\<close>, which waits: the job may be cancelled at each poll.\<close>

fun wait_for_lock :: "worker_tools \<Rightarrow> job_authority \<Rightarrow> (worker_world \<Rightarrow> worker_world) list \<Rightarrow> unit exec" where
  "wait_for_lock wt a [] = bindS (is_cancelled wt a) (\<lambda>c. if c then failS lockCancelled else returnS ())"
| "wait_for_lock wt a (w # ws) = bindS (is_cancelled wt a) (\<lambda>c. if c then failS lockCancelled else
     bindS (is_cancelled wt a) (\<lambda>c. if c then failS lockCancelled else
     bindS (by_agent (\<lambda>s. (w s, Inr ()))) (\<lambda>_. wait_for_lock wt a ws)))"

definition launch_name :: string where "launch_name = ''launch''"

text \<open>The launch view of the job, with its memory.\<close>

definition prepare_launch ::
  "worker_tools \<Rightarrow> job_spec \<Rightarrow> agent_runtime \<Rightarrow> bool \<times> node \<Rightarrow> files \<Rightarrow> path exec" where
  "prepare_launch wt spec g artifact fs =
     bindS (on_view (create_launch_view (wt_view_hazard wt) (mt_casefold (wt_memory wt)) (fst artifact) (snd artifact) launch_name)) (\<lambda>_.
     bindS (on_view (prepare_launch_memory (wt_view_hazard wt) [launch_name] fs)) (\<lambda>m.
     bindS (if sp_private_prompts spec = [] then returnS ()
            else if \<not> gt_has_projector g then failS valueError else on_view (wt_project wt spec)) (\<lambda>_. returnS m)))"

definition begin_run :: "worker_tools \<Rightarrow> job_key \<Rightarrow> job_record exec" where
  "begin_run wt k =
     bindS (putS (\<lambda>s. s\<lparr>wk_started := Some (wt_started_at wt)\<rparr>)) (\<lambda>_.
     bindS (on_job wt (transition_job (wt_jobs wt) k WaitingForMemory Running (\<lambda>r.
       r\<lparr>jr_worker_pid := Some (wt_pid wt), jr_started_at := Some (wt_started_at wt)\<rparr>))) (\<lambda>r.
     bindS (putS (\<lambda>s. s\<lparr>wk_base_sha := wt_base wt\<rparr>)) (\<lambda>_. returnS r)))"

definition run_locked ::
  "worker_tools \<Rightarrow> job_authority \<Rightarrow> job_key \<Rightarrow> job_spec \<Rightarrow> agent_runtime \<Rightarrow> bool \<times> node \<Rightarrow> resolved_memory \<Rightarrow> job_record exec"
where
  "run_locked wt a k spec g artifact memory =
     bindS (is_cancelled wt a) (\<lambda>c. if c then mark_cancelled_if_waiting wt k else
     bindS (on_memory (ensure_memory_locked (wt_memory wt) memory)) (\<lambda>snapshot.
     bindS (on_memory (stage_memory_locked (wt_memory wt) memory (sp_job_id spec))) (\<lambda>stage.
     bindS (prepare_launch wt spec g artifact (sn_files snapshot)) (\<lambda>m.
     bindS (begin_run wt k) (\<lambda>r.
     bindS (on_logs (make_dirs (wt_log_hazard wt) [] (log_directory wt))) (\<lambda>_.
     bindS (write_log wt (prompt_name (jr_spec r)) (sp_task_input (jr_spec r))) (\<lambda>_.
     bindS (run_with_tickets wt a k r g \<lparr>ir_spec = spec, ir_task_file = wt_log_path wt (prompt_name (jr_spec r)),
        ir_launch_dir = [launch_name], ir_memory_dir = m, ir_ticket_tools = None\<rparr>) (\<lambda>(z, message).
     report_run wt k spec m stage (sn_files snapshot) z message))))))))"

definition attempt_run :: "worker_tools \<Rightarrow> job_authority \<Rightarrow> job_key \<Rightarrow> job_spec \<Rightarrow> job_record exec" where
  "attempt_run wt a k spec =
     bindS (authority_job wt a) (\<lambda>_.
     bindS (tryliftS (wt_runtime wt spec)) (\<lambda>g.
     bindS (tryliftS (wt_artifact wt spec)) (\<lambda>artifact.
     bindS (tryliftS (resolved_memory_of wt spec)) (\<lambda>memory.
     catchS
       (bindS (on_memory (memory_lock (wt_memory wt) False memory)) (\<lambda>_.
        bindS (wait_for_lock wt a (wt_waits wt)) (\<lambda>_.
        run_locked wt a k spec g artifact memory)))
       (\<lambda>e. if e = lockCancelled then mark_cancelled_if_waiting wt k else failS e)))))"

definition BEFORE_RUNTIME :: "(string, json) dict" where
  "BEFORE_RUNTIME = [(''execution_failure'', JObj [(''phase'', JStr ''before_runtime'')])]"

definition record_error :: "worker_tools \<Rightarrow> job_key \<Rightarrow> ticket_error \<Rightarrow> job_record exec" where
  "record_error wt k e = bindS (readS (\<lambda>s. Inr (no_facts s))) (\<lambda>f.
     if e = authorityError
     then terminalize_failure wt k (''Execution authority error: '' @ mt_message (wt_memory wt) e) f
     else bindS (terminalize_failure wt k (''Execution error: '' @ mt_message (wt_memory wt) e) f) (\<lambda>final.
       bindS (readS (\<lambda>s. Inr (wk_invoked s))) (\<lambda>invoked.
       if \<not> invoked \<and> jr_status final = Failed
       then on_job wt (merge_result_metadata (wt_jobs wt) k BEFORE_RUNTIME) else returnS final)))"

definition execute_steps :: "worker_tools \<Rightarrow> job_authority \<Rightarrow> job_record exec" where
  "execute_steps wt a =
     (let k = (au_team_id a, au_job_id a) in
      bindS (authority_job wt a) (\<lambda>r.
      if sp_trigger (jr_spec r) \<in> set RETIRED_TRIGGERS
      then on_job wt (transition_job (wt_jobs wt) k Queued Failed (\<lambda>x. x\<lparr>jr_completed_at := Some (wt_completed_at wt),
        jr_execution_summary := Some (retired_trigger_summary (sp_trigger (jr_spec r)))\<rparr>))
      else bindS (on_job wt (transition_job (wt_jobs wt) k Queued WaitingForMemory
          (\<lambda>r. r\<lparr>jr_worker_pid := Some (wt_pid wt)\<rparr>))) (\<lambda>r.
        catchS (attempt_run wt a k (jr_spec r)) (record_error wt k))))"

definition new_worker :: "worker_world \<Rightarrow> worker" where
  "new_worker w = worker_world.extend w \<lparr>wk_started = None, wk_base_sha = JNull, wk_invoked = False\<rparr>"

definition execute_job :: "worker_tools \<Rightarrow> job_authority \<Rightarrow> (worker_world, failure, job_record) op" where
  "execute_job wt a w = (case execute_steps wt a (new_worker w) of (s, out) \<Rightarrow> (worker_world.truncate s, out))"

end
