(* ===== verification/ExecutionSafety.thy ===== *)
theory ExecutionSafety
  imports Execution
begin

text \<open>
  What a worker does to the job files. Everything a run does, whether it returns, raises or is killed, takes the
  record of a job along: a relation between records that is kept by the program's own updates is kept by the whole
  run, when the agent and the other processes keep it. A worker that is not killed leaves its job terminal, and the
  mark that a job failed before its agent ran is put only on such a job.
\<close>

section \<open>Job files that evolve\<close>

definition evolves :: "job_tools \<Rightarrow> (job_record \<Rightarrow> job_record \<Rightarrow> bool) \<Rightarrow> job_area \<Rightarrow> job_area \<Rightarrow> bool" where
  "evolves jt R s t \<longleftrightarrow> ja_readonly t = ja_readonly s \<and>
     (\<forall>k r. read_job jt s k None = Inr r \<longrightarrow> (\<exists>r'. read_job jt t k None = Inr r' \<and> R r r'))"

lemma evolvesD: "evolves jt R s t \<Longrightarrow> read_job jt s k None = Inr r \<Longrightarrow> \<exists>r'. read_job jt t k None = Inr r' \<and> R r r'"
  unfolding evolves_def by blast

text \<open>An operation, seen through the job files in its state.\<close>

definition evolving ::
  "job_tools \<Rightarrow> (job_record \<Rightarrow> job_record \<Rightarrow> bool) \<Rightarrow> ('s \<Rightarrow> job_area) \<Rightarrow> ('s, 'e, 'a) op \<Rightarrow> bool" where
  "evolving jt R v m \<longleftrightarrow> (\<forall>s. evolves jt R (v s) (v (fst (m s))))"

named_theorems evolvingI \<open>rules on how job files evolve\<close>

lemma evolvingI': "(\<And>s t x. m s = (t, x) \<Longrightarrow> evolves jt R (v s) (v t)) \<Longrightarrow> evolving jt R v m"
  unfolding evolving_def by (metis prod.collapse)

lemma evolvingD: "evolving jt R v m \<Longrightarrow> m s = (t, x) \<Longrightarrow> evolves jt R (v s) (v t)"
  unfolding evolving_def by (metis fst_conv)

definition jobs_of :: "'x worker_world_scheme \<Rightarrow> job_area" where "jobs_of s = ma_jobs (ww_memory s)"

text \<open>A relation that the updates of this program keep: those that change no metadata and do not complete a job, and
  those that add metadata other than the mark of a failed execution.\<close>

locale job_relation =
  fixes R :: "job_record \<Rightarrow> job_record \<Rightarrow> bool"
  assumes reflexive: "R r r"
    and transitive: "R r r1 \<Longrightarrow> R r1 r2 \<Longrightarrow> R r r2"
    and advance: "advanced r r' \<Longrightarrow> jr_result_metadata r' = jr_result_metadata r \<Longrightarrow>
      (is_launched r \<longrightarrow> is_launched r') \<Longrightarrow> (jr_status r' = Complete \<longrightarrow> jr_status r = Complete) \<Longrightarrow> R r r'"
    and merge: "merged_metadata (jr_result_metadata r) d = Inr m \<Longrightarrow> ''execution_failure'' \<notin> set (keys d) \<Longrightarrow>
      R r (r\<lparr>jr_result_metadata := m\<rparr>)"
begin

lemma evolves_refl: "evolves jt R s s"
  by (simp add: evolves_def reflexive)

lemma evolves_trans:
  assumes "evolves jt R s t" "evolves jt R t u"
  shows "evolves jt R s u"
proof -
  have "\<exists>r''. read_job jt u k None = Inr r'' \<and> R r r''" if "read_job jt s k None = Inr r" for k r
    using that assms transitive unfolding evolves_def by meson
  with assms show ?thesis by (simp add: evolves_def)
qed

lemma evolves_stored:
  assumes "faithful_files jt" "read_job jt s k None = Inr r" "R r r'" "jr_spec r' = jr_spec r"
    "jr_authority_digest r' = jr_authority_digest r"
  shows "evolves jt R s (stored jt k r' s)"
proof -
  from read_job_sound [OF assms(1,2)] assms(4,5) have "sound_record jt r'" by (simp add: sound_record_def)
  with assms show ?thesis by (auto simp: evolves_def read_stored reflexive) (simp add: stored_def)
qed

lemma evolving_keeps: "keeps v m \<Longrightarrow> evolving jt R v m"
  by (simp add: keeps_def evolving_def evolves_refl)

lemma evolving_bind [evolvingI]:
  assumes "evolving jt R v m" "\<And>x. evolving jt R v (f x)"
  shows "evolving jt R v (bindS m f)"
proof (rule evolvingI')
  fix s t x assume "bindS m f s = (t, x)"
  with evolvingD [OF assms(1)] evolvingD [OF assms(2)] evolves_trans show "evolves jt R (v s) (v t)"
    by (cases x) (fastforce simp: bindS_Inr bindS_Inl)+
qed

lemma evolving_read [evolvingI]: "evolving jt R v (readS f)"
  by (rule evolving_keeps) (rule keeps_read)

lemma evolving_lift: "(\<And>x. m = Inr x \<Longrightarrow> evolving jt R v (f x)) \<Longrightarrow> evolving jt R v (bindS (tryliftS m) f)"
  by (cases m) (simp_all add: evolving_def evolves_refl)

lemma evolving_if [evolvingI]:
  "(c \<Longrightarrow> evolving jt R v m) \<Longrightarrow> (\<not> c \<Longrightarrow> evolving jt R v m') \<Longrightarrow> evolving jt R v (if c then m else m')"
  by simp

lemma evolving_sum [evolvingI]:
  "(\<And>e. evolving jt R v (f e)) \<Longrightarrow> (\<And>y. evolving jt R v (g y)) \<Longrightarrow> evolving jt R v (case x of Inl e \<Rightarrow> f e | Inr y \<Rightarrow> g y)"
  by (cases x) simp_all

lemma evolving_option [evolvingI]:
  "evolving jt R v m \<Longrightarrow> (\<And>y. evolving jt R v (f y)) \<Longrightarrow> evolving jt R v (case x of None \<Rightarrow> m | Some y \<Rightarrow> f y)"
  by (cases x) simp_all

lemma evolving_pair [evolvingI]: "(\<And>y z. evolving jt R v (f y z)) \<Longrightarrow> evolving jt R v (case x of (y, z) \<Rightarrow> f y z)"
  by (cases x) simp

lemma evolving_when [evolvingI]: "evolving jt R v m \<Longrightarrow> evolving jt R v (whenS c m)"
  by (simp add: evolving_def whenS_def evolves_refl)

lemma evolving_catch [evolvingI]:
  assumes "evolving jt R v m" "\<And>e. evolving jt R v (h e)"
  shows "evolving jt R v (catchS m h)"
proof (rule evolvingI')
  fix s t x assume "catchS m h s = (t, x)"
  with evolvingD [OF assms(1)] evolvingD [OF assms(2)] evolves_trans show "evolves jt R (v s) (v t)"
    by (cases x) (fastforce simp: catchS_Inr catchS_Inl)+
qed

lemma evolving_tryE [evolvingI]: "evolving jt R v m \<Longrightarrow> evolving jt R v (tryE m)"
  by (rule evolvingI') (auto simp: tryE_def dest: evolvingD split: prod.splits sum.splits failure.splits)

text \<open>The updates of one job.\<close>

lemma evolving_update:
  assumes "faithful_files jt"
    and "\<And>r r'. f r = Inr r' \<Longrightarrow> R r r' \<and> jr_spec r' = jr_spec r \<and> jr_authority_digest r' = jr_authority_digest r"
  shows "evolving jt R (\<lambda>ja. ja) (update_job jt k f)"
proof (rule evolvingI')
  fix s t x assume "update_job jt k f s = (t, x)"
  then show "evolves jt R s t"
  proof (cases rule: update_job_cases)
    case (wrote r r')
    with assms(2) [OF wrote(2)] evolves_stored [OF assms(1) wrote(1)] show ?thesis by blast
  qed (simp add: evolves_refl)
qed

lemma evolving_transition [evolvingI]:
  assumes "faithful_files jt" "run_fields f" "\<And>r. jr_result_metadata (f r) = jr_result_metadata r"
    and "\<And>r. is_launched r \<Longrightarrow> is_launched (f r)" "status \<noteq> Complete"
  shows "evolving jt R (\<lambda>ja. ja) (transition_job jt k expected status f)"
  unfolding transition_job_def
proof (rule evolving_update [OF assms(1)])
  fix r r' :: job_record
  assume step: "bindE (ensure (jr_status r = expected) invalidTransition) (\<lambda>_.
     bindE (ensure (status \<in> set (VALID_TRANSITIONS expected)) invalidTransition) (\<lambda>_.
     Inr (f (r\<lparr>jr_status := status\<rparr>)))) = Inr r'"
  with operations_advance(1) [OF assms(2)] have "advanced r r'" unfolding advances_def by blast
  moreover from step have "r' = f (r\<lparr>jr_status := status\<rparr>)" by (auto simp: bindE_eq_Inr)
  moreover have "is_launched (r\<lparr>jr_status := status\<rparr>) = is_launched r" by (simp add: is_launched_def)
  ultimately show "R r r' \<and> jr_spec r' = jr_spec r \<and> jr_authority_digest r' = jr_authority_digest r"
    using assms(2-5) by (auto simp: advanced_def run_fields_def intro!: advance)
qed

lemma evolving_merge [evolvingI]:
  assumes "faithful_files jt" "''execution_failure'' \<notin> set (keys d)"
  shows "evolving jt R (\<lambda>ja. ja) (merge_result_metadata jt k d)"
  unfolding merge_result_metadata_def
  by (rule evolving_update [OF assms(1)]) (use merge assms(2) in \<open>auto simp: bindE_eq_Inr\<close>)

text \<open>Through the parts of the world.\<close>

lemma evolving_jobM [evolvingI]: "evolving jt R (\<lambda>ja. ja) m \<Longrightarrow> evolving jt R ma_jobs (jobM mt m)"
  by (rule evolvingI') (auto simp: jobM_def evolves_refl dest: evolvingD split: hazard.splits prod.splits)

lemma evolving_memory [evolvingI]: "evolving jt R ma_jobs m \<Longrightarrow> evolving jt R jobs_of (on_memory m)"
  by (rule evolvingI') (auto simp: on_memory_def jobs_of_def dest: evolvingD split: prod.splits)

lemma evolving_quiet [evolvingI]: "keeps ma_jobs m \<Longrightarrow> evolving jt R jobs_of (on_memory m)"
  by (intro evolvingI evolving_keeps)

lemma evolving_view [evolvingI]: "evolving jt R jobs_of (on_view m)" "evolving jt R jobs_of (on_logs m)"
  by (rule evolvingI'; auto simp: on_view_def on_logs_def jobs_of_def evolves_refl split: prod.splits)+


lemma evolving_runs [evolvingI]:
  assumes "keeps ra_jobs m"
  shows "evolving jt R jobs_of (on_runs m)"
proof (rule evolvingI')
  fix s t x assume "on_runs m s = (t, x)"
  moreover obtain u y where u: "m (runs_of s) = (u, y)" by fastforce
  ultimately have "jobs_of t = ra_jobs u" by (auto simp: on_runs_def jobs_of_def)
  moreover have "ra_jobs u = jobs_of s" using keepsD [OF assms u] by (simp add: runs_of_def jobs_of_def)
  ultimately show "evolves jt R (jobs_of s) (jobs_of t)" by (simp add: evolves_refl)
qed

lemma evolving_put [evolvingI]: "(\<And>s. v (f s) = v s) \<Longrightarrow> evolving jt R v (putS f)"
  by (simp add: evolving_def evolves_refl)

section \<open>The steps of a worker\<close>

lemma evolving_settle_job:
  assumes "faithful_files (mt_jobs mt)" "run_fields f" "\<And>r. jr_result_metadata (f r) = jr_result_metadata r"
    and "\<And>r. is_launched r \<Longrightarrow> is_launched (f r)" "status \<noteq> Complete"
  shows "evolving (mt_jobs mt) R ma_jobs (settle_job mt k status f)"
  unfolding settle_job_def
  by (intro evolving_catch evolving_bind evolving_jobM evolving_transition evolving_read evolving_if assms)

lemma evolving_failed [evolvingI]:
  "faithful_files (mt_jobs mt) \<Longrightarrow> evolving (mt_jobs mt) R ma_jobs (mark_failed mt k x)"
  unfolding mark_failed_def by (rule evolving_settle_job) (simp_all add: run_fields_def is_launched_def)

end

lemma keeps_prod [keepsI]: "(\<And>y z. keeps v (f y z)) \<Longrightarrow> keeps v (case x of (y, z) \<Rightarrow> f y z)"
  by (cases x) simp

lemma keeps_access: "keeps aa_jobs m \<Longrightarrow> keeps ra_jobs (on_access m)"
  by (rule keepsI') (auto simp: on_access_def dest: keepsD split: prod.splits)

lemma keeps_registry [keepsI]: "keeps aa_jobs (save_registry k g)" "keeps aa_jobs (drop_session k g i)"
  by (auto simp: keeps_def save_registry_def drop_session_def)

lemma keeps_session_jobs [keepsI]:
  "keeps ra_jobs (on_access (open_session jt h n x a))" "keeps ra_jobs (on_access (close_session i))"
  unfolding open_session_def close_session_def Let_def by (intro keepsI keeps_access)+

lemma cleanup_target_jobs: "ra_jobs (fst (cleanup_target co now r stopped x s)) = ra_jobs s"
  by (auto simp: cleanup_target_def on_store_def Let_def split: prod.split sum.split)

lemma cleanup_targets_jobs: "ra_jobs (fst (cleanup_targets co clock r stopped xs s)) = ra_jobs s"
proof (induction xs arbitrary: clock s)
  case (Cons x xs)
  show ?case using Cons.IH cleanup_target_jobs [of co "clock 0" r stopped x s]
    by (simp add: split_beta Let_def)
qed simp

lemma keeps_tickets_jobs [keepsI]: "keeps ra_jobs (cleanup co clock a stopped)"
proof -
  have "keeps ra_jobs (\<lambda>s. if xs = [] then (s, Inr y) else if b then (s, Inr z)
      else case cleanup_targets co clock r stopped xs s of (t, result) \<Rightarrow> (t, Inr result))" for xs b r y z
    using cleanup_targets_jobs by (auto simp: keeps_def split_beta)
  then show ?thesis unfolding cleanup_def by (intro keepsI)
qed

lemma keeps_publication_jobs [keepsI]:
  "keeps ma_jobs (ensure_memory_locked mt r)" "keeps ma_jobs (stage_memory_locked mt r j)" "keeps ma_jobs (memory_lock mt b r)"
  "keeps ma_jobs (prepare_publication mt stage team k)" "keeps ma_jobs (run_transaction_locked mt c b tx)"
  unfolding ensure_memory_locked_def stage_memory_locked_def memory_lock_def take_lock_def prepare_publication_def
    run_transaction_locked_def write_transaction_journal_def write_backup_def canonical_directory_def
    journal_path_def backup_path_def Let_def
  by (intro keepsI keeps_child)+


lemma keeps_make_dirs [keepsI]: "keeps ma_jobs (make_dirs hz d ns)"
proof (induction ns arbitrary: d)
  case (Cons n ns)
  have "keeps ma_jobs (make_child hz d n)"
    unfolding make_child_def by (intro keepsI keeps_syscall) simp_all
  with Cons show ?case unfolding make_dirs.simps by (intro keepsI)
qed (simp add: keeps_read)

lemma keeps_prune [keepsI]: "keeps ma_jobs (prune_entries mt d P es)"
proof (induction mt d P es rule: prune_entries.induct [case_names no_entry dir_entry file_entry link_entry])
  case (file_entry mt d P n b es)
  then show ?case unfolding prune_entries.simps by (intro keepsI)
next
  case (link_entry mt d P n b es)
  then show ?case unfolding prune_entries.simps by (intro keepsI)
qed (simp_all add: keeps_pure)

lemma keeps_on_memory: "keeps ma_jobs m \<Longrightarrow> keeps jobs_of (on_memory m)"
  by (rule keepsI') (auto simp: on_memory_def jobs_of_def dest: keepsD split: prod.splits)

lemma keeps_on_view: "keeps jobs_of (on_view m)" "keeps jobs_of (on_logs m)"
  by (rule keepsI'; auto simp: on_view_def on_logs_def jobs_of_def split: prod.splits)+

lemma keeps_copy_entries: "keeps jobs_of (copy_entries mt d P es)"
proof (induction mt d P es rule: copy_entries.induct)
  case (2 mt d P n b es)
  have "keeps jobs_of (copy_to_stage mt d n b)"
    unfolding copy_to_stage_def by (intro keepsI keeps_on_memory)
  with 2 show ?case by (auto intro!: keepsI)
qed (simp_all add: keeps_pure)

lemma keeps_launch_copy: "keeps jobs_of (copy_launch_memory_to_stage mt m d)"
  unfolding copy_launch_memory_to_stage_def
  by (intro keepsI keeps_on_memory keeps_on_view keeps_copy_entries)

section \<open>The whole run\<close>

lemma jobs_of_extended [simp]: "jobs_of (worker_world.extend w x) = jobs_of w" "jobs_of (worker_world.truncate s) = jobs_of s"
  by (simp_all add: jobs_of_def worker_world.defs)

text \<open>What the agent and the other processes do to the job files.\<close>

definition others_keep :: "worker_tools \<Rightarrow> (job_record \<Rightarrow> job_record \<Rightarrow> bool) \<Rightarrow> bool" where
  "others_keep wt R \<longleftrightarrow>
     (\<forall>w\<in>set (wt_waits wt). \<forall>s. evolves (wt_jobs wt) R (jobs_of s) (jobs_of (w s))) \<and>
     (\<forall>spec g q s. wt_runtime wt spec = Inr g \<longrightarrow> evolves (wt_jobs wt) R (jobs_of s) (jobs_of (fst (gt_run g q s))))"

lemma own_job_cases:
  assumes "bindS (own_job wt k) f s = (t, x)"
  obtains (raised) e where "t = s" "x = Inl (Failure e)" "read_job (wt_jobs wt) (jobs_of s) k None = Inl e"
  | (found) r where "read_job (wt_jobs wt) (jobs_of s) k None = Inr r" "f r s = (t, x)"
  using assms by (cases "read_job (wt_jobs wt) (jobs_of s) k None") (auto simp: own_job_def jobs_of_def)

lemma merged_failure_advanced:
  "merged_failure x f r = Inr r' \<Longrightarrow> advanced r r' \<and> jr_result_metadata r' = jr_result_metadata r \<and>
     is_launched r' = is_launched r \<and> jr_status r' = jr_status r"
  by (auto simp: merged_failure_def bindE_eq_Inr Let_def advanced_def is_launched_def)

context job_relation
begin

lemma evolving_by_agent:
  assumes "\<And>s. evolves jt R (jobs_of s) (jobs_of (fst (m s)))"
  shows "evolving jt R jobs_of (by_agent m)"
  using assms by (auto simp: evolving_def by_agent_def split: prod.split dest: evolvingD) (metis fst_conv jobs_of_extended(2))

lemma evolving_apply [evolvingI]:
  assumes "faithful_files (mt_jobs mt)"
  shows "evolving (mt_jobs mt) R ma_jobs (apply_publication mt c b f l p)"
  unfolding apply_publication_def rollback_failed_transaction_def canonical_directory_def take_lock_def Let_def
  by (intro evolving_catch evolving_bind evolving_when evolving_if evolving_read evolving_failed evolving_keeps assms keepsI
      evolving_option)+

lemma evolving_own [evolvingI]:
  "evolving jt R jobs_of (own_job wt k)" "evolving jt R jobs_of (authority_job wt a)"
  "evolving jt R jobs_of (mark_cancelled_if_waiting wt k)" "evolving jt R jobs_of (is_cancelled wt a)"
  unfolding own_job_def authority_job_def mark_cancelled_if_waiting_def is_cancelled_def by (intro evolvingI)+

lemma evolving_on_job [evolvingI]:
  "evolving (wt_jobs wt) R (\<lambda>ja. ja) m \<Longrightarrow> evolving (wt_jobs wt) R jobs_of (on_job wt m)"
  unfolding on_job_def by (intro evolving_memory evolving_jobM)


text \<open>The steps from the lock to the report, one by one.\<close>

lemma evolving_terminalize [evolvingI]:
  assumes "faithful_files (wt_jobs wt)"
  shows "evolving (wt_jobs wt) R jobs_of (terminalize_failure wt k x f)"
  unfolding terminalize_failure_def
  by (intro evolvingI assms) (simp_all add: run_fields_def is_launched_def)

lemma evolves_written:
  assumes "faithful_files (wt_jobs wt)" "read_job (wt_jobs wt) (jobs_of s) k None = Inr r"
    and "advanced r r'" "R r r'" "rewrite_job wt k r' s = (t, x)"
  shows "evolves (wt_jobs wt) R (jobs_of s) (jobs_of t)"
proof -
  from assms(3) have "jr_spec r' = jr_spec r" "jr_authority_digest r' = jr_authority_digest r" by (simp_all add: advanced_def)
  note new = evolves_stored [OF assms(1,2,4) this]
  obtain j y where j: "write_job (wt_jobs wt) k r' (jobs_of s) = (j, y)" by fastforce
  then have "evolves (wt_jobs wt) R (jobs_of s) j"
    using new write_job_Inl [of "wt_jobs wt" k r' "jobs_of s" j] write_job_Inr [of "wt_jobs wt" k r' "jobs_of s" j]
    by (cases y) (auto simp: evolves_refl)
  moreover from assms(5) j have "jobs_of t = jobs_of s \<or> jobs_of t = j"
    by (auto simp: rewrite_job_def bindS_def on_job_def on_memory_def jobM_def jobs_of_def
        split: prod.splits hazard.splits sum.splits)
  ultimately show ?thesis using evolves_refl by metis
qed

lemma evolving_success [evolvingI]:
  assumes "faithful_files (wt_jobs wt)"
  shows "evolving (wt_jobs wt) R jobs_of (record_success wt k x f)"
proof (rule evolvingI')
  fix s t y
  assume "record_success wt k x f s = (t, y)"
  then show "evolves (wt_jobs wt) R (jobs_of s) (jobs_of t)"
    unfolding record_success_def
  proof (cases rule: own_job_cases)
    case (found r)
    have new: "advanced r (success_record x f r)" by (simp add: advanced_def success_record_def)
    then have "R r (success_record x f r)" by (rule advance) (simp_all add: is_launched_def success_record_def)
    with found evolves_written [OF assms found(1) new] show ?thesis by (auto simp: evolves_refl split: if_splits)
  qed (simp add: evolves_refl)
qed

lemma evolving_merge_failed [evolvingI]:
  assumes "faithful_files (wt_jobs wt)"
  shows "evolving (wt_jobs wt) R jobs_of (merge_failed_terminal_metadata wt k x f)"
proof (rule evolvingI')
  fix s t y
  assume "merge_failed_terminal_metadata wt k x f s = (t, y)"
  then show "evolves (wt_jobs wt) R (jobs_of s) (jobs_of t)"
    unfolding merge_failed_terminal_metadata_def
  proof (cases rule: own_job_cases)
    case (found r)
    show ?thesis
    proof (cases "merged_failure x f r")
      case (Inr r')
      from merged_failure_advanced [OF Inr] have new: "advanced r r'" "R r r'" by (simp_all add: advance)
      with found Inr evolves_written [OF assms found(1) new] show ?thesis by (auto simp: evolves_refl split: if_splits)
    qed (use found in \<open>auto simp: evolves_refl split: if_splits\<close>)
  qed (simp add: evolves_refl)
qed

lemma evolving_artifacts:
  "evolving jt R jobs_of (retained_failed_artifacts wt k)" "evolving jt R jobs_of (failed_memory_artifacts wt k d old)"
  unfolding retained_failed_artifacts_def failed_memory_artifacts_def
  by (intro evolving_bind evolving_own evolving_read evolving_quiet keepsI)+

lemma evolving_log [evolvingI]: "evolving jt R jobs_of (write_log wt n x)"
  unfolding write_log_def by (intro evolvingI)

lemma evolving_finalize [evolvingI]:
  assumes "faithful_files (wt_jobs wt)"
  shows "evolving (wt_jobs wt) R jobs_of (finalize_ticket_runtime wt a k r g stopped)"
  unfolding finalize_ticket_runtime_def close_broker_def Let_def
  by (intro evolving_bind evolving_tryE evolving_runs evolving_read evolving_on_job evolving_merge assms keepsI) simp

lemma evolving_agent:
  assumes "others_keep wt R" "wt_runtime wt spec = Inr g"
  shows "evolving (wt_jobs wt) R jobs_of (run_agent g q)"
  unfolding run_agent_def
  by (intro evolving_bind evolving_tryE evolving_by_agent evolving_put)
    (use assms in \<open>auto simp: others_keep_def jobs_of_def\<close>)

lemma evolving_prompt [evolvingI]: "evolving jt R jobs_of (prepare_prompt wt r)"
  unfolding prepare_prompt_def by (intro evolving_option evolving_bind evolving_read evolving_log)

lemma evolving_tickets:
  assumes "faithful_files (wt_jobs wt)" "others_keep wt R" "wt_runtime wt spec = Inr g"
  shows "evolving (wt_jobs wt) R jobs_of (run_with_tickets wt a k r g q)"
proof -
  have "evolving (wt_jobs wt) R jobs_of (with_broker wt a k r g q grant)" for grant
    unfolding with_broker_def
    by (intro evolving_bind evolving_tryE evolving_prompt evolving_agent [OF assms(2,3)] evolving_finalize [OF assms(1)]
        evolving_sum evolving_read)
  note broker = this
  show ?thesis
    unfolding run_with_tickets_def start_broker_def
    by (intro evolving_bind evolving_if evolving_catch evolving_read evolving_runs evolving_pair keepsI broker evolving_agent [OF assms(2,3)])
qed


lemma evolving_wait:
  assumes "others_keep wt R" "set ws \<subseteq> set (wt_waits wt)"
  shows "evolving (wt_jobs wt) R jobs_of (wait_for_lock wt a ws)"
  using assms(2)
proof (induction ws)
  case Nil
  show ?case unfolding wait_for_lock.simps by (intro evolvingI)
next
  case (Cons w ws)
  have "evolving (wt_jobs wt) R jobs_of (by_agent (\<lambda>s. (w s, Inr ())))"
    by (rule evolving_by_agent) (use Cons.prems assms(1) in \<open>auto simp: others_keep_def\<close>)
  with Cons show ?case unfolding wait_for_lock.simps by (intro evolving_bind evolving_if evolving_read evolving_own) auto
qed

lemma evolving_begin:
  assumes "faithful_files (wt_jobs wt)"
  shows "evolving (wt_jobs wt) R jobs_of (begin_run wt k)"
  unfolding begin_run_def
  by (intro evolving_bind evolving_put evolving_on_job evolving_transition evolving_read assms)
    (simp_all add: jobs_of_def run_fields_def is_launched_def)

lemma evolving_launch: "evolving jt R jobs_of (prepare_launch wt spec g artifact fs)"
  unfolding prepare_launch_def by (intro evolving_bind evolving_if evolving_view evolving_read)

lemma evolving_error:
  assumes "faithful_files (wt_jobs wt)"
    and "\<And>r m. merged_metadata (jr_result_metadata r) BEFORE_RUNTIME = Inr m \<Longrightarrow> R r (r\<lparr>jr_result_metadata := m\<rparr>)"
  shows "evolving (wt_jobs wt) R jobs_of (record_error wt k e)"
proof -
  have "evolving (wt_jobs wt) R (\<lambda>ja. ja) (merge_result_metadata (wt_jobs wt) k BEFORE_RUNTIME)"
    unfolding merge_result_metadata_def
    by (rule evolving_update [OF assms(1)]) (use assms(2) in \<open>auto simp: bindE_eq_Inr\<close>)
  then show ?thesis
    unfolding record_error_def
    by (intro evolving_bind evolving_if evolving_read evolving_terminalize evolving_on_job assms(1))
qed

end

text \<open>A relation that completing a job keeps, too.\<close>

locale completing_relation = job_relation +
  assumes completes: "advanced r r' \<Longrightarrow> jr_result_metadata r' = jr_result_metadata r \<Longrightarrow> is_launched r' = is_launched r \<Longrightarrow> R r r'"
begin

lemma evolving_final [evolvingI]:
  assumes "faithful_files (mt_jobs mt)"
  shows "evolving (mt_jobs mt) R ma_jobs (finalize_publication mt ap)"
proof -
  have "evolving (mt_jobs mt) R (\<lambda>ja. ja) (transition_job (mt_jobs mt) k Running Complete (\<lambda>r.
     r\<lparr>jr_completed_at := x, jr_memory_publication := y\<rparr>))" for k x y
    unfolding transition_job_def
    by (rule evolving_update [OF assms])
      (auto simp: bindE_eq_Inr ensure_eq_Inr advanced_def allowed_def is_launched_def intro!: completes)
  then show ?thesis
    unfolding finalize_publication_def mark_complete_def settle_job_def Let_def
    by (intro evolving_bind evolving_catch evolving_jobM evolving_if evolving_read evolving_keeps [OF keeps_cleanup_jobs])
qed

lemma evolving_publish [evolvingI]:
  assumes "faithful_files (wt_jobs wt)"
  shows "evolving (wt_jobs wt) R jobs_of (publish_run wt k m stage old f note)"
  unfolding publish_run_def Let_def retained_failed_artifacts_def failed_memory_artifacts_def
  by (intro evolving_catch evolving_bind evolving_if evolving_read evolving_own evolving_merge_failed evolving_terminalize
      evolving_success evolving_memory evolving_apply evolving_final assms evolving_keeps keeps_launch_copy keepsI)

lemma evolving_report [evolvingI]:
  assumes "faithful_files (wt_jobs wt)"
  shows "evolving (wt_jobs wt) R jobs_of (report_run wt k spec m stage old z message)"
  unfolding report_run_def Let_def failed_memory_artifacts_def
  by (intro evolving_bind evolving_if evolving_read evolving_own evolving_option evolving_terminalize evolving_log
      evolving_publish evolving_on_job evolving_merge assms evolving_quiet keepsI) simp_all

lemma evolving_locked:
  assumes "faithful_files (wt_jobs wt)" "others_keep wt R" "wt_runtime wt spec = Inr g"
  shows "evolving (wt_jobs wt) R jobs_of (run_locked wt a k spec g artifact memory)"
  unfolding run_locked_def
  by (intro evolving_bind evolving_if evolving_own evolving_quiet evolving_view evolving_log evolving_begin evolving_launch keepsI
      evolving_tickets [OF assms] evolving_pair evolving_report assms(1))

lemma evolving_attempt:
  assumes "faithful_files (wt_jobs wt)" "others_keep wt R"
  shows "evolving (wt_jobs wt) R jobs_of (attempt_run wt a k spec)"
proof -
  note parts = evolving_locked [OF assms] evolving_wait [OF assms(2) order_refl]
  show ?thesis
    unfolding attempt_run_def
    by (intro evolving_bind [OF evolving_own(2)] evolving_lift evolving_bind evolving_catch evolving_if evolving_read
        evolving_own evolving_quiet keepsI parts)
qed

lemma evolving_execution:
  assumes "faithful_files (wt_jobs wt)" "others_keep wt R"
    and "\<And>r m. merged_metadata (jr_result_metadata r) BEFORE_RUNTIME = Inr m \<Longrightarrow> R r (r\<lparr>jr_result_metadata := m\<rparr>)"
  shows "evolving (wt_jobs wt) R jobs_of (execute_steps wt a)"
  unfolding execute_steps_def Let_def
  by (intro evolving_bind evolving_if evolving_own evolving_on_job evolving_transition evolving_catch
      evolving_attempt evolving_error assms) (simp_all add: run_fields_def is_launched_def)

end

lemma kept_merge: "kept r (r\<lparr>jr_result_metadata := m\<rparr>)"
  by (simp add: kept_def)

interpretation kept: completing_relation kept
  by unfold_locales (auto intro: advanced_kept kept_trans kept_merge)

text \<open>However a worker ends, by returning, by an exception of any of its steps or because it is killed at any call,
  no job is lost: every job that could be read can be read, with the same specification and authority digest, and its
  status moved along allowed transitions only.\<close>

theorem execution_keeps_jobs:
  assumes "faithful_files (wt_jobs wt)" "others_keep wt kept"
    and "execute_job wt a w = (t, out)" "read_job (wt_jobs wt) (ma_jobs (ww_memory w)) k None = Inr r"
  shows "\<exists>r'. read_job (wt_jobs wt) (ma_jobs (ww_memory t)) k None = Inr r' \<and> jr_spec r' = jr_spec r \<and>
    jr_authority_digest r' = jr_authority_digest r \<and> allowed\<^sup>*\<^sup>* (jr_status r) (jr_status r')"
proof -
  obtain s where s: "execute_steps wt a (new_worker w) = (s, out)" "t = worker_world.truncate s"
    using assms(3) by (auto simp: execute_job_def split: prod.splits)
  from evolvesD [OF evolvingD [OF kept.evolving_execution [OF assms(1,2) kept_merge] this(1)]] assms(4) s(2) show ?thesis
    by (simp add: kept_def new_worker_def jobs_of_def [symmetric])
qed

section \<open>A worker ends its job\<close>

definition metadata_of :: "job_record \<Rightarrow> ticket_error + (string, json) dict" where
  "metadata_of r = (if falsy (jr_result_metadata r) then Inr [] else py_dict (jr_result_metadata r))"

lemma merged_metadata_of: "merged_metadata (jr_result_metadata r) d =
    bindE (metadata_of r) (\<lambda>old. Inr (if dict_update old d = [] then JNull else JObj (dict_update old d)))"
  by (simp add: merged_metadata_def metadata_of_def Let_def)

definition lives :: "job_record \<Rightarrow> job_record \<Rightarrow> bool" where
  "lives r r' \<longleftrightarrow> kept r r' \<and> (is_launched r \<longrightarrow> is_launched r') \<and> (isOk (metadata_of r) \<longrightarrow> isOk (metadata_of r'))"

lemma metadata_merged:
  "merged_metadata (jr_result_metadata r) d = Inr m \<Longrightarrow>
   \<exists>old. metadata_of r = Inr old \<and> metadata_of (r\<lparr>jr_result_metadata := m\<rparr>) = Inr (dict_update old d)"
  by (auto simp: merged_metadata_of bindE_eq_Inr) (auto simp: metadata_of_def)

lemma lives_merge: "merged_metadata (jr_result_metadata r) d = Inr m \<Longrightarrow> lives r (r\<lparr>jr_result_metadata := m\<rparr>)"
  using metadata_merged [of r d m] by (auto simp: lives_def kept_merge is_launched_def)

interpretation lives: completing_relation lives
proof (unfold_locales, goal_cases)
  case (2 r r1 r2)
  then show ?case by (auto simp: lives_def intro: kept_trans)
next
  case (4 r d m)
  then show ?case by (blast intro: lives_merge)
qed (simp_all add: lives_def advanced_kept metadata_of_def)

text \<open>The job that is read, and a record that it came from.\<close>

definition current :: "worker_tools \<Rightarrow> job_key \<Rightarrow> 'x worker_world_scheme \<Rightarrow> ticket_error + job_record" where
  "current wt k s = read_job (wt_jobs wt) (jobs_of s) k None"

definition alive :: "worker_tools \<Rightarrow> job_key \<Rightarrow> job_record \<Rightarrow> 'x worker_world_scheme \<Rightarrow> bool" where
  "alive wt k r0 s \<longleftrightarrow> k \<notin> set (ja_readonly (jobs_of s)) \<and> (\<exists>r. current wt k s = Inr r \<and> lives r0 r)"

lemma alive_evolves: "evolves (wt_jobs wt) lives (jobs_of s) (jobs_of t) \<Longrightarrow> alive wt k r0 s \<Longrightarrow> alive wt k r0 t"
  unfolding alive_def current_def evolves_def using lives.transitive by metis

text \<open>An operation that answers with a record answers with the one in the file, and it is terminal.\<close>

abbreviation ended :: "job_record \<Rightarrow> bool" where "ended r \<equiv> jr_status r \<in> set TERMINAL_STATUSES"

definition answers :: "worker_tools \<Rightarrow> job_key \<Rightarrow> job_record \<Rightarrow> job_record exec \<Rightarrow> bool" where
  "answers wt k r0 m \<longleftrightarrow> (\<forall>s t r. alive wt k r0 s \<longrightarrow> m s = (t, Inr r) \<longrightarrow> current wt k t = Inr r \<and> ended r)"

lemma answersD: "answers wt k r0 m \<Longrightarrow> alive wt k r0 s \<Longrightarrow> m s = (t, Inr r) \<Longrightarrow> current wt k t = Inr r \<and> ended r"
  by (simp add: answers_def)

lemma answers_bind:
  "evolving (wt_jobs wt) lives jobs_of m \<Longrightarrow> (\<And>x. answers wt k r0 (f x)) \<Longrightarrow> answers wt k r0 (bindS m f)"
  unfolding answers_def bindS_Inr using alive_evolves evolvingD by (metis (no_types, lifting))

lemma answers_catch:
  "evolving (wt_jobs wt) lives jobs_of m \<Longrightarrow> answers wt k r0 m \<Longrightarrow> (\<And>e. answers wt k r0 (h e)) \<Longrightarrow> answers wt k r0 (catchS m h)"
  unfolding answers_def catchS_Inr using alive_evolves evolvingD by (metis (no_types, lifting))

lemma answers_if: "(c \<Longrightarrow> answers wt k r0 m) \<Longrightarrow> (\<not> c \<Longrightarrow> answers wt k r0 m') \<Longrightarrow> answers wt k r0 (if c then m else m')"
  by simp

lemma answers_raise: "answers wt k r0 (raiseS e)"
  by (simp add: answers_def)

lemma answers_own:
  assumes "\<And>r s t x. lives r0 r \<Longrightarrow> alive wt k r s \<Longrightarrow> current wt k s = Inr r \<Longrightarrow> f r s = (t, Inr x) \<Longrightarrow>
    current wt k t = Inr x \<and> ended x"
  shows "answers wt k r0 (bindS (own_job wt k) f)"
  unfolding answers_def
proof (intro allI impI)
  fix s t r assume *: "alive wt k r0 s" "bindS (own_job wt k) f s = (t, Inr r)"
  from *(2) show "current wt k t = Inr r \<and> ended r"
  proof (cases rule: own_job_cases)
    case (found r')
    with *(1) have "lives r0 r'" "alive wt k r' s" "current wt k s = Inr r'"
      by (auto simp: alive_def current_def lives.reflexive)
    with assms found(2) show ?thesis by blast
  qed simp
qed

lemma on_job_Inr: "on_job wt m s = (t, Inr x) \<Longrightarrow> m (jobs_of s) = (jobs_of t, Inr x)"
  by (auto simp: on_job_def on_memory_def jobM_def jobs_of_def mapErr_eq_Inr split: prod.splits hazard.splits)

lemma transition_job_Inr:
  assumes "faithful_files jt" "run_fields f" "transition_job jt k a b f s = (t, Inr r)"
  shows "read_job jt t k None = Inr r \<and> jr_status r = b"
  using assms(3) unfolding transition_job_def
proof (cases rule: update_job_cases)
  case (wrote r0 r')
  then have new: "r' = f (r0\<lparr>jr_status := b\<rparr>)" by (auto simp: bindE_eq_Inr)
  with assms(2) have "jr_status r' = b" "jr_spec r' = jr_spec r0" "jr_authority_digest r' = jr_authority_digest r0"
    by (simp_all add: run_fields_def)
  with read_job_sound [OF assms(1) wrote(1)] have "sound_record jt r'" "jr_status r' = b" by (simp_all add: sound_record_def)
  with wrote assms(1) show ?thesis by (simp add: read_stored)
qed simp

lemma jobM_Inr: "jobM mt m s = (t, Inr x) \<Longrightarrow> m (ma_jobs s) = (ma_jobs t, Inr x)"
  by (auto simp: jobM_def mapErr_eq_Inr split: prod.splits hazard.splits)

lemma settled_Inr:
  assumes "faithful_files (mt_jobs mt)" "run_fields f" "settle_job mt k status f s = (t, Inr u)"
  shows "\<exists>r. read_job (mt_jobs mt) (ma_jobs t) k None = Inr r \<and> jr_status r = status"
proof -
  let ?m = "bindS (jobM mt (transition_job (mt_jobs mt) k Running status f)) (\<lambda>_. returnS ())"
  from assms(3) consider "?m s = (t, Inr ())"
    | e v where "(if e \<noteq> invalidTransition then raiseM e
         else bindS (readS (\<lambda>s. mapErr Failure (read_job (mt_jobs mt) (ma_jobs s) k None))) (\<lambda>r.
           if jr_status r \<noteq> status then raiseM e else returnS ())) v = (t, Inr ())"
    unfolding settle_job_def catchS_Inr by auto
  then show ?thesis
  proof cases
    case 1
    then obtain r where "jobM mt (transition_job (mt_jobs mt) k Running status f) s = (t, Inr r)" by (auto simp: bindS_Inr)
    from transition_job_Inr [OF assms(1,2) jobM_Inr [OF this]] show ?thesis by blast
  next
    case 2
    then show ?thesis
      by (cases "read_job (mt_jobs mt) (ma_jobs v) k None") (auto split: if_splits)
  qed
qed

text \<open>A job that left the queue does not return to it.\<close>

lemma past_queue: "allowed\<^sup>*\<^sup>* a b \<Longrightarrow> a \<noteq> Queued \<Longrightarrow> b \<noteq> Queued"
proof (induction rule: rtranclp_induct)
  case (step y z)
  then show ?case by (cases y) (auto simp: allowed_def)
qed simp

lemma lives_past: "lives r0 r \<Longrightarrow> jr_status r0 \<noteq> Queued \<Longrightarrow> jr_status r \<noteq> Queued"
  using past_queue by (auto simp: lives_def kept_def)

lemma answers_cancelled: "answers wt k r0 (mark_cancelled_if_waiting wt k)"
  unfolding mark_cancelled_if_waiting_def
  by (rule answers_own) (auto simp: TERMINAL_STATUSES_def split: if_splits)

lemma answers_terminalize:
  assumes "faithful_files (wt_jobs wt)" "jr_status r0 \<noteq> Queued"
  shows "answers wt k r0 (terminalize_failure wt k x f)"
  unfolding terminalize_failure_def
proof (rule answers_own)
  fix r s t y
  let ?f = "\<lambda>r. r\<lparr>jr_completed_at := Some (wt_completed_at wt), jr_started_at := fa_started f, jr_stdout_path := fa_stdout f,
       jr_stderr_path := fa_stderr f, jr_exit_code := fa_exit_code f, jr_duration_seconds := fa_duration f,
       jr_changed_files := JList (fa_changes f), jr_execution_summary := Some x, jr_base_sha := fa_base f,
       jr_memory_publication := fa_publication f, jr_session_id := fa_session f, jr_copilot_home := fa_home f\<rparr>"
  assume r: "lives r0 r" "current wt k s = Inr r"
    and run: "(if jr_status r = Cancelled then returnS r
     else if jr_status r \<notin> {Running, WaitingForMemory} then returnS r
     else on_job wt (transition_job (wt_jobs wt) k (jr_status r) Failed ?f)) s = (t, Inr y)"
  show "current wt k t = Inr y \<and> ended y"
  proof (cases "jr_status r \<in> {Running, WaitingForMemory}")
    case True
    with run have "on_job wt (transition_job (wt_jobs wt) k (jr_status r) Failed ?f) s = (t, Inr y)" by auto
    from transition_job_Inr [OF assms(1) _ on_job_Inr [OF this]] show ?thesis
      by (simp add: run_fields_def current_def TERMINAL_STATUSES_def)
  next
    case False
    with run have "t = s" "y = r" by (auto split: if_splits)
    with False r lives_past [OF r(1) assms(2)] show ?thesis by (cases "jr_status r") (simp_all add: TERMINAL_STATUSES_def)
  qed
qed

lemma rewritten:
  assumes "faithful_files (wt_jobs wt)" "current wt k s = Inr r" "advanced r r'" "rewrite_job wt k r' s = (t, Inr x)"
  shows "x = r' \<and> current wt k t = Inr r'"
proof -
  from assms(4) obtain u where "on_job wt (write_job (wt_jobs wt) k r') s = (t, Inr u)" "x = r'"
    unfolding rewrite_job_def bindS_Inr by (metis Pair_inject readS_apply sum.inject(2))
  moreover from on_job_Inr [OF this(1)] have "jobs_of t = stored (wt_jobs wt) k r' (jobs_of s)" by (simp add: write_job_Inr)
  moreover from assms(3) read_job_sound [OF assms(1)] assms(2) have "sound_record (wt_jobs wt) r'"
    by (auto simp: sound_record_def advanced_def current_def)
  ultimately show ?thesis using assms(1) by (simp add: current_def read_stored)
qed

lemma answers_merge_failed:
  assumes "faithful_files (wt_jobs wt)" "jr_status r0 = Failed"
  shows "answers wt k r0 (merge_failed_terminal_metadata wt k x f)"
  unfolding merge_failed_terminal_metadata_def
proof (rule answers_own)
  fix r s t y
  assume r: "lives r0 r" "current wt k s = Inr r"
    and run: "(if jr_status r \<noteq> Failed then returnS r else bindS (tryliftS (merged_failure x f r)) (rewrite_job wt k)) s = (t, Inr y)"
  from r(1) assms(2) terminal_stays have st: "jr_status r = Failed"
    by (auto simp: lives_def kept_def TERMINAL_STATUSES_def)
  with run obtain r' where r': "merged_failure x f r = Inr r'" "rewrite_job wt k r' s = (t, Inr y)"
    by (cases "merged_failure x f r") auto
  from merged_failure_advanced [OF r'(1)] rewritten [OF assms(1) r(2) _ r'(2)] st show "current wt k t = Inr y \<and> ended y"
    by (simp add: TERMINAL_STATUSES_def)
qed

text \<open>A publication that is finalized has completed its job.\<close>

lemma finalized_complete:
  assumes "faithful_files (mt_jobs mt)" "finalize_publication mt ap s = (t, Inr rc)"
  shows "\<exists>r. read_job (mt_jobs mt) (ma_jobs t) (pp_job (ap_prepared ap)) None = Inr r \<and> jr_status r = Complete"
proof -
  from assms(2) obtain u rc' where m: "mark_complete mt (pp_job (ap_prepared ap)) rc' s = (u, Inr ())"
    and c: "cleanup_paths mt (pp_memory_hash (ap_prepared ap)) (mg_job_id (pp_stage (ap_prepared ap))) u = (t, Inr ())"
    by (auto simp: finalize_publication_def Let_def bindS_Inr)
  from keepsD [OF keeps_cleanup_jobs c] have "ma_jobs t = ma_jobs u" .
  with settled_Inr [OF assms(1) _ m [unfolded mark_complete_def]] show ?thesis by (simp add: run_fields_def)
qed

lemma applied_prepared: "apply_publication mt c b f l p s = (t, Inr ap) \<Longrightarrow> ap_prepared ap = p"
  by (auto simp: apply_publication_def Let_def catchS_Inr bindS_Inr split: if_splits)

lemma prepared_job:
  assumes "prepare_publication mt stage team (Some k) s = (t, Inr p)"
  shows "pp_job p = k"
proof -
  from assms have "\<exists>v. publication_job mt team (mg_job_id stage) (Some k) v = Inr (pp_job p)"
    by (auto simp: prepare_publication_def Let_def catchS_Inr bindS_Inr mapErr_eq_Inr readS_Inr
        simp del: bindS_readS readS_apply split: if_splits)
  then show ?thesis by (auto simp: publication_job_def Let_def bindE_eq_Inr ensure_eq_Inr)
qed

lemma on_memory_jobs: "on_memory m s = (t, x) \<Longrightarrow> \<exists>u. m (ww_memory s) = (u, x) \<and> jobs_of t = ma_jobs u"
  by (auto simp: on_memory_def jobs_of_def split: prod.splits)

lemma answers_publish:
  assumes "faithful_files (wt_jobs wt)" "jr_status r0 \<noteq> Queued"
  shows "answers wt k r0 (publish_run wt k m stage old f note)"
  unfolding publish_run_def Let_def
proof (rule answers_catch)
  let ?mt = "wt_memory wt" and ?d = "stages (rm_memory_hash (mg_resolved stage)) @ [mg_job_id stage]"
  let ?m = "bindS (copy_launch_memory_to_stage ?mt m ?d) (\<lambda>_.
         bindS (on_memory (prepare_publication ?mt stage (fst k) (Some k))) (\<lambda>p.
         bindS (on_memory (apply_publication ?mt None False (Some (wt_retain wt)) True p)) (\<lambda>applied.
         bindS (on_memory (finalize_publication ?mt applied)) (\<lambda>_.
         record_success wt k (completed_summary (fa_changes f) @ note) f))))"
  show "evolving (wt_jobs wt) lives jobs_of ?m"
    by (intro lives.evolving_bind lives.evolving_success lives.evolving_memory lives.evolving_apply lives.evolving_final assms
        lives.evolving_keeps keeps_launch_copy keepsI)
  show "answers wt k r0 ?m"
    unfolding answers_def
  proof (intro allI impI)
    fix s t r assume "?m s = (t, Inr r)"
    then obtain a b c d p ap rc where p: "on_memory (prepare_publication ?mt stage (fst k) (Some k)) a = (b, Inr p)"
      and ap: "on_memory (apply_publication ?mt None False (Some (wt_retain wt)) True p) b = (c, Inr ap)"
      and fin: "on_memory (finalize_publication ?mt ap) c = (d, Inr rc)"
      and success: "record_success wt k (completed_summary (fa_changes f) @ note) f d = (t, Inr r)"
      by (auto simp: bindS_Inr)
    from p ap have "pp_job (ap_prepared ap) = k" using prepared_job applied_prepared by (metis on_memory_jobs)
    moreover obtain u where "finalize_publication ?mt ap (ww_memory c) = (u, Inr rc)" "jobs_of d = ma_jobs u"
      using on_memory_jobs [OF fin] by blast
    ultimately obtain x where x: "current wt k d = Inr x" "jr_status x = Complete"
      using finalized_complete [OF assms(1)] by (fastforce simp: current_def)
    from success show "current wt k t = Inr r \<and> ended r"
      unfolding record_success_def
    proof (cases rule: own_job_cases)
      case (found y)
      with x have "rewrite_job wt k (success_record (completed_summary (fa_changes f) @ note) f y) d = (t, Inr r)" "y = x"
        by (auto simp: current_def)
      with rewritten [OF assms(1) x(1), of "success_record (completed_summary (fa_changes f) @ note) f y"] x show ?thesis
        by (simp add: success_record_def advanced_def TERMINAL_STATUSES_def)
    qed simp
  qed
  show "answers wt k r0 (if e \<notin> publication_failures then failS e
          else bindS (own_job wt k) (\<lambda>current.
            bindS (retained_failed_artifacts wt k) (\<lambda>arts.
            bindS (if arts \<noteq> [] then returnS arts else failed_memory_artifacts wt k ?d old) (\<lambda>arts.
            if jr_status current = Failed
            then merge_failed_terminal_metadata wt k (''Memory publication failed: '' @ mt_message ?mt e @ note) (with_artifacts f arts)
            else terminalize_failure wt k (''Memory publication failed: '' @ mt_message ?mt e @ note) (with_artifacts f arts)))))" for e
  proof (rule answers_if [OF answers_raise], rule answers_own, goal_cases)
    case (1 r s t x)
    have "answers wt k r (bindS (retained_failed_artifacts wt k) (\<lambda>arts.
            bindS (if arts \<noteq> [] then returnS arts else failed_memory_artifacts wt k ?d old) (\<lambda>arts.
            if jr_status r = Failed
            then merge_failed_terminal_metadata wt k (''Memory publication failed: '' @ mt_message ?mt e @ note) (with_artifacts f arts)
            else terminalize_failure wt k (''Memory publication failed: '' @ mt_message ?mt e @ note) (with_artifacts f arts))))"
      unfolding retained_failed_artifacts_def failed_memory_artifacts_def
      by (intro answers_bind answers_if answers_merge_failed answers_terminalize assms(1) lives_past [OF 1(2) assms(2)]
          lives.evolving_bind lives.evolving_own lives.evolving_read lives.evolving_if lives.evolving_quiet keepsI)
    from answersD [OF this 1(3,5)] show ?case .
  qed
qed

lemma answers_lift: "(\<And>x. m = Inr x \<Longrightarrow> answers wt k r0 (f x)) \<Longrightarrow> answers wt k r0 (bindS (tryliftS m) f)"
  by (cases m) (simp_all add: answers_def)

lemma answers_option:
  "answers wt k r0 m \<Longrightarrow> (\<And>y. answers wt k r0 (f y)) \<Longrightarrow> answers wt k r0 (case x of None \<Rightarrow> m | Some y \<Rightarrow> f y)"
  by (cases x) simp_all

lemma answers_pair: "(\<And>y z. answers wt k r0 (f y z)) \<Longrightarrow> answers wt k r0 (case x of (y, z) \<Rightarrow> f y z)"
  by (cases x) simp

lemma answers_report:
  assumes "faithful_files (wt_jobs wt)" "jr_status r0 \<noteq> Queued"
  shows "answers wt k r0 (report_run wt k spec m stage old z message)"
  unfolding report_run_def Let_def failed_memory_artifacts_def
  by (intro answers_bind answers_if answers_option answers_terminalize answers_publish assms
      lives.evolving_bind lives.evolving_if lives.evolving_read lives.evolving_own lives.evolving_log
      lives.evolving_on_job lives.evolving_merge lives.evolving_quiet keepsI) simp

lemma answers_locked:
  assumes "faithful_files (wt_jobs wt)" "others_keep wt lives" "wt_runtime wt spec = Inr g" "jr_status r0 \<noteq> Queued"
  shows "answers wt k r0 (run_locked wt a k spec g artifact memory)"
  unfolding run_locked_def
  by (intro answers_bind answers_if answers_pair answers_cancelled answers_report assms lives.evolving_own
      lives.evolving_quiet lives.evolving_view lives.evolving_log lives.evolving_launch lives.evolving_begin
      lives.evolving_tickets [OF assms(1-3)] keepsI)

lemma answers_attempt:
  assumes "faithful_files (wt_jobs wt)" "others_keep wt lives" "jr_status r0 \<noteq> Queued"
  shows "answers wt k r0 (attempt_run wt a k spec)"
  unfolding attempt_run_def
  by (intro answers_bind [OF lives.evolving_own(2)] answers_lift answers_catch answers_bind answers_if answers_raise answers_cancelled
      answers_locked assms lives.evolving_bind lives.evolving_wait lives.evolving_locked lives.evolving_quiet order_refl keepsI)

text \<open>The handler always gets through when the file of the job can be written.\<close>

lemma on_job_passes:
  assumes "\<forall>n. mt_hazard (wt_memory wt) n \<noteq> Breaks" "on_job wt m s = (t, x)" "x \<noteq> Inl Killed" "m (jobs_of s) = (j, y)"
  shows "x = mapErr Failure y \<and> jobs_of t = j"
  using assms by (auto simp: on_job_def on_memory_def jobM_def jobs_of_def split: hazard.splits prod.splits)

lemma update_passes:
  assumes "faithful_files (wt_jobs wt)" "\<forall>n. mt_hazard (wt_memory wt) n \<noteq> Breaks"
    and "on_job wt (update_job (wt_jobs wt) k f) s = (t, x)" "x \<noteq> Inl Killed"
    and "current wt k s = Inr r" "f r = Inr r'" "advanced r r'" "k \<notin> set (ja_readonly (jobs_of s))"
  shows "x = Inr r' \<and> current wt k t = Inr r' \<and> ja_readonly (jobs_of t) = ja_readonly (jobs_of s)"
proof -
  from read_job_sound [OF assms(1)] assms(5,7) have sound: "sound_record (wt_jobs wt) r'"
    by (auto simp: sound_record_def advanced_def current_def)
  then have "update_job (wt_jobs wt) k f (jobs_of s) = (stored (wt_jobs wt) k r' (jobs_of s), Inr r')"
    using assms(5,6,8) by (simp add: update_job_def current_def write_job_def stored_def sound_record_def ensure_def bindS_def)
  from on_job_passes [OF assms(2-4) this] sound assms(1) show ?thesis
    by (simp add: current_def read_stored) (simp add: stored_def)
qed

lemma transition_passes:
  assumes "faithful_files (wt_jobs wt)" "\<forall>n. mt_hazard (wt_memory wt) n \<noteq> Breaks"
    and "on_job wt (transition_job (wt_jobs wt) k a b f) s = (t, x)" "x \<noteq> Inl Killed"
    and "current wt k s = Inr r" "k \<notin> set (ja_readonly (jobs_of s))"
    and "jr_status r = a" "b \<in> set (VALID_TRANSITIONS a)" "run_fields f"
  shows "x = Inr (f (r\<lparr>jr_status := b\<rparr>)) \<and> current wt k t = Inr (f (r\<lparr>jr_status := b\<rparr>)) \<and>
    ja_readonly (jobs_of t) = ja_readonly (jobs_of s)"
proof -
  let ?g = "\<lambda>r. bindE (ensure (jr_status r = a) invalidTransition) (\<lambda>_.
     bindE (ensure (b \<in> set (VALID_TRANSITIONS a)) invalidTransition) (\<lambda>_. Inr (f (r\<lparr>jr_status := b\<rparr>))))"
  have "on_job wt (update_job (wt_jobs wt) k ?g) s = (t, x)" using assms(3) by (simp add: transition_job_def)
  moreover have "?g r = Inr (f (r\<lparr>jr_status := b\<rparr>))" using assms(7,8) by simp
  moreover have "advanced r (f (r\<lparr>jr_status := b\<rparr>))" using assms(7-9) by (simp add: advanced_def allowed_def run_fields_def)
  ultimately show ?thesis using update_passes [OF assms(1,2) _ assms(4,5) _ _ assms(6)] by blast
qed

lemma terminalize_passes:
  assumes "faithful_files (wt_jobs wt)" "\<forall>n. mt_hazard (wt_memory wt) n \<noteq> Breaks"
    and "alive wt k r0 s" "terminalize_failure wt k x f s = (t, out)" "out \<noteq> Inl Killed"
  shows "\<exists>r. out = Inr r \<and> alive wt k r0 t"
proof -
  from assms(3) obtain r where r: "current wt k s = Inr r" "lives r0 r" "k \<notin> set (ja_readonly (jobs_of s))"
    by (auto simp: alive_def)
  have "\<exists>r. out = Inr r"
  proof (cases "jr_status r \<in> {Running, WaitingForMemory}")
    case False
    with assms(4) r(1) show ?thesis
      by (auto simp: terminalize_failure_def own_job_def current_def jobs_of_def split: if_splits)
  next
    case True
    let ?f = "\<lambda>r. r\<lparr>jr_completed_at := Some (wt_completed_at wt), jr_started_at := fa_started f, jr_stdout_path := fa_stdout f,
       jr_stderr_path := fa_stderr f, jr_exit_code := fa_exit_code f, jr_duration_seconds := fa_duration f,
       jr_changed_files := JList (fa_changes f), jr_execution_summary := Some x, jr_base_sha := fa_base f,
       jr_memory_publication := fa_publication f, jr_session_id := fa_session f, jr_copilot_home := fa_home f\<rparr>"
    from True assms(4) r(1) have run: "on_job wt (transition_job (wt_jobs wt) k (jr_status r) Failed ?f) s = (t, out)"
      by (auto simp: terminalize_failure_def own_job_def current_def jobs_of_def)
    from True have "Failed \<in> set (VALID_TRANSITIONS (jr_status r))" by auto
    with transition_passes [OF assms(1,2) run assms(5) r(1,3) refl] show ?thesis by (simp add: run_fields_def)
  qed
  moreover from evolvingD [OF lives.evolving_terminalize [OF assms(1)] assms(4)] alive_evolves assms(3)
  have "alive wt k r0 t" by blast
  ultimately show ?thesis by blast
qed

lemma error_passes:
  assumes "faithful_files (wt_jobs wt)" "\<forall>n. mt_hazard (wt_memory wt) n \<noteq> Breaks" "isOk (metadata_of r0)" "jr_status r0 \<noteq> Queued"
    and "alive wt k r0 s" "record_error wt k e s = (t, out)" "out \<noteq> Inl Killed"
  shows "\<exists>r. out = Inr r \<and> current wt k t = Inr r \<and> ended r"
proof -
  let ?f = "no_facts s" and ?mt = "wt_memory wt"
  have ends: "\<exists>r. y = Inr r \<and> current wt k u = Inr r \<and> ended r \<and> lives r0 r \<and> k \<notin> set (ja_readonly (jobs_of u))"
    if "terminalize_failure wt k x ?f s = (u, y)" "y \<noteq> Inl Killed" for x u y
  proof -
    from terminalize_passes [OF assms(1,2,5) that] obtain r where r: "y = Inr r" "alive wt k r0 u" by blast
    with answersD [OF answers_terminalize [OF assms(1,4)] assms(5)] that(1) show ?thesis by (auto simp: alive_def)
  qed
  show ?thesis
  proof (cases "e = authorityError")
    case True
    with assms(6) have "terminalize_failure wt k (''Execution authority error: '' @ mt_message ?mt e) ?f s = (t, out)"
      by (simp add: record_error_def)
    from ends [OF this assms(7)] show ?thesis by blast
  next
    case False
    obtain u y where u: "terminalize_failure wt k (''Execution error: '' @ mt_message ?mt e) ?f s = (u, y)" by fastforce
    have "y \<noteq> Inl Killed"
    proof
      assume "y = Inl Killed"
      with False u assms(6,7) show False by (simp add: record_error_def bindS_def)
    qed
    from ends [OF u this] obtain r where r: "y = Inr r" "current wt k u = Inr r" "ended r" "lives r0 r"
      "k \<notin> set (ja_readonly (jobs_of u))" by blast
    show ?thesis
    proof (cases "\<not> wk_invoked u \<and> jr_status r = Failed")
      case False
      with \<open>e \<noteq> authorityError\<close> u r assms(6) have "t = u" "out = Inr r" by (auto simp: record_error_def bindS_def)
      with r show ?thesis by blast
    next
      case True
      let ?g = "\<lambda>r. bindE (merged_metadata (jr_result_metadata r) BEFORE_RUNTIME) (\<lambda>m. Inr (r\<lparr>jr_result_metadata := m\<rparr>))"
      from True \<open>e \<noteq> authorityError\<close> u r(1) assms(6) have run: "on_job wt (update_job (wt_jobs wt) k ?g) u = (t, out)"
        by (simp add: record_error_def bindS_def merge_result_metadata_def)
      from r(4) assms(3) obtain m where "merged_metadata (jr_result_metadata r) BEFORE_RUNTIME = Inr m"
        by (auto simp: lives_def isOk_iff merged_metadata_of)
      then have "?g r = Inr (r\<lparr>jr_result_metadata := m\<rparr>)" by simp
      from update_passes [OF assms(1,2) run assms(7) r(2) this _ r(5)] r(3) show ?thesis by (simp add: advanced_def)
    qed
  qed
qed

text \<open>The start of a worker: it reads the job of its authority, and claims it.\<close>

lemma new_worker_jobs: "jobs_of (new_worker w) = ma_jobs (ww_memory w)"
  by (simp add: new_worker_def jobs_of_def [symmetric])

lemma starts_with:
  assumes "read_authority (wt_jobs wt) (au_root a) (ma_jobs (ww_memory w)) a = Inr r"
  shows "current wt (au_team_id a, au_job_id a) (new_worker w) = Inr r"
    "authority_job wt a (new_worker w) = (new_worker w, Inr r)"
proof -
  from assms show "current wt (au_team_id a, au_job_id a) (new_worker w) = Inr r"
    by (auto simp: read_authority_def bindE_eq_Inr mapErr_eq_Inr current_def new_worker_jobs reference_def job_path_def
        ensure_eq_Inr read_job_def split: option.splits job_file.splits)
  from assms show "authority_job wt a (new_worker w) = (new_worker w, Inr r)"
    by (simp add: authority_job_def new_worker_jobs jobs_of_def [symmetric])
qed

abbreviation retires :: "worker_tools \<Rightarrow> job_key \<Rightarrow> job_record \<Rightarrow> job_record exec" where
  "retires wt k r \<equiv> on_job wt (transition_job (wt_jobs wt) k Queued Failed (\<lambda>x. x\<lparr>jr_completed_at := Some (wt_completed_at wt),
     jr_execution_summary := Some (retired_trigger_summary (sp_trigger (jr_spec r)))\<rparr>))"

abbreviation claims :: "worker_tools \<Rightarrow> job_key \<Rightarrow> job_record exec" where
  "claims wt k \<equiv> on_job wt (transition_job (wt_jobs wt) k Queued WaitingForMemory (\<lambda>r. r\<lparr>jr_worker_pid := Some (wt_pid wt)\<rparr>))"

lemma execution_cases:
  fixes a :: job_authority
  defines "k \<equiv> (au_team_id a, au_job_id a)"
  assumes "execute_steps wt a s = (t, out)" "authority_job wt a s = (s, Inr r)"
  obtains (retired) "sp_trigger (jr_spec r) \<in> set RETIRED_TRIGGERS" "retires wt k r s = (t, out)"
  | (unclaimed) e where "claims wt k s = (t, Inl e)" "out = Inl e"
  | (claimed) u r1 where "claims wt k s = (u, Inr r1)" "catchS (attempt_run wt a k (jr_spec r1)) (record_error wt k) u = (t, out)"
proof (cases "sp_trigger (jr_spec r) \<in> set RETIRED_TRIGGERS")
  case True
  with assms(2,3) retired show thesis by (simp add: execute_steps_def Let_def bindS_def k_def)
next
  case False
  with assms(2,3) unclaimed claimed show thesis
    by (simp add: execute_steps_def Let_def bindS_def k_def split: prod.splits sum.splits)
qed


end
