(* ===== verification/BeforeRuntime.thy ===== *)
theory BeforeRuntime
  imports ExecutionSafety Dispatch
begin

text \<open>
  The mark of a job that failed before its agent ran. The dispatcher takes a scheduled job with this mark for lost and
  submits its occurrence again, so the mark must never be on a job whose agent was started: two runs of the
  worker that differ only in what the agent does are compared up to the moment the agent starts.
\<close>

section \<open>Another agent\<close>

definition with_agent :: "(agent_request \<Rightarrow> (worker_world, failure, agent_result) op) \<Rightarrow> worker_tools \<Rightarrow> worker_tools" where
  "with_agent h wt = wt\<lparr>wt_runtime := \<lambda>spec. case wt_runtime wt spec of Inl e \<Rightarrow> Inl e | Inr g \<Rightarrow> Inr (g\<lparr>gt_run := h\<rparr>)\<rparr>"

text \<open>All else is the same.\<close>

lemma with_agent_fields [simp]:
  "wt_memory (with_agent h wt) = wt_memory wt" "wt_co (with_agent h wt) = wt_co wt"
  "wt_pid (with_agent h wt) = wt_pid wt" "wt_artifact (with_agent h wt) = wt_artifact wt"
  "wt_split (with_agent h wt) = wt_split wt" "wt_view_hazard (with_agent h wt) = wt_view_hazard wt"
  "wt_log_hazard (with_agent h wt) = wt_log_hazard wt" "wt_log_path (with_agent h wt) = wt_log_path wt"
  "wt_project (with_agent h wt) = wt_project wt" "wt_base (with_agent h wt) = wt_base wt"
  "wt_git_changes (with_agent h wt) = wt_git_changes wt" "wt_started_at (with_agent h wt) = wt_started_at wt"
  "wt_completed_at (with_agent h wt) = wt_completed_at wt" "wt_day (with_agent h wt) = wt_day wt"
  "wt_config (with_agent h wt) = wt_config wt" "wt_moment (with_agent h wt) = wt_moment wt"
  "wt_token_hash (with_agent h wt) = wt_token_hash wt" "wt_nonce (with_agent h wt) = wt_nonce wt"
  "wt_secret (with_agent h wt) = wt_secret wt" "wt_serving (with_agent h wt) = wt_serving wt"
  "wt_shutdown (with_agent h wt) = wt_shutdown wt" "wt_clock (with_agent h wt) = wt_clock wt"
  "wt_waits (with_agent h wt) = wt_waits wt" "wt_kind (with_agent h wt) = wt_kind wt"
  "wt_retain (with_agent h wt) = wt_retain wt" "wt_keep_stage (with_agent h wt) = wt_keep_stage wt"
  "wt_retained (with_agent h wt) = wt_retained wt"
  by (simp_all add: with_agent_def)

lemma with_agent_jobs [simp]:
  "own_job (with_agent h wt) k = own_job wt k" "authority_job (with_agent h wt) a = authority_job wt a"
  "on_job (with_agent h wt) m = on_job wt m" "is_cancelled (with_agent h wt) a = is_cancelled wt a"
  "mark_cancelled_if_waiting (with_agent h wt) k = mark_cancelled_if_waiting wt k"
  by (simp_all add: own_job_def authority_job_def on_job_def is_cancelled_def mark_cancelled_if_waiting_def)

lemma with_agent_ends [simp]:
  "terminalize_failure (with_agent h wt) k x f = terminalize_failure wt k x f"
  "merge_failed_terminal_metadata (with_agent h wt) k x f = merge_failed_terminal_metadata wt k x f"
  "record_success (with_agent h wt) k x f = record_success wt k x f"
  "record_error (with_agent h wt) k e = record_error wt k e"
  unfolding terminalize_failure_def merge_failed_terminal_metadata_def rewrite_job_def record_error_def record_success_def
    with_agent_fields with_agent_jobs by (rule refl)+

lemma with_agent_parts [simp]:
  "resolved_memory_of (with_agent h wt) spec = resolved_memory_of wt spec"
  "ticket_runtime (with_agent h wt) spec = ticket_runtime wt spec"
  "start_broker (with_agent h wt) a = start_broker wt a"
  "finalize_ticket_runtime (with_agent h wt) a k r g x = finalize_ticket_runtime wt a k r g x"
  "write_log (with_agent h wt) n y = write_log wt n y" "prepare_prompt (with_agent h wt) r = prepare_prompt wt r"
  "begin_run (with_agent h wt) k = begin_run wt k"
  "prepare_launch (with_agent h wt) spec rt artifact fs = prepare_launch wt spec rt artifact fs"
  unfolding resolved_memory_of_def ticket_runtime_def start_broker_def finalize_ticket_runtime_def close_broker_def
    ticket_cleanup_error_def write_log_def prepare_prompt_def refresh_ticket_prompt_def begin_run_def prepare_launch_def
    with_agent_fields with_agent_jobs by (rule refl)+

lemma with_agent_report [simp]:
  "publish_run (with_agent h wt) k m stage old f note = publish_run wt k m stage old f note"
  "report_run (with_agent h wt) k spec m stage old z message = report_run wt k spec m stage old z message"
  unfolding report_run_def publish_run_def failed_memory_artifacts_def retained_failed_artifacts_def facts_of_def exit_summary_def
    with_agent_fields with_agent_jobs with_agent_ends with_agent_parts by (rule refl)+

lemma with_agent_wait [simp]: "wait_for_lock (with_agent h wt) a ws = wait_for_lock wt a ws"
  by (induction ws) (simp_all cong: if_cong)

section \<open>Until the agent is invoked\<close>

definition sticky :: "'a exec \<Rightarrow> bool" where
  "sticky m \<longleftrightarrow> (\<forall>s t x. m s = (t, x) \<longrightarrow> wk_invoked s \<longrightarrow> wk_invoked t)"

definition same_until :: "'a exec \<Rightarrow> 'a exec \<Rightarrow> bool" where
  "same_until m m' \<longleftrightarrow> (\<forall>s t x. m s = (t, x) \<longrightarrow> \<not> wk_invoked t \<longrightarrow> m' s = (t, x))"

named_theorems stickyI \<open>rules on what does not forget the agent\<close>

lemma sticky_keeps: "keeps wk_invoked m \<Longrightarrow> sticky m"
  by (auto simp: sticky_def dest: keepsD)

lemma invoked_extended [simp]: "wk_invoked (worker_world.extend w (worker_world.more s)) = wk_invoked s"
  by (cases s) (simp add: worker_world.defs)

lemma keeps_parts [keepsI]:
  "keeps wk_invoked (on_memory m)" "keeps wk_invoked (on_view m')" "keeps wk_invoked (on_logs m')"
  "keeps wk_invoked (on_runs n)" "keeps wk_invoked (on_job wt n')"
  by (rule keepsI'; auto simp: on_memory_def on_view_def on_logs_def on_runs_def on_job_def split: prod.splits)+

lemma keeps_agent [keepsI]: "keeps wk_invoked (by_agent m)"
  by (rule keepsI') (auto simp: by_agent_def split: prod.splits)

text \<open>The agent is invoked in one place.\<close>

lemma run_agent_invokes: "run_agent g q s = (t, x) \<Longrightarrow> wk_invoked t"
proof -
  assume run: "run_agent g q s = (t, x)"
  have "keeps wk_invoked (tryE (by_agent (gt_run g q)))"
    by (rule keepsI') (auto simp: tryE_def dest: keepsD [OF keeps_agent] split: prod.splits sum.splits failure.splits)
  from keepsD [OF this] run show ?thesis by (auto simp: run_agent_def)
qed

lemma sticky_agent: "sticky (run_agent g q)"
  using run_agent_invokes by (auto simp: sticky_def)

lemma same_agent: "same_until (run_agent g q) m"
  using run_agent_invokes by (auto simp: same_until_def)

lemma sticky_bind: "sticky m \<Longrightarrow> (\<And>x. sticky (f x)) \<Longrightarrow> sticky (bindS m f)"
  unfolding sticky_def bindS_def by (auto split: prod.splits sum.splits) (metis)+

lemma sticky_catch: "sticky m \<Longrightarrow> (\<And>e. sticky (h e)) \<Longrightarrow> sticky (catchS m h)"
  unfolding sticky_def catchS_def by (auto split: prod.splits sum.splits failure.splits) (metis)+

lemma sticky_if: "sticky m \<Longrightarrow> sticky m' \<Longrightarrow> sticky (if c then m else m')"
  by simp

lemma sticky_tryE: "sticky m \<Longrightarrow> sticky (tryE m)"
  by (auto simp: sticky_def tryE_def split: prod.splits sum.splits failure.splits)

lemma sticky_lift: "(\<And>x. m = Inr x \<Longrightarrow> sticky (f x)) \<Longrightarrow> sticky (bindS (tryliftS m) f)"
  by (cases m) (simp_all add: sticky_def)

lemma sticky_pair: "(\<And>y z. sticky (f y z)) \<Longrightarrow> sticky (case x of (y, z) \<Rightarrow> f y z)"
  by (cases x) simp

lemma same_refl: "same_until m m"
  by (simp add: same_until_def)

lemma same_bind:
  assumes "same_until m m'" "\<And>x. same_until (f x) (f' x)" "\<And>x. sticky (f x)"
  shows "same_until (bindS m f) (bindS m' f')"
  unfolding same_until_def
proof (intro allI impI)
  fix s t x assume run: "bindS m f s = (t, x)" "\<not> wk_invoked t"
  obtain u y where u: "m s = (u, y)" by fastforce
  have "\<not> wk_invoked u"
    using run u assms(3) by (cases y) (auto simp: bindS_def sticky_def)
  with assms(1) u have "m' s = (u, y)" by (simp add: same_until_def)
  with run u assms(2) show "bindS m' f' s = (t, x)" by (cases y) (auto simp: bindS_def same_until_def)
qed

lemma same_catch:
  assumes "same_until m m'" "\<And>e. same_until (h e) (h' e)" "\<And>e. sticky (h e)"
  shows "same_until (catchS m h) (catchS m' h')"
  unfolding same_until_def
proof (intro allI impI)
  fix s t x assume run: "catchS m h s = (t, x)" "\<not> wk_invoked t"
  obtain u y where u: "m s = (u, y)" by fastforce
  have "\<not> wk_invoked u"
    using run u assms(3) by (auto simp: catchS_def sticky_def split: sum.splits failure.splits)
  with assms(1) u have "m' s = (u, y)" by (simp add: same_until_def)
  with run u assms(2) show "catchS m' h' s = (t, x)"
    by (auto simp: catchS_def same_until_def split: sum.splits failure.splits)
qed

lemma same_if: "same_until m m' \<Longrightarrow> same_until n n' \<Longrightarrow> same_until (if c then m else n) (if c then m' else n')"
  by simp

lemma same_tryE: "same_until m m' \<Longrightarrow> same_until (tryE m) (tryE m')"
  unfolding same_until_def
proof (intro allI impI)
  fix s t x assume same: "\<forall>s t x. m s = (t, x) \<longrightarrow> \<not> wk_invoked t \<longrightarrow> m' s = (t, x)"
    and run: "tryE m s = (t, x)" "\<not> wk_invoked t"
  obtain u y where u: "m s = (u, y)" by fastforce
  with run have "u = t" by (auto simp: tryE_def split: sum.splits failure.splits)
  with same u run(2) have "m' s = (t, y)" by blast
  with run u \<open>u = t\<close> show "tryE m' s = (t, x)" by (simp add: tryE_def)
qed

section \<open>The parts of a run\<close>

abbreviation other :: "(agent_request \<Rightarrow> (worker_world, failure, agent_result) op) \<Rightarrow> agent_runtime \<Rightarrow> agent_runtime" where
  "other h g \<equiv> g\<lparr>gt_run := h\<rparr>"

lemma keeps_tryE [keepsI]: "keeps v m \<Longrightarrow> keeps v (tryE m)"
  by (rule keepsI') (auto simp: tryE_def dest: keepsD split: prod.splits sum.splits failure.splits)

lemma keeps_sum [keepsI]:
  "(\<And>e. keeps v (f e)) \<Longrightarrow> (\<And>y. keeps v (g y)) \<Longrightarrow> keeps v (case x of Inl e \<Rightarrow> f e | Inr y \<Rightarrow> g y)"
  by (cases x) simp_all

lemma keeps_put_other [keepsI]: "keeps wk_invoked (putS (\<lambda>s. s\<lparr>wk_started := x\<rparr>))" "keeps wk_invoked (putS (\<lambda>s. s\<lparr>wk_base_sha := y\<rparr>))"
  by (simp_all add: keeps_def)

lemma keeps_own [keepsI]:
  "keeps wk_invoked (own_job wt k)" "keeps wk_invoked (authority_job wt a)" "keeps wk_invoked (is_cancelled wt a)"
  "keeps wk_invoked (mark_cancelled_if_waiting wt k)" "keeps wk_invoked (write_log wt n x)"
  unfolding own_job_def authority_job_def is_cancelled_def mark_cancelled_if_waiting_def write_log_def by (intro keepsI)+

lemma keeps_ends [keepsI]:
  "keeps wk_invoked (terminalize_failure wt k x f)" "keeps wk_invoked (merge_failed_terminal_metadata wt k x f)"
  "keeps wk_invoked (record_success wt k x f)" "keeps wk_invoked (record_error wt k e)"
  unfolding terminalize_failure_def merge_failed_terminal_metadata_def record_success_def record_error_def rewrite_job_def
  by (intro keepsI)+

lemma keeps_worker_parts [keepsI]:
  "keeps wk_invoked (start_broker wt a)" "keeps wk_invoked (finalize_ticket_runtime wt a k r g stopped)"
  "keeps wk_invoked (prepare_prompt wt r)" "keeps wk_invoked (begin_run wt k)" "keeps wk_invoked (prepare_launch wt spec rt artifact fs)"
  unfolding start_broker_def finalize_ticket_runtime_def close_broker_def prepare_prompt_def begin_run_def prepare_launch_def Let_def
  by (intro keepsI)+

lemma keeps_report [keepsI]: "keeps wk_invoked (report_run wt k spec m stage old z message)"
proof -
  have "keeps wk_invoked (copy_entries mt d P es :: _ exec)" for mt d P es
  proof (induction mt d P es rule: copy_entries.induct)
    case (2 mt d P n b es)
    then show ?case by (auto intro!: keepsI simp: copy_to_stage_def)
  qed (simp_all add: keeps_pure)
  then have "keeps wk_invoked (copy_launch_memory_to_stage mt m d :: _ exec)" for mt m d
    unfolding copy_launch_memory_to_stage_def by (intro keepsI)
  then have "keeps wk_invoked (publish_run wt k m stage old f n)" for f n
    unfolding publish_run_def retained_failed_artifacts_def failed_memory_artifacts_def Let_def by (intro keepsI)
  then show ?thesis unfolding report_run_def failed_memory_artifacts_def Let_def by (intro keepsI)
qed

lemma keeps_wait: "keeps wk_invoked (wait_for_lock wt a ws)"
proof (induction ws)
  case (Cons w ws)
  then show ?case unfolding wait_for_lock.simps by (intro keepsI)
qed (unfold wait_for_lock.simps, intro keepsI)

lemma other_launch [simp]: "prepare_launch wt spec (other h g) artifact fs = prepare_launch wt spec g artifact fs"
  by (simp add: prepare_launch_def)

lemma broker_parts:
  "sticky (with_broker wt a k r g q grant)"
  "same_until (with_broker wt a k r g q grant) (with_broker (with_agent h wt) a k r (other h g) q grant)"
proof -
  have tail: "sticky (bindS (finalize_ticket_runtime wt a k r i c) (\<lambda>m. case ended of Inl e \<Rightarrow> failS e | Inr z \<Rightarrow> returnS (z, m)))"
    for i c and ended :: "ticket_error + (ticket_error + agent_result)"
    by (intro sticky_keeps keepsI)
  show "sticky (with_broker wt a k r g q grant)"
    unfolding with_broker_def
    by (intro sticky_bind [OF sticky_tryE tail] sticky_bind sticky_agent sticky_keeps keeps_worker_parts)
  show "same_until (with_broker wt a k r g q grant) (with_broker (with_agent h wt) a k r (other h g) q grant)"
    unfolding with_broker_def with_agent_parts
    by (intro same_bind same_tryE same_agent same_refl sticky_agent tail)
qed

lemma ticket_parts:
  "sticky (run_with_tickets wt a k r g q)"
  "same_until (run_with_tickets wt a k r g q) (run_with_tickets (with_agent h wt) a k r (other h g) q)"
proof -
  have tail: "sticky (case x of (z, message) \<Rightarrow> bindS (tryliftS z) (\<lambda>z. returnS (z, message)))"
    for x :: "(ticket_error + agent_result) \<times> string option"
    by (intro sticky_pair sticky_keeps keepsI)
  have run: "sticky (if live then bindS (start_broker wt a) (with_broker wt a k r g q)
     else bindS (run_agent g q) (\<lambda>z. returnS (z, None)))" for live
    by (intro sticky_if sticky_bind broker_parts sticky_agent sticky_keeps keepsI)
  show "sticky (run_with_tickets wt a k r g q)"
    unfolding run_with_tickets_def by (intro sticky_lift sticky_bind [OF run tail])
  show "same_until (run_with_tickets wt a k r g q) (run_with_tickets (with_agent h wt) a k r (other h g) q)"
    unfolding run_with_tickets_def with_agent_parts
    by (intro same_bind same_if same_refl same_agent broker_parts run tail sticky_bind [OF run tail] sticky_keeps [OF keeps_read])
qed

lemma locked_parts:
  "sticky (run_locked wt a k spec g artifact memory)"
  "same_until (run_locked wt a k spec g artifact memory) (run_locked (with_agent h wt) a k spec (other h g) artifact memory)"
proof -
  have report: "sticky (case x of (z, message) \<Rightarrow> report_run wt k spec m stage old z message)" for x m stage old
    by (intro sticky_pair sticky_keeps keepsI)
  show "sticky (run_locked wt a k spec g artifact memory)"
    unfolding run_locked_def
    by (intro sticky_bind [OF _ report] sticky_bind sticky_if ticket_parts sticky_keeps keepsI)
  show "same_until (run_locked wt a k spec g artifact memory) (run_locked (with_agent h wt) a k spec (other h g) artifact memory)"
    unfolding run_locked_def with_agent_fields with_agent_jobs with_agent_parts with_agent_report other_launch
    by (intro same_bind [OF same_refl] same_bind [OF ticket_parts(2) same_refl report] same_if same_refl
        sticky_bind [OF _ report] sticky_bind sticky_if ticket_parts sticky_keeps keepsI)
qed

lemma attempt_parts:
  "sticky (attempt_run wt a k spec)"
  "same_until (attempt_run wt a k spec) (attempt_run (with_agent h wt) a k spec)"
proof -
  let ?run = "\<lambda>wt g artifact memory. catchS
       (bindS (on_memory (memory_lock (wt_memory wt) False memory)) (\<lambda>_.
        bindS (wait_for_lock wt a (wt_waits wt)) (\<lambda>_. run_locked wt a k spec g artifact memory)))
       (\<lambda>e. if e = lockCancelled then mark_cancelled_if_waiting wt k else failS e)"
  let ?rest = "\<lambda>wt g. bindS (tryliftS (wt_artifact wt spec)) (\<lambda>artifact.
     bindS (tryliftS (resolved_memory_of wt spec)) (?run wt g artifact))"
  have handler: "sticky (if e = lockCancelled then mark_cancelled_if_waiting wt k else failS e)" for e
    by (intro sticky_if sticky_keeps keepsI)
  have start: "sticky (?run wt g artifact memory)" for g artifact memory
    by (intro sticky_catch sticky_bind locked_parts handler sticky_keeps keeps_wait keepsI)
  then have rest: "sticky (?rest wt g)" for g by (intro sticky_lift)
  show "sticky (attempt_run wt a k spec)"
    unfolding attempt_run_def by (intro sticky_bind [OF sticky_keeps [OF keeps_own(2)]] sticky_lift rest)
  have locked: "sticky (bindS (wait_for_lock wt a ws) (\<lambda>_. run_locked wt a k spec g artifact memory))" for ws g artifact memory
    by (intro sticky_bind locked_parts sticky_keeps keeps_wait)
  have "same_until (?run wt g artifact memory) (?run (with_agent h wt) (other h g) artifact memory)" for g artifact memory
    unfolding with_agent_fields with_agent_jobs with_agent_wait
    by (intro same_catch handler same_refl same_bind locked locked_parts sticky_keeps [OF keeps_read])
  then have same: "same_until (?rest wt g) (?rest (with_agent h wt) (other h g))" for g
    unfolding with_agent_fields with_agent_parts by (intro same_bind [OF same_refl] start sticky_lift)
  have "same_until (bindS (tryliftS (wt_runtime wt spec)) (?rest wt))
      (bindS (tryliftS (wt_runtime (with_agent h wt) spec)) (?rest (with_agent h wt)))"
  proof (cases "wt_runtime wt spec")
    case (Inl e)
    then show ?thesis by (simp add: with_agent_def same_until_def)
  next
    case (Inr g)
    then have "wt_runtime (with_agent h wt) spec = Inr (other h g)" by (simp add: with_agent_def)
    with Inr same [of g] show ?thesis by (simp add: same_until_def)
  qed
  then show "same_until (attempt_run wt a k spec) (attempt_run (with_agent h wt) a k spec)"
    unfolding attempt_run_def with_agent_jobs by (intro same_bind [OF same_refl] sticky_lift rest)
qed

lemma execution_same: "same_until (execute_steps wt a) (execute_steps (with_agent h wt) a)"
  unfolding execute_steps_def Let_def with_agent_jobs with_agent_fields with_agent_ends
  by (intro same_bind [OF same_refl] same_if same_refl same_catch attempt_parts sticky_if sticky_bind sticky_catch
      sticky_keeps keepsI)

section \<open>The mark\<close>

definition marked :: "job_record \<Rightarrow> bool" where
  "marked r \<longleftrightarrow> (\<exists>d. metadata_of r = Inr d \<and> has_key d ''execution_failure'')"

definition unmarked :: "job_spec \<Rightarrow> job_record \<Rightarrow> job_record \<Rightarrow> bool" where
  "unmarked sp r r' \<longleftrightarrow> lives r r' \<and> (jr_spec r = sp \<longrightarrow> marked r' \<longrightarrow> marked r)"

lemma recoverable_marked: "recoverable_pre_runtime_failure r \<Longrightarrow> is_launched r \<Longrightarrow> marked r"
  by (auto simp: recoverable_pre_runtime_failure_def marked_def metadata_of_def get_or_def has_key_map_of
      split: if_splits json.splits option.splits)

interpretation unmarked: completing_relation "unmarked sp" for sp
proof (unfold_locales, goal_cases)
  case (2 r r1 r2)
  then show ?case using lives.transitive by (auto simp: unmarked_def lives_def kept_def)
next
  case (3 r r')
  then show ?case using lives.advance by (simp add: unmarked_def marked_def metadata_of_def)
next
  case (5 r r')
  then show ?case using lives.completes by (simp add: unmarked_def marked_def metadata_of_def)
next
  case (4 r d m)
  from metadata_merged [OF 4(1)] 4(2) lives_merge [OF 4(1)] show ?case
    unfolding unmarked_def marked_def has_key_def by (auto simp del: set_map simp: keys_dict_update)
qed (simp add: unmarked_def lives.reflexive)

lemma others_lives: "others_keep wt (unmarked sp) \<Longrightarrow> others_keep wt lives"
  unfolding others_keep_def evolves_def unmarked_def by meson


text \<open>A handler that runs after the agent adds no mark.\<close>

lemma error_invoked:
  assumes "wk_invoked s"
  shows "\<exists>x. record_error wt k e s = terminalize_failure wt k x (no_facts s) s"
proof (cases "e = authorityError")
  case True
  then show ?thesis by (auto simp: record_error_def)
next
  case False
  let ?m = "terminalize_failure wt k (''Execution error: '' @ mt_message (wt_memory wt) e) (no_facts s)"
  obtain u y where u: "?m s = (u, y)" by fastforce
  from keepsD [OF keeps_ends(1) u] assms have "wk_invoked u" by simp
  with u False have "record_error wt k e s = ?m s"
    by (cases y) (simp_all add: record_error_def bindS_def)
  then show ?thesis by blast
qed

lemma transition_job_back:
  assumes "transition_job jt k a b f s = (t, Inr r)"
  shows "k \<notin> set (ja_readonly s) \<and> ja_readonly t = ja_readonly s \<and> (\<exists>r0. read_job jt s k None = Inr r0 \<and> r = f (r0\<lparr>jr_status := b\<rparr>))"
  using assms unfolding transition_job_def update_job_def
  by (auto simp: bindS_Inr readS_Inr bindE_eq_Inr ensure_eq_Inr write_job_Inr stored_def simp del: bindS_readS readS_apply)

text \<open>Once the agent was started, a claimed job ends without the mark.\<close>

lemma invoked_keeps:
  assumes "faithful_files (wt_jobs wt)" "others_keep wt (unmarked sp)"
    and "catchS (attempt_run wt a k spec) (record_error wt k) u = (s, Inr r')" "wk_invoked s"
    and "alive wt k r1 u" "jr_status r1 \<noteq> Queued"
  shows "current wt k s = Inr r' \<and> evolves (wt_jobs wt) (unmarked sp) (jobs_of u) (jobs_of s)"
proof -
  obtain v z where v: "attempt_run wt a k spec u = (v, z)" by fastforce
  note evolved = evolvingD [OF unmarked.evolving_attempt [OF assms(1,2)] v] and others = others_lives [OF assms(2)]
  show ?thesis
  proof (cases z)
    case (Inr x)
    with assms(3) v have "s = v" "x = r'" by (simp_all add: catchS_def)
    with answersD [OF answers_attempt [OF assms(1) others assms(6)] assms(5) v [unfolded Inr]] evolved show ?thesis by simp
  next
    case (Inl f)
    with assms(3) v obtain e where e: "record_error wt k e v = (s, Inr r')" by (cases f) (simp_all add: catchS_def)
    with keepsD [OF keeps_ends(4)] assms(4) have "wk_invoked v" by metis
    then obtain x where t: "terminalize_failure wt k x (no_facts v) v = (s, Inr r')"
      using error_invoked [of v wt k e] e by metis
    from alive_evolves [OF evolvingD [OF lives.evolving_attempt [OF assms(1) others] v] assms(5)] have "alive wt k r1 v" .
    from answersD [OF answers_terminalize [OF assms(1,6)] this t]
      unmarked.evolves_trans [OF evolved evolvingD [OF unmarked.evolving_terminalize [OF assms(1)] t]]
    show ?thesis by simp
  qed
qed

text \<open>C17: A job is only taken for one that its agent never saw when the agent was not started: if a worker answers
  with a record that the dispatcher counts as failed before the runtime, then it would have done exactly the same,
  to the job, the memory, the tickets and the logs, with any other agent. So a scheduled occurrence that is submitted
  again was not carried out before.\<close>

theorem recovered_only_if_not_run:
  assumes "faithful_files (wt_jobs wt)" "others_keep wt (unmarked (jr_spec r))"
    and "execute_job wt a w = (t, Inr r')" "recoverable_pre_runtime_failure r'"
    and "read_authority (wt_jobs wt) (au_root a) (ma_jobs (ww_memory w)) a = Inr r" "jr_status r = Queued" "\<not> marked r"
  shows "execute_job (with_agent h wt) a w = (t, Inr r')"
proof -
  let ?k = "(au_team_id a, au_job_id a)" and ?w = "new_worker w"
  obtain s where s: "execute_steps wt a ?w = (s, Inr r')" "t = worker_world.truncate s"
    using assms(3) by (auto simp: execute_job_def split: prod.splits)
  note start = starts_with [OF assms(5)] and others = others_lives [OF assms(2)]
  have "\<not> wk_invoked s"
    using s(1) start(2)
  proof (cases rule: execution_cases)
    case retired
    from keepsD [OF keeps_parts(5) retired(2)] show ?thesis by (simp add: new_worker_def worker_world.defs)
  next
    case (claimed u r1)
    note claim = on_job_Inr [OF claimed(1)]
    from transition_job_back [OF claim] start(1) assms(7)
    have r1: "?k \<notin> set (ja_readonly (jobs_of u))" "is_launched r1" "\<not> marked r1" "jr_spec r1 = jr_spec r"
      by (auto simp: is_launched_def marked_def metadata_of_def current_def)
    from transition_job_Inr [OF assms(1) _ claim] have cur: "current wt ?k u = Inr r1" "jr_status r1 \<noteq> Queued"
      by (simp_all add: run_fields_def current_def)
    with r1 have alive: "alive wt ?k r1 u" by (simp add: alive_def lives.reflexive)
    show ?thesis
    proof
      assume invoked: "wk_invoked s"
      have "current wt ?k s = Inr r' \<and> evolves (wt_jobs wt) (unmarked (jr_spec r)) (jobs_of u) (jobs_of s)"
        by (rule invoked_keeps [OF assms(1,2) claimed(2) invoked alive cur(2)])
      then have "unmarked (jr_spec r) r1 r'" using evolvesD cur(1) by (fastforce simp: current_def)
      with r1 recoverable_marked [OF assms(4)] show False by (auto simp: unmarked_def lives_def)
    qed
  qed simp
  with execution_same s show ?thesis by (auto simp: same_until_def execute_job_def)
qed

end
