(* ===== verification/RunOutcome.thy ===== *)
theory RunOutcome
  imports BeforeRuntime
begin

text \<open>
  What a completed job has done: the parts of a run, from the staging of the memory to its publication, put together.
  A worker only completes a job when its agent ended with exit code 0, and then the memory holds the
  Markdown files that the agent left in the memory directory of its launch view, and nothing else.
\<close>

section \<open>Staging\<close>

lemma canonical_wf:
  assumes "canonical_directory mt h s = (t, Inr u)" "wf_dir (spot [h] s)"
  shows "wf_dir (spot [h] t)"
  using assms
  by (auto simp: canonical_directory_def ensure_infrastructure_directory_def ensure_child_directory_def bindS_Inr lookM_Inr
      whenS_def callM_Inr call_defs spot_def look_alter look_append update_conv' wf_dir_def split: if_splits)

lemma ensured:
  fixes r :: resolved_memory
  defines "h \<equiv> rm_memory_hash r"
  assumes "ensure_memory_locked mt r s = (t, Inr sn)" "wf_dir (spot [h] s)"
  shows "dir_is (sn_files sn) (spot [h] t)" "wf_dict (sn_files sn)"
proof -
  from assms(2) obtain u v fs where u: "canonical_directory mt h s = (u, Inr ())"
    and v: "whenS (\<lambda>s. entries_at (dk_root s) [h] = Some []) (callM mt (replace_file [h] ''memory.md'' [])) u = (v, Inr ())"
    and t: "read_files mt [h] v = (t, Inr fs)" "fs \<noteq> []" and sn: "sn = snapshot_of mt r fs"
    unfolding ensure_memory_locked_def Let_def h_def
    by (auto simp: bindS_Inr mapErr_eq_Inr ensure_eq_Inr readS_Inr simp del: bindS_readS readS_apply)
  have "wf_dir (spot [h] v)"
    using canonical_wf [OF u assms(3)] v
    by (auto simp: whenS_def callM_Inr call_defs spot_def look_alter entries_at_def wf_dir_def distinct_update
        split: if_splits option.splits node.splits)
  from read_files_dir [OF t(1) this] t(2) sn show "dir_is (sn_files sn) (spot [h] t)" "wf_dict (sn_files sn)"
    by (simp_all add: snapshot_of_def)
qed

lemma dir_is_wf: "dir_is fs c \<Longrightarrow> wf_dir c"
  by (auto simp: dir_is_def wf_dir_def)

lemma staged:
  assumes "stage_memory_locked mt r job s = (t, Inr stage)" "wf_dir (spot [rm_memory_hash r] s)" "full_digest (rm_memory_hash r)"
  shows "mg_resolved stage = r \<and> mg_job_id stage = job \<and> wf_dir (spot [rm_memory_hash r] t) \<and> spot [rm_memory_hash r] t \<noteq> None \<and>
    (\<exists>fs. dir_is fs (spot (stages (rm_memory_hash r) @ [job]) t))"
proof -
  let ?h = "rm_memory_hash r" and ?d = "[''.staging'', rm_memory_hash r, job]"
  from assms(1) obtain u sn v w x where u: "ensure_memory_locked mt r s = (u, Inr sn)"
    and job: "validate_job_id mt job = Inr job"
    and v: "ensure_infrastructure_directory mt [''.staging'', ?h] u = (v, Inr ())"
    and w: "whenS (\<lambda>s. present (look (dk_root s) ?d)) (safe_rmtree mt False [''.staging'', ?h] job) v = (w, Inr ())"
    and x: "ensure_child_directory mt [''.staging'', ?h] job w = (x, Inr ())"
    and t: "write_files mt ?d (sn_files sn) x = (t, Inr ())"
    and stage: "stage = \<lparr>mg_resolved = r, mg_job_id = job, mg_base_revision = sn_revision sn\<rparr>"
    unfolding stage_memory_locked_def Let_def
    by (auto simp: bindS_Inr mapErr_eq_Inr readS_Inr validate_job_id_def bindE_eq_Inr simp del: bindS_readS readS_apply)
  note names = digest_name [OF assms(3)]
  from ensured [OF u assms(2)] have sn: "dir_is (sn_files sn) (spot [?h] u)" "wf_dict (sn_files sn)" .
  have infra: "keeps (spot [?h]) (ensure_infrastructure_directory mt [''.staging'', ?h])"
    and clear: "keeps (spot [?h]) (whenS (\<lambda>s. present (look (dk_root s) ?d)) (safe_rmtree mt False [''.staging'', ?h] job))"
    and made: "keeps (spot [?h]) (ensure_child_directory mt [''.staging'', ?h] job)"
    and written: "keeps (spot [?h]) (write_files mt ?d (sn_files sn))"
    using names by (auto intro!: keepsI keeps_child)
  have "spot [?h] t = spot [?h] u"
    using keepsD [OF infra v] keepsD [OF clear w] keepsD [OF made x] keepsD [OF written t] by simp
  moreover have "spot ?d x = Some (DirNode [])"
    using made_again [of "[''.staging'', ?h]" job mt v w "()" x "()"] w x by simp
  from write_files_holds [OF sn(2) this t] have "dir_is (sn_files sn) (spot ?d t)" by (simp add: spot_def)
  ultimately show ?thesis using sn(1) stage dir_is_wf by (auto simp: dir_is_def)
qed

section \<open>Publishing\<close>

text \<open>Nothing but the publication completes the job with this specification.\<close>

definition uncompleted :: "job_spec \<Rightarrow> job_record \<Rightarrow> job_record \<Rightarrow> bool" where
  "uncompleted sp r r' \<longleftrightarrow> kept r r' \<and> (jr_spec r = sp \<longrightarrow> jr_status r' = Complete \<longrightarrow> jr_status r = Complete)"

interpretation uncompleted: job_relation "uncompleted sp" for sp
proof (unfold_locales, goal_cases)
  case (2 r r1 r2)
  then show ?case by (auto simp: uncompleted_def kept_def)
qed (simp_all add: uncompleted_def advanced_kept kept_merge)

definition pending :: "worker_tools \<Rightarrow> job_key \<Rightarrow> job_spec \<Rightarrow> 'x worker_world_scheme \<Rightarrow> bool" where
  "pending wt k sp s \<longleftrightarrow> (\<exists>r. current wt k s = Inr r \<and> jr_spec r = sp \<and> jr_status r \<noteq> Complete)"

abbreviation memory_at :: "path \<Rightarrow> 'x worker_world_scheme \<Rightarrow> node option" where
  "memory_at q s \<equiv> spot q (ww_memory s)"

lemma pending_evolves: "evolves (wt_jobs wt) (uncompleted sp) (jobs_of s) (jobs_of t) \<Longrightarrow> pending wt k sp s \<Longrightarrow> pending wt k sp t"
  unfolding pending_def current_def evolves_def uncompleted_def kept_def by metis

lemma triple_pending:
  "evolving (wt_jobs wt) (uncompleted sp) jobs_of m \<Longrightarrow> triple (pending wt k sp) m (\<lambda>_. pending wt k sp) (\<lambda>_. pending wt k sp)"
  by (rule tripleI') (blast dest: evolvingD intro: pending_evolves)+

text \<open>Where the job is not complete, or the memory has files that are accounted for.\<close>

definition accounted :: "worker_tools \<Rightarrow> job_key \<Rightarrow> job_spec \<Rightarrow> path \<Rightarrow> (files \<Rightarrow> bool) \<Rightarrow> 'x worker_world_scheme \<Rightarrow> bool" where
  "accounted wt k sp q W s \<longleftrightarrow> pending wt k sp s \<or> (\<exists>fs. W fs \<and> dir_is fs (memory_at q s))"

lemma triple_accounted:
  assumes "evolving (wt_jobs wt) (uncompleted sp) jobs_of m" "keeps (memory_at q) m"
  shows "triple (accounted wt k sp q W) m (\<lambda>_. accounted wt k sp q W) (\<lambda>_. accounted wt k sp q W)"
proof (rule tripleI')
  fix s t x
  have "m s = (t, out) \<Longrightarrow> accounted wt k sp q W s \<Longrightarrow> accounted wt k sp q W t" for out
    using pending_evolves [OF evolvingD [OF assms(1)]] keepsD [OF assms(2)] unfolding accounted_def by metis
  then show "accounted wt k sp q W s \<Longrightarrow> m s = (t, Inr x) \<Longrightarrow> accounted wt k sp q W t"
    "\<And>e. accounted wt k sp q W s \<Longrightarrow> m s = (t, Inl e) \<Longrightarrow> accounted wt k sp q W t" by blast+
qed

lemma keeps_memory_at: "keeps (spot q) m \<Longrightarrow> keeps (memory_at q) (on_memory m)"
  by (rule keepsI') (auto simp: on_memory_def dest: keepsD split: prod.splits)

lemma keeps_elsewhere [keepsI]:
  "keeps (memory_at q) (on_view m)" "keeps (memory_at q) (on_logs m)" "keeps (memory_at q) (on_runs n)" "keeps (memory_at q) (on_job wt n')"
  by (rule keepsI'; auto simp: on_view_def on_logs_def on_runs_def on_job_def on_memory_def jobM_def spot_def
      split: prod.splits hazard.splits)+

lemma keeps_records [keepsI]:
  "keeps (memory_at q) (own_job wt k)" "keeps (memory_at q) (authority_job wt a)" "keeps (memory_at q) (terminalize_failure wt k x f)"
  "keeps (memory_at q) (merge_failed_terminal_metadata wt k x f)" "keeps (memory_at q) (record_success wt k x f)"
  "keeps (memory_at q) (record_error wt k e)" "keeps (memory_at q) (mark_cancelled_if_waiting wt k)"
  unfolding own_job_def authority_job_def terminalize_failure_def merge_failed_terminal_metadata_def record_success_def
    record_error_def mark_cancelled_if_waiting_def rewrite_job_def
  by (intro keepsI)+

lemma dir_is_same_files: "dir_is fs c \<Longrightarrow> dir_is gs c \<Longrightarrow> dir_is fs d \<Longrightarrow> dir_is gs d"
  by (auto simp: dir_is_def)

lemma triple_kept_files:
  "W fs \<Longrightarrow> keeps (memory_at q) m \<Longrightarrow> triple (\<lambda>s. dir_is fs (memory_at q s)) m (\<lambda>_ s. dir_is fs (memory_at q s)) (\<lambda>_. accounted wt k sp q W)"
  unfolding accounted_def by (rule tripleI') (auto dest: keepsD)

lemma early:
  "pending wt k sp s \<Longrightarrow> m s = (t, x) \<Longrightarrow> evolving (wt_jobs wt) (uncompleted sp) jobs_of m \<Longrightarrow> accounted wt k sp q W t"
  by (drule (1) evolvingD) (simp add: accounted_def pending_evolves)

lemma handler_accounts:
  assumes "faithful_files (wt_jobs wt)"
  shows "triple (accounted wt k sp q W) (if e \<notin> publication_failures then failS e
          else bindS (own_job wt k) (\<lambda>current.
            bindS (retained_failed_artifacts wt k) (\<lambda>arts.
            bindS (if arts \<noteq> [] then returnS arts else failed_memory_artifacts wt k d old) (\<lambda>arts.
            if jr_status current = Failed then merge_failed_terminal_metadata wt k x (with_artifacts f arts)
            else terminalize_failure wt k x (with_artifacts f arts)))))
        (\<lambda>_. accounted wt k sp q W) (\<lambda>_. accounted wt k sp q W)"
proof (rule triple_accounted)
  have "keeps (memory_at q) (retained_failed_artifacts wt k)"
    "keeps (memory_at q) (failed_memory_artifacts wt k d old)"
    unfolding retained_failed_artifacts_def failed_memory_artifacts_def by (intro keepsI keeps_memory_at)+
  then show "keeps (memory_at q) (if e \<notin> publication_failures then failS e
          else bindS (own_job wt k) (\<lambda>current.
            bindS (retained_failed_artifacts wt k) (\<lambda>arts.
            bindS (if arts \<noteq> [] then returnS arts else failed_memory_artifacts wt k d old) (\<lambda>arts.
            if jr_status current = Failed then merge_failed_terminal_metadata wt k x (with_artifacts f arts)
            else terminalize_failure wt k x (with_artifacts f arts)))))"
    by (intro keeps_if keeps_bind keeps_read keeps_records)
qed (intro uncompleted.evolving_if uncompleted.evolving_bind uncompleted.evolving_read uncompleted.evolving_own
    uncompleted.evolving_merge_failed uncompleted.evolving_terminalize uncompleted.evolving_artifacts assms)

lemma publish_accounts:
  fixes stage :: memory_stage
  defines "h \<equiv> rm_memory_hash (mg_resolved stage)" and "d \<equiv> stages (rm_memory_hash (mg_resolved stage)) @ [mg_job_id stage]"
  assumes "faithful_files (wt_jobs wt)" "full_digest h" "wf_dict es" "W (markdown es)"
  shows "triple (\<lambda>s. pending wt k sp s \<and> entries_at (dk_root (ww_view s)) m = Some es \<and> dir_is fs (memory_at d s) \<and>
      wf_dir (memory_at [h] s) \<and> memory_at [h] s \<noteq> None)
    (publish_run wt k m stage old f n) (\<lambda>_. accounted wt k sp [h] W) (\<lambda>_. accounted wt k sp [h] W)"
proof -
  let ?mt = "wt_memory wt" and ?acc = "accounted wt k sp [h] W"
  let ?P1 = "\<lambda>s. pending wt k sp s \<and> dir_is (markdown es) (memory_at d s) \<and> wf_dir (memory_at [h] s) \<and> memory_at [h] s \<noteq> None"
  let ?P2 = "\<lambda>p s. pending wt k sp s \<and> wf_transaction (job_transaction p) \<and> pp_memory_hash p = h \<and>
      dir_is (pp_old_files p) (memory_at [h] s) \<and> (\<forall>c. dir_is (pp_new_files p) c \<longrightarrow> dir_is (markdown es) c)"
  let ?P3 = "\<lambda>s. dir_is (markdown es) (memory_at [h] s)"
  note names = digest_name [OF assms(4)]
  have copy: "triple (\<lambda>s. pending wt k sp s \<and> entries_at (dk_root (ww_view s)) m = Some es \<and> dir_is fs (memory_at d s) \<and>
      wf_dir (memory_at [h] s) \<and> memory_at [h] s \<noteq> None) (copy_launch_memory_to_stage ?mt m d :: unit exec) (\<lambda>_. ?P1) (\<lambda>_. ?acc)"
  proof (rule tripleI')
    fix s t :: worker and u
    assume pre: "pending wt k sp s \<and> entries_at (dk_root (ww_view s)) m = Some es \<and> dir_is fs (memory_at d s) \<and>
      wf_dir (memory_at [h] s) \<and> memory_at [h] s \<noteq> None"
    have evol: "evolving (wt_jobs wt) (uncompleted sp) jobs_of (copy_launch_memory_to_stage ?mt m d :: unit exec)"
      by (rule uncompleted.evolving_keeps) (rule keeps_launch_copy)
    show "?acc t" if "copy_launch_memory_to_stage ?mt m d s = (t, Inl e)" for e
      using early [OF _ that evol] pre by blast
    assume run: "copy_launch_memory_to_stage ?mt m d s = (t, Inr u)"
    have "d \<parallel> [h]" using names by (auto simp: d_def)
    moreover from pre have "entries_at (dk_root (ww_view s)) m = Some es" "dir_is fs (memory_at d s)" by auto
    note launch_copies_back [OF run this(1) assms(5) this(2)]
    ultimately have "dir_is (markdown es) (memory_at d t)" "memory_at [h] t = memory_at [h] s" by auto
    with pending_evolves [OF evolvingD [OF evol run], of k] pre show "?P1 t" by simp
  qed
  have prepare: "triple ?P1 (on_memory (prepare_publication ?mt stage (fst k) (Some k)) :: _ exec) ?P2 (\<lambda>_. ?acc)"
  proof (rule tripleI')
    fix s t :: worker and p
    assume pre: "?P1 s"
    have evol: "evolving (wt_jobs wt) (uncompleted sp) jobs_of (on_memory (prepare_publication ?mt stage (fst k) (Some k)) :: _ exec)"
      by (intro uncompleted.evolving_quiet keepsI)
    show "?acc t" if "on_memory (prepare_publication ?mt stage (fst k) (Some k)) s = (t, Inl e)" for e
      using early [OF _ that evol] pre by blast
    assume run: "on_memory (prepare_publication ?mt stage (fst k) (Some k)) s = (t, Inr p)"
    then obtain u where u: "prepare_publication ?mt stage (fst k) (Some k) (ww_memory s) = (u, Inr p)" "t = s\<lparr>ww_memory := u\<rparr>"
      by (auto simp: on_memory_Inr)
    note found = prepare_finds [OF u(1), folded h_def d_def]
    from pre have wf: "wf_dir (memory_at [h] s)" "wf_dir (memory_at d s)" "memory_at [h] s \<noteq> None" by (auto intro: dir_is_wf)
    from found [OF wf] pre u(2) have "wf_transaction (job_transaction p)" "pp_memory_hash p = h"
      "dir_is (pp_old_files p) (memory_at [h] t)" "dir_is (pp_new_files p) (memory_at d s)" by auto
    with pre pending_evolves [OF evolvingD [OF evol run], of k] show "?P2 p t" by (auto intro: dir_is_same_files)
  qed
  have apply_it: "triple (?P2 p) (on_memory (apply_publication ?mt None False (Some (wt_retain wt)) True p) :: _ exec) (\<lambda>_. ?P3) (\<lambda>_. ?acc)" for p
  proof (rule tripleI')
    fix s t :: worker and a
    assume pre: "?P2 p s"
    have evol: "evolving (wt_jobs wt) (uncompleted sp) jobs_of (on_memory (apply_publication ?mt None False (Some (wt_retain wt)) True p) :: _ exec)"
      by (intro uncompleted.evolving_memory uncompleted.evolving_apply assms(3))
    show "?acc t" if "on_memory (apply_publication ?mt None False (Some (wt_retain wt)) True p) s = (t, Inl e)" for e
      using early [OF _ that evol] pre by blast
    assume run: "on_memory (apply_publication ?mt None False (Some (wt_retain wt)) True p) s = (t, Inr a)"
    then obtain u where u: "apply_publication ?mt None False (Some (wt_retain wt)) True p (ww_memory s) = (u, Inr a)" "t = s\<lparr>ww_memory := u\<rparr>"
      by (auto simp: on_memory_Inr)
    from tripleD(1) [OF apply_triple _ u(1)] pre have "dir_is (pp_new_files p) (spot [h] u)" by auto
    with pre u(2) show "?P3 t" by simp
  qed
  have final: "triple ?P3 (on_memory (finalize_publication ?mt a) :: _ exec) (\<lambda>_. ?P3) (\<lambda>_. ?acc)" for a
    unfolding finalize_publication_def Let_def
    by (rule triple_kept_files [where W = W]) (use names assms(6) in \<open>auto intro!: keeps_memory_at keepsI\<close>)
  have success: "triple ?P3 (record_success wt k x f) (\<lambda>_. ?acc) (\<lambda>_. ?acc)" for x
    by (rule triple_post, rule triple_kept_files [where W = W]) (use assms(6) in \<open>auto intro: keepsI simp: accounted_def\<close>)
  show ?thesis
    unfolding publish_run_def Let_def d_def [symmetric]
  proof (rule triple_catch)
    show "triple (\<lambda>s. pending wt k sp s \<and> entries_at (dk_root (ww_view s)) m = Some es \<and> dir_is fs (memory_at d s) \<and>
        wf_dir (memory_at [h] s) \<and> memory_at [h] s \<noteq> None)
      (bindS (copy_launch_memory_to_stage ?mt m d) (\<lambda>_.
       bindS (on_memory (prepare_publication ?mt stage (fst k) (Some k))) (\<lambda>p.
       bindS (on_memory (apply_publication ?mt None False (Some (wt_retain wt)) True p)) (\<lambda>applied.
       bindS (on_memory (finalize_publication ?mt applied)) (\<lambda>_.
       record_success wt k (completed_summary (fa_changes f) @ n) f))))) (\<lambda>_. ?acc) (\<lambda>_. ?acc)"
      by (rule copy [THEN triple_bind], rule prepare [THEN triple_bind], rule apply_it [THEN triple_bind],
          rule final [THEN triple_bind], rule success)
  qed (simp_all add: handler_accounts [OF assms(3)])
qed

text \<open>Without the directory nothing is published.\<close>

lemma copy_needs_directory:
  assumes "entries_at (dk_root (ww_view s)) m = None"
  shows "copy_launch_memory_to_stage mt m d s \<noteq> (t, Inr u)"
proof
  assume "copy_launch_memory_to_stage mt m d s = (t, Inr u)"
  then obtain v w es where v: "on_memory (make_dirs (mt_hazard mt) [] d) s = (v, Inr ())"
    and w: "on_view (lookD (entries_of m)) v = (w, Inr es)"
    unfolding copy_launch_memory_to_stage_def by (auto simp: bindS_Inr)
  from v have "ww_view v = ww_view s" by (auto simp: on_memory_Inr)
  with w assms show False by (auto simp: on_view_Inr lookD_Inr entries_of_def)
qed

lemma publish_needs_directory:
  assumes "faithful_files (wt_jobs wt)"
  shows "triple (\<lambda>s. pending wt k sp s \<and> entries_at (dk_root (ww_view s)) m = None) (publish_run wt k m stage old f n)
    (\<lambda>_. accounted wt k sp q W) (\<lambda>_. accounted wt k sp q W)"
  unfolding publish_run_def Let_def
proof (rule triple_catch [OF triple_bind [where R = "\<lambda>_ _. False"] _ handler_accounts [OF assms]])
  have "evolving (wt_jobs wt) (uncompleted sp) jobs_of (copy_launch_memory_to_stage mt m d :: unit exec)" for mt d
    by (rule uncompleted.evolving_keeps) (rule keeps_launch_copy)
  from early [OF _ _ this] show "triple (\<lambda>s. pending wt k sp s \<and> entries_at (dk_root (ww_view s)) m = None)
     (copy_launch_memory_to_stage (wt_memory wt) m (stages (rm_memory_hash (mg_resolved stage)) @ [mg_job_id stage]) :: unit exec)
     (\<lambda>_ _. False) (\<lambda>_. accounted wt k sp q W)"
    by (intro tripleI') (use copy_needs_directory in blast)+
qed (simp_all add: triple_def)

section \<open>Reporting\<close>

lemma triple_with:
  assumes "evolving (wt_jobs wt) (uncompleted sp) jobs_of m" "keeps v m"
  shows "triple (\<lambda>s. pending wt k sp s \<and> R (v s)) m (\<lambda>_ s. pending wt k sp s \<and> R (v s)) (\<lambda>_. accounted wt k sp q W)"
  by (rule tripleI') (auto dest: keepsD [OF assms(2)] intro: early [OF _ _ assms(1)] pending_evolves [OF evolvingD [OF assms(1)]])

text \<open>The parts of the world a publication rests on.\<close>

definition bench :: "path \<Rightarrow> string \<Rightarrow> worker \<Rightarrow> disk \<times> node option \<times> node option" where
  "bench d h s = (ww_view s, memory_at d s, memory_at [h] s)"

definition ready :: "(disk \<Rightarrow> bool) \<Rightarrow> disk \<times> node option \<times> node option \<Rightarrow> bool" where
  "ready V x \<longleftrightarrow> (case x of (view, stage, mem) \<Rightarrow> V view \<and> (\<exists>fs. dir_is fs stage) \<and> wf_dir mem \<and> mem \<noteq> None)"

lemma keeps_bench_parts [keepsI]:
  "keeps (bench d h) (on_logs m)" "keeps (bench d h) (on_runs n)" "keeps (bench d h) (on_job wt n')"
  "keeps (bench d h) (own_job wt k)"
  unfolding own_job_def
  by (rule keepsI'; auto simp: bench_def on_logs_def on_runs_def on_job_def on_memory_def jobM_def spot_def
      split: prod.splits hazard.splits)+

lemma report_accounts:
  fixes stage :: memory_stage
  defines "h \<equiv> rm_memory_hash (mg_resolved stage)" and "d \<equiv> stages (rm_memory_hash (mg_resolved stage)) @ [mg_job_id stage]"
  assumes "faithful_files (wt_jobs wt)" "full_digest h"
    and V: "\<And>view es. V view \<Longrightarrow> entries_at (dk_root view) m = Some es \<Longrightarrow> rz_exit_code z = 0 \<Longrightarrow> wf_dict es \<and> W (markdown es)"
  shows "triple (\<lambda>s. pending wt k sp s \<and> ready V (bench d h s)) (report_run wt k spec m stage old z message)
    (\<lambda>_. accounted wt k sp [h] W) (\<lambda>_. accounted wt k sp [h] W)"
proof -
  let ?P = "\<lambda>s. pending wt k sp s \<and> ready V (bench d h s)" and ?acc = "accounted wt k sp [h] W"
  have out: "triple ?P (write_log wt n x) (\<lambda>_. ?P) (\<lambda>_. ?acc)" for n x
    unfolding write_log_def by (rule triple_with [where v = "bench d h" and R = "ready V"]) (intro uncompleted.evolving_view keepsI)+
  have noted: "triple ?P (if b then returnS () else bindS (on_job wt (merge_result_metadata (wt_jobs wt) k
      [(''write_attempts'', JList ws)])) (\<lambda>_. returnS ())) (\<lambda>_. ?P) (\<lambda>_. ?acc)" for b ws
  proof (rule triple_with [where v = "bench d h" and R = "ready V"])
    show "evolving (wt_jobs wt) (uncompleted sp) jobs_of (if b then returnS () else bindS (on_job wt (merge_result_metadata (wt_jobs wt) k
      [(''write_attempts'', JList ws)])) (\<lambda>_. returnS ()))"
      by (intro uncompleted.evolving_if uncompleted.evolving_bind uncompleted.evolving_read uncompleted.evolving_on_job
          uncompleted.evolving_merge assms(3)) simp
  qed (intro keepsI)
  have err: "triple ?P (if b then returnS () else write_log wt n x) (\<lambda>_. ?P) (\<lambda>_. ?acc)" for b n x
    using out by (auto simp: triple_def accounted_def)
  have fails: "triple ?P m' (\<lambda>_. ?acc) (\<lambda>_. ?acc)" if "evolving (wt_jobs wt) (uncompleted sp) jobs_of m'" for m' :: "job_record exec"
    by (rule tripleI') (use early [OF _ _ that] in blast)+
  have publish: "triple ?P (publish_run wt k m stage old f n) (\<lambda>_. ?acc) (\<lambda>_. ?acc)" if "rz_exit_code z = 0" for f n
  proof (rule tripleI')
    fix s t :: worker and r
    assume P: "?P s"
    then obtain fs where fs: "dir_is fs (memory_at d s)" "wf_dir (memory_at [h] s)" "memory_at [h] s \<noteq> None" "V (ww_view s)"
      by (auto simp: ready_def bench_def)
    have "?acc t" if run: "publish_run wt k m stage old f n s = (t, x)" for x
    proof (cases "entries_at (dk_root (ww_view s)) m")
      case None
      with P have "pending wt k sp s \<and> entries_at (dk_root (ww_view s)) m = None" by simp
      note both = tripleD [OF publish_needs_directory [OF assms(3)] this]
      show ?thesis
      proof (cases x)
        case (Inl e)
        from both(2) [OF run [unfolded this]] show ?thesis .
      next
        case (Inr r)
        from both(1) [OF run [unfolded this]] show ?thesis .
      qed
    next
      case (Some es)
      from V [OF fs(4) Some \<open>rz_exit_code z = 0\<close>] have es: "wf_dict es" "W (markdown es)" by auto
      note tr = publish_accounts [where W = W, OF assms(3) assms(4) [unfolded h_def] es, folded h_def d_def]
      from P fs Some have "pending wt k sp s \<and> entries_at (dk_root (ww_view s)) m = Some es \<and> dir_is fs (memory_at d s) \<and>
          wf_dir (memory_at [h] s) \<and> memory_at [h] s \<noteq> None" by simp
      note both = tripleD [OF tr this]
      show ?thesis
      proof (cases x)
        case (Inl e)
        from both(2) [OF run [unfolded this]] show ?thesis .
      next
        case (Inr r)
        from both(1) [OF run [unfolded this]] show ?thesis .
      qed
    qed
    then show "publish_run wt k m stage old f n s = (t, Inr r) \<Longrightarrow> ?acc t"
      "\<And>e. publish_run wt k m stage old f n s = (t, Inl e) \<Longrightarrow> ?acc t" by blast+
  qed
  have outcome: "triple ?P (case message of Some x \<Rightarrow> terminalize_failure wt k (x @ n) f
        | None \<Rightarrow> if rz_exit_code z \<noteq> 0 then bindS (failed_memory_artifacts wt k d old) (\<lambda>arts.
              terminalize_failure wt k (exit_summary wt spec (rz_exit_code z) @ n) (with_artifacts f arts))
            else publish_run wt k m stage old f n) (\<lambda>_. ?acc) (\<lambda>_. ?acc)" for f n
  proof (cases message)
    case None
    show ?thesis unfolding None option.case
      by (intro triple_if publish fails uncompleted.evolving_bind uncompleted.evolving_artifacts uncompleted.evolving_terminalize assms(3))
        simp_all
  next
    case (Some x)
    show ?thesis unfolding Some option.case by (intro fails uncompleted.evolving_terminalize assms(3))
  qed
  have facts: "triple ?P (readS (\<lambda>s. Inr (facts_of wt spec z s))) (\<lambda>_. ?P) (\<lambda>_. ?acc)"
    by (rule triple_read) simp
  show ?thesis
    unfolding report_run_def Let_def d_def [symmetric]
    by (rule out [THEN triple_bind], rule err [THEN triple_bind], rule noted [THEN triple_bind], rule facts [THEN triple_bind], rule outcome)
qed

section \<open>The agent\<close>

text \<open>What the memory directory of a view holds when an agent has ended with a result.\<close>

definition left_behind :: "worker_tools \<Rightarrow> job_spec \<Rightarrow> agent_result \<Rightarrow> path \<Rightarrow> disk \<Rightarrow> bool" where
  "left_behind wt spec z m view \<longleftrightarrow> (\<exists>g q w w'. wt_runtime wt spec = Inr g \<and> ir_spec q = spec \<and> ir_memory_dir q = m \<and>
     gt_run g q w = (w', Inr z) \<and> ww_view w' = view)"

text \<open>An agent leaves the memory store alone, a directory has no name twice, and those who had the memory before
  leave it as a directory.\<close>

definition tidy :: "worker_tools \<Rightarrow> bool" where
  "tidy wt \<longleftrightarrow>
     (\<forall>spec g q w w' z. wt_runtime wt spec = Inr g \<longrightarrow> gt_run g q w = (w', Inr z) \<longrightarrow>
       dk_root (ww_memory w') = dk_root (ww_memory w) \<and> wf_dir (look (dk_root (ww_view w')) (ir_memory_dir q))) \<and>
     (\<forall>f\<in>set (wt_waits wt). \<forall>h w. wf_dir (memory_at [h] w) \<longrightarrow> wf_dir (memory_at [h] (f w)))"

definition staging :: "path \<Rightarrow> string \<Rightarrow> worker \<Rightarrow> node option \<times> node option" where
  "staging d h s = (memory_at d s, memory_at [h] s)"

definition laid_out :: "node option \<times> node option \<Rightarrow> bool" where
  "laid_out x \<longleftrightarrow> (\<exists>fs. dir_is fs (fst x)) \<and> wf_dir (snd x) \<and> snd x \<noteq> None"

lemma ready_staging: "ready V (bench d h s) \<longleftrightarrow> V (ww_view s) \<and> laid_out (staging d h s)"
  by (simp add: ready_def bench_def staging_def laid_out_def)

lemma tryE_Inr: "tryE m s = (t, Inr x) \<longleftrightarrow> m s = (t, case x of Inl e \<Rightarrow> Inl (Failure e) | Inr y \<Rightarrow> Inr y)"
  by (auto simp: tryE_def split: prod.splits sum.splits failure.splits)

lemma keeps_staging [keepsI]:
  "keeps (memory_at q) m \<Longrightarrow> keeps (memory_at q') m \<Longrightarrow> keeps (\<lambda>s. (memory_at q s, memory_at q' s)) m"
  by (rule keepsI') (auto dest: keepsD)

lemma keeps_set: "(\<And>s. v (f s) = v s) \<Longrightarrow> keeps v (putS f)"
  by (rule keepsI') (auto simp: putS_def)

lemma lift_Inr: "bindS (tryliftS x) f s = (t, Inr y) \<longleftrightarrow> (\<exists>z. x = Inr z \<and> f z s = (t, Inr y))"
  by (cases x) auto

lemma with_broker_Inr:
  assumes "with_broker wt a k r g q grant s = (t, Inr (Inr z, message))"
  obtains p v ended where "prepare_prompt wt r s = (p, Inr ())"
    "run_agent g (q\<lparr>ir_ticket_tools := Some grant\<rparr>) p = (v, Inr (Inr z))"
    "finalize_ticket_runtime wt a k r (gr_session_id grant) ended v = (t, Inr message)"
proof -
  let ?m = "bindS (prepare_prompt wt r) (\<lambda>_. run_agent g (q\<lparr>ir_ticket_tools := Some grant\<rparr>))"
  from assms obtain v x where v: "tryE ?m s = (v, Inr x)"
    and rest: "bindS (finalize_ticket_runtime wt a k r (gr_session_id grant) (case x of Inr (Inr z) \<Rightarrow> rz_stop z | _ \<Rightarrow> None))
      (\<lambda>m. case x of Inl e \<Rightarrow> failS e | Inr z \<Rightarrow> returnS (z, m)) v = (t, Inr (Inr z, message))"
    unfolding with_broker_def bindS_Inr [of "tryE ?m"] by blast
  from rest obtain e where t: "finalize_ticket_runtime wt a k r (gr_session_id grant) e v = (t, Inr message)" and "x = Inr (Inr z)"
    by (cases x) (auto simp: bindS_Inr)
  with v t that show thesis by (auto simp: tryE_Inr bindS_Inr)
qed

lemma agent_leaves:
  assumes "run_agent g q s = (t, Inr (Inr z))" "wt_runtime wt (ir_spec q) = Inr g" "tidy wt" "laid_out (staging d h s)"
  shows "left_behind wt (ir_spec q) z (ir_memory_dir q) (ww_view t) \<and> laid_out (staging d h t)"
proof -
  from assms(1) obtain w' where w': "gt_run g q (worker_world.truncate (s\<lparr>wk_invoked := True\<rparr>)) = (w', Inr z)"
    "ww_view t = ww_view w'" "ww_memory t = ww_memory w'"
    by (auto simp: run_agent_def bindS_def putS_def by_agent_def tryE_Inr worker_world.defs split: prod.splits)
  moreover from this(1) assms(2,3) have "dk_root (ww_memory w') = dk_root (ww_memory s)"
    unfolding tidy_def by (fastforce simp: worker_world.defs)
  ultimately show ?thesis using assms(2,4) by (auto simp: left_behind_def staging_def spot_def)
qed

lemma tickets_leave:
  assumes "run_with_tickets wt a k r g q s = (t, Inr (z, message))" "wt_runtime wt (ir_spec q) = Inr g" "tidy wt"
    and "laid_out (staging d h s)"
  shows "ready (left_behind wt (ir_spec q) z (ir_memory_dir q)) (bench d h t)"
proof -
  have steps: "keeps (staging d h) (start_broker wt a)" "keeps (staging d h) (prepare_prompt wt r)"
    "keeps (bench d h) (finalize_ticket_runtime wt a k r i e)" for i e
    unfolding staging_def start_broker_def prepare_prompt_def write_log_def finalize_ticket_runtime_def close_broker_def Let_def
    by (intro keepsI)+
  show ?thesis
  proof (cases "ticket_runtime wt (jr_spec r)")
    case (Inl e)
    with assms(1) show ?thesis by (simp add: run_with_tickets_def)
  next
    case (Inr live)
    show ?thesis
    proof (cases live)
      case False
      with assms(1) Inr have "run_agent g q s = (t, Inr (Inr z))"
        by (auto simp: run_with_tickets_def lift_Inr bindS_Inr [of "bindS x y" for x y] bindS_Inr [of "run_agent g q"])
          (auto simp: mapErr_def split: sum.splits)
      with agent_leaves [OF this assms(2-4)] show ?thesis by (simp add: ready_staging)
    next
      case True
      with assms(1) Inr obtain grant u where u: "start_broker wt a s = (u, Inr grant)"
        and t: "with_broker wt a k r g q grant u = (t, Inr (Inr z, message))"
        by (auto simp: run_with_tickets_def lift_Inr bindS_Inr [of "bindS x y" for x y] bindS_Inr [of "start_broker wt a"])
          (auto simp: mapErr_def split: sum.splits)
      from t obtain p v ended where p: "prepare_prompt wt r u = (p, Inr ())"
        "run_agent g (q\<lparr>ir_ticket_tools := Some grant\<rparr>) p = (v, Inr (Inr z))"
        and t: "finalize_ticket_runtime wt a k r (gr_session_id grant) ended v = (t, Inr message)"
        by (rule with_broker_Inr)
      have "staging d h p = staging d h s" using keepsD [OF steps(1) u] keepsD [OF steps(2) p(1)] by simp
      with agent_leaves [OF p(2), of wt d h] assms(2-4)
      have "ready (left_behind wt (ir_spec q) z (ir_memory_dir q)) (bench d h v)" by (simp add: ready_staging)
      then show ?thesis using keepsD [OF steps(3) t] by simp
    qed
  qed
qed

section \<open>The run\<close>

text \<open>What an agent that ended well has left, of a job with this specification.\<close>

definition outcome_of :: "worker_tools \<Rightarrow> job_spec \<Rightarrow> files \<Rightarrow> bool" where
  "outcome_of wt spec fs \<longleftrightarrow> (\<exists>g q w w' z es. wt_runtime wt spec = Inr g \<and> ir_spec q = spec \<and>
     gt_run g q w = (w', Inr z) \<and> rz_exit_code z = 0 \<and>
     entries_at (dk_root (ww_view w')) (ir_memory_dir q) = Some es \<and> fs = markdown es)"

lemma left_outcome:
  assumes "left_behind wt spec z m view" "entries_at (dk_root view) m = Some es" "rz_exit_code z = 0" "tidy wt"
  shows "wf_dict es \<and> outcome_of wt spec (markdown es)"
proof -
  from assms(1) obtain g q w w' where run: "wt_runtime wt spec = Inr g" "ir_spec q = spec" "ir_memory_dir q = m"
    "gt_run g q w = (w', Inr z)" "ww_view w' = view" by (auto simp: left_behind_def)
  with assms(4) have "wf_dir (look (dk_root view) m)" unfolding tidy_def by blast
  with assms(2) have "wf_dict es" by (auto simp: wf_dir_def entries_at_def split: option.splits node.splits)
  moreover from run assms(2,3) have "outcome_of wt spec (markdown es)" unfolding outcome_of_def by blast
  ultimately show ?thesis by simp
qed

lemma locked_accounts:
  assumes "faithful_files (wt_jobs wt)" "others_keep wt (uncompleted sp)" "tidy wt" "wt_runtime wt spec = Inr g"
    and "full_digest (rm_memory_hash memory)"
  defines "h \<equiv> rm_memory_hash memory"
  shows "triple (\<lambda>s. pending wt k sp s \<and> wf_dir (memory_at [h] s)) (run_locked wt a k spec g artifact memory)
    (\<lambda>_. accounted wt k sp [h] (outcome_of wt spec)) (\<lambda>_. accounted wt k sp [h] (outcome_of wt spec))"
proof -
  let ?mt = "wt_memory wt" and ?W = "outcome_of wt spec" and ?acc = "accounted wt k sp [h] (outcome_of wt spec)"
  let ?wf = "\<lambda>s. pending wt k sp s \<and> wf_dir (memory_at [h] s)"
  let ?d = "\<lambda>stage. stages (rm_memory_hash (mg_resolved stage)) @ [mg_job_id stage]"
  let ?staged = "\<lambda>stage s. rm_memory_hash (mg_resolved stage) = h \<and> pending wt k sp s \<and> laid_out (staging (?d stage) h s)"
  have cancelled: "triple ?wf (is_cancelled wt a) (\<lambda>_. ?wf) (\<lambda>_. ?acc)"
    unfolding is_cancelled_def authority_job_def
    by (rule triple_with [where v = "memory_at [h]" and R = wf_dir]) (intro uncompleted.evolving_bind uncompleted.evolving_read keepsI)+
  have marks: "triple ?wf (mark_cancelled_if_waiting wt k) (\<lambda>_. ?acc) (\<lambda>_. ?acc)"
    by (rule tripleI') (blast intro: early uncompleted.evolving_own)+
  have ensures: "triple ?wf (on_memory (ensure_memory_locked ?mt memory) :: _ exec) (\<lambda>_. ?wf) (\<lambda>_. ?acc)"
  proof (rule tripleI')
    fix s t :: worker
    have evol: "evolving (wt_jobs wt) (uncompleted sp) jobs_of (on_memory (ensure_memory_locked ?mt memory) :: _ exec)"
      by (intro uncompleted.evolving_quiet keepsI)
    show "?wf s \<Longrightarrow> on_memory (ensure_memory_locked ?mt memory) s = (t, Inl e) \<Longrightarrow> ?acc t" for e
      using early [OF _ _ evol] by blast
    fix x assume run: "on_memory (ensure_memory_locked ?mt memory) s = (t, Inr x)" and pre: "?wf s"
    from run obtain u where "ensure_memory_locked ?mt memory (ww_memory s) = (u, Inr x)" "ww_memory t = u" by (auto simp: on_memory_Inr)
    with ensured(1) [OF this(1)] pre have "wf_dir (memory_at [h] t)" by (auto simp: h_def intro: dir_is_wf)
    with pending_evolves [OF evolvingD [OF evol run]] pre show "?wf t" by blast
  qed
  have stages: "triple ?wf (on_memory (stage_memory_locked ?mt memory (sp_job_id spec)) :: _ exec) ?staged (\<lambda>_. ?acc)"
  proof (rule tripleI')
    fix s t :: worker
    have evol: "evolving (wt_jobs wt) (uncompleted sp) jobs_of (on_memory (stage_memory_locked ?mt memory (sp_job_id spec)) :: _ exec)"
      by (intro uncompleted.evolving_quiet keepsI)
    show "?wf s \<Longrightarrow> on_memory (stage_memory_locked ?mt memory (sp_job_id spec)) s = (t, Inl e) \<Longrightarrow> ?acc t" for e
      using early [OF _ _ evol] by blast
    fix x assume run: "on_memory (stage_memory_locked ?mt memory (sp_job_id spec)) s = (t, Inr x)" and pre: "?wf s"
    from run obtain u where u: "stage_memory_locked ?mt memory (sp_job_id spec) (ww_memory s) = (u, Inr x)" "ww_memory t = u"
      by (auto simp: on_memory_Inr)
    from staged [OF u(1)] pre assms(5) u(2) have "rm_memory_hash (mg_resolved x) = h" "laid_out (staging (?d x) h t)"
      by (auto simp: h_def laid_out_def staging_def)
    with pending_evolves [OF evolvingD [OF evol run]] pre show "?staged x t" by blast
  qed
  have rest: "triple (\<lambda>s. pending wt k sp s \<and> laid_out (staging (?d stage) h s))
     (bindS (prepare_launch wt spec g artifact fs) (\<lambda>m.
      bindS (begin_run wt k) (\<lambda>r.
      bindS (on_logs (make_dirs (wt_log_hazard wt) [] (log_directory wt))) (\<lambda>_.
      bindS (write_log wt (prompt_name (jr_spec r)) (sp_task_input (jr_spec r))) (\<lambda>_.
      bindS (run_with_tickets wt a k r g \<lparr>ir_spec = spec, ir_task_file = wt_log_path wt (prompt_name (jr_spec r)),
          ir_launch_dir = [launch_name], ir_memory_dir = m, ir_ticket_tools = None\<rparr>)
        (\<lambda>(z, message). report_run wt k spec m stage fs z message)))))) (\<lambda>_. ?acc) (\<lambda>_. ?acc)"
    (is "triple ?P _ _ _") if h: "rm_memory_hash (mg_resolved stage) = h" for stage fs
  proof -
    have launch: "triple ?P (prepare_launch wt spec g artifact fs) (\<lambda>_. ?P) (\<lambda>_. ?acc)"
      by (rule triple_with [where v = "staging (?d stage) h" and R = laid_out], rule uncompleted.evolving_launch)
        (unfold staging_def prepare_launch_def, intro keepsI)
    have begins: "triple ?P (begin_run wt k) (\<lambda>_. ?P) (\<lambda>_. ?acc)"
      by (rule triple_with [where v = "staging (?d stage) h" and R = laid_out], rule uncompleted.evolving_begin [OF assms(1)])
        (unfold staging_def begin_run_def, intro keepsI keeps_set, simp_all)
    have logs: "triple ?P (on_logs m') (\<lambda>_. ?P) (\<lambda>_. ?acc)" for m' :: "(disk, failure, unit) op"
      by (rule triple_with [where v = "staging (?d stage) h" and R = laid_out], rule uncompleted.evolving_view)
        (unfold staging_def, intro keepsI)
    have runs: "triple ?P (run_with_tickets wt a k r g q) (\<lambda>x s. pending wt k sp s \<and>
        ready (left_behind wt spec (fst x) (ir_memory_dir q)) (bench (?d stage) h s)) (\<lambda>_. ?acc)" if q: "ir_spec q = spec" for r q
    proof (rule tripleI')
      fix s t :: worker
      note evol = uncompleted.evolving_tickets [OF assms(1,2,4), of a k r q]
      show "?P s \<Longrightarrow> run_with_tickets wt a k r g q s = (t, Inl e) \<Longrightarrow> ?acc t" for e
        using early [OF _ _ evol] by blast
      fix x assume "?P s" and run: "run_with_tickets wt a k r g q s = (t, Inr x)"
      then show "pending wt k sp t \<and> ready (left_behind wt spec (fst x) (ir_memory_dir q)) (bench (?d stage) h t)"
        using pending_evolves [OF evolvingD [OF evol run]] tickets_leave [of wt a k r g q s t] assms(3,4) q by (cases x) auto
    qed
    have reports: "triple (\<lambda>s. pending wt k sp s \<and> ready (left_behind wt spec z m) (bench (?d stage) h s))
        (report_run wt k spec m stage fs z message) (\<lambda>_. ?acc) (\<lambda>_. ?acc)" for z m message
      using report_accounts [OF assms(1), of stage "left_behind wt spec z m" m z ?W] left_outcome [OF _ _ _ assms(3)] assms(5) h
      by (auto simp: h_def)
    show ?thesis
      unfolding write_log_def
      by (rule launch [THEN triple_bind], rule begins [THEN triple_bind], rule logs [THEN triple_bind], rule logs [THEN triple_bind],
          rule triple_bind [OF runs]) (auto simp del: append.simps intro: reports split: prod.split)
  qed
  show ?thesis
    unfolding run_locked_def
    by (rule cancelled [THEN triple_bind], rule triple_if, rule marks, rule ensures [THEN triple_bind], rule stages [THEN triple_bind],
        rule triple_pure, rule rest)
qed

lemma wait_accounts:
  assumes "others_keep wt (uncompleted sp)" "tidy wt" "set ws \<subseteq> set (wt_waits wt)"
  shows "triple (\<lambda>s. pending wt k sp s \<and> wf_dir (memory_at [h] s)) (wait_for_lock wt a ws)
    (\<lambda>_ s. pending wt k sp s \<and> wf_dir (memory_at [h] s)) (\<lambda>_. accounted wt k sp q W)"
proof -
  have evol: "evolving (wt_jobs wt) (uncompleted sp) jobs_of (wait_for_lock wt a ws)"
    by (rule uncompleted.evolving_wait [OF assms(1,3)])
  have "keeps (memory_at [h]) (is_cancelled wt a)" unfolding is_cancelled_def authority_job_def by (intro keepsI)
  then have asks: "triple (\<lambda>s. wf_dir (memory_at [h] s)) (is_cancelled wt a) (\<lambda>_ s. wf_dir (memory_at [h] s)) (\<lambda>_ _. True)"
    by (intro tripleI') (auto dest: keepsD)
  have wf: "triple (\<lambda>s. wf_dir (memory_at [h] s)) (wait_for_lock wt a ws) (\<lambda>_ s. wf_dir (memory_at [h] s)) (\<lambda>_ _. True)"
    using assms(3)
  proof (induction ws)
    case Nil
    show ?case unfolding wait_for_lock.simps by (rule asks [THEN triple_bind], rule triple_if) (simp_all add: triple_def)
  next
    case (Cons f ws)
    have "triple (\<lambda>s. wf_dir (memory_at [h] s)) (by_agent (\<lambda>s. (f s, Inr ()))) (\<lambda>_ s. wf_dir (memory_at [h] s)) (\<lambda>_ _. True)"
    proof (rule tripleI')
      fix s t :: worker and x
      assume "wf_dir (memory_at [h] s)" and run: "by_agent (\<lambda>s. (f s, Inr ())) s = (t, Inr x)"
      then have "wf_dir (memory_at [h] (worker_world.truncate s))" by (simp add: worker_world.defs)
      with Cons.prems assms(2) have "wf_dir (memory_at [h] (f (worker_world.truncate s)))" by (auto simp: tidy_def)
      with run show "wf_dir (memory_at [h] t)" by (auto simp: by_agent_def worker_world.defs)
    qed simp
    note step = this
    from Cons.prems have "set ws \<subseteq> set (wt_waits wt)" by simp
    note rest = Cons.IH [OF this]
    have raise: "triple (\<lambda>s. wf_dir (memory_at [h] s)) (failS lockCancelled) (\<lambda>_ s. wf_dir (memory_at [h] s)) (\<lambda>_ _. True)"
      by (simp add: triple_def)
    show ?case unfolding wait_for_lock.simps
      by (rule asks [THEN triple_bind], rule triple_if, rule raise, rule asks [THEN triple_bind], rule triple_if, rule raise,
          rule step [THEN triple_bind], rule rest)
  qed
  show ?thesis
  proof (rule tripleI')
    show "pending wt k sp s \<and> wf_dir (memory_at [h] s) \<Longrightarrow> wait_for_lock wt a ws s = (t, Inl e) \<Longrightarrow> accounted wt k sp q W t" for s t e
      using early [OF _ _ evol] by blast
    show "pending wt k sp s \<and> wf_dir (memory_at [h] s) \<Longrightarrow> wait_for_lock wt a ws s = (t, Inr x) \<Longrightarrow>
        pending wt k sp t \<and> wf_dir (memory_at [h] t)" for s t x
      using tripleD(1) [OF wf] pending_evolves [OF evolvingD [OF evol]] by blast
  qed
qed

lemma attempt_accounts:
  assumes "faithful_files (wt_jobs wt)" "others_keep wt (uncompleted sp)" "tidy wt" "resolved_memory_of wt spec = Inr memory"
  defines "h \<equiv> rm_memory_hash memory"
  shows "triple (\<lambda>s. pending wt k sp s \<and> wf_dir (memory_at [h] s)) (attempt_run wt a k spec)
    (\<lambda>_. accounted wt k sp [h] (outcome_of wt spec)) (\<lambda>_. accounted wt k sp [h] (outcome_of wt spec))"
proof -
  let ?acc = "accounted wt k sp [h] (outcome_of wt spec)" and ?wf = "\<lambda>s. pending wt k sp s \<and> wf_dir (memory_at [h] s)"
  have reads: "triple ?wf (authority_job wt a) (\<lambda>_. ?wf) (\<lambda>_. ?acc)"
    unfolding authority_job_def by (rule triple_read) (auto simp: accounted_def split: sum.splits)
  have lifts: "triple ?wf (tryliftS x) (\<lambda>y s. x = Inr y \<and> ?wf s) (\<lambda>_. ?acc)" for x :: "ticket_error + 'z"
    by (rule triple_read) (auto simp: accounted_def mapErr_def split: sum.splits)
  have locks: "triple ?wf (on_memory (memory_lock (wt_memory wt) False memory) :: unit exec)
      (\<lambda>_ s. full_digest (rm_memory_hash memory) \<and> ?wf s) (\<lambda>_. ?acc)"
  proof (rule tripleI')
    fix s t :: worker
    have evol: "evolving (wt_jobs wt) (uncompleted sp) jobs_of (on_memory (memory_lock (wt_memory wt) False memory) :: unit exec)"
      by (intro uncompleted.evolving_quiet keepsI)
    show "?wf s \<Longrightarrow> on_memory (memory_lock (wt_memory wt) False memory) s = (t, Inl e) \<Longrightarrow> ?acc t" for e
      using early [OF _ _ evol] by blast
    fix x assume run: "on_memory (memory_lock (wt_memory wt) False memory) s = (t, Inr x)" and wf: "?wf s"
    from run obtain u where u: "memory_lock (wt_memory wt) False memory (ww_memory s) = (u, Inr x)" "ww_memory t = u"
      by (auto simp: on_memory_Inr)
    have "full_digest (rm_memory_hash memory)" by (rule memory_lock_Inr(1) [OF u(1)])
    moreover have "memory_at [h] t = memory_at [h] s" using memory_lock_Inr(2) [OF u(1)] u(2) by (simp add: h_def)
    moreover have "pending wt k sp t" using pending_evolves [OF evolvingD [OF evol run]] wf by blast
    ultimately show "full_digest (rm_memory_hash memory) \<and> ?wf t" using wf by simp
  qed
  have marks: "triple ?acc (if e = lockCancelled then mark_cancelled_if_waiting wt k else failS e) (\<lambda>_. ?acc) (\<lambda>_. ?acc)" for e
    by (rule triple_accounted) (intro uncompleted.evolving_if uncompleted.evolving_own uncompleted.evolving_read keepsI)+
  show ?thesis
    unfolding attempt_run_def
  proof (rule reads [THEN triple_bind], rule lifts [THEN triple_bind], rule triple_pure, rule lifts [THEN triple_bind],
      rule triple_pure, rule lifts [THEN triple_bind], rule triple_pure, goal_cases)
    case (1 _ g artifact m)
    with assms(4) have m: "m = memory" by simp
    have run: "triple ?wf (run_locked wt a k spec g artifact memory) (\<lambda>_. ?acc) (\<lambda>_. ?acc)" if "full_digest (rm_memory_hash memory)"
      unfolding h_def by (rule locked_accounts [OF assms(1-3) 1(1) that])
    show ?case
      unfolding m
      by (rule triple_catch [OF _ _ marks], rule locks [THEN triple_bind], rule triple_pure,
          rule wait_accounts [OF assms(2,3) order_refl, THEN triple_bind], rule run)
  qed
qed

lemma execution_accounts:
  fixes a :: job_authority
  defines "k \<equiv> (au_team_id a, au_job_id a)"
  assumes "faithful_files (wt_jobs wt)" "others_keep wt (uncompleted (jr_spec r))" "tidy wt"
    and "execute_steps wt a s = (t, out)" "authority_job wt a s = (s, Inr r)" "current wt k s = Inr r"
    and "resolved_memory_of wt (jr_spec r) = Inr memory"
    and "pending wt k (jr_spec r) s \<and> wf_dir (memory_at [rm_memory_hash memory] s)"
  shows "accounted wt k (jr_spec r) [rm_memory_hash memory] (outcome_of wt (jr_spec r)) t"
proof -
  let ?h = "rm_memory_hash memory"
  let ?acc = "accounted wt k (jr_spec r) [?h] (outcome_of wt (jr_spec r))"
    and ?wf = "\<lambda>s. pending wt k (jr_spec r) s \<and> wf_dir (memory_at [?h] s)"
  have moves: "?wf u" if "on_job wt (transition_job (wt_jobs wt) k Queued b f) s = (u, x)" "run_fields f"
      "\<And>r. jr_result_metadata (f r) = jr_result_metadata r" "\<And>r. is_launched r \<Longrightarrow> is_launched (f r)" "b \<noteq> Complete" for b f u x
  proof -
    have "evolving (wt_jobs wt) (uncompleted (jr_spec r)) jobs_of (on_job wt (transition_job (wt_jobs wt) k Queued b f))"
      by (intro uncompleted.evolving_on_job uncompleted.evolving_transition assms(2) that(2-5))
    from pending_evolves [OF evolvingD [OF this that(1)]] keepsD [OF keeps_elsewhere(4) that(1)] assms(9) show "?wf u" by metis
  qed
  from assms(5,6) show ?thesis
  proof (cases rule: execution_cases)
    case retired
    from moves [OF retired(2) [folded k_def]] show ?thesis by (simp add: accounted_def run_fields_def is_launched_def)
  next
    case (unclaimed e)
    from moves [OF unclaimed(1) [folded k_def]] show ?thesis by (simp add: accounted_def run_fields_def is_launched_def)
  next
    case (claimed u r1)
    note claimed = claimed [folded k_def]
    from moves [OF claimed(1)] have wf: "?wf u" by (simp add: run_fields_def is_launched_def)
    have "jr_spec r1 = jr_spec r"
      using transition_job_back [OF on_job_Inr [OF claimed(1)]] assms(7) by (auto simp: current_def)
    with claimed(2) have run: "catchS (attempt_run wt a k (jr_spec r)) (record_error wt k) u = (t, out)" by simp
    have errors: "triple ?acc (record_error wt k e) (\<lambda>_. ?acc) (\<lambda>_. ?acc)" for e
      by (rule triple_accounted [OF uncompleted.evolving_error [OF assms(2)] keeps_records(6)]) (simp add: uncompleted_def kept_merge)
    have tr: "triple ?wf (catchS (attempt_run wt a k (jr_spec r)) (record_error wt k)) (\<lambda>_. ?acc) (\<lambda>_. ?acc)"
      by (rule triple_catch [OF attempt_accounts [OF assms(2-4,8)] _ errors])
    show ?thesis using tripleD [OF tr wf] run by (cases out) auto
  qed
qed

text \<open>C18: A job is complete only when its memory holds what its agent left. If the job's file says complete after a
  worker has ended, by returning, by an exception or because it was killed at any call, then the agent was run
  and ended with exit code 0, and the memory of the job holds exactly the Markdown files that stood in the memory
  directory of the agent's view when it ended. Nothing else completes a job, and a publication that fails or is cut
  short does not. The agent leaves the store of the memories alone, and neither it nor others complete the job.\<close>

theorem complete_only_if_published:
  assumes "faithful_files (wt_jobs wt)" "others_keep wt (uncompleted (jr_spec r))" "tidy wt"
    and "read_authority (wt_jobs wt) (au_root a) (ma_jobs (ww_memory w)) a = Inr r" "jr_status r = Queued"
    and "resolved_memory_of wt (jr_spec r) = Inr memory" "wf_dir (spot [rm_memory_hash memory] (ww_memory w))"
    and "execute_job wt a w = (t, out)"
    and "read_job (wt_jobs wt) (ma_jobs (ww_memory t)) (au_team_id a, au_job_id a) None = Inr r'" "jr_status r' = Complete"
  shows "\<exists>g q v v' z es. wt_runtime wt (jr_spec r) = Inr g \<and> ir_spec q = jr_spec r \<and> gt_run g q v = (v', Inr z) \<and>
    rz_exit_code z = 0 \<and> entries_at (dk_root (ww_view v')) (ir_memory_dir q) = Some es \<and>
    dir_is (markdown es) (spot [rm_memory_hash memory] (ww_memory t))"
proof -
  let ?k = "(au_team_id a, au_job_id a)" and ?h = "rm_memory_hash memory"
  obtain s where s: "execute_steps wt a (new_worker w) = (s, out)" "t = worker_world.truncate s"
    using assms(8) by (auto simp: execute_job_def split: prod.splits)
  note start = starts_with [OF assms(4)]
  have "pending wt ?k (jr_spec r) (new_worker w) \<and> wf_dir (memory_at [?h] (new_worker w))"
    using start(1) assms(5,7) by (simp add: pending_def) (simp add: new_worker_def worker_world.defs)
  from execution_accounts [OF assms(1-3) s(1) start(2,1) assms(6) this]
  have "accounted wt ?k (jr_spec r) [?h] (outcome_of wt (jr_spec r)) s" .
  with assms(9,10) s(2) obtain fs where "outcome_of wt (jr_spec r) fs" "dir_is fs (spot [?h] (ww_memory t))"
    by (auto simp: accounted_def pending_def current_def jobs_of_def worker_world.defs)
  then show ?thesis unfolding outcome_of_def by blast
qed

end
