(* ===== verification/ExecutionScenarios.thy ===== *)
theory ExecutionScenarios
  imports RunOutcome MemoryScenarios RunScenarios DispatchScenarios
begin

text \<open>
  A worker with a job on a small memory, and a run of it that fails before the agent is started, because its
  instructions are not in the cache. A run that is carried out is in \<open>CompletedRun\<close>.
\<close>

section \<open>The job\<close>

abbreviation job_key :: job_key where "job_key \<equiv> (''t'', ''j1'')"

definition jobs_with :: "job_record \<Rightarrow> job_area" where
  "jobs_with r = stored example_tools job_key r \<lparr>ja_files = [], ja_readonly = [], ja_escapes = []\<rparr>"

definition own_queued :: job_record where
  "own_queued = (example_queued ''j1'')\<lparr>jr_spec := owner_spec\<rparr>"

definition own_authority :: job_authority where
  "own_authority = \<lparr>au_root = ''/jobs'', au_team_id = ''t'', au_job_id = ''j1'', au_immutable_digest = replicate 64 CHR ''0''\<rparr>"

text \<open>A record of this job, in any state of it.\<close>

definition of_job :: "job_record \<Rightarrow> bool" where
  "of_job r \<longleftrightarrow> jr_spec r = owner_spec \<and> jr_authority_digest r = replicate 64 CHR ''0''"

lemma of_job_queued: "of_job own_queued"
  by (simp add: of_job_def own_queued_def example_fields)

lemma of_job_sound: "of_job r \<Longrightarrow> sound_record example_tools r"
  using owner_sound_now by (simp add: sound_record_def of_job_def owner_fields immutable_digest_def example_tools_def)

lemma jobs_read [simp]: "of_job r \<Longrightarrow> read_job example_tools (jobs_with r) job_key None = Inr r"
  by (simp add: jobs_with_def read_stored [OF example_faithful of_job_sound])

lemma jobs_write:
  assumes "of_job r"
  shows "write_job example_tools job_key r (jobs_with r0) = (jobs_with r, Inr ())"
  using of_job_sound [OF assms] unfolding write_job_Inr
  by (simp add: sound_record_def) (simp add: jobs_with_def stored_def)

lemma jobs_update:
  assumes "of_job r" "f r = Inr r'" "of_job r'"
  shows "update_job example_tools job_key f (jobs_with r) = (jobs_with r', Inr r')"
  using assms by (simp add: update_job_def jobs_write bindS_def)

lemma jobs_transition:
  assumes "of_job r" "jr_status r = b" "c \<in> set (VALID_TRANSITIONS b)" "of_job (f (r\<lparr>jr_status := c\<rparr>))"
  shows "transition_job example_tools job_key b c f (jobs_with r) = (jobs_with (f (r\<lparr>jr_status := c\<rparr>)), Inr (f (r\<lparr>jr_status := c\<rparr>)))"
  unfolding transition_job_def using assms by (intro jobs_update) simp_all

lemma jobs_authority:
  assumes "of_job r"
  shows "read_authority example_tools ''/jobs'' (jobs_with r) own_authority = Inr r"
proof -
  have "is_job_id ''j1''" "full_digest (replicate 64 CHR ''0'')" by code_simp+
  then have "reference ''/jobs'' (jobs_with r) ''t'' ''j1'' (replicate 64 CHR ''0'') = Inr own_authority"
    using example_team by (simp add: reference_def job_path_def own_authority_def jobs_with_def stored_def)
  moreover have "read_job example_tools (jobs_with r) job_key (Some (replicate 64 CHR ''0'')) = Inr r"
    using assms by (intro read_job_digest_Some) (simp_all add: of_job_def)
  ultimately show ?thesis by (simp add: read_authority_def own_authority_def)
qed

section \<open>The worker\<close>

definition agent_left :: node where
  "agent_left = DirNode [(launch_name, DirNode [(''.flowgency'', DirNode [(''memory'', directory_of new_content)])])]"

definition agent_output :: agent_result where
  "agent_output = \<lparr>rz_exit_code = 0, rz_stdout = ''done'', rz_stderr = [], rz_duration = JInt 1, rz_changed_files = [],
     rz_write_attempts = [], rz_unenforced = [], rz_session_id = None, rz_copilot_home = JNull, rz_stop = None\<rparr>"

definition example_agent :: agent_runtime where
  "example_agent = \<lparr>gt_has_projector = False,
     gt_run = \<lambda>q w. (w\<lparr>ww_view := (ww_view w)\<lparr>dk_root := agent_left\<rparr>\<rparr>, Inr agent_output)\<rparr>"

definition worker_with :: "(ticket_error + bool \<times> node) \<Rightarrow> worker_tools" where
  "worker_with g = \<lparr>wt_memory = memory_tools_with calm, wt_co = run_coordinator, wt_pid = 7, wt_runtime = \<lambda>_. Inr example_agent,
     wt_artifact = \<lambda>_. g, wt_split = \<lambda>_. (''/mem'', example_hash),
     wt_view_hazard = calm, wt_log_hazard = calm, wt_log_path = \<lambda>n. n, wt_project = \<lambda>_. returnS (),
     wt_base = JNull, wt_git_changes = [], wt_started_at = ''start'', wt_completed_at = ''end'', wt_day = ''2026-01-01'',
     wt_config = Inr \<lparr>cs_revision = ''r1'', cs_library = None, cs_teams = []\<rparr>, wt_moment = demo_moment,
     wt_token_hash = \<lambda>s. s, wt_nonce = ''n'', wt_secret = ''k'', wt_serving = Inr (), wt_shutdown = Inr (),
     wt_clock = \<lambda>_. 0, wt_waits = [], wt_kind = \<lambda>_. ''error'', wt_retain = \<lambda>_. Inr (),
     wt_keep_stage = \<lambda>_ _. Inr [], wt_retained = Inr []\<rparr>"

definition world_at :: "memory_area \<Rightarrow> worker_world" where
  "world_at m = \<lparr>ww_memory = m, ww_view = \<lparr>dk_root = DirNode [], dk_clock = 0\<rparr>,
     ww_logs = \<lparr>dk_root = DirNode [(''logs'', DirNode [])], dk_clock = 0\<rparr>, ww_runs = run_files run_ticket []\<rparr>"

definition old_store :: memory_area where
  "old_store = \<lparr>dk_root = DirNode [(example_hash, directory_of old_content)], dk_clock = 0, ma_jobs = jobs_with own_queued\<rparr>"

lemma worker_sel [simp]:
  "wt_memory (worker_with g) = memory_tools_with calm" "wt_runtime (worker_with g) = (\<lambda>_. Inr example_agent)" "wt_pid (worker_with g) = 7"
  "wt_artifact (worker_with g) = (\<lambda>_. g)" "wt_waits (worker_with g) = []"
  "wt_completed_at (worker_with g) = ''end''" "wt_started_at (worker_with g) = ''start''"
  by (simp_all add: worker_with_def)

lemma own_names [simp]: "au_root own_authority = ''/jobs''" "au_team_id own_authority = ''t''" "au_job_id own_authority = ''j1''"
  by (simp_all add: own_authority_def)

lemma own_trigger [simp]: "sp_trigger owner_spec \<notin> set RETIRED_TRIGGERS"
  by (simp add: owner_spec_def example_spec_def RETIRED_TRIGGERS_def)

lemma own_status [simp]: "jr_status own_queued = Queued" "jr_result_metadata own_queued = JNull" "jr_spec own_queued = owner_spec"
  "jr_launched_at own_queued = None"
  by (simp_all add: own_queued_def example_record [OF example_names(1)])

section \<open>A run that fails before the agent\<close>

definition waiting :: job_record where
  "waiting = own_queued\<lparr>jr_status := WaitingForMemory, jr_worker_pid := Some 7\<rparr>"

definition failed :: job_record where
  "failed = waiting\<lparr>jr_status := Failed, jr_completed_at := Some ''end'', jr_started_at := None, jr_stdout_path := JNull,
     jr_stderr_path := JNull, jr_exit_code := JNull, jr_duration_seconds := JNull, jr_changed_files := JList [],
     jr_execution_summary := Some ''Execution error: error'', jr_base_sha := JNull, jr_memory_publication := JNull,
     jr_session_id := None, jr_copilot_home := JNull\<rparr>"

definition before_runtime :: job_record where
  "before_runtime = failed\<lparr>jr_result_metadata := JObj BEFORE_RUNTIME\<rparr>"

definition failed_store :: memory_area where
  "failed_store = old_store\<lparr>dk_clock := 3, ma_jobs := jobs_with before_runtime\<rparr>"

lemma own_records [simp]: "of_job own_queued" "of_job waiting" "of_job failed" "of_job before_runtime"
  using of_job_queued by (simp_all add: of_job_def waiting_def failed_def before_runtime_def)

lemma own_waiting [simp]: "jr_status waiting = WaitingForMemory" "jr_result_metadata waiting = JNull" "jr_spec waiting = owner_spec"
  "jr_worker_pid waiting = Some 7"
  by (simp_all add: waiting_def)

lemma calm_on_job: "on_job (worker_with g) m s = (case m (jobs_of s) of (j, out) \<Rightarrow>
    (s\<lparr>ww_memory := (tick (ww_memory s))\<lparr>ma_jobs := j\<rparr>\<rparr>, mapErr Failure out))"
  by (simp add: on_job_def on_memory_def jobM_def calm_def jobs_of_def split: prod.split)

lemma claimed: "jobs_of s = jobs_with own_queued \<Longrightarrow> claims (worker_with g) job_key s =
    (s\<lparr>ww_memory := (tick (ww_memory s))\<lparr>ma_jobs := jobs_with waiting\<rparr>\<rparr>, Inr waiting)"
  using jobs_transition [of own_queued Queued WaitingForMemory "\<lambda>r. r\<lparr>jr_worker_pid := Some 7\<rparr>"]
  by (simp add: calm_on_job waiting_def [symmetric] own_records)

lemma own_authority_job: "jobs_of s = jobs_with r \<Longrightarrow> of_job r \<Longrightarrow> authority_job (worker_with g) own_authority s = (s, Inr r)"
  using jobs_authority [of r] by (simp add: authority_job_def jobs_of_def)

lemma own_own_job: "jobs_of s = jobs_with r \<Longrightarrow> of_job r \<Longrightarrow> own_job (worker_with g) job_key s = (s, Inr r)"
  by (simp add: own_job_def jobs_of_def)

lemma own_failed: "jr_status failed = Failed" "jr_result_metadata failed = JNull" "mt_message (memory_tools_with calm) e = ''error''"
  "valueError \<noteq> authorityError"
  by (simp_all add: failed_def memory_tools_with_def authorityError_def)

lemma run_uncached:
  "execute_job (worker_with (Inl valueError)) own_authority (world_at old_store) = (world_at failed_store, Inr before_runtime)"
proof -
  let ?wt = "worker_with (Inl valueError)" and ?s = "new_worker (world_at old_store)"
  let ?u = "?s\<lparr>ww_memory := (tick (ww_memory ?s))\<lparr>ma_jobs := jobs_with waiting\<rparr>\<rparr>"
  let ?v = "?u\<lparr>ww_memory := (tick (ww_memory ?u))\<lparr>ma_jobs := jobs_with failed\<rparr>\<rparr>"
  let ?x = "?v\<lparr>ww_memory := (tick (ww_memory ?v))\<lparr>ma_jobs := jobs_with before_runtime\<rparr>\<rparr>"
  have s: "jobs_of ?s = jobs_with own_queued" by (simp add: new_worker_jobs world_at_def old_store_def)
  have u: "jobs_of ?u = jobs_with waiting" and v: "jobs_of ?v = jobs_with failed" by (simp_all add: jobs_of_def)
  have facts: "wk_started ?u = None" "wk_base_sha ?u = JNull" "\<not> wk_invoked ?v"
    by (simp_all add: new_worker_def worker_world.defs)
  have "terminalize_failure ?wt job_key ''Execution error: error'' (no_facts ?u) ?u = (?v, Inr failed)"
    using jobs_transition [OF own_records(2) own_waiting(1), of Failed] facts
    by (simp add: terminalize_failure_def bindS_def own_own_job [OF u] calm_on_job u no_facts_def failed_def [symmetric])
  moreover have "merge_result_metadata example_tools job_key BEFORE_RUNTIME (jobs_with failed) = (jobs_with before_runtime, Inr before_runtime)"
    unfolding merge_result_metadata_def
    by (rule jobs_update, rule own_records)
      (simp_all add: before_runtime_def [symmetric], simp add: before_runtime_def merged_metadata_def own_failed BEFORE_RUNTIME_def dict_update_def)
  ultimately have errors: "record_error ?wt job_key valueError ?u = (?x, Inr before_runtime)"
    using facts by (simp add: record_error_def bindS_def calm_on_job jobs_of_def own_failed)
  have run: "execute_steps ?wt own_authority ?s = (?x, Inr before_runtime)"
    using own_authority_job [OF s] own_authority_job [OF u] claimed [OF s] errors
    by (simp add: execute_steps_def Let_def bindS_def attempt_run_def catchS_def)
  show ?thesis unfolding execute_job_def run
    by (simp add: new_worker_def worker_world.defs world_at_def failed_store_def old_store_def)
qed

lemma agent_others:
  assumes "\<And>r. R r r"
  shows "others_keep (worker_with g) R"
  using assms by (auto simp: others_keep_def example_agent_def evolves_def jobs_of_def)

lemmas kept_others = agent_others [of kept, OF kept.reflexive] and lives_others = agent_others [of lives, OF lives.reflexive]
  and unmarked_others = agent_others [of "unmarked owner_spec", OF unmarked.reflexive]

lemma old_jobs [simp]: "ma_jobs (ww_memory (world_at old_store)) = jobs_with own_queued"
  "ma_jobs (ww_memory (world_at failed_store)) = jobs_with before_runtime"
  by (simp_all add: world_at_def old_store_def failed_store_def)

lemma own_read: "read_authority (wt_jobs (worker_with g)) (au_root own_authority) (ma_jobs (ww_memory (world_at old_store))) own_authority
    = Inr own_queued"
  using jobs_authority [OF own_records(1)] by simp

lemma own_faithful: "faithful_files (wt_jobs (worker_with g))"
  using example_faithful by simp

theorem execution_keeps_jobs_witness:
  "\<exists>r'. read_job example_tools (jobs_with before_runtime) job_key None = Inr r' \<and> jr_spec r' = owner_spec \<and>
     allowed\<^sup>*\<^sup>* Queued (jr_status r')"
  using execution_keeps_jobs [OF own_faithful kept_others run_uncached, of job_key own_queued] by auto


theorem recovered_only_if_not_run_witness:
  "execute_job (with_agent (\<lambda>q w. (w, Inl Killed)) (worker_with (Inl valueError))) own_authority (world_at old_store) = (world_at failed_store, Inr before_runtime)"
proof (rule recovered_only_if_not_run [OF own_faithful _ run_uncached _ own_read])
  show "others_keep (worker_with (Inl valueError)) (unmarked (jr_spec own_queued))" using unmarked_others by simp
  show "recoverable_pre_runtime_failure before_runtime"
    by (simp add: recoverable_pre_runtime_failure_def before_runtime_def failed_def BEFORE_RUNTIME_def get_or_def has_key_def)
  show "\<not> BeforeRuntime.marked own_queued" by (simp add: marked_def metadata_of_def has_key_def)
qed simp

end
