(* ===== verification/CompletedRun.thy ===== *)
theory CompletedRun
  imports ExecutionScenarios
begin

text \<open>
  A run of a worker that is carried out, call by call: the agent leaves two files in its view, which become the memory
  of its job.
\<close>

abbreviation mem_at :: "(string \<times> node) list \<Rightarrow> nat \<Rightarrow> job_area \<Rightarrow> memory_area" where
  "mem_at es n j \<equiv> \<lparr>dk_root = DirNode es, dk_clock = n, ma_jobs = j\<rparr>"

abbreviation old_memory :: "string \<times> node" where "old_memory \<equiv> (example_hash, DirNode [doc ''memory.md'' ''old''])"
abbreviation new_memory :: "string \<times> node" where
  "new_memory \<equiv> (example_hash, DirNode [doc ''memory.md'' ''new'', doc ''notes.md'' ''n''])"
abbreviation locks_dir :: "string \<times> node" where "locks_dir \<equiv> (''.locks'', DirNode [(example_hash @ ''.lock'', FileNode [])])"

abbreviation staging_dir :: "(string \<times> node) list \<Rightarrow> string \<times> node" where
  "staging_dir es \<equiv> (''.staging'', DirNode [(example_hash, DirNode es)])"

lemmas stage_all = run_all memory_lock_def take_lock_def safe_leaf_def ensure_memory_locked_def stage_memory_locked_def
  snapshot_of_def

lemma locked: "memory_lock (memory_tools_with calm) False example_memory (mem_at [old_memory] n j) =
    (mem_at [old_memory, locks_dir] (n + 2) j, Inr ())"
  by (simp add: stage_all example_memory_def cong: lazy del: bindS_readS)

lemma ensured_run: "ensure_memory_locked (memory_tools_with calm) example_memory (mem_at [old_memory, locks_dir] n j) =
    (mem_at [old_memory, locks_dir] (n + 1) j, Inr (snapshot_of (memory_tools_with calm) example_memory [(''memory.md'', ''old'')]))"
  by (simp add: stage_all example_memory_def cong: lazy del: bindS_readS)

lemma staged_run: "stage_memory_locked (memory_tools_with calm) example_memory ''j1'' (mem_at [old_memory, locks_dir] n j) =
    (mem_at [old_memory, locks_dir, staging_dir [complete_backup]] (n + 5) j, Inr example_stage)"
  by (simp add: stage_all example_memory_def example_stage_def cong: lazy del: bindS_readS)

section \<open>The launch view\<close>

abbreviation launch_node :: "(string \<times> node) list \<Rightarrow> node" where
  "launch_node es \<equiv> DirNode [(''launch'', DirNode [(''instructions'', DirNode []),
     (''.flowgency'', DirNode [(''outbox'', DirNode []), (''memory'', DirNode es)])])]"

lemmas view_all = run_defs create_launch_view_def make_child_def rmtree_def copy_files_def prepare_launch_memory_def
  require_safe_memory_directory_def lookD_def real_directory_def is_link_def reset_memory_directory_def entries_of_def
  place_files_def require_memory_name_and_size_def MAX_MEMORY_FILES_def MAX_MEMORY_ENTRIES_def MAX_MEMORY_FILE_BYTES_def
  ZONE_INSTRUCTIONS_def ZONE_OUTBOX_def ZONE_MEMORY_def launch_name_def

lemma view_made: "create_launch_view calm (\<lambda>s. s) False (DirNode []) launch_name \<lparr>dk_root = DirNode [], dk_clock = n\<rparr> =
    (\<lparr>dk_root = launch_node [], dk_clock = n + 5\<rparr>, Inr ())"
  by (simp add: view_all cong: lazy del: bindS_readS)

lemma memory_name: "path_name ''memory.md'' = ''memory.md''" by code_simp

lemma memory_given: "prepare_launch_memory calm [launch_name] [(''memory.md'', ''old'')] \<lparr>dk_root = launch_node [], dk_clock = n\<rparr> =
    (\<lparr>dk_root = launch_node [doc ''memory.md'' ''old''], dk_clock = n + 1\<rparr>, Inr [''launch'', ''.flowgency'', ''memory''])"
  by (simp add: view_all memory_name cong: lazy del: bindS_readS)

section \<open>The publication\<close>

lemma suffixes: "path_suffix ''memory.md'' = ''.md''" "path_suffix ''notes.md'' = ''.md''"
  "sort_key (\<lambda>e. fst e) [doc ''memory.md'' ''new'', doc ''notes.md'' ''n''] = [doc ''memory.md'' ''new'', doc ''notes.md'' ''n'']"
  by code_simp+

abbreviation working :: "memory_area \<Rightarrow> disk \<Rightarrow> disk \<Rightarrow> string option \<Rightarrow> bool \<Rightarrow> worker" where
  "working m v l st i \<equiv> \<lparr>ww_memory = m, ww_view = v, ww_logs = l, ww_runs = run_files run_ticket [], wk_started = st,
     wk_base_sha = JNull, wk_invoked = i\<rparr>"

abbreviation left_view :: "nat \<Rightarrow> disk" where "left_view c \<equiv> \<lparr>dk_root = agent_left, dk_clock = c\<rparr>"

abbreviation stage_of :: "(string \<times> node) list \<Rightarrow> (string \<times> node) list \<Rightarrow> (string \<times> node) list" where
  "stage_of es rest \<equiv> old_memory # locks_dir # staging_dir [(''j1'', DirNode es)] # rest"

lemmas copy_all = run_defs make_child_def lookD_def on_memory_def on_view_def copy_launch_memory_to_stage_def copy_to_stage_def
  existing_bytes_def entries_of_def MAX_MEMORY_FILES_def MAX_MEMORY_ENTRIES_def MAX_MEMORY_FILE_BYTES_def suffixes

lemma copied_run: "copy_launch_memory_to_stage (memory_tools_with calm) [''launch'', ''.flowgency'', ''memory''] [''.staging'', example_hash, ''j1'']
      (working (mem_at (stage_of [doc ''memory.md'' ''old''] []) n j) (left_view c) l st i) =
    (working (mem_at (stage_of [doc ''memory.md'' ''new'', doc ''notes.md'' ''n''] []) (n + 2) j) (left_view c) l st i, Inr ())"
  by (simp add: copy_all agent_left_def launch_name_def directory_of_def new_content_def cong: lazy del: bindS_readS)

lemma jobs_there [simp]: "ja_escapes (jobs_with r) = []" "\<exists>y. job_file_at (jobs_with r) job_key = Some y"
  by (simp_all add: jobs_with_def stored_def job_file_at_def)

abbreviation new_stage :: "(string \<times> node) list \<Rightarrow> (string \<times> node) list" where
  "new_stage \<equiv> stage_of [doc ''memory.md'' ''new'', doc ''notes.md'' ''n'']"

abbreviation journals_dir :: "(string \<times> node) list \<Rightarrow> string \<times> node" where
  "journals_dir es \<equiv> (''.journals'', DirNode [(example_hash, DirNode es)])"

abbreviation backups_dir :: "(string \<times> node) list \<Rightarrow> string \<times> node" where
  "backups_dir es \<equiv> (''.publication-backups'', DirNode [(example_hash, DirNode es)])"

lemma prepared_run: "prepare_publication (memory_tools_with calm) example_stage ''t'' (Some job_key) (mem_at (new_stage []) n (jobs_with r)) =
    (mem_at (new_stage [journals_dir [], backups_dir []]) (n + 6) (jobs_with r), Inr prepared)"
  by (simp add: run_defs prepare_publication_def example_stage_def example_memory_def same_files_def prepared_def
      old_content_def new_content_def cong: lazy del: bindS_readS)

lemma transacted: "run_transaction_locked (memory_tools_with calm) None False (job_transaction prepared)
      (mem_at (new_stage [journals_dir [], backups_dir []]) n j) =
    (mem_at ([new_memory, locks_dir, staging_dir [(''j1'', DirNode [doc ''memory.md'' ''new'', doc ''notes.md'' ''n''])],
       journals_dir [journal ''published''], backups_dir [complete_backup], (''.backups'', DirNode [])]) (n + 17) j, Inr ())"
  by (simp add: run_all cong: lazy del: bindS_readS)

definition running :: job_record where
  "running = waiting\<lparr>jr_status := Running, jr_worker_pid := Some 7, jr_started_at := Some ''start''\<rparr>"

definition published :: job_record where
  "published = running\<lparr>jr_status := Complete, jr_completed_at := Some ''now'', jr_memory_publication := receipt_to_dict
     \<lparr>rc_selector = \<lparr>ms_scope = ''team'', ms_channel = None\<rparr>, rc_memory_hash = example_hash,
       rc_old_revision = replicate 64 CHR ''2'', rc_new_revision = replicate 64 CHR ''1'', rc_published_at = ''now'', rc_no_change = False\<rparr>\<rparr>"

lemma run_records [simp]: "of_job running" "of_job published" "jr_status running = Running" "jr_status published = Complete"
  "jr_spec running = owner_spec" "jr_spec published = owner_spec"
  using own_records(2) by (simp_all add: running_def published_def of_job_def)

lemma applied_run: "apply_publication (memory_tools_with calm) None False (Some f) True prepared
      (mem_at (new_stage [journals_dir [], backups_dir []]) n j) =
    (mem_at ([new_memory, locks_dir, staging_dir [(''j1'', DirNode [doc ''memory.md'' ''new'', doc ''notes.md'' ''n''])],
       journals_dir [journal ''published''], backups_dir [complete_backup], (''.backups'', DirNode [])]) (n + 17) j,
     Inr \<lparr>ap_prepared = prepared, ap_published_at = ''now''\<rparr>)"
  by (simp add: apply_publication_def Let_def bindS_def catchS_def whenS_def transacted)

lemma marked_run: "transition_job example_tools job_key Running Complete (\<lambda>r. r\<lparr>jr_completed_at := Some ''now'',
      jr_memory_publication := receipt_to_dict \<lparr>rc_selector = \<lparr>ms_scope = ''team'', ms_channel = None\<rparr>, rc_memory_hash = example_hash,
       rc_old_revision = replicate 64 CHR ''2'', rc_new_revision = replicate 64 CHR ''1'', rc_published_at = ''now'', rc_no_change = False\<rparr>\<rparr>)
      (jobs_with running) = (jobs_with published, Inr published)"
  unfolding published_def by (rule jobs_transition) (simp_all add: published_def [symmetric])

abbreviation done_memory :: "(string \<times> node) list" where
  "done_memory \<equiv> [new_memory, locks_dir, staging_dir [], journals_dir [], backups_dir [], (''.backups'', DirNode [])]"

lemma finalized_run: "finalize_publication (memory_tools_with calm) \<lparr>ap_prepared = prepared, ap_published_at = ''now''\<rparr>
    (mem_at ([new_memory, locks_dir, staging_dir [(''j1'', DirNode [doc ''memory.md'' ''new'', doc ''notes.md'' ''n''])],
       journals_dir [journal ''published''], backups_dir [complete_backup], (''.backups'', DirNode [])]) n (jobs_with running)) =
    (mem_at done_memory (n + 7) (jobs_with published),
     Inr \<lparr>rc_selector = \<lparr>ms_scope = ''team'', ms_channel = None\<rparr>, rc_memory_hash = example_hash,
       rc_old_revision = replicate 64 CHR ''2'', rc_new_revision = replicate 64 CHR ''1'', rc_published_at = ''now'', rc_no_change = False\<rparr>)"
  by (simp add: run_defs finalize_publication_def mark_complete_def settle_job_def jobM_def cleanup_paths_def prepared_def
    example_stage_def example_memory_def marked_run cong: lazy del: bindS_readS)

section \<open>The worker\<close>

abbreviation example_worker :: worker_tools where "example_worker \<equiv> worker_with (Inr (False, DirNode []))"

lemma done_sound [simp]: "of_job (success_record x f published)"
  using run_records(2) by (simp add: of_job_def success_record_def)

lemma published_run: "publish_run example_worker job_key [''launch'', ''.flowgency'', ''memory''] example_stage old f x
      (working (mem_at (stage_of [doc ''memory.md'' ''old''] []) n (jobs_with running)) (left_view c) l st i) =
    (working (mem_at done_memory (n + 33) (jobs_with (success_record (completed_summary (fa_changes f) @ x) f published))) (left_view c) l st i,
     Inr (success_record (completed_summary (fa_changes f) @ x) f published))"
  by (simp add: publish_run_def Let_def bindS_def catchS_def copied_run on_memory_def prepared_run applied_run finalized_run
      record_success_def own_job_def rewrite_job_def calm_on_job jobs_of_def jobs_write)

abbreviation logs_with :: "(string \<times> node) list \<Rightarrow> nat \<Rightarrow> disk" where
  "logs_with es n \<equiv> \<lparr>dk_root = DirNode [(''logs'', DirNode [(''2026-01-01'', DirNode es)])], dk_clock = n\<rparr>"

abbreviation prompt_file :: "string \<times> node" where "prompt_file \<equiv> doc ''ann-manual_prompt-j1.prompt'' ''work''"
abbreviation out_file :: "string \<times> node" where "out_file \<equiv> doc ''ann-manual_prompt-j1.out'' ''done''"

lemma texts: "utf8 ''work'' = ''work''" "utf8 ''done'' = ''done''" by code_simp+

lemma names: "log_stem owner_spec = ''ann-manual_prompt-j1''" "prompt_name owner_spec = ''ann-manual_prompt-j1.prompt''"
  "log_stem owner_spec @ ''.out'' = ''ann-manual_prompt-j1.out''" "sp_task_input owner_spec = ''work''" "sp_job_id owner_spec = ''j1''"
  "sp_private_prompts owner_spec = []" "sp_ticket_target owner_spec = None" "sp_trigger owner_spec = ''manual_prompt''"
  by (simp_all add: prompt_name_def log_stem_def owner_spec_def example_spec_def)

lemma worker_logs [simp]: "wt_log_hazard (worker_with g) = calm" "wt_view_hazard (worker_with g) = calm" "wt_day (worker_with g) = ''2026-01-01''"
  "wt_config (worker_with g) = Inr \<lparr>cs_revision = ''r1'', cs_library = None, cs_teams = []\<rparr>" "wt_base (worker_with g) = JNull"
  by (simp_all add: worker_with_def)

lemma logged:
  "write_log (worker_with g) ''ann-manual_prompt-j1.prompt'' ''work'' (working m v (logs_with [] n) st i) = (working m v (logs_with [prompt_file] (n + 1)) st i, Inr ())"
  "write_log (worker_with g) ''ann-manual_prompt-j1.out'' ''done'' (working m v (logs_with [prompt_file] n) st i) =
     (working m v (logs_with [prompt_file, out_file] (n + 1)) st i, Inr ())"
  "on_logs (make_dirs calm [] [''logs'', ''2026-01-01'']) (working m v \<lparr>dk_root = DirNode [(''logs'', DirNode [])], dk_clock = n\<rparr> st i) =
     (working m v (logs_with [] (n + 1)) st i, Inr ())"
  by (simp_all add: write_log_def on_logs_def run_defs make_child_def texts)

definition done_facts :: run_facts where
  "done_facts = facts_of example_worker owner_spec agent_output (working undefined undefined undefined (Some ''start'') True)"

definition completed :: job_record where
  "completed = success_record (completed_summary (fa_changes done_facts) @ unenforced_policy_note agent_output) done_facts published"

lemma output_sel [simp]: "rz_stdout agent_output = ''done''" "rz_stderr agent_output = []" "rz_write_attempts agent_output = []" "rz_exit_code agent_output = 0"
  by (simp_all add: agent_output_def)

lemma reported_run: "report_run example_worker job_key owner_spec [''launch'', ''.flowgency'', ''memory''] example_stage old agent_output None
      (working (mem_at (stage_of [doc ''memory.md'' ''old''] []) n (jobs_with running)) (left_view c) (logs_with [prompt_file] k) (Some ''start'') True) =
    (working (mem_at done_memory (n + 33) (jobs_with completed)) (left_view c) (logs_with [prompt_file, out_file] (k + 1)) (Some ''start'') True,
     Inr completed)"
proof -
  have "facts_of example_worker owner_spec agent_output (working m v l (Some ''start'') True) = done_facts" for m v l
    by (simp add: done_facts_def facts_of_def)
  then show ?thesis
    by (simp add: report_run_def Let_def bindS_def names logged published_run completed_def)
qed

lemma ran: "run_with_tickets example_worker a k running example_agent q (working m \<lparr>dk_root = r, dk_clock = c\<rparr> l st i) =
    (working m (left_view c) l st True, Inr (agent_output, None))"
  by (simp add: run_with_tickets_def ticket_runtime_def requires_live_ticket_tools_def names bindS_def run_agent_def putS_def tryE_def
      by_agent_def example_agent_def worker_world.defs)

lemma begun: "begin_run example_worker job_key (working (mem_at es n (jobs_with waiting)) v l st i) =
    (working (mem_at es (n + 1) (jobs_with running)) v l (Some ''start'') i, Inr running)"
  using jobs_transition [OF own_records(2) own_waiting(1), of Running "\<lambda>r. r\<lparr>jr_worker_pid := Some 7, jr_started_at := Some ''start''\<rparr>"]
  by (simp add: begin_run_def bindS_def putS_def calm_on_job jobs_of_def running_def [symmetric])

lemma launched_run: "prepare_launch example_worker owner_spec example_agent (False, DirNode []) [(''memory.md'', ''old'')]
      (working m \<lparr>dk_root = DirNode [], dk_clock = n\<rparr> l st i) =
    (working m \<lparr>dk_root = launch_node [doc ''memory.md'' ''old''], dk_clock = n + 6\<rparr> l st i, Inr [''launch'', ''.flowgency'', ''memory''])"
proof -
  have fold: "mt_casefold (memory_tools_with calm) = (\<lambda>s. s)" by simp
  show ?thesis unfolding prepare_launch_def
    by (simp add: bindS_def on_view_def view_made memory_given names)
qed

lemma asked: "of_job r \<Longrightarrow> authority_job example_worker own_authority (working (mem_at es n (jobs_with r)) v l st i) =
    (working (mem_at es n (jobs_with r)) v l st i, Inr r)"
  by (rule own_authority_job) (simp_all add: jobs_of_def)

abbreviation first_logs :: disk where "first_logs \<equiv> \<lparr>dk_root = DirNode [(''logs'', DirNode [])], dk_clock = 0\<rparr>"
abbreviation no_view :: disk where "no_view \<equiv> \<lparr>dk_root = DirNode [], dk_clock = 0\<rparr>"

abbreviation done_worker :: "nat \<Rightarrow> worker" where
  "done_worker n \<equiv> working (mem_at done_memory n (jobs_with completed)) (left_view 6) (logs_with [prompt_file, out_file] 3) (Some ''start'') True"

lemma run_done: "run_locked example_worker own_authority job_key owner_spec example_agent (False, DirNode []) example_memory
      (working (mem_at [old_memory, locks_dir] n (jobs_with waiting)) no_view first_logs None False) = (done_worker (n + 40), Inr completed)"
  by (simp add: run_locked_def is_cancelled_def asked bindS_def on_memory_def ensured_run staged_run names launched_run
      begun logged ran reported_run snapshot_of_def del: make_dirs.simps)

lemma memory_of_job: "resolved_memory_of (worker_with g) owner_spec = Inr example_memory"
  by (simp add: resolved_memory_of_def owner_spec_def worker_with_def selector_of_json_def item_def
      get_or_def MEMORY_SCOPES_def example_memory_def)

lemma attempt_done: "attempt_run example_worker own_authority job_key owner_spec
      (working (mem_at [old_memory] n (jobs_with waiting)) no_view first_logs None False) = (done_worker (n + 42), Inr completed)"
  by (simp add: attempt_run_def asked bindS_def catchS_def memory_of_job on_memory_def locked is_cancelled_def run_done)

lemma run_completed: "execute_job example_worker own_authority (world_at old_store) = (worker_world.truncate (done_worker 43), Inr completed)"
proof -
  have start: "new_worker (world_at old_store) = working (mem_at [old_memory] 0 (jobs_with own_queued)) no_view first_logs None False"
    by (simp add: new_worker_def worker_world.defs world_at_def old_store_def directory_of_def old_content_def)
  have claim: "claims example_worker job_key (working (mem_at [old_memory] 0 (jobs_with own_queued)) no_view first_logs None False) =
      (working (mem_at [old_memory] 1 (jobs_with waiting)) no_view first_logs None False, Inr waiting)"
    by (subst claimed) (simp_all add: jobs_of_def)
  show ?thesis
    unfolding execute_job_def start execute_steps_def Let_def own_names bindS_def asked [OF own_records(1)] prod.case sum.case if_not_P [OF own_trigger] own_status
      claim own_waiting
    by (simp add: catchS_def attempt_done)
qed

lemma wf_below:
  assumes "wf_dict es" "\<And>n c q. map_of es n = Some c \<Longrightarrow> wf_dir (look c q)"
  shows "wf_dir (look (DirNode es) q)"
proof (cases q)
  case Nil
  with assms(1) show ?thesis by (simp add: wf_dir_def)
next
  case (Cons p ps)
  with assms(2) show ?thesis by (cases "map_of es p") (simp_all add: wf_dir_def [of None])
qed

lemma wf_leaf: "wf_dir (look (FileNode b) q)"
  by (cases q) (simp_all add: wf_dir_def)

lemma wf_left: "wf_dir (look agent_left q)"
proof -
  have memory: "wf_dir (look (directory_of new_content) q)" for q
    unfolding directory_of_def new_content_def by (rule wf_below) (auto simp: wf_leaf split: if_splits)
  have zones: "wf_dir (look (DirNode [(''memory'', directory_of new_content)]) q)" for q
    by (rule wf_below) (auto simp: memory split: if_splits)
  have view: "wf_dir (look (DirNode [(''.flowgency'', DirNode [(''memory'', directory_of new_content)])]) q)" for q
    by (rule wf_below) (auto simp: zones split: if_splits)
  show ?thesis unfolding agent_left_def by (rule wf_below) (auto simp: view split: if_splits)
qed

lemma example_tidy: "tidy (worker_with g)"
  by (simp add: tidy_def example_agent_def wf_left)

theorem complete_only_if_published_witness:
  "\<exists>t r'. execute_job example_worker own_authority (world_at old_store) = (t, Inr r') \<and> jr_status r' = Complete \<and>
     (\<exists>g q v v' z es. wt_runtime example_worker owner_spec = Inr g \<and> ir_spec q = owner_spec \<and> gt_run g q v = (v', Inr z) \<and>
        rz_exit_code z = 0 \<and> entries_at (dk_root (ww_view v')) (ir_memory_dir q) = Some es \<and>
        dir_is (markdown es) (spot [example_hash] (ww_memory t)))"
proof -
  let ?t = "worker_world.truncate (done_worker 43)"
  have other: "others_keep example_worker (uncompleted owner_spec)" by (rule agent_others) (rule uncompleted.reflexive)
  have status: "jr_status completed = Complete" by (simp add: completed_def success_record_def)
  have "of_job completed" by (simp add: completed_def)
  then have read: "read_job example_tools (ma_jobs (ww_memory ?t)) job_key None = Inr completed" by (simp add: worker_world.defs)
  have wf: "wf_dir (spot [rm_memory_hash example_memory] (ww_memory (world_at old_store)))"
    by (simp add: world_at_def old_store_def spot_def wf_examples)
  from complete_only_if_published [OF own_faithful _ example_tidy own_read _ _ _ run_completed] other status read wf run_completed
  show ?thesis by (simp add: memory_of_job)
qed

end
