(* ===== verification/Spec2Isabelle.thy ===== *)
theory Spec2Isabelle
  imports WorkflowEditing TicketScenarios DispatchScenarios MemoryScenarios RunScenarios CompletedRun
begin

text \<open>
  Flowgency runs teams of agents on tickets. A \<^emph>\<open>blueprint\<close> declares the states, fields and
  transitions of a workflow; a team binds a blueprint to a \<^emph>\<open>board\<close> of tickets in a storage; agents,
  started as jobs, take tickets, report on them and move them through the declared transitions; every
  accepted change is a receipted, versioned operation on one document. This development models
  that core, file by file, and proves what the rest of the program relies on.

  \<^bold>\<open>The theories and the code they model\<close> (all paths below \<^verbatim>\<open>src/flowgency/\<close>).

  \<^item> \<^verbatim>\<open>Prelude\<close>: exceptions as sums, state-passing operations that may raise, Python dictionaries in
    insertion order, strings. No code of the program.
  \<^item> \<^verbatim>\<open>WorkflowModels\<close>: \<^verbatim>\<open>workflows/models.py\<close>, the definition of a workflow and its validators.
  \<^item> \<^verbatim>\<open>Json\<close>: JSON data, Python's equality on it, and the dumps of the workflow models.
  \<^item> \<^verbatim>\<open>WorkflowRules\<close>: \<^verbatim>\<open>workflows/rules.py\<close>, the evaluation of a transition request.
  \<^item> \<^verbatim>\<open>WorkflowEditing\<close>: \<^verbatim>\<open>workflows/editing.py\<close>, the editing commands on a definition.
  \<^item> \<^verbatim>\<open>WorkflowLibrary\<close>: \<^verbatim>\<open>workflows/library.py\<close>, blueprints on disk and their ordered publication.
  \<^item> \<^verbatim>\<open>TicketModels\<close>: \<^verbatim>\<open>tickets/models.py\<close> and \<^verbatim>\<open>tickets/errors.py\<close>, the record, its receipts and
    how an operation is sealed into it.
  \<^item> \<^verbatim>\<open>Artifacts\<close>: \<^verbatim>\<open>tickets/artifacts.py\<close>, retained artifacts and their envelopes.
  \<^item> \<^verbatim>\<open>LocalStorage\<close>: \<^verbatim>\<open>tickets/storages/local.py\<close> and \<^verbatim>\<open>records/frontmatter.py\<close>, documents on disk.
  \<^item> \<^verbatim>\<open>GitEvidence\<close>: \<^verbatim>\<open>git_evidence/models.py\<close>, \<^verbatim>\<open>git_evidence/publication.py\<close> and
    \<^verbatim>\<open>tickets/git_evidence.py\<close>, the trust in evidence of Git changes.
  \<^item> \<^verbatim>\<open>WorkflowConfig\<close>: \<^verbatim>\<open>workflows/configuration.py\<close>, \<^verbatim>\<open>workflows/locking.py\<close> and the part of
    \<^verbatim>\<open>jobs/store.py\<close> the locks use: which blueprint and storage a board is bound to, the order of
    locks, and the publication of a blueprint under the tickets that use it.
  \<^item> \<^verbatim>\<open>TicketService\<close>: \<^verbatim>\<open>tickets/service.py\<close>, \<^verbatim>\<open>tickets/transitions.py\<close> and the cleanup decision of
    \<^verbatim>\<open>jobs/processes.py\<close>, the commands of users and agents.
  \<^item> \<^verbatim>\<open>TicketScenarios\<close>: the service run on concrete tickets, for the hypotheses of its properties.
  \<^item> \<^verbatim>\<open>JobModels\<close>: \<^verbatim>\<open>jobs/models.py\<close>, what a job is asked to do, the contract of each trigger and the
    data of a job file.
  \<^item> \<^verbatim>\<open>JobStore\<close>: \<^verbatim>\<open>jobs/store.py\<close> and the records of \<^verbatim>\<open>jobs/authority.py\<close>, job files, the status
    machine and the slots of the pool.
  \<^item> \<^verbatim>\<open>JobReconciliation\<close>: \<^verbatim>\<open>jobs/reconciliation.py\<close>, the sweep over jobs whose worker is gone.
  \<^item> \<^verbatim>\<open>JobQueue\<close>: \<^verbatim>\<open>jobs/queue.py\<close>, the drain that starts waiting jobs on free slots.
  \<^item> \<^verbatim>\<open>Submission\<close>: \<^verbatim>\<open>jobs/submission.py\<close>, from a resolved specification to a job and its handle.
  \<^item> \<^verbatim>\<open>Schedule\<close>: \<^verbatim>\<open>dispatch/schedule.py\<close> and the schedule part of \<^verbatim>\<open>health.py\<close>, rules and occurrences.
  \<^item> \<^verbatim>\<open>Dispatch\<close>: \<^verbatim>\<open>dispatch/run.py\<close>, the cycle that submits the routines that are due.
  \<^item> \<^verbatim>\<open>TicketAccess\<close>: \<^verbatim>\<open>tickets/access.py\<close>, the sessions through which a running job reaches tickets.
  \<^item> \<^verbatim>\<open>FileTree\<close>: a directory tree, the calls of the operating system on it, which may work, raise or be
    the last one a process makes, and a calculus of pre- and postconditions for programs of such calls. Of
    the program it holds \<^verbatim>\<open>fs/atomic.py\<close>, as one step.
  \<^item> \<^verbatim>\<open>MemoryStore\<close>: \<^verbatim>\<open>memory/store.py\<close> and \<^verbatim>\<open>memory/models.py\<close>, the memories of agents on disk, their
    revisions and the replacement of their files.
  \<^item> \<^verbatim>\<open>MemoryPublication\<close>: \<^verbatim>\<open>memory/publication.py\<close>, what a job or a user publishes to a memory, with
    journal, backup and rollback.
  \<^item> \<^verbatim>\<open>MemoryRecovery\<close>: \<^verbatim>\<open>memory/selectors.py\<close> and \<^verbatim>\<open>memory/recovery.py\<close>, which memory is meant, and what
    becomes of a publication that was cut short.
  \<^item> \<^verbatim>\<open>TicketRuns\<close>: \<^verbatim>\<open>jobs/tickets.py\<close> and the reservation part of \<^verbatim>\<open>jobs/reconciliation.py\<close>, the runs of jobs
    on tickets: reserving a ticket, submitting its job, and what becomes of a reservation that was cut short.
  \<^item> \<^verbatim>\<open>ReservationSafety\<close>: what a reservation, its settlement and the check before a run guarantee.
  \<^item> \<^verbatim>\<open>LaunchMemory\<close>: \<^verbatim>\<open>jobs/launch_view.py\<close>, \<^verbatim>\<open>memory/launch.py\<close>, \<^verbatim>\<open>memory/limits.py\<close> and the zones of
    \<^verbatim>\<open>permissions/zones.py\<close>, the directory an agent runs in, and the world of a worker: the trees of the memories, of the launch
    view and of the logs, the job files and the tickets.
  \<^item> \<^verbatim>\<open>Execution\<close>: \<^verbatim>\<open>jobs/execution.py\<close>, the worker of a job, with the wait of \<^verbatim>\<open>fs/locks.py\<close> and the session
    of \<^verbatim>\<open>tickets/broker.py\<close>.
  \<^item> \<^verbatim>\<open>ExecutionSafety\<close>, \<^verbatim>\<open>BeforeRuntime\<close>, \<^verbatim>\<open>RunOutcome\<close>: a worker keeps the job files and ends its job; a job
    that counts as never run was not run; a job is complete only with its memory published.
  \<^item> \<^verbatim>\<open>RunScenarios\<close>, \<^verbatim>\<open>ExecutionScenarios\<close> and \<^verbatim>\<open>CompletedRun\<close>: concrete reservations, a run of a worker that
    fails early, and one from the claim to the published memory.
  \<^item> \<^verbatim>\<open>MemoryScenarios\<close>: publications that end, fail and die on a small store, and their recovery.
  \<^item> \<^verbatim>\<open>JobScenarios\<close> and \<^verbatim>\<open>DispatchScenarios\<close>: concrete job areas for the hypotheses of the properties.

  \<^bold>\<open>How they interact.\<close> A command of the service resolves the board (\<open>resolve_workflow_binding\<close>) and
  the blueprint (\<open>inspect_blueprint\<close>) under the locks (\<open>workflow_operation\<close>), compares both with the
  version the caller saw (\<open>require_current_version\<close>), and hands a function on records to the
  storage (\<open>apply_op\<close>). The storage replays a receipted operation, checks the revision, calls the
  function, which checks the contract once more (\<open>mutate_current_record\<close>), seals the result
  (\<open>commit_operation\<close>) and writes the document. The contract between service and storage is the
  locale \<open>ticket_store\<close>, interpreted on the local storage.

  A job starts as a record that \<open>submit_job_request\<close> (a user) or \<open>dispatch_routine\<close> (the scheduler)
  creates in the job files (\<open>create_job\<close>). The \<open>drain\<close> sweeps dead workers away (\<open>reconcile_jobs\<close>), reads
  which slots are taken (\<open>queue_snapshot\<close>) and launches the oldest waiting jobs while a slot is free. The
  worker (\<open>execute_job\<close>) claims its job, waits for its memory, stages it (\<open>stage_memory_locked\<close>), lays out the launch view
  (\<open>prepare_launch\<close>), opens a session (\<open>open_session\<close>), and every ticket command it sends
  is admitted by \<open>authenticate\<close>, which reads the job record again. When the worker ends or is found dead,
  its job becomes terminal and \<open>cleanup_job_target\<close> of the service releases its ticket. A job on a ticket is asked for
  by \<open>submit_run\<close>, which reserves the ticket first; the worker checks the reservation (\<open>preflight\<close>) before its agent
  sees the ticket, and the sweep settles the reservations whose job never came (\<open>reconcile_all\<close>). An occurrence
  whose job died before it reached a runtime is offered again by the next dispatch cycle
  (\<open>lost_occurrences\<close>). What the queue needs of a pool of workers is the locale \<open>worker_pool\<close>,
  interpreted on the job files.

  A job that writes to a memory works on a stage of it. At its end \<open>prepare_publication\<close> compares the
  memory with the revision the stage was made from, \<open>apply_publication\<close> replaces its files under the
  memory's lock, and \<open>finalize_publication\<close> completes the job; \<open>copy_launch_memory_to_stage\<close> brings what the agent
  left to the stage before. A user's \<open>try_save_memory\<close> runs the same
  transaction without a job. What a dead process leaves behind is settled by \<open>recover_publications\<close>, which
  decides the fate of the job as well. What the programs on a tree need of it is the locale
  \<open>tree_view\<close>, interpreted on the trees of \<open>FileTree\<close>. How a job file may change while a worker runs is the locale
  \<open>job_relation\<close>: a relation on records that the updates of the program keep, carried once through every step of the
  worker and interpreted on four relations (\<open>kept\<close>, \<open>lives\<close>, \<open>unmarked\<close>, \<open>uncompleted\<close>), one for each question about a run.

  \<^bold>\<open>What the lemmas show.\<close> For each operation: what it does when it returns, that it leaves the state
  alone when it raises (or what it leaves behind), and which parts of the state it never touches. For each
  component: the invariant of its data (\<open>wf_definition\<close> of workflows, \<open>job_step\<close> of job files and the others named in
  their theories), kept over every sequence of operations. Across components: a change to a ticket is
  fenced by the version its caller saw, applied once, and made by the run that owns the ticket; a
  blueprint is published only when it can still read every ticket; a pool never runs more jobs than it
  has slots and starts the oldest first; a worker that is not killed ends its job, and completes it only when the memory
  holds what its agent left; an occurrence of a routine is submitted again
  only when its job never reached a runtime; a memory has its old or its new files, whatever fails, and
  the old ones are not lost while neither is in place.

  \<^bold>\<open>State and errors.\<close> The state of a storage is what lies below its root, as association lists from
  board, ticket and artifact to file contents, with the links and unwritable paths of the host;
  the state of the library is the same for blueprints. An exception is a value of \<open>ticket_error\<close>
  (or \<open>workflow_error\<close>), with the code the source gives it; an operation on a state returns the
  state also when it raises, so that what was written before an exception is kept. The file locks
  make operations atomic, and interleavings are sequences of operations. A service call that
  loads the configuration several times gets one snapshot per load (\<open>moment\<close>), since another
  process may have written in between.

  \<^bold>\<open>Parameters.\<close> YAML, JSON text, SHA-256, \<open>uuid4\<close>, \<open>uuid5\<close>, the clock and the Git executable are not
  in the repository; they are arguments (\<open>provider\<close>, \<open>library_tools\<close>, \<open>identities\<close>, \<open>digests\<close>,
  \<open>git_repository\<close>). Where a property needs what the library documents, it is a hypothesis, for
  instance \<open>codec_ok\<close>: loading what was dumped gives the data back. Characters are code points
  below 256, times are microseconds, Python's integers are unbounded, and floats are rationals with
  infinities and NaN. For jobs, what the operating system and other packages answer is an argument as
  well: whether a worker is alive and what cleaning up yields (\<open>sweep\<close>), what launching a worker does
  (\<open>launch_env\<close>), how a request resolves (\<open>attempt\<close>), the teams and clock of a dispatch cycle
  (\<open>dispatch_env\<close>), digests and times of records (\<open>job_tools\<close>), the random parts and the hash of a token. For memories: the digest, the Unicode tables, random names and what happens to each call
  of the operating system (\<open>memory_tools\<close>). For a worker: the integration that runs the agent, an operation on the whole
  world, what other processes do while it waits (\<open>wt_waits\<close>), Git and the server of the broker (\<open>worker_tools\<close>); its
  theorems say what agent and others keep (\<open>others_keep\<close>, \<open>tidy\<close>). The hypotheses on them: \<open>faithful_files\<close> (a job file that was written loads back, and a canonical id is its
  own canonical form), \<open>well_named\<close> (a job file is where its record says), \<open>separate\<close> (routines that
  differ have markers of different names), \<open>tells_apart\<close> (two contents of a memory with the same revision are
  the same), \<open>wf_dir\<close> (the names in a directory differ).

  \<^bold>\<open>Bounds.\<close> Every recursion of the model terminates: nearly all are structural, \<open>nat_text\<close> (decimal digits)
  decreases its argument, and the drain runs over the snapshot of the queue, so no fuel is used. The
  schedules compute with integers where the code divides floats, which agrees below \<open>2 ^ 33\<close> seconds.

  \<^bold>\<open>Not modelled.\<close> Resolving a request to a specification (\<^verbatim>\<open>jobs/resolution.py\<close>), which reads every library, and
  the integrations, which drive agent runtimes: their results are arguments. Processes, pipes and consoles of
  the operating system. The pins of the artifact cache, which no modelled operation reads. Of
  agent memory: the path checks of \<^verbatim>\<open>_validate_job_stores\<close>, the artifacts kept of a failed stage
  (an argument), and the temporary file of a write that was killed. The deployment file and its raw
  rewriting (\<open>save_instance\<close>), forms of permissions and routines, the capture of Git changes
  (\<open>capture_git_evidence\<close>), ticket views, the broker and its transports, integrations, the web application
  and the command line.
\<close>

end
